(* ===== verification/Elyra_Prelude.thy ===== *)
theory Elyra_Prelude
  imports Main "HOL-Library.Multiset"
begin

text \<open>
  Shared vocabulary of the development: results with an error side, insertion-ordered
  dictionaries, first-minimum selection, bounded histories, and the interface of a store that
  evicts its least recently seen entry before it grows past a limit.

  Python dictionaries keep insertion order and the engine relies on it (\<open>min\<close> over a
  dictionary returns the first minimal key), so a dictionary is an association list with distinct
  keys.
\<close>

named_theorems dict_simps \<open>look-up laws of dictionaries\<close>
named_theorems elyra_splits \<open>case rules for guard chains\<close>

section \<open>Results\<close>

text \<open>\<open>Inl\<close> carries the exception, \<open>Inr\<close> the value.\<close>

definition res_bind :: "'e + 'a \<Rightarrow> ('a \<Rightarrow> 'e + 'b) \<Rightarrow> 'e + 'b" where
  "res_bind m f = (case m of Inl e \<Rightarrow> Inl e | Inr x \<Rightarrow> f x)"

lemma res_bind_simps [simp]:
  "res_bind (Inl e) f = Inl e"
  "res_bind (Inr x) f = f x"
  by (simp_all add: res_bind_def)

lemma res_bind_eq_Inr [elyra_splits]:
  "res_bind m f = Inr y \<longleftrightarrow> (\<exists>x. m = Inr x \<and> f x = Inr y)"
  by (auto simp: res_bind_def split: sum.splits)

lemma res_bind_eq_Inr' [elyra_splits]:
  "Inr y = res_bind m f \<longleftrightarrow> (\<exists>x. m = Inr x \<and> f x = Inr y)"
  by (auto simp: res_bind_def split: sum.splits)

lemma res_bind_eq_Inl:
  "res_bind m f = Inl e \<longleftrightarrow> m = Inl e \<or> (\<exists>x. m = Inr x \<and> f x = Inl e)"
  by (auto simp: res_bind_def split: sum.splits)

definition ensure :: "bool \<Rightarrow> 'e \<Rightarrow> 'e + unit" where
  "ensure b e = (if b then Inr () else Inl e)"

lemma ensure_simps [simp]:
  "ensure b e = Inr u \<longleftrightarrow> b"
  "ensure b e = Inl d \<longleftrightarrow> \<not> b \<and> d = e"
  "ensure True e = Inr ()"
  "ensure False e = Inl e"
  by (auto simp: ensure_def)

definition is_ok :: "'e + 'a \<Rightarrow> bool" where
  "is_ok r = (case r of Inl _ \<Rightarrow> False | Inr _ \<Rightarrow> True)"

lemma is_ok_simps [simp]: "\<not> is_ok (Inl e)" "is_ok (Inr x)"
  by (simp_all add: is_ok_def)

lemma is_ok_iff: "is_ok r \<longleftrightarrow> (\<exists>x. r = Inr x)"
  by (cases r) auto

text \<open>A loop over a list that stops at the first exception.\<close>

fun map_res :: "('a \<Rightarrow> 'e + 'b) \<Rightarrow> 'a list \<Rightarrow> 'e + 'b list" where
  "map_res f [] = Inr []"
| "map_res f (x # xs) = res_bind (f x) (\<lambda>y. res_bind (map_res f xs) (\<lambda>ys. Inr (y # ys)))"

lemma map_res_length: "map_res f xs = Inr ys \<Longrightarrow> length ys = length xs"
  by (induction xs arbitrary: ys) (auto simp: res_bind_eq_Inr)

lemma map_res_all2:
  "map_res f xs = Inr ys \<longleftrightarrow> list_all2 (\<lambda>x y. f x = Inr y) xs ys"
  by (induction xs arbitrary: ys) (auto simp: res_bind_eq_Inr list_all2_Cons1)

lemma map_res_total: "(\<And>x. x \<in> set xs \<Longrightarrow> is_ok (f x)) \<Longrightarrow> is_ok (map_res f xs)"
proof (induction xs)
  case (Cons x xs)
  then have "is_ok (f x)" and "is_ok (map_res f xs)" by simp_all
  then show ?case by (auto simp: is_ok_iff)
qed simp

section \<open>Insertion-ordered dictionaries\<close>

type_synonym ('k, 'v) dict = "('k \<times> 'v) list"

abbreviation dict_get :: "('k, 'v) dict \<Rightarrow> 'k \<Rightarrow> 'v option" where
  "dict_get d k \<equiv> map_of d k"

fun dict_set :: "'k \<Rightarrow> 'v \<Rightarrow> ('k, 'v) dict \<Rightarrow> ('k, 'v) dict" where
  "dict_set k v [] = [(k, v)]"
| "dict_set k v ((k', v') # d) = (if k = k' then (k, v) # d else (k', v') # dict_set k v d)"

definition dict_pop :: "'k \<Rightarrow> ('k, 'v) dict \<Rightarrow> ('k, 'v) dict" where
  "dict_pop k d = filter (\<lambda>p. fst p \<noteq> k) d"

definition dict_get_or :: "('k, 'v) dict \<Rightarrow> 'k \<Rightarrow> 'v \<Rightarrow> 'v" where
  "dict_get_or d k v = (case dict_get d k of None \<Rightarrow> v | Some w \<Rightarrow> w)"

definition dict_ok :: "('k, 'v) dict \<Rightarrow> bool" where
  "dict_ok d = distinct (map fst d)"

text \<open>\<open>{**d, **u}\<close> and \<open>d.update(u)\<close>.\<close>

definition dict_update :: "('k, 'v) dict \<Rightarrow> ('k, 'v) dict \<Rightarrow> ('k, 'v) dict" where
  "dict_update d u = fold (\<lambda>(k, v) acc. dict_set k v acc) u d"

lemma dict_get_set [simp, dict_simps]:
  "dict_get (dict_set k v d) j = (if j = k then Some v else dict_get d j)"
  by (induction d) auto

lemma dict_get_pop [simp, dict_simps]:
  "dict_get (dict_pop k d) j = (if j = k then None else dict_get d j)"
  by (induction d) (auto simp: dict_pop_def)

lemma dict_set_keys:
  "map fst (dict_set k v d) = (if k \<in> fst ` set d then map fst d else map fst d @ [k])"
  by (induction d) (fastforce simp: image_iff)+

lemma dict_ok_set [simp, intro]: "dict_ok d \<Longrightarrow> dict_ok (dict_set k v d)"
  by (auto simp: dict_ok_def dict_set_keys)

lemma dict_ok_pop [simp, intro]: "dict_ok d \<Longrightarrow> dict_ok (dict_pop k d)"
  by (simp add: dict_ok_def dict_pop_def distinct_map_filter)

lemma dict_ok_Nil [simp]: "dict_ok []"
  by (simp add: dict_ok_def)

lemma dict_get_None_iff: "dict_get d k = None \<longleftrightarrow> k \<notin> fst ` set d"
  by (simp add: map_of_eq_None_iff)

lemma dict_length_set:
  "length (dict_set k v d) = (if k \<in> fst ` set d then length d else Suc (length d))"
  by (induction d) (fastforce simp: image_iff)+

lemma dict_length_set_le: "length (dict_set k v d) \<le> Suc (length d)"
  by (simp add: dict_length_set)

lemma dict_length_pop_le: "length (dict_pop k d) \<le> length d"
  by (simp add: dict_pop_def)

lemma dict_length_pop_less: "k \<in> fst ` set d \<Longrightarrow> length (dict_pop k d) < length d"
  by (auto simp: dict_pop_def intro: length_filter_less)

lemma dict_set_set_subset: "set (dict_set k v d) \<subseteq> insert (k, v) (set d)"
proof (induction d)
  case (Cons p d)
  then show ?case by (cases p) auto
qed simp

lemma dict_pop_subset: "set (dict_pop k d) \<subseteq> set d"
  by (auto simp: dict_pop_def)

lemma dict_pop_absent: "k \<notin> fst ` set d \<Longrightarrow> dict_pop k d = d"
  by (auto simp: dict_pop_def filter_id_conv)

lemma dict_pop_keys: "fst ` set (dict_pop k d) = fst ` set d - {k}"
  by (auto simp: dict_pop_def)

lemma dict_in_set_get: "dict_ok d \<Longrightarrow> (k, v) \<in> set d \<longleftrightarrow> dict_get d k = Some v"
  by (simp add: dict_ok_def)

lemma dict_set_same: "dict_get d k = Some v \<Longrightarrow> dict_set k v d = d"
  by (induction d) (auto split: if_splits)

lemma dict_set_twice [simp]: "dict_set k w (dict_set k v d) = dict_set k w d"
  by (induction d) auto

lemma dict_from_keys:
  assumes "map fst d = ks" and "distinct ks" and "\<And>k. k \<in> set ks \<Longrightarrow> dict_get d k = Some (f k)"
  shows "d = map (\<lambda>k. (k, f k)) ks"
  using assms
proof (induction d arbitrary: ks)
  case (Cons p d)
  obtain k v where p: "p = (k, v)" by (cases p)
  have ks1: "ks = k # map fst d" using Cons.prems(1) p by simp
  then have "distinct (k # map fst d)" using Cons.prems(2) by simp
  then have ks: "ks = k # map fst d" "k \<notin> set (map fst d)" "distinct (map fst d)"
    using ks1 by (simp_all only: distinct.simps simp_thms)
  have "v = f k" using Cons.prems(3) [of k] ks p by simp
  moreover have "dict_get d j = Some (f j)" if "j \<in> set (map fst d)" for j
  proof -
    from that ks(2) have "j \<noteq> k" by auto
    then show ?thesis using Cons.prems(3) [of j] ks(1) p that by simp
  qed
  then have "d = map (\<lambda>k. (k, f k)) (map fst d)" by (intro Cons.IH) (use ks in auto)
  ultimately show ?case using ks(1) p by (metis list.simps(9))
qed simp

text \<open>A property of every entry survives each dictionary operation.\<close>

definition dict_all :: "('k \<Rightarrow> 'v \<Rightarrow> bool) \<Rightarrow> ('k, 'v) dict \<Rightarrow> bool" where
  "dict_all P d = list_all (\<lambda>(k, v). P k v) d"

lemma dict_all_iff: "dict_all P d \<longleftrightarrow> (\<forall>(k, v) \<in> set d. P k v)"
  by (simp add: dict_all_def list_all_iff)

lemma dict_all_Nil [simp]: "dict_all P []"
  by (simp add: dict_all_def)

lemma dict_all_set [intro]: "dict_all P d \<Longrightarrow> P k v \<Longrightarrow> dict_all P (dict_set k v d)"
  using dict_set_set_subset [of k v d] by (auto simp: dict_all_iff)

lemma dict_all_pop [intro]: "dict_all P d \<Longrightarrow> dict_all P (dict_pop k d)"
  by (auto simp: dict_all_iff dict_pop_def)

lemma dict_all_get: "dict_all P d \<Longrightarrow> dict_get d k = Some v \<Longrightarrow> P k v"
  by (auto simp: dict_all_iff dest: map_of_SomeD)

section \<open>First minimum and stable descending order\<close>

text \<open>\<open>min(xs, key=f)\<close> on a non-empty sequence: the first element with the least key.\<close>

fun min_key :: "('a \<Rightarrow> 'b::linorder) \<Rightarrow> 'a \<Rightarrow> 'a list \<Rightarrow> 'a" where
  "min_key f x [] = x"
| "min_key f x (y # ys) = (if f y < f x then min_key f y ys else min_key f x ys)"

lemma min_key_mem: "min_key f x ys \<in> insert x (set ys)"
  by (induction ys arbitrary: x) auto

lemma min_key_le: "z \<in> insert x (set ys) \<Longrightarrow> f (min_key f x ys) \<le> f z"
proof (induction ys arbitrary: x z)
  case (Cons y ys)
  have mx: "f (min_key f x ys) \<le> f x" and my: "f (min_key f y ys) \<le> f y"
    using Cons.IH by blast+
  show ?case using Cons.prems Cons.IH mx my by fastforce
qed simp

text \<open>\<open>sorted(xs, key=f, reverse=True)\<close>: descending and stable.\<close>

definition sort_desc :: "('a \<Rightarrow> 'b::linorder) \<Rightarrow> 'a list \<Rightarrow> 'a list" where
  "sort_desc f xs = rev (sort_key f (rev xs))"

lemma set_sort_desc [simp]: "set (sort_desc f xs) = set xs"
  by (simp add: sort_desc_def)

lemma length_sort_desc [simp]: "length (sort_desc f xs) = length xs"
  by (simp add: sort_desc_def)

lemma mset_sort_desc [simp]: "mset (sort_desc f xs) = mset xs"
  by (simp add: sort_desc_def)

lemma sort_desc_descending: "sorted_wrt (\<lambda>x y. f y \<le> f x) (sort_desc f xs)"
proof -
  have "sorted (map f (sort_key f (rev xs)))" by simp
  then have "sorted_wrt (\<lambda>x y. f x \<le> f y) (sort_key f (rev xs))"
    by (simp add: sorted_map)
  then show ?thesis by (simp add: sort_desc_def sorted_wrt_rev)
qed

section \<open>Bounded histories\<close>

text \<open>\<open>xs[-n:]\<close> for a positive \<open>n\<close>, and \<open>deque(maxlen=n).append\<close>.\<close>

definition last_n :: "nat \<Rightarrow> 'a list \<Rightarrow> 'a list" where
  "last_n n xs = drop (length xs - n) xs"

definition push_bounded :: "nat \<Rightarrow> 'a \<Rightarrow> 'a list \<Rightarrow> 'a list" where
  "push_bounded n x xs = last_n n (xs @ [x])"

lemma length_last_n [simp]: "length (last_n n xs) = min n (length xs)"
  by (simp add: last_n_def)

lemma last_n_id [simp]: "length xs \<le> n \<Longrightarrow> last_n n xs = xs"
  by (simp add: last_n_def)

lemma set_last_n: "set (last_n n xs) \<subseteq> set xs"
  by (simp add: last_n_def set_drop_subset)

lemma last_n_suffix: "\<exists>ys. xs = ys @ last_n n xs"
  unfolding last_n_def by (metis append_take_drop_id)

lemma last_n_last_n: "last_n m (last_n n xs) = last_n (min m n) xs"
proof -
  have "length xs - n + (length xs - (length xs - n) - m) = length xs - min m n" by arith
  then show ?thesis by (simp add: last_n_def add.commute)
qed

lemma last_n_append_last_n: "last_n n (last_n n xs @ ys) = last_n n (xs @ ys)"
proof (cases "length ys \<ge> n")
  case True
  then show ?thesis by (simp add: last_n_def)
next
  case False
  then have "length xs - n + (length xs - (length xs - n) + length ys - n) = length xs + length ys - n"
    by arith
  with False show ?thesis by (simp add: last_n_def add.commute)
qed

lemma length_push_bounded_le [simp]: "length (push_bounded n x xs) \<le> n"
  by (simp add: push_bounded_def)

lemma push_bounded_fold: "fold (push_bounded n) ys (last_n n xs) = last_n n (xs @ ys)"
proof (induction ys arbitrary: xs)
  case (Cons y ys)
  have "push_bounded n y (last_n n xs) = last_n n (xs @ [y])"
    by (simp add: push_bounded_def last_n_append_last_n)
  then show ?case using Cons.IH [of "xs @ [y]"] by simp
qed simp

section \<open>Interface: a keyed store that evicts its oldest entry\<close>

text \<open>
  Three components keep per-key state under a size limit and drop the entry seen least recently
  before they add a key: the correlation engine (\<open>states\<close>), the telemetry aggregator
  (\<open>states\<close>) and the response engine (\<open>_bindings\<close>). \<open>evict\<close> is the pop of
  \<open>min(d, key=lambda k: seen(d[k]))\<close>.
\<close>

definition oldest_key :: "('v \<Rightarrow> 't::linorder) \<Rightarrow> ('k, 'v) dict \<Rightarrow> 'k option" where
  "oldest_key seen d = (case d of [] \<Rightarrow> None | p # ps \<Rightarrow> Some (fst (min_key (seen \<circ> snd) p ps)))"

lemma oldest_key_Some: "oldest_key seen d = Some k \<Longrightarrow> k \<in> fst ` set d"
proof (cases d)
  case (Cons p ps)
  moreover assume "oldest_key seen d = Some k"
  ultimately show ?thesis using min_key_mem [of "seen \<circ> snd" p ps] by (auto simp: oldest_key_def)
qed (simp add: oldest_key_def)

lemma oldest_key_None: "oldest_key seen d = None \<longleftrightarrow> d = []"
  by (simp add: oldest_key_def split: list.splits)

lemma oldest_key_least:
  assumes ok: "dict_ok d" and old: "oldest_key seen d = Some k"
    and v: "dict_get d k = Some v" and w: "dict_get d j = Some w"
  shows "seen v \<le> seen w"
proof -
  obtain p ps where d: "d = p # ps" using old by (cases d) (auto simp: oldest_key_def)
  let ?m = "min_key (seen \<circ> snd) p ps"
  have km: "fst ?m = k" using old d by (simp add: oldest_key_def)
  have "?m \<in> set d" using min_key_mem [of "seen \<circ> snd" p ps] d by simp
  then have "dict_get d k = Some (snd ?m)" using ok km by (metis dict_in_set_get prod.collapse)
  moreover have "(j, w) \<in> insert p (set ps)" using w d map_of_SomeD by fastforce
  then have "(seen \<circ> snd) ?m \<le> (seen \<circ> snd) (j, w)" by (rule min_key_le)
  ultimately show ?thesis using v by simp
qed

locale evicting_store =
  fixes seen :: "'v \<Rightarrow> 't::linorder"
    and limit :: nat
    and admit :: "'k \<Rightarrow> 'v \<Rightarrow> ('k, 'v) dict \<Rightarrow> ('k, 'v) dict"
  assumes admit_get: "dict_get (admit k v d) k = Some v"
    and admit_ok: "dict_ok d \<Longrightarrow> dict_ok (admit k v d)"
    and admit_sub: "j \<noteq> k \<Longrightarrow> dict_get (admit k v d) j = Some w \<Longrightarrow> dict_get d j = Some w"
    and admit_len: "0 < limit \<Longrightarrow> length d \<le> limit \<Longrightarrow> length (admit k v d) \<le> limit"
    and admit_old: "dict_ok d \<Longrightarrow> dict_get d j = Some w \<Longrightarrow> j \<noteq> k \<Longrightarrow>
      dict_get (admit k v d) j = None \<Longrightarrow> dict_get d i = Some u \<Longrightarrow>
      dict_get (admit k v d) i = Some u \<Longrightarrow> i \<noteq> k \<Longrightarrow> seen w \<le> seen u"
begin

text \<open>Any sequence of admissions keeps the store a dictionary within its limit.\<close>

definition admit_all :: "('k \<times> 'v) list \<Rightarrow> ('k, 'v) dict \<Rightarrow> ('k, 'v) dict" where
  "admit_all kvs d = fold (\<lambda>(k, v). admit k v) kvs d"

lemma admit_all_Nil [simp]: "admit_all [] d = d"
  by (simp add: admit_all_def)

lemma admit_all_Cons [simp]: "admit_all ((k, v) # kvs) d = admit_all kvs (admit k v d)"
  by (simp add: admit_all_def)

lemma admit_all_ok: "dict_ok d \<Longrightarrow> dict_ok (admit_all kvs d)"
proof (induction kvs arbitrary: d)
  case (Cons p kvs)
  then show ?case by (cases p) (simp add: admit_ok)
qed simp

lemma admit_all_bounded: "0 < limit \<Longrightarrow> length d \<le> limit \<Longrightarrow> length (admit_all kvs d) \<le> limit"
proof (induction kvs arbitrary: d)
  case (Cons p kvs)
  then show ?case by (cases p) (simp add: admit_len)
qed simp

lemma admit_all_from:
  "dict_get (admit_all kvs d) k = Some v \<Longrightarrow> dict_get d k = Some v \<or> (k, v) \<in> set kvs"
proof (induction kvs arbitrary: d)
  case (Cons p kvs)
  obtain a b where p: "p = (a, b)" by (cases p)
  have "admit_all (p # kvs) d = admit_all kvs (admit a b d)" by (simp add: admit_all_def p)
  then have "dict_get (admit a b d) k = Some v \<or> (k, v) \<in> set kvs"
    using Cons.IH Cons.prems by simp
  then show ?case
    using admit_sub [of k a b d v] admit_get [of a b d] p by (cases "k = a") auto
qed (simp add: admit_all_def)

lemma newest_survives: "dict_get (admit_all (kvs @ [(k, v)]) d) k = Some v"
  by (simp add: admit_all_def admit_get)

end

text \<open>The operation the three components share, and its laws for every limit and time stamp.\<close>

definition evict_oldest :: "('v \<Rightarrow> 't::linorder) \<Rightarrow> nat \<Rightarrow> ('k, 'v) dict \<Rightarrow> ('k, 'v) dict" where
  "evict_oldest seen limit d =
     (if limit \<le> length d
      then (case oldest_key seen d of None \<Rightarrow> d | Some k \<Rightarrow> dict_pop k d)
      else d)"

definition evict_set :: "('v \<Rightarrow> 't::linorder) \<Rightarrow> nat \<Rightarrow> 'k \<Rightarrow> 'v \<Rightarrow> ('k, 'v) dict \<Rightarrow> ('k, 'v) dict" where
  "evict_set seen limit k v d = dict_set k v (evict_oldest seen limit d)"

lemma dict_ok_evict_oldest [simp]: "dict_ok d \<Longrightarrow> dict_ok (evict_oldest seen limit d)"
  by (simp add: evict_oldest_def split: option.splits)

lemma evict_oldest_get:
  "dict_get (evict_oldest seen limit d) k = Some v \<Longrightarrow> dict_get d k = Some v"
  by (auto simp: evict_oldest_def split: if_splits option.splits)

lemma evict_oldest_room:
  assumes "0 < limit" and "length d \<le> limit"
  shows "length (evict_oldest seen limit d) < limit"
proof (cases "limit \<le> length d")
  case True
  then obtain k where k: "oldest_key seen d = Some k"
    using assms by (cases "oldest_key seen d") (auto simp: oldest_key_None)
  have "length (dict_pop k d) < length d"
    using oldest_key_Some [OF k] by (rule dict_length_pop_less)
  with k True assms show ?thesis by (simp add: evict_oldest_def)
qed (simp add: evict_oldest_def)

lemma evict_oldest_victim:
  assumes "dict_ok d" and "dict_get d j = Some w" and "dict_get (evict_oldest seen limit d) j = None"
    and "dict_get d i = Some u"
  shows "seen w \<le> seen u"
proof -
  have "oldest_key seen d = Some j"
    using assms(2,3) by (auto simp: evict_oldest_def split: if_splits option.splits)
  then show ?thesis by (rule oldest_key_least [OF assms(1) _ assms(2,4)])
qed

lemma evict_set_length:
  assumes "0 < limit" and "length d \<le> limit"
  shows "length (evict_set seen limit k v d) \<le> limit"
proof -
  have "length (evict_oldest seen limit d) < limit" using assms by (rule evict_oldest_room)
  then show ?thesis
    using dict_length_set_le [of k v "evict_oldest seen limit d"] by (simp add: evict_set_def)
qed

lemma evict_set_store: "evicting_store seen limit (evict_set seen limit)"
proof (unfold_locales, goal_cases)
  case (4 d k v)
  then show ?case by (rule evict_set_length)
next
  case (5 d j w k v i u)
  then show ?case by (auto simp: evict_set_def intro: evict_oldest_victim)
qed (auto simp: evict_set_def dest: evict_oldest_get)

end
