(* ===== verification/Effects.thy ===== *)
theory Effects
  imports Elyra_Prelude
begin

text \<open>
  Stateful operations that may raise. An operation maps a state to an outcome and the state it
  leaves behind, so the mutations made before an exception stay visible, as they do in Python.
  A public method that holds its component's lock is one such operation; an interleaving of
  threads is a sequence of operations.

  The locale \<open>effect_relation\<close> is the proof interface: a reflexive and transitive relation between
  the states before and after is closed under every combinator, exceptional exits included. An
  invariant is the special case \<open>I s \<longrightarrow> I s'\<close>.
\<close>

named_theorems eff_simps \<open>unfolding of the combinators\<close>

type_synonym ('s, 'e, 'a) eff = "'s \<Rightarrow> ('e + 'a) \<times> 's"

definition eff_return :: "'a \<Rightarrow> ('s, 'e, 'a) eff" where
  "eff_return x = (\<lambda>s. (Inr x, s))"

definition eff_raise :: "'e \<Rightarrow> ('s, 'e, 'a) eff" where
  "eff_raise e = (\<lambda>s. (Inl e, s))"

definition eff_bind :: "('s, 'e, 'a) eff \<Rightarrow> ('a \<Rightarrow> ('s, 'e, 'b) eff) \<Rightarrow> ('s, 'e, 'b) eff" where
  "eff_bind m f = (\<lambda>s. case m s of (Inl e, s') \<Rightarrow> (Inl e, s') | (Inr x, s') \<Rightarrow> f x s')"

definition eff_gets :: "('s \<Rightarrow> 'a) \<Rightarrow> ('s, 'e, 'a) eff" where
  "eff_gets f = (\<lambda>s. (Inr (f s), s))"

definition eff_modify :: "('s \<Rightarrow> 's) \<Rightarrow> ('s, 'e, unit) eff" where
  "eff_modify f = (\<lambda>s. (Inr (), f s))"

definition eff_lift :: "'e + 'a \<Rightarrow> ('s, 'e, 'a) eff" where
  "eff_lift r = (\<lambda>s. (r, s))"

definition eff_when :: "bool \<Rightarrow> ('s, 'e, unit) eff \<Rightarrow> ('s, 'e, unit) eff" where
  "eff_when b m = (if b then m else eff_return ())"

definition eff_catch :: "('s, 'e, 'a) eff \<Rightarrow> ('e \<Rightarrow> ('s, 'e, 'a) eff) \<Rightarrow> ('s, 'e, 'a) eff" where
  "eff_catch m h = (\<lambda>s. case m s of (Inl e, s') \<Rightarrow> h e s' | (Inr x, s') \<Rightarrow> (Inr x, s'))"

fun eff_for :: "('a \<Rightarrow> ('s, 'e, unit) eff) \<Rightarrow> 'a list \<Rightarrow> ('s, 'e, unit) eff" where
  "eff_for f [] = eff_return ()"
| "eff_for f (x # xs) = eff_bind (f x) (\<lambda>_. eff_for f xs)"

lemma eff_run [simp, eff_simps]:
  "eff_return x s = (Inr x, s)"
  "eff_raise e s = (Inl e, s)"
  "eff_gets g s = (Inr (g s), s)"
  "eff_modify h s = (Inr (), h s)"
  "eff_lift r s = (r, s)"
  by (simp_all add: eff_return_def eff_raise_def eff_gets_def eff_modify_def eff_lift_def)

lemma eff_bind_run [eff_simps]:
  "eff_bind m f s = (case m s of (Inl e, s') \<Rightarrow> (Inl e, s') | (Inr x, s') \<Rightarrow> f x s')"
  by (simp add: eff_bind_def)

lemma eff_bind_simps [simp]:
  "m s = (Inl e, s') \<Longrightarrow> eff_bind m f s = (Inl e, s')"
  "m s = (Inr x, s') \<Longrightarrow> eff_bind m f s = f x s'"
  by (simp_all add: eff_bind_def)

lemma eff_bind_Inr:
  "eff_bind m f s = (Inr y, s'') \<longleftrightarrow> (\<exists>x s'. m s = (Inr x, s') \<and> f x s' = (Inr y, s''))"
  by (auto simp: eff_bind_def split: prod.splits sum.splits)

lemma eff_bind_cases:
  assumes "eff_bind m f s = (r, t)"
  obtains (raised) e where "m s = (Inl e, t)" "r = Inl e" | (returned) x s' where "m s = (Inr x, s')" "f x s' = (r, t)"
proof (cases "m s")
  case (Pair q s')
  then show thesis using assms that by (cases q) auto
qed

lemma eff_catch_cases:
  assumes "eff_catch m h s = (r, t)"
  obtains (returned) x where "m s = (Inr x, t)" "r = Inr x" | (raised) e s' where "m s = (Inl e, s')" "h e s' = (r, t)"
proof (cases "m s")
  case (Pair q s')
  then show thesis using assms that by (cases q) (auto simp: eff_catch_def)
qed

lemma eff_when_simps [simp]: "eff_when True m = m" "eff_when False m = eff_return ()"
  by (simp_all add: eff_when_def)

lemma eff_for_append: "eff_for f (xs @ ys) = eff_bind (eff_for f xs) (\<lambda>_. eff_for f ys)"
  by (induction xs) (auto simp: eff_bind_def fun_eq_iff split: prod.splits sum.splits)

text \<open>What holds of every value an operation returns normally.\<close>

definition yields :: "('a \<Rightarrow> bool) \<Rightarrow> ('s, 'e, 'a) eff \<Rightarrow> bool" where
  "yields Q m \<longleftrightarrow> (\<forall>s x s'. m s = (Inr x, s') \<longrightarrow> Q x)"

lemma yields_return: "Q x \<Longrightarrow> yields Q (eff_return x)"
  and yields_raise: "yields Q (eff_raise e)"
  and yields_mono: "yields P m \<Longrightarrow> (\<And>x. P x \<Longrightarrow> Q x) \<Longrightarrow> yields Q m"
  and yields_if: "yields Q m \<Longrightarrow> yields Q n \<Longrightarrow> yields Q (if b then m else n)"
  by (auto simp: yields_def)

lemma yields_option: "yields Q m \<Longrightarrow> (\<And>x. yields Q (f x)) \<Longrightarrow> yields Q (case opt of None \<Rightarrow> m | Some x \<Rightarrow> f x)"
  by (cases opt) simp_all

lemma yields_catch: "yields Q m \<Longrightarrow> (\<And>e. yields Q (h e)) \<Longrightarrow> yields Q (eff_catch m h)"
  by (auto simp: yields_def eff_catch_def split: prod.splits sum.splits)

lemma yields_bind: "(\<And>x. yields Q (f x)) \<Longrightarrow> yields Q (eff_bind m f)"
  by (auto simp: yields_def eff_bind_Inr)

lemma yields_bound: "yields P m \<Longrightarrow> (\<And>x. P x \<Longrightarrow> yields Q (f x)) \<Longrightarrow> yields Q (eff_bind m f)"
  unfolding yields_def eff_bind_Inr by blast

text \<open>The states an operation may connect.\<close>

definition relates :: "('s \<Rightarrow> 's \<Rightarrow> bool) \<Rightarrow> ('s, 'e, 'a) eff \<Rightarrow> bool" where
  "relates R m = (\<forall>s. R s (snd (m s)))"

lemma relatesD: "relates R m \<Longrightarrow> m s = (r, s') \<Longrightarrow> R s s'"
  unfolding relates_def by (metis snd_conv)

locale effect_relation =
  fixes R :: "'s \<Rightarrow> 's \<Rightarrow> bool"
  assumes R_refl: "R s s"
    and R_trans: "R s t \<Longrightarrow> R t u \<Longrightarrow> R s u"
begin

lemma relates_pure:
  "relates R (eff_return x)" "relates R (eff_raise e)" "relates R (eff_gets g)" "relates R (eff_lift r)"
  by (simp_all add: relates_def R_refl)

lemma relates_modify: "(\<And>s. R s (f s)) \<Longrightarrow> relates R (eff_modify f)"
  by (simp add: relates_def)

lemma relates_bind:
  assumes "relates R m" and "\<And>x. relates R (f x)"
  shows "relates R (eff_bind m f)"
  unfolding relates_def
proof
  fix s
  obtain r s' where ms: "m s = (r, s')" by (cases "m s")
  have 1: "R s s'" using relatesD [OF assms(1) ms] .
  show "R s (snd (eff_bind m f s))"
  proof (cases r)
    case (Inl e)
    then show ?thesis using ms 1 by (simp add: eff_bind_def)
  next
    case (Inr x)
    have "R s' (snd (f x s'))" using assms(2) [of x] by (simp add: relates_def)
    then show ?thesis using ms Inr R_trans [OF 1] by (simp add: eff_bind_def)
  qed
qed

text \<open>The rules at a given state keep what was read from it.\<close>

lemma at_bind:
  assumes "R s (snd (m s))" and "\<And>x s'. m s = (Inr x, s') \<Longrightarrow> R s' (snd (f x s'))"
  shows "R s (snd (eff_bind m f s))"
proof -
  obtain r s' where ms: "m s = (r, s')" by (cases "m s")
  have 1: "R s s'" using assms(1) ms by simp
  show ?thesis
  proof (cases r)
    case (Inl e)
    then show ?thesis using ms 1 by (simp add: eff_bind_def)
  next
    case (Inr x)
    then show ?thesis using ms assms(2) R_trans [OF 1] by (simp add: eff_bind_def)
  qed
qed

lemma at_gets: "R s (snd (f (g s) s)) \<Longrightarrow> R s (snd (eff_bind (eff_gets g) f s))"
  by (simp add: eff_bind_def)

lemma at_lift: "(\<And>x. r = Inr x \<Longrightarrow> R s (snd (f x s))) \<Longrightarrow> R s (snd (eff_bind (eff_lift r) f s))"
  by (cases r) (simp_all add: eff_bind_def R_refl)

lemma at_catch:
  assumes "R s (snd (m s))" and "\<And>e s'. m s = (Inl e, s') \<Longrightarrow> R s' (snd (h e s'))"
  shows "R s (snd (eff_catch m h s))"
proof -
  obtain r s' where ms: "m s = (r, s')" by (cases "m s")
  then show ?thesis
    using assms R_trans by (cases r) (auto simp: eff_catch_def)
qed

lemma at_relates: "relates R m \<Longrightarrow> R s (snd (m s))"
  by (simp add: relates_def)

lemma relates_bind_lift: "(\<And>x. r = Inr x \<Longrightarrow> relates R (f x)) \<Longrightarrow> relates R (eff_bind (eff_lift r) f)"
  unfolding relates_def by (blast intro: at_lift)

lemma relates_bind_gets: "(\<And>s. R s (snd (f (g s) s))) \<Longrightarrow> relates R (eff_bind (eff_gets g) f)"
  unfolding relates_def by (blast intro: at_gets)

lemma relates_when: "(b \<Longrightarrow> relates R m) \<Longrightarrow> relates R (eff_when b m)"
  by (cases b) (simp_all add: relates_pure)

lemma relates_if: "(b \<Longrightarrow> relates R m) \<Longrightarrow> (\<not> b \<Longrightarrow> relates R n) \<Longrightarrow> relates R (if b then m else n)"
  by simp

lemma relates_option:
  "relates R n \<Longrightarrow> (\<And>x. v = Some x \<Longrightarrow> relates R (f x)) \<Longrightarrow>
   relates R (case v of None \<Rightarrow> n | Some x \<Rightarrow> f x)"
  by (cases v) simp_all

lemma relates_catch:
  assumes "relates R m" and "\<And>e. relates R (h e)"
  shows "relates R (eff_catch m h)"
  unfolding relates_def
proof
  fix s
  obtain r s' where ms: "m s = (r, s')" by (cases "m s")
  have 1: "R s s'" using relatesD [OF assms(1) ms] .
  show "R s (snd (eff_catch m h s))"
  proof (cases r)
    case (Inl e)
    have "R s' (snd (h e s'))" using assms(2) [of e] by (simp add: relates_def)
    then show ?thesis using ms Inl R_trans [OF 1] by (simp add: eff_catch_def)
  qed (use ms 1 in \<open>simp add: eff_catch_def\<close>)
qed

lemma relates_for: "(\<And>x. x \<in> set xs \<Longrightarrow> relates R (f x)) \<Longrightarrow> relates R (eff_for f xs)"
  by (induction xs) (simp_all add: relates_pure relates_bind)

lemma relates_sum:
  "(\<And>e. r = Inl e \<Longrightarrow> relates R (f e)) \<Longrightarrow> (\<And>x. r = Inr x \<Longrightarrow> relates R (g x)) \<Longrightarrow>
    relates R (case r of Inl e \<Rightarrow> f e | Inr x \<Rightarrow> g x)"
  by (cases r) simp_all

lemmas relates_intros =
  relates_pure relates_bind relates_when relates_if relates_option relates_catch relates_for

end

text \<open>Invariants: preservation is reflexive and transitive.\<close>

definition preserves :: "('s \<Rightarrow> bool) \<Rightarrow> 's \<Rightarrow> 's \<Rightarrow> bool" where
  "preserves I s s' = (I s \<longrightarrow> I s')"

abbreviation keeps :: "('s \<Rightarrow> bool) \<Rightarrow> ('s, 'e, 'a) eff \<Rightarrow> bool" where
  "keeps I \<equiv> relates (preserves I)"

interpretation inv: effect_relation "preserves I" for I
  by unfold_locales (simp_all add: preserves_def)

lemma keepsD: "keeps I m \<Longrightarrow> I s \<Longrightarrow> m s = (r, s') \<Longrightarrow> I s'"
  using relatesD [of "preserves I" m s r s'] by (simp add: preserves_def)

lemma keeps_modify: "(\<And>s. I s \<Longrightarrow> I (f s)) \<Longrightarrow> keeps I (eff_modify f)"
  by (simp add: inv.relates_modify preserves_def)

text \<open>Non-decrease of a quantity.\<close>

definition grows :: "('s \<Rightarrow> 'm::preorder) \<Rightarrow> 's \<Rightarrow> 's \<Rightarrow> bool" where
  "grows f s s' = (f s \<le> f s')"

interpretation mono_eff: effect_relation "grows f" for f
  by unfold_locales (auto simp: grows_def intro: order_trans)

section \<open>Triples\<close>

text \<open>A precondition, what holds of a returned value and its state, and what holds after an exception.\<close>

definition triple :: "('s \<Rightarrow> bool) \<Rightarrow> ('s, 'e, 'a) eff \<Rightarrow> ('a \<Rightarrow> 's \<Rightarrow> bool) \<Rightarrow> ('e \<Rightarrow> 's \<Rightarrow> bool) \<Rightarrow> bool" where
  "triple P m Q E \<longleftrightarrow> (\<forall>s r s'. P s \<longrightarrow> m s = (r, s') \<longrightarrow> (case r of Inl e \<Rightarrow> E e s' | Inr x \<Rightarrow> Q x s'))"

lemma tripleI:
  "(\<And>s x s'. P s \<Longrightarrow> m s = (Inr x, s') \<Longrightarrow> Q x s') \<Longrightarrow> (\<And>s e s'. P s \<Longrightarrow> m s = (Inl e, s') \<Longrightarrow> E e s') \<Longrightarrow> triple P m Q E"
  by (auto simp: triple_def split: sum.splits)

lemma tripleD:
  assumes "triple P m Q E" and "P s"
  shows "m s = (Inr x, s') \<Longrightarrow> Q x s'" and "m s = (Inl e, s') \<Longrightarrow> E e s'"
  using assms by (fastforce simp: triple_def)+

lemma triple_bind:
  assumes "triple P m R E" and "\<And>x. triple (R x) (f x) Q E"
  shows "triple P (eff_bind m f) Q E"
proof (rule tripleI)
  fix s y s'
  assume P: "P s" and "eff_bind m f s = (Inr y, s')"
  from this(2) show "Q y s'"
    by (cases rule: eff_bind_cases) (use tripleD [OF assms(1) P] tripleD [OF assms(2)] in auto)
next
  fix s e s'
  assume P: "P s" and "eff_bind m f s = (Inl e, s')"
  from this(2) show "E e s'"
    by (cases rule: eff_bind_cases) (use tripleD [OF assms(1) P] tripleD [OF assms(2)] in auto)
qed

lemma triple_catch:
  assumes "triple P m Q R" and "\<And>e. triple (R e) (h e) Q E"
  shows "triple P (eff_catch m h) Q E"
proof (rule tripleI)
  fix s y s'
  assume P: "P s" and "eff_catch m h s = (Inr y, s')"
  from this(2) show "Q y s'"
    by (cases rule: eff_catch_cases) (use tripleD [OF assms(1) P] tripleD [OF assms(2)] in auto)
next
  fix s e s'
  assume P: "P s" and "eff_catch m h s = (Inl e, s')"
  from this(2) show "E e s'"
    by (cases rule: eff_catch_cases) (use tripleD [OF assms(1) P] tripleD [OF assms(2)] in auto)
qed

lemma triple_weaken:
  "triple P' m Q' E' \<Longrightarrow> (\<And>s. P s \<Longrightarrow> P' s) \<Longrightarrow> (\<And>x s. Q' x s \<Longrightarrow> Q x s) \<Longrightarrow> (\<And>e s. E' e s \<Longrightarrow> E e s) \<Longrightarrow> triple P m Q E"
  unfolding triple_def by (fastforce split: sum.splits)

text \<open>Facts about values that were returned earlier move out of the precondition.\<close>

lemma triple_pure: "(F \<Longrightarrow> triple P m Q E) \<Longrightarrow> triple (\<lambda>s. P s \<and> F) m Q E"
  by (auto simp: triple_def)

lemma triple_ex: "(\<And>v. triple (P v) m Q E) \<Longrightarrow> triple (\<lambda>s. \<exists>v. P v s) m Q E"
  unfolding triple_def by blast

lemma triple_return: "(\<And>s. P s \<Longrightarrow> Q x s) \<Longrightarrow> triple P (eff_return x) Q E"
  by (simp add: triple_def)

lemma triple_raise: "(\<And>s. P s \<Longrightarrow> E e s) \<Longrightarrow> triple P (eff_raise e) Q E"
  by (simp add: triple_def)

lemma triple_modify: "(\<And>s. P s \<Longrightarrow> Q () (f s)) \<Longrightarrow> triple P (eff_modify f) Q E"
  by (simp add: triple_def)

lemma triple_gets: "(\<And>s. P s \<Longrightarrow> Q (g s) s) \<Longrightarrow> triple P (eff_gets g) Q E"
  by (simp add: triple_def)

lemma triple_lift:
  "(\<And>x s. P s \<Longrightarrow> v = Inr x \<Longrightarrow> Q x s) \<Longrightarrow> (\<And>e s. P s \<Longrightarrow> v = Inl e \<Longrightarrow> E e s) \<Longrightarrow> triple P (eff_lift v) Q E"
  by (simp add: triple_def split: sum.splits)

lemma triple_if: "(b \<Longrightarrow> triple P m Q E) \<Longrightarrow> (\<not> b \<Longrightarrow> triple P n Q E) \<Longrightarrow> triple P (if b then m else n) Q E"
  by simp

end
