(* ===== verification/Py_Values.thy ===== *)
theory Py_Values
  imports Complex_Main Elyra_Prelude "HOL-Library.Sublist" "HOL-Library.Char_ord"
    "HOL-Library.List_Lexorder" "HOL-Library.Product_Lexorder" "HOL-Library.Log_Nat"
begin

text \<open>
  The Python values the engine passes around as \<open>Any\<close>: decoded JSON and the dictionaries the
  components exchange. A text is the list of the bytes of its UTF-8 encoding, so every text has a
  representation and equality, prefixes, splitting at an ASCII character and the order of keys are
  exact; \<open>text_length\<close> counts characters. Case conversion, whitespace and digits cover ASCII. A float is a rational number,
  an infinity or not-a-number; \<open>float(text)\<close> rounds to the nearest binary64 value.

  \<open>str\<close> of a float, a list or a dictionary is the interpreter's rendering. It is an argument
  (\<open>render\<close>) of the definitions that need it.
\<close>

section \<open>Values and exceptions\<close>

datatype pyfloat = Fin rat | PosInf | NegInf | NaN

datatype pyval =
    PNone
  | PBool bool
  | PInt int
  | PFloat pyfloat
  | PStr string
  | PList "pyval list"
  | PDict "(string \<times> pyval) list"

type_synonym pydict = "(string, pyval) dict"

datatype pyexc =
    TypeError
  | ValueError string
  | KeyError string
  | AttributeError
  | AssertionError
  | RuntimeError string
  | OverflowError
  | OSError string
  | PermissionError string

text \<open>Truth value testing.\<close>

fun py_truthy :: "pyval \<Rightarrow> bool" where
  "py_truthy PNone = False"
| "py_truthy (PBool b) = b"
| "py_truthy (PInt i) = (i \<noteq> 0)"
| "py_truthy (PFloat f) = (f \<noteq> Fin 0)"
| "py_truthy (PStr s) = (s \<noteq> [])"
| "py_truthy (PList xs) = (xs \<noteq> [])"
| "py_truthy (PDict d) = (d \<noteq> [])"

text \<open>\<open>a or b\<close>.\<close>

definition py_or :: "pyval \<Rightarrow> pyval \<Rightarrow> pyval" where
  "py_or a b = (if py_truthy a then a else b)"

text \<open>\<open>d.get(k)\<close> and \<open>d.get(k, default)\<close>.\<close>

definition py_get :: "pydict \<Rightarrow> string \<Rightarrow> pyval" where
  "py_get d k = dict_get_or d k PNone"

abbreviation py_get_or :: "pydict \<Rightarrow> string \<Rightarrow> pyval \<Rightarrow> pyval" where
  "py_get_or d k v \<equiv> dict_get_or d k v"

text \<open>\<open>value[key]\<close> with a string key: only a dictionary has one.\<close>

definition py_item :: "pyval \<Rightarrow> string \<Rightarrow> pyexc + pyval" where
  "py_item v k = (case v of
      PDict d \<Rightarrow> (case dict_get d k of None \<Rightarrow> Inl (KeyError k) | Some x \<Rightarrow> Inr x)
    | _ \<Rightarrow> Inl TypeError)"

text \<open>\<open>value.items()\<close>.\<close>

definition py_items :: "pyval \<Rightarrow> pyexc + (string \<times> pyval) list" where
  "py_items v = (case v of PDict d \<Rightarrow> Inr d | _ \<Rightarrow> Inl AttributeError)"

fun is_str :: "pyval \<Rightarrow> bool" where
  "is_str (PStr _) = True"
| "is_str _ = False"

fun is_bool :: "pyval \<Rightarrow> bool" where
  "is_bool (PBool _) = True"
| "is_bool _ = False"

fun is_int :: "pyval \<Rightarrow> bool" where
  \<comment> \<open>\<open>isinstance(v, int)\<close>: \<open>bool\<close> is a subclass of \<open>int\<close>.\<close>
  "is_int (PInt _) = True"
| "is_int (PBool _) = True"
| "is_int _ = False"

fun is_number :: "pyval \<Rightarrow> bool" where
  \<comment> \<open>\<open>isinstance(v, (int, float))\<close>\<close>
  "is_number (PInt _) = True"
| "is_number (PBool _) = True"
| "is_number (PFloat _) = True"
| "is_number _ = False"

fun is_list :: "pyval \<Rightarrow> bool" where
  "is_list (PList _) = True"
| "is_list _ = False"

fun is_dict :: "pyval \<Rightarrow> bool" where
  "is_dict (PDict _) = True"
| "is_dict _ = False"

section \<open>Strings\<close>

definition char_code :: "char \<Rightarrow> nat" where
  "char_code c = of_char c"

text \<open>\<open>len(text)\<close>: continuation bytes do not start a character.\<close>

definition text_length :: "string \<Rightarrow> nat" where
  "text_length s = length (filter (\<lambda>c. \<not> (128 \<le> char_code c \<and> char_code c < 192)) s)"

definition is_space :: "char \<Rightarrow> bool" where
  "is_space c = (let n = char_code c in
     9 \<le> n \<and> n \<le> 13 \<or> 28 \<le> n \<and> n \<le> 32)"

definition is_digit :: "char \<Rightarrow> bool" where
  "is_digit c = (48 \<le> char_code c \<and> char_code c \<le> 57)"

definition upper_char :: "char \<Rightarrow> char" where
  "upper_char c = (if 97 \<le> char_code c \<and> char_code c \<le> 122 then char_of (char_code c - 32) else c)"

definition lower_char :: "char \<Rightarrow> char" where
  "lower_char c = (if 65 \<le> char_code c \<and> char_code c \<le> 90 then char_of (char_code c + 32) else c)"

definition py_upper :: "string \<Rightarrow> string" where
  "py_upper s = map upper_char s"

definition py_lower :: "string \<Rightarrow> string" where
  "py_lower s = map lower_char s"

definition py_lstrip :: "string \<Rightarrow> string" where
  "py_lstrip s = dropWhile is_space s"

definition py_strip :: "string \<Rightarrow> string" where
  "py_strip s = rev (dropWhile is_space (rev (dropWhile is_space s)))"

text \<open>\<open>s.rstrip(c)\<close> and \<open>s.lstrip(c)\<close> for one character.\<close>

definition rstrip_char :: "char \<Rightarrow> string \<Rightarrow> string" where
  "rstrip_char c s = rev (dropWhile (\<lambda>x. x = c) (rev s))"

definition lstrip_char :: "char \<Rightarrow> string \<Rightarrow> string" where
  "lstrip_char c s = dropWhile (\<lambda>x. x = c) s"

text \<open>\<open>s.startswith(p)\<close>.\<close>

abbreviation starts_with :: "string \<Rightarrow> string \<Rightarrow> bool" where
  "starts_with s p \<equiv> prefix p s"

text \<open>\<open>s.split(c)\<close>: the fields between separators, empty fields included.\<close>

fun split_on :: "'a \<Rightarrow> 'a list \<Rightarrow> 'a list list" where
  "split_on c [] = [[]]"
| "split_on c (x # xs) =
     (if x = c then [] # split_on c xs
      else (case split_on c xs of [] \<Rightarrow> [[x]] | f # fs \<Rightarrow> (x # f) # fs))"

text \<open>\<open>c.join(fields)\<close>.\<close>

fun join_with :: "'a list \<Rightarrow> 'a list list \<Rightarrow> 'a list" where
  "join_with sep [] = []"
| "join_with sep [f] = f"
| "join_with sep (f # g # fs) = f @ sep @ join_with sep (g # fs)"

lemma split_on_nonempty [simp]: "split_on c xs \<noteq> []"
  by (cases xs) (auto split: list.splits)

lemma join_with_Cons: "fs \<noteq> [] \<Longrightarrow> join_with sep (f # fs) = f @ sep @ join_with sep fs"
  by (cases fs) auto

lemma join_split: "join_with [c] (split_on c xs) = xs"
proof (induction xs)
  case (Cons x xs)
  obtain f fs where fs: "split_on c xs = f # fs" by (cases "split_on c xs") auto
  show ?case
  proof (cases "x = c")
    case True
    then show ?thesis using Cons.IH fs by (simp add: join_with_Cons)
  next
    case False
    then show ?thesis using Cons.IH fs by (cases fs) auto
  qed
qed simp

lemma split_on_fields: "f \<in> set (split_on c xs) \<Longrightarrow> c \<notin> set f"
  by (induction xs arbitrary: f) (fastforce split: list.splits if_splits)+

lemma split_on_no_sep: "c \<notin> set f \<Longrightarrow> split_on c f = [f]"
  by (induction f) auto

lemma split_on_append_sep:
  "c \<notin> set f \<Longrightarrow> split_on c (f @ c # xs) = f # split_on c xs"
  by (induction f) auto

lemma split_join:
  "fs \<noteq> [] \<Longrightarrow> \<forall>f \<in> set fs. c \<notin> set f \<Longrightarrow> split_on c (join_with [c] fs) = fs"
proof (induction "[c]" fs rule: join_with.induct)
  case (2 f)
  then show ?case by (simp add: split_on_no_sep)
next
  case (3 f g fs)
  then show ?case by (simp add: split_on_append_sep)
qed simp

section \<open>Decimal text\<close>

fun show_nat :: "nat \<Rightarrow> string" where
  "show_nat n = (if n < 10 then [char_of (48 + n)] else show_nat (n div 10) @ [char_of (48 + n mod 10)])"

declare show_nat.simps [simp del]

definition show_int :: "int \<Rightarrow> string" where
  "show_int i = (if i < 0 then CHR ''-'' # show_nat (nat (- i)) else show_nat (nat i))"

text \<open>\<open>digit (["_"] digit)*\<close>: the accumulated value and whether the last character was a digit.\<close>

fun parse_digits :: "nat \<Rightarrow> bool \<Rightarrow> string \<Rightarrow> nat option" where
  "parse_digits acc d [] = (if d then Some acc else None)"
| "parse_digits acc d (c # cs) =
     (if is_digit c then parse_digits (10 * acc + (char_code c - 48)) True cs
      else if c = CHR ''_'' \<and> d then parse_digits acc False cs
      else None)"

text \<open>Optional sign; the flag says that the number is negative.\<close>

definition take_sign :: "string \<Rightarrow> bool \<times> string" where
  "take_sign s = (case s of
      [] \<Rightarrow> (False, [])
    | c # cs \<Rightarrow> if c = CHR ''-'' then (True, cs) else if c = CHR ''+'' then (False, cs) else (False, s))"

text \<open>\<open>int(text)\<close>.\<close>

definition int_of_text :: "string \<Rightarrow> int option" where
  "int_of_text s = (case take_sign (py_strip s) of (neg, ds) \<Rightarrow>
     map_option (\<lambda>n. if neg then - int n else int n) (parse_digits 0 False ds))"

lemma char_code_char_of [simp]: "(n::nat) < 256 \<Longrightarrow> char_code (char_of n) = n"
  by (simp add: char_code_def of_char_of)

lemma is_digit_char_of [simp]: "(n::nat) < 10 \<Longrightarrow> is_digit (char_of (48 + n))"
  by (simp add: is_digit_def)

lemma parse_digits_append:
  "parse_digits acc d s = Some n \<Longrightarrow> is_digit c \<Longrightarrow>
   parse_digits acc d (s @ [c]) = Some (10 * n + (char_code c - 48))"
  by (induction acc d s rule: parse_digits.induct) (auto split: if_splits)

lemma show_nat_nonempty [simp]: "show_nat n \<noteq> []"
  by (subst show_nat.simps) simp

lemma parse_show_nat: "parse_digits 0 False (show_nat n) = Some n"
proof (induction n rule: show_nat.induct)
  case (1 n)
  show ?case
  proof (cases "n < 10")
    case True
    then show ?thesis by (simp add: show_nat.simps [of n])
  next
    case False
    then have "parse_digits 0 False (show_nat (n div 10)) = Some (n div 10)" by (rule 1)
    then have "parse_digits 0 False (show_nat (n div 10) @ [char_of (48 + n mod 10)])
        = Some (10 * (n div 10) + (char_code (char_of (48 + n mod 10)) - 48))"
      by (rule parse_digits_append) simp
    with False show ?thesis by (simp add: show_nat.simps [of n])
  qed
qed

lemma show_nat_digits: "c \<in> set (show_nat n) \<Longrightarrow> is_digit c"
proof (induction n rule: show_nat.induct)
  case (1 n)
  then show ?case by (cases "n < 10") (auto simp: show_nat.simps [of n])
qed

lemma take_sign_digit: "s \<noteq> [] \<Longrightarrow> is_digit (hd s) \<Longrightarrow> take_sign s = (False, s)"
  by (cases s) (auto simp: take_sign_def is_digit_def char_code_def)

lemma is_digit_not_space: "is_digit c \<Longrightarrow> \<not> is_space c"
  by (auto simp: is_digit_def is_space_def Let_def)

lemma py_strip_id:
  assumes "s \<noteq> []" and "\<not> is_space (hd s)" and "\<not> is_space (last s)"
  shows "py_strip s = s"
proof -
  have 1: "dropWhile is_space s = s" using assms by (cases s) auto
  have "dropWhile is_space (rev s) = rev s"
    using assms(1,3) by (cases "rev s") (auto simp: last_rev)
  with 1 show ?thesis by (simp add: py_strip_def)
qed

lemma int_of_show_nat: "int_of_text (show_nat n) = Some (int n)"
proof -
  have d: "is_digit (hd (show_nat n))" "is_digit (last (show_nat n))"
    using show_nat_digits show_nat_nonempty hd_in_set last_in_set by blast+
  then have "py_strip (show_nat n) = show_nat n" by (intro py_strip_id) (auto dest: is_digit_not_space)
  moreover have "take_sign (show_nat n) = (False, show_nat n)" using d by (intro take_sign_digit) auto
  ultimately show ?thesis by (simp add: int_of_text_def parse_show_nat)
qed

lemma int_of_show_int: "int_of_text (show_int i) = Some i"
proof (cases "i < 0")
  case True
  let ?s = "show_nat (nat (- i))"
  have d: "is_digit (last ?s)"
    using show_nat_digits show_nat_nonempty last_in_set by blast
  have "\<not> is_space (CHR ''-'')" by (simp add: is_space_def char_code_def)
  then have "py_strip (CHR ''-'' # ?s) = CHR ''-'' # ?s"
    using d by (intro py_strip_id) (auto dest: is_digit_not_space)
  with True show ?thesis by (simp add: int_of_text_def show_int_def take_sign_def parse_show_nat)
qed (simp add: show_int_def int_of_show_nat)

section \<open>Floats\<close>

text \<open>Nearest integer, ties to even.\<close>

definition round_half_even :: "rat \<Rightarrow> int" where
  "round_half_even q = (let f = \<lfloor>q\<rfloor>; r = q - of_int f in
     if r < 1 / 2 then f else if r > 1 / 2 then f + 1 else if even f then f else f + 1)"

text \<open>The binary64 value nearest to a positive rational, and the overflow to infinity.\<close>

definition binary_exponent :: "rat \<Rightarrow> int" where
  "binary_exponent q = (case quotient_of q of (a, b) \<Rightarrow>
     (let k = bitlen a - bitlen b in if 2 powi k \<le> q then k else k - 1))"

definition round_pos_binary64 :: "rat \<Rightarrow> rat" where
  "round_pos_binary64 q =
     (let e = max (binary_exponent q) (- 1022) - 52 in
      of_int (round_half_even (q / 2 powi e)) * 2 powi e)"

definition round_binary64 :: "rat \<Rightarrow> pyfloat" where
  "round_binary64 q =
     (if q = 0 then Fin 0
      else (let m = round_pos_binary64 \<bar>q\<bar> in
        if m \<ge> 2 ^ 1024 then (if q < 0 then NegInf else PosInf)
        else Fin (if q < 0 then - m else m)))"

text \<open>
  \<open>float(text)\<close>: optional sign, then \<open>inf\<close>, \<open>infinity\<close>, \<open>nan\<close> in any case, or a decimal
  number with an optional fraction and exponent.
\<close>

definition decimal_of_text :: "string \<Rightarrow> rat option" where
  "decimal_of_text s =
     (let (mant, rest) = (takeWhile (\<lambda>c. c \<noteq> CHR ''e'' \<and> c \<noteq> CHR ''E'') s,
                          dropWhile (\<lambda>c. c \<noteq> CHR ''e'' \<and> c \<noteq> CHR ''E'') s);
          whole = takeWhile (\<lambda>c. c \<noteq> CHR ''.'') mant;
          frac = drop 1 (dropWhile (\<lambda>c. c \<noteq> CHR ''.'') mant);
          ex = (case rest of [] \<Rightarrow> Some 0
                | _ # t \<Rightarrow> (case take_sign t of (neg, ds) \<Rightarrow>
                    map_option (\<lambda>n. if neg then - int n else int n) (parse_digits 0 False ds)));
          wv = (if whole = [] then Some 0 else parse_digits 0 False whole);
          fv = (if frac = [] then Some 0 else parse_digits 0 False frac)
      in if whole = [] \<and> frac = [] then None
         else case (wv, fv, ex) of
           (Some w, Some f, Some e) \<Rightarrow>
             Some ((of_nat w + of_nat f / 10 ^ length (filter is_digit frac)) * 10 powi e)
         | _ \<Rightarrow> None)"

definition float_of_text :: "string \<Rightarrow> pyfloat option" where
  "float_of_text s = (case take_sign (py_strip s) of (neg, t) \<Rightarrow>
     (let l = py_lower t in
      if l = ''inf'' \<or> l = ''infinity'' then Some (if neg then NegInf else PosInf)
      else if l = ''nan'' then Some NaN
      else map_option (\<lambda>q. round_binary64 (if neg then - q else q)) (decimal_of_text t)))"

fun float_ge :: "pyfloat \<Rightarrow> pyfloat \<Rightarrow> bool" where
  "float_ge NaN _ = False"
| "float_ge _ NaN = False"
| "float_ge PosInf _ = True"
| "float_ge _ NegInf = True"
| "float_ge (Fin a) (Fin b) = (b \<le> a)"
| "float_ge _ _ = False"

definition float_gt :: "pyfloat \<Rightarrow> pyfloat \<Rightarrow> bool" where
  "float_gt a b = (float_ge a b \<and> a \<noteq> b)"

lemma float_ge_trans: "float_ge a b \<Longrightarrow> float_ge b c \<Longrightarrow> float_ge a c"
  by (cases a; cases b; cases c) auto

section \<open>Conversions\<close>

text \<open>\<open>int(x)\<close> of a float truncates towards zero.\<close>

definition rat_trunc :: "rat \<Rightarrow> int" where
  "rat_trunc q = (if q < 0 then - \<lfloor>- q\<rfloor> else \<lfloor>q\<rfloor>)"

fun float_to_int :: "pyfloat \<Rightarrow> pyexc + int" where
  "float_to_int (Fin q) = Inr (rat_trunc q)"
| "float_to_int NaN = Inl (ValueError ''cannot convert float NaN to integer'')"
| "float_to_int _ = Inl OverflowError"

fun py_int :: "pyval \<Rightarrow> pyexc + int" where
  "py_int (PBool b) = Inr (if b then 1 else 0)"
| "py_int (PInt i) = Inr i"
| "py_int (PFloat f) = float_to_int f"
| "py_int (PStr s) = (case int_of_text s of
      None \<Rightarrow> Inl (ValueError ''invalid literal for int()'') | Some i \<Rightarrow> Inr i)"
| "py_int _ = Inl TypeError"

text \<open>\<open>float(x)\<close>; an integer too large for binary64 raises.\<close>

definition int_to_float :: "int \<Rightarrow> pyexc + pyfloat" where
  "int_to_float i = (case round_binary64 (of_int i) of Fin q \<Rightarrow> Inr (Fin q) | _ \<Rightarrow> Inl OverflowError)"

fun py_float :: "pyval \<Rightarrow> pyexc + pyfloat" where
  "py_float (PBool b) = Inr (Fin (if b then 1 else 0))"
| "py_float (PInt i) = int_to_float i"
| "py_float (PFloat f) = Inr f"
| "py_float (PStr s) = (case float_of_text s of
      None \<Rightarrow> Inl (ValueError ''could not convert string to float'') | Some f \<Rightarrow> Inr f)"
| "py_float _ = Inl TypeError"

text \<open>\<open>str(x)\<close>.\<close>

fun py_str :: "(pyval \<Rightarrow> string) \<Rightarrow> pyval \<Rightarrow> string" where
  "py_str render PNone = ''None''"
| "py_str render (PBool b) = (if b then ''True'' else ''False'')"
| "py_str render (PInt i) = show_int i"
| "py_str render (PStr s) = s"
| "py_str render v = render v"

text \<open>
  \<open>dict(x)\<close>: a copy of a dictionary, or a dictionary from a sequence of pairs with string keys
  (later pairs win). Values have string keys only, so a pair with another key is outside the model
  and raises.
\<close>

fun py_pair :: "pyval \<Rightarrow> pyexc + string \<times> pyval" where
  "py_pair (PList [PStr k, v]) = Inr (k, v)"
| "py_pair (PStr [a, b]) = Inr ([a], PStr [b])"
| "py_pair (PList _) = Inl (ValueError ''dictionary update sequence'')"
| "py_pair (PStr _) = Inl (ValueError ''dictionary update sequence'')"
| "py_pair _ = Inl TypeError"

fun py_dict_of :: "pyval \<Rightarrow> pyexc + pydict" where
  "py_dict_of (PDict d) = Inr d"
| "py_dict_of (PList xs) = res_bind (map_res py_pair xs) (\<lambda>kvs. Inr (dict_update [] kvs))"
| "py_dict_of (PStr s) = res_bind (map_res py_pair (map (\<lambda>c. PStr [c]) s)) (\<lambda>kvs. Inr (dict_update [] kvs))"
| "py_dict_of _ = Inl TypeError"

text \<open>Optional text and time stamps as values.\<close>

definition py_opt_str :: "string option \<Rightarrow> pyval" where
  "py_opt_str x = (case x of None \<Rightarrow> PNone | Some s \<Rightarrow> PStr s)"

definition py_opt_int :: "int option \<Rightarrow> pyval" where
  "py_opt_int x = (case x of None \<Rightarrow> PNone | Some i \<Rightarrow> PInt i)"

text \<open>\<open>round(x, 6)\<close>, before the result is rounded to binary64.\<close>

definition round6 :: "rat \<Rightarrow> rat" where
  "round6 q = of_int (round_half_even (q * 1000000)) / 1000000"

text \<open>\<open>==\<close> between decoded values: numbers compare by value, \<open>True\<close> as 1 and \<open>False\<close> as 0.\<close>

fun num_value :: "pyval \<Rightarrow> pyfloat option" where
  "num_value (PBool b) = Some (Fin (if b then 1 else 0))"
| "num_value (PInt i) = Some (Fin (of_int i))"
| "num_value (PFloat f) = Some f"
| "num_value _ = None"

definition py_eq :: "pyval \<Rightarrow> pyval \<Rightarrow> bool" where
  "py_eq a b = (case (num_value a, num_value b) of
      (Some x, Some y) \<Rightarrow> x = y \<and> x \<noteq> NaN
    | (None, None) \<Rightarrow> a = b
    | _ \<Rightarrow> False)"

definition clamp_score :: "int \<Rightarrow> int" where
  "clamp_score i = max 0 (min 100 i)"

lemma clamp_score_bounds [simp]: "0 \<le> clamp_score i" "clamp_score i \<le> 100"
  by (simp_all add: clamp_score_def)

lemma clamp_score_id: "0 \<le> i \<Longrightarrow> i \<le> 100 \<Longrightarrow> clamp_score i = i"
  by (simp add: clamp_score_def)

lemma rat_trunc_of_int [simp]: "rat_trunc (of_int i) = i"
proof (cases "i < 0")
  case True
  have "\<lfloor>- (of_int i :: rat)\<rfloor> = - i" by (metis floor_of_int of_int_minus)
  with True show ?thesis by (simp add: rat_trunc_def)
qed (simp add: rat_trunc_def)

end
