(* ===== verification/Py_Path.thy ===== *)
theory Py_Path
  imports Py_Values
begin

text \<open>
  The lexical path functions of \<open>os.path\<close> on POSIX that the engine uses: \<open>normpath\<close>,
  \<open>join\<close>, \<open>abspath\<close> (with the working directory as an argument), \<open>basename\<close> and
  \<open>splitext\<close>.
\<close>

text \<open>The component loop of \<open>normpath\<close>; \<open>acc\<close> is \<open>new_comps\<close> reversed.\<close>

fun norm_comps :: "bool \<Rightarrow> string list \<Rightarrow> string list \<Rightarrow> string list" where
  "norm_comps rooted acc [] = rev acc"
| "norm_comps rooted acc (c # cs) =
     (if c = '''' \<or> c = ''.'' then norm_comps rooted acc cs
      else if c \<noteq> ''..'' \<or> (\<not> rooted \<and> acc = []) \<or> (acc \<noteq> [] \<and> hd acc = ''..'')
        then norm_comps rooted (c # acc) cs
      else norm_comps rooted (tl acc) cs)"

definition initial_slashes :: "string \<Rightarrow> nat" where
  "initial_slashes p =
     (if \<not> starts_with p ''/'' then 0
      else if starts_with p ''//'' \<and> \<not> starts_with p ''///'' then 2 else 1)"

definition normpath :: "string \<Rightarrow> string" where
  "normpath p =
     (if p = '''' then ''.''
      else let n = initial_slashes p;
               body = join_with ''/'' (norm_comps (n \<noteq> 0) [] (split_on (CHR ''/'') p));
               r = replicate n (CHR ''/'') @ body
           in if r = '''' then ''.'' else r)"

definition path_join :: "string \<Rightarrow> string \<Rightarrow> string" where
  "path_join a b =
     (if starts_with b ''/'' then b
      else if a = '''' \<or> last a = CHR ''/'' then a @ b
      else a @ ''/'' @ b)"

definition abspath :: "string \<Rightarrow> string \<Rightarrow> string" where
  "abspath cwd p = normpath (if starts_with p ''/'' then p else path_join cwd p)"

definition basename :: "string \<Rightarrow> string" where
  "basename p = last (split_on (CHR ''/'') p)"

text \<open>\<open>splitext(p)[1]\<close>: the suffix from the last dot of the last component, unless only dots precede it.\<close>

definition splitext_ext :: "string \<Rightarrow> string" where
  "splitext_ext p =
     (let b = basename p;
          after = takeWhile (\<lambda>c. c \<noteq> CHR ''.'') (rev b);
          before = drop (Suc (length after)) (rev b)
      in if CHR ''.'' \<notin> set b \<or> list_all (\<lambda>c. c = CHR ''.'') before then ''''
         else CHR ''.'' # rev after)"

section \<open>Normal forms\<close>

text \<open>In a rooted path the components that remain are ordinary names.\<close>

definition plain_comp :: "string \<Rightarrow> bool" where
  "plain_comp c = (c \<noteq> '''' \<and> c \<noteq> ''.'' \<and> c \<noteq> ''..'')"

lemma norm_comps_rooted_plain:
  "list_all plain_comp acc \<Longrightarrow> list_all plain_comp (norm_comps True acc cs)"
proof (induction True acc cs rule: norm_comps.induct)
  case (2 acc c cs)
  have "list_all plain_comp (tl acc)" using 2(4) by (cases acc) auto
  moreover have "acc \<noteq> [] \<Longrightarrow> hd acc \<noteq> ''..''" using 2(4) by (cases acc) (auto simp: plain_comp_def)
  ultimately show ?case using 2 by (auto simp: plain_comp_def)
qed (simp add: list_all_iff)

lemma norm_comps_plain_id:
  "list_all plain_comp cs \<Longrightarrow> norm_comps rooted acc cs = rev acc @ cs"
  by (induction cs arbitrary: acc) (auto simp: plain_comp_def)

lemma norm_comps_subset: "set (norm_comps rooted acc cs) \<subseteq> set acc \<union> set cs"
proof (induction rooted acc cs rule: norm_comps.induct)
  case (2 rooted acc c cs)
  have "set (tl acc) \<subseteq> set acc" by (cases acc) auto
  then show ?case using 2 by auto
qed simp

lemma norm_comps_no_slash:
  "c \<in> set (norm_comps rooted [] (split_on (CHR ''/'') p)) \<Longrightarrow> CHR ''/'' \<notin> set c"
  using norm_comps_subset [of rooted "[]" "split_on (CHR ''/'') p"] split_on_fields by fastforce

section \<open>Common path\<close>

text \<open>
  \<open>commonpath((a, b))\<close>: with two paths the least and the greatest component list are the two lists
  themselves, and the loop cuts them at the first difference.
\<close>

definition path_comps :: "string \<Rightarrow> string list" where
  "path_comps p = filter (\<lambda>c. c \<noteq> '''' \<and> c \<noteq> ''.'') (split_on (CHR ''/'') p)"

definition commonpath2 :: "string \<Rightarrow> string \<Rightarrow> pyexc + string" where
  "commonpath2 a b =
     (if starts_with a ''/'' \<noteq> starts_with b ''/''
      then Inl (ValueError ''Can't mix absolute and relative paths'')
      else Inr ((if starts_with a ''/'' then ''/'' else '''') @
             join_with ''/'' (longest_common_prefix (path_comps a) (path_comps b))))"

text \<open>An absolute path written from its components, with one or two leading slashes.\<close>

definition abs_path :: "nat \<Rightarrow> string list \<Rightarrow> string" where
  "abs_path n cs = replicate n (CHR ''/'') @ join_with ''/'' cs"

definition simple_comp :: "string \<Rightarrow> bool" where
  "simple_comp c = (plain_comp c \<and> CHR ''/'' \<notin> set c)"

lemma split_on_slash_Cons: "split_on c (c # xs) = [] # split_on c xs"
  by simp

lemma path_comps_abs:
  assumes "list_all simple_comp cs"
  shows "path_comps (abs_path n cs) = cs"
proof -
  have body: "path_comps (join_with ''/'' cs) = cs"
  proof (cases "cs = []")
    case False
    then have "split_on (CHR ''/'') (join_with ''/'' cs) = cs"
      using assms by (intro split_join) (auto simp: list_all_iff simple_comp_def)
    moreover have "filter (\<lambda>c. c \<noteq> '''' \<and> c \<noteq> ''.'') cs = cs"
      using assms by (auto simp: filter_id_conv list_all_iff simple_comp_def plain_comp_def)
    ultimately show ?thesis by (simp add: path_comps_def)
  qed (simp add: path_comps_def)
  show ?thesis
  proof (induction n)
    case 0
    then show ?case using body by (simp add: abs_path_def)
  next
    case (Suc n)
    then show ?case by (simp add: abs_path_def path_comps_def)
  qed
qed

lemma abs_path_inject:
  assumes "list_all simple_comp cs" and "list_all simple_comp ds"
  shows "abs_path n cs = abs_path n ds \<longleftrightarrow> cs = ds"
  using path_comps_abs [OF assms(1)] path_comps_abs [OF assms(2)] by metis

lemma simple_no_leading_slash:
  assumes "list_all simple_comp cs"
  shows "join_with ''/'' cs = [] \<or> hd (join_with ''/'' cs) \<noteq> CHR ''/''"
proof (cases cs)
  case (Cons c ds)
  then have "c \<noteq> []" "CHR ''/'' \<notin> set c"
    using assms by (auto simp: simple_comp_def plain_comp_def)
  then show ?thesis using Cons by (cases ds; cases c) auto
qed simp

lemma abs_path_slashes:
  assumes "list_all simple_comp cs" and "list_all simple_comp ds" and "abs_path n cs = abs_path m ds"
  shows "n = m"
proof -
  have tw: "length (takeWhile (\<lambda>c. c = CHR ''/'') (abs_path k es)) = k" if "list_all simple_comp es" for k es
  proof -
    have "takeWhile (\<lambda>c. c = CHR ''/'') (replicate k (CHR ''/'') @ xs) = replicate k (CHR ''/'')"
      if "xs = [] \<or> hd xs \<noteq> CHR ''/''" for xs
      using that by (induction k) (cases xs; simp)+
    then show ?thesis using simple_no_leading_slash [OF that] by (simp add: abs_path_def)
  qed
  show ?thesis using tw [OF assms(1)] tw [OF assms(2)] assms(3) by metis
qed

lemma normpath_abs:
  assumes "starts_with p ''/''"
  shows "\<exists>n cs. (n = 1 \<or> n = 2) \<and> list_all simple_comp cs \<and> normpath p = abs_path n cs \<and> n = initial_slashes p"
proof -
  have n: "initial_slashes p = 1 \<or> initial_slashes p = 2" using assms by (auto simp: initial_slashes_def)
  let ?cs = "norm_comps True [] (split_on (CHR ''/'') p)"
  have "list_all plain_comp ?cs" by (intro norm_comps_rooted_plain) simp
  then have "list_all simple_comp ?cs"
    using norm_comps_no_slash [of _ True p] by (auto simp: list_all_iff simple_comp_def)
  moreover have "normpath p = abs_path (initial_slashes p) ?cs"
    using assms n by (auto simp: normpath_def abs_path_def Let_def)
  ultimately show ?thesis using n by blast
qed

end
