(* ===== verification/Correlation.thy ===== *)
theory Correlation
  imports Effects Py_Path
begin

text \<open>
  Pre-execution and runtime correlation (\<open>correlation/engine.py\<close>): the policy, the per-process
  execution states, and the operations of the engine. Each public method holds the engine's lock,
  so it is one operation on the engine state.

  The clock and the identifier source are arguments (\<open>corr_env\<close>); the engine state counts how
  often each was called. Times are exact rationals.
\<close>

section \<open>Policy\<close>

datatype corr_error =
    InvalidCorrelationConfiguration string
  | InvalidCorrelationMapping pyexc
  | CorrelationExc pyexc

record runtime_rule =
  rr_rule :: string
  rr_weight :: int
  rr_max_occurrences :: int
  rr_description :: string

definition maximum_contribution :: "runtime_rule \<Rightarrow> int" where
  "maximum_contribution r = rr_weight r * rr_max_occurrences r"

record corr_policy =
  cp_schema_version :: string
  cp_policy_name :: string
  cp_policy_status :: string
  cp_score_minimum :: int
  cp_score_maximum :: int
  cp_state_ttl :: pyfloat
  cp_exited_ttl :: pyfloat
  cp_late_window :: pyfloat
  cp_inherit_window :: pyfloat
  cp_max_states :: int
  cp_thresholds :: "(string, int) dict"
  cp_rules :: "(string, runtime_rule) dict"

definition runtime_rule_of_mapping :: "(pyval \<Rightarrow> string) \<Rightarrow> string \<times> pyval \<Rightarrow> pyexc + string \<times> runtime_rule" where
  "runtime_rule_of_mapping render entry = (case entry of (rule_id, spec) \<Rightarrow>
     res_bind (res_bind (py_item spec ''weight'') py_int) (\<lambda>w.
     res_bind (res_bind (py_item spec ''max_occurrences'') py_int) (\<lambda>m.
     res_bind (py_item spec ''description'') (\<lambda>d.
     Inr (rule_id, \<lparr>rr_rule = rule_id, rr_weight = w, rr_max_occurrences = m,
                    rr_description = py_str render d\<rparr>)))))"

definition corr_int_items :: "pyval \<Rightarrow> pyexc + (string, int) dict" where
  "corr_int_items v = res_bind (py_items v) (\<lambda>kvs.
     map_res (\<lambda>(k, x). res_bind (py_int x) (\<lambda>i. Inr (k, i))) kvs)"

definition corr_policy_of_mapping :: "(pyval \<Rightarrow> string) \<Rightarrow> pydict \<Rightarrow> pyexc + corr_policy" where
  "corr_policy_of_mapping render data = (let field = py_item (PDict data);
        float_field = (\<lambda>k. res_bind (field k) py_float); int_field = (\<lambda>k. res_bind (field k) py_int) in
     res_bind (field ''runtime_rules'') (\<lambda>raw_rules.
     res_bind (res_bind (py_items raw_rules) (map_res (runtime_rule_of_mapping render))) (\<lambda>rules.
     res_bind (field ''schema_version'') (\<lambda>schema.
     res_bind (field ''policy_name'') (\<lambda>name.
     res_bind (field ''policy_status'') (\<lambda>status.
     res_bind (int_field ''score_minimum'') (\<lambda>lo.
     res_bind (int_field ''score_maximum'') (\<lambda>hi.
     res_bind (float_field ''state_ttl_seconds'') (\<lambda>ttl.
     res_bind (float_field ''exited_state_ttl_seconds'') (\<lambda>ettl.
     res_bind (float_field ''late_binding_window_seconds'') (\<lambda>late.
     res_bind (float_field ''inheritance_window_seconds'') (\<lambda>inh.
     res_bind (int_field ''max_states'') (\<lambda>maxs.
     res_bind (res_bind (field ''decision_thresholds'') corr_int_items) (\<lambda>thr.
     Inr \<lparr>cp_schema_version = py_str render schema, cp_policy_name = py_str render name,
           cp_policy_status = py_str render status, cp_score_minimum = lo, cp_score_maximum = hi,
           cp_state_ttl = ttl, cp_exited_ttl = ettl, cp_late_window = late, cp_inherit_window = inh,
           cp_max_states = maxs, cp_thresholds = thr, cp_rules = rules\<rparr>))))))))))))))"

definition corr_catches :: "pyexc \<Rightarrow> bool" where
  "corr_catches e = (case e of KeyError _ \<Rightarrow> True | TypeError \<Rightarrow> True | ValueError _ \<Rightarrow> True
     | AttributeError \<Rightarrow> True | _ \<Rightarrow> False)"

text \<open>\<open>min\<close> of floats: the running minimum is replaced only by a strictly smaller value.\<close>

definition float_min :: "pyfloat \<Rightarrow> pyfloat list \<Rightarrow> pyfloat" where
  "float_min x xs = fold (\<lambda>y m. if float_gt m y then y else m) xs x"

definition corr_required_rules :: "string list" where
  "corr_required_rules = [''DISTINCT_FILE_WRITE'', ''FILE_RENAME'', ''OUTBOUND_CONNECTION'',
     ''CHILD_PROCESS_EXEC'', ''EXECUTABLE_IDENTIFIER_MISMATCH'']"

fun validate_runtime_rules :: "(string \<times> runtime_rule) list \<Rightarrow> corr_error + unit" where
  "validate_runtime_rules [] = Inr ()"
| "validate_runtime_rules ((rule_id, r) # rest) =
     (if rr_rule r \<noteq> rule_id
      then Inl (InvalidCorrelationConfiguration (''rule key differs from embedded name: '' @ rule_id))
      else if rr_weight r \<le> 0 \<or> rr_max_occurrences r \<le> 0
      then Inl (InvalidCorrelationConfiguration
             (''rule '' @ rule_id @ '' must have positive weight and occurrence cap''))
      else if py_strip (rr_description r) = []
      then Inl (InvalidCorrelationConfiguration (''rule '' @ rule_id @ '' has an empty description''))
      else validate_runtime_rules rest)"

definition validate_corr :: "corr_policy \<Rightarrow> corr_error + unit" where
  "validate_corr p =
     (let thr = cp_thresholds p in
      if cp_policy_status p \<noteq> ''PROVISIONAL_NOT_CALIBRATED''
      then Inl (InvalidCorrelationConfiguration
             ''Stage 10 policy must be labelled PROVISIONAL_NOT_CALIBRATED'')
      else if (cp_score_minimum p, cp_score_maximum p) \<noteq> (0, 100)
      then Inl (InvalidCorrelationConfiguration ''score range must be 0..100'')
      else if float_ge (Fin 0) (float_min (cp_state_ttl p)
                [cp_exited_ttl p, cp_late_window p, cp_inherit_window p])
      then Inl (InvalidCorrelationConfiguration ''all time windows must be positive'')
      else if cp_max_states p \<le> 0
      then Inl (InvalidCorrelationConfiguration ''max_states must be positive'')
      else if set (map fst thr) \<noteq> {''alert_min'', ''terminate_min'', ''quarantine_min''}
      then Inl (InvalidCorrelationConfiguration
             ''decision thresholds must define alert_min, terminate_min and quarantine_min'')
      else
        \<comment> \<open>the three keys are present here, so the default is never used\<close>
        let alert = dict_get_or thr ''alert_min'' 0;
            terminate = dict_get_or thr ''terminate_min'' 0;
            quarantine = dict_get_or thr ''quarantine_min'' 0 in
      if \<not> (0 < alert \<and> alert < terminate \<and> terminate < quarantine \<and> quarantine \<le> cp_score_maximum p)
      then Inl (InvalidCorrelationConfiguration
             ''decision thresholds must increase within the 0..100 score range'')
      else if set (map fst (cp_rules p)) \<noteq> set corr_required_rules
      then Inl (InvalidCorrelationConfiguration
             ''runtime rules do not match the Stage 10 canonical rule set'')
      else res_bind (validate_runtime_rules (cp_rules p)) (\<lambda>_.
        if sum_list (map (maximum_contribution \<circ> snd) (cp_rules p)) < quarantine
        then Inl (InvalidCorrelationConfiguration ''runtime rule maxima cannot reach quarantine_min'')
        else Inr ()))"

definition corr_from_mapping :: "(pyval \<Rightarrow> string) \<Rightarrow> pydict \<Rightarrow> corr_error + corr_policy" where
  "corr_from_mapping render data = (case corr_policy_of_mapping render data of
      Inl e \<Rightarrow> Inl (if corr_catches e then InvalidCorrelationMapping e else CorrelationExc e)
    | Inr p \<Rightarrow> res_bind (validate_corr p) (\<lambda>_. Inr p))"

definition load_corr :: "(pyval \<Rightarrow> string) \<Rightarrow> pyval option \<Rightarrow> corr_error + corr_policy" where
  "load_corr render doc = (case doc of
      None \<Rightarrow> Inl (InvalidCorrelationConfiguration ''runtime-correlation configuration is not valid JSON'')
    | Some (PDict data) \<Rightarrow> corr_from_mapping render data
    | Some _ \<Rightarrow> Inl (InvalidCorrelationConfiguration
        ''runtime-correlation configuration root must be an object''))"

section \<open>Execution states\<close>

record runtime_indicator =
  ri_rule :: string
  ri_weight :: int
  ri_occurrence :: int
  ri_maximum :: int
  ri_evidence :: pyval
  ri_description :: string

record transition =
  tr_from :: string
  tr_to :: string
  tr_reason :: string
  tr_score :: int
  tr_time :: rat

record exec_state =
  es_correlation_id :: string
  es_generation :: int
  es_pid :: int
  es_tgid :: int
  es_ppid :: int
  es_uid :: int
  es_source :: string
  es_status :: string
  es_executable_path :: "string option"
  es_executable_identifier :: "string option"
  es_pre_score :: int
  es_pre_decision :: string
  es_pre_indicators :: "pydict list"
  es_runtime_score :: int
  es_combined_score :: int
  es_action :: string
  es_parent_id :: "string option"
  es_created :: rat
  es_last_seen :: rat
  es_exec_ns :: "int option"
  es_exit_ns :: "int option"
  es_exited :: "rat option"
  es_indicators :: "runtime_indicator list"
  es_occurrences :: "(string, int) dict"
  es_files :: "string set"
  es_renames :: "string set"
  es_connections :: "string set"
  es_transitions :: "transition list"
  es_terminal_reason :: "string option"
  es_action_status :: string
  es_last_result :: "pydict option"

definition runtime_indicator_to_dict :: "runtime_indicator \<Rightarrow> pyval" where
  "runtime_indicator_to_dict i = PDict [(''rule'', PStr (ri_rule i)), (''weight'', PInt (ri_weight i)),
     (''occurrence'', PInt (ri_occurrence i)), (''maximum_occurrences'', PInt (ri_maximum i)),
     (''evidence'', ri_evidence i), (''description'', PStr (ri_description i))]"

definition transition_to_dict :: "transition \<Rightarrow> pyval" where
  "transition_to_dict t = PDict [(''from'', PStr (tr_from t)), (''to'', PStr (tr_to t)),
     (''reason'', PStr (tr_reason t)), (''combined_score'', PInt (tr_score t)),
     (''timestamp_monotonic'', PFloat (Fin (tr_time t)))]"

definition exec_state_to_dict :: "exec_state \<Rightarrow> pydict" where
  "exec_state_to_dict st = [
     (''schema_version'', PStr ''1.0''),
     (''correlation_id'', PStr (es_correlation_id st)),
     (''generation'', PInt (es_generation st)),
     (''pid'', PInt (es_pid st)),
     (''tgid'', PInt (es_tgid st)),
     (''ppid'', PInt (es_ppid st)),
     (''uid'', PInt (es_uid st)),
     (''source'', PStr (es_source st)),
     (''status'', PStr (es_status st)),
     (''executable_path'', py_opt_str (es_executable_path st)),
     (''executable_identifier'', py_opt_str (es_executable_identifier st)),
     (''pre_execution_score'', PInt (es_pre_score st)),
     (''runtime_score'', PInt (es_runtime_score st)),
     (''combined_score'', PInt (es_combined_score st)),
     (''pre_execution_decision'', PStr (es_pre_decision st)),
     (''recommended_action'', PStr (es_action st)),
     (''action_execution_status'', PStr (es_action_status st)),
     (''last_action_result'', case es_last_result st of None \<Rightarrow> PNone
        | Some d \<Rightarrow> if d = [] then PNone else PDict d),
     (''parent_correlation_id'', py_opt_str (es_parent_id st)),
     (''exec_timestamp_ns'', py_opt_int (es_exec_ns st)),
     (''exit_timestamp_ns'', py_opt_int (es_exit_ns st)),
     (''pre_execution_indicators'', PList (map PDict (es_pre_indicators st))),
     (''runtime_indicators'', PList (map runtime_indicator_to_dict (es_indicators st))),
     (''runtime_counters'', PDict [
        (''distinct_files'', PInt (int (card (es_files st)))),
        (''rename_identifiers'', PInt (int (card (es_renames st)))),
        (''outbound_connections'', PInt (int (card (es_connections st)))),
        (''rule_occurrences'', PDict (map (\<lambda>(k, v). (k, PInt v)) (es_occurrences st)))]),
     (''transitions'', PList (map transition_to_dict (es_transitions st))),
     (''terminal_reason'', py_opt_str (es_terminal_reason st))]"

definition action_rank_table :: "(string, nat) dict" where
  "action_rank_table = [(''CONTINUE_MONITORING'', 0), (''ALERT'', 1), (''TERMINATE'', 2),
     (''QUARANTINE'', 3), (''DENY'', 4)]"

definition action_rank :: "string \<Rightarrow> nat" where
  \<comment> \<open>every action the engine assigns is in the table\<close>
  "action_rank a = dict_get_or action_rank_table a 0"

section \<open>Engine\<close>

record corr_env =
  ce_clock :: "nat \<Rightarrow> rat"
  ce_id :: "nat \<Rightarrow> string"
  ce_render :: "pyval \<Rightarrow> string"

record corr_engine =
  en_states :: "(int, exec_state) dict"
  en_archived :: "pydict list"
  en_generation :: "(int, int) dict"
  en_ticks :: nat
  en_ids :: nat

definition new_corr_engine :: corr_engine where
  "new_corr_engine = \<lparr>en_states = [], en_archived = [], en_generation = [], en_ticks = 0, en_ids = 0\<rparr>"

type_synonym 'a corr_op = "(corr_engine, pyexc, 'a) eff"

definition corr_score :: "pyval \<Rightarrow> pyexc + int" where
  "corr_score v = (case v of
      PInt i \<Rightarrow> Inr (clamp_score i)
    | PFloat f \<Rightarrow> res_bind (float_to_int f) (\<lambda>i. Inr (clamp_score i))
    | PStr s \<Rightarrow> (let head = takeWhile (\<lambda>c. c \<noteq> CHR ''/'') s in
        case res_bind (py_float (PStr head)) float_to_int of
          Inr i \<Rightarrow> Inr (clamp_score i)
        | Inl (ValueError _) \<Rightarrow> Inr 0
        | Inl e \<Rightarrow> Inl e)
    | _ \<Rightarrow> Inr 0)"

definition corr_pid :: "pydict \<Rightarrow> pyexc + int" where
  "corr_pid record =
     (let v = py_or (py_or (py_get record ''tgid'') (py_get record ''pid'')) (PInt 0) in
      if is_bool v then Inr 0
      else case py_int v of
          Inr i \<Rightarrow> Inr i
        | Inl TypeError \<Rightarrow> Inr 0
        | Inl (ValueError _) \<Rightarrow> Inr 0
        | Inl e \<Rightarrow> Inl e)"

definition corr_tick :: "corr_env \<Rightarrow> rat corr_op" where
  "corr_tick env = (\<lambda>e. (Inr (ce_clock env (en_ticks e)), e\<lparr>en_ticks := Suc (en_ticks e)\<rparr>))"

definition archive_states :: "int \<Rightarrow> string \<Rightarrow> corr_engine \<Rightarrow> corr_engine" where
  "archive_states pid reason e = (case dict_get (en_states e) pid of
      None \<Rightarrow> e
    | Some st \<Rightarrow> e\<lparr>en_states := dict_pop pid (en_states e),
        en_archived := push_bounded 1024
          (exec_state_to_dict (st\<lparr>es_terminal_reason := Some reason\<rparr>)) (en_archived e)\<rparr>)"

definition corr_thr :: "corr_policy \<Rightarrow> string \<Rightarrow> int" where
  \<comment> \<open>\<open>validate\<close> requires the three keys\<close>
  "corr_thr p k = dict_get_or (cp_thresholds p) k 0"

definition action_for :: "corr_policy \<Rightarrow> exec_state \<Rightarrow> string" where
  "action_for p st =
     (if es_status st = ''DENIED_PRE_EXECUTION'' then ''DENY''
      else if es_combined_score st \<ge> corr_thr p ''quarantine_min'' then ''QUARANTINE''
      else if es_combined_score st \<ge> corr_thr p ''terminate_min'' then ''TERMINATE''
      else if es_combined_score st \<ge> corr_thr p ''alert_min'' then ''ALERT''
      else ''CONTINUE_MONITORING'')"

text \<open>\<open>_recalculate\<close>: the scores, the latched action, and whether a transition is recorded.\<close>

definition rescore :: "corr_policy \<Rightarrow> exec_state \<Rightarrow> exec_state" where
  "rescore p st =
     (let rs = min (cp_score_maximum p) (sum_list (map ri_weight (es_indicators st))) in
      st\<lparr>es_runtime_score := rs, es_combined_score := min (cp_score_maximum p) (es_pre_score st + rs)\<rparr>)"

definition latched_action :: "corr_policy \<Rightarrow> exec_state \<Rightarrow> string" where
  "latched_action p st = (let candidate = action_for p (rescore p st) in
     if action_rank candidate < action_rank (es_action st) then es_action st else candidate)"

definition records_transition :: "corr_policy \<Rightarrow> exec_state \<Rightarrow> bool" where
  "records_transition p st = (latched_action p st \<noteq> es_action st \<or> es_transitions st = [])"

definition recalculate :: "corr_policy \<Rightarrow> string \<Rightarrow> rat \<Rightarrow> exec_state \<Rightarrow> exec_state" where
  "recalculate p reason t st =
     (let st1 = rescore p st; a = latched_action p st in
      st1\<lparr>es_action := a,
          es_transitions := (if records_transition p st
            then es_transitions st @ [\<lparr>tr_from = es_action st, tr_to = a, tr_reason = reason,
                   tr_score = es_combined_score st1, tr_time = round6 t\<rparr>]
            else es_transitions st)\<rparr>)"

text \<open>
  The state object of a process is mutated in place: \<open>f\<close> are the assignments, then the scores are
  recalculated. The clock is read only when a transition is recorded.
\<close>

definition mutate_state :: "corr_env \<Rightarrow> corr_policy \<Rightarrow> int \<Rightarrow> (exec_state \<Rightarrow> exec_state) \<Rightarrow> string \<Rightarrow> unit corr_op" where
  "mutate_state env p pid f reason = eff_modify (\<lambda>e. case dict_get (en_states e) pid of
      None \<Rightarrow> e
    | Some st \<Rightarrow> (let st1 = f st in
        e\<lparr>en_states := dict_set pid (recalculate p reason (ce_clock env (en_ticks e)) st1) (en_states e),
          en_ticks := (if records_transition p st1 then Suc (en_ticks e) else en_ticks e)\<rparr>))"

text \<open>Assignments that are not followed by a recalculation.\<close>

definition assign_state :: "int \<Rightarrow> (exec_state \<Rightarrow> exec_state) \<Rightarrow> unit corr_op" where
  "assign_state pid f = eff_modify (\<lambda>e. case dict_get (en_states e) pid of
      None \<Rightarrow> e | Some st \<Rightarrow> e\<lparr>en_states := dict_set pid (f st) (en_states e)\<rparr>)"

definition evict_for_room :: "corr_policy \<Rightarrow> corr_engine \<Rightarrow> corr_engine" where
  "evict_for_room p e =
     (if cp_max_states p \<le> int (length (en_states e))
      then (case oldest_key es_last_seen (en_states e) of
              None \<Rightarrow> e | Some k \<Rightarrow> archive_states k ''MAX_STATES_EVICTION'' e)
      else e)"

definition fresh_state :: "string \<Rightarrow> int \<Rightarrow> rat \<Rightarrow> int \<Rightarrow> int \<Rightarrow> int \<Rightarrow> string \<Rightarrow> string \<Rightarrow>
    string option \<Rightarrow> int \<Rightarrow> string \<Rightarrow> pydict list \<Rightarrow> string option \<Rightarrow> exec_state" where
  "fresh_state cid generation now pid ppid uid source status path score dec indicators parent = \<lparr>
     es_correlation_id = cid, es_generation = generation, es_pid = pid, es_tgid = pid, es_ppid = ppid,
     es_uid = uid, es_source = source, es_status = status, es_executable_path = path,
     es_executable_identifier = None, es_pre_score = score, es_pre_decision = dec,
     es_pre_indicators = indicators, es_runtime_score = 0, es_combined_score = score,
     es_action = ''CONTINUE_MONITORING'', es_parent_id = parent, es_created = now, es_last_seen = now,
     es_exec_ns = None, es_exit_ns = None, es_exited = None, es_indicators = [], es_occurrences = [],
     es_files = {}, es_renames = {}, es_connections = {}, es_transitions = [],
     es_terminal_reason = None, es_action_status = ''NOT_EXECUTED_STAGE11'', es_last_result = None\<rparr>"

definition new_state :: "corr_env \<Rightarrow> corr_policy \<Rightarrow> int \<Rightarrow> int \<Rightarrow> int \<Rightarrow> string \<Rightarrow> string \<Rightarrow>
    string option \<Rightarrow> int \<Rightarrow> string \<Rightarrow> pydict list \<Rightarrow> string option \<Rightarrow> unit corr_op" where
  "new_state env p pid ppid uid source status path score dec indicators parent =
     eff_modify (\<lambda>e0.
       let e1 = evict_for_room p e0;
           generation = dict_get_or (en_generation e1) pid 0 + 1;
           now = ce_clock env (en_ticks e1);
           st0 = fresh_state (ce_id env (en_ids e1)) generation now pid ppid uid source status path score
                   dec indicators parent;
           st = recalculate p ''STATE_CREATED'' (ce_clock env (Suc (en_ticks e1))) st0
       in e1\<lparr>en_generation := dict_set pid generation (en_generation e1),
             en_states := dict_set pid st (en_states e1),
             en_ticks := (if records_transition p st0 then Suc (Suc (en_ticks e1)) else Suc (en_ticks e1)),
             en_ids := Suc (en_ids e1)\<rparr>)"

definition expired_entries :: "corr_policy \<Rightarrow> rat \<Rightarrow> (int, exec_state) dict \<Rightarrow> (int \<times> string) list" where
  "expired_entries p current d = concat (map (\<lambda>(pid, st).
     case (if es_status st = ''EXITED'' then es_exited st else None) of
       Some x \<Rightarrow> (if float_gt (Fin (current - x)) (cp_exited_ttl p)
                 then [(pid, ''EXITED_STATE_TTL_EXPIRED'')] else [])
     | None \<Rightarrow> (if float_gt (Fin (current - es_last_seen st)) (cp_state_ttl p)
               then [(pid, ''ACTIVE_STATE_TTL_EXPIRED'')] else [])) d)"

definition expire :: "corr_env \<Rightarrow> corr_policy \<Rightarrow> rat option \<Rightarrow> int corr_op" where
  "expire env p now =
     eff_bind (case now of None \<Rightarrow> corr_tick env | Some t \<Rightarrow> eff_return t) (\<lambda>current.
     eff_bind (eff_gets (\<lambda>e. expired_entries p current (en_states e))) (\<lambda>expired.
     eff_bind (eff_for (\<lambda>(pid, reason). eff_modify (archive_states pid reason)) expired) (\<lambda>_.
     eff_return (int (length expired)))))"

definition corr_rejected :: pydict where
  "corr_rejected = [(''accepted'', PBool False), (''reason'', PStr ''MISSING_PROCESS_ID'')]"

text \<open>The snapshot a call returns; the state is present whenever the code gets here.\<close>

definition snapshot :: "int \<Rightarrow> (pydict \<Rightarrow> pydict) \<Rightarrow> pydict corr_op" where
  "snapshot pid wrap = eff_bind (eff_gets (\<lambda>e. dict_get (en_states e) pid)) (\<lambda>s.
     case s of None \<Rightarrow> eff_raise AssertionError | Some st \<Rightarrow> eff_return (wrap (exec_state_to_dict st)))"

definition late_bindable :: "corr_policy \<Rightarrow> rat \<Rightarrow> exec_state option \<Rightarrow> bool" where
  "late_bindable p now current = (case current of None \<Rightarrow> False
     | Some st \<Rightarrow> es_source st = ''RUNTIME_ONLY'' \<and> es_status st \<in> {''ACTIVE'', ''PENDING_EXEC''} \<and>
         float_ge (cp_late_window p) (Fin (now - es_created st)))"

definition safe_indicators :: "pyval \<Rightarrow> pyexc + pydict list" where
  "safe_indicators v = (case v of PList xs \<Rightarrow> map_res py_dict_of xs | _ \<Rightarrow> Inr [])"

definition non_empty_str :: "pyval \<Rightarrow> string option" where
  "non_empty_str v = (case v of PStr s \<Rightarrow> if s = [] then None else Some s | _ \<Rightarrow> None)"

text \<open>The two outcomes of a registration: late binding to a runtime-only state, or a new state.\<close>

definition bind_execution :: "corr_env \<Rightarrow> corr_policy \<Rightarrow> int \<Rightarrow> rat \<Rightarrow> exec_state option \<Rightarrow> int \<Rightarrow>
    string \<Rightarrow> string \<Rightarrow> pydict list \<Rightarrow> string option \<Rightarrow> pydict corr_op" where
  "bind_execution env p pid now current score final_action requested indicators path =
     (if late_bindable p now current
      then eff_bind (mutate_state env p pid (\<lambda>st. st\<lparr>
              es_source := ''FANOTIFY_LATE_BOUND'',
              es_executable_path := (case path of Some x \<Rightarrow> Some x | None \<Rightarrow> es_executable_path st),
              es_pre_score := score, es_pre_decision := requested, es_pre_indicators := indicators,
              es_last_seen := now,
              es_status := (if final_action = ''DENY'' then ''DENIED_PRE_EXECUTION'' else es_status st)\<rparr>)
            ''FANOTIFY_LATE_BINDING'') (\<lambda>_.
          snapshot pid (\<lambda>d. [(''accepted'', PBool True), (''late_bound'', PBool True), (''state'', PDict d)]))
      else
        eff_bind (eff_when (current \<noteq> None)
          (eff_modify (archive_states pid ''SUPERSEDED_BY_NEW_PRE_EXECUTION''))) (\<lambda>_.
        eff_bind (new_state env p pid 0 0 ''FANOTIFY''
          (if final_action = ''DENY'' then ''DENIED_PRE_EXECUTION'' else ''PENDING_EXEC'')
          path score requested indicators None) (\<lambda>_.
        snapshot pid (\<lambda>d. [(''accepted'', PBool True), (''late_bound'', PBool False), (''state'', PDict d)]))))"

definition register_pre_execution :: "corr_env \<Rightarrow> corr_policy \<Rightarrow> pydict \<Rightarrow> pydict corr_op" where
  "register_pre_execution env p record =
     eff_bind (expire env p None) (\<lambda>_.
     eff_bind (eff_lift (corr_pid record)) (\<lambda>pid.
     if pid \<le> 0 then eff_return corr_rejected
     else
     eff_bind (corr_tick env) (\<lambda>now.
     eff_bind (eff_gets (\<lambda>e. dict_get (en_states e) pid)) (\<lambda>current.
     eff_bind (eff_lift (corr_score
        (py_get_or record ''score'' (py_get_or record ''risk_score'' (PInt 0))))) (\<lambda>score.
     eff_bind (eff_lift (safe_indicators (py_get record ''indicators''))) (\<lambda>indicators.
     bind_execution env p pid now current score
       (py_upper (py_str (ce_render env) (py_get_or record ''final_action'' (PStr ''ALLOW''))))
       (py_upper (py_str (ce_render env) (py_get_or record ''requested_decision'' (PStr ''UNKNOWN''))))
       indicators (non_empty_str (py_get record ''path''))))))))"

definition lexically_same :: "string option \<Rightarrow> string option \<Rightarrow> bool" where
  "lexically_same a b = (case (a, b) of
      (Some x, Some y) \<Rightarrow> x = [] \<or> y = [] \<or> normpath x = normpath y
    | _ \<Rightarrow> True)"

definition count_rule :: "runtime_rule \<Rightarrow> string \<Rightarrow> pyval \<Rightarrow> exec_state \<Rightarrow> exec_state" where
  "count_rule spec rule_id evidence st = (let n = dict_get_or (es_occurrences st) rule_id 0 + 1 in
     st\<lparr>es_occurrences := dict_set rule_id n (es_occurrences st),
        es_indicators := es_indicators st @ [\<lparr>ri_rule = rule_id, ri_weight = rr_weight spec,
          ri_occurrence = n, ri_maximum = rr_max_occurrences spec, ri_evidence = evidence,
          ri_description = rr_description spec\<rparr>]\<rparr>)"

definition apply_rule :: "corr_env \<Rightarrow> corr_policy \<Rightarrow> int \<Rightarrow> string \<Rightarrow> pyval \<Rightarrow> bool corr_op" where
  "apply_rule env p pid rule_id evidence =
     eff_bind (eff_lift (case dict_get (cp_rules p) rule_id of
         None \<Rightarrow> Inl (KeyError rule_id) | Some spec \<Rightarrow> Inr spec)) (\<lambda>spec.
     eff_bind (eff_gets (\<lambda>e. case dict_get (en_states e) pid of
         None \<Rightarrow> 0 | Some st \<Rightarrow> dict_get_or (es_occurrences st) rule_id 0)) (\<lambda>occurrence.
     if occurrence \<ge> rr_max_occurrences spec then eff_return False
     else eff_bind (mutate_state env p pid (count_rule spec rule_id evidence) rule_id)
            (\<lambda>_. eff_return True)))"

definition runtime_state :: "corr_env \<Rightarrow> corr_policy \<Rightarrow> pydict \<Rightarrow> int option corr_op" where
  "runtime_state env p event =
     eff_bind (eff_lift (corr_pid event)) (\<lambda>pid.
     if pid \<le> 0 then eff_return None
     else eff_bind (eff_gets (\<lambda>e. dict_get (en_states e) pid)) (\<lambda>present.
     if present \<noteq> None then eff_return (Some pid)
     else
     eff_bind (eff_lift (py_int (py_or (py_get event ''ppid'') (PInt 0)))) (\<lambda>ppid.
     eff_bind (eff_gets (\<lambda>e. dict_get (en_states e) ppid)) (\<lambda>parent.
     eff_bind (case parent of
         None \<Rightarrow> eff_return None
       | Some ps \<Rightarrow> eff_bind (corr_tick env) (\<lambda>t. eff_return
           (if float_ge (cp_inherit_window p) (Fin (t - es_last_seen ps))
            then Some (es_correlation_id ps) else None))) (\<lambda>parent_id.
     eff_bind (eff_lift (py_int (py_or (py_get event ''uid'') (PInt 0)))) (\<lambda>uid.
     eff_bind (new_state env p pid ppid uid ''RUNTIME_ONLY'' ''ACTIVE'' None 0 ''UNKNOWN'' [] parent_id) (\<lambda>_.
     eff_bind (eff_when (parent_id \<noteq> None \<and> py_str (ce_render env) (py_get event ''event_type'') = ''PROCESS_EXEC'')
       (eff_bind (apply_rule env p pid ''CHILD_PROCESS_EXEC''
          (PDict [(''parent_pid'', PInt ppid), (''parent_correlation_id'', py_opt_str parent_id)]))
          (\<lambda>_. eff_return ()))) (\<lambda>_.
     eff_return (Some pid)))))))))"

definition exec_event :: "corr_env \<Rightarrow> corr_policy \<Rightarrow> pydict \<Rightarrow> int \<Rightarrow> unit corr_op" where
  "exec_event env p event pid0 =
     eff_bind (eff_lift (py_int (py_or (py_get event ''timestamp_ns'') (PInt 0)))) (\<lambda>timestamp.
     eff_bind (eff_gets (\<lambda>e. Option.bind (dict_get (en_states e) pid0) es_exec_ns)) (\<lambda>old.
     eff_bind (if (case old of None \<Rightarrow> False | Some ns \<Rightarrow> timestamp > ns)
        then eff_bind (eff_modify (archive_states pid0 ''PID_EXEC_GENERATION_REPLACED'')) (\<lambda>_.
             eff_bind (runtime_state env p event) (\<lambda>r.
             case r of None \<Rightarrow> eff_raise AssertionError | Some pid \<Rightarrow> eff_return pid))
        else eff_return pid0) (\<lambda>pid.
     let identifier = non_empty_str (py_get event ''executable_identifier'') in
     eff_bind (assign_state pid (\<lambda>st. st\<lparr>es_status := ''ACTIVE'',
        es_exec_ns := (if timestamp \<noteq> 0 then Some timestamp else es_exec_ns st),
        es_executable_identifier := identifier\<rparr>)) (\<lambda>_.
     eff_bind (eff_gets (\<lambda>e. Option.bind (dict_get (en_states e) pid) es_executable_path)) (\<lambda>path.
     eff_when (\<not> lexically_same path identifier)
       (eff_bind (apply_rule env p pid ''EXECUTABLE_IDENTIFIER_MISMATCH''
          (PDict [(''fanotify_path'', py_opt_str path), (''ebpf_identifier'', py_opt_str identifier)]))
        (\<lambda>_. eff_return ())))))))"

text \<open>A key seen for the first time is remembered and counted once.\<close>

definition novel_event :: "corr_env \<Rightarrow> corr_policy \<Rightarrow> int \<Rightarrow> (exec_state \<Rightarrow> string set) \<Rightarrow>
    (exec_state \<Rightarrow> exec_state) \<Rightarrow> string \<Rightarrow> string \<Rightarrow> pyval \<Rightarrow> unit corr_op" where
  "novel_event env p pid seen remember key rule_id evidence =
     eff_bind (eff_gets (\<lambda>e. case dict_get (en_states e) pid of
         None \<Rightarrow> False | Some st \<Rightarrow> key \<notin> seen st)) (\<lambda>novel.
     eff_when novel
       (eff_bind (assign_state pid remember) (\<lambda>_.
        eff_bind (apply_rule env p pid rule_id evidence) (\<lambda>_. eff_return ()))))"

definition write_event :: "corr_env \<Rightarrow> corr_policy \<Rightarrow> pydict \<Rightarrow> int \<Rightarrow> unit corr_op" where
  "write_event env p event pid =
     (let v = py_get event ''distinct_file_key''; key = py_str (ce_render env) v in
      eff_when (v \<noteq> PNone)
        (novel_event env p pid es_files (\<lambda>st. st\<lparr>es_files := insert key (es_files st)\<rparr>) key
           ''DISTINCT_FILE_WRITE'' (PDict [(''distinct_file_key'', PStr key)])))"

definition rename_event :: "corr_env \<Rightarrow> corr_policy \<Rightarrow> pydict \<Rightarrow> int \<Rightarrow> unit corr_op" where
  "rename_event env p event pid =
     (let key = py_str (ce_render env)
            (py_or (py_get event ''executable_identifier'') (PStr ''UNKNOWN_IDENTIFIER'')) in
      novel_event env p pid es_renames (\<lambda>st. st\<lparr>es_renames := insert key (es_renames st)\<rparr>) key
        ''FILE_RENAME'' (PDict [(''identifier'', PStr key), (''path_capability'', PStr ''IDENTIFIER_ONLY'')]))"

definition connect_event :: "corr_env \<Rightarrow> corr_policy \<Rightarrow> pydict \<Rightarrow> int \<Rightarrow> unit corr_op" where
  "connect_event env p event pid =
     (let key = py_str (ce_render env) (py_or (py_get event ''destination_address'') (PStr ''unknown''))
            @ '':'' @ py_str (ce_render env) (py_or (py_get event ''destination_port'') (PInt 0)) in
      novel_event env p pid es_connections (\<lambda>st. st\<lparr>es_connections := insert key (es_connections st)\<rparr>) key
        ''OUTBOUND_CONNECTION'' (PDict [(''endpoint'', PStr key)]))"

definition exit_event :: "rat \<Rightarrow> pydict \<Rightarrow> int \<Rightarrow> unit corr_op" where
  "exit_event now event pid =
     eff_bind (assign_state pid (\<lambda>st. st\<lparr>es_status := ''EXITED''\<rparr>)) (\<lambda>_.
     eff_bind (eff_lift (py_int (py_or (py_get event ''timestamp_ns'') (PInt 0)))) (\<lambda>ns.
     assign_state pid (\<lambda>st. st\<lparr>es_exit_ns := (if ns = 0 then None else Some ns), es_exited := Some now,
       es_terminal_reason := Some ''PROCESS_EXIT_OBSERVED''\<rparr>)))"

definition ingest_runtime_event :: "corr_env \<Rightarrow> corr_policy \<Rightarrow> pydict \<Rightarrow> pydict corr_op" where
  "ingest_runtime_event env p event =
     eff_bind (expire env p None) (\<lambda>_.
     eff_bind (runtime_state env p event) (\<lambda>r.
     case r of None \<Rightarrow> eff_return corr_rejected
     | Some pid \<Rightarrow>
     eff_bind (corr_tick env) (\<lambda>now.
     eff_bind (assign_state pid (\<lambda>st. st\<lparr>es_last_seen := now\<rparr>)) (\<lambda>_.
     eff_bind (eff_gets (\<lambda>e. map_option es_ppid (dict_get (en_states e) pid))) (\<lambda>old_ppid.
     eff_bind (eff_lift (py_int (py_or (py_get event ''ppid'') (py_opt_int old_ppid)))) (\<lambda>ppid.
     eff_bind (assign_state pid (\<lambda>st. st\<lparr>es_ppid := ppid\<rparr>)) (\<lambda>_.
     eff_bind (eff_gets (\<lambda>e. map_option es_uid (dict_get (en_states e) pid))) (\<lambda>old_uid.
     eff_bind (eff_lift (py_int (py_or (py_get event ''uid'') (py_opt_int old_uid)))) (\<lambda>uid.
     eff_bind (assign_state pid (\<lambda>st. st\<lparr>es_uid := uid\<rparr>)) (\<lambda>_.
     let kind = py_str (ce_render env) (py_get_or event ''event_type'' (PStr '''')) in
     eff_bind (if kind = ''PROCESS_EXEC'' then exec_event env p event pid
        else if kind = ''FILE_WRITE'' then write_event env p event pid
        else if kind = ''FILE_RENAME'' then rename_event env p event pid
        else if kind = ''NETWORK_CONNECT'' then connect_event env p event pid
        else if kind = ''PROCESS_EXIT'' then exit_event now event pid
        else eff_return ()) (\<lambda>_.
     eff_bind (mutate_state env p pid id (''EVENT_'' @ (if kind = [] then ''UNKNOWN'' else kind))) (\<lambda>_.
     snapshot pid (\<lambda>d. [(''accepted'', PBool True), (''state'', PDict d)])))))))))))))"

definition record_action_result :: "corr_env \<Rightarrow> pyval \<Rightarrow> pyval \<Rightarrow> pydict \<Rightarrow> bool corr_op" where
  "record_action_result env pid_arg cid result =
     eff_bind (eff_lift (py_int pid_arg)) (\<lambda>pid.
     eff_bind (eff_gets (\<lambda>e. dict_get (en_states e) pid)) (\<lambda>s.
     case s of None \<Rightarrow> eff_return False
     | Some st \<Rightarrow>
       if es_correlation_id st \<noteq> py_str (ce_render env) cid then eff_return False
       else
         eff_bind (assign_state pid (\<lambda>st. st\<lparr>es_last_result := Some result,
            es_action_status := py_str (ce_render env) (py_or (py_get result ''status'') (PStr ''UNKNOWN''))\<rparr>)) (\<lambda>_.
         eff_bind (corr_tick env) (\<lambda>t.
         eff_bind (assign_state pid (\<lambda>st. st\<lparr>es_last_seen := t\<rparr>)) (\<lambda>_. eff_return True)))))"

definition get_state :: "pyval \<Rightarrow> pydict option corr_op" where
  "get_state pid_arg = eff_bind (eff_lift (py_int pid_arg)) (\<lambda>pid.
     eff_gets (\<lambda>e. map_option exec_state_to_dict (dict_get (en_states e) pid)))"

definition list_states :: "pyval \<Rightarrow> pydict list corr_op" where
  "list_states limit = eff_bind (eff_lift (py_int limit)) (\<lambda>n.
     eff_gets (\<lambda>e. map exec_state_to_dict
       (take (nat (max 1 (min 200 n))) (sort_desc es_last_seen (map snd (en_states e))))))"

definition count_by :: "('a \<Rightarrow> string) \<Rightarrow> 'a list \<Rightarrow> (string, int) dict" where
  "count_by f xs = fold (\<lambda>x d. dict_set (f x) (dict_get_or d (f x) 0 + 1) d) xs []"

definition corr_summary :: "corr_policy \<Rightarrow> corr_engine \<Rightarrow> pydict" where
  "corr_summary p e = (let sts = map snd (en_states e);
       counts = (\<lambda>d. PDict (map (\<lambda>(k, v). (k, PInt v)) d)) in [
     (''policy_name'', PStr (cp_policy_name p)),
     (''policy_status'', PStr (cp_policy_status p)),
     (''active_state_count'', PInt (int (length sts))),
     (''archived_state_count'', PInt (int (length (en_archived e)))),
     (''status_counts'', counts (count_by es_status sts)),
     (''recommended_action_counts'', counts (count_by es_action sts)),
     (''decision_thresholds'', counts (cp_thresholds p)),
     (''combination_formula'', PStr ''combined_score=min(100, pre_execution_score+runtime_score)''),
     (''actions_executed'', PBool (list_ex (\<lambda>st. es_action_status st = ''SUCCEEDED'') sts))])"

section \<open>What validation establishes\<close>

definition valid_corr :: "corr_policy \<Rightarrow> bool" where
  "valid_corr p = (validate_corr p = Inr ())"

definition runtime_rule_ok :: "string \<Rightarrow> runtime_rule \<Rightarrow> bool" where
  "runtime_rule_ok k r = (rr_rule r = k \<and> 0 < rr_weight r \<and> 0 < rr_max_occurrences r)"

lemma validate_runtime_rules_ok: "validate_runtime_rules rs = Inr () \<Longrightarrow> dict_all runtime_rule_ok rs"
  by (induction rs) (auto simp: dict_all_def runtime_rule_ok_def split: if_splits)

lemma valid_corrD:
  assumes "valid_corr p"
  shows "cp_score_maximum p = 100" and "0 < cp_max_states p"
    and "0 < corr_thr p ''alert_min''" and "corr_thr p ''alert_min'' < corr_thr p ''terminate_min''"
    and "corr_thr p ''terminate_min'' < corr_thr p ''quarantine_min''"
    and "corr_thr p ''quarantine_min'' \<le> 100"
    and "fst ` set (cp_rules p) = set corr_required_rules"
    and "dict_all runtime_rule_ok (cp_rules p)"
  using assms validate_runtime_rules_ok
  by (auto simp: valid_corr_def validate_corr_def Let_def corr_thr_def res_bind_eq_Inr split: if_splits)

lemma from_corr_mapping_valid: "corr_from_mapping render data = Inr p \<Longrightarrow> valid_corr p"
  by (auto simp: corr_from_mapping_def valid_corr_def res_bind_eq_Inr split: sum.splits)

lemma valid_rule:
  assumes "valid_corr p" and "k \<in> set corr_required_rules"
  obtains r where "dict_get (cp_rules p) k = Some r" and "0 < rr_weight r" and "0 < rr_max_occurrences r"
proof -
  obtain r where r: "dict_get (cp_rules p) k = Some r"
    using assms valid_corrD(7) by (metis dict_get_None_iff not_None_eq)
  then have "runtime_rule_ok k r" using valid_corrD(8) [OF assms(1)] by (rule dict_all_get [rotated])
  with r show ?thesis using that by (auto simp: runtime_rule_ok_def)
qed

section \<open>The invariant of an execution state\<close>

text \<open>The action history is a chain of non-decreasing ranks.\<close>

fun chain :: "string \<Rightarrow> transition list \<Rightarrow> string \<Rightarrow> bool" where
  "chain a [] b = (a = b)"
| "chain a (t # ts) b = (tr_from t = a \<and> action_rank a \<le> action_rank (tr_to t) \<and> chain (tr_to t) ts b)"

lemma chain_snoc [simp]:
  "chain a (ts @ [t]) c \<longleftrightarrow>
   chain a ts (tr_from t) \<and> action_rank (tr_from t) \<le> action_rank (tr_to t) \<and> tr_to t = c"
  by (induction ts arbitrary: a) auto

lemma chain_rest: "chain a xs b \<Longrightarrow> chain a (xs @ ys) c \<Longrightarrow> chain b ys c"
  by (induction xs arbitrary: a) auto

definition rule_count :: "exec_state \<Rightarrow> string \<Rightarrow> int" where
  "rule_count st k = int (length (filter (\<lambda>i. ri_rule i = k) (es_indicators st)))"

definition indicator_ok :: "corr_policy \<Rightarrow> runtime_indicator \<Rightarrow> bool" where
  "indicator_ok p i = (\<exists>spec. dict_get (cp_rules p) (ri_rule i) = Some spec \<and> ri_weight i = rr_weight spec)"

definition st_core :: "corr_policy \<Rightarrow> int \<Rightarrow> exec_state \<Rightarrow> bool" where
  "st_core p k st = (0 < k \<and> es_pid st = k \<and> 0 \<le> es_pre_score st \<and> es_pre_score st \<le> 100 \<and>
     (es_source st = ''RUNTIME_ONLY'' \<longrightarrow> es_pre_score st = 0) \<and>
     list_all (indicator_ok p) (es_indicators st) \<and>
     (\<forall>r. dict_get_or (es_occurrences st) r 0 = rule_count st r) \<and>
     (\<forall>r spec. dict_get (cp_rules p) r = Some spec \<longrightarrow> rule_count st r \<le> rr_max_occurrences spec) \<and>
     chain ''CONTINUE_MONITORING'' (es_transitions st) (es_action st))"

definition st_scored :: "corr_policy \<Rightarrow> exec_state \<Rightarrow> bool" where
  "st_scored p st = (es_runtime_score st = min 100 (sum_list (map ri_weight (es_indicators st))) \<and>
     es_combined_score st = min 100 (es_pre_score st + es_runtime_score st) \<and>
     (es_action st = ''DENY'' \<or> es_action st = action_for p st) \<and> es_transitions st \<noteq> [])"

text \<open>Before a recalculation: the current action is a denial or within what the evidence supports.\<close>

definition calm :: "corr_policy \<Rightarrow> exec_state \<Rightarrow> bool" where
  "calm p st = (es_action st = ''DENY'' \<or>
     action_rank (es_action st) \<le> action_rank (action_for p (rescore p st)))"

definition st_inv :: "corr_policy \<Rightarrow> int \<Rightarrow> exec_state \<Rightarrow> bool" where
  "st_inv p k st = (st_core p k st \<and> st_scored p st)"

lemma action_for_cases:
  "action_for p st \<in> {''CONTINUE_MONITORING'', ''ALERT'', ''TERMINATE'', ''QUARANTINE'', ''DENY''}"
  by (simp add: action_for_def)

lemma action_rank_simps [simp]:
  "action_rank ''CONTINUE_MONITORING'' = 0" "action_rank ''ALERT'' = 1" "action_rank ''TERMINATE'' = 2"
  "action_rank ''QUARANTINE'' = 3" "action_rank ''DENY'' = 4"
  by (simp_all add: action_rank_def action_rank_table_def dict_get_or_def)

lemma rank_top: "4 \<le> action_rank a \<longleftrightarrow> a = ''DENY''"
  by (auto simp: action_rank_def action_rank_table_def dict_get_or_def split: if_splits)

lemma chain_from_deny: "chain ''DENY'' ts b \<Longrightarrow> list_all (\<lambda>t. tr_to t = ''DENY'') ts"
  by (induction ts) (auto simp: rank_top)

lemma latched_rank: "action_rank (es_action st) \<le> action_rank (latched_action p st)"
  by (auto simp: latched_action_def Let_def)

lemma latched_calm:
  assumes "calm p st"
  shows "latched_action p st = ''DENY'' \<or> latched_action p st = action_for p (rescore p st)"
  using assms by (auto simp: latched_action_def calm_def Let_def)

lemma action_for_mono:
  assumes "es_combined_score a \<le> es_combined_score b" and "es_status a \<noteq> ''DENIED_PRE_EXECUTION''"
  shows "action_rank (action_for p a) \<le> action_rank (action_for p b)"
  using assms by (auto simp: action_for_def)

lemma rescore_fields [simp]:
  "es_action (rescore p st) = es_action st" "es_transitions (rescore p st) = es_transitions st"
  "es_indicators (rescore p st) = es_indicators st" "es_pre_score (rescore p st) = es_pre_score st"
  "es_occurrences (rescore p st) = es_occurrences st" "es_pid (rescore p st) = es_pid st"
  "es_source (rescore p st) = es_source st" "es_status (rescore p st) = es_status st"
  "es_generation (rescore p st) = es_generation st"
  "es_correlation_id (rescore p st) = es_correlation_id st"
  "es_last_seen (rescore p st) = es_last_seen st"
  "es_runtime_score (rescore p st) = min (cp_score_maximum p) (sum_list (map ri_weight (es_indicators st)))"
  "es_combined_score (rescore p st) = min (cp_score_maximum p)
     (es_pre_score st + min (cp_score_maximum p) (sum_list (map ri_weight (es_indicators st))))"
  by (simp_all add: rescore_def Let_def)

lemma recalculate_fields [simp]:
  "es_action (recalculate p r t st) = latched_action p st"
  "es_indicators (recalculate p r t st) = es_indicators st"
  "es_pre_score (recalculate p r t st) = es_pre_score st"
  "es_occurrences (recalculate p r t st) = es_occurrences st"
  "es_pid (recalculate p r t st) = es_pid st"
  "es_source (recalculate p r t st) = es_source st"
  "es_status (recalculate p r t st) = es_status st"
  "es_generation (recalculate p r t st) = es_generation st"
  "es_correlation_id (recalculate p r t st) = es_correlation_id st"
  "es_last_seen (recalculate p r t st) = es_last_seen st"
  "es_runtime_score (recalculate p r t st) = es_runtime_score (rescore p st)"
  "es_combined_score (recalculate p r t st) = es_combined_score (rescore p st)"
  by (simp_all add: recalculate_def Let_def)

lemma action_for_recalculate: "action_for p (recalculate p r t st) = action_for p (rescore p st)"
  by (simp add: action_for_def)

lemma recalculate_transitions:
  "es_transitions (recalculate p r t st) = es_transitions st @
     (if records_transition p st then [\<lparr>tr_from = es_action st, tr_to = latched_action p st, tr_reason = r,
        tr_score = es_combined_score (rescore p st), tr_time = round6 t\<rparr>] else [])"
  by (simp add: recalculate_def Let_def)

lemma recalculate_inv:
  assumes "valid_corr p" and "st_core p k st" and "calm p st"
  shows "st_inv p k (recalculate p r t st)"
proof -
  have "chain ''CONTINUE_MONITORING'' (es_transitions (recalculate p r t st)) (latched_action p st)"
  proof (cases "records_transition p st")
    case True
    then show ?thesis
      using assms(2) latched_rank
      by (simp add: recalculate_transitions st_core_def)
  next
    case False
    then show ?thesis using assms(2) by (simp add: recalculate_transitions st_core_def records_transition_def)
  qed
  moreover have "es_transitions (recalculate p r t st) \<noteq> []"
    by (simp add: recalculate_transitions records_transition_def)
  ultimately show ?thesis
    using assms(2) latched_calm [OF assms(3)] valid_corrD(1) [OF assms(1)]
    by (simp add: st_inv_def st_core_def st_scored_def action_for_recalculate rule_count_def)
qed

section \<open>The invariant of the engine and how it evolves\<close>

definition gen_of :: "corr_engine \<Rightarrow> int \<Rightarrow> int" where
  "gen_of e pid = dict_get_or (en_generation e) pid 0"

definition corr_inv :: "corr_policy \<Rightarrow> corr_engine \<Rightarrow> bool" where
  "corr_inv p e = (dict_ok (en_states e) \<and> int (length (en_states e)) \<le> cp_max_states p \<and>
     dict_all (st_inv p) (en_states e) \<and> length (en_archived e) \<le> 1024 \<and>
     (\<forall>pid st. dict_get (en_states e) pid = Some st \<longrightarrow> es_generation st = gen_of e pid))"

text \<open>
  The same generation of a process later on: its action has not been weakened, its risk has not
  dropped and its histories have only grown.
\<close>

definition continues :: "exec_state \<Rightarrow> exec_state \<Rightarrow> bool" where
  "continues st st' = (es_generation st' = es_generation st \<and>
     es_correlation_id st' = es_correlation_id st \<and>
     action_rank (es_action st) \<le> action_rank (es_action st') \<and>
     es_combined_score st \<le> es_combined_score st' \<and>
     prefix (es_indicators st) (es_indicators st') \<and> prefix (es_transitions st) (es_transitions st'))"

definition evolves :: "corr_policy \<Rightarrow> corr_engine \<Rightarrow> corr_engine \<Rightarrow> bool" where
  "evolves p e e' = (corr_inv p e \<longrightarrow> corr_inv p e' \<and> (\<forall>pid. gen_of e pid \<le> gen_of e' pid) \<and>
     (\<forall>pid st'. dict_get (en_states e') pid = Some st' \<longrightarrow> es_generation st' \<le> gen_of e pid \<longrightarrow>
        (\<exists>st. dict_get (en_states e) pid = Some st \<and> continues st st')))"

lemma continues_refl [simp]: "continues st st"
  by (simp add: continues_def)

lemma continues_trans: "continues a b \<Longrightarrow> continues b c \<Longrightarrow> continues a c"
  unfolding continues_def by (metis order_trans prefix_order.trans)

lemma evolves_refl: "evolves p e e"
  by (auto simp: evolves_def)

lemma evolves_trans:
  assumes "evolves p a b" and "evolves p b c"
  shows "evolves p a c"
  unfolding evolves_def
proof (intro impI conjI allI)
  assume inv: "corr_inv p a"
  then have b: "corr_inv p b" "\<And>pid. gen_of a pid \<le> gen_of b pid"
    using assms(1) by (auto simp: evolves_def)
  then show c: "corr_inv p c" using assms(2) by (auto simp: evolves_def)
  have gc: "gen_of b pid \<le> gen_of c pid" for pid using b(1) assms(2) by (simp add: evolves_def)
  show "gen_of a pid \<le> gen_of c pid" for pid using b(2) gc by (rule order_trans)
  fix pid st'
  assume st': "dict_get (en_states c) pid = Some st'" "es_generation st' \<le> gen_of a pid"
  moreover have "es_generation st' \<le> gen_of b pid" using st'(2) b(2) by (rule order_trans)
  ultimately obtain st where st: "dict_get (en_states b) pid = Some st" "continues st st'"
    using assms(2) b(1) unfolding evolves_def by blast
  then have "es_generation st \<le> gen_of a pid" using st'(2) by (simp add: continues_def)
  then obtain s0 where "dict_get (en_states a) pid = Some s0" "continues s0 st"
    using assms(1) inv st(1) unfolding evolves_def by blast
  then show "\<exists>st. dict_get (en_states a) pid = Some st \<and> continues st st'"
    using st(2) continues_trans by blast
qed

interpretation evo: effect_relation "evolves p" for p
  by unfold_locales (rule evolves_refl, erule evolves_trans)

lemma corr_inv_get: "corr_inv p e \<Longrightarrow> dict_get (en_states e) k = Some st \<Longrightarrow> st_inv p k st"
  by (auto simp: corr_inv_def dest: dict_all_get)

lemma evolves_same:
  assumes "en_states e' = en_states e" and "en_archived e' = en_archived e" and "en_generation e' = en_generation e"
  shows "evolves p e e'"
  using assms by (auto simp: evolves_def corr_inv_def gen_of_def)

lemma evolves_replace:
  assumes "dict_get (en_states e) pid = Some st" and "corr_inv p e \<Longrightarrow> st_inv p pid st'"
    and "corr_inv p e \<Longrightarrow> continues st st'"
    and "en_states e' = dict_set pid st' (en_states e)" and "en_archived e' = en_archived e"
    and "en_generation e' = en_generation e"
  shows "evolves p e e'"
  unfolding evolves_def
proof (intro impI conjI allI)
  assume inv: "corr_inv p e"
  have "length (en_states e') = length (en_states e)"
    using assms(1,4) by (auto simp: dict_length_set dest!: map_of_SomeD intro: rev_image_eqI)
  then show "corr_inv p e'"
    using inv assms by (auto simp: corr_inv_def gen_of_def continues_def intro!: dict_all_set)
  show "gen_of e k \<le> gen_of e' k" for k using assms(6) by (simp add: gen_of_def)
  show "\<exists>s. dict_get (en_states e) k = Some s \<and> continues s s'"
    if "dict_get (en_states e') k = Some s'" for k s'
    using that assms inv by (auto split: if_splits)
qed

lemma evolves_archive: "evolves p e (archive_states pid reason e)"
proof (cases "dict_get (en_states e) pid")
  case None
  then show ?thesis by (simp add: archive_states_def evolves_refl)
next
  case (Some st)
  have "length (dict_pop pid (en_states e)) \<le> length (en_states e)" by (rule dict_length_pop_le)
  with Some show ?thesis
    by (auto simp: archive_states_def evolves_def corr_inv_def gen_of_def split: if_splits)
qed

lemma evolves_evict: "evolves p e (evict_for_room p e)"
  by (auto simp: evict_for_room_def evolves_refl evolves_archive split: option.splits)

lemma archive_states_states [simp]: "en_states (archive_states pid r e) = dict_pop pid (en_states e)"
proof (cases "dict_get (en_states e) pid")
  case None
  then have "pid \<notin> fst ` set (en_states e)" by (simp add: dict_get_None_iff)
  then show ?thesis using None by (simp add: archive_states_def dict_pop_absent)
qed (simp add: archive_states_def)

lemma archive_states_rest [simp]:
  "en_generation (archive_states pid r e) = en_generation e"
  "en_ticks (archive_states pid r e) = en_ticks e" "en_ids (archive_states pid r e) = en_ids e"
  by (simp_all add: archive_states_def split: option.splits)

text \<open>The eviction of the engine is that of the store interface, for every policy.\<close>

lemma evict_for_room_states:
  "0 < cp_max_states p \<Longrightarrow>
   en_states (evict_for_room p e) = evict_oldest es_last_seen (nat (cp_max_states p)) (en_states e)"
  by (auto simp: evict_for_room_def evict_oldest_def split: option.splits)

interpretation corr_store: evicting_store es_last_seen "nat (cp_max_states p)"
  "evict_set es_last_seen (nat (cp_max_states p)) :: int \<Rightarrow> exec_state \<Rightarrow> (int, exec_state) dict \<Rightarrow> _" for p
  by (rule evict_set_store)

section \<open>Every operation evolves the engine\<close>

named_theorems evo_intros \<open>operations that evolve the engine\<close>

lemma indicators_nonneg:
  assumes "valid_corr p" and "list_all (indicator_ok p) is'"
  shows "0 \<le> sum_list (map ri_weight is')"
proof (rule sum_list_nonneg)
  fix w assume "w \<in> set (map ri_weight is')"
  then obtain i where i: "i \<in> set is'" "w = ri_weight i" by auto
  then obtain spec where "dict_get (cp_rules p) (ri_rule i) = Some spec" "w = rr_weight spec"
    using assms(2) by (auto simp: list_all_iff indicator_ok_def)
  then have "runtime_rule_ok (ri_rule i) spec"
    using valid_corrD(8) [OF assms(1)] by (blast dest: dict_all_get)
  then show "0 \<le> w" using \<open>w = rr_weight spec\<close> by (simp add: runtime_rule_ok_def)
qed

text \<open>
  Assignments before a recalculation may add indicators and raise the pre-execution score, and must
  leave the identity, the action and the history alone.
\<close>

definition grows_state :: "exec_state \<Rightarrow> exec_state \<Rightarrow> bool" where
  "grows_state st st' = (es_generation st' = es_generation st \<and>
     es_correlation_id st' = es_correlation_id st \<and> es_action st' = es_action st \<and>
     es_transitions st' = es_transitions st \<and> es_pre_score st \<le> es_pre_score st' \<and>
     prefix (es_indicators st) (es_indicators st'))"

lemma grows_score:
  assumes "valid_corr p" and "st_inv p k st" and "st_core p k st'" and "grows_state st st'"
  shows "es_combined_score st \<le> es_combined_score (rescore p st')"
proof -
  obtain zs where zs: "es_indicators st' = es_indicators st @ zs"
    using assms(4) by (auto simp: grows_state_def prefix_def)
  have "0 \<le> sum_list (map ri_weight zs)"
    using assms(3) by (intro indicators_nonneg [OF assms(1)]) (simp add: st_core_def zs)
  then show ?thesis
    using assms(2,4) valid_corrD(1) [OF assms(1)]
    by (auto simp: zs st_inv_def st_scored_def grows_state_def)
qed

lemma grows_calm:
  assumes "valid_corr p" and "st_inv p k st" and "st_core p k st'" and "grows_state st st'"
  shows "calm p st'"
proof (cases "es_action st = ''DENY''")
  case True
  then show ?thesis using assms(4) by (simp add: calm_def grows_state_def)
next
  case False
  then have a: "es_action st = action_for p st" using assms(2) by (simp add: st_inv_def st_scored_def)
  then have "es_status st \<noteq> ''DENIED_PRE_EXECUTION''" using False by (auto simp: action_for_def)
  then have "action_rank (action_for p st) \<le> action_rank (action_for p (rescore p st'))"
    using grows_score [OF assms] by (intro action_for_mono)
  then show ?thesis using a assms(4) by (simp add: calm_def grows_state_def)
qed

lemma recalculate_continues:
  assumes "valid_corr p" and "st_inv p k st" and "st_core p k st'" and "grows_state st st'"
  shows "continues st (recalculate p r t st')"
  using assms(4) latched_rank [of st' p] grows_score [OF assms]
  by (auto simp: continues_def grows_state_def recalculate_transitions)

lemma mutate_evolves:
  assumes "valid_corr p"
    and "\<And>st. dict_get (en_states e) pid = Some st \<Longrightarrow> corr_inv p e \<Longrightarrow> st_inv p pid st \<Longrightarrow>
      st_core p pid (f st) \<and> grows_state st (f st)"
  shows "evolves p e (snd (mutate_state env p pid f r e))"
proof (cases "dict_get (en_states e) pid")
  case None
  then show ?thesis by (simp add: mutate_state_def evolves_refl)
next
  case (Some st)
  have f: "st_inv p pid st \<and> st_core p pid (f st) \<and> grows_state st (f st)" if "corr_inv p e"
    using assms(2) [OF Some that corr_inv_get [OF that Some]] corr_inv_get [OF that Some] by simp
  then have "st_inv p pid (recalculate p r t (f st)) \<and> continues st (recalculate p r t (f st))"
    if "corr_inv p e" for t
    using that recalculate_inv recalculate_continues grows_calm assms(1) by blast
  then show ?thesis using Some
    by (intro evolves_replace [OF Some]) (auto simp: mutate_state_def Let_def)
qed

definition inert :: "(exec_state \<Rightarrow> exec_state) \<Rightarrow> bool" where
  "inert f = (\<forall>st. es_pid (f st) = es_pid st \<and> es_generation (f st) = es_generation st \<and>
     es_correlation_id (f st) = es_correlation_id st \<and>
     es_source (f st) = es_source st \<and> es_pre_score (f st) = es_pre_score st \<and>
     es_runtime_score (f st) = es_runtime_score st \<and> es_combined_score (f st) = es_combined_score st \<and>
     es_action (f st) = es_action st \<and> es_indicators (f st) = es_indicators st \<and>
     es_occurrences (f st) = es_occurrences st \<and> es_transitions (f st) = es_transitions st \<and>
     (es_status (f st) = es_status st \<or> es_status (f st) \<noteq> ''DENIED_PRE_EXECUTION''))"

lemma inert_inv:
  assumes "inert f" and "st_inv p k st"
  shows "st_inv p k (f st)"
proof -
  have "action_for p (f st) = action_for p st" if "es_action st \<noteq> ''DENY''"
  proof -
    have "es_status st \<noteq> ''DENIED_PRE_EXECUTION''"
      using that assms(2) by (auto simp: st_inv_def st_scored_def action_for_def)
    moreover have "es_status (f st) = es_status st \<or> es_status (f st) \<noteq> ''DENIED_PRE_EXECUTION''"
      and "es_combined_score (f st) = es_combined_score st"
      using assms(1) by (auto simp: inert_def)
    ultimately show ?thesis by (auto simp: action_for_def)
  qed
  then have "es_action st = ''DENY'' \<or> action_for p (f st) = action_for p st" by blast
  then show ?thesis
    using assms by (auto simp: inert_def st_inv_def st_core_def st_scored_def rule_count_def)
qed

lemma assign_evolves [evo_intros]:
  assumes "inert f"
  shows "relates (evolves p) (assign_state pid f)"
  unfolding relates_def
proof
  fix e
  show "evolves p e (snd (assign_state pid f e))"
  proof (cases "dict_get (en_states e) pid")
    case None
    then show ?thesis by (simp add: assign_state_def evolves_refl)
  next
    case (Some st)
    have "continues st (f st)" using assms by (simp add: inert_def continues_def)
    then show ?thesis using Some
      by (intro evolves_replace [OF Some])
        (auto simp: assign_state_def intro!: inert_inv [OF assms] dest: corr_inv_get)
  qed
qed

lemma tick_evolves [evo_intros]: "relates (evolves p) (corr_tick env)"
  by (simp add: relates_def corr_tick_def evolves_same)

lemma archive_evolves [evo_intros]: "relates (evolves p) (eff_modify (archive_states pid r))"
  by (rule evo.relates_modify) (rule evolves_archive)

lemma fresh_core:
  assumes "valid_corr p" and "0 < pid" and "0 \<le> score" and "score \<le> 100"
    and "source = ''RUNTIME_ONLY'' \<Longrightarrow> score = 0"
  shows "st_core p pid (fresh_state cid g now pid ppid uid source status path score d inds parent)"
proof -
  have "0 \<le> rr_max_occurrences spec" if "dict_get (cp_rules p) r = Some spec" for r spec
    using dict_all_get [OF valid_corrD(8) [OF assms(1)] that] by (simp add: runtime_rule_ok_def)
  then show ?thesis
    using assms by (simp add: st_core_def fresh_state_def rule_count_def dict_get_or_def)
qed

lemma new_state_evolves:
  assumes "valid_corr p" and "0 < pid" and "0 \<le> score" and "score \<le> 100"
    and "source = ''RUNTIME_ONLY'' \<Longrightarrow> score = 0"
  shows "relates (evolves p) (new_state env p pid ppid uid source status path score d inds parent)"
  unfolding new_state_def
proof (rule evo.relates_modify, goal_cases)
  case (1 e)
  define e1 where "e1 = evict_for_room p e"
  define st where "st = recalculate p ''STATE_CREATED'' (ce_clock env (Suc (en_ticks e1)))
    (fresh_state (ce_id env (en_ids e1)) (dict_get_or (en_generation e1) pid 0 + 1)
      (ce_clock env (en_ticks e1)) pid ppid uid source status path score d inds parent)"
  have "calm p (fresh_state cid g now pid ppid uid source status path score d inds parent)" for cid g now
    by (simp add: calm_def fresh_state_def)
  then have st: "st_inv p pid st" unfolding st_def by (intro recalculate_inv fresh_core assms)
  have gen: "es_generation st = gen_of e1 pid + 1"
    by (simp add: st_def fresh_state_def gen_of_def)
  have room: "int (length (en_states e1)) < cp_max_states p" if "corr_inv p e"
  proof -
    have "length (en_states e1) < nat (cp_max_states p)"
      unfolding e1_def evict_for_room_states [OF valid_corrD(2) [OF assms(1)]]
      using valid_corrD(2) [OF assms(1)] that by (intro evict_oldest_room) (auto simp: corr_inv_def)
    then show ?thesis by simp
  qed
  have 2: "evolves p e1 (e1\<lparr>en_generation := dict_set pid (dict_get_or (en_generation e1) pid 0 + 1) (en_generation e1),
      en_states := dict_set pid st (en_states e1), en_ticks := n, en_ids := m\<rparr>)" (is "evolves p e1 ?e2")
    if inv: "corr_inv p e" for n m
  proof -
    have "length (en_states ?e2) \<le> Suc (length (en_states e1))" by (simp add: dict_length_set_le)
    then show ?thesis
      using st gen room [OF inv]
      by (auto simp: evolves_def corr_inv_def gen_of_def dict_get_or_def intro!: dict_all_set split: if_splits)
  qed
  show ?case
  proof (cases "corr_inv p e")
    case True
    then show ?thesis
      using evolves_trans [OF evolves_evict 2 [OF True, unfolded e1_def]]
      by (simp add: Let_def st_def e1_def)
  next
    case False
    then show ?thesis by (simp add: evolves_def)
  qed
qed

lemma count_rule_core:
  assumes "st_core p k st" and "dict_get (cp_rules p) r = Some spec"
    and "dict_get_or (es_occurrences st) r 0 < rr_max_occurrences spec"
  shows "st_core p k (count_rule spec r ev st)" and "grows_state st (count_rule spec r ev st)"
  using assms
  by (auto simp: st_core_def count_rule_def Let_def rule_count_def dict_get_or_def indicator_ok_def
      grows_state_def)

lemma apply_rule_run:
  "apply_rule env p pid r ev e = (case dict_get (cp_rules p) r of
     None \<Rightarrow> (Inl (KeyError r), e)
   | Some spec \<Rightarrow>
       if (case dict_get (en_states e) pid of None \<Rightarrow> 0 | Some st \<Rightarrow> dict_get_or (es_occurrences st) r 0)
          \<ge> rr_max_occurrences spec then (Inr False, e)
       else (Inr True, snd (mutate_state env p pid (count_rule spec r ev) r e)))"
  by (simp add: apply_rule_def eff_simps mutate_state_def split: option.splits)

lemma apply_rule_evolves [evo_intros]:
  assumes "valid_corr p"
  shows "relates (evolves p) (apply_rule env p pid r ev)"
  unfolding relates_def apply_rule_run
  by (auto split: option.splits simp: evolves_refl st_inv_def not_le
      intro!: mutate_evolves [OF assms] dest: count_rule_core)

lemma expire_evolves [evo_intros]: "relates (evolves p) (expire env p now)"
  unfolding expire_def by (intro evo.relates_intros) (auto intro: evo_intros)

lemma snapshot_evolves [evo_intros]: "relates (evolves p) (snapshot pid w)"
  unfolding snapshot_def by (intro evo.relates_intros)

lemma mutate_id_evolves [evo_intros]:
  "valid_corr p \<Longrightarrow> relates (evolves p) (mutate_state env p pid id r)"
  unfolding relates_def by (auto intro!: mutate_evolves simp: st_inv_def grows_state_def)

lemma runtime_state_evolves [evo_intros]:
  assumes "valid_corr p"
  shows "relates (evolves p) (runtime_state env p event)"
  unfolding runtime_state_def
  by (intro evo.relates_intros evo_intros new_state_evolves) (use assms in auto)

lemma corr_score_bounds: "corr_score v = Inr i \<Longrightarrow> 0 \<le> i \<and> i \<le> 100"
  by (auto simp: corr_score_def res_bind_eq_Inr Let_def split: pyval.splits sum.splits pyexc.splits)

lemma late_bind_evolves:
  assumes "valid_corr p" and "late_bindable p now (dict_get (en_states e) pid)" and "0 \<le> score" and "score \<le> 100"
  shows "evolves p e (snd (mutate_state env p pid (\<lambda>st. st\<lparr>
      es_source := ''FANOTIFY_LATE_BOUND'', es_executable_path := g st,
      es_pre_score := score, es_pre_decision := d, es_pre_indicators := inds, es_last_seen := now,
      es_status := h st\<rparr>) r e))"
  using assms
  by (intro mutate_evolves)
    (auto simp: late_bindable_def st_inv_def st_core_def grows_state_def rule_count_def)

lemma bind_execution_evolves:
  assumes "valid_corr p" and "0 < pid" and "0 \<le> score" and "score \<le> 100"
  shows "evolves p e (snd (bind_execution env p pid now (dict_get (en_states e) pid) score final req inds path e))"
proof (cases "late_bindable p now (dict_get (en_states e) pid)")
  case True
  then show ?thesis
    unfolding bind_execution_def if_P [OF True]
    by (intro evo.at_bind late_bind_evolves [OF assms(1) True assms(3,4)]
        snapshot_evolves [unfolded relates_def, rule_format])
next
  case False
  show ?thesis
    unfolding bind_execution_def if_not_P [OF False]
    by (rule relates_def [THEN iffD1, THEN spec])
      (intro evo.relates_intros new_state_evolves archive_evolves snapshot_evolves assms, simp)
qed

lemma register_evolves [evo_intros]:
  assumes "valid_corr p"
  shows "relates (evolves p) (register_pre_execution env p record)"
  unfolding register_pre_execution_def
proof (intro evo.relates_bind [OF expire_evolves] evo.relates_bind_lift evo.relates_if
    evo.relates_pure evo.relates_bind [OF tick_evolves] evo.relates_bind_gets evo.at_lift, goal_cases)
  case (1 _ pid now e score inds)
  then show ?case using assms corr_score_bounds by (intro bind_execution_evolves) auto
qed

lemma inert_updates:
  "s \<noteq> ''DENIED_PRE_EXECUTION'' \<Longrightarrow> inert (\<lambda>st. st\<lparr>es_status := s, es_exec_ns := g st, es_executable_identifier := i\<rparr>)"
  "s \<noteq> ''DENIED_PRE_EXECUTION'' \<Longrightarrow> inert (\<lambda>st. st\<lparr>es_status := s\<rparr>)"
  "inert (\<lambda>st. st\<lparr>es_exit_ns := a, es_exited := b, es_terminal_reason := c\<rparr>)"
  "inert (\<lambda>st. st\<lparr>es_last_seen := t\<rparr>)" "inert (\<lambda>st. st\<lparr>es_ppid := x\<rparr>)" "inert (\<lambda>st. st\<lparr>es_uid := x\<rparr>)"
  "inert (\<lambda>st. st\<lparr>es_files := F st\<rparr>)" "inert (\<lambda>st. st\<lparr>es_renames := F st\<rparr>)"
  "inert (\<lambda>st. st\<lparr>es_connections := F st\<rparr>)" "inert (\<lambda>st. st\<lparr>es_last_result := q, es_action_status := w\<rparr>)"
  by (simp_all add: inert_def)

lemma novel_evolves [evo_intros]:
  "valid_corr p \<Longrightarrow> inert remember \<Longrightarrow> relates (evolves p) (novel_event env p pid seen remember key r ev)"
  unfolding novel_event_def by (intro evo.relates_intros evo_intros)

lemma event_evolves [evo_intros]:
  assumes "valid_corr p"
  shows "relates (evolves p) (exec_event env p event pid)"
    and "relates (evolves p) (write_event env p event pid)"
    and "relates (evolves p) (rename_event env p event pid)"
    and "relates (evolves p) (connect_event env p event pid)"
    and "relates (evolves p) (exit_event now event pid)"
  unfolding exec_event_def write_event_def rename_event_def connect_event_def exit_event_def Let_def
  by (intro evo.relates_intros evo_intros assms inert_updates; simp)+

lemma ingest_evolves [evo_intros]:
  assumes "valid_corr p"
  shows "relates (evolves p) (ingest_runtime_event env p event)"
  unfolding ingest_runtime_event_def Let_def
  by (intro evo.relates_intros evo_intros assms inert_updates)

lemma record_evolves [evo_intros]: "relates (evolves p) (record_action_result env pid cid result)"
  unfolding record_action_result_def by (intro evo.relates_intros evo_intros inert_updates)

section \<open>Runs of the engine\<close>

text \<open>One call of a public method, whatever it returns or raises.\<close>

inductive corr_step :: "corr_env \<Rightarrow> corr_policy \<Rightarrow> corr_engine \<Rightarrow> corr_engine \<Rightarrow> bool" for env p where
  step_register: "register_pre_execution env p record e = (out, e') \<Longrightarrow> corr_step env p e e'"
| step_ingest: "ingest_runtime_event env p event e = (out, e') \<Longrightarrow> corr_step env p e e'"
| step_expire: "expire env p now e = (out, e') \<Longrightarrow> corr_step env p e e'"
| step_record: "record_action_result env pid cid result e = (out, e') \<Longrightarrow> corr_step env p e e'"

inductive_cases corr_stepE: "corr_step env p e e'"

abbreviation corr_run :: "corr_env \<Rightarrow> corr_policy \<Rightarrow> corr_engine \<Rightarrow> corr_engine \<Rightarrow> bool" where
  "corr_run env p \<equiv> (corr_step env p)\<^sup>*\<^sup>*"

lemma corr_step_evolves: "valid_corr p \<Longrightarrow> corr_step env p e e' \<Longrightarrow> evolves p e e'"
  by (erule corr_stepE) (blast intro: relatesD evo_intros)+

lemma corr_run_evolves: "corr_run env p e e' \<Longrightarrow> valid_corr p \<Longrightarrow> evolves p e e'"
  by (induction rule: rtranclp_induct) (auto intro: evolves_refl evolves_trans corr_step_evolves)

lemma corr_inv_init: "valid_corr p \<Longrightarrow> corr_inv p new_corr_engine"
  using valid_corrD(2) [of p] by (simp add: corr_inv_def new_corr_engine_def)

lemma corr_reachable_inv: "valid_corr p \<Longrightarrow> corr_run env p new_corr_engine e \<Longrightarrow> corr_inv p e"
  using corr_run_evolves corr_inv_init unfolding evolves_def by blast

lemma run_continues:
  assumes "valid_corr p" and "corr_run env p new_corr_engine e" and "corr_run env p e e'"
    and "dict_get (en_states e) pid = Some st" and "dict_get (en_states e') pid = Some st'"
    and "es_generation st' = es_generation st"
  shows "continues st st'"
proof -
  have inv: "corr_inv p e" using assms(1,2) by (rule corr_reachable_inv)
  have evo: "evolves p e e'" using assms(3,1) by (rule corr_run_evolves)
  have "es_generation st = gen_of e pid" using inv assms(4) by (simp add: corr_inv_def)
  then obtain s0 where "dict_get (en_states e) pid = Some s0" "continues s0 st'"
    using evo inv assms(5,6) unfolding evolves_def by (metis order_refl)
  then show ?thesis using assms(4) by simp
qed

section \<open>The default policy and a concrete run\<close>

definition default_corr_rules :: "(string \<times> int \<times> int \<times> string) list" where
  "default_corr_rules = [
     (''DISTINCT_FILE_WRITE'', 8, 4, ''The process modified a previously unseen file identifier.''),
     (''FILE_RENAME'', 15, 2, ''The process attempted a file rename operation.''),
     (''OUTBOUND_CONNECTION'', 20, 2, ''The process attempted an outbound IPv4 connection.''),
     (''CHILD_PROCESS_EXEC'', 10, 1, ''A runtime-only child process was linked to a monitored parent.''),
     (''EXECUTABLE_IDENTIFIER_MISMATCH'', 20, 1,
      ''The fanotify path and eBPF executable identifier did not match lexically.'')]"

definition default_corr_json :: pydict where
  "default_corr_json = [
     (''schema_version'', PStr ''1.0''),
     (''policy_name'', PStr ''ELYRA_STAGE10_RUNTIME_CORRELATION''),
     (''policy_status'', PStr ''PROVISIONAL_NOT_CALIBRATED''),
     (''score_minimum'', PInt 0),
     (''score_maximum'', PInt 100),
     (''state_ttl_seconds'', PFloat (Fin 300)),
     (''exited_state_ttl_seconds'', PFloat (Fin 60)),
     (''late_binding_window_seconds'', PFloat (Fin 5)),
     (''inheritance_window_seconds'', PFloat (Fin 30)),
     (''max_states'', PInt 4096),
     (''decision_thresholds'', PDict [(''alert_min'', PInt 40), (''terminate_min'', PInt 70),
        (''quarantine_min'', PInt 90)]),
     (''runtime_rules'', PDict (map (\<lambda>(k, w, m, d). (k, PDict [(''weight'', PInt w),
        (''max_occurrences'', PInt m), (''description'', PStr d)])) default_corr_rules))]"

definition default_corr_policy :: corr_policy where
  "default_corr_policy = \<lparr>
     cp_schema_version = ''1.0'', cp_policy_name = ''ELYRA_STAGE10_RUNTIME_CORRELATION'',
     cp_policy_status = ''PROVISIONAL_NOT_CALIBRATED'', cp_score_minimum = 0, cp_score_maximum = 100,
     cp_state_ttl = Fin 300, cp_exited_ttl = Fin 60, cp_late_window = Fin 5, cp_inherit_window = Fin 30,
     cp_max_states = 4096,
     cp_thresholds = [(''alert_min'', 40), (''terminate_min'', 70), (''quarantine_min'', 90)],
     cp_rules = map (\<lambda>(k, w, m, d). (k, \<lparr>rr_rule = k, rr_weight = w, rr_max_occurrences = m,
        rr_description = d\<rparr>)) default_corr_rules\<rparr>"

lemma default_corr_valid: "valid_corr default_corr_policy"
  by code_simp

lemma default_corr_from_mapping: "corr_from_mapping render default_corr_json = Inr default_corr_policy"
proof -
  have "corr_policy_of_mapping render default_corr_json = Inr default_corr_policy"
    by (simp add: corr_policy_of_mapping_def default_corr_json_def default_corr_policy_def Let_def
        default_corr_rules_def py_item_def py_items_def corr_int_items_def runtime_rule_of_mapping_def)
  then show ?thesis using default_corr_valid by (simp add: corr_from_mapping_def valid_corr_def)
qed

definition demo_env :: corr_env where
  "demo_env = \<lparr>ce_clock = (\<lambda>n. of_nat n / 10), ce_id = show_nat, ce_render = (\<lambda>_. '''')\<rparr>"

definition demo_register :: "string \<Rightarrow> pydict" where
  "demo_register final = [(''pid'', PInt 42), (''path'', PStr ''/tmp/x''), (''score'', PInt 60),
     (''requested_decision'', PStr ''WARN''), (''final_action'', PStr final)]"

definition demo_exec :: pydict where
  "demo_exec = [(''event_type'', PStr ''PROCESS_EXEC''), (''pid'', PInt 42), (''timestamp_ns'', PInt 7),
     (''executable_identifier'', PStr ''/tmp/./x'')]"

definition demo_connect :: "string \<Rightarrow> pydict" where
  "demo_connect addr = [(''event_type'', PStr ''NETWORK_CONNECT''), (''pid'', PInt 42),
     (''destination_address'', PStr addr), (''destination_port'', PInt 443)]"

definition demo_pending :: "string \<Rightarrow> corr_engine" where
  "demo_pending final = snd (register_pre_execution demo_env default_corr_policy (demo_register final) new_corr_engine)"

definition demo_active :: "string \<Rightarrow> corr_engine" where
  "demo_active final = snd (ingest_runtime_event demo_env default_corr_policy demo_exec (demo_pending final))"

definition demo_hot :: "string \<Rightarrow> corr_engine" where
  "demo_hot final = snd (ingest_runtime_event demo_env default_corr_policy (demo_connect ''10.0.0.2'')
     (snd (ingest_runtime_event demo_env default_corr_policy (demo_connect ''10.0.0.1'') (demo_active final))))"

definition demo_view :: "corr_engine \<Rightarrow> (string \<times> string \<times> int \<times> int) option" where
  "demo_view e = map_option (\<lambda>st. (es_status st, es_action st, es_combined_score st, es_generation st))
     (dict_get (en_states e) 42)"

lemma run_register:
  "corr_run env p a e \<Longrightarrow> corr_run env p a (snd (register_pre_execution env p record e))"
  by (erule rtranclp.rtrancl_into_rtrancl, rule step_register, rule prod.collapse [symmetric])

lemma run_ingest:
  "corr_run env p a e \<Longrightarrow> corr_run env p a (snd (ingest_runtime_event env p event e))"
  by (erule rtranclp.rtrancl_into_rtrancl, rule step_ingest, rule prod.collapse [symmetric])

lemma demo_run_active: "corr_run demo_env default_corr_policy new_corr_engine (demo_active final)"
  unfolding demo_active_def demo_pending_def
  by (intro run_ingest run_register rtranclp.rtrancl_refl)

lemma demo_run_hot: "corr_run demo_env default_corr_policy (demo_active final) (demo_hot final)"
  unfolding demo_hot_def by (intro run_ingest rtranclp.rtrancl_refl)

lemma demo_views:
  "demo_view (demo_active ''ALLOW'') = Some (''ACTIVE'', ''ALERT'', 60, 1)"
  "demo_view (demo_hot ''ALLOW'') = Some (''ACTIVE'', ''QUARANTINE'', 100, 1)"
  "demo_view (demo_hot ''DENY'') = Some (''ACTIVE'', ''DENY'', 100, 1)"
  by code_simp+

section \<open>Properties\<close>

text \<open>C13: In every state the engine reaches through any sequence of its public calls, malformed
  records and raised exceptions included, there are at most \<open>max_states\<close> processes and 1024 archived
  records, and each process has its scores in range and equal to their formula, no rule counted
  beyond its cap, a recommended action that is exactly the threshold ladder of its combined score
  (or a denial), and a transition history that leads from monitoring to that action without ever
  going down.\<close>

theorem reachable_states_sound:
  assumes "corr_from_mapping render data = Inr p" and "corr_run env p new_corr_engine e"
  shows "int (length (en_states e)) \<le> cp_max_states p \<and> length (en_archived e) \<le> 1024 \<and>
    distinct (map fst (en_states e)) \<and>
    (\<forall>pid st. dict_get (en_states e) pid = Some st \<longrightarrow>
      0 \<le> es_combined_score st \<and> es_combined_score st \<le> 100 \<and>
      es_runtime_score st = min 100 (sum_list (map ri_weight (es_indicators st))) \<and>
      es_combined_score st = min 100 (es_pre_score st + es_runtime_score st) \<and>
      (\<forall>r spec. dict_get (cp_rules p) r = Some spec \<longrightarrow>
        int (length (filter (\<lambda>i. ri_rule i = r) (es_indicators st))) \<le> rr_max_occurrences spec) \<and>
      (es_action st = ''DENY'' \<or> es_action st = action_for p st) \<and>
      chain ''CONTINUE_MONITORING'' (es_transitions st) (es_action st))"
proof -
  have v: "valid_corr p" using assms(1) by (rule from_corr_mapping_valid)
  have inv: "corr_inv p e" using v assms(2) by (rule corr_reachable_inv)
  have "0 \<le> es_combined_score st" if "st_inv p pid st" for pid st
    using that indicators_nonneg [OF v, of "es_indicators st"]
    by (auto simp: st_inv_def st_core_def st_scored_def)
  then show ?thesis
    using inv corr_inv_get [OF inv]
    by (auto simp: corr_inv_def dict_ok_def st_inv_def st_core_def st_scored_def rule_count_def)
qed

theorem reachable_states_sound_witness:
  "corr_run demo_env default_corr_policy new_corr_engine (demo_active ''ALLOW'') \<and>
   length (en_archived (demo_active ''ALLOW'')) \<le> 1024 \<and>
   demo_view (demo_active ''ALLOW'') = Some (''ACTIVE'', ''ALERT'', 60, 1)"
  using reachable_states_sound [OF default_corr_from_mapping demo_run_active [of "''ALLOW''"]]
    demo_run_active demo_views(1) by blast

text \<open>C14: While a process keeps its generation its recommended action is never weakened, its combined
  risk never drops and its indicator and transition histories only grow, across any further
  sequence of calls; the generation counter of a process identifier never decreases.\<close>

theorem action_is_latched:
  assumes "corr_from_mapping render data = Inr p" and "corr_run env p new_corr_engine e"
    and "corr_run env p e e'"
    and "dict_get (en_states e) pid = Some st" and "dict_get (en_states e') pid = Some st'"
    and "es_generation st' = es_generation st"
  shows "action_rank (es_action st) \<le> action_rank (es_action st') \<and>
    es_combined_score st \<le> es_combined_score st' \<and>
    es_correlation_id st' = es_correlation_id st \<and>
    prefix (es_indicators st) (es_indicators st') \<and> prefix (es_transitions st) (es_transitions st') \<and>
    gen_of e pid \<le> gen_of e' pid"
proof -
  have v: "valid_corr p" using assms(1) by (rule from_corr_mapping_valid)
  have inv: "corr_inv p e" using v assms(2) by (rule corr_reachable_inv)
  have evo: "evolves p e e'" using assms(3) v by (rule corr_run_evolves)
  have "continues st st'" by (rule run_continues [OF v assms(2-6)])
  then show ?thesis using evo inv by (simp add: continues_def evolves_def)
qed

lemma demo_stages:
  "dict_get (en_states (demo_active ''ALLOW'')) 42 \<noteq> None"
  "dict_get (en_states (demo_hot ''ALLOW'')) 42 \<noteq> None"
  using demo_views(1,2) by (auto simp: demo_view_def)

theorem action_is_latched_witness:
  "\<exists>st st'. dict_get (en_states (demo_active ''ALLOW'')) 42 = Some st \<and>
     dict_get (en_states (demo_hot ''ALLOW'')) 42 = Some st' \<and>
     es_action st = ''ALERT'' \<and> es_action st' = ''QUARANTINE'' \<and>
     action_rank (es_action st) \<le> action_rank (es_action st')"
proof -
  obtain st st' where st: "dict_get (en_states (demo_active ''ALLOW'')) 42 = Some st"
      "dict_get (en_states (demo_hot ''ALLOW'')) 42 = Some st'"
    using demo_stages by auto
  then have "es_generation st' = es_generation st" "es_action st = ''ALERT''" "es_action st' = ''QUARANTINE''"
    using demo_views(1,2) by (auto simp: demo_view_def)
  then show ?thesis
    using action_is_latched [OF default_corr_from_mapping demo_run_active demo_run_hot st] st by auto
qed

text \<open>C15: A recommendation of \<open>DENY\<close> is final for its generation. Under any accepted policy, from any reachable engine
  in which a process is recommended \<open>DENY\<close>, and after any further sequence of calls, the same generation is still
  recommended \<open>DENY\<close>, and every transition recorded in between leads to \<open>DENY\<close>. No condition is put on status or score: a
  denied execution that the kernel nevertheless reports as executed becomes \<open>ACTIVE\<close> and may score above
  the quarantine threshold, and is still recommended neither termination nor quarantine.\<close>

theorem denied_then_executed_never_quarantined:
  assumes "corr_from_mapping render data = Inr p" and "corr_run env p new_corr_engine e"
    and "corr_run env p e e'"
    and "dict_get (en_states e) pid = Some st" and "dict_get (en_states e') pid = Some st'"
    and "es_generation st' = es_generation st" and "es_action st = ''DENY''"
  shows "es_action st' = ''DENY'' \<and>
    (\<exists>new. es_transitions st' = es_transitions st @ new \<and> list_all (\<lambda>t. tr_to t = ''DENY'') new)"
proof -
  have v: "valid_corr p" using assms(1) by (rule from_corr_mapping_valid)
  have con: "continues st st'" by (rule run_continues [OF v assms(2-6)])
  then have deny: "es_action st' = ''DENY''"
    using assms(7) by (simp add: continues_def rank_top)
  obtain new where new: "es_transitions st' = es_transitions st @ new"
    using con by (auto simp: continues_def prefix_def)
  have inv: "corr_inv p e" "corr_inv p e'"
    using corr_reachable_inv [OF v] assms(2) rtranclp_trans [OF assms(2,3)] by blast+
  have "chain ''CONTINUE_MONITORING'' (es_transitions st) ''DENY''"
    "chain ''CONTINUE_MONITORING'' (es_transitions st @ new) ''DENY''"
    using corr_inv_get [OF inv(1) assms(4)] corr_inv_get [OF inv(2) assms(5)] assms(7) deny new
    by (simp_all add: st_inv_def st_core_def)
  then have "chain ''DENY'' new ''DENY''" by (rule chain_rest)
  then show ?thesis using deny new chain_from_deny by blast
qed

lemma demo_denied_views:
  "demo_view (demo_active ''DENY'') = Some (''ACTIVE'', ''DENY'', 60, 1)"
  by code_simp

theorem denied_then_executed_never_quarantined_witness:
  "\<exists>st st'. dict_get (en_states (demo_active ''DENY'')) 42 = Some st \<and> es_status st = ''ACTIVE'' \<and>
     dict_get (en_states (demo_hot ''DENY'')) 42 = Some st' \<and> es_action st' = ''DENY'' \<and>
     corr_thr default_corr_policy ''quarantine_min'' \<le> es_combined_score st'"
proof -
  obtain st st' where st: "dict_get (en_states (demo_active ''DENY'')) 42 = Some st"
      "dict_get (en_states (demo_hot ''DENY'')) 42 = Some st'"
    using demo_denied_views demo_views(3) by (auto simp: demo_view_def)
  then have views: "es_generation st' = es_generation st" "es_status st = ''ACTIVE''" "es_action st = ''DENY''"
      "es_combined_score st' = 100"
    using demo_denied_views demo_views(3) by (auto simp: demo_view_def)
  have "corr_thr default_corr_policy ''quarantine_min'' \<le> 100"
    using valid_corrD(6) [OF default_corr_valid] .
  then show ?thesis
    using denied_then_executed_never_quarantined [OF default_corr_from_mapping demo_run_active demo_run_hot st views(1,3)] st views
    by auto
qed

text \<open>A time window that is not a number passes validation although it is not positive, and a
  state-lifetime window of that kind disables the expiry of every state that has not exited.\<close>

theorem nan_window_disables_expiry:
  "validate_corr (default_corr_policy\<lparr>cp_state_ttl := NaN\<rparr>) = Inr () \<and>
   (\<forall>current d. list_all (\<lambda>(k, st). es_status st \<noteq> ''EXITED'') d \<longrightarrow>
      expired_entries (default_corr_policy\<lparr>cp_state_ttl := NaN\<rparr>) current d = [])"
proof -
  have "validate_corr (default_corr_policy\<lparr>cp_state_ttl := NaN\<rparr>) = Inr ()" by code_simp
  moreover have "list_all (\<lambda>(k, st). es_status st \<noteq> ''EXITED'') d \<Longrightarrow>
      expired_entries (default_corr_policy\<lparr>cp_state_ttl := NaN\<rparr>) current d = []" for current d
    by (induction d) (auto simp: expired_entries_def float_gt_def)
  ultimately show ?thesis by blast
qed

theorem nan_window_disables_expiry_witness:
  "expired_entries (default_corr_policy\<lparr>cp_state_ttl := NaN\<rparr>) 1000000 (en_states (demo_active ''ALLOW'')) = []"
proof -
  have "list_all (\<lambda>(k, st). es_status st \<noteq> ''EXITED'') (en_states (demo_active ''ALLOW''))" by code_simp
  then show ?thesis using nan_window_disables_expiry by blast
qed

text \<open>When a process is due for removal.\<close>

definition overdue :: "corr_policy \<Rightarrow> rat \<Rightarrow> exec_state \<Rightarrow> bool" where
  "overdue p now st =
     (if es_status st = ''EXITED'' \<and> es_exited st \<noteq> None
      then float_gt (Fin (now - the (es_exited st))) (cp_exited_ttl p)
      else float_gt (Fin (now - es_last_seen st)) (cp_state_ttl p))"

lemma expired_entries_Cons:
  "fst ` set (expired_entries p now ((k, st) # d)) =
   (if overdue p now st then {k} else {}) \<union> fst ` set (expired_entries p now d)"
  by (auto simp: expired_entries_def overdue_def split: option.splits)

lemma expired_entries_mem:
  "k \<in> fst ` set (expired_entries p now d) \<longleftrightarrow> (\<exists>st. (k, st) \<in> set d \<and> overdue p now st)"
proof (induction d)
  case Nil
  then show ?case by (simp add: expired_entries_def)
next
  case (Cons x d)
  then show ?case by (cases x) (auto simp: expired_entries_Cons)
qed

lemma expire_pops:
  "eff_for (\<lambda>(pid, reason). eff_modify (archive_states pid reason)) xs e =
   (Inr (), fold (\<lambda>(pid, reason). archive_states pid reason) xs e)"
  by (induction xs arbitrary: e) (auto simp: eff_simps)

lemma fold_archive_get:
  "dict_get (en_states (fold (\<lambda>(pid, reason). archive_states pid reason) xs e)) k =
   (if k \<in> fst ` set xs then None else dict_get (en_states e) k)"
  by (induction xs arbitrary: e) auto

text \<open>Expiry at a given time removes exactly the overdue processes: one that has exited and whose
  exit is older than the exited-state window, or another that was last seen longer ago than the
  state window. Every other process keeps its state unchanged.\<close>

theorem expire_removes_exactly_overdue:
  assumes "corr_inv p e"
  shows "dict_get (en_states (snd (expire env p (Some now) e))) pid =
    (case dict_get (en_states e) pid of None \<Rightarrow> None
     | Some st \<Rightarrow> if overdue p now st then None else Some st)"
proof -
  have "dict_ok (en_states e)" using assms by (simp add: corr_inv_def)
  then have mem: "pid \<in> fst ` set (expired_entries p now (en_states e)) \<longleftrightarrow>
      (\<exists>st. dict_get (en_states e) pid = Some st \<and> overdue p now st)"
    by (simp only: expired_entries_mem dict_in_set_get)
  have "snd (expire env p (Some now) e) =
      fold (\<lambda>(pid, reason). archive_states pid reason) (expired_entries p now (en_states e)) e"
    by (simp add: expire_def eff_bind_run expire_pops)
  then show ?thesis using mem by (simp add: fold_archive_get split: option.splits)
qed

theorem expire_removes_exactly_overdue_witness:
  "corr_inv default_corr_policy (demo_active ''ALLOW'') \<and>
   dict_get (en_states (snd (expire demo_env default_corr_policy (Some 1000) (demo_active ''ALLOW'')))) 7 = None"
proof -
  have inv: "corr_inv default_corr_policy (demo_active ''ALLOW'')"
    using default_corr_valid demo_run_active by (rule corr_reachable_inv)
  have "dict_get (en_states (demo_active ''ALLOW'')) 7 = None" by code_simp
  then show ?thesis
    using expire_removes_exactly_overdue [OF inv, of demo_env 1000 7] inv by simp
qed

lemma mutate_state_get:
  "dict_get (en_states (snd (mutate_state env p pid f r e))) pid =
     map_option (\<lambda>st. recalculate p r (ce_clock env (en_ticks e)) (f st)) (dict_get (en_states e) pid)"
  by (simp add: mutate_state_def Let_def split: option.splits)

lemma recalculate_seen [simp]:
  "es_files (recalculate p r t st) = es_files st" "es_renames (recalculate p r t st) = es_renames st"
  "es_connections (recalculate p r t st) = es_connections st"
  by (simp_all add: recalculate_def rescore_def Let_def)

lemma count_rule_seen [simp]:
  "es_files (count_rule s r v st) = es_files st" "es_renames (count_rule s r v st) = es_renames st"
  "es_connections (count_rule s r v st) = es_connections st"
  by (simp_all add: count_rule_def Let_def)

lemma novel_event_once:
  assumes first: "novel_event env p pid seen remember key r ev e = (Inr u, e1)"
    and remember: "\<And>st. key \<in> seen (remember st)"
    and seen: "\<And>p r t st. seen (recalculate p r t st) = seen st" "\<And>s r v st. seen (count_rule s r v st) = seen st"
  shows "novel_event env p pid seen remember key r ev e1 = (Inr (), e1)"
proof (cases "dict_get (en_states e) pid")
  case None
  then have "e1 = e" using first by (simp add: novel_event_def eff_bind_run)
  then show ?thesis using None by (simp add: novel_event_def eff_bind_run)
next
  case (Some st)
  have "\<exists>st1. dict_get (en_states e1) pid = Some st1 \<and> key \<in> seen st1"
  proof (cases "key \<in> seen st")
    case True
    then have "e1 = e" using first Some by (simp add: novel_event_def eff_bind_run)
    then show ?thesis using Some True by simp
  next
    case False
    define e0 where "e0 = e\<lparr>en_states := dict_set pid (remember st) (en_states e)\<rparr>"
    have "apply_rule env p pid r ev e0 = (Inr True, e1) \<or> apply_rule env p pid r ev e0 = (Inr False, e1)"
      using first Some False
      by (auto simp: novel_event_def eff_bind_run assign_state_def e0_def split: prod.splits sum.splits)
    moreover have "dict_get (en_states e0) pid = Some (remember st)" by (simp add: e0_def)
    ultimately show ?thesis using remember seen
      by (auto simp: apply_rule_run mutate_state_get split: option.splits if_splits dest!: sym [of _ e1])
  qed
  then show ?thesis by (auto simp: novel_event_def eff_bind_run)
qed

text \<open>Evidence is counted once per distinct object: handling the same file write, rename or
  connection again leaves the engine exactly as the first time left it.\<close>

theorem repeated_evidence_not_counted:
  assumes "ev_op \<in> {write_event, rename_event, connect_event}" and "ev_op env p event pid e = (Inr u, e1)"
  shows "ev_op env p event pid e1 = (Inr (), e1)"
proof -
  consider "ev_op = write_event" | "ev_op = rename_event" | "ev_op = connect_event"
    using assms(1) by auto
  then show ?thesis
  proof cases
    case 1
    then show ?thesis using assms(2) novel_event_once
      by (cases "py_get event ''distinct_file_key'' = PNone") (auto simp: write_event_def Let_def)
  next
    case 2
    then show ?thesis using assms(2) unfolding 2 rename_event_def Let_def
      by (elim novel_event_once) simp_all
  next
    case 3
    then show ?thesis using assms(2) unfolding 3 connect_event_def Let_def
      by (elim novel_event_once) simp_all
  qed
qed

theorem repeated_evidence_not_counted_witness:
  "\<exists>e1. connect_event demo_env default_corr_policy (demo_connect ''10.0.0.1'') 42 (demo_active ''ALLOW'') = (Inr (), e1) \<and>
     e1 \<noteq> demo_active ''ALLOW'' \<and>
     connect_event demo_env default_corr_policy (demo_connect ''10.0.0.1'') 42 e1 = (Inr (), e1)"
proof -
  let ?e = "demo_active ''ALLOW''"
  let ?r = "connect_event demo_env default_corr_policy (demo_connect ''10.0.0.1'') 42 ?e"
  have "fst ?r = Inr ()" by code_simp
  then have r: "?r = (Inr (), snd ?r)" by (metis prod.collapse)
  have "demo_view (snd ?r) \<noteq> demo_view ?e" by code_simp
  then show ?thesis
    using repeated_evidence_not_counted [of connect_event demo_env default_corr_policy
        "demo_connect ''10.0.0.1''" 42 ?e "()" "snd ?r"] r by fastforce
qed

text \<open>A response result is attached only to the exact generation it was computed for: when the
  identifier matches, the call succeeds and the state shows the reported status; otherwise it
  returns false and the engine is unchanged.\<close>

theorem action_result_exact_generation:
  assumes "dict_get (en_states e) pid = Some st"
  shows "(es_correlation_id st = cid \<longrightarrow>
      (\<exists>e' st'. record_action_result env (PInt pid) (PStr cid) result e = (Inr True, e') \<and>
        dict_get (en_states e') pid = Some st' \<and> es_last_result st' = Some result \<and>
        (\<forall>s. s \<noteq> [] \<longrightarrow> py_get result ''status'' = PStr s \<longrightarrow> es_action_status st' = s))) \<and>
    (es_correlation_id st \<noteq> cid \<longrightarrow>
      record_action_result env (PInt pid) (PStr cid) result e = (Inr False, e))"
  using assms by (auto simp: record_action_result_def eff_bind_run assign_state_def corr_tick_def py_or_def)

theorem action_result_exact_generation_witness:
  "\<exists>st. dict_get (en_states (demo_active ''ALLOW'')) 42 = Some st \<and> es_correlation_id st \<noteq> ''stale'' \<and>
     record_action_result demo_env (PInt 42) (PStr ''stale'') [] (demo_active ''ALLOW'')
       = (Inr False, demo_active ''ALLOW'')"
proof -
  have "map_option es_correlation_id (dict_get (en_states (demo_active ''ALLOW'')) 42) = Some ''0''"
    by code_simp
  then obtain st where "dict_get (en_states (demo_active ''ALLOW'')) 42 = Some st" "es_correlation_id st = ''0''"
    by auto
  then show ?thesis
    using action_result_exact_generation [of "demo_active ''ALLOW''" 42 st "''stale''"] by auto
qed

text \<open>Listing returns at most the requested number of states (between 1 and 200), the most
  recently seen first: no state left out was seen later than one that is listed.\<close>

theorem list_states_most_recent:
  "\<exists>shown rest. list_states (PInt n) e = (Inr (map exec_state_to_dict shown), e) \<and>
     length shown \<le> nat (max 1 (min 200 n)) \<and>
     mset (shown @ rest) = mset (map snd (en_states e)) \<and>
     sorted_wrt (\<lambda>a b. es_last_seen b \<le> es_last_seen a) (shown @ rest)"
proof -
  let ?m = "nat (max 1 (min 200 n))" and ?all = "sort_desc es_last_seen (map snd (en_states e))"
  have "list_states (PInt n) e = (Inr (map exec_state_to_dict (take ?m ?all)), e)"
    by (simp add: list_states_def eff_bind_run)
  moreover have "mset (take ?m ?all @ drop ?m ?all) = mset (map snd (en_states e))"
    by (simp only: append_take_drop_id mset_sort_desc)
  moreover have "sorted_wrt (\<lambda>a b. es_last_seen b \<le> es_last_seen a) (take ?m ?all @ drop ?m ?all)"
    by (simp only: append_take_drop_id sort_desc_descending)
  ultimately show ?thesis by (metis length_take min.cobounded2)
qed

end
