(* ===== verification/Telemetry.thy ===== *)
theory Telemetry
  imports Effects Py_Values "HOL-Library.Word" "HOL-Library.Sublist"
begin

unbundle bit_operations_syntax

text \<open>
  Runtime telemetry (\<open>monitor/ebpf\<close>): decoding of kernel events, the user-space filter with its
  ancestry walk, the publication step with rename deduplication and bounded tables
  (\<open>collector.py\<close>), and the per-process aggregation (\<open>aggregator.py\<close>).

  Loading and attaching probes, the polling thread and the BCC bindings are not modelled.
\<close>

section \<open>Events\<close>

datatype event_type = PROCESS_EXEC | PROCESS_EXIT | FILE_WRITE | FILE_RENAME | NETWORK_CONNECT

fun event_type_of :: "int \<Rightarrow> event_type option" where
  "event_type_of i =
     (if i = 1 then Some PROCESS_EXEC else if i = 2 then Some PROCESS_EXIT
      else if i = 3 then Some FILE_WRITE else if i = 4 then Some FILE_RENAME
      else if i = 5 then Some NETWORK_CONNECT else None)"

fun event_name :: "event_type \<Rightarrow> string" where
  "event_name PROCESS_EXEC = ''PROCESS_EXEC''"
| "event_name PROCESS_EXIT = ''PROCESS_EXIT''"
| "event_name FILE_WRITE = ''FILE_WRITE''"
| "event_name FILE_RENAME = ''FILE_RENAME''"
| "event_name NETWORK_CONNECT = ''NETWORK_CONNECT''"

record ebpf_event =
  ev_event_type :: string
  ev_timestamp_ns :: int
  ev_pid :: int
  ev_tgid :: int
  ev_ppid :: int
  ev_uid :: int
  ev_comm :: string
  ev_executable :: "string option"
  ev_exit_code :: "int option"
  ev_device :: "int option"
  ev_inode :: "int option"
  ev_address :: "string option"
  ev_port :: "int option"
  ev_capability :: string

definition ebpf_event_to_dict :: "ebpf_event \<Rightarrow> pydict" where
  "ebpf_event_to_dict ev = [
     (''event_type'', PStr (ev_event_type ev)), (''timestamp_ns'', PInt (ev_timestamp_ns ev)),
     (''pid'', PInt (ev_pid ev)), (''tgid'', PInt (ev_tgid ev)), (''ppid'', PInt (ev_ppid ev)),
     (''uid'', PInt (ev_uid ev)), (''comm'', PStr (ev_comm ev)),
     (''executable_identifier'', py_opt_str (ev_executable ev)),
     (''exit_code'', py_opt_int (ev_exit_code ev)), (''device'', py_opt_int (ev_device ev)),
     (''inode'', py_opt_int (ev_inode ev)), (''destination_address'', py_opt_str (ev_address ev)),
     (''destination_port'', py_opt_int (ev_port ev)), (''probe_path_capability'', PStr (ev_capability ev))]"

text \<open>
  The kernel's event structure with its C field widths; absent members read as zero. Addresses and
  ports are stored in network byte order and read by a little-endian host.
\<close>

record raw_event =
  raw_type :: int
  raw_timestamp :: int
  raw_pid :: int
  raw_tgid :: int
  raw_ppid :: int
  raw_uid :: int
  raw_comm :: string
  raw_filename :: string
  raw_exit_code :: int
  raw_device :: int
  raw_inode :: int
  raw_daddr :: "32 word"
  raw_dport :: "16 word"

definition ntohl :: "32 word \<Rightarrow> 32 word" where
  "ntohl w = push_bit 24 (w AND 255) OR push_bit 8 (w AND 65280) OR
     drop_bit 8 (w AND 16711680) OR drop_bit 24 w"

definition ntohs :: "16 word \<Rightarrow> 16 word" where
  "ntohs w = push_bit 8 w OR drop_bit 8 w"

text \<open>\<open>str(ip_address(struct.pack("!I", n)))\<close>: the four bytes, most significant first.\<close>

definition byte_of :: "nat \<Rightarrow> 32 word \<Rightarrow> nat" where
  "byte_of k w = unat (drop_bit (8 * k) w AND 255)"

definition dotted_quad :: "32 word \<Rightarrow> string" where
  "dotted_quad w = join_with ''.'' (map (\<lambda>k. show_nat (byte_of k w)) [3, 2, 1, 0])"

definition decode_c_string :: "(string \<Rightarrow> string) \<Rightarrow> string \<Rightarrow> string" where
  "decode_c_string utf8 bytes = utf8 (takeWhile (\<lambda>c. c \<noteq> CHR 0x00) bytes)"

definition decode_event :: "(string \<Rightarrow> string) \<Rightarrow> raw_event \<Rightarrow> ebpf_event option" where
  "decode_event utf8 raw = (case event_type_of (raw_type raw) of
      None \<Rightarrow> None
    | Some kind \<Rightarrow>
       (let exe = decode_c_string utf8 (raw_filename raw);
            on_file = (\<lambda>v. if kind = FILE_WRITE \<or> kind = FILE_RENAME then Some v else None);
            net = (kind = NETWORK_CONNECT) in
        Some \<lparr>ev_event_type = event_name kind, ev_timestamp_ns = raw_timestamp raw,
          ev_pid = raw_pid raw, ev_tgid = raw_tgid raw, ev_ppid = raw_ppid raw, ev_uid = raw_uid raw,
          ev_comm = decode_c_string utf8 (raw_comm raw),
          ev_executable = (if exe = [] then None else Some exe),
          ev_exit_code = (if kind = PROCESS_EXIT then Some (raw_exit_code raw) else None),
          ev_device = on_file (raw_device raw), ev_inode = on_file (raw_inode raw),
          ev_address = (if net then Some (dotted_quad (ntohl (raw_daddr raw))) else None),
          ev_port = (if net then Some (uint (ntohs (raw_dport raw))) else None),
          ev_capability = ''IDENTIFIER_ONLY''\<rparr>))"

section \<open>Filter\<close>

record ebpf_filter =
  ef_uids :: "int set"
  ef_tgids :: "int set"
  ef_ignored :: "int set"
  ef_descendants :: bool
  ef_max_tracked :: int

lemma walk_measure:
  assumes "current > 0" and "current \<notin> visited"
  shows "2 * card (fst ` set d - insert current visited) + (if dict_get_or d current 0 > (0::int) then 1 else 0)
    < 2 * card (fst ` set d - visited) + (if current > (0::int) then 1 else (0::nat))"
proof (cases "current \<in> fst ` set d")
  case True
  then have "card (fst ` set d - insert current visited) < card (fst ` set d - visited)"
    using assms(2) by (intro psubset_card_mono) auto
  then show ?thesis using assms(1) by simp
next
  case False
  then have "dict_get_or d current 0 = 0" by (simp add: dict_get_or_def dict_get_None_iff [THEN iffD2])
  moreover have "fst ` set d - insert current visited = fst ` set d - visited" using False by auto
  ultimately show ?thesis using assms(1) by simp
qed

text \<open>\<open>while current > 0 and current not in visited\<close>.\<close>

function ancestor_monitored :: "(int, int) dict \<Rightarrow> int set \<Rightarrow> int set \<Rightarrow> int \<Rightarrow> bool" where
  "ancestor_monitored ancestry tgids visited current =
     (if current > 0 \<and> current \<notin> visited
      then (if current \<in> tgids then True
            else ancestor_monitored ancestry tgids (insert current visited)
                   (dict_get_or ancestry current 0))
      else False)"
  by pat_completeness auto

termination
  by (relation "measure (\<lambda>(d, tgids, visited, current).
        2 * card (fst ` set d - visited) + (if current > (0::int) then 1 else 0))")
    (use walk_measure in auto)

declare ancestor_monitored.simps [simp del]

definition filter_accepts :: "ebpf_filter \<Rightarrow> ebpf_event \<Rightarrow> (int, int) dict \<Rightarrow> bool" where
  "filter_accepts cfg ev ancestry =
     (if ev_tgid ev \<in> ef_ignored cfg \<or> ev_pid ev \<in> ef_ignored cfg then False
      else if \<not> (ef_uids cfg = {} \<or> ev_uid ev \<in> ef_uids cfg) then False
      else if ef_tgids cfg = {} then True
      else if ev_tgid ev \<in> ef_tgids cfg \<or> ev_pid ev \<in> ef_tgids cfg then True
      else if \<not> ef_descendants cfg then False
      else ancestor_monitored ancestry (ef_tgids cfg) {} (ev_ppid ev))"

section \<open>Publication\<close>

record collector =
  co_queue :: "pydict list"
  co_queue_size :: nat
  co_ancestry :: "(int, int) dict"
  co_dropped :: int
  co_renames :: "(int \<times> int \<times> string, int) dict"

definition rename_window :: int where
  "rename_window = 10000000"

text \<open>\<open>OrderedDict\<close>: assignment followed by \<open>move_to_end\<close>, and the loop of \<open>popitem(last=False)\<close> (for a limit that is not
  negative; with a negative one the loop would end in a \<open>KeyError\<close> of the emptied dictionary).\<close>

definition set_last :: "'k \<Rightarrow> 'v \<Rightarrow> ('k, 'v) dict \<Rightarrow> ('k, 'v) dict" where
  "set_last k v d = dict_pop k d @ [(k, v)]"

definition prune_renames :: "int \<Rightarrow> (int \<times> int \<times> string, int) dict \<Rightarrow> (int \<times> int \<times> string, int) dict" where
  "prune_renames cutoff d = dropWhile (\<lambda>(k, ts). ts < cutoff) d"

definition prune_ancestry :: "int \<Rightarrow> (int, int) dict \<Rightarrow> (int, int) dict" where
  "prune_ancestry limit d = drop (length d - nat limit) d"

definition rename_key :: "ebpf_event \<Rightarrow> int \<times> int \<times> string" where
  "rename_key ev = (ev_tgid ev, ev_uid ev, case ev_executable ev of None \<Rightarrow> '''' | Some s \<Rightarrow> s)"

definition distinct_key :: "ebpf_event \<Rightarrow> pyval" where
  "distinct_key ev = (case (ev_device ev, ev_inode ev) of
      (Some d, Some i) \<Rightarrow> PStr (show_int d @ '':'' @ show_int i) | _ \<Rightarrow> PNone)"

definition is_duplicate_rename :: "ebpf_event \<Rightarrow> collector \<Rightarrow> bool" where
  "is_duplicate_rename ev c = (ev_event_type ev = ''FILE_RENAME'' \<and>
     (case dict_get (co_renames c) (rename_key ev) of
        None \<Rightarrow> False | Some prev \<Rightarrow> ev_timestamp_ns ev - prev \<le> rename_window))"

definition note_event :: "ebpf_filter \<Rightarrow> ebpf_event \<Rightarrow> collector \<Rightarrow> collector" where
  "note_event cfg ev c =
     (let c1 = (if ev_event_type ev = ''FILE_RENAME''
                then c\<lparr>co_renames := prune_renames (ev_timestamp_ns ev - rename_window)
                        (set_last (rename_key ev) (ev_timestamp_ns ev) (co_renames c))\<rparr> else c)
      in if ev_event_type ev = ''PROCESS_EXEC''
         then c1\<lparr>co_ancestry := prune_ancestry (ef_max_tracked cfg)
                  (set_last (ev_tgid ev) (ev_ppid ev) (co_ancestry c1))\<rparr> else c1)"

definition publish_event :: "ebpf_filter \<Rightarrow> ebpf_event \<Rightarrow> collector \<Rightarrow> bool \<times> collector" where
  "publish_event cfg ev c =
     (if is_duplicate_rename ev c then (False, c)
      else let c1 = note_event cfg ev c;
               accepted = filter_accepts cfg ev (co_ancestry c1);
               c2 = (if ev_event_type ev = ''PROCESS_EXIT''
                     then c1\<lparr>co_ancestry := dict_pop (ev_tgid ev) (co_ancestry c1)\<rparr> else c1)
           in if \<not> accepted then (False, c2)
              else if co_queue_size c2 = 0 \<or> length (co_queue c2) < co_queue_size c2  \<comment> \<open>0: unbounded\<close>
              then (True, c2\<lparr>co_queue := co_queue c2 @
                      [dict_set ''distinct_file_key'' (distinct_key ev) (ebpf_event_to_dict ev)]\<rparr>)
              else (False, c2\<lparr>co_dropped := co_dropped c2 + 1\<rparr>))"

definition get_event :: "collector \<Rightarrow> pydict option \<times> collector" where
  "get_event c = (case co_queue c of [] \<Rightarrow> (None, c) | r # rs \<Rightarrow> (Some r, c\<lparr>co_queue := rs\<rparr>))"

text \<open>\<open>_on_lost_events\<close> with one argument or with a processor number first.\<close>

definition on_lost_events :: "pyval list \<Rightarrow> collector \<Rightarrow> (pyexc + unit) \<times> collector" where
  "on_lost_events args c =
     (case (case args of [n] \<Rightarrow> Some n | [_, n] \<Rightarrow> Some n | _ \<Rightarrow> None) of
        None \<Rightarrow> (Inr (), c)
      | Some n \<Rightarrow> (case py_int n of
          Inr i \<Rightarrow> (Inr (), if i < 0 then c else c\<lparr>co_dropped := co_dropped c + i\<rparr>)
        | Inl TypeError \<Rightarrow> (Inr (), c)
        | Inl (ValueError _) \<Rightarrow> (Inr (), c)
        | Inl e \<Rightarrow> (Inl e, c)))"

definition normalise_rename_tracepoints :: "string list \<Rightarrow> string list" where
  "normalise_rename_tracepoints names =
     filter (\<lambda>n. n \<in> set names) [''rename'', ''renameat'', ''renameat2'']"

section \<open>Aggregation\<close>

record telemetry_state =
  ts_tgid :: int
  ts_executable :: pyval
  ts_parent :: int
  ts_uid :: int
  ts_last_seen :: rat
  ts_files :: "string set"
  ts_connections :: int
  ts_events :: int

record aggregator =
  ag_ttl :: rat
  ag_max_states :: int
  ag_max_files :: int
  ag_states :: "(int, telemetry_state) dict"
  ag_recent :: "pydict list"

type_synonym 'a agg_op = "(aggregator, pyexc, 'a) eff"

definition agg_expire :: "rat \<Rightarrow> aggregator \<Rightarrow> aggregator" where
  "agg_expire now a = a\<lparr>ag_states := filter (\<lambda>(k, st). \<not> now - ts_last_seen st > ag_ttl a) (ag_states a)\<rparr>"

text \<open>The default of \<open>last_seen_monotonic\<close> is overwritten at once by \<open>now\<close>.\<close>

definition agg_admit :: "rat \<Rightarrow> int \<Rightarrow> aggregator \<Rightarrow> aggregator" where
  "agg_admit now tgid a = (case dict_get (ag_states a) tgid of
      Some _ \<Rightarrow> a
    | None \<Rightarrow> a\<lparr>ag_states := evict_set ts_last_seen (nat (ag_max_states a)) tgid
        \<lparr>ts_tgid = tgid, ts_executable = PNone, ts_parent = 0, ts_uid = 0, ts_last_seen = now,
          ts_files = {}, ts_connections = 0, ts_events = 0\<rparr> (ag_states a)\<rparr>)"

definition agg_assign :: "int \<Rightarrow> (telemetry_state \<Rightarrow> telemetry_state) \<Rightarrow> unit agg_op" where
  "agg_assign tgid f = eff_modify (\<lambda>a. case dict_get (ag_states a) tgid of
      None \<Rightarrow> a | Some st \<Rightarrow> a\<lparr>ag_states := dict_set tgid (f st) (ag_states a)\<rparr>)"

definition agg_note :: "(pyval \<Rightarrow> string) \<Rightarrow> aggregator \<Rightarrow> pydict \<Rightarrow> telemetry_state \<Rightarrow> telemetry_state" where
  "agg_note render a event st =
     (let kind = py_get event ''event_type''; key = py_get event ''distinct_file_key'';
          st1 = (if kind = PStr ''PROCESS_EXEC''
                 then st\<lparr>ts_executable := py_get event ''executable_identifier''\<rparr> else st);
          st2 = (if py_truthy key \<and> int (card (ts_files st1)) < ag_max_files a
                 then st1\<lparr>ts_files := insert (py_str render key) (ts_files st1)\<rparr> else st1)
      in if kind = PStr ''NETWORK_CONNECT'' then st2\<lparr>ts_connections := ts_connections st2 + 1\<rparr> else st2)"

definition agg_summary :: "telemetry_state \<Rightarrow> pydict" where
  "agg_summary st = [(''accepted'', PBool True), (''tgid'', PInt (ts_tgid st)),
     (''distinct_files_modified'', PInt (int (card (ts_files st)))),
     (''outbound_connection_attempts'', PInt (ts_connections st)),
     (''event_count'', PInt (ts_events st)), (''executable_identifier'', ts_executable st)]"

definition agg_ingest :: "(pyval \<Rightarrow> string) \<Rightarrow> rat \<Rightarrow> pydict \<Rightarrow> pydict agg_op" where
  "agg_ingest render now event =
     eff_bind (eff_modify (agg_expire now)) (\<lambda>_.
     eff_bind (eff_lift (py_int (py_or (py_or (py_get event ''tgid'') (py_get event ''pid'')) (PInt 0)))) (\<lambda>tgid.
     if tgid \<le> 0 then eff_return [(''accepted'', PBool False), (''reason'', PStr ''MISSING_PROCESS_ID'')]
     else
     eff_bind (eff_modify (agg_admit now tgid)) (\<lambda>_.
     eff_bind (agg_assign tgid (\<lambda>st. st\<lparr>ts_last_seen := now, ts_events := ts_events st + 1\<rparr>)) (\<lambda>_.
     eff_bind (eff_gets (\<lambda>a. map_option ts_parent (dict_get (ag_states a) tgid))) (\<lambda>old_ppid.
     eff_bind (eff_lift (py_int (py_or (py_get event ''ppid'') (py_opt_int old_ppid)))) (\<lambda>ppid.
     eff_bind (agg_assign tgid (\<lambda>st. st\<lparr>ts_parent := ppid\<rparr>)) (\<lambda>_.
     eff_bind (eff_gets (\<lambda>a. map_option ts_uid (dict_get (ag_states a) tgid))) (\<lambda>old_uid.
     eff_bind (eff_lift (py_int (py_or (py_get event ''uid'') (py_opt_int old_uid)))) (\<lambda>uid.
     eff_bind (agg_assign tgid (\<lambda>st. st\<lparr>ts_uid := uid\<rparr>)) (\<lambda>_.
     eff_bind (eff_modify (\<lambda>a. snd (agg_assign tgid (agg_note render a event) a))) (\<lambda>_.
     eff_bind (eff_gets (\<lambda>a. dict_get (ag_states a) tgid)) (\<lambda>s.
     case s of None \<Rightarrow> eff_raise AssertionError
     | Some st \<Rightarrow>
       eff_bind (eff_modify (\<lambda>a. a\<lparr>ag_recent := push_bounded 4096
          (dict_set ''runtime_summary'' (PDict (agg_summary st)) event) (ag_recent a)\<rparr>)) (\<lambda>_.
       eff_bind (eff_when (py_get event ''event_type'' = PStr ''PROCESS_EXIT'')
          (eff_modify (\<lambda>a. a\<lparr>ag_states := dict_pop tgid (ag_states a)\<rparr>))) (\<lambda>_.
       eff_return (agg_summary st)))))))))))))))"

section \<open>Properties of the filter\<close>

text \<open>The parent map as a function; zero and negative identifiers end the walk.\<close>

abbreviation parent_of :: "(int, int) dict \<Rightarrow> int \<Rightarrow> int" where
  "parent_of d x \<equiv> dict_get_or d x 0"

definition lineage :: "(int, int) dict \<Rightarrow> nat \<Rightarrow> int \<Rightarrow> int" where
  "lineage d n x = (parent_of d ^^ n) x"

lemma lineage_0 [simp]: "lineage d 0 x = x"
  by (simp add: lineage_def)

lemma lineage_Suc: "lineage d (Suc n) x = lineage d n (parent_of d x)"
  by (simp add: lineage_def funpow_Suc_right del: funpow.simps)

lemma lineage_add: "lineage d (m + n) x = lineage d m (lineage d n x)"
  by (simp add: lineage_def funpow_add)

lemma walk_sound:
  "ancestor_monitored d tg vis cur \<Longrightarrow>
   \<exists>n. lineage d n cur \<in> tg \<and> (\<forall>i \<le> n. 0 < lineage d i cur)"
proof (induction d tg vis cur rule: ancestor_monitored.induct)
  case (1 d tg vis cur)
  have step: "0 < cur \<and> cur \<notin> vis \<and>
      (cur \<in> tg \<or> ancestor_monitored d tg (insert cur vis) (parent_of d cur))"
    using 1(2) by (simp add: ancestor_monitored.simps [of d tg vis cur] split: if_splits)
  then have pos: "0 < cur" by blast
  show ?case
  proof (cases "cur \<in> tg")
    case True
    then show ?thesis using pos by (intro exI [of _ 0]) simp
  next
    case False
    then obtain n where n: "lineage d n (parent_of d cur) \<in> tg" "\<forall>i \<le> n. 0 < lineage d i (parent_of d cur)"
      using 1(1) step by blast
    have "\<forall>i \<le> Suc n. 0 < lineage d i cur"
    proof (intro allI impI)
      fix i assume "i \<le> Suc n"
      then show "0 < lineage d i cur" using n(2) pos by (cases i) (auto simp: lineage_Suc)
    qed
    then show ?thesis using n(1) by (intro exI [of _ "Suc n"]) (simp add: lineage_Suc)
  qed
qed

lemma walk_complete:
  assumes "lineage d n cur \<in> tg" and "\<forall>i \<le> n. 0 < lineage d i cur"
    and "\<forall>i \<le> n. lineage d i cur \<notin> vis" and "\<forall>i j. i < j \<longrightarrow> j \<le> n \<longrightarrow> lineage d i cur \<noteq> lineage d j cur"
  shows "ancestor_monitored d tg vis cur"
  using assms
proof (induction n arbitrary: cur vis)
  case 0
  then show ?case by (subst ancestor_monitored.simps) simp
next
  case (Suc n)
  have "ancestor_monitored d tg (insert cur vis) (parent_of d cur)"
  proof (rule Suc.IH)
    show "lineage d n (parent_of d cur) \<in> tg" using Suc.prems(1) by (simp add: lineage_Suc)
    show "\<forall>i \<le> n. 0 < lineage d i (parent_of d cur)"
      using Suc.prems(2) by (metis Suc_le_mono lineage_Suc)
    show "\<forall>i \<le> n. lineage d i (parent_of d cur) \<notin> insert cur vis"
    proof (intro allI impI)
      fix i assume "i \<le> n"
      then have "lineage d (Suc i) cur \<notin> vis" "lineage d 0 cur \<noteq> lineage d (Suc i) cur"
        using Suc.prems(3) Suc.prems(4) [rule_format, of 0 "Suc i"] by auto
      then show "lineage d i (parent_of d cur) \<notin> insert cur vis" by (simp add: lineage_Suc)
    qed
    show "\<forall>i j. i < j \<longrightarrow> j \<le> n \<longrightarrow> lineage d i (parent_of d cur) \<noteq> lineage d j (parent_of d cur)"
      using Suc.prems(4) by (metis Suc_le_mono Suc_less_eq lineage_Suc)
  qed
  moreover have "0 < cur" "cur \<notin> vis" using Suc.prems(2,3) by (force dest: spec [of _ 0])+
  ultimately show ?case by (subst ancestor_monitored.simps) simp
qed

text \<open>A shortest walk to a monitored ancestor visits no process twice.\<close>

lemma shortest_distinct:
  assumes "lineage d n cur \<in> tg" and "\<And>m. m < n \<Longrightarrow> lineage d m cur \<notin> tg" and "i < j" and "j \<le> n"
  shows "lineage d i cur \<noteq> lineage d j cur"
proof
  assume eq: "lineage d i cur = lineage d j cur"
  have "lineage d (n - j + i) cur = lineage d (n - j + j) cur"
    by (simp only: lineage_add eq)
  then have "lineage d (n - j + i) cur \<in> tg" using assms(1,4) by simp
  moreover have "n - j + i < n" using assms(3,4) by simp
  ultimately show False using assms(2) by blast
qed

lemma walk_iff:
  "ancestor_monitored d tg {} cur \<longleftrightarrow>
   (\<exists>n. lineage d n cur \<in> tg \<and> (\<forall>i \<le> n. 0 < lineage d i cur))"
proof
  assume "\<exists>n. lineage d n cur \<in> tg \<and> (\<forall>i \<le> n. 0 < lineage d i cur)"
  then obtain n where n: "lineage d n cur \<in> tg" "\<forall>i \<le> n. 0 < lineage d i cur" by blast
  define m where "m = (LEAST k. lineage d k cur \<in> tg)"
  have m: "lineage d m cur \<in> tg" unfolding m_def using n(1) by (rule LeastI)
  have least: "\<And>k. k < m \<Longrightarrow> lineage d k cur \<notin> tg" unfolding m_def by (rule not_less_Least)
  have "m \<le> n" unfolding m_def using n(1) by (rule Least_le)
  then have "\<forall>i \<le> m. 0 < lineage d i cur" using n(2) by simp
  then show "ancestor_monitored d tg {} cur"
    using shortest_distinct [OF m least] by (intro walk_complete [OF m]) auto
qed (rule walk_sound)

text \<open>C16: The event filter accepts exactly the events it should: not from an ignored process, from a
  monitored user when users are given, and, when processes are given, from one of them or from a
  process whose recorded chain of parents leads to one of them, if descendants are included. The walk up that chain ends on
  every ancestry table, cyclic ones included.\<close>

theorem filter_accepts_descendants:
  "filter_accepts cfg ev ancestry \<longleftrightarrow>
     ev_tgid ev \<notin> ef_ignored cfg \<and> ev_pid ev \<notin> ef_ignored cfg \<and>
     (ef_uids cfg = {} \<or> ev_uid ev \<in> ef_uids cfg) \<and>
     (ef_tgids cfg = {} \<or> ev_tgid ev \<in> ef_tgids cfg \<or> ev_pid ev \<in> ef_tgids cfg \<or>
      ef_descendants cfg \<and>
        (\<exists>n. lineage ancestry n (ev_ppid ev) \<in> ef_tgids cfg \<and>
          (\<forall>i \<le> n. 0 < lineage ancestry i (ev_ppid ev))))"
  by (auto simp: filter_accepts_def walk_iff)

definition demo_filter :: ebpf_filter where
  "demo_filter = \<lparr>ef_uids = {}, ef_tgids = {10}, ef_ignored = {1}, ef_descendants = True, ef_max_tracked = 4\<rparr>"

definition demo_event :: "string \<Rightarrow> int \<Rightarrow> int \<Rightarrow> ebpf_event" where
  "demo_event kind pid ppid = \<lparr>ev_event_type = kind, ev_timestamp_ns = 5, ev_pid = pid, ev_tgid = pid,
     ev_ppid = ppid, ev_uid = 1000, ev_comm = ''sh'', ev_executable = Some ''/bin/sh'', ev_exit_code = None,
     ev_device = None, ev_inode = None, ev_address = None, ev_port = None, ev_capability = ''IDENTIFIER_ONLY''\<rparr>"

theorem filter_accepts_descendants_witness:
  "filter_accepts demo_filter (demo_event ''FILE_WRITE'' 30 20) [(20, 10), (10, 20)] \<and>
   lineage [(20, 10), (10, 20)] 1 20 \<in> ef_tgids demo_filter"
proof -
  have l: "lineage [(20, 10), (10, 20)] 1 20 = 10"
    by (simp add: lineage_def dict_get_or_def)
  have "\<forall>i \<le> 1. 0 < lineage [(20, 10), (10, 20)] i 20"
  proof (intro allI impI)
    fix i :: nat assume "i \<le> 1"
    then consider "i = 0" | "i = 1" by linarith
    then show "0 < lineage [(20, 10), (10, 20)] i 20" using l by cases auto
  qed
  then show ?thesis
    using l filter_accepts_descendants [of demo_filter "demo_event ''FILE_WRITE'' 30 20" "[(20, 10), (10, 20)]"]
    by (auto simp: demo_filter_def demo_event_def intro!: exI [of _ 1])
qed

section \<open>Properties of publication\<close>

definition collector_inv :: "ebpf_filter \<Rightarrow> collector \<Rightarrow> bool" where
  "collector_inv cfg c = (dict_ok (co_ancestry c) \<and> dict_ok (co_renames c) \<and>
     int (length (co_ancestry c)) \<le> ef_max_tracked cfg \<and>
     (0 < co_queue_size c \<longrightarrow> length (co_queue c) \<le> co_queue_size c) \<and> 0 \<le> co_dropped c)"

lemma dict_ok_set_last [simp]: "dict_ok d \<Longrightarrow> dict_ok (set_last k v d)"
  unfolding dict_ok_def set_last_def using dict_pop_keys [of k d] dict_ok_pop [of d k]
  by (auto simp: dict_ok_def)

lemma dict_ok_suffix: "dict_ok (xs @ ys) \<Longrightarrow> dict_ok ys"
  by (simp add: dict_ok_def)

lemma dict_ok_dropWhile [simp]: "dict_ok d \<Longrightarrow> dict_ok (dropWhile P d)"
  by (rule dict_ok_suffix [of "takeWhile P d"]) simp

lemma dict_ok_drop [simp]: "dict_ok d \<Longrightarrow> dict_ok (drop n d)"
  by (rule dict_ok_suffix [of "take n d"]) simp

lemma note_event_inv:
  assumes "collector_inv cfg c" and "0 \<le> ef_max_tracked cfg"
  shows "collector_inv cfg (note_event cfg ev c)"
proof -
  have "int (length (prune_ancestry (ef_max_tracked cfg) d)) \<le> ef_max_tracked cfg" for d
    using assms(2) by (simp add: prune_ancestry_def)
  then show ?thesis
    using assms by (auto simp: note_event_def collector_inv_def Let_def prune_ancestry_def prune_renames_def)
qed

lemma note_event_queue [simp]:
  "co_queue (note_event cfg ev c) = co_queue c" "co_queue_size (note_event cfg ev c) = co_queue_size c"
  "co_dropped (note_event cfg ev c) = co_dropped c"
  by (simp_all add: note_event_def Let_def)

section \<open>Accounting over whole runs\<close>

text \<open>The calls that touch queue and counters: the perf-buffer callbacks of the polling thread and the reads of the consumer, in
  any order. Queue operations are atomic, so an interleaving of the two threads is a sequence of calls.\<close>

datatype collector_call = Publish ebpf_event | GetEvent | LostEvents "pyval list"

text \<open>The record of an event, and the records a call offers to the queue: one for an event that is no repeated rename and passes
  the filter.\<close>

definition event_record :: "ebpf_event \<Rightarrow> pydict" where
  "event_record ev = dict_set ''distinct_file_key'' (distinct_key ev) (ebpf_event_to_dict ev)"

definition offered :: "ebpf_filter \<Rightarrow> ebpf_event \<Rightarrow> collector \<Rightarrow> pydict list" where
  "offered cfg ev c = (if \<not> is_duplicate_rename ev c \<and> filter_accepts cfg ev (co_ancestry (note_event cfg ev c))
     then [event_record ev] else [])"

definition lost_count :: "pyval list \<Rightarrow> int" where
  "lost_count args = (if length args \<in> {1, 2} then (case py_int (last args) of Inr i \<Rightarrow> max 0 i | Inl _ \<Rightarrow> 0) else 0)"

text \<open>A run with its bookkeeping: the records offered, the answers of \<open>publish_event\<close>, the records handed to the consumer,
  and the losses the kernel reported.\<close>

record collector_trace =
  ct_offered :: "pydict list"
  ct_answers :: "bool list"
  ct_delivered :: "pydict list"
  ct_lost :: int

fun collector_run :: "ebpf_filter \<Rightarrow> collector_call list \<Rightarrow> collector \<Rightarrow> collector_trace \<times> collector" where
  "collector_run cfg [] c = (\<lparr>ct_offered = [], ct_answers = [], ct_delivered = [], ct_lost = 0\<rparr>, c)"
| "collector_run cfg (Publish ev # calls) c =
     (case publish_event cfg ev c of (b, c1) \<Rightarrow> case collector_run cfg calls c1 of (t, c2) \<Rightarrow>
        (t\<lparr>ct_offered := offered cfg ev c @ ct_offered t, ct_answers := b # ct_answers t\<rparr>, c2))"
| "collector_run cfg (GetEvent # calls) c =
     (case get_event c of (r, c1) \<Rightarrow> case collector_run cfg calls c1 of (t, c2) \<Rightarrow>
        (t\<lparr>ct_delivered := (case r of None \<Rightarrow> [] | Some x \<Rightarrow> [x]) @ ct_delivered t\<rparr>, c2))"
| "collector_run cfg (LostEvents args # calls) c =
     (case on_lost_events args c of (_, c1) \<Rightarrow> case collector_run cfg calls c1 of (t, c2) \<Rightarrow>
        (t\<lparr>ct_lost := lost_count args + ct_lost t\<rparr>, c2))"

text \<open>One publication: queued and answered true, or dropped with the queue full and counted, or not offered.\<close>

lemma publish_step:
  assumes "collector_inv cfg c" and "0 \<le> ef_max_tracked cfg" and "publish_event cfg ev c = (b, c')"
  shows "collector_inv cfg c'" and "co_queue_size c' = co_queue_size c"
    and "co_queue c' = co_queue c @ (if b then offered cfg ev c else [])"
    and "int (length (offered cfg ev c)) = (if b then 1 else 0) + (co_dropped c' - co_dropped c)"
    and "co_queue_size c = 0 \<Longrightarrow> co_dropped c' = co_dropped c"
    and "b \<Longrightarrow> length (offered cfg ev c) = 1"
proof -
  have n: "collector_inv cfg (note_event cfg ev c)" using assms(1,2) by (rule note_event_inv)
  show "collector_inv cfg c'"
    using assms(1,3) n dict_length_pop_le [of "ev_tgid ev" "co_ancestry (note_event cfg ev c)"]
    by (auto simp: publish_event_def Let_def collector_inv_def split: if_splits)
  show "co_queue_size c' = co_queue_size c"
    "co_queue c' = co_queue c @ (if b then offered cfg ev c else [])"
    "int (length (offered cfg ev c)) = (if b then 1 else 0) + (co_dropped c' - co_dropped c)"
    "co_queue_size c = 0 \<Longrightarrow> co_dropped c' = co_dropped c" "b \<Longrightarrow> length (offered cfg ev c) = 1"
    using assms(3) by (auto simp: publish_event_def offered_def event_record_def Let_def split: if_splits)
qed

lemma lost_step:
  assumes "on_lost_events args c = (r, c')"
  shows "c' = c\<lparr>co_dropped := co_dropped c + lost_count args\<rparr>"
proof -
  consider "args = []" | n where "args = [n]" | n m where "args = [n, m]" | n m k ns where "args = n # m # k # ns"
    by (metis neq_Nil_conv)
  then show ?thesis
    using assms by cases (auto simp: on_lost_events_def lost_count_def split: sum.splits pyexc.splits if_splits)
qed

lemma lost_count_nonneg: "0 \<le> lost_count args"
  by (auto simp: lost_count_def split: sum.splits)

definition accounted :: "ebpf_filter \<Rightarrow> collector \<Rightarrow> collector_trace \<Rightarrow> collector \<Rightarrow> bool" where
  "accounted cfg c t c' \<longleftrightarrow> collector_inv cfg c' \<and> co_queue_size c' = co_queue_size c \<and>
     subseq (ct_delivered t @ co_queue c') (co_queue c @ ct_offered t) \<and>
     length (co_queue c) + length (filter id (ct_answers t)) = length (ct_delivered t) + length (co_queue c') \<and>
     int (length (ct_offered t)) + ct_lost t = int (length (filter id (ct_answers t))) + (co_dropped c' - co_dropped c) \<and>
     (co_queue_size c = 0 \<longrightarrow> co_dropped c' = co_dropped c + ct_lost t)"

lemma account_publish:
  assumes "collector_inv cfg c" and "0 \<le> ef_max_tracked cfg" and "publish_event cfg ev c = (b, c1)" and "accounted cfg c1 t c'"
  shows "accounted cfg c (t\<lparr>ct_offered := offered cfg ev c @ ct_offered t, ct_answers := b # ct_answers t\<rparr>) c'"
proof -
  note s = publish_step [OF assms(1-3)]
  have "subseq (ct_delivered t @ co_queue c') (co_queue c @ offered cfg ev c @ ct_offered t)"
  proof (cases b)
    case True
    then show ?thesis using assms(4) s(3) by (simp add: accounted_def)
  next
    case False
    then have "subseq (ct_delivered t @ co_queue c') (co_queue c @ ct_offered t)"
      using assms(4) s(3) by (simp add: accounted_def)
    moreover have "subseq (co_queue c @ ct_offered t) (co_queue c @ offered cfg ev c @ ct_offered t)"
      by (auto intro: list_emb_append_mono)
    ultimately show ?thesis by (rule subseq_order.trans)
  qed
  moreover have "length (offered cfg ev c) = 1 \<or> length (offered cfg ev c) = 0"
    by (simp add: offered_def)
  ultimately show ?thesis using assms(4) s by (auto simp: accounted_def)
qed

lemma account_get:
  assumes "get_event c = (r, c1)" and "accounted cfg c1 t c'"
  shows "accounted cfg c (t\<lparr>ct_delivered := (case r of None \<Rightarrow> [] | Some x \<Rightarrow> [x]) @ ct_delivered t\<rparr>) c'"
  using assms by (auto simp: get_event_def accounted_def split: list.splits)

lemma account_lost:
  assumes "on_lost_events args c = (r, c1)" and "accounted cfg c1 t c'"
  shows "accounted cfg c (t\<lparr>ct_lost := lost_count args + ct_lost t\<rparr>) c'"
  using lost_step [OF assms(1)] assms(2) by (auto simp: accounted_def)

lemma get_inv: "collector_inv cfg c \<Longrightarrow> collector_inv cfg (snd (get_event c))"
  by (auto simp: get_event_def collector_inv_def split: list.splits)

lemma lost_inv: "collector_inv cfg c \<Longrightarrow> collector_inv cfg (snd (on_lost_events args c))"
  using lost_step [of args c, OF prod.collapse [symmetric]] lost_count_nonneg [of args] by (simp add: collector_inv_def)

lemma run_accounted:
  assumes "0 \<le> ef_max_tracked cfg"
  shows "collector_inv cfg c \<Longrightarrow> collector_run cfg calls c = (t, c') \<Longrightarrow> accounted cfg c t c'"
proof (induction calls arbitrary: c t)
  case Nil
  then show ?case by (auto simp: accounted_def)
next
  case (Cons call calls)
  show ?case
  proof (cases call)
    case (Publish ev)
    obtain b c1 where p: "publish_event cfg ev c = (b, c1)" by fastforce
    show ?thesis
      using Cons.prems(2) Publish p Cons.IH [of c1] publish_step(1) [OF Cons.prems(1) assms p]
        account_publish [OF Cons.prems(1) assms p] by (auto split: prod.splits)
  next
    case GetEvent
    obtain r c1 where p: "get_event c = (r, c1)" by fastforce
    show ?thesis
      using Cons.prems(2) GetEvent p Cons.IH [of c1] get_inv [OF Cons.prems(1)] account_get [OF p] by (auto split: prod.splits)
  next
    case (LostEvents args)
    obtain r c1 where p: "on_lost_events args c = (r, c1)" by fastforce
    show ?thesis
      using Cons.prems(2) LostEvents p Cons.IH [of c1] lost_inv [OF Cons.prems(1), of args] account_lost [OF p]
      by (auto split: prod.splits)
  qed
qed

text \<open>C17: Every accepted event is accounted for. Over any interleaving of publications, reads of the consumer and loss reports of the
  kernel, starting from a sound collector: the records delivered and still queued are, in order, among those queued at the start
  and offered since (an event is offered when it is no repeated rename and passes the filter); their number is that of the
  queued records and of the publications answered true; and the drop counter grows by exactly the offered events answered
  false plus the losses reported. An unbounded queue drops nothing. The queue stays within its size and the ancestry table
  within \<open>max_tracked_processes\<close>; the table of recent renames is pruned by time only and has no such bound.\<close>

theorem collector_accounts_for_every_event:
  assumes "collector_inv cfg c" and "0 \<le> ef_max_tracked cfg" and "collector_run cfg calls c = (t, c')"
  shows "subseq (ct_delivered t @ co_queue c') (co_queue c @ ct_offered t) \<and>
    length (co_queue c) + length (filter id (ct_answers t)) = length (ct_delivered t) + length (co_queue c') \<and>
    co_dropped c' = co_dropped c + (int (length (ct_offered t)) - int (length (filter id (ct_answers t)))) + ct_lost t \<and>
    (co_queue_size c = 0 \<longrightarrow> co_dropped c' = co_dropped c + ct_lost t) \<and>
    (0 < co_queue_size c \<longrightarrow> length (co_queue c') \<le> co_queue_size c) \<and>
    int (length (co_ancestry c')) \<le> ef_max_tracked cfg"
  using run_accounted [OF assms(2,1,3)] by (auto simp: accounted_def collector_inv_def)

definition demo_collector :: collector where
  "demo_collector = \<lparr>co_queue = [], co_queue_size = 1, co_ancestry = [], co_dropped = 0, co_renames = []\<rparr>"

text \<open>A process and its child start while the queue has room for one record, another process is filtered out, the consumer reads
  one record, and the kernel reports three losses.\<close>

definition demo_calls :: "collector_call list" where
  "demo_calls = [Publish (demo_event ''PROCESS_EXEC'' 20 10), Publish (demo_event ''PROCESS_EXEC'' 30 20),
     Publish (demo_event ''PROCESS_EXEC'' 50 40), GetEvent, LostEvents [PInt 0, PInt 3]]"

theorem collector_accounts_for_every_event_witness:
  "collector_inv demo_filter demo_collector \<and>
   ct_answers (fst (collector_run demo_filter demo_calls demo_collector)) = [True, False, False] \<and>
   length (ct_offered (fst (collector_run demo_filter demo_calls demo_collector))) = 2 \<and>
   co_dropped (snd (collector_run demo_filter demo_calls demo_collector)) = 4"
proof -
  let ?t = "fst (collector_run demo_filter demo_calls demo_collector)"
  have inv: "collector_inv demo_filter demo_collector"
    by (simp add: collector_inv_def demo_filter_def demo_collector_def)
  have lim: "0 \<le> ef_max_tracked demo_filter" by (simp add: demo_filter_def)
  have run: "ct_answers ?t = [True, False, False]" "length (ct_offered ?t) = 2" "ct_lost ?t = 3" "co_dropped demo_collector = 0"
    by code_simp+
  then show ?thesis
    using inv collector_accounts_for_every_event [OF inv lim prod.collapse [symmetric], of demo_calls] by simp
qed

section \<open>Byte order\<close>

lemma mask8: "(255 :: 32 word) = mask 8"
  by (simp add: mask_eq_exp_minus_1)

lemma byte_of_ntohl:
  "byte_of 0 (ntohl w) = byte_of 3 w" "byte_of 1 (ntohl w) = byte_of 2 w"
  "byte_of 2 (ntohl w) = byte_of 1 w" "byte_of 3 (ntohl w) = byte_of 0 w"
proof -
  have m: "(65280 :: 32 word) = push_bit 8 (mask 8)" "(16711680 :: 32 word) = push_bit 16 (mask 8)"
    by (simp_all add: mask_eq_exp_minus_1)
  show "byte_of 0 (ntohl w) = byte_of 3 w" "byte_of 1 (ntohl w) = byte_of 2 w"
    "byte_of 2 (ntohl w) = byte_of 1 w" "byte_of 3 (ntohl w) = byte_of 0 w"
    unfolding byte_of_def ntohl_def mask8 m
    by (rule arg_cong [where f = unat], rule bit_word_eqI, auto simp: bit_simps)+
qed

text \<open>The destination address of a connection event is printed from the four bytes the kernel
  stored in network order, first byte first, whatever the value.\<close>

theorem address_in_network_order:
  "dotted_quad (ntohl w) = join_with ''.'' (map (\<lambda>k. show_nat (byte_of k w)) [0, 1, 2, 3])"
  by (simp add: dotted_quad_def byte_of_ntohl byte_of_ntohl(2) [unfolded One_nat_def])

section \<open>Properties of the aggregation\<close>

definition telemetry_ok :: "int \<Rightarrow> int \<Rightarrow> telemetry_state \<Rightarrow> bool" where
  "telemetry_ok limit k st = (ts_tgid st = k \<and> 0 < k \<and> finite (ts_files st) \<and>
     int (card (ts_files st)) \<le> limit \<and> 0 \<le> ts_connections st)"

definition agg_inv :: "aggregator \<Rightarrow> bool" where
  "agg_inv a = (0 < ag_max_states a \<and> 0 \<le> ag_max_files a \<and> dict_ok (ag_states a) \<and>
     length (ag_states a) \<le> nat (ag_max_states a) \<and> length (ag_recent a) \<le> 4096 \<and>
     dict_all (telemetry_ok (ag_max_files a)) (ag_states a))"

interpretation agg_store: evicting_store ts_last_seen limit
  "evict_set ts_last_seen limit :: int \<Rightarrow> telemetry_state \<Rightarrow> (int, telemetry_state) dict \<Rightarrow> _" for limit
  by (rule evict_set_store)

lemma dict_all_filter: "dict_all P d \<Longrightarrow> dict_all P (filter Q d)"
  by (auto simp: dict_all_iff)

lemma dict_all_evict_set:
  assumes "dict_all P d" and "P k v"
  shows "dict_all P (evict_set seen limit k v d)"
proof -
  have "dict_all P (evict_oldest seen limit d)"
    using assms(1) by (auto simp: evict_oldest_def split: option.splits)
  then show ?thesis using assms(2) by (auto simp: evict_set_def)
qed

lemma agg_expire_inv: "agg_inv a \<Longrightarrow> agg_inv (agg_expire now a)"
  unfolding agg_inv_def agg_expire_def
  by (auto simp: dict_ok_def distinct_map_filter intro: dict_all_filter order_trans [OF length_filter_le])

lemma agg_admit_inv: "agg_inv a \<Longrightarrow> 0 < tgid \<Longrightarrow> agg_inv (agg_admit now tgid a)"
  by (auto simp: agg_inv_def agg_admit_def telemetry_ok_def
      intro!: agg_store.admit_ok agg_store.admit_len dict_all_evict_set split: option.splits)

lemma agg_assign_inv:
  assumes "agg_inv a" and "\<And>st. telemetry_ok (ag_max_files a) tgid st \<Longrightarrow> telemetry_ok (ag_max_files a) tgid (f st)"
  shows "agg_inv (snd (agg_assign tgid f a))"
proof (cases "dict_get (ag_states a) tgid")
  case (Some st)
  then have "tgid \<in> fst ` set (ag_states a)" by (auto dest: map_of_SomeD intro: rev_image_eqI)
  moreover have "telemetry_ok (ag_max_files a) tgid st"
    using assms(1) dict_all_get [OF _ Some] by (auto simp: agg_inv_def)
  ultimately show ?thesis
    using assms Some by (auto simp: agg_assign_def agg_inv_def dict_length_set intro!: dict_all_set)
qed (use assms(1) in \<open>simp add: agg_assign_def\<close>)

lemma agg_assign_keeps:
  "(\<And>st. ts_tgid (f st) = ts_tgid st \<and> ts_files (f st) = ts_files st \<and> ts_connections (f st) = ts_connections st) \<Longrightarrow>
   keeps agg_inv (agg_assign tgid f)"
  unfolding relates_def preserves_def by (auto intro!: agg_assign_inv simp: telemetry_ok_def)

lemma agg_note_inv: "agg_inv a \<Longrightarrow> agg_inv (snd (agg_assign tgid (agg_note render a event) a))"
  by (erule agg_assign_inv) (auto simp: agg_note_def Let_def telemetry_ok_def card_insert_if)

lemma agg_recent_inv: "agg_inv a \<Longrightarrow> agg_inv (a\<lparr>ag_recent := push_bounded 4096 r (ag_recent a)\<rparr>)"
  by (simp add: agg_inv_def)

lemma agg_pop_inv: "agg_inv a \<Longrightarrow> agg_inv (a\<lparr>ag_states := dict_pop k (ag_states a)\<rparr>)"
  by (auto simp: agg_inv_def intro: order_trans [OF dict_length_pop_le])

lemma agg_ingest_keeps: "keeps agg_inv (agg_ingest render now event)"
  unfolding agg_ingest_def
  by (intro inv.relates_intros keeps_modify agg_assign_keeps)
    (auto intro!: agg_expire_inv agg_admit_inv agg_note_inv agg_recent_inv agg_pop_inv)

text \<open>Aggregation state stays bounded under every sequence of events, malformed ones included: at
  most \<open>max_states\<close> processes, at most \<open>max_distinct_files_per_process\<close> file identifiers for each, at
  most 4096 recent events; entries are filed under their own positive process identifier.\<close>

theorem aggregation_bounded:
  assumes "agg_inv a"
  shows "agg_inv (fold (\<lambda>(now, event) a. snd (agg_ingest render now event a)) events a)"
  using assms
proof (induction events arbitrary: a)
  case (Cons x events)
  obtain now event where x: "x = (now, event)" by (cases x)
  have "agg_inv (snd (agg_ingest render now event a))"
    using agg_ingest_keeps Cons.prems by (simp add: relates_def preserves_def)
  then show ?case using Cons.IH x by simp
qed simp

definition demo_agg :: aggregator where
  "demo_agg = \<lparr>ag_ttl = 300, ag_max_states = 1, ag_max_files = 1, ag_states = [], ag_recent = []\<rparr>"

theorem aggregation_bounded_witness:
  "agg_inv demo_agg \<and>
   agg_inv (fold (\<lambda>(now, event) a. snd (agg_ingest (\<lambda>_. '''') now event a))
     [(1, [(''pid'', PInt 5), (''distinct_file_key'', PStr ''1:2'')]), (2, [(''pid'', PInt 6)])] demo_agg)"
proof -
  have "agg_inv demo_agg" by (simp add: agg_inv_def demo_agg_def)
  then show ?thesis using aggregation_bounded by blast
qed

end
