(* ===== verification/Fanotify_Policy.thy ===== *)
theory Fanotify_Policy
  imports Py_Path
begin

text \<open>
  The execution monitor's policy (\<open>monitor/fanotify/policy.py\<close>): construction and validation, the
  containment test on paths, and the decisions derived from it. The working directory and the file
  system queries of the default paths are arguments.
\<close>

section \<open>Model\<close>

definition fan_normalise :: "string \<Rightarrow> string \<Rightarrow> string" where
  "fan_normalise cwd path = normpath (abspath cwd path)"

definition fan_contains :: "string \<Rightarrow> string \<Rightarrow> bool" where
  "fan_contains parent child = (case commonpath2 parent child of Inl _ \<Rightarrow> False | Inr c \<Rightarrow> c = parent)"

text \<open>\<open>list(dict.fromkeys(xs))\<close>: duplicates removed, first occurrence kept.\<close>

definition unique_first :: "'a list \<Rightarrow> 'a list" where
  "unique_first xs = rev (remdups (rev xs))"

definition normalise_many :: "string \<Rightarrow> string list \<Rightarrow> string list" where
  "normalise_many cwd paths = unique_first (map (fan_normalise cwd) paths)"

text \<open>The queries of \<open>default_monitored_paths\<close>: home directories found, and two predicates.\<close>

record fs_view =
  fv_cwd :: string
  fv_homes :: "string list"
  fv_is_dir :: "string \<Rightarrow> bool"
  fv_exists :: "string \<Rightarrow> bool"

definition indirilenler :: string where
  "indirilenler = [CHR 0xC4, CHR 0xB0] @ ''ndirilenler''"

definition default_monitored_paths :: "fs_view \<Rightarrow> string list" where
  "default_monitored_paths fs = normalise_many (fv_cwd fs)
     ([''/tmp'', ''/var/tmp''] @
      concat (map (\<lambda>home. if fv_is_dir fs home
          then home # filter (fv_is_dir fs) (map (path_join home) [''Downloads'', indirilenler]) else [])
        (sort (fv_homes fs))) @
      filter (fv_exists fs) [''/media'', ''/mnt'', ''/run/media''])"

definition default_excluded_paths :: "string list" where
  "default_excluded_paths = [''/opt/elyra'', ''/var/log/elyra'', ''/var/lib/elyra'', ''/run/elyra'',
     ''/usr/lib'', ''/usr/lib64'', ''/lib'', ''/lib64'', ''/usr/bin'', ''/bin'', ''/sbin'', ''/usr/sbin'']"

record fan_policy =
  fp_mode :: string
  fp_fail_policy :: string
  fp_monitored :: "string list"
  fp_excluded :: "string list"
  fp_fail_closed :: "string list"
  fp_max_response :: rat
  fp_max_bytes :: int
  fp_max_pending :: int
  fp_workers :: int
  fp_exclude_descendants :: bool

definition valid_modes :: "string list" where
  "valid_modes = [''MONITOR_ONLY'', ''ENFORCEMENT'']"

text \<open>\<open>__post_init__\<close>.\<close>

definition make_fan_policy :: "string \<Rightarrow> fan_policy \<Rightarrow> pyexc + fan_policy" where
  "make_fan_policy cwd raw =
     (let mode = py_upper (fp_mode raw); fail = py_upper (fp_fail_policy raw) in
      if mode \<notin> set valid_modes
      then Inl (ValueError (''unsupported fanotify mode: '' @ mode))
      else if fail \<noteq> ''FAIL_OPEN'' \<and> fail \<noteq> ''FAIL_CLOSED''
      then Inl (ValueError (''unsupported default fail policy: '' @ fail))
      else if fp_max_response raw \<le> 0
      then Inl (ValueError ''max_response_seconds must be greater than zero'')
      else if fp_max_bytes raw \<le> 0
      then Inl (ValueError ''max_preexec_file_bytes must be greater than zero'')
      else if fp_max_pending raw \<le> 0 \<or> fp_workers raw \<le> 0
      then Inl (ValueError ''event worker and pending-event limits must be positive'')
      else Inr (raw\<lparr>fp_mode := mode, fp_fail_policy := fail,
        fp_monitored := normalise_many cwd (fp_monitored raw),
        fp_excluded := normalise_many cwd (fp_excluded raw),
        fp_fail_closed := normalise_many cwd (fp_fail_closed raw)\<rparr>))"

text \<open>\<open>if not filepath\<close>: no path or the empty one.\<close>

definition given_path :: "string option \<Rightarrow> string option" where
  "given_path path = (case path of Some s \<Rightarrow> if s = [] then None else Some s | None \<Rightarrow> None)"

definition under_any :: "string list \<Rightarrow> string \<Rightarrow> bool" where
  "under_any roots candidate = list_ex (\<lambda>r. fan_contains r candidate) roots"

definition should_monitor :: "string \<Rightarrow> fan_policy \<Rightarrow> string option \<Rightarrow> bool" where
  "should_monitor cwd p path = (case given_path path of None \<Rightarrow> False
     | Some s \<Rightarrow> let candidate = fan_normalise cwd s in
         if under_any (fp_excluded p) candidate then False
         else under_any (fp_monitored p) candidate)"

definition is_excluded_path :: "string \<Rightarrow> fan_policy \<Rightarrow> string option \<Rightarrow> bool" where
  "is_excluded_path cwd p path = (case given_path path of None \<Rightarrow> False
     | Some s \<Rightarrow> under_any (fp_excluded p) (fan_normalise cwd s))"

definition get_fail_policy :: "string \<Rightarrow> fan_policy \<Rightarrow> string option \<Rightarrow> string" where
  "get_fail_policy cwd p path = (case given_path path of
      Some s \<Rightarrow> if under_any (fp_fail_closed p) (fan_normalise cwd s) then ''FAIL_CLOSED'' else fp_fail_policy p
    | None \<Rightarrow> fp_fail_policy p)"

definition is_enforcement_active :: "fan_policy \<Rightarrow> bool" where
  "is_enforcement_active p = (fp_mode p = ''ENFORCEMENT'')"

definition get_final_action :: "fan_policy \<Rightarrow> string \<Rightarrow> string" where
  "get_final_action p decision =
     (if fp_mode p = ''MONITOR_ONLY'' then ''ALLOW''
      else if py_upper decision = ''DENY'' then ''DENY'' else ''ALLOW'')"

definition set_mode :: "fan_policy \<Rightarrow> string \<Rightarrow> pyexc + fan_policy" where
  "set_mode p mode = (let candidate = py_upper mode in
     if candidate \<notin> set valid_modes
     then Inl (ValueError (''unsupported fanotify mode: '' @ candidate))
     else Inr (p\<lparr>fp_mode := candidate\<rparr>))"

definition mark_targets :: "(string \<Rightarrow> bool) \<Rightarrow> fan_policy \<Rightarrow> string list" where
  "mark_targets exists p = filter exists (fp_monitored p)"

section \<open>Containment\<close>

lemma abs_path_starts: "0 < n \<Longrightarrow> starts_with (abs_path n cs) ''/''"
  by (cases n) (simp_all add: abs_path_def)

lemma lcp_all: "list_all P xs \<Longrightarrow> list_all P (longest_common_prefix xs ys)"
  by (induction xs ys rule: longest_common_prefix.induct) auto

lemma lcp_eq_left: "longest_common_prefix xs ys = xs \<longleftrightarrow> prefix xs ys"
  by (induction xs ys rule: longest_common_prefix.induct) auto

lemma fan_contains_abs:
  assumes "list_all simple_comp ps" and "list_all simple_comp cs" and "0 < n" and "0 < m"
  shows "fan_contains (abs_path n ps) (abs_path m cs) \<longleftrightarrow> n = 1 \<and> prefix ps cs"
proof -
  let ?l = "longest_common_prefix ps cs"
  have l: "list_all simple_comp ?l" using assms(1) by (rule lcp_all)
  have "commonpath2 (abs_path n ps) (abs_path m cs) = Inr (abs_path 1 ?l)"
    using assms abs_path_starts
    by (simp add: commonpath2_def path_comps_abs) (simp add: abs_path_def)
  then have "fan_contains (abs_path n ps) (abs_path m cs) \<longleftrightarrow> abs_path 1 ?l = abs_path n ps"
    by (simp add: fan_contains_def)
  also have "\<dots> \<longleftrightarrow> n = 1 \<and> ?l = ps"
    using abs_path_slashes [OF l assms(1)] abs_path_inject [OF l assms(1)] by metis
  finally show ?thesis by (simp add: lcp_eq_left)
qed

lemma abspath_rooted: "starts_with cwd ''/'' \<Longrightarrow> starts_with (if starts_with p ''/'' then p else path_join cwd p) ''/''"
  by (auto simp: path_join_def prefix_append)

lemma initial_slashes_abs:
  assumes "list_all simple_comp cs" and "n = 1 \<or> n = 2"
  shows "initial_slashes (abs_path n cs) = n"
proof -
  obtain x xs where "join_with ''/'' cs = [] \<or> join_with ''/'' cs = x # xs \<and> x \<noteq> CHR ''/''"
    using simple_no_leading_slash [OF assms(1)] by (cases "join_with ''/'' cs") auto
  then show ?thesis using assms(2)
    by (auto simp: initial_slashes_def abs_path_def numeral_2_eq_2)
qed

text \<open>Normalised paths are absolute and made of plain components.\<close>

lemma fan_normalise_abs:
  assumes "starts_with cwd ''/''"
  shows "\<exists>n cs. (n = 1 \<or> n = 2) \<and> list_all simple_comp cs \<and> fan_normalise cwd p = abs_path n cs"
proof -
  obtain n cs where ap: "n = 1 \<or> n = 2" "list_all simple_comp cs" "abspath cwd p = abs_path n cs"
    using normpath_abs [OF abspath_rooted [OF assms]] unfolding abspath_def by blast
  then have "starts_with (abspath cwd p) ''/''" using abs_path_starts [of n cs] by auto
  then show ?thesis unfolding fan_normalise_def using normpath_abs by blast
qed

section \<open>Properties\<close>

text \<open>The containment test works on whole path components: for normalised paths it holds exactly
  when the components of the parent are a prefix of those of the child, so \<open>/tmp/a\<close> contains
  \<open>/tmp/a/b\<close> and not \<open>/tmp/ab\<close>. A configured root that starts with two slashes keeps them when
  normalised and then contains nothing, not even itself.\<close>

theorem containment_by_components:
  assumes "list_all simple_comp ps" and "list_all simple_comp cs" and "m = 1 \<or> m = 2"
  shows "fan_contains (abs_path 1 ps) (abs_path m cs) = prefix ps cs \<and>
    \<not> fan_contains (abs_path 2 ps) (abs_path m cs)"
  using fan_contains_abs [OF assms(1,2), of 1 m] fan_contains_abs [OF assms(1,2), of 2 m] assms(3) by auto

theorem containment_by_components_witness:
  "fan_contains ''/tmp/a'' ''/tmp/a/b'' \<and> \<not> fan_contains ''/tmp/a'' ''/tmp/ab'' \<and>
   fan_normalise ''/'' ''//tmp'' = ''//tmp'' \<and> \<not> fan_contains ''//tmp'' ''//tmp''"
proof -
  have s: "list_all simple_comp [''tmp'', ''a'']" "list_all simple_comp [''tmp'', ''a'', ''b'']"
      "list_all simple_comp [''tmp'', ''ab'']" "list_all simple_comp [''tmp'']"
    by (simp_all add: simple_comp_def plain_comp_def)
  have "fan_normalise ''/'' ''//tmp'' = ''//tmp''" by code_simp
  then show ?thesis
    using containment_by_components [OF s(1,2), of 1] containment_by_components [OF s(1,3), of 1]
      containment_by_components [OF s(4,4), of 2]
    by (simp add: abs_path_def numeral_2_eq_2)
qed

lemma under_any_configured:
  assumes "starts_with cwd ''/''" and "n = 1 \<or> n = 2" and "list_all simple_comp cs"
  shows "under_any (normalise_many cwd rs) (abs_path n cs) \<longleftrightarrow>
    (\<exists>r \<in> set rs. \<exists>ps. fan_normalise cwd r = abs_path 1 ps \<and> list_all simple_comp ps \<and> prefix ps cs)"
proof -
  have "fan_contains (fan_normalise cwd r) (abs_path n cs) \<longleftrightarrow>
      (\<exists>ps. fan_normalise cwd r = abs_path 1 ps \<and> list_all simple_comp ps \<and> prefix ps cs)" for r
  proof -
    obtain k ps where ps: "k = 1 \<or> k = 2" "list_all simple_comp ps" "fan_normalise cwd r = abs_path k ps"
      using fan_normalise_abs [OF assms(1)] by blast
    have "fan_contains (abs_path k' ps') (abs_path n cs) \<longleftrightarrow> k' = 1 \<and> prefix ps' cs"
      if "k' = 1 \<or> k' = 2" "list_all simple_comp ps'" for k' ps'
      using fan_contains_abs [OF that(2) assms(3)] that(1) assms(2) by auto
    then show ?thesis using ps by (metis (no_types, lifting))
  qed
  then show ?thesis by (auto simp: under_any_def list_ex_iff normalise_many_def unique_first_def)
qed

text \<open>C18: Which files are monitored, in terms of the configured entries. Every entry of the two lists normalises to plain
  components behind one or two leading slashes, and the file path likewise. Only entries with one slash ever match: a
  file is monitored exactly when its components extend those of a one-slash root and those of no one-slash exclusion, so an
  exclusion wins over a root. An entry that keeps two leading slashes contains nothing, although
  \<open>_contains\<close> is documented to hold for the directory itself and what is inside it: a file under a root
  written \<open>//tmp\<close> is not monitored, and one under an exclusion written so is not excluded.\<close>

theorem monitored_iff_under_matching_root:
  assumes "starts_with cwd ''/''" and "make_fan_policy cwd raw = Inr p" and "path \<noteq> []"
  shows "(\<forall>r. \<exists>ps. list_all simple_comp ps \<and> (fan_normalise cwd r = abs_path 1 ps \<or> fan_normalise cwd r = abs_path 2 ps)) \<and>
    (\<exists>n cs. (n = 1 \<or> n = 2) \<and> fan_normalise cwd path = abs_path n cs \<and> list_all simple_comp cs \<and>
      (should_monitor cwd p (Some path) \<longleftrightarrow>
        (\<exists>r \<in> set (fp_monitored raw). \<exists>ps. fan_normalise cwd r = abs_path 1 ps \<and> list_all simple_comp ps \<and> prefix ps cs) \<and>
        \<not> (\<exists>r \<in> set (fp_excluded raw). \<exists>ps. fan_normalise cwd r = abs_path 1 ps \<and> list_all simple_comp ps \<and> prefix ps cs))) \<and>
    (\<forall>r ps. fan_normalise cwd r = abs_path 2 ps \<and> list_all simple_comp ps \<longrightarrow>
      \<not> fan_contains (fan_normalise cwd r) (fan_normalise cwd path))"
proof -
  obtain n cs where c: "n = 1 \<or> n = 2" "list_all simple_comp cs" "fan_normalise cwd path = abs_path n cs"
    using fan_normalise_abs [OF assms(1)] by blast
  have iff: "fan_contains (abs_path k ps) (abs_path n cs) \<longleftrightarrow> k = 1 \<and> prefix ps cs"
    if "k = 1 \<or> k = 2" "list_all simple_comp ps" for k ps
    using fan_contains_abs [OF that(2) c(2)] that(1) c(1) by auto
  have "fp_monitored p = normalise_many cwd (fp_monitored raw)" "fp_excluded p = normalise_many cwd (fp_excluded raw)"
    using assms(2) by (auto simp: make_fan_policy_def Let_def split: if_splits)
  then have "should_monitor cwd p (Some path) \<longleftrightarrow>
      (\<exists>r \<in> set (fp_monitored raw). \<exists>ps. fan_normalise cwd r = abs_path 1 ps \<and> list_all simple_comp ps \<and> prefix ps cs) \<and>
      \<not> (\<exists>r \<in> set (fp_excluded raw). \<exists>ps. fan_normalise cwd r = abs_path 1 ps \<and> list_all simple_comp ps \<and> prefix ps cs)"
    using under_any_configured [OF assms(1) c(1,2)] assms(3) c(3)
    by (auto simp: should_monitor_def given_path_def Let_def)
  moreover have "\<exists>ps. list_all simple_comp ps \<and> (fan_normalise cwd r = abs_path 1 ps \<or> fan_normalise cwd r = abs_path 2 ps)" for r
    using fan_normalise_abs [OF assms(1), of r] by blast
  moreover have "\<not> fan_contains (fan_normalise cwd r) (fan_normalise cwd path)"
    if "fan_normalise cwd r = abs_path 2 ps" "list_all simple_comp ps" for r ps
    using iff [of 2 ps] that c(3) by simp
  ultimately show ?thesis using c by blast
qed

definition demo_raw_policy :: "string \<Rightarrow> fan_policy" where
  "demo_raw_policy mode = \<lparr>fp_mode = mode, fp_fail_policy = ''fail_open'', fp_monitored = [''/tmp'', ''/home/u''],
     fp_excluded = [''/tmp/safe''], fp_fail_closed = [''/home/u/locked''], fp_max_response = 5 / 2,
     fp_max_bytes = 134217728, fp_max_pending = 64, fp_workers = 8, fp_exclude_descendants = True\<rparr>"

definition demo_policy :: "string \<Rightarrow> fan_policy" where
  "demo_policy mode = (case make_fan_policy ''/'' (demo_raw_policy mode) of Inr p \<Rightarrow> p | Inl _ \<Rightarrow> demo_raw_policy mode)"

lemma demo_policy_made:
  "make_fan_policy ''/'' (demo_raw_policy ''ENFORCEMENT'') = Inr (demo_policy ''ENFORCEMENT'')"
  "make_fan_policy ''/'' (demo_raw_policy ''MONITOR_ONLY'') = Inr (demo_policy ''MONITOR_ONLY'')"
  by code_simp+

text \<open>The same policy with its first root written with two slashes.\<close>

definition slashed_policy :: fan_policy where
  "slashed_policy = (case make_fan_policy ''/'' ((demo_raw_policy ''ENFORCEMENT'')\<lparr>fp_monitored := [''//tmp'']\<rparr>) of
     Inr p \<Rightarrow> p | Inl _ \<Rightarrow> demo_raw_policy '''')"

lemma slashed_policy_made: "make_fan_policy ''/'' ((demo_raw_policy ''ENFORCEMENT'')\<lparr>fp_monitored := [''//tmp'']\<rparr>) = Inr slashed_policy"
  by code_simp

theorem monitored_iff_under_matching_root_witness:
  "should_monitor ''/'' (demo_policy ''ENFORCEMENT'') (Some ''/tmp/../tmp/x'') \<and>
   (\<exists>n cs. fan_normalise ''/'' ''/tmp/../tmp/x'' = abs_path n cs \<and> list_all simple_comp cs) \<and>
   \<not> should_monitor ''/'' slashed_policy (Some ''//tmp/x'') \<and>
   \<not> fan_contains (fan_normalise ''/'' ''//tmp'') (fan_normalise ''/'' ''//tmp/x'')"
proof -
  have c: "should_monitor ''/'' (demo_policy ''ENFORCEMENT'') (Some ''/tmp/../tmp/x'')"
    "\<not> should_monitor ''/'' slashed_policy (Some ''//tmp/x'')" by code_simp+
  have n: "fan_normalise ''/'' ''//tmp'' = abs_path 2 [''tmp'']" "list_all simple_comp [''tmp'']" by code_simp+
  show ?thesis
    using monitored_iff_under_matching_root [OF _ demo_policy_made(1), of "''/tmp/../tmp/x''"]
      monitored_iff_under_matching_root [OF _ slashed_policy_made, of "''//tmp/x''"] c n by auto
qed

end
