(* ===== verification/Static_Result.thy ===== *)
theory Static_Result
  imports Py_Values
begin

text \<open>
  The evidence record the static analyser hands to the scoring engine
  (\<open>analyzer/static_analyzer.py\<close>, \<open>StaticScanResult\<close>), with the defaults of the dataclass.
  Entries of unconstrained dictionaries are Python values; warnings and errors are dictionaries
  from strings to strings.
\<close>

record static_scan =
  scan_filepath :: string
  scan_status :: string
  scan_file_size :: "int option"
  scan_mime_type :: string
  scan_mime_source :: string
  scan_extension :: string
  scan_mime_extension_consistency :: string
  scan_expected_mime_types :: "string list"
  scan_is_elf :: bool
  scan_elf_valid :: "bool option"
  scan_elf_entry_point :: "int option"
  scan_elf_sections :: "pydict list"
  scan_elf_segments :: "pydict list"
  scan_elf_anomalies :: "string list"
  scan_permission_details :: pydict
  scan_permission_anomalies :: "string list"
  scan_path_context :: pydict
  scan_path_indicators :: "string list"
  scan_entropy_summary :: pydict
  scan_block_entropies :: "pydict list"
  scan_warnings :: "(string, string) dict list"
  scan_errors :: "(string, string) dict list"
  scan_is_pe :: bool
  scan_pe_valid :: "bool option"
  scan_pe_summary :: pydict
  scan_pe_sections :: "pydict list"
  scan_pe_anomalies :: "string list"
  scan_file_identity :: pydict
  scan_identity_source :: string

definition new_scan :: "string \<Rightarrow> static_scan" where
  "new_scan path = \<lparr>
     scan_filepath = path, scan_status = ''ERROR'', scan_file_size = None,
     scan_mime_type = ''unknown'', scan_mime_source = ''unavailable'', scan_extension = '''',
     scan_mime_extension_consistency = ''UNKNOWN'', scan_expected_mime_types = [],
     scan_is_elf = False, scan_elf_valid = None, scan_elf_entry_point = None,
     scan_elf_sections = [], scan_elf_segments = [], scan_elf_anomalies = [],
     scan_permission_details = [], scan_permission_anomalies = [],
     scan_path_context = [], scan_path_indicators = [],
     scan_entropy_summary = [], scan_block_entropies = [],
     scan_warnings = [], scan_errors = [],
     scan_is_pe = False, scan_pe_valid = None, scan_pe_summary = [], scan_pe_sections = [],
     scan_pe_anomalies = [], scan_file_identity = [], scan_identity_source = ''UNVERIFIED_PATH''\<rparr>"

end
