(* ===== verification/Scoring.thy ===== *)
theory Scoring
  imports Static_Result
begin

text \<open>
  Pre-execution scoring (\<open>scoring/engine.py\<close>): the policy and its validation, the collection
  of indicators from a static scan, the capped category sums, the score_decision and the degraded result.

  A policy is read from decoded JSON. An exception the code turns into
  \<open>InvalidScoringConfiguration\<close> is \<open>InvalidScoringMapping\<close> of that exception; one it does
  not catch is \<open>ScoringExc\<close>.
\<close>

section \<open>Policy\<close>

datatype scoring_error =
    InvalidScoringConfiguration string
  | InvalidScoringMapping pyexc
  | ScoringExc pyexc

definition allowed_categories :: "string list" where
  "allowed_categories = [''entropy'', ''static'', ''context'']"

definition category_order :: "(string, nat) dict" where
  "category_order = zip allowed_categories [0..<length allowed_categories]"

record rule_spec =
  rs_rule :: string
  rs_category :: string
  rs_weight :: int
  rs_description :: string
  rs_threshold :: "pyfloat option"

record scoring_policy =
  sp_schema_version :: string
  sp_policy_name :: string
  sp_policy_status :: string
  sp_score_minimum :: int
  sp_score_maximum :: int
  sp_category_caps :: "(string, int) dict"
  sp_decision_thresholds :: "(string, int) dict"
  sp_rules :: "(string, rule_spec) dict"

definition rule_of_mapping :: "(pyval \<Rightarrow> string) \<Rightarrow> string \<times> pyval \<Rightarrow> pyexc + string \<times> rule_spec" where
  "rule_of_mapping render entry = (case entry of (rule_id, spec) \<Rightarrow>
     res_bind (py_item spec ''category'') (\<lambda>cat.
     res_bind (res_bind (py_item spec ''weight'') py_int) (\<lambda>weight.
     res_bind (py_item spec ''description'') (\<lambda>desc.
     res_bind
       (case spec of
          PDict d \<Rightarrow> (case dict_get d ''threshold'' of
             None \<Rightarrow> Inr None
           | Some t \<Rightarrow> res_bind (py_float t) (\<lambda>f. Inr (Some f)))
        | _ \<Rightarrow> Inl TypeError) (\<lambda>thr.
     Inr (rule_id, \<lparr>rs_rule = rule_id, rs_category = py_str render cat, rs_weight = weight,
                    rs_description = py_str render desc, rs_threshold = thr\<rparr>))))))"

definition int_items :: "pyval \<Rightarrow> pyexc + (string, int) dict" where
  "int_items v = res_bind (py_items v) (\<lambda>kvs.
     map_res (\<lambda>(k, x). res_bind (py_int x) (\<lambda>i. Inr (k, i))) kvs)"

definition policy_of_mapping :: "(pyval \<Rightarrow> string) \<Rightarrow> pydict \<Rightarrow> pyexc + scoring_policy" where
  "policy_of_mapping render data = (let field = py_item (PDict data) in
     res_bind (field ''rules'') (\<lambda>raw_rules.
     res_bind (res_bind (py_items raw_rules) (map_res (rule_of_mapping render))) (\<lambda>rules.
     res_bind (field ''schema_version'') (\<lambda>schema.
     res_bind (field ''policy_name'') (\<lambda>name.
     res_bind (field ''policy_status'') (\<lambda>status.
     res_bind (res_bind (field ''score_minimum'') py_int) (\<lambda>lo.
     res_bind (res_bind (field ''score_maximum'') py_int) (\<lambda>hi.
     res_bind (res_bind (field ''category_caps'') int_items) (\<lambda>caps.
     res_bind (res_bind (field ''decision_thresholds'') int_items) (\<lambda>thr.
     Inr \<lparr>sp_schema_version = py_str render schema, sp_policy_name = py_str render name,
           sp_policy_status = py_str render status, sp_score_minimum = lo, sp_score_maximum = hi,
           sp_category_caps = caps, sp_decision_thresholds = thr, sp_rules = rules\<rparr>))))))))))"

text \<open>\<open>except (KeyError, TypeError, ValueError, AttributeError)\<close>: overflow is not among them.\<close>

fun caught_by_from_mapping :: "pyexc \<Rightarrow> bool" where
  "caught_by_from_mapping (KeyError _) = True"
| "caught_by_from_mapping TypeError = True"
| "caught_by_from_mapping (ValueError _) = True"
| "caught_by_from_mapping AttributeError = True"
| "caught_by_from_mapping _ = False"

definition required_thresholds :: "string set" where
  "required_thresholds =
     {''allow_monitor_min'', ''warn_min'', ''deny_min'', ''deny_min_static_score''}"

fun validate_rules :: "int \<Rightarrow> (string \<times> rule_spec) list \<Rightarrow> scoring_error + unit" where
  "validate_rules hi [] = Inr ()"
| "validate_rules hi ((rule_id, r) # rest) =
     (if rs_rule r \<noteq> rule_id
      then Inl (InvalidScoringConfiguration (''rule key and embedded rule name differ: '' @ rule_id))
      else if rs_category r \<notin> set allowed_categories
      then Inl (InvalidScoringConfiguration
             (''unsupported rule category for '' @ rule_id @ '': '' @ rs_category r))
      else if rs_weight r < 0 \<or> rs_weight r > hi
      then Inl (InvalidScoringConfiguration (''rule weight outside 0..100 for '' @ rule_id))
      else if py_strip (rs_description r) = []
      then Inl (InvalidScoringConfiguration (''rule description is empty for '' @ rule_id))
      else validate_rules hi rest)"

definition validate_scoring :: "scoring_policy \<Rightarrow> scoring_error + unit" where
  "validate_scoring p =
     (let caps = sp_category_caps p; thr = sp_decision_thresholds p in
      if sp_policy_status p \<noteq> ''PROVISIONAL_NOT_CALIBRATED''
      then Inl (InvalidScoringConfiguration
             ''Stage 4 policy must be labelled PROVISIONAL_NOT_CALIBRATED'')
      else if sp_score_minimum p \<noteq> 0 \<or> sp_score_maximum p \<noteq> 100
      then Inl (InvalidScoringConfiguration ''score range must be 0..100'')
      else if set (map fst caps) \<noteq> set allowed_categories
      then Inl (InvalidScoringConfiguration
             ''category caps must define entropy, static and context'')
      else if list_ex (\<lambda>cap. cap < 0 \<or> cap > sp_score_maximum p) (map snd caps)
      then Inl (InvalidScoringConfiguration ''category caps must be within 0..100'')
      else if set (map fst thr) \<noteq> required_thresholds
      then Inl (InvalidScoringConfiguration
             ''decision thresholds must define allow_monitor_min, warn_min, deny_min and deny_min_static_score'')
      else
        \<comment> \<open>the four keys are present here, so the default is never used\<close>
        let allow_monitor = dict_get_or thr ''allow_monitor_min'' 0;
            warn = dict_get_or thr ''warn_min'' 0;
            deny = dict_get_or thr ''deny_min'' 0;
            deny_static = dict_get_or thr ''deny_min_static_score'' 0 in
      if \<not> (0 < allow_monitor \<and> allow_monitor < warn \<and> warn < deny \<and> deny \<le> sp_score_maximum p)
      then Inl (InvalidScoringConfiguration
             ''decision thresholds must increase within the 0..100 score range'')
      else if \<not> (0 \<le> deny_static \<and> deny_static \<le> dict_get_or caps ''static'' 0)
      then Inl (InvalidScoringConfiguration
             ''deny_min_static_score must fit within the static category cap'')
      else validate_rules (sp_score_maximum p) (sp_rules p))"

definition scoring_from_mapping :: "(pyval \<Rightarrow> string) \<Rightarrow> pydict \<Rightarrow> scoring_error + scoring_policy" where
  "scoring_from_mapping render data = (case policy_of_mapping render data of
      Inl e \<Rightarrow> Inl (if caught_by_from_mapping e then InvalidScoringMapping e else ScoringExc e)
    | Inr p \<Rightarrow> res_bind (validate_scoring p) (\<lambda>_. Inr p))"

text \<open>\<open>load\<close> after \<open>json.loads\<close>: the decoded document, or \<open>None\<close> when it is not JSON.\<close>

definition load_scoring :: "(pyval \<Rightarrow> string) \<Rightarrow> pyval option \<Rightarrow> scoring_error + scoring_policy" where
  "load_scoring render doc = (case doc of
      None \<Rightarrow> Inl (InvalidScoringConfiguration ''scoring configuration is not valid JSON'')
    | Some (PDict data) \<Rightarrow> scoring_from_mapping render data
    | Some _ \<Rightarrow> Inl (InvalidScoringConfiguration ''scoring configuration root must be a JSON object''))"

section \<open>Indicators\<close>

record score_indicator =
  si_rule :: string
  si_category :: string
  si_weight :: int
  si_evidence :: pyval
  si_description :: string

record scoring_result =
  sr_score :: int
  sr_decision :: string
  sr_indicators :: "score_indicator list"
  sr_category_scores :: "(string, int) dict"
  sr_raw_category_scores :: "(string, int) dict"
  sr_category_caps :: "(string, int) dict"
  sr_policy_name :: string
  sr_policy_status :: string
  sr_schema_version :: string
  sr_decision_thresholds :: "(string, int) dict"
  sr_scoring_status :: string
  sr_notes :: "string list"

definition rule_indicator :: "scoring_policy \<Rightarrow> string \<Rightarrow> pyval \<Rightarrow> scoring_error + score_indicator" where
  "rule_indicator p rule_id evidence = (case dict_get (sp_rules p) rule_id of
      None \<Rightarrow> Inl (InvalidScoringConfiguration (''required scoring rule is missing: '' @ rule_id))
    | Some r \<Rightarrow> Inr \<lparr>si_rule = rs_rule r, si_category = rs_category r, si_weight = rs_weight r,
                     si_evidence = evidence, si_description = rs_description r\<rparr>)"

definition rule_threshold :: "scoring_policy \<Rightarrow> string \<Rightarrow> scoring_error + pyfloat" where
  "rule_threshold p rule_id = (case dict_get (sp_rules p) rule_id of
      None \<Rightarrow> Inl (InvalidScoringConfiguration (''rule requires a numeric threshold: '' @ rule_id))
    | Some r \<Rightarrow> (case rs_threshold r of
        None \<Rightarrow> Inl (InvalidScoringConfiguration (''rule requires a numeric threshold: '' @ rule_id))
      | Some t \<Rightarrow> Inr t))"

definition has_exact :: "string list \<Rightarrow> string \<Rightarrow> bool" where
  "has_exact values expected = (expected \<in> set values)"

definition matching_prefix :: "string list \<Rightarrow> string \<Rightarrow> string list" where
  "matching_prefix values p = sort (filter (\<lambda>v. starts_with v p) values)"

text \<open>
  \<open>if b: indicators.append(...)\<close>, and a sequence of such statements: the first one that raises
  ends the method.
\<close>

definition emit :: "bool \<Rightarrow> 'e + 'a \<Rightarrow> 'e + 'a list" where
  "emit b m = (if b then res_bind m (\<lambda>x. Inr [x]) else Inr [])"

definition emit_all :: "('e + 'a list) list \<Rightarrow> 'e + 'a list" where
  "emit_all ms = res_bind (map_res id ms) (\<lambda>xss. Inr (concat xss))"

definition summary_float :: "static_scan \<Rightarrow> string \<Rightarrow> scoring_error + pyfloat" where
  "summary_float scan key =
     (case py_float (py_get_or (scan_entropy_summary scan) key (PFloat (Fin 0))) of
        Inl e \<Rightarrow> Inl (ScoringExc e) | Inr f \<Rightarrow> Inr f)"

definition collect_entropy :: "scoring_policy \<Rightarrow> static_scan \<Rightarrow> scoring_error + score_indicator list" where
  "collect_entropy p scan =
     res_bind (summary_float scan ''whole_file_entropy'') (\<lambda>whole_entropy.
     res_bind (summary_float scan ''high_entropy_block_ratio'') (\<lambda>high_ratio.
     emit_all [
       res_bind (rule_threshold p ''HIGH_WHOLE_FILE_ENTROPY'') (\<lambda>t.
         emit (float_ge whole_entropy t)
           (rule_indicator p ''HIGH_WHOLE_FILE_ENTROPY'' (PFloat whole_entropy))),
       res_bind (rule_threshold p ''HIGH_ENTROPY_BLOCK_RATIO'') (\<lambda>t.
         emit (float_ge high_ratio t)
           (rule_indicator p ''HIGH_ENTROPY_BLOCK_RATIO'' (PFloat high_ratio)))]))"

definition collect_static :: "scoring_policy \<Rightarrow> static_scan \<Rightarrow> scoring_error + score_indicator list" where
  "collect_static p scan =
     (let error_codes = sort (map (\<lambda>e. dict_get_or e ''code'' '''') (scan_errors scan));
          wx_sections = matching_prefix (scan_elf_anomalies scan) ''WRITABLE_EXECUTABLE_SECTION:'';
          wx_segments = matching_prefix (scan_elf_anomalies scan) ''WRITABLE_EXECUTABLE_SEGMENT:'';
          mode_octal = py_get (scan_permission_details scan) ''mode_octal'';
          wwx = has_exact (scan_permission_anomalies scan) ''WORLD_WRITABLE_AND_EXECUTABLE''
      in emit_all (
        [emit (scan_mime_extension_consistency scan = ''INCONSISTENT'')
           (rule_indicator p ''MIME_EXTENSION_INCONSISTENT''
             (PDict [(''detected_mime'', PStr (scan_mime_type scan)),
                     (''extension'', PStr (scan_extension scan)),
                     (''expected_mime_types'', PList (map PStr (scan_expected_mime_types scan)))])),
         emit (''MALFORMED_ELF'' \<in> set error_codes)
           (rule_indicator p ''MALFORMED_ELF'' (PStr ''MALFORMED_ELF'')),
         emit (wx_sections \<noteq> [])
           (rule_indicator p ''WRITABLE_EXECUTABLE_SECTION'' (PList (map PStr wx_sections))),
         emit (wx_segments \<noteq> [])
           (rule_indicator p ''WRITABLE_EXECUTABLE_SEGMENT'' (PList (map PStr wx_segments)))]
        @ map (\<lambda>rule_id. emit (has_exact (scan_elf_anomalies scan) rule_id)
                (rule_indicator p rule_id (PStr rule_id)))
            [''ELF_ENTRY_POINT_ZERO'', ''ELF_NO_SECTION_HEADERS'']
        @ map (\<lambda>rule_id. emit (has_exact (scan_permission_anomalies scan) rule_id)
                (rule_indicator p rule_id (PStr rule_id)))
            [''SUID_BIT_SET'', ''SGID_BIT_SET'']
        @ [if wwx then emit True (rule_indicator p ''WORLD_WRITABLE_AND_EXECUTABLE'' mode_octal)
           else emit (has_exact (scan_permission_anomalies scan) ''WORLD_WRITABLE'')
                  (rule_indicator p ''WORLD_WRITABLE'' mode_octal)]))"

definition collect_context :: "scoring_policy \<Rightarrow> static_scan \<Rightarrow> scoring_error + score_indicator list" where
  "collect_context p scan = emit_all (map (\<lambda>rule_id.
      emit (has_exact (scan_path_indicators scan) rule_id)
        (rule_indicator p rule_id
          (py_get_or (scan_path_context scan) ''absolute_path'' (PStr (scan_filepath scan)))))
      [''TEMPORARY_DIRECTORY'', ''DOWNLOAD_DIRECTORY'', ''REMOVABLE_OR_MOUNTED_MEDIA'',
       ''HIDDEN_PATH_COMPONENT''])"

section \<open>Decision and score\<close>

definition score_item :: "(string, 'v) dict \<Rightarrow> string \<Rightarrow> scoring_error + 'v" where
  "score_item d k = (case dict_get d k of None \<Rightarrow> Inl (ScoringExc (KeyError k)) | Some v \<Rightarrow> Inr v)"

lemma score_item_Inr: "score_item d k = Inr v \<longleftrightarrow> dict_get d k = Some v"
  by (simp add: score_item_def split: option.splits)

definition deny_gate_note :: string where
  "deny_gate_note = ''DENY_GATE_NOT_MET: static evidence is below the provisional minimum required for denial''"

definition score_decision :: "scoring_policy \<Rightarrow> int \<Rightarrow> int \<Rightarrow> scoring_error + string \<times> string list" where
  "score_decision p score static_score =
     (let thr = sp_decision_thresholds p in
      res_bind (score_item thr ''deny_min'') (\<lambda>deny_min.
      if score \<ge> deny_min
      then res_bind (score_item thr ''deny_min_static_score'') (\<lambda>gate.
             if static_score \<ge> gate then Inr (''DENY'', [])
             else Inr (''WARN'', [deny_gate_note]))
      else res_bind (score_item thr ''warn_min'') (\<lambda>warn_min.
      if score \<ge> warn_min then Inr (''WARN'', [])
      else res_bind (score_item thr ''allow_monitor_min'') (\<lambda>monitor_min.
      if score \<ge> monitor_min then Inr (''ALLOW_MONITOR'', []) else Inr (''ALLOW'', [])))))"

definition zero_scores :: "(string, int) dict" where
  "zero_scores = map (\<lambda>c. (c, 0)) allowed_categories"

definition degraded_result :: "scoring_policy \<Rightarrow> string \<Rightarrow> pyval \<Rightarrow> scoring_result" where
  "degraded_result p rule_id evidence = \<lparr>
     sr_score = 0, sr_decision = ''ALLOW_MONITOR'',
     sr_indicators = [\<lparr>si_rule = rule_id, si_category = ''system'', si_weight = 0, si_evidence = evidence,
        si_description = ''Analysis could not be completed; the provisional fail-open policy allows execution only with monitoring and critical logging.''\<rparr>],
     sr_category_scores = zero_scores, sr_raw_category_scores = zero_scores,
     sr_category_caps = sp_category_caps p, sr_policy_name = sp_policy_name p,
     sr_policy_status = sp_policy_status p, sr_schema_version = sp_schema_version p,
     sr_decision_thresholds = sp_decision_thresholds p, sr_scoring_status = ''DEGRADED'',
     sr_notes = [''FAIL_OPEN_REQUIRES_CRITICAL_AUDIT_RECORD'']\<rparr>"

text \<open>\<open>indicators.sort(key=...)\<close>: every key is computed first, an unknown category raises.\<close>

definition indicator_key :: "score_indicator \<Rightarrow> scoring_error + nat \<times> string" where
  "indicator_key i = res_bind (score_item category_order (si_category i)) (\<lambda>n. Inr (n, si_rule i))"

definition sort_indicators :: "score_indicator list \<Rightarrow> scoring_error + score_indicator list" where
  "sort_indicators inds = res_bind (map_res indicator_key inds) (\<lambda>_.
     Inr (sort_key (\<lambda>i. (dict_get_or category_order (si_category i) 0, si_rule i)) inds))"

text \<open>\<open>raw_scores[indicator.category] += indicator.weight\<close>.\<close>

fun accumulate :: "(string, int) dict \<Rightarrow> score_indicator list \<Rightarrow> scoring_error + (string, int) dict" where
  "accumulate raw [] = Inr raw"
| "accumulate raw (i # inds) = res_bind (score_item raw (si_category i)) (\<lambda>old.
     accumulate (dict_set (si_category i) (old + si_weight i) raw) inds)"

definition cap_scores :: "scoring_policy \<Rightarrow> (string, int) dict \<Rightarrow> scoring_error + (string, int) dict" where
  "cap_scores p raw = map_res (\<lambda>c. res_bind (score_item raw c) (\<lambda>r.
     res_bind (score_item (sp_category_caps p) c) (\<lambda>cap. Inr (c, min r cap)))) allowed_categories"

definition partial_note :: string where
  "partial_note = ''PARTIAL_STATIC_ANALYSIS: the decision uses the evidence that was available''"

definition entropy_only_note :: string where
  "entropy_only_note = ''ENTROPY_ONLY_EVIDENCE: entropy is not proof of malware and cannot satisfy the denial gate by itself''"

definition collect_indicators :: "scoring_policy \<Rightarrow> static_scan \<Rightarrow> scoring_error + score_indicator list" where
  "collect_indicators p scan =
     res_bind (collect_entropy p scan) (\<lambda>es.
     res_bind (collect_static p scan) (\<lambda>ss.
     res_bind (collect_context p scan) (\<lambda>cs. Inr (es @ ss @ cs))))"

definition finish_score :: "scoring_policy \<Rightarrow> static_scan \<Rightarrow> score_indicator list \<Rightarrow> scoring_error + scoring_result" where
  "finish_score p scan inds =
     res_bind (accumulate zero_scores inds) (\<lambda>raw.
     res_bind (cap_scores p raw) (\<lambda>cats.
     let score = min (sp_score_maximum p) (max (sp_score_minimum p) (sum_list (map snd cats))) in
     res_bind (score_item cats ''static'') (\<lambda>static_score.
     res_bind (score_decision p score static_score) (\<lambda>(dec, notes).
     let notes1 = (if scan_status scan = ''PARTIAL'' then notes @ [partial_note] else notes);
         notes2 = (if dict_get_or cats ''entropy'' 0 > 0 \<and>
                      \<not> (dict_get_or cats ''static'' 0 \<noteq> 0 \<or> dict_get_or cats ''context'' 0 \<noteq> 0)
                   then notes1 @ [entropy_only_note] else notes1) in
     Inr \<lparr>sr_score = score, sr_decision = dec, sr_indicators = inds,
          sr_category_scores = cats, sr_raw_category_scores = raw,
          sr_category_caps = sp_category_caps p, sr_policy_name = sp_policy_name p,
          sr_policy_status = sp_policy_status p, sr_schema_version = sp_schema_version p,
          sr_decision_thresholds = sp_decision_thresholds p, sr_scoring_status = ''OK'',
          sr_notes = notes2\<rparr>))))"

definition score_scan :: "scoring_policy \<Rightarrow> static_scan \<Rightarrow> scoring_error + scoring_result" where
  "score_scan p scan =
     (if scan_status scan = ''ERROR''
      then Inr (degraded_result p ''STATIC_ANALYSIS_INCOMPLETE''
                 (PList (map (\<lambda>e. PStr (dict_get_or e ''code'' ''UNKNOWN'')) (scan_errors scan))))
      else res_bind (collect_indicators p scan) (\<lambda>found.
           res_bind (sort_indicators found) (\<lambda>inds. finish_score p scan inds)))"

definition indicator_to_dict :: "score_indicator \<Rightarrow> pyval" where
  "indicator_to_dict i = PDict [(''rule'', PStr (si_rule i)), (''category'', PStr (si_category i)),
     (''weight'', PInt (si_weight i)), (''evidence'', si_evidence i),
     (''description'', PStr (si_description i))]"

definition int_dict :: "(string, int) dict \<Rightarrow> pyval" where
  "int_dict d = PDict (map (\<lambda>(k, v). (k, PInt v)) d)"

definition scoring_to_dict :: "scoring_result \<Rightarrow> pydict" where
  "scoring_to_dict r = [
     (''schema_version'', PStr (sr_schema_version r)),
     (''policy_name'', PStr (sr_policy_name r)),
     (''policy_status'', PStr (sr_policy_status r)),
     (''scoring_status'', PStr (sr_scoring_status r)),
     (''score'', PInt (sr_score r)),
     (''risk_score'', PStr (show_int (sr_score r) @ ''/100'')),
     (''score_is_probability'', PBool False),
     (''decision'', PStr (sr_decision r)),
     (''category_scores'', int_dict (sr_category_scores r)),
     (''raw_category_scores'', int_dict (sr_raw_category_scores r)),
     (''category_caps'', int_dict (sr_category_caps r)),
     (''decision_thresholds'', int_dict (sr_decision_thresholds r)),
     (''indicators'', PList (map indicator_to_dict (sr_indicators r))),
     (''contributing_indicators'', PList (map (PStr \<circ> si_rule) (sr_indicators r))),
     (''notes'', PList (map PStr (sr_notes r)))]"

section \<open>The default policy\<close>

text \<open>
  \<open>config/scoring.default.json\<close>, one row per rule: name, category, weight, threshold,
  description. A character outside the one-byte range is written as its UTF-8 bytes.
\<close>

type_synonym rule_row = "string \<times> string \<times> int \<times> rat option \<times> string"

definition default_rule_rows :: "rule_row list" where
  "default_rule_rows = [
     (''HIGH_WHOLE_FILE_ENTROPY'', ''entropy'', 10, Some (15 / 2),
      ''Whole-file Shannon entropy is above the provisional development threshold.''),
     (''HIGH_ENTROPY_BLOCK_RATIO'', ''entropy'', 16, Some (1 / 2),
      ''At least half of the analysed blocks exceed the provisional entropy threshold.''),
     (''MIME_EXTENSION_INCONSISTENT'', ''static'', 15, None,
      ''The detected MIME or ELF content is inconsistent with the file extension.''),
     (''MALFORMED_ELF'', ''static'', 25, None,
      ''The file begins with ELF magic but its ELF structure could not be parsed.''),
     (''WRITABLE_EXECUTABLE_SECTION'', ''static'', 25, None,
      ''At least one ELF section is both writable and executable.''),
     (''WRITABLE_EXECUTABLE_SEGMENT'', ''static'', 30, None,
      ''At least one ELF segment is both writable and executable.''),
     (''ELF_ENTRY_POINT_ZERO'', ''static'', 8, None,
      ''The ELF entry point is zero.''),
     (''ELF_NO_SECTION_HEADERS'', ''static'', 12, None,
      ''The ELF file has no section headers.''),
     (''SUID_BIT_SET'', ''static'', 15, None,
      ''The SUID permission bit is set.''),
     (''SGID_BIT_SET'', ''static'', 8, None,
      ''The SGID permission bit is set.''),
     (''WORLD_WRITABLE'', ''static'', 8, None,
      ''The file is writable by all users.''),
     (''WORLD_WRITABLE_AND_EXECUTABLE'', ''static'', 18, None,
      ''The file is both world-writable and world-executable.''),
     (''TEMPORARY_DIRECTORY'', ''context'', 15, None,
      ''The file is located under /tmp or /var/tmp.''),
     (''DOWNLOAD_DIRECTORY'', ''context'', 8, None,
      (''The file is located in a Downloads or '' @ [CHR 0xC4, CHR 0xB0] @ ''ndirilenler directory.'')),
     (''REMOVABLE_OR_MOUNTED_MEDIA'', ''context'', 12, None,
      ''The file is located on a mounted or removable-media path.''),
     (''HIDDEN_PATH_COMPONENT'', ''context'', 7, None,
      ''At least one component of the file path is hidden.'')]"

definition row_json :: "rule_row \<Rightarrow> string \<times> pyval" where
  "row_json row = (case row of (k, c, w, t, d) \<Rightarrow> (k, PDict (
     [(''category'', PStr c), (''weight'', PInt w)]
     @ (case t of None \<Rightarrow> [] | Some q \<Rightarrow> [(''threshold'', PFloat (Fin q))])
     @ [(''description'', PStr d)])))"

definition row_spec :: "rule_row \<Rightarrow> string \<times> rule_spec" where
  "row_spec row = (case row of (k, c, w, t, d) \<Rightarrow> (k, \<lparr>rs_rule = k, rs_category = c,
     rs_weight = w, rs_description = d, rs_threshold = map_option Fin t\<rparr>))"

definition default_scoring_json :: pydict where
  "default_scoring_json = [
     (''schema_version'', PStr ''1.0''),
     (''policy_name'', PStr ''ELYRA default pre-execution scoring policy''),
     (''policy_status'', PStr ''PROVISIONAL_NOT_CALIBRATED''),
     (''score_minimum'', PInt 0),
     (''score_maximum'', PInt 100),
     (''category_caps'', PDict [(''entropy'', PInt 30), (''static'', PInt 60), (''context'', PInt 25)]),
     (''decision_thresholds'', PDict [
       (''allow_monitor_min'', PInt 20), (''warn_min'', PInt 40), (''deny_min'', PInt 70),
       (''deny_min_static_score'', PInt 25)]),
     (''rules'', PDict (map row_json default_rule_rows))]"

definition default_scoring_policy :: scoring_policy where
  "default_scoring_policy = \<lparr>
     sp_schema_version = ''1.0'', sp_policy_name = ''ELYRA default pre-execution scoring policy'',
     sp_policy_status = ''PROVISIONAL_NOT_CALIBRATED'', sp_score_minimum = 0, sp_score_maximum = 100,
     sp_category_caps = [(''entropy'', 30), (''static'', 60), (''context'', 25)],
     sp_decision_thresholds = [(''allow_monitor_min'', 20), (''warn_min'', 40), (''deny_min'', 70),
       (''deny_min_static_score'', 25)],
     sp_rules = map row_spec default_rule_rows\<rparr>"

text \<open>Every rule the collectors can ask for is defined, the two entropy rules with a threshold.\<close>

definition collector_rules :: "string list" where
  "collector_rules = map fst default_rule_rows"

definition threshold_rules :: "string list" where
  "threshold_rules = [''HIGH_WHOLE_FILE_ENTROPY'', ''HIGH_ENTROPY_BLOCK_RATIO'']"

definition complete_policy :: "scoring_policy \<Rightarrow> bool" where
  "complete_policy p = (list_all (\<lambda>k. dict_get (sp_rules p) k \<noteq> None) collector_rules \<and>
     list_all (\<lambda>k. map_option rs_threshold (dict_get (sp_rules p) k) \<noteq> Some None) threshold_rules)"

section \<open>What validation establishes\<close>

definition valid_policy :: "scoring_policy \<Rightarrow> bool" where
  "valid_policy p = (validate_scoring p = Inr ())"

abbreviation cap_of :: "scoring_policy \<Rightarrow> string \<Rightarrow> int" where
  "cap_of p c \<equiv> dict_get_or (sp_category_caps p) c 0"

abbreviation thr_of :: "scoring_policy \<Rightarrow> string \<Rightarrow> int" where
  "thr_of p k \<equiv> dict_get_or (sp_decision_thresholds p) k 0"

definition rule_ok :: "int \<Rightarrow> string \<Rightarrow> rule_spec \<Rightarrow> bool" where
  "rule_ok hi k r = (rs_rule r = k \<and> rs_category r \<in> set allowed_categories \<and>
     0 \<le> rs_weight r \<and> rs_weight r \<le> hi \<and> py_strip (rs_description r) \<noteq> [])"

lemma validate_rules_iff: "validate_rules hi rs = Inr () \<longleftrightarrow> dict_all (rule_ok hi) rs"
  by (induction rs) (auto simp: dict_all_def rule_ok_def split: if_splits)

lemma dict_keys_get: "set (map fst d) = K \<Longrightarrow> k \<in> K \<Longrightarrow> \<exists>v. dict_get d k = Some v"
  by (metis image_set map_of_eq_None_iff not_None_eq)

lemma valid_policyD:
  assumes "valid_policy p"
  shows "sp_score_minimum p = 0" and "sp_score_maximum p = 100"
    and "set (map fst (sp_category_caps p)) = set allowed_categories"
    and "\<forall>c \<in> snd ` set (sp_category_caps p). 0 \<le> c \<and> c \<le> 100"
    and "set (map fst (sp_decision_thresholds p)) = required_thresholds"
    and "0 < thr_of p ''allow_monitor_min''"
    and "thr_of p ''allow_monitor_min'' < thr_of p ''warn_min''"
    and "thr_of p ''warn_min'' < thr_of p ''deny_min''"
    and "thr_of p ''deny_min'' \<le> 100"
    and "0 \<le> thr_of p ''deny_min_static_score''"
    and "thr_of p ''deny_min_static_score'' \<le> cap_of p ''static''"
    and "dict_all (rule_ok 100) (sp_rules p)"
  using assms
  by (auto simp: valid_policy_def validate_scoring_def Let_def list_ex_iff not_less validate_rules_iff
      split: if_splits)

lemma valid_cap:
  assumes "valid_policy p" and "c \<in> set allowed_categories"
  obtains v where "dict_get (sp_category_caps p) c = Some v" and "0 \<le> v" and "v \<le> 100"
proof -
  obtain v where v: "dict_get (sp_category_caps p) c = Some v"
    using dict_keys_get [OF valid_policyD(3)] assms by blast
  then have "(c, v) \<in> set (sp_category_caps p)" by (rule map_of_SomeD)
  then have "0 \<le> v \<and> v \<le> 100" using valid_policyD(4) [OF assms(1)] by force
  with v show ?thesis using that by blast
qed

lemma valid_cap_of:
  assumes "valid_policy p" and "c \<in> set allowed_categories"
  shows "dict_get (sp_category_caps p) c = Some (cap_of p c)" and "0 \<le> cap_of p c" and "cap_of p c \<le> 100"
  by (rule valid_cap [OF assms], simp add: dict_get_or_def)+

lemma valid_thr:
  assumes "valid_policy p" and "k \<in> required_thresholds"
  shows "score_item (sp_decision_thresholds p) k = Inr (thr_of p k)"
  using dict_keys_get [OF valid_policyD(5)] assms by (fastforce simp: score_item_def dict_get_or_def)

section \<open>Collected indicators come from the policy's rules\<close>

definition from_rule :: "scoring_policy \<Rightarrow> score_indicator \<Rightarrow> bool" where
  "from_rule p i = (\<exists>k r. dict_get (sp_rules p) k = Some r \<and> si_rule i = rs_rule r \<and>
     si_category i = rs_category r \<and> si_weight i = rs_weight r)"

lemma rule_indicator_from_rule: "rule_indicator p k ev = Inr i \<Longrightarrow> from_rule p i"
  unfolding rule_indicator_def from_rule_def
  by (cases "dict_get (sp_rules p) k") (force split: option.splits)+

lemma emit_Inr_set: "emit b m = Inr xs \<Longrightarrow> x \<in> set xs \<Longrightarrow> m = Inr x"
  by (auto simp: emit_def res_bind_eq_Inr split: if_splits)

lemma emit_Inr_set': "Inr xs = emit b m \<Longrightarrow> x \<in> set xs \<Longrightarrow> m = Inr x"
  using emit_Inr_set by metis

lemma emit_all_Inr:
  "emit_all ms = Inr xs \<longleftrightarrow> (\<exists>xss. list_all2 (\<lambda>m ys. m = Inr ys) ms xss \<and> xs = concat xss)"
  by (auto simp: emit_all_def res_bind_eq_Inr map_res_all2)

lemma emit_all_set:
  assumes "emit_all ms = Inr xs" and "x \<in> set xs"
  obtains m ys where "m \<in> set ms" and "m = Inr ys" and "x \<in> set ys"
proof -
  obtain xss where xss: "list_all2 (\<lambda>m ys. m = Inr ys) ms xss" "xs = concat xss"
    using assms(1) by (auto simp: emit_all_Inr)
  then obtain ys where "ys \<in> set xss" "x \<in> set ys" using assms(2) by auto
  moreover have "Inr ys \<in> set ms"
    using xss(1) \<open>ys \<in> set xss\<close> by (induction rule: list_all2_induct) auto
  ultimately show ?thesis using that by blast
qed

lemma collect_entropy_from_rule: "collect_entropy p s = Inr xs \<Longrightarrow> i \<in> set xs \<Longrightarrow> from_rule p i"
  by (auto simp: collect_entropy_def elyra_splits elim!: emit_all_set
      dest!: emit_Inr_set emit_Inr_set' intro: rule_indicator_from_rule)

lemma collect_static_from_rule: "collect_static p s = Inr xs \<Longrightarrow> i \<in> set xs \<Longrightarrow> from_rule p i"
  by (auto simp: collect_static_def Let_def elim!: emit_all_set
      dest!: emit_Inr_set emit_Inr_set' intro: rule_indicator_from_rule split: if_splits)

lemma collect_context_from_rule: "collect_context p s = Inr xs \<Longrightarrow> i \<in> set xs \<Longrightarrow> from_rule p i"
  by (auto simp: collect_context_def elim!: emit_all_set
      dest!: emit_Inr_set emit_Inr_set' intro: rule_indicator_from_rule)

lemma collect_from_rule: "collect_indicators p s = Inr xs \<Longrightarrow> i \<in> set xs \<Longrightarrow> from_rule p i"
  by (auto simp: collect_indicators_def res_bind_eq_Inr dest: collect_entropy_from_rule
      collect_static_from_rule collect_context_from_rule)

lemma from_rule_valid:
  assumes "valid_policy p" and "from_rule p i"
  shows "si_category i \<in> set allowed_categories" and "0 \<le> si_weight i" and "si_weight i \<le> 100"
proof -
  obtain k r where "dict_get (sp_rules p) k = Some r" "si_category i = rs_category r"
      "si_weight i = rs_weight r" using assms(2) by (auto simp: from_rule_def)
  moreover from this(1) have "rule_ok 100 k r"
    using valid_policyD(12) [OF assms(1)] by (rule dict_all_get [rotated])
  ultimately show "si_category i \<in> set allowed_categories" "0 \<le> si_weight i" "si_weight i \<le> 100"
    by (auto simp: rule_ok_def)
qed

section \<open>Sums and caps\<close>

definition category_sum :: "score_indicator list \<Rightarrow> string \<Rightarrow> int" where
  "category_sum inds c = sum_list (map si_weight (filter (\<lambda>i. si_category i = c) inds))"

lemma accumulate_sum:
  assumes "accumulate raw inds = Inr raw'"
  shows "map fst raw' = map fst raw"
    and "dict_get raw c = Some v \<Longrightarrow> dict_get raw' c = Some (v + category_sum inds c)"
  using assms
proof (induction inds arbitrary: raw v)
  case (Cons i inds)
  {
    case 1
    then show ?case using Cons.IH(1)
      by (force simp: res_bind_eq_Inr score_item_def dict_set_keys split: option.splits
          dest: map_of_SomeD)
  next
    case 2
    then obtain old where old: "dict_get raw (si_category i) = Some old"
      and rest: "accumulate (dict_set (si_category i) (old + si_weight i) raw) inds = Inr raw'"
      by (auto simp: res_bind_eq_Inr score_item_def split: option.splits)
    show ?case
    proof (cases "c = si_category i")
      case True
      then have "dict_get raw' c = Some (old + si_weight i + category_sum inds c)"
        using Cons.IH(2) [OF _ rest] by simp
      then show ?thesis using True old 2(1) by (simp add: category_sum_def)
    next
      case False
      then have "dict_get raw' c = Some (v + category_sum inds c)"
        using Cons.IH(2) [OF _ rest] 2(1) by simp
      then show ?thesis using False by (simp add: category_sum_def)
    qed
  }
qed (simp_all add: category_sum_def)

lemma accumulate_total:
  "(\<And>i. i \<in> set inds \<Longrightarrow> si_category i \<in> fst ` set raw) \<Longrightarrow> is_ok (accumulate raw inds)"
proof (induction inds arbitrary: raw)
  case (Cons i inds)
  have "si_category i \<in> fst ` set raw" using Cons.prems by simp
  then obtain old where old: "dict_get raw (si_category i) = Some old"
    by (metis dict_get_None_iff not_None_eq)
  have "fst ` set (dict_set (si_category i) (old + si_weight i) raw) = fst ` set raw"
    using \<open>si_category i \<in> fst ` set raw\<close>
    by (metis dict_set_keys image_set)
  then have "is_ok (accumulate (dict_set (si_category i) (old + si_weight i) raw) inds)"
    using Cons.prems by (intro Cons.IH) simp
  then show ?case using old by (simp add: score_item_def)
qed simp

lemma zero_scores_get: "c \<in> set allowed_categories \<Longrightarrow> dict_get zero_scores c = Some 0"
  by (auto simp: zero_scores_def allowed_categories_def)

lemma map_fst_zero_scores: "map fst zero_scores = allowed_categories"
  by (simp add: zero_scores_def comp_def)

lemma cap_scores_Inr:
  assumes "cap_scores p raw = Inr cats"
  shows "map fst cats = allowed_categories"
    and "(c, v) \<in> set cats \<Longrightarrow> \<exists>r cap. dict_get raw c = Some r \<and>
           dict_get (sp_category_caps p) c = Some cap \<and> v = min r cap"
proof -
  have all2: "list_all2 (\<lambda>k (k', w). k' = k \<and> (\<exists>r cap. dict_get raw k = Some r \<and>
      dict_get (sp_category_caps p) k = Some cap \<and> w = min r cap)) allowed_categories cats"
    using assms unfolding cap_scores_def map_res_all2
    by (rule list_all2_mono) (auto simp: elyra_splits score_item_Inr)
  then show "map fst cats = allowed_categories" by (induction rule: list_all2_induct) auto
  from all2 show "(c, v) \<in> set cats \<Longrightarrow> \<exists>r cap. dict_get raw c = Some r \<and>
           dict_get (sp_category_caps p) c = Some cap \<and> v = min r cap"
    by (induction rule: list_all2_induct) auto
qed

lemma category_sum_nonneg: "(\<And>i. i \<in> set inds \<Longrightarrow> 0 \<le> si_weight i) \<Longrightarrow> 0 \<le> category_sum inds c"
  by (auto simp: category_sum_def intro!: sum_list_nonneg)

lemma sort_indicators_mset: "sort_indicators inds = Inr js \<Longrightarrow> mset js = mset inds"
  by (auto simp: sort_indicators_def res_bind_eq_Inr)

lemma category_sum_mset: "mset js = mset inds \<Longrightarrow> category_sum js c = category_sum inds c"
proof -
  assume "mset js = mset inds"
  then have "mset (map si_weight (filter (\<lambda>i. si_category i = c) js))
      = mset (map si_weight (filter (\<lambda>i. si_category i = c) inds))" by simp
  then show ?thesis unfolding category_sum_def by (metis sum_mset_sum_list)
qed

lemma row_json_spec: "rule_of_mapping render (row_json row) = Inr (row_spec row)"
  by (cases row) (auto simp: rule_of_mapping_def row_json_def row_spec_def py_item_def
      split: option.splits)

lemma rows_json_spec: "map_res (rule_of_mapping render) (map row_json rows) = Inr (map row_spec rows)"
  by (induction rows) (simp_all add: row_json_spec)

lemma default_policy_of_mapping:
  "policy_of_mapping render default_scoring_json = Inr default_scoring_policy"
  by (simp add: policy_of_mapping_def default_scoring_json_def default_scoring_policy_def
      py_item_def py_items_def int_items_def rows_json_spec)

lemma default_policy_valid: "valid_policy default_scoring_policy"
  by code_simp

lemma default_policy_complete: "complete_policy default_scoring_policy"
  by code_simp

section \<open>The score\<close>

text \<open>What the score ought to be: per category the sum of the weights, capped; then their sum.\<close>

definition capped_sum :: "scoring_policy \<Rightarrow> score_indicator list \<Rightarrow> string \<Rightarrow> int" where
  "capped_sum p inds c = min (category_sum inds c) (cap_of p c)"

definition score_spec :: "scoring_policy \<Rightarrow> score_indicator list \<Rightarrow> int" where
  "score_spec p inds = min 100 (\<Sum>c\<leftarrow>allowed_categories. capped_sum p inds c)"

text \<open>The decision ladder and its gate.\<close>

definition decision_spec :: "scoring_policy \<Rightarrow> int \<Rightarrow> int \<Rightarrow> string" where
  "decision_spec p score static_score =
     (if score \<ge> thr_of p ''deny_min'' \<and> static_score \<ge> thr_of p ''deny_min_static_score'' then ''DENY''
      else if score \<ge> thr_of p ''warn_min'' then ''WARN''
      else if score \<ge> thr_of p ''allow_monitor_min'' then ''ALLOW_MONITOR''
      else ''ALLOW'')"

lemma distinct_allowed: "distinct allowed_categories"
  by (simp add: allowed_categories_def)

lemma accumulate_zero:
  assumes "accumulate zero_scores inds = Inr raw"
  shows "raw = map (\<lambda>c. (c, category_sum inds c)) allowed_categories"
proof (rule dict_from_keys [OF _ distinct_allowed])
  show "map fst raw = allowed_categories"
    using accumulate_sum(1) [OF assms] by (simp add: map_fst_zero_scores)
  show "dict_get raw c = Some (category_sum inds c)" if "c \<in> set allowed_categories" for c
    using accumulate_sum(2) [OF assms zero_scores_get [OF that]] by simp
qed

lemma get_map_keys: "k \<in> set ks \<Longrightarrow> dict_get (map (\<lambda>k. (k, f k)) ks) k = Some (f k)"
  by (induction ks) auto

lemma cap_scores_value:
  assumes "valid_policy p"
  shows "cap_scores p (map (\<lambda>c. (c, category_sum inds c)) allowed_categories)
    = Inr (map (\<lambda>c. (c, capped_sum p inds c)) allowed_categories)"
proof -
  have "res_bind (score_item (map (\<lambda>c. (c, category_sum inds c)) allowed_categories) c) (\<lambda>r.
      res_bind (score_item (sp_category_caps p) c) (\<lambda>cap. Inr (c, min r cap)))
      = Inr (c, capped_sum p inds c)" if "c \<in> set allowed_categories" for c
    using get_map_keys [OF that, of "category_sum inds"] valid_cap_of [OF assms that]
    by (simp add: score_item_def capped_sum_def)
  then show ?thesis
    unfolding cap_scores_def map_res_all2
    by (auto simp: list_all2_conv_all_nth)
qed

lemma score_decision_spec:
  assumes "valid_policy p"
  shows "score_decision p s t = Inr (decision_spec p s t,
    if s \<ge> thr_of p ''deny_min'' \<and> t < thr_of p ''deny_min_static_score'' then [deny_gate_note] else [])"
  using valid_policyD(8) [OF assms]
  by (auto simp: score_decision_def decision_spec_def Let_def valid_thr [OF assms] required_thresholds_def)

lemma capped_sum_bounds:
  assumes "valid_policy p" and "\<And>i. i \<in> set inds \<Longrightarrow> from_rule p i" and "c \<in> set allowed_categories"
  shows "0 \<le> capped_sum p inds c" and "capped_sum p inds c \<le> cap_of p c"
proof -
  have "0 \<le> category_sum inds c"
    using assms by (intro category_sum_nonneg) (blast dest: from_rule_valid(2))
  moreover have "0 \<le> cap_of p c"
    using valid_cap_of(2) [OF assms(1,3)] .
  ultimately show "0 \<le> capped_sum p inds c" by (simp add: capped_sum_def)
qed (simp add: capped_sum_def)

lemma capped_total_nonneg:
  assumes "valid_policy p" and "\<And>i. i \<in> set inds \<Longrightarrow> from_rule p i"
  shows "0 \<le> (\<Sum>c\<leftarrow>allowed_categories. capped_sum p inds c)"
  using capped_sum_bounds(1) [OF assms] by (auto intro!: sum_list_nonneg)

lemma score_scan_decomp:
  assumes "valid_policy p" and "scan_status scan \<noteq> ''ERROR''" and "score_scan p scan = Inr r"
  obtains found where "collect_indicators p scan = Inr found"
    and "mset (sr_indicators r) = mset found"
    and "sr_score r = score_spec p found"
    and "sr_category_scores r = map (\<lambda>c. (c, capped_sum p found c)) allowed_categories"
    and "sr_raw_category_scores r = map (\<lambda>c. (c, category_sum found c)) allowed_categories"
    and "sr_decision r = decision_spec p (score_spec p found) (capped_sum p found ''static'')"
    and "sr_scoring_status r = ''OK''"
proof -
  obtain found inds where f: "collect_indicators p scan = Inr found" "sort_indicators found = Inr inds"
      "finish_score p scan inds = Inr r"
    using assms by (auto simp: score_scan_def res_bind_eq_Inr)
  have m: "mset inds = mset found" using f(2) by (rule sort_indicators_mset)
  have sums: "category_sum inds = category_sum found" "capped_sum p inds = capped_sum p found"
    using category_sum_mset [OF m] by (auto simp: capped_sum_def)
  obtain raw where raw: "accumulate zero_scores inds = Inr raw"
    using f(3) by (auto simp: finish_score_def elyra_splits)
  have rawv: "raw = map (\<lambda>c. (c, category_sum found c)) allowed_categories"
    using accumulate_zero [OF raw] sums by simp
  have nonneg: "0 \<le> (\<Sum>c\<leftarrow>allowed_categories. capped_sum p found c)"
    using capped_total_nonneg [OF assms(1)] collect_from_rule [OF f(1)] by blast
  have st: "score_item (map (\<lambda>c. (c, capped_sum p found c)) allowed_categories) ''static''
      = Inr (capped_sum p found ''static'')"
    by (simp add: score_item_def allowed_categories_def)
  have sc: "min (sp_score_maximum p) (max (sp_score_minimum p)
      (sum_list (map snd (map (\<lambda>c. (c, capped_sum p found c)) allowed_categories)))) = score_spec p found"
    using nonneg valid_policyD(1,2) [OF assms(1)] by (simp add: score_spec_def comp_def)
  have r: "sr_score r = score_spec p found"
    "sr_category_scores r = map (\<lambda>c. (c, capped_sum p found c)) allowed_categories"
    "sr_raw_category_scores r = raw" "sr_indicators r = inds" "sr_scoring_status r = ''OK''"
    "sr_decision r = decision_spec p (score_spec p found) (capped_sum p found ''static'')"
    using f(3) raw cap_scores_value [OF assms(1), of inds] st sc
    by (auto simp: finish_score_def Let_def sums rawv score_decision_spec [OF assms(1)])
  show ?thesis using that [OF f(1)] r rawv m by simp
qed

section \<open>Properties\<close>

lemma from_mapping_valid: "scoring_from_mapping render data = Inr p \<Longrightarrow> valid_policy p"
  by (auto simp: scoring_from_mapping_def valid_policy_def res_bind_eq_Inr split: sum.splits)

text \<open>A scan with every kind of evidence, for the concrete instances.\<close>

definition sample_scan :: static_scan where
  "sample_scan = (new_scan ''/tmp/x'')\<lparr>scan_status := ''OK'',
     scan_entropy_summary := [(''whole_file_entropy'', PFloat (Fin (31 / 4))),
       (''high_entropy_block_ratio'', PFloat (Fin 1))],
     scan_elf_anomalies := [''WRITABLE_EXECUTABLE_SEGMENT:LOAD'', ''ELF_NO_SECTION_HEADERS''],
     scan_path_indicators := [''TEMPORARY_DIRECTORY'']\<rparr>"

definition sample_result :: scoring_result where
  "sample_result = (case score_scan default_scoring_policy sample_scan of
     Inr r \<Rightarrow> r | Inl _ \<Rightarrow> degraded_result default_scoring_policy '''' PNone)"

lemma sample_from_mapping:
  "scoring_from_mapping (\<lambda>_. '''') default_scoring_json = Inr default_scoring_policy"
  using default_policy_valid
  by (simp add: scoring_from_mapping_def default_policy_of_mapping valid_policy_def)

lemma sample_status: "scan_status sample_scan \<noteq> ''ERROR''"
  by (simp add: sample_scan_def)

lemma sample_scored: "score_scan default_scoring_policy sample_scan = Inr sample_result"
  by code_simp

text \<open>C1: Whatever policy document the loader accepts, a completed score lies in 0..100, every
  indicator is a rule of that policy, each category contributes the sum of its indicators' weights
  capped at the category cap, and the score is the sum of the categories capped at 100.\<close>

theorem score_is_capped_sum:
  assumes "scoring_from_mapping render data = Inr p" and "scan_status scan \<noteq> ''ERROR''"
    and "score_scan p scan = Inr r"
  shows "0 \<le> sr_score r \<and> sr_score r \<le> 100 \<and>
    (\<forall>i \<in> set (sr_indicators r). from_rule p i) \<and>
    sr_category_scores r = map (\<lambda>c. (c, min (category_sum (sr_indicators r) c) (cap_of p c))) allowed_categories \<and>
    sr_score r = min 100 (sum_list (map snd (sr_category_scores r)))"
proof -
  have v: "valid_policy p" using assms(1) by (rule from_mapping_valid)
  obtain found where f: "collect_indicators p scan = Inr found" "mset (sr_indicators r) = mset found"
      "sr_score r = score_spec p found"
      "sr_category_scores r = map (\<lambda>c. (c, capped_sum p found c)) allowed_categories"
    using score_scan_decomp [OF v assms(2,3)] by blast
  have fr: "\<And>i. i \<in> set found \<Longrightarrow> from_rule p i" using collect_from_rule [OF f(1)] .
  moreover have "set (sr_indicators r) = set found" using f(2) by (metis set_mset_mset)
  moreover have "0 \<le> score_spec p found" using capped_total_nonneg [OF v fr] by (simp add: score_spec_def)
  ultimately show ?thesis
    using f(3,4) category_sum_mset [OF f(2)]
    by (simp add: score_spec_def comp_def capped_sum_def)
qed

theorem score_is_capped_sum_witness:
  "sr_score sample_result = 83 \<and> sr_score sample_result \<le> 100 \<and>
   sr_score sample_result = min 100 (sum_list (map snd (sr_category_scores sample_result)))"
proof -
  have "sr_score sample_result = 83" by code_simp
  then show ?thesis
    using score_is_capped_sum [OF sample_from_mapping sample_status sample_scored] by simp
qed

text \<open>C2: With an accepted policy the decision is the threshold ladder with its gate: DENY needs the
  score at \<open>deny_min\<close> and the capped static score at \<open>deny_min_static_score\<close>. When the gate is
  positive, every denial rests on an indicator of the static category.\<close>

theorem deny_needs_static_gate:
  assumes "scoring_from_mapping render data = Inr p" and "scan_status scan \<noteq> ''ERROR''"
    and "score_scan p scan = Inr r"
  shows "sr_decision r = decision_spec p (sr_score r) (dict_get_or (sr_category_scores r) ''static'' 0) \<and>
    (sr_decision r = ''DENY'' \<and> 0 < thr_of p ''deny_min_static_score'' \<longrightarrow>
      (\<exists>i \<in> set (sr_indicators r). si_category i = ''static'' \<and> from_rule p i))"
proof -
  have v: "valid_policy p" using assms(1) by (rule from_mapping_valid)
  obtain found where f: "collect_indicators p scan = Inr found" "mset (sr_indicators r) = mset found"
      "sr_score r = score_spec p found"
      "sr_category_scores r = map (\<lambda>c. (c, capped_sum p found c)) allowed_categories"
      "sr_decision r = decision_spec p (score_spec p found) (capped_sum p found ''static'')"
    using score_scan_decomp [OF v assms(2,3)] by blast
  have same: "set (sr_indicators r) = set found" using f(2) by (metis set_mset_mset)
  have st: "dict_get_or (sr_category_scores r) ''static'' 0 = capped_sum p found ''static''"
    by (simp add: f(4) dict_get_or_def allowed_categories_def)
  have "\<exists>i \<in> set found. si_category i = ''static''"
    if "sr_decision r = ''DENY''" "0 < thr_of p ''deny_min_static_score''"
  proof (rule ccontr)
    assume "\<not> ?thesis"
    then have "filter (\<lambda>i. si_category i = ''static'') found = []" by (auto simp: filter_empty_conv)
    then have "capped_sum p found ''static'' \<le> 0" by (simp add: capped_sum_def category_sum_def)
    then show False using that f(5) by (simp add: decision_spec_def split: if_splits)
  qed
  then show ?thesis using f(3,5) st same collect_from_rule [OF f(1)] by auto
qed

theorem deny_needs_static_gate_witness:
  "sr_decision sample_result = ''DENY'' \<and>
   (\<exists>i \<in> set (sr_indicators sample_result). si_category i = ''static'')"
proof -
  have "sr_decision sample_result = ''DENY''" by code_simp
  moreover have "0 < thr_of default_scoring_policy ''deny_min_static_score''" by code_simp
  ultimately show ?thesis
    using deny_needs_static_gate [OF sample_from_mapping sample_status sample_scored] by blast
qed

lemma emit_all_total: "(\<And>m. m \<in> set ms \<Longrightarrow> is_ok m) \<Longrightarrow> is_ok (emit_all ms)"
  using map_res_total [of ms id] by (auto simp: emit_all_def is_ok_iff)

lemma emit_total: "(b \<Longrightarrow> is_ok m) \<Longrightarrow> is_ok (emit b m)"
  by (auto simp: emit_def is_ok_iff)

lemma rule_indicator_total:
  "complete_policy p \<Longrightarrow> k \<in> set collector_rules \<Longrightarrow> is_ok (rule_indicator p k ev)"
  by (auto simp: complete_policy_def rule_indicator_def list_all_iff)

lemma rule_threshold_total:
  assumes "complete_policy p" and "k \<in> set threshold_rules"
  shows "is_ok (rule_threshold p k)"
proof -
  have "k \<in> set collector_rules"
    using assms(2) by (auto simp: threshold_rules_def collector_rules_def default_rule_rows_def)
  then show ?thesis
    using assms by (auto simp: complete_policy_def rule_threshold_def list_all_iff split: option.splits)
qed

lemma collector_rules_mem:
  "set collector_rules = {''HIGH_WHOLE_FILE_ENTROPY'', ''HIGH_ENTROPY_BLOCK_RATIO'',
     ''MIME_EXTENSION_INCONSISTENT'', ''MALFORMED_ELF'', ''WRITABLE_EXECUTABLE_SECTION'',
     ''WRITABLE_EXECUTABLE_SEGMENT'', ''ELF_ENTRY_POINT_ZERO'', ''ELF_NO_SECTION_HEADERS'',
     ''SUID_BIT_SET'', ''SGID_BIT_SET'', ''WORLD_WRITABLE'', ''WORLD_WRITABLE_AND_EXECUTABLE'',
     ''TEMPORARY_DIRECTORY'', ''DOWNLOAD_DIRECTORY'', ''REMOVABLE_OR_MOUNTED_MEDIA'',
     ''HIDDEN_PATH_COMPONENT''}"
  by (simp add: collector_rules_def default_rule_rows_def)

definition numeric_entropy :: "static_scan \<Rightarrow> bool" where
  "numeric_entropy scan = (is_ok (summary_float scan ''whole_file_entropy'') \<and>
     is_ok (summary_float scan ''high_entropy_block_ratio''))"

lemma res_bind_total: "is_ok m \<Longrightarrow> (\<And>x. m = Inr x \<Longrightarrow> is_ok (f x)) \<Longrightarrow> is_ok (res_bind m f)"
  by (cases m) auto

lemma collect_entropy_total:
  "complete_policy p \<Longrightarrow> numeric_entropy scan \<Longrightarrow> is_ok (collect_entropy p scan)"
  unfolding collect_entropy_def numeric_entropy_def
  by (intro res_bind_total emit_all_total)
    (auto intro!: res_bind_total emit_total rule_threshold_total rule_indicator_total
      simp: threshold_rules_def collector_rules_mem)

lemma collect_static_total: "complete_policy p \<Longrightarrow> is_ok (collect_static p scan)"
  unfolding collect_static_def Let_def
  by (intro emit_all_total) (auto intro!: emit_total rule_indicator_total simp: collector_rules_mem)

lemma collect_context_total: "complete_policy p \<Longrightarrow> is_ok (collect_context p scan)"
  unfolding collect_context_def
  by (intro emit_all_total) (auto intro!: emit_total rule_indicator_total simp: collector_rules_mem)

lemma sort_indicators_total:
  "(\<And>i. i \<in> set inds \<Longrightarrow> si_category i \<in> set allowed_categories) \<Longrightarrow> is_ok (sort_indicators inds)"
  unfolding sort_indicators_def
  by (intro res_bind_total map_res_total)
    (auto simp: indicator_key_def score_item_def category_order_def allowed_categories_def)

lemma finish_score_total:
  assumes "valid_policy p" and "\<And>i. i \<in> set inds \<Longrightarrow> si_category i \<in> set allowed_categories"
  shows "is_ok (finish_score p scan inds)"
proof -
  have "is_ok (accumulate zero_scores inds)"
    using assms(2) map_fst_zero_scores by (intro accumulate_total) (metis image_set)
  then obtain raw where raw: "accumulate zero_scores inds = Inr raw" by (auto simp: is_ok_iff)
  have st: "score_item (map (\<lambda>c. (c, capped_sum p inds c)) allowed_categories) ''static''
      = Inr (capped_sum p inds ''static'')"
    by (simp add: score_item_def allowed_categories_def)
  show ?thesis
    using raw cap_scores_value [OF assms(1), of inds] st
    by (simp add: finish_score_def accumulate_zero [OF raw] score_decision_spec [OF assms(1)] Let_def)
qed

text \<open>C3: With an accepted policy that defines every rule the collectors use, scoring never raises:
  every scan whose entropy figures are numbers gets a result, and a scan that failed gets the
  degraded one, which never denies.\<close>

theorem score_total:
  assumes "scoring_from_mapping render data = Inr p" and "complete_policy p"
    and "scan_status scan = ''ERROR'' \<or> numeric_entropy scan"
  shows "\<exists>r. score_scan p scan = Inr r \<and>
    (sr_scoring_status r = ''DEGRADED'' \<longleftrightarrow> scan_status scan = ''ERROR'') \<and>
    (sr_scoring_status r = ''DEGRADED'' \<longrightarrow> sr_decision r = ''ALLOW_MONITOR'' \<and> sr_score r = 0)"
proof (cases "scan_status scan = ''ERROR''")
  case True
  then show ?thesis by (simp add: score_scan_def degraded_result_def)
next
  case False
  have v: "valid_policy p" using assms(1) by (rule from_mapping_valid)
  have "is_ok (collect_indicators p scan)"
    unfolding collect_indicators_def
    by (intro res_bind_total collect_entropy_total collect_static_total collect_context_total)
      (use assms False in auto)
  then obtain found where f: "collect_indicators p scan = Inr found" by (auto simp: is_ok_iff)
  have cat: "si_category i \<in> set allowed_categories" if "i \<in> set found" for i
    using from_rule_valid(1) [OF v collect_from_rule [OF f that]] .
  then obtain inds where s: "sort_indicators found = Inr inds"
    using sort_indicators_total [of found] by (auto simp: is_ok_iff)
  have "set inds = set found" using sort_indicators_mset [OF s] by (metis set_mset_mset)
  then obtain r where "finish_score p scan inds = Inr r"
    using finish_score_total [OF v, of inds scan] cat by (auto simp: is_ok_iff)
  then have r: "score_scan p scan = Inr r" using False f s by (simp add: score_scan_def)
  moreover have "sr_scoring_status r = ''OK''" using score_scan_decomp [OF v False r] by blast
  ultimately show ?thesis using False by simp
qed

theorem score_total_witness:
  "complete_policy default_scoring_policy \<and>
   (\<exists>r. score_scan default_scoring_policy sample_scan = Inr r \<and> sr_scoring_status r \<noteq> ''DEGRADED'')"
proof -
  have "numeric_entropy sample_scan" by code_simp
  then show ?thesis
    using score_total [OF sample_from_mapping default_policy_complete, of sample_scan] sample_status
      default_policy_complete by auto
qed

lemma matching_prefix_perm: "mset xs = mset ys \<Longrightarrow> matching_prefix xs p = matching_prefix ys p"
  unfolding matching_prefix_def by (intro properties_for_sort) simp_all

lemma has_exact_perm: "mset xs = mset ys \<Longrightarrow> has_exact xs k = has_exact ys k"
  unfolding has_exact_def by (metis set_mset_mset)

text \<open>C4: The score does not depend on the order in which the analyser lists anomalies: permuting
  the ELF anomalies, permission anomalies and path indicators leaves the whole result unchanged,
  evidence and indicator order included.\<close>

theorem score_order_independent:
  assumes "mset elf = mset (scan_elf_anomalies scan)"
    and "mset perms = mset (scan_permission_anomalies scan)"
    and "mset path = mset (scan_path_indicators scan)"
  shows "score_scan p (scan\<lparr>scan_elf_anomalies := elf, scan_permission_anomalies := perms,
           scan_path_indicators := path\<rparr>) = score_scan p scan"
proof -
  let ?scan = "scan\<lparr>scan_elf_anomalies := elf, scan_permission_anomalies := perms,
    scan_path_indicators := path\<rparr>"
  have "collect_entropy p ?scan = collect_entropy p scan"
    by (simp add: collect_entropy_def summary_float_def)
  moreover have "collect_static p ?scan = collect_static p scan"
    by (simp add: collect_static_def Let_def matching_prefix_perm [OF assms(1)] has_exact_perm [OF assms(1)]
        has_exact_perm [OF assms(2)])
  moreover have "collect_context p ?scan = collect_context p scan"
    by (simp add: collect_context_def has_exact_perm [OF assms(3)])
  ultimately have "collect_indicators p ?scan = collect_indicators p scan"
    by (simp add: collect_indicators_def)
  moreover have "finish_score p ?scan = finish_score p scan"
    by (rule ext) (simp add: finish_score_def)
  ultimately show ?thesis by (simp add: score_scan_def)
qed

theorem score_order_independent_witness:
  "score_scan default_scoring_policy (sample_scan\<lparr>
     scan_elf_anomalies := [''ELF_NO_SECTION_HEADERS'', ''WRITABLE_EXECUTABLE_SEGMENT:LOAD''],
     scan_permission_anomalies := [], scan_path_indicators := [''TEMPORARY_DIRECTORY'']\<rparr>)
   = Inr sample_result"
  using score_order_independent [of "[''ELF_NO_SECTION_HEADERS'', ''WRITABLE_EXECUTABLE_SEGMENT:LOAD'']"
      sample_scan "[]" "[''TEMPORARY_DIRECTORY'']" default_scoring_policy]
  by (simp add: sample_scored [symmetric]) (simp add: sample_scan_def new_scan_def)

text \<open>The shipped policy document loads: the result is the expected policy, it passes validation
  and it defines every rule the collectors ask for.\<close>

theorem default_scoring_loads:
  "load_scoring render (Some (PDict default_scoring_json)) = Inr default_scoring_policy \<and>
   complete_policy default_scoring_policy"
  using default_policy_valid default_policy_complete
  by (simp add: load_scoring_def scoring_from_mapping_def default_policy_of_mapping valid_policy_def)

text \<open>A policy whose static gate is zero and whose entropy rules alone reach the denial threshold.\<close>

definition zero_gate_policy :: scoring_policy where
  "zero_gate_policy = default_scoring_policy\<lparr>
     sp_category_caps := [(''entropy'', 100), (''static'', 60), (''context'', 25)],
     sp_decision_thresholds := [(''allow_monitor_min'', 10), (''warn_min'', 20), (''deny_min'', 26),
       (''deny_min_static_score'', 0)]\<rparr>"

definition entropy_scan :: static_scan where
  "entropy_scan = (new_scan ''/usr/bin/x'')\<lparr>scan_status := ''OK'',
     scan_entropy_summary := [(''whole_file_entropy'', PFloat (Fin (31 / 4))),
       (''high_entropy_block_ratio'', PFloat (Fin 1))]\<rparr>"

text \<open>Validation admits a zero static gate. Under such a policy entropy alone is denied, in a
  result whose own note says that entropy cannot satisfy the denial gate by itself.\<close>

theorem entropy_alone_can_deny:
  "validate_scoring zero_gate_policy = Inr () \<and>
   (\<exists>r. score_scan zero_gate_policy entropy_scan = Inr r \<and> sr_decision r = ''DENY'' \<and>
     list_all (\<lambda>i. si_category i = ''entropy'') (sr_indicators r) \<and> sr_notes r = [entropy_only_note])"
proof -
  have "validate_scoring zero_gate_policy = Inr ()" by code_simp
  moreover have "(case score_scan zero_gate_policy entropy_scan of Inl _ \<Rightarrow> False
      | Inr r \<Rightarrow> sr_decision r = ''DENY'' \<and>
          list_all (\<lambda>i. si_category i = ''entropy'') (sr_indicators r) \<and> sr_notes r = [entropy_only_note])"
    by code_simp
  ultimately show ?thesis by (auto split: sum.splits)
qed

text \<open>\<open>json.loads\<close> accepts \<open>Infinity\<close>; as a threshold it leaves \<open>from_mapping\<close> as an uncaught
  overflow, where not-a-number in the same place becomes an invalid-configuration error.\<close>

theorem infinite_threshold_escapes:
  "scoring_from_mapping render (dict_set ''score_maximum'' (PFloat PosInf) default_scoring_json)
     = Inl (ScoringExc OverflowError) \<and>
   (\<exists>e. scoring_from_mapping render (dict_set ''score_maximum'' (PFloat NaN) default_scoring_json)
     = Inl (InvalidScoringMapping e))"
  by (simp add: scoring_from_mapping_def policy_of_mapping_def default_scoring_json_def
      py_item_def py_items_def int_items_def rows_json_spec)

end
