(* ===== verification/Py_Bytes.thy ===== *)
theory Py_Bytes
  imports Main "HOL-Library.Word"
begin

text \<open>
  Byte buffers and the little-endian integers the \<open>struct\<close> module reads from them, as the event buffer of
  the execution monitor and the header inspector use them.
\<close>

fun le_nat :: "8 word list \<Rightarrow> nat" where
  "le_nat [] = 0"
| "le_nat (b # bs) = unat b + 256 * le_nat bs"

definition field_at :: "nat \<Rightarrow> nat \<Rightarrow> 'a list \<Rightarrow> 'a list" where
  "field_at off n data = take n (drop off data)"

text \<open>The encoder the reader inverts.\<close>

fun to_le :: "nat \<Rightarrow> nat \<Rightarrow> 8 word list" where
  "to_le 0 x = []"
| "to_le (Suc n) x = of_nat (x mod 256) # to_le n (x div 256)"

lemma length_to_le [simp]: "length (to_le n x) = n"
  by (induction n arbitrary: x) auto

lemma le_nat_to_le: "x < 256 ^ n \<Longrightarrow> le_nat (to_le n x) = x"
proof (induction n arbitrary: x)
  case (Suc n)
  have "x div 256 < 256 ^ n" using Suc.prems by (simp add: less_mult_imp_div_less mult.commute)
  then show ?case using Suc.IH by (simp add: unat_of_nat take_bit_eq_mod)
qed simp

lemma field_at_append: "field_at (length xs) (length ys) (xs @ ys @ zs) = ys"
  by (simp add: field_at_def)

lemma field_at_parts:
  assumes "data = a @ b @ c" and "length a = off" and "length b = n"
  shows "field_at off n data = b"
  using assms by (simp add: field_at_def)

lemma le_nat_less: "le_nat bs < 256 ^ length bs"
proof (induction bs)
  case (Cons b bs)
  have "unat b < 256" using unsigned_less [of b] by simp
  then have "unat b + 256 * le_nat bs < 256 * (le_nat bs + 1)" by simp
  also have "\<dots> \<le> 256 * 256 ^ length bs" using Cons.IH by (intro mult_le_mono) simp_all
  finally show ?case by simp
qed simp

end
