(* ===== verification/Fanotify.thy ===== *)
theory Fanotify
  imports Fanotify_Policy Pre_Execution Effects Py_Bytes
begin

unbundle bit_operations_syntax

text \<open>
  The pre-execution monitor: parsing of the kernel's event buffer and the permission response
  (\<open>monitor/fanotify/syscalls.py\<close>), the evaluation of one event, its answer and its record
  (\<open>monitor/fanotify/controller.py\<close>).

  The kernel and the process table are arguments (\<open>fan_env\<close>); what the controller does to them is
  the state \<open>fan_world\<close>: responses written, descriptors closed, records emitted. Integers in the
  event buffer are in little-endian order.
\<close>

section \<open>Event buffer\<close>

record fan_event =
  fe_fd :: int
  fe_pid :: int
  fe_path :: "string option"
  fe_mask :: "64 word"
  fe_event_len :: nat
  fe_metadata_len :: nat
  fe_version :: nat
  fe_received :: rat
  fe_parse_error :: "string option"

definition FAN_OPEN_EXEC_PERM :: "64 word" where
  "FAN_OPEN_EXEC_PERM = 0x00040000"

definition FAN_Q_OVERFLOW :: "64 word" where
  "FAN_Q_OVERFLOW = 0x00004000"

definition FAN_ALLOW :: int where
  "FAN_ALLOW = 1"

definition FAN_DENY :: int where
  "FAN_DENY = 2"

definition metadata_size :: nat where
  "metadata_size = 24"

definition is_overflow :: "fan_event \<Rightarrow> bool" where
  "is_overflow ev = (fe_mask ev AND FAN_Q_OVERFLOW \<noteq> 0)"

definition is_exec_permission :: "fan_event \<Rightarrow> bool" where
  "is_exec_permission ev = (fe_mask ev AND FAN_OPEN_EXEC_PERM \<noteq> 0 \<and> 0 \<le> fe_fd ev)"

definition le_int32 :: "8 word list \<Rightarrow> int" where
  "le_int32 bs = (let n = int (le_nat bs) in if n < 2147483648 then n else n - 4294967296)"

text \<open>
  One iteration: the layout is \<open>u32 event_len, u8 version, u8 reserved, u16 metadata_len, u64 mask,
  i32 fd, i32 pid\<close>. \<open>link\<close> is \<open>readlink\<close> of the descriptor, \<open>t\<close> the time the event is stamped with.
\<close>

definition parse_one :: "(int \<Rightarrow> string option) \<Rightarrow> rat \<Rightarrow> 8 word list \<Rightarrow> fan_event" where
  "parse_one link t data =
     (let len0 = le_nat (field_at 0 4 data); version = le_nat (field_at 4 1 data);
          meta = le_nat (field_at 6 2 data); mask = of_nat (le_nat (field_at 8 8 data));
          fd = le_int32 (field_at 16 4 data); pid = le_int32 (field_at 20 4 data);
          bad = len0 < metadata_size \<or> meta < metadata_size;
          short = \<not> bad \<and> length data < len0;
          err1 = (if bad then Some ''INVALID_METADATA_LENGTH'' else if short then Some ''TRUNCATED_EVENT'' else None);
          err2 = (if version \<noteq> 3 then Some ''UNSUPPORTED_METADATA_VERSION'' else err1);
          path = (if 0 \<le> fd then link fd else None);
          err = (if 0 \<le> fd \<and> path = None
                 then (case err2 of None \<Rightarrow> Some ''EVENT_PATH_UNAVAILABLE'' | Some e \<Rightarrow> Some e) else err2)
      in \<lparr>fe_fd = fd, fe_pid = pid, fe_path = path, fe_mask = mask,
          fe_event_len = (if bad then metadata_size else if short then length data else len0),
          fe_metadata_len = meta, fe_version = version, fe_received = t, fe_parse_error = err\<rparr>)"

function parse_events :: "(int \<Rightarrow> string option) \<Rightarrow> (nat \<Rightarrow> rat) \<Rightarrow> nat \<Rightarrow> 8 word list \<Rightarrow> fan_event list" where
  "parse_events link clock k data =
     (if length data < metadata_size then []
      else let ev = parse_one link (clock k) data in
        ev # (if fe_event_len ev = 0 then []
              else parse_events link clock (Suc k) (drop (fe_event_len ev) data)))"
  by pat_completeness auto

termination
  by (relation "measure (\<lambda>(link, clock, k, data). length data)") (auto simp: metadata_size_def)

declare parse_events.simps [simp del]

section \<open>Process ancestry and file kind\<close>

fun descendant_walk :: "(int \<Rightarrow> int option) \<Rightarrow> int \<Rightarrow> nat \<Rightarrow> int set \<Rightarrow> int \<Rightarrow> bool" where
  "descendant_walk parent ancestor 0 seen current = False"
| "descendant_walk parent ancestor (Suc n) seen current =
     (if current = ancestor then True
      else if current \<le> 1 \<or> current \<in> seen then False
      else (case parent current of None \<Rightarrow> False
            | Some q \<Rightarrow> descendant_walk parent ancestor n (insert current seen) q))"

definition is_process_or_descendant :: "(int \<Rightarrow> int option) \<Rightarrow> int \<Rightarrow> int \<Rightarrow> bool" where
  "is_process_or_descendant parent pid ancestor = descendant_walk parent ancestor 64 {} pid"

definition classify_open_file :: "string option \<Rightarrow> string" where
  "classify_open_file head = (case head of
      None \<Rightarrow> ''UNREADABLE''
    | Some bytes \<Rightarrow> if starts_with bytes (CHR 0x7F # ''ELF'') then ''ELF''
        else if starts_with bytes ''#!'' then ''SCRIPT'' else ''OTHER'')"

section \<open>Controller\<close>

record fan_env =
  xe_cwd :: string
  xe_daemon_pid :: int
  xe_parent :: "int \<Rightarrow> int option"
  xe_head :: "int \<Rightarrow> string option"
  xe_fstat :: "int \<Rightarrow> (bool \<times> int) option"
  xe_before :: rat
  xe_after :: rat
  xe_end :: rat
  xe_analyze :: "int \<Rightarrow> string \<Rightarrow> rat \<Rightarrow> scoring_error + pydict"
  xe_write :: "nat \<Rightarrow> string + int"
  xe_render :: "pyval \<Rightarrow> string"

record fan_world =
  fw_fd :: int
  fw_responses :: "(int \<times> int) list"
  fw_closed :: "int list"
  fw_writes :: nat
  fw_records :: "pydict list"

type_synonym 'a fan_op = "(fan_world, scoring_error, 'a) eff"

definition close_event_fd :: "int \<Rightarrow> fan_world \<Rightarrow> fan_world" where
  "close_event_fd fd w = (if 0 \<le> fd then w\<lparr>fw_closed := fw_closed w @ [fd]\<rparr> else w)"

text \<open>\<open>respond\<close>: the descriptor is closed on every way out once it is valid and the response is.\<close>

definition respond :: "fan_env \<Rightarrow> int \<Rightarrow> int \<Rightarrow> bool fan_op" where
  "respond env fd response = (\<lambda>w.
     if fd < 0 then (Inr False, w)
     else if response \<noteq> FAN_ALLOW \<and> response \<noteq> FAN_DENY
     then (Inl (ScoringExc (ValueError ''fanotify response must be FAN_ALLOW or FAN_DENY'')), w)
     else if fw_fd w < 0 then (Inr False, close_event_fd fd w)
     else let w1 = close_event_fd fd (w\<lparr>fw_writes := Suc (fw_writes w)\<rparr>) in
       (case xe_write env (fw_writes w) of
          Inl msg \<Rightarrow> (Inl (ScoringExc (OSError msg)), w1)
        | Inr n \<Rightarrow> if n = 8 then (Inr True, w1\<lparr>fw_responses := fw_responses w1 @ [(fd, response)]\<rparr>)
                  else (Inr False, w1)))"

definition base_record :: "fan_env \<Rightarrow> fan_policy \<Rightarrow> fan_event \<Rightarrow> pydict" where
  "base_record env p ev = [
     (''event_type'', PStr ''PRE_EXECUTION_DECISION''), (''pid'', PInt (fe_pid ev)),
     (''path'', py_opt_str (fe_path ev)), (''mask'', PInt (uint (fe_mask ev))),
     (''mode'', PStr (fp_mode p)), (''received_monotonic'', PFloat (Fin (fe_received ev))),
     (''executable_kind'', PStr (if 0 \<le> fe_fd ev then classify_open_file (xe_head env (fe_fd ev)) else ''NONE''))]"

definition failure_decision :: "fan_env \<Rightarrow> fan_policy \<Rightarrow> string option \<Rightarrow> string \<Rightarrow> pydict \<Rightarrow> string \<times> string \<times> pydict" where
  "failure_decision env p path reason analysis =
     (if get_fail_policy (xe_cwd env) p path = ''FAIL_CLOSED'' \<and> is_enforcement_active p
      then (''DENY'', reason @ ''_FAIL_CLOSED'', analysis)
      else (''ALLOW_MONITOR'', reason @ ''_FAIL_OPEN'', analysis))"

definition large_file_analysis :: "fan_policy \<Rightarrow> int \<Rightarrow> pydict" where
  "large_file_analysis p nbytes = [
     (''score'', PInt 0), (''risk_score'', PStr ''0/100''), (''scoring_status'', PStr ''DEGRADED''),
     (''indicators'', PList [PDict [(''rule'', PStr ''LARGE_FILE_DEFERRED_FAIL_OPEN''),
        (''evidence'', PDict [(''file_size'', PInt nbytes), (''limit'', PInt (fp_max_bytes p))])]])]"

text \<open>The part after the analysis has returned.\<close>

definition judge_analysis :: "fan_env \<Rightarrow> fan_policy \<Rightarrow> fan_event \<Rightarrow> pydict \<Rightarrow> string \<times> string \<times> pydict" where
  "judge_analysis env p ev analysis =
     (let err = py_get analysis ''error'';
          dec = py_upper (py_str (xe_render env) (py_get_or analysis ''decision'' (PStr ''ALLOW''))) in
      if xe_after env \<ge> fe_received ev + fp_max_response p
      then failure_decision env p (fe_path ev) ''RESPONSE_DEADLINE_EXCEEDED'' analysis
      else if py_truthy err
      then failure_decision env p (fe_path ev) (''ANALYSIS_'' @ py_upper (py_str (xe_render env) err)) analysis
      else if dec \<notin> {''ALLOW'', ''ALLOW_MONITOR'', ''WARN'', ''DENY''}
      then failure_decision env p (fe_path ev) ''INVALID_ANALYZER_DECISION'' analysis
      else (dec, ''EXPLAINABLE_STATIC_SCORING'', analysis))"

definition evaluate_event :: "fan_env \<Rightarrow> fan_policy \<Rightarrow> fan_event \<Rightarrow> scoring_error + string \<times> string \<times> pydict" where
  "evaluate_event env p ev =
     (case fe_parse_error ev of
        Some err \<Rightarrow> Inr (failure_decision env p (fe_path ev) err [])
      | None \<Rightarrow>
        if fe_pid ev = xe_daemon_pid env \<or>
           fp_exclude_descendants p \<and> is_process_or_descendant (xe_parent env) (fe_pid ev) (xe_daemon_pid env)
        then Inr (''ALLOW'', ''ELYRA_PROCESS_EXCLUDED'', [])
        else if is_excluded_path (xe_cwd env) p (fe_path ev)
        then Inr (''ALLOW'', ''ELYRA_OR_SYSTEM_PATH_EXCLUDED'', [])
        else if \<not> should_monitor (xe_cwd env) p (fe_path ev)
        then Inr (''ALLOW'', ''OUTSIDE_CONFIGURED_MONITORED_PATHS'', [])
        else (case xe_fstat env (fe_fd ev) of
          None \<Rightarrow> Inr (failure_decision env p (fe_path ev) ''EVENT_FSTAT_FAILED'' [])
        | Some (regular, nbytes) \<Rightarrow>
          if \<not> regular then Inr (''ALLOW'', ''NON_REGULAR_EXECUTION_TARGET'', [])
          else if nbytes > fp_max_bytes p
          then Inr (''ALLOW_MONITOR'', ''LARGE_FILE_DEFERRED_FAIL_OPEN'', large_file_analysis p nbytes)
          else let remaining = fe_received ev + fp_max_response p - xe_before env in
          if remaining \<le> 0
          then Inr (failure_decision env p (fe_path ev) ''RESPONSE_DEADLINE_EXCEEDED'' [])
          else res_bind (xe_analyze env (fe_fd ev)
              (case given_path (fe_path ev) of Some s \<Rightarrow> s | None \<Rightarrow> ''/proc/self/fd/'' @ show_int (fe_fd ev))
              remaining)
            (\<lambda>analysis. Inr (judge_analysis env p ev analysis))))"

definition response_for :: "fan_policy \<Rightarrow> string \<Rightarrow> int" where
  "response_for p requested = (if get_final_action p requested = ''DENY'' then FAN_DENY else FAN_ALLOW)"

definition decision_record :: "fan_policy \<Rightarrow> string \<Rightarrow> string \<Rightarrow> pydict \<Rightarrow> pydict \<Rightarrow> pydict" where
  "decision_record p requested reason analysis record = dict_update record [
     (''requested_decision'', PStr requested),
     (''final_action'', PStr (get_final_action p requested)),
     (''kernel_response'', PStr (if response_for p requested = FAN_DENY then ''FAN_DENY'' else ''FAN_ALLOW'')),
     (''reason'', PStr reason),
     (''score'', py_get analysis ''score''), (''risk_score'', py_get analysis ''risk_score''),
     (''indicators'', py_get_or analysis ''indicators'' (PList [])),
     (''analysis_status'', py_get_or analysis ''scoring_status'' (py_get analysis ''scan_status''))]"

definition exception_record :: "scoring_error \<Rightarrow> pydict \<Rightarrow> pydict" where
  "exception_record e record = dict_update record [
     (''requested_decision'', PStr ''ALLOW_MONITOR''), (''final_action'', PStr ''ALLOW''),
     (''kernel_response'', PStr ''FAN_ALLOW''), (''reason'', PStr ''CONTROLLER_EXCEPTION_FAIL_OPEN''),
     (''error_type'', PStr (scoring_error_name e))]"

definition guard_record :: "bool \<Rightarrow> pydict \<Rightarrow> pydict" where
  "guard_record sent record =
     (let r = dict_set ''final_action'' (PStr ''ALLOW'') (dict_set ''kernel_response'' (PStr ''FAN_ALLOW'')
                (dict_set ''response_ok'' (PBool sent) record)) in
      if dict_get r ''reason'' = None then dict_set ''reason'' (PStr ''FINAL_GUARD_FAIL_OPEN'') r else r)"

definition round3 :: "rat \<Rightarrow> rat" where
  "round3 q = of_int (round_half_even (q * 1000)) / 1000"

definition emit_record :: "pydict \<Rightarrow> fan_world \<Rightarrow> fan_world" where
  "emit_record record w = w\<lparr>fw_records := fw_records w @ [record]\<rparr>"

text \<open>
  \<open>_handle_event\<close>. The first component of the result is the exception that leaves the method, if
  any; the \<open>finally\<close> block has run in every case.
\<close>

definition handle_event :: "fan_env \<Rightarrow> fan_policy \<Rightarrow> fan_event \<Rightarrow> unit fan_op" where
  "handle_event env p ev = (\<lambda>w.
     let base = base_record env p ev;
         finish = (\<lambda>record w. emit_record (dict_set ''response_latency_ms''
            (PFloat (Fin (round3 ((xe_end env - fe_received ev) * 1000)))) record) w) in
     case evaluate_event env p ev of
       Inl e \<Rightarrow>
         let record = (if wait_catches e then exception_record e base else base) in
         (case respond env (fe_fd ev) FAN_ALLOW w of (r, w1) \<Rightarrow>
           let sent = (case r of Inr b \<Rightarrow> b | Inl _ \<Rightarrow> False) in
           ((if wait_catches e then Inr () else Inl e), finish (guard_record sent record) w1))
     | Inr (requested, reason, analysis) \<Rightarrow>
         let record = decision_record p requested reason analysis base in
         (case respond env (fe_fd ev) (response_for p requested) w of
            (Inr sent, w1) \<Rightarrow> (Inr (), finish (dict_set ''response_ok'' (PBool sent) record) w1)
          | (Inl e, w1) \<Rightarrow>
              if wait_catches e then (Inr (), finish (exception_record e record) w1)
              else (Inl e, finish record w1)))"

definition respond_saturated :: "fan_env \<Rightarrow> fan_policy \<Rightarrow> fan_event \<Rightarrow> unit fan_op" where
  "respond_saturated env p ev =
     eff_bind (respond env (fe_fd ev) FAN_ALLOW) (\<lambda>sent.
     eff_modify (emit_record (dict_update (base_record env p ev) [
       (''requested_decision'', PStr ''ALLOW_MONITOR''), (''final_action'', PStr ''ALLOW''),
       (''kernel_response'', PStr ''FAN_ALLOW''), (''reason'', PStr ''EVENT_QUEUE_SATURATED_FAIL_OPEN''),
       (''response_ok'', PBool sent)])))"

definition record_overflow :: "fan_env \<Rightarrow> fan_policy \<Rightarrow> fan_event \<Rightarrow> unit fan_op" where
  "record_overflow env p ev = eff_modify (emit_record (dict_update (base_record env p ev) [
     (''requested_decision'', PStr ''UNKNOWN''), (''final_action'', PStr ''DEGRADED''),
     (''kernel_response'', PStr ''NONE''), (''reason'', PStr ''FANOTIFY_QUEUE_OVERFLOW''),
     (''response_ok'', PBool True)]))"

text \<open>
  The body of the reader loop for one event; \<open>pending\<close> is the number of occupied slots. An exception
  of the handler stays in its future; one of \<open>_respond_saturated\<close> leaves the loop.
\<close>

definition dispatch_event :: "fan_env \<Rightarrow> fan_policy \<Rightarrow> nat \<Rightarrow> fan_event \<Rightarrow> unit fan_op" where
  "dispatch_event env p pending ev =
     (if is_overflow ev then record_overflow env p ev
      else if \<not> is_exec_permission ev then eff_modify (close_event_fd (fe_fd ev))
      else if fp_max_pending p \<le> int pending then respond_saturated env p ev
      else (\<lambda>w. (Inr (), snd (handle_event env p ev w))))"

section \<open>Answering an event\<close>

lemma respond_ok:
  assumes "0 \<le> fd" and "0 \<le> fw_fd w" and "xe_write env (fw_writes w) = Inr 8"
    and "r = FAN_ALLOW \<or> r = FAN_DENY"
  shows "respond env fd r w = (Inr True, w\<lparr>fw_writes := Suc (fw_writes w), fw_closed := fw_closed w @ [fd],
    fw_responses := fw_responses w @ [(fd, r)]\<rparr>)"
  using assms by (auto simp: respond_def close_event_fd_def Let_def)

lemma respond_error:
  assumes "0 \<le> fd" and "0 \<le> fw_fd w" and "xe_write env (fw_writes w) = Inl msg"
    and "r = FAN_ALLOW \<or> r = FAN_DENY"
  shows "respond env fd r w = (Inl (ScoringExc (OSError msg)),
    w\<lparr>fw_writes := Suc (fw_writes w), fw_closed := fw_closed w @ [fd]\<rparr>)"
  using assms by (auto simp: respond_def close_event_fd_def Let_def)

lemma response_for_cases: "response_for p d = FAN_ALLOW \<or> response_for p d = FAN_DENY"
  by (simp add: response_for_def)

lemma response_for_deny:
  "response_for p d = FAN_DENY \<longleftrightarrow> fp_mode p \<noteq> ''MONITOR_ONLY'' \<and> py_upper d = ''DENY''"
  by (auto simp: response_for_def get_final_action_def FAN_ALLOW_def FAN_DENY_def)

lemma allow_not_deny [simp]: "FAN_ALLOW \<noteq> FAN_DENY" "FAN_DENY \<noteq> FAN_ALLOW"
  by (simp_all add: FAN_ALLOW_def FAN_DENY_def)

text \<open>What the handler asks the kernel to do.\<close>

definition answer :: "fan_env \<Rightarrow> fan_policy \<Rightarrow> fan_event \<Rightarrow> int" where
  "answer env p ev = (case evaluate_event env p ev of
      Inl _ \<Rightarrow> FAN_ALLOW | Inr (requested, _, _) \<Rightarrow> response_for p requested)"

lemma handle_event_ok:
  assumes "0 \<le> fe_fd ev" and "0 \<le> fw_fd w" and "xe_write env (fw_writes w) = Inr 8"
  shows "\<exists>r record. handle_event env p ev w = (r, w\<lparr>fw_writes := Suc (fw_writes w),
    fw_closed := fw_closed w @ [fe_fd ev], fw_responses := fw_responses w @ [(fe_fd ev, answer env p ev)],
    fw_records := fw_records w @ [record]\<rparr>)"
proof (cases "evaluate_event env p ev")
  case (Inl e)
  then show ?thesis
    by (auto simp: handle_event_def respond_ok [OF assms] Let_def emit_record_def answer_def)
next
  case (Inr t)
  obtain req reason a where t: "t = (req, reason, a)" by (cases t)
  show ?thesis
    using Inr t respond_ok [OF assms response_for_cases]
    by (auto simp: handle_event_def Let_def emit_record_def answer_def)
qed

section \<open>Properties\<close>

text \<open>C19: Every execution-permission event is answered: as long as the kernel accepts the write, one
  response is written for its descriptor, the descriptor is closed once, one record is emitted and
  the reader goes on, whatever the scan raised, however many events are pending. The answer is a
  denial exactly when a slot was free, the evaluation asked for DENY and the policy enforces; in
  monitor-only mode nothing is ever denied.\<close>

theorem permission_event_answered:
  assumes "is_exec_permission ev" and "\<not> is_overflow ev" and "0 \<le> fw_fd w"
    and "xe_write env (fw_writes w) = Inr 8"
  shows "\<exists>resp record w'. dispatch_event env p pending ev w = (Inr (), w') \<and>
    fw_responses w' = fw_responses w @ [(fe_fd ev, resp)] \<and> (resp = FAN_ALLOW \<or> resp = FAN_DENY) \<and>
    fw_closed w' = fw_closed w @ [fe_fd ev] \<and> fw_records w' = fw_records w @ [record] \<and>
    (resp = FAN_DENY \<longleftrightarrow> int pending < fp_max_pending p \<and> fp_mode p \<noteq> ''MONITOR_ONLY'' \<and>
       (\<exists>requested reason analysis. evaluate_event env p ev = Inr (requested, reason, analysis) \<and>
          py_upper requested = ''DENY''))"
proof -
  have fd: "0 \<le> fe_fd ev" using assms(1) by (simp add: is_exec_permission_def)
  show ?thesis
  proof (cases "fp_max_pending p \<le> int pending")
    case True
    then show ?thesis
      using assms respond_ok [OF fd assms(3,4), of FAN_ALLOW]
      by (simp add: dispatch_event_def respond_saturated_def eff_bind_def emit_record_def)
  next
    case False
    have ans: "answer env p ev = FAN_ALLOW \<or> answer env p ev = FAN_DENY"
      using response_for_cases by (auto simp: answer_def split: sum.split prod.split)
    have deny: "answer env p ev = FAN_DENY \<longleftrightarrow> fp_mode p \<noteq> ''MONITOR_ONLY'' \<and>
       (\<exists>requested reason analysis. evaluate_event env p ev = Inr (requested, reason, analysis) \<and>
          py_upper requested = ''DENY'')"
      by (cases "evaluate_event env p ev") (auto simp: answer_def response_for_deny split: prod.splits)
    show ?thesis
      using handle_event_ok [OF fd assms(3,4), of p] assms(1,2) False ans deny
      by (auto simp: dispatch_event_def)
  qed
qed

definition demo_fan_env :: fan_env where
  "demo_fan_env = \<lparr>xe_cwd = ''/'', xe_daemon_pid = 1, xe_parent = (\<lambda>_. None), xe_head = (\<lambda>_. None),
     xe_fstat = (\<lambda>_. Some (True, 10)), xe_before = 0, xe_after = 1, xe_end = 2,
     xe_analyze = (\<lambda>_ _ _. Inr [(''decision'', PStr ''deny'')]), xe_write = (\<lambda>n. if n = 0 then Inr 8 else Inl ''EBADF''),
     xe_render = (\<lambda>_. '''')\<rparr>"

definition demo_fan_event :: fan_event where
  "demo_fan_event = \<lparr>fe_fd = 9, fe_pid = 77, fe_path = Some ''/tmp/x'', fe_mask = FAN_OPEN_EXEC_PERM,
     fe_event_len = 24, fe_metadata_len = 24, fe_version = 3, fe_received = 0, fe_parse_error = None\<rparr>"

definition demo_world :: "nat \<Rightarrow> fan_world" where
  "demo_world n = \<lparr>fw_fd = 3, fw_responses = [], fw_closed = [], fw_writes = n, fw_records = []\<rparr>"

lemma demo_fan_facts:
  "is_exec_permission demo_fan_event" "\<not> is_overflow demo_fan_event" "0 \<le> fw_fd (demo_world n)"
  "xe_write demo_fan_env (fw_writes (demo_world 0)) = Inr 8"
  "xe_write demo_fan_env (fw_writes (demo_world 1)) = Inl ''EBADF''"
  by (simp_all add: is_exec_permission_def is_overflow_def demo_fan_event_def demo_world_def demo_fan_env_def
      FAN_OPEN_EXEC_PERM_def FAN_Q_OVERFLOW_def)

lemma demo_fan_denies:
  "evaluate_event demo_fan_env (demo_policy ''ENFORCEMENT'') demo_fan_event
     = Inr (''DENY'', ''EXPLAINABLE_STATIC_SCORING'', [(''decision'', PStr ''deny'')])"
  by code_simp

lemma demo_mode: "fp_mode (demo_policy ''ENFORCEMENT'') = ''ENFORCEMENT''"
  "0 < fp_max_pending (demo_policy ''ENFORCEMENT'')"
  by code_simp+

theorem permission_event_answered_witness:
  "\<exists>w'. dispatch_event demo_fan_env (demo_policy ''ENFORCEMENT'') 0 demo_fan_event (demo_world 0) = (Inr (), w') \<and>
     fw_responses w' = [(9, FAN_DENY)] \<and> fw_closed w' = [9]"
proof -
  have "py_upper ''DENY'' = ''DENY''" by code_simp
  then show ?thesis
    using permission_event_answered [OF demo_fan_facts(1,2,3,4), of "demo_policy ''ENFORCEMENT''" 0]
      demo_fan_denies demo_mode
    by (fastforce simp: demo_world_def demo_fan_event_def)
qed

text \<open>C20: When the kernel rejects the write of a denial, no response reaches it, the exception is
  swallowed and the emitted record nevertheless states that the execution was allowed and that
  \<open>FAN_ALLOW\<close> was the kernel response, with no \<open>response_ok\<close> entry. With all slots taken the same
  write error leaves the reader loop as an exception.\<close>

theorem response_write_failure:
  assumes "is_exec_permission ev" and "\<not> is_overflow ev" and "0 \<le> fw_fd w"
    and "xe_write env (fw_writes w) = Inl msg"
    and "evaluate_event env p ev = Inr (requested, reason, analysis)"
  shows "(\<exists>w' record. handle_event env p ev w = (Inr (), w') \<and> fw_responses w' = fw_responses w \<and>
      fw_records w' = fw_records w @ [record] \<and>
      py_get record ''final_action'' = PStr ''ALLOW'' \<and> py_get record ''kernel_response'' = PStr ''FAN_ALLOW'' \<and>
      dict_get record ''response_ok'' = None) \<and>
    (fp_max_pending p \<le> int pending \<longrightarrow>
      (\<exists>w'. dispatch_event env p pending ev w = (Inl (ScoringExc (OSError msg)), w')))"
proof -
  have fd: "0 \<le> fe_fd ev" using assms(1) by (simp add: is_exec_permission_def)
  note err = respond_error [OF fd assms(3,4)]
  have "\<exists>w'. dispatch_event env p pending ev w = (Inl (ScoringExc (OSError msg)), w')"
    if "fp_max_pending p \<le> int pending"
    using that assms err [of FAN_ALLOW]
    by (simp add: dispatch_event_def respond_saturated_def eff_bind_def)
  moreover have "\<exists>w' record. handle_event env p ev w = (Inr (), w') \<and> fw_responses w' = fw_responses w \<and>
      fw_records w' = fw_records w @ [record] \<and>
      py_get record ''final_action'' = PStr ''ALLOW'' \<and> py_get record ''kernel_response'' = PStr ''FAN_ALLOW'' \<and>
      dict_get record ''response_ok'' = None"
    using assms(5) err [OF response_for_cases]
    by (simp add: handle_event_def Let_def emit_record_def wait_catches_def exception_record_def
        dict_update_def py_get_def dict_get_or_def decision_record_def base_record_def)
  ultimately show ?thesis by blast
qed

theorem response_write_failure_witness:
  "\<exists>w' record. handle_event demo_fan_env (demo_policy ''ENFORCEMENT'') demo_fan_event (demo_world 1) = (Inr (), w') \<and>
     fw_responses w' = [] \<and> fw_records w' = [record] \<and>
     py_get record ''kernel_response'' = PStr ''FAN_ALLOW''"
  using response_write_failure [OF demo_fan_facts(1,2,3,5) demo_fan_denies, of 0]
  by (fastforce simp: demo_world_def)

lemma failure_decision_deny:
  "failure_decision env p path reason a = (''DENY'', r, b) \<Longrightarrow>
   get_fail_policy (xe_cwd env) p path = ''FAIL_CLOSED'' \<and> is_enforcement_active p \<and> r = reason @ ''_FAIL_CLOSED''"
  by (auto simp: failure_decision_def split: if_splits)

lemma judge_deny:
  assumes "judge_analysis env p ev a = (''DENY'', r, b)"
  shows "get_fail_policy (xe_cwd env) p (fe_path ev) = ''FAIL_CLOSED'' \<and> is_enforcement_active p \<or>
    b = a \<and> \<not> py_truthy (py_get a ''error'') \<and> xe_after env < fe_received ev + fp_max_response p \<and>
    py_upper (py_str (xe_render env) (py_get_or a ''decision'' (PStr ''ALLOW''))) = ''DENY''"
  using assms by (auto simp: judge_analysis_def Let_def not_le dest: failure_decision_deny split: if_splits)

text \<open>C21: A denial has one of two causes: the analyser, asked about a monitored and not excluded regular
  file within the size limit, returned DENY without an error before the response deadline; or the
  path is configured fail-closed (or the default policy is) and the policy enforces.\<close>

theorem denial_has_cause:
  assumes "evaluate_event env p ev = Inr (''DENY'', reason, analysis)"
  shows "get_fail_policy (xe_cwd env) p (fe_path ev) = ''FAIL_CLOSED'' \<and> is_enforcement_active p \<or>
    should_monitor (xe_cwd env) p (fe_path ev) \<and> fe_parse_error ev = None \<and>
    (\<exists>nbytes path t. xe_fstat env (fe_fd ev) = Some (True, nbytes) \<and> nbytes \<le> fp_max_bytes p \<and>
       xe_analyze env (fe_fd ev) path t = Inr analysis) \<and>
    \<not> py_truthy (py_get analysis ''error'') \<and> xe_after env < fe_received ev + fp_max_response p \<and>
    py_upper (py_str (xe_render env) (py_get_or analysis ''decision'' (PStr ''ALLOW''))) = ''DENY''"
proof (cases "get_fail_policy (xe_cwd env) p (fe_path ev) = ''FAIL_CLOSED'' \<and> is_enforcement_active p")
  case False
  then have nf: "failure_decision env p (fe_path ev) r a \<noteq> (''DENY'', x, b)" for r a x b
    using failure_decision_deny by blast
  have pe: "fe_parse_error ev = None"
    using assms nf by (auto simp: evaluate_event_def split: option.splits)
  obtain regular nbytes where st: "xe_fstat env (fe_fd ev) = Some (regular, nbytes)"
    using assms pe nf by (cases "xe_fstat env (fe_fd ev)") (auto simp: evaluate_event_def split: if_splits)
  note run = assms [unfolded evaluate_event_def pe st option.case prod.case Let_def]
  have mon: "should_monitor (xe_cwd env) p (fe_path ev)" "regular" "\<not> nbytes > fp_max_bytes p"
    "\<not> fe_received ev + fp_max_response p - xe_before env \<le> 0"
    using run nf by (auto split: if_splits)
  then obtain path t a where a: "xe_analyze env (fe_fd ev) path t = Inr a"
      "judge_analysis env p ev a = (''DENY'', reason, analysis)"
    using run by (auto simp: res_bind_eq_Inr split: if_splits)
  show ?thesis using judge_deny [OF a(2)] False st pe mon a(1) by (auto simp: not_less)
qed simp

theorem denial_has_cause_witness:
  "evaluate_event demo_fan_env (demo_policy ''ENFORCEMENT'') demo_fan_event
     = Inr (''DENY'', ''EXPLAINABLE_STATIC_SCORING'', [(''decision'', PStr ''deny'')]) \<and>
   should_monitor (xe_cwd demo_fan_env) (demo_policy ''ENFORCEMENT'') (fe_path demo_fan_event)"
proof -
  have "get_fail_policy (xe_cwd demo_fan_env) (demo_policy ''ENFORCEMENT'') (fe_path demo_fan_event) \<noteq> ''FAIL_CLOSED''"
    by code_simp
  then show ?thesis using denial_has_cause [OF demo_fan_denies] demo_fan_denies by blast
qed

text \<open>A scan that stayed partial is let through even where the path is configured fail-closed: the
  analysis record carries no error, so the controller never consults the fail policy for it and
  reports an ordinary scoring decision.\<close>

theorem partial_scan_bypasses_fail_closed:
  assumes "score_scan_record render sp scan = Inr analysis" and "scan_status scan = ''PARTIAL''"
    and "xe_after env < fe_received ev + fp_max_response p"
  shows "judge_analysis env p ev analysis = (''ALLOW_MONITOR'', ''EXPLAINABLE_STATIC_SCORING'', analysis)"
proof -
  have rec: "py_get analysis ''decision'' = PStr ''ALLOW_MONITOR''" "py_get analysis ''error'' = PNone"
    using record_decision [OF assms(1)] assms(2) by auto
  have "py_get_or analysis ''decision'' (PStr ''ALLOW'') = PStr ''ALLOW_MONITOR''"
    using rec(1) by (auto simp: py_get_def dict_get_or_def split: option.splits)
  moreover have "py_upper ''ALLOW_MONITOR'' = ''ALLOW_MONITOR''" by code_simp
  ultimately show ?thesis using rec(2) assms(3) by (simp add: judge_analysis_def Let_def)
qed

definition partial_scan :: static_scan where
  "partial_scan = (new_scan ''/home/u/locked/x'')\<lparr>scan_status := ''PARTIAL''\<rparr>"

theorem partial_scan_bypasses_fail_closed_witness:
  "get_fail_policy ''/'' (demo_policy ''ENFORCEMENT'') (Some ''/home/u/locked/x'') = ''FAIL_CLOSED'' \<and>
   (\<exists>a. score_scan_record (\<lambda>_. '''') default_scoring_policy partial_scan = Inr a \<and>
     fst (judge_analysis demo_fan_env (demo_policy ''ENFORCEMENT'')
       (demo_fan_event\<lparr>fe_path := Some ''/home/u/locked/x''\<rparr>) a) = ''ALLOW_MONITOR'')"
proof -
  have "get_fail_policy ''/'' (demo_policy ''ENFORCEMENT'') (Some ''/home/u/locked/x'') = ''FAIL_CLOSED''"
    by code_simp
  moreover have "xe_after demo_fan_env < fe_received (demo_fan_event\<lparr>fe_path := Some ''/home/u/locked/x''\<rparr>)
      + fp_max_response (demo_policy ''ENFORCEMENT'')" by code_simp
  moreover have "(case score_scan default_scoring_policy partial_scan of Inl _ \<Rightarrow> False
      | Inr r \<Rightarrow> is_ok (py_float (PInt (sr_score r))))" by code_simp
  then obtain a where "score_scan_record (\<lambda>_. '''') default_scoring_policy partial_scan = Inr a"
    using score_scan_record_total by (auto split: sum.splits) metis
  moreover have "scan_status partial_scan = ''PARTIAL''" by (simp add: partial_scan_def)
  ultimately show ?thesis using partial_scan_bypasses_fail_closed by (metis fst_conv)
qed

section \<open>The event buffer round trip\<close>

text \<open>The buffer the kernel writes for a sequence of plain events.\<close>

definition encode_fan_event :: "64 word \<times> int \<times> int \<Rightarrow> 8 word list" where
  "encode_fan_event e = (case e of (msk, fd, pid) \<Rightarrow>
     to_le 4 24 @ [3, 0] @ to_le 2 24 @ to_le 8 (unat msk) @
     to_le 4 (nat (fd mod 4294967296)) @ to_le 4 (nat (pid mod 4294967296)))"

definition int32_ok :: "int \<Rightarrow> bool" where
  "int32_ok i = (- 2147483648 \<le> i \<and> i < 2147483648)"

lemma le_int32_encode: "int32_ok i \<Longrightarrow> le_int32 (to_le 4 (nat (i mod 4294967296))) = i"
proof -
  assume i: "int32_ok i"
  have "nat (i mod 4294967296) < 256 ^ 4" by (simp add: nat_less_iff)
  then have "le_nat (to_le 4 (nat (i mod 4294967296))) = nat (i mod 4294967296)" by (rule le_nat_to_le)
  moreover have "i mod 4294967296 = (if 0 \<le> i then i else i + 4294967296)"
  proof (cases "0 \<le> i")
    case True
    then show ?thesis using i by (simp add: int32_ok_def)
  next
    case False
    then have "(i + 4294967296) mod 4294967296 = i + 4294967296"
      using i by (intro mod_pos_pos_trivial) (auto simp: int32_ok_def)
    then show ?thesis using False by simp
  qed
  ultimately show ?thesis using i by (auto simp: le_int32_def Let_def int32_ok_def)
qed

lemma parse_one_encode:
  assumes "int32_ok fd" and "int32_ok pid"
  shows "parse_one link t (encode_fan_event (msk, fd, pid) @ rest) =
    \<lparr>fe_fd = fd, fe_pid = pid, fe_path = (if 0 \<le> fd then link fd else None), fe_mask = msk,
     fe_event_len = 24, fe_metadata_len = 24, fe_version = 3, fe_received = t,
     fe_parse_error = (if 0 \<le> fd \<and> link fd = None then Some ''EVENT_PATH_UNAVAILABLE'' else None)\<rparr>"
proof -
  let ?d = "encode_fan_event (msk, fd, pid) @ rest"
  let ?m = "to_le 8 (unat msk)" and ?f = "to_le 4 (nat (fd mod 4294967296))" and ?p = "to_le 4 (nat (pid mod 4294967296))"
  have d: "?d = to_le 4 24 @ [3, 0] @ to_le 2 24 @ ?m @ ?f @ ?p @ rest" by (simp add: encode_fan_event_def)
  have f: "field_at 0 4 ?d = to_le 4 24" "field_at 4 1 ?d = [3]" "field_at 6 2 ?d = to_le 2 24"
    "field_at 8 8 ?d = ?m" "field_at 16 4 ?d = ?f" "field_at 20 4 ?d = ?p"
    by (rule field_at_parts [of _ "[]" _ "[3, 0] @ to_le 2 24 @ ?m @ ?f @ ?p @ rest"], simp_all add: d)
      (rule field_at_parts [of _ "to_le 4 24" _ "[0] @ to_le 2 24 @ ?m @ ?f @ ?p @ rest"], simp_all add: d,
       rule field_at_parts [of _ "to_le 4 24 @ [3, 0]" _ "?m @ ?f @ ?p @ rest"], simp_all add: d,
       rule field_at_parts [of _ "to_le 4 24 @ [3, 0] @ to_le 2 24" _ "?f @ ?p @ rest"], simp_all add: d,
       rule field_at_parts [of _ "to_le 4 24 @ [3, 0] @ to_le 2 24 @ ?m" _ "?p @ rest"], simp_all add: d,
       rule field_at_parts [of _ "to_le 4 24 @ [3, 0] @ to_le 2 24 @ ?m @ ?f" _ "rest"], simp_all add: d)
  have len: "24 \<le> length ?d" by (simp add: encode_fan_event_def)
  have n: "le_nat (to_le 4 24) = 24" "le_nat (to_le 2 24) = 24" "le_nat [3] = 3" "le_nat ?m = unat msk"
    using le_nat_to_le [of 24 4] le_nat_to_le [of 24 2] le_nat_to_le [of "unat msk" 8] unsigned_less [of msk]
    by (simp_all del: to_le.simps)
  show ?thesis
    unfolding parse_one_def f n le_int32_encode [OF assms(1)] le_int32_encode [OF assms(2)]
    using len by (simp add: metadata_size_def Let_def)
qed

lemma length_encode: "length (encode_fan_event e) = 24"
  by (cases e) (simp add: encode_fan_event_def)

text \<open>C22: Parsing inverts the kernel's layout: from the buffer of any sequence of events the parser
  recovers mask, descriptor and process of each, in order, with no parse error as long as the
  descriptors resolve; the reading time of the n-th event is the n-th clock reading. The loop ends
  on every buffer.\<close>

theorem parse_events_round_trip:
  assumes "\<forall>(m, fd, pid) \<in> set evs. int32_ok fd \<and> int32_ok pid \<and> 0 \<le> fd \<and> link fd \<noteq> None"
  shows "map (\<lambda>ev. (fe_mask ev, fe_fd ev, fe_pid ev, fe_parse_error ev))
      (parse_events link clock k (concat (map encode_fan_event evs)))
    = map (\<lambda>(m, fd, pid). (m, fd, pid, None)) evs"
  using assms
proof (induction evs arbitrary: k)
  case Nil
  then show ?case by (simp add: parse_events.simps metadata_size_def)
next
  case (Cons e evs)
  obtain m fd pid where e: "e = (m, fd, pid)" by (cases e)
  let ?rest = "concat (map encode_fan_event evs)"
  have one: "parse_one link (clock k) (encode_fan_event e @ ?rest) =
    \<lparr>fe_fd = fd, fe_pid = pid, fe_path = link fd, fe_mask = m,
     fe_event_len = 24, fe_metadata_len = 24, fe_version = 3, fe_received = clock k, fe_parse_error = None\<rparr>"
    using Cons.prems parse_one_encode [of fd pid link "clock k" m ?rest] by (auto simp: e)
  have "drop 24 (encode_fan_event e @ ?rest) = ?rest" by (simp add: length_encode)
  then have "parse_events link clock k (encode_fan_event e @ ?rest) =
      parse_one link (clock k) (encode_fan_event e @ ?rest) # parse_events link clock (Suc k) ?rest"
    by (subst parse_events.simps) (simp add: length_encode metadata_size_def one Let_def)
  then show ?case using Cons.IH [of "Suc k"] Cons.prems one by (simp add: e)
qed

theorem parse_events_round_trip_witness:
  "map (\<lambda>ev. (fe_mask ev, fe_fd ev, fe_pid ev, fe_parse_error ev))
     (parse_events (\<lambda>_. Some ''/tmp/x'') (\<lambda>_. 0) 0
       (concat (map encode_fan_event [(FAN_OPEN_EXEC_PERM, 9, 77), (FAN_OPEN_EXEC_PERM, 10, 78)])))
   = [(FAN_OPEN_EXEC_PERM, 9, 77, None), (FAN_OPEN_EXEC_PERM, 10, 78, None)]"
  using parse_events_round_trip [of "[(FAN_OPEN_EXEC_PERM, 9, 77), (FAN_OPEN_EXEC_PERM, 10, 78)]"
      "\<lambda>_. Some ''/tmp/x''" "\<lambda>_. 0" 0]
  by (simp add: int32_ok_def)

end
