(* ===== verification/Py_Uuid.thy ===== *)
theory Py_Uuid
  imports Py_Values
begin

text \<open>
  Reading and printing of identifiers by the standard \<open>uuid\<close> module, as the protocol and the
  quarantine store use it: \<open>uuid.UUID(text)\<close> is liberal in what it reads, \<open>str\<close> prints the
  canonical form, and the callers compare the two.
\<close>

section \<open>Reading\<close>

text \<open>\<open>s.replace(sub, "")\<close> for a non-empty \<open>sub\<close>; the counter skips the rest of a match.\<close>

fun remove_sub :: "string \<Rightarrow> nat \<Rightarrow> string \<Rightarrow> string" where
  "remove_sub sub k [] = []"
| "remove_sub sub (Suc k) (c # cs) = remove_sub sub k cs"
| "remove_sub sub 0 (c # cs) =
     (if prefix sub (c # cs) then remove_sub sub (length sub - 1) cs else c # remove_sub sub 0 cs)"

text \<open>\<open>s.strip(chars)\<close>.\<close>

definition strip_chars :: "string \<Rightarrow> string \<Rightarrow> string" where
  "strip_chars chars s = rev (dropWhile (\<lambda>c. c \<in> set chars) (rev (dropWhile (\<lambda>c. c \<in> set chars) s)))"

definition hex_value :: "char \<Rightarrow> nat option" where
  "hex_value c = (let n = char_code c in
     if 48 \<le> n \<and> n \<le> 57 then Some (n - 48)
     else if 97 \<le> n \<and> n \<le> 102 then Some (n - 87)
     else if 65 \<le> n \<and> n \<le> 70 then Some (n - 55)
     else None)"

fun parse_hex :: "nat \<Rightarrow> bool \<Rightarrow> string \<Rightarrow> nat option" where
  "parse_hex acc d [] = (if d then Some acc else None)"
| "parse_hex acc d (c # cs) = (case hex_value c of
      Some v \<Rightarrow> parse_hex (16 * acc + v) True cs
    | None \<Rightarrow> if c = CHR ''_'' \<and> d then parse_hex acc False cs else None)"

text \<open>\<open>int(text, 16)\<close>: blanks, a sign, an optional prefix with one underscore after it.\<close>

definition int16_of_text :: "string \<Rightarrow> int option" where
  "int16_of_text s = (case take_sign (py_strip s) of (neg, ds) \<Rightarrow>
     let body = (if starts_with ds ''0x'' \<or> starts_with ds ''0X''
       then (case drop 2 ds of [] \<Rightarrow> [] | c # cs \<Rightarrow> if c = CHR ''_'' then cs else c # cs) else ds)
     in map_option (\<lambda>n. if neg then - int n else int n) (parse_hex 0 False body))"

definition uuid_of :: "string \<Rightarrow> nat option" where
  "uuid_of s = (let h = remove_sub ''-'' 0 (strip_chars ''{}''
       (remove_sub ''uuid:'' 0 (remove_sub ''urn:'' 0 s))) in
     if length h \<noteq> 32 then None
     else (case int16_of_text h of
         None \<Rightarrow> None
       | Some i \<Rightarrow> if 0 \<le> i \<and> i < 2 ^ 128 then Some (nat i) else None))"

section \<open>Printing\<close>

definition hex_char :: "nat \<Rightarrow> char" where
  "hex_char d = char_of (if d < 10 then 48 + d else 87 + d)"

fun hex_digits :: "nat \<Rightarrow> nat \<Rightarrow> string" where
  "hex_digits 0 n = []"
| "hex_digits (Suc w) n = hex_digits w (n div 16) @ [hex_char (n mod 16)]"

definition uuid_text :: "nat \<Rightarrow> string" where
  "uuid_text n = (let h = hex_digits 32 n in
     take 8 h @ ''-'' @ take 4 (drop 8 h) @ ''-'' @ take 4 (drop 12 h) @ ''-'' @
     take 4 (drop 16 h) @ ''-'' @ drop 20 h)"

section \<open>Printed identifiers read back\<close>

definition id_char :: "char \<Rightarrow> bool" where
  "id_char c = (c = CHR ''-'' \<or> is_digit c \<or> 97 \<le> char_code c \<and> char_code c \<le> 102)"

lemma hex_value_hex_char: "d < 16 \<Longrightarrow> hex_value (hex_char d) = Some d"
  by (auto simp: hex_value_def hex_char_def Let_def)

lemma length_hex_digits [simp]: "length (hex_digits w n) = w"
  by (induction w arbitrary: n) auto

lemma hex_char_id: "d < 16 \<Longrightarrow> id_char (hex_char d) \<and> hex_char d \<noteq> CHR ''-''"
  by (auto simp: id_char_def hex_char_def is_digit_def char_code_def of_char_of dest!: arg_cong [of _ _ "of_char :: char \<Rightarrow> nat"])

lemma hex_digits_chars: "c \<in> set (hex_digits w n) \<Longrightarrow> id_char c \<and> c \<noteq> CHR ''-''"
  by (induction w arbitrary: n) (auto simp: hex_char_id)

lemma parse_hex_append:
  "parse_hex acc d s = Some n \<Longrightarrow> hex_value c = Some v \<Longrightarrow> parse_hex acc d (s @ [c]) = Some (16 * n + v)"
  by (induction acc d s rule: parse_hex.induct) (auto split: option.splits if_splits)

lemma parse_hex_digits:
  "w \<noteq> 0 \<Longrightarrow> n < 16 ^ w \<Longrightarrow> parse_hex 0 False (hex_digits w n) = Some n"
proof (induction w arbitrary: n)
  case (Suc w)
  show ?case
  proof (cases "w = 0")
    case True
    then show ?thesis using Suc.prems by (simp add: hex_value_hex_char)
  next
    case False
    then have "parse_hex 0 False (hex_digits w (n div 16)) = Some (n div 16)"
      using Suc.prems by (intro Suc.IH) (auto simp: less_mult_imp_div_less mult.commute)
    then show ?thesis by (simp add: parse_hex_append hex_value_hex_char)
  qed
qed simp

lemma remove_sub_absent: "c \<notin> set s \<Longrightarrow> remove_sub (c # cs) 0 s = s"
  by (induction s) auto

lemma remove_sub_dash: "remove_sub ''-'' 0 s = filter (\<lambda>c. c \<noteq> CHR ''-'') s"
  by (induction s) auto

lemma uuid_text_chars: "c \<in> set (uuid_text n) \<Longrightarrow> id_char c"
  using hex_digits_chars [of c 32 n]
  by (auto simp: uuid_text_def Let_def id_char_def dest: in_set_takeD in_set_dropD)

lemma uuid_text_length: "length (uuid_text n) = 36"
  by (simp add: uuid_text_def Let_def)

lemma id_char_plain: "id_char c \<Longrightarrow> c \<noteq> CHR ''/'' \<and> c \<noteq> CHR ''.'' \<and> c \<noteq> CHR ''u'' \<and> c \<noteq> CHR ''{'' \<and> c \<noteq> CHR ''}'' \<and>
    c \<noteq> CHR ''x'' \<and> c \<noteq> CHR ''X'' \<and> \<not> is_space c"
  by (auto simp: id_char_def is_digit_def is_space_def char_code_def Let_def)

lemma drop_split: "drop a h = take k (drop a h) @ drop (a + k) h"
  by (metis add.commute append_take_drop_id drop_drop)

lemma uuid_text_hex: "filter (\<lambda>c. c \<noteq> CHR ''-'') (uuid_text n) = hex_digits 32 n"
proof -
  let ?h = "hex_digits 32 n"
  have keep: "filter (\<lambda>c. c \<noteq> CHR ''-'') s = s" if "set s \<subseteq> set ?h" for s
    using that hex_digits_chars by (intro filter_True) blast
  have "?h = take 8 ?h @ take 4 (drop 8 ?h) @ take 4 (drop 12 ?h) @ take 4 (drop 16 ?h) @ drop 20 ?h"
    using drop_split [of 0 ?h 8] drop_split [of 8 ?h 4] drop_split [of 12 ?h 4] drop_split [of 16 ?h 4] by simp
  moreover have "filter (\<lambda>c. c \<noteq> CHR ''-'') (uuid_text n) =
      take 8 ?h @ take 4 (drop 8 ?h) @ take 4 (drop 12 ?h) @ take 4 (drop 16 ?h) @ drop 20 ?h"
    unfolding uuid_text_def Let_def filter_append
    by (subst keep keep keep keep keep; (auto dest: in_set_takeD in_set_dropD)?)+
  ultimately show ?thesis by simp
qed

lemma strip_chars_id: "s \<noteq> [] \<Longrightarrow> hd s \<notin> set cs \<Longrightarrow> last s \<notin> set cs \<Longrightarrow> strip_chars cs s = s"
  by (simp add: strip_chars_def dropWhile_eq_self_iff [THEN iffD2] hd_rev)

lemma int16_hex_digits:
  assumes "n < 2 ^ 128"
  shows "int16_of_text (hex_digits 32 n) = Some (int n)"
proof -
  let ?h = "hex_digits 32 n"
  have ne: "?h \<noteq> []" using length_hex_digits [of 32 n] by force
  have chars: "id_char c \<and> c \<noteq> CHR ''-''" if "c \<in> set ?h" for c using that by (rule hex_digits_chars)
  have "py_strip ?h = ?h"
    using ne chars [OF hd_in_set [OF ne]] chars [OF last_in_set [OF ne]] by (intro py_strip_id) (simp_all add: id_char_plain)
  moreover have "take_sign ?h = (False, ?h)"
    using ne chars [of "hd ?h"] by (cases ?h) (auto simp: take_sign_def id_char_def is_digit_def char_code_def)
  moreover have "\<not> starts_with ?h ''0x''" "\<not> starts_with ?h ''0X''"
    using chars id_char_plain by (auto simp: prefix_def) (metis append_Cons list.set_intros(1,2))+
  moreover have "parse_hex 0 False ?h = Some n" using assms by (intro parse_hex_digits) (auto simp: power_mult [symmetric])
  ultimately show ?thesis by (simp add: int16_of_text_def)
qed

lemma uuid_of_text:
  assumes "n < 2 ^ 128"
  shows "uuid_of (uuid_text n) = Some n"
proof -
  let ?t = "uuid_text n"
  have ne: "?t \<noteq> []" using uuid_text_length [of n] by force
  have ok: "c \<notin> set ?t" if "c \<in> set ''u{}''" for c
    using that uuid_text_chars [of c n] id_char_plain [of c] by auto
  have "remove_sub ''urn:'' 0 ?t = ?t" "remove_sub ''uuid:'' 0 ?t = ?t"
    by (rule remove_sub_absent, rule ok, simp)+
  moreover have "strip_chars ''{}'' ?t = ?t"
  proof (rule strip_chars_id [OF ne])
    show "hd ?t \<notin> set ''{}''" using ok hd_in_set [OF ne] by fastforce
    show "last ?t \<notin> set ''{}''" using ok last_in_set [OF ne] by fastforce
  qed
  moreover have "remove_sub ''-'' 0 ?t = hex_digits 32 n" by (simp add: remove_sub_dash uuid_text_hex)
  ultimately show ?thesis using assms by (simp add: uuid_of_def Let_def int16_hex_digits)
qed

lemma uuid_of_bound: "uuid_of s = Some n \<Longrightarrow> n < 2 ^ 128"
  by (auto simp: uuid_of_def Let_def nat_less_iff split: if_splits option.splits)

end
