(* ===== verification/Py_Json.thy ===== *)
theory Py_Json
  imports Py_Uuid
begin

text \<open>
  The \<open>json\<close> module as the engine uses it: \<open>dumps\<close> with \<open>ensure_ascii=False\<close>, chosen separators,
  optional indentation and key sorting, and \<open>allow_nan\<close>, and \<open>loads\<close> on UTF-8 bytes. Texts are UTF-8 byte lists, so
  encoding is the identity and decoding a validity check; a lone surrogate escape reads as its
  three-byte pattern.

  The shortest decimal of a float, printed by the interpreter's C code, is an argument. The nesting
  limit of the interpreter is an argument of the reader. The main result is that a printed value
  reads back as itself.
\<close>

section \<open>Printing\<close>

definition hex4 :: "nat \<Rightarrow> string" where
  "hex4 n = map hex_char [n div 4096 mod 16, n div 256 mod 16, n div 16 mod 16, n mod 16]"

definition json_escape :: "char \<Rightarrow> string" where
  "json_escape c =
     (if c = CHR 0x22 then [CHR 0x5C, CHR 0x22]
      else if c = CHR 0x5C then [CHR 0x5C, CHR 0x5C]
      else if c = CHR 0x0A then [CHR 0x5C, CHR ''n'']
      else if c = CHR 0x0D then [CHR 0x5C, CHR ''r'']
      else if c = CHR 0x09 then [CHR 0x5C, CHR ''t'']
      else if c = CHR 0x0C then [CHR 0x5C, CHR ''f'']
      else if c = CHR 0x08 then [CHR 0x5C, CHR ''b'']
      else if char_code c < 32 then [CHR 0x5C, CHR ''u''] @ hex4 (char_code c)
      else [c])"

definition json_text :: "string \<Rightarrow> string" where
  "json_text s = [CHR 0x22] @ concat (map json_escape s) @ [CHR 0x22]"

record json_style =
  js_item :: string
  js_key :: string
  js_indent :: "nat option"
  js_nan :: bool
  js_float :: "rat \<Rightarrow> string"

definition json_float :: "json_style \<Rightarrow> pyfloat \<Rightarrow> pyexc + string" where
  "json_float st f = (case f of Fin q \<Rightarrow> Inr (js_float st q)
     | PosInf \<Rightarrow> if js_nan st then Inr ''Infinity'' else Inl (ValueError ''Out of range float values'')
     | NegInf \<Rightarrow> if js_nan st then Inr ''-Infinity'' else Inl (ValueError ''Out of range float values'')
     | NaN \<Rightarrow> if js_nan st then Inr ''NaN'' else Inl (ValueError ''Out of range float values''))"

lemma map_res_cong [fundef_cong]:
  "xs = ys \<Longrightarrow> (\<And>x. x \<in> set ys \<Longrightarrow> f x = g x) \<Longrightarrow> map_res f xs = map_res g ys"
  by (induction ys arbitrary: xs) auto

text \<open>The line break before an item at a nesting level, when an indentation is given.\<close>

definition line_break :: "json_style \<Rightarrow> nat \<Rightarrow> string" where
  "line_break st n = (case js_indent st of None \<Rightarrow> [] | Some w \<Rightarrow> CHR 0x0A # replicate (w * n) (CHR '' ''))"

definition enclose :: "json_style \<Rightarrow> nat \<Rightarrow> char \<Rightarrow> char \<Rightarrow> string list \<Rightarrow> string" where
  "enclose st n left right ts =
     (if ts = [] then [left, right]
      else [left] @ line_break st (Suc n) @ join_with (js_item st @ line_break st (Suc n)) ts @ line_break st n @ [right])"

text \<open>The value at a nesting level. An integer of more than 4300 digits does not convert to text.\<close>

fun dumps_at :: "json_style \<Rightarrow> nat \<Rightarrow> pyval \<Rightarrow> pyexc + string" where
  "dumps_at st n PNone = Inr ''null''"
| "dumps_at st n (PBool b) = Inr (if b then ''true'' else ''false'')"
| "dumps_at st n (PInt i) = (if length (show_nat (nat \<bar>i\<bar>)) \<le> 4300 then Inr (show_int i)
     else Inl (ValueError ''Exceeds the limit for integer string conversion''))"
| "dumps_at st n (PFloat f) = json_float st f"
| "dumps_at st n (PStr s) = Inr (json_text s)"
| "dumps_at st n (PList xs) = res_bind (map_res (dumps_at st (Suc n)) xs) (\<lambda>ts.
     Inr (enclose st n (CHR ''['') (CHR '']'') ts))"
| "dumps_at st n (PDict d) = res_bind (map_res (\<lambda>kv. res_bind (dumps_at st (Suc n) (snd kv)) (\<lambda>t.
       Inr (json_text (fst kv) @ js_key st @ t))) d) (\<lambda>ts.
     Inr (enclose st n (CHR ''{'') (CHR ''}'') ts))"

abbreviation dumps :: "json_style \<Rightarrow> pyval \<Rightarrow> pyexc + string" where
  "dumps st v \<equiv> dumps_at st 0 v"

text \<open>\<open>sort_keys=True\<close> sorts the items of every dictionary.\<close>

fun sort_value :: "pyval \<Rightarrow> pyval" where
  "sort_value (PList xs) = PList (map sort_value xs)"
| "sort_value (PDict d) = PDict (sort_key fst (map (\<lambda>kv. (fst kv, sort_value (snd kv))) d))"
| "sort_value v = v"

definition compact_style :: "(rat \<Rightarrow> string) \<Rightarrow> json_style" where
  "compact_style fr = \<lparr>js_item = '','', js_key = '':'', js_indent = None, js_nan = False, js_float = fr\<rparr>"

definition default_style :: "(rat \<Rightarrow> string) \<Rightarrow> json_style" where
  "default_style fr = \<lparr>js_item = '', '', js_key = '': '', js_indent = None, js_nan = True, js_float = fr\<rparr>"

definition indented_style :: "(rat \<Rightarrow> string) \<Rightarrow> json_style" where
  "indented_style fr = \<lparr>js_item = '','', js_key = '': '', js_indent = Some 2, js_nan = True, js_float = fr\<rparr>"

section \<open>Reading\<close>

datatype json_error = JSONDecodeError | IntTooLong | TooDeep | OutOfFuel

text \<open>Well-formed UTF-8, byte by byte.\<close>

definition cont_byte :: "char \<Rightarrow> bool" where
  "cont_byte c = (128 \<le> char_code c \<and> char_code c < 192)"

fun utf8_valid :: "string \<Rightarrow> bool" where
  "utf8_valid [] = True"
| "utf8_valid (a # s) = (let n = char_code a in
     if n < 128 then utf8_valid s
     else if 194 \<le> n \<and> n \<le> 223 then (case s of b # t \<Rightarrow> cont_byte b \<and> utf8_valid t | _ \<Rightarrow> False)
     else if 224 \<le> n \<and> n \<le> 239 then (case s of b # c # t \<Rightarrow> cont_byte b \<and> cont_byte c \<and>
         (n = 224 \<longrightarrow> 160 \<le> char_code b) \<and> (n = 237 \<longrightarrow> char_code b < 160) \<and> utf8_valid t | _ \<Rightarrow> False)
     else if 240 \<le> n \<and> n \<le> 244 then (case s of b # c # d # t \<Rightarrow> cont_byte b \<and> cont_byte c \<and> cont_byte d \<and>
         (n = 240 \<longrightarrow> 144 \<le> char_code b) \<and> (n = 244 \<longrightarrow> char_code b < 144) \<and> utf8_valid t | _ \<Rightarrow> False)
     else False)"

definition utf8_of :: "nat \<Rightarrow> string" where
  "utf8_of n =
     (if n < 128 then [char_of n]
      else if n < 2048 then [char_of (192 + n div 64), char_of (128 + n mod 64)]
      else if n < 65536 then [char_of (224 + n div 4096), char_of (128 + n div 64 mod 64), char_of (128 + n mod 64)]
      else [char_of (240 + n div 262144), char_of (128 + n div 4096 mod 64), char_of (128 + n div 64 mod 64),
            char_of (128 + n mod 64)])"

definition read_hex4 :: "string \<Rightarrow> (nat \<times> string) option" where
  "read_hex4 s = (case s of
      a # b # c # d # t \<Rightarrow> (case (hex_value a, hex_value b, hex_value c, hex_value d) of
          (Some w, Some x, Some y, Some z) \<Rightarrow> Some (4096 * w + 256 * x + 16 * y + z, t)
        | _ \<Rightarrow> None)
    | _ \<Rightarrow> None)"

definition simple_escape :: "char \<Rightarrow> char option" where
  "simple_escape c = dict_get [(CHR 0x22, CHR 0x22), (CHR 0x5C, CHR 0x5C), (CHR ''/'', CHR ''/''), (CHR ''b'', CHR 0x08),
     (CHR ''f'', CHR 0x0C), (CHR ''n'', CHR 0x0A), (CHR ''r'', CHR 0x0D), (CHR ''t'', CHR 0x09)] c"

text \<open>The code of a unicode escape after \<open>\u\<close>; a high surrogate joins a following low one.\<close>

definition unicode_escape :: "string \<Rightarrow> (string \<times> string) option" where
  "unicode_escape s = (case read_hex4 s of
      None \<Rightarrow> None
    | Some (n, t) \<Rightarrow>
       if 55296 \<le> n \<and> n < 56320 \<and> prefix [CHR 0x5C, CHR ''u''] t
       then (case read_hex4 (drop 2 t) of
           Some (m, u) \<Rightarrow> if 56320 \<le> m \<and> m < 57344
             then Some (utf8_of (65536 + 1024 * (n - 55296) + (m - 56320)), u)
             else Some (utf8_of n, t)
         | None \<Rightarrow> None)
       else Some (utf8_of n, t))"

text \<open>The rest of a string literal after its opening quote.\<close>

lemma read_hex4_length: "read_hex4 s = Some (n, t) \<Longrightarrow> length t < length s"
  by (auto simp: read_hex4_def split: list.splits option.splits)

lemma unicode_escape_length: "unicode_escape s = Some (b, t) \<Longrightarrow> length t < length s"
  by (auto simp: unicode_escape_def split: option.splits if_splits dest!: read_hex4_length)

function read_string :: "string \<Rightarrow> string \<Rightarrow> (string \<times> string) option" where
  "read_string acc [] = None"
| "read_string acc (c # s) =
     (if c = CHR 0x22 then Some (acc, s)
      else if char_code c < 32 then None
      else if c = CHR 0x5C then (case s of
          [] \<Rightarrow> None
        | e # t \<Rightarrow> if e = CHR ''u'' then (case unicode_escape t of
              None \<Rightarrow> None | Some (b, u) \<Rightarrow> read_string (acc @ b) u)
            else (case simple_escape e of None \<Rightarrow> None | Some b \<Rightarrow> read_string (acc @ [b]) t))
      else read_string (acc @ [c]) s)"
  by pat_completeness auto
termination
  by (relation "measure (\<lambda>(_, s). length s)") (auto dest!: unicode_escape_length)

text \<open>Numbers: \<open>-?(0|[1-9]\d*)(\.\d+)?([eE][-+]?\d+)?\<close>; a float when a fraction or an exponent is there.\<close>

definition digits_of :: "string \<Rightarrow> string \<times> string" where
  "digits_of s = (takeWhile is_digit s, dropWhile is_digit s)"

definition lex_int :: "string \<Rightarrow> (string \<times> string) option" where
  "lex_int s = (let (sign, t) = (case s of c # t \<Rightarrow> if c = CHR ''-'' then ([c], t) else ([], s) | [] \<Rightarrow> ([], s)) in
     case t of
       [] \<Rightarrow> None
     | c # u \<Rightarrow> if c = CHR ''0'' then Some (sign @ [c], u)
                else if is_digit c then Some (sign @ fst (digits_of t), snd (digits_of t))
                else None)"

definition lex_frac :: "string \<Rightarrow> string \<times> string" where
  "lex_frac s = (case s of
      c # t \<Rightarrow> if c = CHR ''.'' \<and> fst (digits_of t) \<noteq> [] then (c # fst (digits_of t), snd (digits_of t)) else ([], s)
    | [] \<Rightarrow> ([], s))"

definition lex_exp :: "string \<Rightarrow> string \<times> string" where
  "lex_exp s = (case s of
      c # t \<Rightarrow>
        let (sign, u) = (case t of x # u \<Rightarrow> if x = CHR ''-'' \<or> x = CHR ''+'' then ([x], u) else ([], t) | [] \<Rightarrow> ([], t)) in
        if (c = CHR ''e'' \<or> c = CHR ''E'') \<and> fst (digits_of u) \<noteq> []
        then (c # sign @ fst (digits_of u), snd (digits_of u)) else ([], s)
    | [] \<Rightarrow> ([], s))"

definition read_number :: "string \<Rightarrow> json_error + pyval \<times> string" where
  "read_number s = (case lex_int s of
      None \<Rightarrow> Inl JSONDecodeError
    | Some (i, r1) \<Rightarrow> (case lex_frac r1 of (f, r2) \<Rightarrow> (case lex_exp r2 of (e, r3) \<Rightarrow>
        if f = [] \<and> e = [] then
          (if length (filter is_digit i) > 4300 then Inl IntTooLong
           else (case int_of_text i of None \<Rightarrow> Inl JSONDecodeError | Some n \<Rightarrow> Inr (PInt n, r3)))
        else (case float_of_text (i @ f @ e) of None \<Rightarrow> Inl JSONDecodeError | Some x \<Rightarrow> Inr (PFloat x, r3)))))"

definition skip_ws :: "string \<Rightarrow> string" where
  "skip_ws s = dropWhile (\<lambda>c. c = CHR '' '' \<or> c = CHR 0x09 \<or> c = CHR 0x0A \<or> c = CHR 0x0D) s"

definition read_constant :: "string \<Rightarrow> json_error + pyval \<times> string" where
  "read_constant s =
     (if starts_with s ''null'' then Inr (PNone, drop 4 s)
      else if starts_with s ''true'' then Inr (PBool True, drop 4 s)
      else if starts_with s ''false'' then Inr (PBool False, drop 5 s)
      else if starts_with s ''NaN'' then Inr (PFloat NaN, drop 3 s)
      else if starts_with s ''Infinity'' then Inr (PFloat PosInf, drop 8 s)
      else if starts_with s ''-Infinity'' then Inr (PFloat NegInf, drop 9 s)
      else read_number s)"

text \<open>Values, list items and dictionary members; two units of fuel per character are enough.\<close>

fun read_value :: "nat \<Rightarrow> nat \<Rightarrow> string \<Rightarrow> json_error + pyval \<times> string"
  and read_items :: "nat \<Rightarrow> nat \<Rightarrow> pyval list \<Rightarrow> string \<Rightarrow> json_error + pyval \<times> string"
  and read_members :: "nat \<Rightarrow> nat \<Rightarrow> pydict \<Rightarrow> string \<Rightarrow> json_error + pyval \<times> string" where
  "read_value 0 depth s = Inl OutOfFuel"
| "read_value (Suc fuel) depth s = (case s of
      [] \<Rightarrow> Inl JSONDecodeError
    | c # t \<Rightarrow>
       if c = CHR 0x22 then (case read_string [] t of None \<Rightarrow> Inl JSONDecodeError | Some (x, r) \<Rightarrow> Inr (PStr x, r))
       else if c = CHR ''{'' then
         (if depth = 0 then Inl TooDeep
          else if starts_with (skip_ws t) ''}'' then Inr (PDict [], drop 1 (skip_ws t))
          else read_members fuel (depth - 1) [] (skip_ws t))
       else if c = CHR ''['' then
         (if depth = 0 then Inl TooDeep
          else if starts_with (skip_ws t) '']'' then Inr (PList [], drop 1 (skip_ws t))
          else read_items fuel (depth - 1) [] (skip_ws t))
       else read_constant s)"
| "read_items 0 depth acc s = Inl OutOfFuel"
| "read_items (Suc fuel) depth acc s = (case read_value fuel depth s of
      Inl e \<Rightarrow> Inl e
    | Inr (v, r) \<Rightarrow> (case skip_ws r of
        c # t \<Rightarrow> if c = CHR '']'' then Inr (PList (acc @ [v]), t)
                 else if c = CHR '','' then read_items fuel depth (acc @ [v]) (skip_ws t)
                 else Inl JSONDecodeError
      | [] \<Rightarrow> Inl JSONDecodeError))"
| "read_members 0 depth acc s = Inl OutOfFuel"
| "read_members (Suc fuel) depth acc s = (case s of
      [] \<Rightarrow> Inl JSONDecodeError
    | q # t \<Rightarrow>
       if q \<noteq> CHR 0x22 then Inl JSONDecodeError
       else (case read_string [] t of
         None \<Rightarrow> Inl JSONDecodeError
       | Some (k, r) \<Rightarrow>
         if \<not> starts_with (skip_ws r) '':'' then Inl JSONDecodeError
         else (case read_value fuel depth (skip_ws (drop 1 (skip_ws r))) of
           Inl e \<Rightarrow> Inl e
         | Inr (v, r2) \<Rightarrow> (case skip_ws r2 of
             c # u \<Rightarrow> if c = CHR ''}'' then Inr (PDict (dict_set k v acc), u)
                      else if c = CHR '','' then read_members fuel depth (dict_set k v acc) (skip_ws u)
                      else Inl JSONDecodeError
           | [] \<Rightarrow> Inl JSONDecodeError))))"

definition loads :: "nat \<Rightarrow> string \<Rightarrow> json_error + pyval" where
  "loads depth s = (case read_value (2 * length s + 1) depth (skip_ws s) of
      Inl e \<Rightarrow> Inl e
    | Inr (v, r) \<Rightarrow> if skip_ws r = [] then Inr v else Inl JSONDecodeError)"

section \<open>Printed values read back\<close>

definition json_ws :: "char \<Rightarrow> bool" where
  "json_ws c = (c = CHR '' '' \<or> c = CHR 0x09 \<or> c = CHR 0x0A \<or> c = CHR 0x0D)"

text \<open>What may follow a value inside a printed document.\<close>

definition delimited :: "string \<Rightarrow> bool" where
  "delimited rest = (case rest of [] \<Rightarrow> True | c # _ \<Rightarrow> json_ws c \<or> c \<in> set '',]}'')"

definition value_start :: "string \<Rightarrow> bool" where
  "value_start t = (case t of [] \<Rightarrow> False | c # _ \<Rightarrow> \<not> json_ws c \<and> c \<notin> set '',]}'')"

definition style_ok :: "json_style \<Rightarrow> bool" where
  "style_ok st \<longleftrightarrow> (\<exists>ws. js_item st = CHR '','' # ws \<and> list_all json_ws ws) \<and>
     (\<exists>ws. js_key st = CHR '':'' # ws \<and> list_all json_ws ws)"

text \<open>A float prints as a number token that reads as the same float.\<close>

definition float_prints :: "json_style \<Rightarrow> rat \<Rightarrow> bool" where
  "float_prints st q \<longleftrightarrow> value_start (js_float st q) \<and>
     (\<forall>rest. delimited rest \<longrightarrow> read_constant (js_float st q @ rest) = Inr (PFloat (Fin q), rest)) \<and>
     hd (js_float st q) \<notin> set [CHR 0x22, CHR ''{'', CHR ''['']"

fun json_ok :: "json_style \<Rightarrow> pyval \<Rightarrow> bool" where
  "json_ok st (PInt i) = (length (show_nat (nat \<bar>i\<bar>)) \<le> 4300)"
| "json_ok st (PFloat f) = (case f of Fin q \<Rightarrow> float_prints st q | _ \<Rightarrow> False)"
| "json_ok st (PList xs) = list_all (json_ok st) xs"
| "json_ok st (PDict d) = (dict_ok d \<and> list_all (\<lambda>kv. json_ok st (snd kv)) d)"
| "json_ok st _ = True"

fun nesting :: "pyval \<Rightarrow> nat" where
  "nesting (PList xs) = Suc (fold max (map nesting xs) 0)"
| "nesting (PDict d) = Suc (fold max (map (\<lambda>kv. nesting (snd kv)) d) 0)"
| "nesting _ = 0"

lemma read_hex4_hex4: "n < 65536 \<Longrightarrow> read_hex4 (hex4 n @ t) = Some (n, t)"
proof -
  assume "n < 65536"
  then have "n div 4096 mod 16 = n div 4096" by simp
  note low = this
  have "n div 16 div 16 = n div 256" "n div 256 div 16 = n div 4096" by (simp_all flip: div_mult2_eq)
  then have "4096 * (n div 4096 mod 16) + 256 * (n div 256 mod 16) + 16 * (n div 16 mod 16) + n mod 16 = n"
    using mult_div_mod_eq [of 16 n] mult_div_mod_eq [of 16 "n div 16"] mult_div_mod_eq [of 16 "n div 256"] low
    by linarith
  then show ?thesis using \<open>n < 65536\<close> by (simp add: read_hex4_def hex4_def hex_value_hex_char)
qed

lemma control_escape: "char_code c < 32 \<Longrightarrow> unicode_escape (hex4 (char_code c) @ t) = Some ([c], t)"
  by (simp add: unicode_escape_def read_hex4_hex4 utf8_of_def) (simp add: char_code_def)

lemma read_string_escape:
  "read_string acc (json_escape c @ s) = read_string (acc @ [c]) s"
proof -
  have "\<not> char_code (CHR 0x5C) < 32" by (simp add: char_code_def)
  then show ?thesis by (simp add: json_escape_def simple_escape_def control_escape)
qed

lemma read_string_text:
  "read_string acc (concat (map json_escape s) @ CHR 0x22 # r) = Some (acc @ s, r)"
  by (induction s arbitrary: acc) (simp_all add: read_string_escape)

lemma skip_ws_start: "value_start t \<Longrightarrow> skip_ws (t @ r) = t @ r"
  by (cases t) (auto simp: skip_ws_def value_start_def json_ws_def)

lemma skip_ws_char: "\<not> json_ws c \<Longrightarrow> skip_ws (c # r) = c # r"
  by (simp add: skip_ws_def json_ws_def)

lemma skip_ws_blank: "list_all json_ws ws \<Longrightarrow> skip_ws (ws @ r) = skip_ws r"
  by (induction ws) (auto simp: skip_ws_def json_ws_def)

lemma show_nat_first: "n \<noteq> 0 \<Longrightarrow> hd (show_nat n) \<noteq> CHR ''0''"
proof (induction n rule: show_nat.induct)
  case (1 n)
  show ?case
  proof (cases "n < 10")
    case True
    then have "char_code (char_of (48 + n)) = 48 + n" by simp
    moreover have "char_code (CHR ''0'') = 48" by (simp add: char_code_def)
    ultimately have "char_of (48 + n) \<noteq> CHR ''0''" using 1(2) by auto
    then show ?thesis using True by (simp add: show_nat.simps [of n])
  next
    case False
    then show ?thesis using 1(1) by (simp add: show_nat.simps [of n])
  qed
qed

lemma delimited_not_digit: "delimited rest \<Longrightarrow> takeWhile is_digit rest = [] \<and> dropWhile is_digit rest = rest"
  by (cases rest) (auto simp: delimited_def json_ws_def is_digit_def char_code_def)

lemma lex_nat:
  assumes "delimited rest"
  shows "lex_int (show_nat n @ rest) = Some (show_nat n, rest) \<and> lex_int (CHR ''-'' # show_nat n @ rest) = Some (CHR ''-'' # show_nat n, rest)"
proof -
  obtain c cs where s: "show_nat n = c # cs" by (cases "show_nat n") auto
  have d: "\<forall>x \<in> set (show_nat n). is_digit x" using show_nat_digits by blast
  have "c \<noteq> CHR ''-''" using d s by (auto simp: is_digit_def char_code_def)
  moreover have "cs = []" if "c = CHR ''0''"
    using that show_nat_first [of n] s by (cases "n = 0") (auto simp: show_nat.simps [of 0])
  moreover have "digits_of (show_nat n @ rest) = (show_nat n, rest)"
    using d delimited_not_digit [OF assms] by (simp add: digits_of_def takeWhile_append2 dropWhile_append2)
  ultimately show ?thesis using d s by (auto simp: lex_int_def)
qed

lemma no_fraction: "delimited rest \<Longrightarrow> lex_frac rest = ([], rest) \<and> lex_exp rest = ([], rest)"
  by (cases rest) (auto simp: delimited_def json_ws_def lex_frac_def lex_exp_def Let_def split: list.split prod.split)

lemma read_number_int:
  assumes "delimited rest" and "length (show_nat (nat \<bar>i\<bar>)) \<le> 4300"
  shows "read_number (show_int i @ rest) = Inr (PInt i, rest)"
proof -
  have d: "filter is_digit (show_nat n) = show_nat n" for n using show_nat_digits by (simp add: filter_id_conv)
  have "\<not> is_digit (CHR ''-'')" by (simp add: is_digit_def char_code_def)
  then show ?thesis
    using assms lex_nat [OF assms(1)] no_fraction [OF assms(1)] int_of_show_int [of i]
    by (auto simp: read_number_def show_int_def d split: if_splits)
qed

lemma show_int_start:
  "\<exists>c cs. show_int i = c # cs \<and> (is_digit c \<or> c = CHR ''-'' \<and> cs \<noteq> [] \<and> is_digit (hd cs))"
proof -
  have "is_digit (hd (show_nat n))" for n using show_nat_digits show_nat_nonempty hd_in_set by blast
  then show ?thesis by (cases "show_nat (nat i)") (auto simp: show_int_def, (metis list.sel(1))+)
qed

lemma read_constant_int:
  assumes "delimited rest" and "length (show_nat (nat \<bar>i\<bar>)) \<le> 4300"
  shows "read_constant (show_int i @ rest) = Inr (PInt i, rest)"
proof -
  obtain c cs where c: "show_int i = c # cs" "is_digit c \<or> c = CHR ''-'' \<and> cs \<noteq> [] \<and> is_digit (hd cs)"
    using show_int_start by blast
  moreover have "\<not> is_digit (CHR ''n'')" "\<not> is_digit (CHR ''t'')" "\<not> is_digit (CHR ''f'')" "\<not> is_digit (CHR ''N'')"
      "\<not> is_digit (CHR ''I'')" "\<not> is_digit (CHR ''-'')"
    by (simp_all add: is_digit_def char_code_def)
  ultimately have "CHR ''n'' \<noteq> c \<and> CHR ''t'' \<noteq> c \<and> CHR ''f'' \<noteq> c \<and> CHR ''N'' \<noteq> c \<and> CHR ''I'' \<noteq> c \<and>
      (CHR ''-'' = c \<longrightarrow> CHR ''I'' \<noteq> hd cs \<and> cs \<noteq> [])" by auto
  then have "read_constant (show_int i @ rest) = read_number (show_int i @ rest)"
    using c(1) by (cases cs) (auto simp: read_constant_def)
  then show ?thesis using read_number_int [OF assms] by simp
qed

lemma dumps_start: "dumps_at st n v = Inr t \<Longrightarrow> json_ok st v \<Longrightarrow> value_start t"
proof (cases v)
  case (PInt i)
  assume "dumps_at st n v = Inr t"
  then have t: "t = show_int i" using PInt by (simp split: if_splits)
  obtain c cs where "show_int i = c # cs" "is_digit c \<or> c = CHR ''-''" using show_int_start [of i] by blast
  then show ?thesis using t
    by (auto simp: value_start_def json_ws_def is_digit_def char_code_def)
qed (auto simp: value_start_def json_ws_def json_text_def json_float_def float_prints_def res_bind_eq_Inr enclose_def
    split: pyfloat.splits if_splits)

lemma enclose_start: "\<exists>u. enclose st n left right ts = left # u"
  by (simp add: enclose_def)

lemma enclose_nonempty [simp]: "enclose st n left right ts \<noteq> []" "[] \<noteq> enclose st n left right ts"
  by (simp_all add: enclose_def)

lemma read_plain:
  assumes "read_constant (t @ rest) = Inr (v, rest)" and "t \<noteq> []" and "hd t \<notin> set [CHR 0x22, CHR ''{'', CHR ''['']"
  shows "read_value (Suc fuel) depth (t @ rest) = Inr (v, rest)"
  using assms by (cases t) auto

text \<open>The induction hypothesis for the parts of a list or dictionary.\<close>

definition reads_back :: "json_style \<Rightarrow> pyval \<Rightarrow> bool" where
  "reads_back st v \<longleftrightarrow> (\<forall>n t rest fuel depth. dumps_at st n v = Inr t \<longrightarrow> json_ok st v \<longrightarrow> delimited rest \<longrightarrow>
     nesting v \<le> depth \<longrightarrow> length t < fuel \<longrightarrow> read_value fuel depth (t @ rest) = Inr (v, rest))"

lemma reads_backD:
  "reads_back st v \<Longrightarrow> dumps_at st n v = Inr t \<Longrightarrow> json_ok st v \<Longrightarrow> delimited rest \<Longrightarrow> nesting v \<le> depth \<Longrightarrow>
    length t < fuel \<Longrightarrow> read_value fuel depth (t @ rest) = Inr (v, rest)"
  by (auto simp: reads_back_def)

lemma delimited_ws: "list_all json_ws w \<Longrightarrow> c \<in> set '',]}'' \<Longrightarrow> delimited (w @ c # rest)"
  by (cases w) (auto simp: delimited_def)

lemma skip_ws_to: "list_all json_ws w \<Longrightarrow> \<not> json_ws c \<Longrightarrow> skip_ws (w @ c # rest) = c # rest"
  by (simp add: skip_ws_blank skip_ws_char)

lemma line_break_ws: "list_all json_ws (line_break st n)"
  by (auto simp: line_break_def json_ws_def list_all_iff split: option.splits)

lemma closing [simp]: "\<not> json_ws (CHR '']'')" "\<not> json_ws (CHR ''}'')" "\<not> json_ws (CHR '','')"
  by (simp_all add: json_ws_def)

lemma read_items_back:
  assumes ws: "list_all json_ws ws" "list_all json_ws w"
    and "\<And>v. v \<in> set xs \<Longrightarrow> reads_back st v \<and> json_ok st v \<and> nesting v \<le> depth"
    and "map_res (dumps_at st n) xs = Inr ts" and "xs \<noteq> []" and "length (join_with (CHR '','' # ws) ts) < fuel"
  shows "read_items (Suc fuel) depth acc (join_with (CHR '','' # ws) ts @ w @ CHR '']'' # rest) = Inr (PList (acc @ xs), rest)"
  using assms(3-)
proof (induction xs arbitrary: ts acc fuel)
  case (Cons v xs)
  let ?sep = "CHR '','' # ws"
  obtain t ts' where ts: "ts = t # ts'" "dumps_at st n v = Inr t" "map_res (dumps_at st n) xs = Inr ts'"
    using Cons.prems(2) by (auto simp: res_bind_eq_Inr)
  have v: "reads_back st v" "json_ok st v" "nesting v \<le> depth" using Cons.prems(1) by auto
  show ?case
  proof (cases xs)
    case Nil
    then have "ts' = []" using ts(3) by simp
    then show ?thesis
      using ts reads_backD [OF v(1) ts(2) v(2) _ v(3), of "w @ CHR '']'' # rest" fuel] Cons.prems(4) Nil ws(2)
      by (simp add: delimited_ws skip_ws_to)
  next
    case (Cons x ys)
    then obtain u us where us: "ts' = u # us" "dumps_at st n x = Inr u" using ts(3) by (auto simp: res_bind_eq_Inr)
    have join: "join_with ?sep ts = t @ CHR '','' # ws @ join_with ?sep ts'" using ts us by simp
    have start: "value_start (join_with ?sep ts')"
      using dumps_start [OF us(2)] Cons.prems(1) Cons us(1)
      by (cases us) (auto simp: value_start_def split: list.splits)
    obtain fuel' where fuel: "fuel = Suc fuel'" using Cons.prems(4) by (cases fuel) auto
    have "read_value fuel depth (t @ CHR '','' # ws @ join_with ?sep ts' @ w @ CHR '']'' # rest) =
        Inr (v, CHR '','' # ws @ join_with ?sep ts' @ w @ CHR '']'' # rest)"
      using reads_backD [OF v(1) ts(2) v(2) _ v(3)] Cons.prems(4) join by (simp add: delimited_def)
    moreover have "skip_ws (ws @ join_with ?sep ts' @ w @ CHR '']'' # rest) = join_with ?sep ts' @ w @ CHR '']'' # rest"
      using ws(1) start by (simp add: skip_ws_blank skip_ws_start)
    moreover have "read_items fuel depth (acc @ [v]) (join_with ?sep ts' @ w @ CHR '']'' # rest) = Inr (PList (acc @ v # xs), rest)"
      unfolding fuel using Cons.IH [OF _ ts(3), of fuel' "acc @ [v]"] Cons.prems(1,4) Cons join fuel by simp
    ultimately show ?thesis by (simp add: join skip_ws_char)
  qed
qed simp

lemma dict_set_absent: "k \<notin> fst ` set d \<Longrightarrow> dict_set k v d = d @ [(k, v)]"
  by (induction d) auto

text \<open>One member: its key, the separator and its value.\<close>

lemma read_member:
  assumes st: "style_ok st" and "reads_back st v" "json_ok st v" "nesting v \<le> depth" "dumps_at st n v = Inr t"
    and "delimited rest" and "length t < fuel"
  shows "read_members (Suc fuel) depth acc (json_text k @ js_key st @ t @ rest) =
    (case skip_ws rest of
        c # u \<Rightarrow> if c = CHR ''}'' then Inr (PDict (dict_set k v acc), u)
                 else if c = CHR '','' then read_members fuel depth (dict_set k v acc) (skip_ws u)
                 else Inl JSONDecodeError
      | [] \<Rightarrow> Inl JSONDecodeError)"
proof -
  obtain ws where key: "js_key st = CHR '':'' # ws" "list_all json_ws ws" using st by (auto simp: style_ok_def)
  have "skip_ws (ws @ t @ rest) = t @ rest"
    using key(2) dumps_start [OF assms(5,3)] by (simp add: skip_ws_blank skip_ws_start)
  then show ?thesis
    using reads_backD [OF assms(2,5,3,6,4,7)] read_string_text [of "[]" k "js_key st @ t @ rest"] key
    by (simp add: json_text_def skip_ws_char json_ws_def)
qed

lemma read_members_back:
  assumes st: "style_ok st" and ws: "list_all json_ws ws" "list_all json_ws w"
    and "\<And>kv. kv \<in> set d \<Longrightarrow> reads_back st (snd kv) \<and> json_ok st (snd kv) \<and> nesting (snd kv) \<le> depth"
    and "map_res (\<lambda>kv. res_bind (dumps_at st n (snd kv)) (\<lambda>t. Inr (json_text (fst kv) @ js_key st @ t))) d = Inr ts"
    and "d \<noteq> []" and "length (join_with (CHR '','' # ws) ts) < fuel" and "dict_ok (acc @ d)"
  shows "read_members (Suc fuel) depth acc (join_with (CHR '','' # ws) ts @ w @ CHR ''}'' # rest) = Inr (PDict (acc @ d), rest)"
  using assms(4-)
proof (induction d arbitrary: ts acc fuel)
  case (Cons kv d)
  let ?sep = "CHR '','' # ws"
  obtain k v where kv: "kv = (k, v)" by (cases kv)
  obtain t ts' where ts: "ts = (json_text k @ js_key st @ t) # ts'" "dumps_at st n v = Inr t"
    and ts': "map_res (\<lambda>kv. res_bind (dumps_at st n (snd kv)) (\<lambda>t. Inr (json_text (fst kv) @ js_key st @ t))) d = Inr ts'"
    using Cons.prems(2) kv by (auto simp: res_bind_eq_Inr)
  have v: "reads_back st v" "json_ok st v" "nesting v \<le> depth" using Cons.prems(1) [of kv] kv by simp_all
  have new: "dict_set k v acc = acc @ [kv]" using Cons.prems(5) kv by (auto simp: dict_ok_def intro!: dict_set_absent)
  show ?case
  proof (cases d)
    case Nil
    then have "ts' = []" using ts' by simp
    then show ?thesis
      using ts read_member [OF st v ts(2), of "w @ CHR ''}'' # rest" fuel acc k] Cons.prems(4) Nil new ws(2)
      by (simp add: delimited_ws skip_ws_to)
  next
    case (Cons kv' d')
    then obtain u us where us: "ts' = (json_text (fst kv') @ u) # us" using ts' by (auto simp: res_bind_eq_Inr)
    have join: "join_with ?sep ts = json_text k @ js_key st @ t @ CHR '','' # ws @ join_with ?sep ts'"
      using ts us by simp
    have start: "value_start (join_with ?sep ts')"
      using us by (cases us) (auto simp: value_start_def json_text_def json_ws_def)
    obtain fuel' where fuel: "fuel = Suc fuel'" using Cons.prems(4) by (cases fuel) auto
    have "skip_ws (ws @ join_with ?sep ts' @ w @ CHR ''}'' # rest) = join_with ?sep ts' @ w @ CHR ''}'' # rest"
      using ws(1) start by (simp add: skip_ws_blank skip_ws_start)
    moreover have "read_members fuel depth (acc @ [kv]) (join_with ?sep ts' @ w @ CHR ''}'' # rest) =
        Inr (PDict (acc @ kv # d), rest)"
      unfolding fuel using Cons.IH [OF _ ts', of fuel' "acc @ [kv]"] Cons.prems(1,4,5) Cons join fuel by simp
    ultimately show ?thesis
      using read_member [OF st v ts(2), of "CHR '','' # ws @ join_with ?sep ts' @ w @ CHR ''}'' # rest" fuel acc k]
        Cons.prems(4) new
      by (simp add: join delimited_def skip_ws_char)
  qed
qed simp

lemma fold_max_ge: "n \<le> fold max ys (n::nat)"
  by (induction ys arbitrary: n) (auto intro: order_trans [OF max.cobounded2])

lemma fold_max_le: "x \<in> set xs \<Longrightarrow> f x \<le> fold max (map f xs) (n::nat)"
  by (induction xs arbitrary: n) (auto intro: order_trans [OF _ fold_max_ge])

lemma break_sep: "style_ok st \<Longrightarrow> \<exists>ws. js_item st @ line_break st n = CHR '','' # ws \<and> list_all json_ws ws"
  using line_break_ws [of st n] by (auto simp: style_ok_def)

lemma printed_reads_back:
  assumes st: "style_ok st"
  shows "reads_back st v"
proof (induction v)
  case (PStr s)
  show ?case
    unfolding reads_back_def
  proof (intro allI impI)
    fix n :: nat and t rest :: string and fuel depth :: nat
    assume "dumps_at st n (PStr s) = Inr t" "length t < fuel"
    then show "read_value fuel depth (t @ rest) = Inr (PStr s, rest)"
      using read_string_text [of "[]" s rest] by (cases fuel) (auto simp: json_text_def)
  qed
next
  case (PList xs)
  show ?case
    unfolding reads_back_def
  proof (intro allI impI)
    fix n :: nat and t rest :: string and fuel depth :: nat
    assume t: "dumps_at st n (PList xs) = Inr t" and ok: "json_ok st (PList xs)" and n: "nesting (PList xs) \<le> depth" "length t < fuel"
    obtain ts where ts: "map_res (dumps_at st (Suc n)) xs = Inr ts" "t = enclose st n (CHR ''['') (CHR '']'') ts"
      using t by (auto simp: res_bind_eq_Inr)
    obtain f where fuel: "fuel = Suc (Suc f)" using n(2) ts(2) by (cases fuel; cases "fuel - 1") (auto simp: enclose_def split: if_splits)
    show "read_value fuel depth (t @ rest) = Inr (PList xs, rest)"
    proof (cases xs)
      case Nil
      then show ?thesis using ts n fuel by (simp add: skip_ws_char json_ws_def enclose_def)
    next
      case (Cons x ys)
      then obtain u us where us: "ts = u # us" "dumps_at st (Suc n) x = Inr u" using ts(1) by (auto simp: res_bind_eq_Inr)
      obtain ws where ws: "js_item st @ line_break st (Suc n) = CHR '','' # ws" "list_all json_ws ws" using break_sep [OF st] by blast
      let ?body = "join_with (CHR '','' # ws) ts @ line_break st n @ CHR '']'' # rest"
      have te: "t @ rest = CHR ''['' # line_break st (Suc n) @ ?body" using ts(2) us(1) ws(1) by (simp add: enclose_def)
      have start: "value_start (join_with (CHR '','' # ws) ts)"
        using dumps_start [OF us(2)] ok Cons us(1) by (cases us) (auto simp: value_start_def split: list.splits)
      have parts: "reads_back st v \<and> json_ok st v \<and> nesting v \<le> depth - 1" if "v \<in> set xs" for v
        using that PList.IH ok n(1) fold_max_le [of v xs nesting 0] by (auto simp: list_all_iff)
      have len: "length (join_with (CHR '','' # ws) ts) < f" using n(2) ts(2) us(1) ws(1) fuel by (simp add: enclose_def)
      have "read_items (Suc f) (depth - 1) [] ?body = Inr (PList xs, rest)"
        using read_items_back [OF ws(2) line_break_ws parts ts(1) _ len] Cons by simp
      moreover have "\<not> starts_with ?body '']''"
        using start by (auto simp: value_start_def split: list.splits)
      moreover have "skip_ws (line_break st (Suc n) @ ?body) = ?body"
        using start by (simp add: skip_ws_blank [OF line_break_ws] skip_ws_start)
      ultimately show ?thesis using te n(1) fuel by simp
    qed
  qed
next
  case (PDict d)
  show ?case
    unfolding reads_back_def
  proof (intro allI impI)
    fix n :: nat and t rest :: string and fuel depth :: nat
    assume t: "dumps_at st n (PDict d) = Inr t" and ok: "json_ok st (PDict d)" and n: "nesting (PDict d) \<le> depth" "length t < fuel"
    obtain ts where ts: "map_res (\<lambda>kv. res_bind (dumps_at st (Suc n) (snd kv)) (\<lambda>t. Inr (json_text (fst kv) @ js_key st @ t))) d = Inr ts"
      "t = enclose st n (CHR ''{'') (CHR ''}'') ts"
      using t by (auto simp: res_bind_eq_Inr)
    obtain f where fuel: "fuel = Suc (Suc f)" using n(2) ts(2) by (cases fuel; cases "fuel - 1") (auto simp: enclose_def split: if_splits)
    show "read_value fuel depth (t @ rest) = Inr (PDict d, rest)"
    proof (cases d)
      case Nil
      then show ?thesis using ts n fuel by (simp add: skip_ws_char json_ws_def enclose_def)
    next
      case (Cons kv d')
      then obtain u us where us: "ts = (json_text (fst kv) @ u) # us" using ts(1) by (auto simp: res_bind_eq_Inr)
      obtain ws where ws: "js_item st @ line_break st (Suc n) = CHR '','' # ws" "list_all json_ws ws" using break_sep [OF st] by blast
      let ?body = "join_with (CHR '','' # ws) ts @ line_break st n @ CHR ''}'' # rest"
      have te: "t @ rest = CHR ''{'' # line_break st (Suc n) @ ?body" using ts(2) us(1) ws(1) by (simp add: enclose_def)
      have start: "value_start (join_with (CHR '','' # ws) ts)"
        using us by (cases us) (auto simp: value_start_def json_text_def json_ws_def)
      have parts: "reads_back st (snd kv) \<and> json_ok st (snd kv) \<and> nesting (snd kv) \<le> depth - 1" if "kv \<in> set d" for kv
        using that PDict.IH [of kv "snd kv"] ok n(1) fold_max_le [of kv d "\<lambda>kv. nesting (snd kv)" 0]
        by (auto simp: list_all_iff snds.simps)
      have len: "length (join_with (CHR '','' # ws) ts) < f" using n(2) ts(2) us(1) ws(1) fuel by (simp add: enclose_def)
      have "read_members (Suc f) (depth - 1) [] ?body = Inr (PDict d, rest)"
        using read_members_back [OF st ws(2) line_break_ws parts ts(1) _ len] Cons ok by simp
      moreover have "\<not> starts_with ?body ''}''"
        using start by (auto simp: value_start_def split: list.splits)
      moreover have "skip_ws (line_break st (Suc n) @ ?body) = ?body"
        using start by (simp add: skip_ws_blank [OF line_break_ws] skip_ws_start)
      ultimately show ?thesis using te n(1) fuel by simp
    qed
  qed
next
  case (PInt i)
  show ?case
    unfolding reads_back_def
  proof (intro allI impI)
    fix n :: nat and t rest :: string and fuel depth :: nat
    assume *: "dumps_at st n (PInt i) = Inr t" "json_ok st (PInt i)" "delimited rest" "length t < fuel"
    have "hd (show_int i) \<notin> set [CHR 0x22, CHR ''{'', CHR ''['']" "show_int i \<noteq> []"
      using show_int_start [of i] by (auto simp: is_digit_def char_code_def)
    then show "read_value fuel depth (t @ rest) = Inr (PInt i, rest)"
      using * read_constant_int [of rest i] by (cases fuel) (auto intro!: read_plain simp del: read_value.simps)
  qed
next
  case (PFloat f)
  show ?case
    unfolding reads_back_def
  proof (intro allI impI)
    fix n :: nat and t rest :: string and fuel depth :: nat
    assume *: "dumps_at st n (PFloat f) = Inr t" "json_ok st (PFloat f)" "delimited rest" "length t < fuel"
    then obtain q where "f = Fin q" "t = js_float st q" "float_prints st q" by (auto simp: json_float_def split: pyfloat.splits)
    then show "read_value fuel depth (t @ rest) = Inr (PFloat f, rest)"
      using * by (cases fuel) (auto intro!: read_plain simp: float_prints_def value_start_def simp del: read_value.simps)
  qed
qed (auto simp: reads_back_def read_constant_def gr0_conv_Suc dest!: less_imp_Suc_add)

lemma loads_dumps:
  assumes "style_ok st" and "dumps st v = Inr t" and "json_ok st v" and "nesting v \<le> depth"
  shows "loads depth t = Inr v"
proof -
  have "skip_ws t = t" using skip_ws_start [OF dumps_start [OF assms(2,3)], of "[]"] by simp
  moreover have "read_value (2 * length t + 1) depth (t @ []) = Inr (v, [])"
    using printed_reads_back [OF assms(1)] assms(2-4) by (intro reads_backD) (auto simp: delimited_def)
  ultimately show ?thesis by (simp add: loads_def skip_ws_def)
qed

section \<open>The reader always ends with an answer\<close>

lemma read_string_length: "read_string acc s = Some (x, r) \<Longrightarrow> length r < length s"
  by (induction acc s rule: read_string.induct)
    (force split: if_splits list.splits option.splits prod.splits dest!: unicode_escape_length)+

lemma skip_ws_length: "length (skip_ws s) \<le> length s"
  by (simp add: skip_ws_def length_dropWhile_le)

lemma digits_of_length: "length (snd (digits_of s)) \<le> length s"
  by (simp add: digits_of_def length_dropWhile_le)

lemma lex_int_length: "lex_int s = Some (i, r) \<Longrightarrow> length r < length s"
  using digits_of_length length_dropWhile_le [of is_digit]
  by (auto simp: lex_int_def digits_of_def Let_def less_Suc_eq_le intro: le_SucI split: list.splits if_splits)

lemma lex_frac_length: "length (snd (lex_frac s)) \<le> length s"
  using length_dropWhile_le [of is_digit] by (auto simp: lex_frac_def digits_of_def le_Suc_eq split: list.split)

lemma lex_exp_length: "length (snd (lex_exp s)) \<le> length s"
  using length_dropWhile_le [of is_digit]
  by (auto simp: lex_exp_def digits_of_def Let_def le_Suc_eq split: list.split)

lemma read_constant_length: "read_constant s = Inr (v, r) \<Longrightarrow> length r < length s"
proof -
  have "length r < length s" if num: "read_number s = Inr (v, r)"
  proof -
    obtain i r1 where i: "lex_int s = Some (i, r1)" "r = snd (lex_exp (snd (lex_frac r1)))"
      using num by (auto simp: read_number_def split: option.splits prod.splits if_splits)
    show ?thesis using lex_int_length [OF i(1)] lex_frac_length [of r1] lex_exp_length [of "snd (lex_frac r1)"] unfolding i(2) by linarith
  qed
  then show "read_constant s = Inr (v, r) \<Longrightarrow> length r < length s"
    by (auto simp: read_constant_def split: if_splits dest!: prefix_length_le)
qed

lemma read_constant_fuel: "read_constant s \<noteq> Inl OutOfFuel"
  by (auto simp: read_constant_def read_number_def split: option.splits prod.splits if_splits)

lemma read_lengths:
  "read_value fuel depth s = Inr (v, r) \<Longrightarrow> length r < length s"
  "read_items fuel depth acc s = Inr (v, r) \<Longrightarrow> length r < length s"
  "read_members fuel depth dacc s = Inr (v, r) \<Longrightarrow> length r < length s"
proof (induction fuel depth s and fuel depth acc s and fuel depth dacc s arbitrary: v r and v r and v r
    rule: read_value_read_items_read_members.induct)
  case (2 fuel depth s)
  show ?case
  proof (cases s)
    case (Cons c t)
    have ws: "length (skip_ws t) \<le> length t" "length (drop 1 (skip_ws t)) \<le> length t"
      using skip_ws_length [of t] by auto
    show ?thesis using "2.prems" "2.IH" [OF Cons] ws Cons
      by (auto split: if_splits option.splits dest!: read_string_length read_constant_length)
  qed (use "2.prems" in simp)
next
  case (4 fuel depth acc s)
  obtain w r1 where w: "read_value fuel depth s = Inr (w, r1)"
    using "4.prems" by (auto split: sum.splits)
  have "length r1 < length s" by (rule "4.IH"(1) [OF w])
  moreover obtain c t where t: "skip_ws r1 = c # t" using "4.prems" w by (auto split: list.splits)
  moreover have "length r \<le> length t"
  proof (cases "c = CHR '']''")
    case False
    then have "read_items fuel depth (acc @ [w]) (skip_ws t) = Inr (v, r)" "c = CHR '',''"
      using "4.prems" w t by (auto split: if_splits)
    then show ?thesis using "4.IH"(2) [OF w refl t] False skip_ws_length [of t] by force
  qed (use "4.prems" w t in simp)
  ultimately show ?case using skip_ws_length [of r1] by simp
next
  case (6 fuel depth dacc s)
  obtain q t where s: "s = q # t" "q = CHR 0x22" using "6.prems" by (cases s) (auto split: if_splits)
  obtain k r0 where k: "read_string [] t = Some (k, r0)" using "6.prems" s by (auto split: option.splits)
  have colon: "starts_with (skip_ws r0) '':''" using "6.prems" s k by (auto split: if_splits)
  let ?u = "skip_ws (drop 1 (skip_ws r0))"
  obtain w r1 where w: "read_value fuel depth ?u = Inr (w, r1)"
    using "6.prems" s k colon by (auto split: sum.splits)
  have "length r1 < length ?u" using "6.IH"(1) [OF s(1) _ k refl _ w] s colon by simp
  moreover have "length ?u \<le> length r0" "length r0 < length t"
    using skip_ws_length [of r0] skip_ws_length [of "drop 1 (skip_ws r0)"] read_string_length [OF k] by auto
  moreover obtain c t2 where t2: "skip_ws r1 = c # t2" using "6.prems" s k colon w by (auto split: list.splits)
  moreover have "length r \<le> length t2"
  proof (cases "c = CHR ''}''")
    case False
    then have "read_members fuel depth (dict_set k w dacc) (skip_ws t2) = Inr (v, r)" "c = CHR '',''"
      using "6.prems" s k colon w t2 by (auto split: if_splits)
    then show ?thesis using "6.IH"(2) [OF s(1) _ k refl _ w refl t2] s colon False skip_ws_length [of t2] by force
  qed (use "6.prems" s k colon w t2 in simp)
  ultimately show ?case using skip_ws_length [of r1] s by simp
qed auto

lemma read_fuel:
  "2 * length s < fuel \<Longrightarrow> read_value fuel depth s \<noteq> Inl OutOfFuel"
  "2 * length s + 1 < fuel \<Longrightarrow> read_items fuel depth acc s \<noteq> Inl OutOfFuel"
  "2 * length s + 1 < fuel \<Longrightarrow> read_members fuel depth dacc s \<noteq> Inl OutOfFuel"
proof (induction fuel depth s and fuel depth acc s and fuel depth dacc s rule: read_value_read_items_read_members.induct)
  case (2 fuel depth s)
  show ?case
  proof (cases s)
    case (Cons c t)
    then have "2 * length (skip_ws t) + 1 < fuel" using "2.prems" skip_ws_length [of t] by simp
    then show ?thesis using "2.IH" [OF Cons] Cons by (auto simp: read_constant_fuel split: option.splits)
  qed simp
next
  case (4 fuel depth acc s)
  show ?case
  proof (cases "read_value fuel depth s")
    case (Inl e)
    then show ?thesis using "4.IH"(1) "4.prems" by simp
  next
    case (Inr wr)
    obtain w r1 where wr: "wr = (w, r1)" by (cases wr)
    have "length r1 < length s" using read_lengths(1) Inr wr by blast
    moreover have "2 * length (skip_ws t) + 1 < fuel" if "skip_ws r1 = c # t" for c t
      using that "4.prems" calculation skip_ws_length [of r1] skip_ws_length [of t] by simp
    ultimately show ?thesis using "4.IH"(2) [OF Inr] wr Inr by (auto split: list.splits)
  qed
next
  case (6 fuel depth dacc s)
  show ?case
  proof (cases s)
    case (Cons q t)
    show ?thesis
    proof (cases "read_string [] t")
      case (Some kr)
      obtain k r0 where kr: "kr = (k, r0)" by (cases kr)
      let ?u = "skip_ws (drop 1 (skip_ws r0))"
      have u: "length ?u \<le> length r0" "length r0 < length t"
        using skip_ws_length [of r0] skip_ws_length [of "drop 1 (skip_ws r0)"] read_string_length Some kr by fastforce+
      then have fuel: "2 * length ?u < fuel" using "6.prems" Cons by simp
      show ?thesis
      proof (cases "read_value fuel depth ?u")
        case (Inl e)
        then show ?thesis using "6.IH"(1) [OF Cons _ Some kr [symmetric] _ fuel] Cons Some kr by auto
      next
        case (Inr wr)
        obtain w r1 where wr: "wr = (w, r1)" by (cases wr)
        have "length r1 < length ?u" using read_lengths(1) Inr wr by blast
        moreover have "2 * length (skip_ws t2) + 1 < fuel" if "skip_ws r1 = c # t2" for c t2
          using that fuel calculation skip_ws_length [of r1] skip_ws_length [of t2] by simp
        ultimately show ?thesis using "6.IH"(2) [OF Cons _ Some kr [symmetric] _ Inr wr [symmetric]] wr Inr Cons Some kr
          by (auto split: list.splits)
      qed
    qed (use Cons in simp)
  qed simp
qed auto

lemma loads_answers: "loads depth s \<noteq> Inl OutOfFuel"
  using read_fuel(1) [of "skip_ws s" "2 * length s + 1" depth] skip_ws_length [of s]
  by (auto simp: loads_def split: sum.splits prod.splits)

lemma compact_style_ok [simp]: "style_ok (compact_style fr)"
  by (simp add: style_ok_def compact_style_def)

lemma indented_style_ok [simp]: "style_ok (indented_style fr)"
  by (simp add: style_ok_def indented_style_def json_ws_def)

lemma dumps_inject:
  assumes "style_ok st" and "dumps st v = Inr t" and "dumps st w = Inr t" and "json_ok st v" and "json_ok st w"
  shows "v = w"
proof -
  let ?depth = "max (nesting v) (nesting w)"
  have "loads ?depth t = Inr v" "loads ?depth t = Inr w"
    by (rule loads_dumps [OF assms(1,2,4)], simp, rule loads_dumps [OF assms(1,3,5)], simp)
  then show ?thesis by simp
qed

section \<open>Sorted keys\<close>

lemma sorted_dict_ok: "dict_ok d \<Longrightarrow> dict_ok (sort_key fst (map (\<lambda>kv. (fst kv, f (snd kv))) d))"
  by (simp add: dict_ok_def distinct_map inj_on_def) (metis prod.collapse)

lemma map_of_sort_key:
  assumes "dict_ok d"
  shows "map_of (sort_key fst d) k = map_of d k"
proof -
  have "distinct (map fst (sort_key fst d))"
    using assms by (simp add: dict_ok_def distinct_map distinct_sort)
  then show ?thesis using assms by (metis dict_ok_def map_of_eqI map_of_inject_set set_sort)
qed

lemma map_of_values: "map_of (map (\<lambda>kv. (fst kv, f (snd kv))) d) k = map_option f (map_of d k)"
  by (induction d) auto

text \<open>Sorting keeps what is stored under each key, and printability.\<close>

lemma sort_value_get:
  assumes "dict_ok d"
  shows "\<exists>d'. sort_value (PDict d) = PDict d' \<and> (\<forall>k. dict_get d' k = map_option sort_value (dict_get d k))"
proof -
  have "dict_ok (map (\<lambda>kv. (fst kv, sort_value (snd kv))) d)"
    using assms by (simp add: dict_ok_def comp_def)
  then show ?thesis by (simp add: map_of_sort_key map_of_values)
qed

lemma json_ok_sort: "json_ok st v \<Longrightarrow> json_ok st (sort_value v)"
proof (induction v rule: sort_value.induct)
  case (2 d)
  then show ?case by (auto simp: list_all_iff sorted_dict_ok)
qed (auto simp: list_all_iff)

text \<open>The float zero printed as Python prints it.\<close>

lemma zero_prints:
  assumes "js_float st 0 = ''0.0''"
  shows "float_prints st 0"
proof -
  have "float_of_text ''0.0'' = Some (Fin 0)" by code_simp
  moreover have "lex_int (''0.0'' @ rest) = Some (''0'', ''.0'' @ rest)" for rest
    by (simp add: lex_int_def)
  moreover have "lex_frac (''.0'' @ rest) = (''.0'', rest)" if "delimited rest" for rest
    using delimited_not_digit [OF that] by (simp add: lex_frac_def digits_of_def is_digit_def char_code_def)
  moreover have "lex_exp rest = ([], rest)" if "delimited rest" for rest using no_fraction [OF that] by simp
  ultimately have "read_constant (''0.0'' @ rest) = Inr (PFloat (Fin 0), rest)" if "delimited rest" for rest
    using that by (simp add: read_constant_def read_number_def)
  then show ?thesis using assms by (simp add: float_prints_def value_start_def json_ws_def)
qed

end
