(* ===== verification/Entropy.thy ===== *)
theory Entropy
  imports Py_Values Py_Bytes
begin

text \<open>
  The entropy engine (\<open>analyzer/entropy.py\<close>): configuration, the streaming loop over the chunks of a file,
  and the report. The result is independent of how the reads cut the file, the number of reported blocks
  is bounded, and the loop ends when the file does.

  The sum \<open>-np.sum(p * np.log2(p))\<close> over the non-zero relative frequencies is computed by numpy and is an
  argument (\<open>plogp\<close>) on the non-zero counts and their total. Counting itself is modelled. Sizes are below
  \<open>2^53\<close>, where the ceiling of a float quotient is the exact one; means and ratios are exact rationals.
\<close>

section \<open>Configuration\<close>

type_synonym bytes = "8 word list"

datatype os_error = FileNotFoundError string | NotPermitted string | OtherOSError string

fun os_text :: "os_error \<Rightarrow> string" where
  "os_text (FileNotFoundError m) = m"
| "os_text (NotPermitted m) = m"
| "os_text (OtherOSError m) = m"

datatype entropy_error =
    InvalidEntropyConfiguration string
  | FileAccessError string
  | UnsupportedFileTypeError string
  | EntropyValueError string

record entropy_config =
  ec_block_size :: int
  ec_read_chunk_size :: int
  ec_threshold :: pyfloat
  ec_max_reported_blocks :: int

definition default_entropy_config :: entropy_config where
  "default_entropy_config = \<lparr>ec_block_size = 4096, ec_read_chunk_size = 1024 * 1024,
     ec_threshold = Fin (15 / 2), ec_max_reported_blocks = 4096\<rparr>"

definition make_entropy_config :: "entropy_config \<Rightarrow> entropy_error + entropy_config" where
  "make_entropy_config c =
     (if ec_block_size c \<le> 0 then Inl (InvalidEntropyConfiguration ''block_size must be greater than zero'')
      else if ec_read_chunk_size c < ec_block_size c
        then Inl (InvalidEntropyConfiguration ''read_chunk_size must be greater than or equal to block_size'')
      else if ec_read_chunk_size c mod ec_block_size c \<noteq> 0
        then Inl (InvalidEntropyConfiguration ''read_chunk_size must be an exact multiple of block_size'')
      else if \<not> (float_ge (ec_threshold c) (Fin 0) \<and> float_ge (Fin 8) (ec_threshold c))
        then Inl (InvalidEntropyConfiguration ''provisional_high_entropy_threshold must be between 0 and 8'')
      else if ec_max_reported_blocks c \<le> 0
        then Inl (InvalidEntropyConfiguration ''max_reported_blocks must be greater than zero'')
      else Inr c)"

section \<open>Counting\<close>

type_synonym plogp = "nat list \<Rightarrow> nat \<Rightarrow> rat"

definition bincount :: "bytes \<Rightarrow> nat list" where
  "bincount data = map (\<lambda>v. length (filter (\<lambda>b. unat b = v) data)) [0..<256]"

definition counts_entropy :: "plogp \<Rightarrow> nat list \<Rightarrow> nat \<Rightarrow> rat" where
  "counts_entropy np counts n = np (filter (\<lambda>c. 0 < c) counts) n"

definition shannon_entropy :: "plogp \<Rightarrow> bytes \<Rightarrow> rat" where
  "shannon_entropy np data = (if data = [] then 0 else counts_entropy np (bincount data) (length data))"

section \<open>The stream\<close>

record block_entropy =
  be_index :: nat
  be_offset :: int
  be_size :: nat
  be_entropy :: rat
  be_above :: bool

record entropy_acc =
  ea_hist :: "nat list"
  ea_blocks :: "rat list"
  ea_reported :: "block_entropy list"
  ea_bytes :: nat
  ea_high :: nat
  ea_index :: nat
  ea_carry :: bytes

definition ceil_div :: "int \<Rightarrow> int \<Rightarrow> int" where
  "ceil_div a b = \<lceil>(of_int a :: rat) / of_int b\<rceil>"

definition expected_blocks :: "entropy_config \<Rightarrow> int \<Rightarrow> int" where
  "expected_blocks c fsize = (if fsize \<noteq> 0 then ceil_div fsize (ec_block_size c) else 0)"

definition sample_stride :: "entropy_config \<Rightarrow> int \<Rightarrow> int" where
  "sample_stride c fsize = max 1 (ceil_div (expected_blocks c fsize) (ec_max_reported_blocks c))"

definition empty_acc :: entropy_acc where
  "empty_acc = \<lparr>ea_hist = replicate 256 0, ea_blocks = [], ea_reported = [], ea_bytes = 0, ea_high = 0,
     ea_index = 0, ea_carry = []\<rparr>"

text \<open>The body of the block loop, also run on the last incomplete block.\<close>

definition add_block :: "plogp \<Rightarrow> entropy_config \<Rightarrow> int \<Rightarrow> bytes \<Rightarrow> entropy_acc \<Rightarrow> entropy_acc" where
  "add_block np c stride block a =
     (let entropy = shannon_entropy np block;
          above = float_ge (Fin entropy) (ec_threshold c)
      in a\<lparr>ea_blocks := ea_blocks a @ [entropy],
           ea_high := ea_high a + (if above then 1 else 0),
           ea_reported := (if int (ea_index a) mod stride = 0
             then ea_reported a @ [\<lparr>be_index = ea_index a, be_offset = int (ea_index a) * ec_block_size c,
               be_size = length block, be_entropy = round6 entropy, be_above = above\<rparr>]
             else ea_reported a),
           ea_index := Suc (ea_index a)\<rparr>)"

text \<open>\<open>buffer[start : start + block_size] for start in range(0, complete_size, block_size)\<close>.\<close>

definition complete_size :: "nat \<Rightarrow> bytes \<Rightarrow> nat" where
  "complete_size bs buffer = length buffer div bs * bs"

definition full_blocks :: "nat \<Rightarrow> bytes \<Rightarrow> bytes list" where
  "full_blocks bs buffer = map (\<lambda>i. take bs (drop (i * bs) buffer)) [0..<length buffer div bs]"

definition absorb_chunk :: "plogp \<Rightarrow> entropy_config \<Rightarrow> int \<Rightarrow> bytes \<Rightarrow> entropy_acc \<Rightarrow> entropy_acc" where
  "absorb_chunk np c stride chunk a =
     (let bs = nat (ec_block_size c);
          buffer = ea_carry a @ chunk;
          a1 = a\<lparr>ea_bytes := ea_bytes a + length chunk, ea_hist := map2 (+) (ea_hist a) (bincount chunk)\<rparr>;
          a2 = fold (add_block np c stride) (full_blocks bs buffer) a1
      in a2\<lparr>ea_carry := drop (complete_size bs buffer) buffer\<rparr>)"

definition read_failure :: "string \<Rightarrow> os_error \<Rightarrow> entropy_error" where
  "read_failure label e = (case e of
      NotPermitted _ \<Rightarrow> FileAccessError (''permission denied while reading file: '' @ label)
    | _ \<Rightarrow> FileAccessError (''cannot read file '' @ label @ '': '' @ os_text e))"

text \<open>\<open>rd k\<close> answers the k-th read; an empty chunk is the end of the file.\<close>

type_synonym stream = "nat \<Rightarrow> os_error + bytes"

partial_function (option) read_chunks ::
  "plogp \<Rightarrow> entropy_config \<Rightarrow> int \<Rightarrow> string \<Rightarrow> stream \<Rightarrow> nat \<Rightarrow> entropy_acc \<Rightarrow> (entropy_error + entropy_acc) option" where
  "read_chunks np c stride label rd k a = (case rd k of
      Inl e \<Rightarrow> Some (Inl (read_failure label e))
    | Inr chunk \<Rightarrow>
        if chunk = [] then Some (Inr a)
        else read_chunks np c stride label rd (Suc k) (absorb_chunk np c stride chunk a))"

declare read_chunks.simps [code]

definition finish_carry :: "plogp \<Rightarrow> entropy_config \<Rightarrow> int \<Rightarrow> entropy_acc \<Rightarrow> entropy_acc" where
  "finish_carry np c stride a = (if ea_carry a \<noteq> [] then add_block np c stride (ea_carry a) a else a)"

section \<open>The report\<close>

record entropy_report =
  er_file_size :: int
  er_bytes_analyzed :: nat
  er_whole_file_entropy :: rat
  er_block_size :: int
  er_block_count :: nat
  er_high_entropy_block_count :: nat
  er_high_entropy_block_ratio :: rat
  er_min_block_entropy :: rat
  er_max_block_entropy :: rat
  er_mean_block_entropy :: rat
  er_threshold :: pyfloat
  er_threshold_status :: string
  er_reported_blocks :: "block_entropy list"
  er_blocks_truncated :: bool
  er_report_sample_stride :: int

definition list_min0 :: "rat list \<Rightarrow> rat" where
  "list_min0 xs = (if xs = [] then 0 else fold min (tl xs) (hd xs))"

definition list_max0 :: "rat list \<Rightarrow> rat" where
  "list_max0 xs = (if xs = [] then 0 else fold max (tl xs) (hd xs))"

definition make_report :: "plogp \<Rightarrow> entropy_config \<Rightarrow> int \<Rightarrow> int \<Rightarrow> entropy_acc \<Rightarrow> entropy_report" where
  "make_report np c fsize stride a =
     (let n = length (ea_blocks a) in
      \<lparr>er_file_size = fsize, er_bytes_analyzed = ea_bytes a,
       er_whole_file_entropy = round6 (if ea_bytes a \<noteq> 0 then counts_entropy np (ea_hist a) (ea_bytes a) else 0),
       er_block_size = ec_block_size c, er_block_count = n, er_high_entropy_block_count = ea_high a,
       er_high_entropy_block_ratio = round6 (if n \<noteq> 0 then of_nat (ea_high a) / of_nat n else 0),
       er_min_block_entropy = round6 (list_min0 (ea_blocks a)),
       er_max_block_entropy = round6 (list_max0 (ea_blocks a)),
       er_mean_block_entropy = round6 (if n \<noteq> 0 then sum_list (ea_blocks a) / of_nat n else 0),
       er_threshold = ec_threshold c, er_threshold_status = ''PROVISIONAL_NOT_CALIBRATED'',
       er_reported_blocks = ea_reported a, er_blocks_truncated = (length (ea_reported a) < n),
       er_report_sample_stride = stride\<rparr>)"

definition conclude :: "plogp \<Rightarrow> entropy_config \<Rightarrow> int \<Rightarrow> int \<Rightarrow> entropy_acc \<Rightarrow> entropy_error + entropy_report" where
  "conclude np c fsize stride a =
     (if int (ea_bytes a) \<noteq> fsize
      then Inl (FileAccessError (''file changed or was incompletely read: expected '' @ show_int fsize @
             '' bytes, read '' @ show_nat (ea_bytes a)))
      else Inr (make_report np c fsize stride a))"

definition analyze_stream ::
  "plogp \<Rightarrow> entropy_config \<Rightarrow> stream \<Rightarrow> int \<Rightarrow> string \<Rightarrow> (entropy_error + entropy_report) option" where
  "analyze_stream np c rd fsize label =
     (let stride = sample_stride c fsize in
      map_option (\<lambda>r. case r of Inl e \<Rightarrow> Inl e | Inr a \<Rightarrow> conclude np c fsize stride (finish_carry np c stride a))
        (read_chunks np c stride label rd 0 empty_acc))"

section \<open>Opening the target\<close>

record file_meta =
  fm_mode :: int
  fm_uid :: int
  fm_gid :: int
  fm_dev :: int
  fm_ino :: int
  fm_size :: int
  fm_mtime_ns :: int

definition S_IFMT :: "int \<Rightarrow> int" where
  "S_IFMT mode = mode div 4096 mod 16 * 4096"

definition S_ISLNK :: "int \<Rightarrow> bool" where
  "S_ISLNK mode = (S_IFMT mode = 0xA000)"

definition S_ISREG :: "int \<Rightarrow> bool" where
  "S_ISREG mode = (S_IFMT mode = 0x8000)"

definition validate_target :: "string \<Rightarrow> os_error + file_meta \<Rightarrow> entropy_error + file_meta" where
  "validate_target path lstat = (case lstat of
      Inl (FileNotFoundError _) \<Rightarrow> Inl (FileAccessError (''file does not exist: '' @ path))
    | Inl (NotPermitted _) \<Rightarrow> Inl (FileAccessError (''permission denied while stating file: '' @ path))
    | Inl (OtherOSError m) \<Rightarrow> Inl (FileAccessError (''cannot stat file '' @ path @ '': '' @ m))
    | Inr meta \<Rightarrow>
        if S_ISLNK (fm_mode meta)
        then Inl (UnsupportedFileTypeError (''symbolic links are not scanned by the Stage 3 analyser: '' @ path))
        else if \<not> S_ISREG (fm_mode meta)
        then Inl (UnsupportedFileTypeError (''target is not a regular file: '' @ path))
        else Inr meta)"

definition open_binary :: "string \<Rightarrow> os_error + stream \<Rightarrow> entropy_error + stream" where
  "open_binary path opened = (case opened of
      Inl (NotPermitted _) \<Rightarrow> Inl (FileAccessError (''permission denied while opening file: '' @ path))
    | Inl e \<Rightarrow> Inl (FileAccessError (''cannot open file '' @ path @ '': '' @ os_text e))
    | Inr rd \<Rightarrow> Inr rd)"

definition entropy_analyze ::
  "plogp \<Rightarrow> entropy_config \<Rightarrow> string \<Rightarrow> os_error + file_meta \<Rightarrow> os_error + stream \<Rightarrow> (entropy_error + entropy_report) option" where
  "entropy_analyze np c path lstat opened = (case validate_target path lstat of
      Inl e \<Rightarrow> Some (Inl e)
    | Inr meta \<Rightarrow> (case open_binary path opened of
        Inl e \<Rightarrow> Some (Inl e)
      | Inr rd \<Rightarrow> analyze_stream np c rd (fm_size meta) path))"

text \<open>\<open>duplicated\<close> is the outcome of \<open>dup\<close>, \<open>lseek\<close> and \<open>fdopen\<close>.\<close>

definition analyze_open_fd ::
  "plogp \<Rightarrow> entropy_config \<Rightarrow> int \<Rightarrow> string option \<Rightarrow> os_error + file_meta \<Rightarrow> os_error + stream \<Rightarrow>
     (entropy_error + entropy_report) option" where
  "analyze_open_fd np c fd label fstat duplicated =
     (let name = (\<lambda>alt. case label of Some l \<Rightarrow> if l \<noteq> '''' then l else alt | None \<Rightarrow> alt) in
      if fd < 0 then Some (Inl (EntropyValueError ''file descriptor must be non-negative''))
      else (case fstat of
        Inl e \<Rightarrow> Some (Inl (FileAccessError (''cannot stat open file descriptor '' @ show_int fd @ '': '' @ os_text e)))
      | Inr meta \<Rightarrow>
          if \<not> S_ISREG (fm_mode meta)
          then Some (Inl (UnsupportedFileTypeError (''open descriptor is not a regular file: '' @ name (show_int fd))))
          else (case duplicated of
            Inl e \<Rightarrow> Some (Inl (FileAccessError (''cannot duplicate open file descriptor '' @ show_int fd @ '': '' @ os_text e)))
          | Inr rd \<Rightarrow> analyze_stream np c rd (fm_size meta) (name (''fd:'' @ show_int fd)))))"

definition whole_file_entropy ::
  "plogp \<Rightarrow> entropy_config \<Rightarrow> string \<Rightarrow> os_error + file_meta \<Rightarrow> os_error + stream \<Rightarrow> (entropy_error + rat) option" where
  "whole_file_entropy np c path lstat opened =
     map_option (map_sum id er_whole_file_entropy) (entropy_analyze np c path lstat opened)"

definition block_level_entropy ::
  "plogp \<Rightarrow> entropy_config \<Rightarrow> string \<Rightarrow> os_error + file_meta \<Rightarrow> os_error + stream \<Rightarrow>
     (entropy_error + block_entropy list) option" where
  "block_level_entropy np c path lstat opened =
     map_option (map_sum id er_reported_blocks) (entropy_analyze np c path lstat opened)"

section \<open>Streaming against the whole file\<close>

lemma full_blocks_append:
  assumes "0 < bs"
  shows "full_blocks bs (D @ C) = full_blocks bs D @ full_blocks bs (drop (complete_size bs D) D @ C)" (is ?blocks)
    and "drop (complete_size bs (D @ C)) (D @ C) =
      drop (complete_size bs (drop (complete_size bs D) D @ C)) (drop (complete_size bs D) D @ C)" (is ?rest)
proof -
  define q where "q = length D div bs"
  define R where "R = drop (q * bs) D"
  have qle: "q * bs \<le> length D" by (simp add: q_def)
  have R: "drop (complete_size bs D) D = R" by (simp add: R_def q_def complete_size_def)
  have "length (D @ C) = q * bs + length (R @ C)" using qle by (simp add: R_def)
  then have len: "length (D @ C) div bs = q + length (R @ C) div bs"
    using assms div_mult_self3 [of bs q "length (R @ C)"] by (simp only:)
  have shift: "drop ((q + i) * bs) (D @ C) = drop (i * bs) (R @ C)" for i
    using qle by (simp add: R_def add_mult_distrib add.commute flip: drop_drop)
  have early: "take bs (drop (i * bs) (D @ C)) = take bs (drop (i * bs) D)" if "i < q" for i
  proof -
    have "i * bs + bs \<le> length D" using that qle mult_le_mono1 [of "Suc i" q bs] by simp
    then show ?thesis by simp
  qed
  have "full_blocks bs (D @ C) = map (\<lambda>i. take bs (drop (i * bs) (D @ C))) [0..<q] @
      map (\<lambda>i. take bs (drop (i * bs) (D @ C))) [q..<q + length (R @ C) div bs]"
    by (simp only: full_blocks_def len map_append upt_add_eq_append [of 0 q, simplified])
  also have "map (\<lambda>i. take bs (drop (i * bs) (D @ C))) [0..<q] = full_blocks bs D"
    using early by (auto simp: full_blocks_def q_def)
  also have "[q..<q + length (R @ C) div bs] = map (\<lambda>i. q + i) [0..<length (R @ C) div bs]"
    using map_add_upt [of q] by (simp add: add.commute)
  finally show ?blocks unfolding R by (simp only: full_blocks_def [of bs "R @ C"] map_map o_def shift)
  have "drop (complete_size bs (D @ C)) (D @ C) = drop ((q + length (R @ C) div bs) * bs) (D @ C)"
    by (simp only: complete_size_def len)
  then show ?rest unfolding R shift by (simp only: complete_size_def)
qed

lemma bincount_append: "bincount (D @ C) = map2 (+) (bincount D) (bincount C)"
  by (simp add: bincount_def zip_map1 zip_map2 zip_same_conv_map)

text \<open>What a run of the block loop adds.\<close>

definition is_high :: "plogp \<Rightarrow> entropy_config \<Rightarrow> bytes \<Rightarrow> bool" where
  "is_high np c b = float_ge (Fin (shannon_entropy np b)) (ec_threshold c)"

definition block_row :: "plogp \<Rightarrow> entropy_config \<Rightarrow> nat \<times> bytes \<Rightarrow> block_entropy" where
  "block_row np c ib = \<lparr>be_index = fst ib, be_offset = int (fst ib) * ec_block_size c, be_size = length (snd ib),
     be_entropy = round6 (shannon_entropy np (snd ib)), be_above = is_high np c (snd ib)\<rparr>"

definition sampled_rows :: "plogp \<Rightarrow> entropy_config \<Rightarrow> int \<Rightarrow> nat \<Rightarrow> bytes list \<Rightarrow> block_entropy list" where
  "sampled_rows np c stride n bl = map (block_row np c) (filter (\<lambda>ib. int (fst ib) mod stride = 0) (enumerate n bl))"

lemma fold_add_block:
  "fold (add_block np c stride) bl a =
     a\<lparr>ea_blocks := ea_blocks a @ map (shannon_entropy np) bl,
       ea_reported := ea_reported a @ sampled_rows np c stride (ea_index a) bl,
       ea_high := ea_high a + length (filter (is_high np c) bl),
       ea_index := ea_index a + length bl\<rparr>"
  by (induction bl arbitrary: a)
    (simp_all add: add_block_def sampled_rows_def block_row_def is_high_def Let_def)

definition acc_of :: "plogp \<Rightarrow> entropy_config \<Rightarrow> int \<Rightarrow> bytes \<Rightarrow> entropy_acc" where
  "acc_of np c stride D =
     (let bl = full_blocks (nat (ec_block_size c)) D in
      \<lparr>ea_hist = bincount D, ea_blocks = map (shannon_entropy np) bl, ea_reported = sampled_rows np c stride 0 bl,
       ea_bytes = length D, ea_high = length (filter (is_high np c) bl), ea_index = length bl,
       ea_carry = drop (complete_size (nat (ec_block_size c)) D) D\<rparr>)"

lemma sampled_rows_append:
  "sampled_rows np c stride n (xs @ ys) = sampled_rows np c stride n xs @ sampled_rows np c stride (n + length xs) ys"
  by (simp add: sampled_rows_def enumerate_append_eq)

lemma sampled_rows_Nil: "sampled_rows np c stride n [] = []"
  by (simp add: sampled_rows_def)

lemma absorb_acc_of:
  assumes "0 < ec_block_size c"
  shows "absorb_chunk np c stride chunk (acc_of np c stride D) = acc_of np c stride (D @ chunk)"
proof -
  let ?bs = "nat (ec_block_size c)"
  have bs: "0 < ?bs" using assms by simp
  show ?thesis
    unfolding acc_of_def [of np c stride "D @ chunk"] full_blocks_append(1) [OF bs, of D chunk]
      full_blocks_append(2) [OF bs, of D chunk]
    by (simp add: absorb_chunk_def acc_of_def Let_def fold_add_block bincount_append sampled_rows_append)
qed

lemma acc_of_Nil: "acc_of np c stride [] = empty_acc"
  by (simp add: acc_of_def empty_acc_def full_blocks_def bincount_def sampled_rows_def map_replicate_const)

text \<open>\<open>delivers rd k cs\<close>: from the k-th read on the stream hands out the chunks \<open>cs\<close> and then ends.\<close>

fun delivers :: "stream \<Rightarrow> nat \<Rightarrow> bytes list \<Rightarrow> bool" where
  "delivers rd k [] = (rd k = Inr [])"
| "delivers rd k (ch # cs) = (ch \<noteq> [] \<and> rd k = Inr ch \<and> delivers rd (Suc k) cs)"

lemma read_chunks_delivers:
  assumes "0 < ec_block_size c"
  shows "delivers rd k cs \<Longrightarrow> read_chunks np c stride label rd k (acc_of np c stride D) =
    Some (Inr (acc_of np c stride (D @ concat cs)))"
proof (induction cs arbitrary: k D)
  case Nil
  then show ?case by (simp add: read_chunks.simps)
next
  case (Cons ch cs)
  then show ?case
    using Cons.IH [of "Suc k" "D @ ch"] by (subst read_chunks.simps) (simp add: absorb_acc_of [OF assms])
qed

text \<open>Every run that returns saw the end of the stream or an error.\<close>

definition saw_end :: "stream \<Rightarrow> nat \<Rightarrow> entropy_error + entropy_acc \<Rightarrow> bool" where
  "saw_end rd k r = (case r of Inr _ \<Rightarrow> \<exists>cs. delivers rd k cs | Inl _ \<Rightarrow> \<exists>n e. k \<le> n \<and> rd n = Inl e)"

lemma saw_end_step: "saw_end rd (Suc k) r \<Longrightarrow> rd k = Inr ch \<Longrightarrow> ch \<noteq> [] \<Longrightarrow> saw_end rd k r"
  unfolding saw_end_def
  by (cases r) (auto intro: exI [where x = "ch # cs" for cs] Suc_leD)

lemma read_chunks_some:
  assumes "read_chunks np c stride label rd k a = Some r"
  shows "saw_end rd k r"
proof (rule read_chunks.raw_induct [where P = "\<lambda>_ _ _ _ rd k _ r. saw_end rd k r", OF _ assms], goal_cases)
  case (1 rc np c stride label rd k a r)
  show ?case
  proof (cases "rd k")
    case (Inl e)
    then show ?thesis using 1(2) by (auto simp: saw_end_def intro!: exI [where x = k])
  next
    case (Inr chunk)
    show ?thesis
    proof (cases "chunk = []")
      case True
      then have "r = Inr a" and "delivers rd k []" using 1(2) Inr by simp_all
      then show ?thesis by (auto simp: saw_end_def intro!: exI [where x = "[]"])
    next
      case False
      then have "rc np c stride label rd (Suc k) (absorb_chunk np c stride chunk a) = Some r" using 1(2) Inr by simp
      then have "saw_end rd (Suc k) r" by (rule 1(1))
      from saw_end_step [OF this Inr False] show ?thesis .
    qed
  qed
qed

section \<open>The reference report\<close>

text \<open>The blocks of a file cut from the front, and the report computed from them without any streaming.\<close>

function split_blocks :: "nat \<Rightarrow> bytes \<Rightarrow> bytes list" where
  "split_blocks bs D = (if bs = 0 \<or> D = [] then [] else take bs D # split_blocks bs (drop bs D))"
  by pat_completeness auto

termination
  by (relation "measure (\<lambda>(bs, D). length D)") auto

declare split_blocks.simps [simp del]

definition reference_report :: "plogp \<Rightarrow> entropy_config \<Rightarrow> bytes \<Rightarrow> entropy_report" where
  "reference_report np c D =
     (let n = int (length D); bl = split_blocks (nat (ec_block_size c)) D; es = map (shannon_entropy np) bl;
          hi = length (filter (is_high np c) bl); stride = sample_stride c n;
          rows = sampled_rows np c stride 0 bl
      in \<lparr>er_file_size = n, er_bytes_analyzed = length D, er_whole_file_entropy = round6 (shannon_entropy np D),
          er_block_size = ec_block_size c, er_block_count = length bl, er_high_entropy_block_count = hi,
          er_high_entropy_block_ratio = round6 (if bl \<noteq> [] then of_nat hi / of_nat (length bl) else 0),
          er_min_block_entropy = round6 (list_min0 es), er_max_block_entropy = round6 (list_max0 es),
          er_mean_block_entropy = round6 (if bl \<noteq> [] then sum_list es / of_nat (length bl) else 0),
          er_threshold = ec_threshold c, er_threshold_status = ''PROVISIONAL_NOT_CALIBRATED'',
          er_reported_blocks = rows, er_blocks_truncated = (length rows < length bl),
          er_report_sample_stride = stride\<rparr>)"

lemma full_blocks_short: "length D < bs \<Longrightarrow> full_blocks bs D = []"
  by (simp add: full_blocks_def)

lemma full_blocks_one: "0 < bs \<Longrightarrow> length D = bs \<Longrightarrow> full_blocks bs D = [D]"
  by (simp add: full_blocks_def)

lemma split_blocks_full:
  "0 < bs \<Longrightarrow> split_blocks bs D = full_blocks bs D @
    (if drop (complete_size bs D) D = [] then [] else [drop (complete_size bs D) D])"
proof (induction bs D rule: split_blocks.induct)
  case (1 bs D)
  show ?case
  proof (cases "length D < bs")
    case True
    then show ?thesis by (simp add: split_blocks.simps full_blocks_short complete_size_def)
  next
    case False
    let ?T = "take bs D" and ?R = "drop bs D"
    have T: "length ?T = bs" using False by simp
    then have c: "complete_size bs ?T = bs" using "1.prems" by (simp add: complete_size_def)
    have "full_blocks bs (?T @ ?R) = ?T # full_blocks bs ?R"
      using full_blocks_append(1) [OF "1.prems", of ?T ?R] full_blocks_one [OF "1.prems" T] c by simp
    moreover have "drop (complete_size bs (?T @ ?R)) (?T @ ?R) = drop (complete_size bs ?R) ?R"
      using full_blocks_append(2) [OF "1.prems", of ?T ?R] c by simp
    moreover have "split_blocks bs D = ?T # split_blocks bs ?R"
      using False "1.prems" by (subst split_blocks.simps) auto
    moreover have "split_blocks bs ?R = full_blocks bs ?R @
        (if drop (complete_size bs ?R) ?R = [] then [] else [drop (complete_size bs ?R) ?R])"
      using 1(1) 1(2) False by (cases "D = []") auto
    ultimately show ?thesis by (simp only: append_take_drop_id append_Cons)
  qed
qed

lemma finish_acc_of:
  assumes "0 < ec_block_size c"
  shows "make_report np c (int (length D)) (sample_stride c (int (length D)))
      (finish_carry np c (sample_stride c (int (length D))) (acc_of np c (sample_stride c (int (length D))) D))
    = reference_report np c D"
proof -
  define stride where "stride = sample_stride c (int (length D))"
  define bs where "bs = nat (ec_block_size c)"
  define carry where "carry = drop (complete_size bs D) D"
  have split: "split_blocks bs D = full_blocks bs D @ (if carry = [] then [] else [carry])"
    using split_blocks_full [of bs D] assms by (simp add: bs_def carry_def)
  let ?a = "finish_carry np c stride (acc_of np c stride D)"
  have "?a = (acc_of np c stride D)\<lparr>ea_blocks := map (shannon_entropy np) (split_blocks bs D),
      ea_reported := sampled_rows np c stride 0 (split_blocks bs D),
      ea_high := length (filter (is_high np c) (split_blocks bs D)), ea_index := length (split_blocks bs D)\<rparr>"
    using fold_add_block [of np c stride "[carry]" "acc_of np c stride D"]
    by (simp add: split finish_carry_def acc_of_def Let_def sampled_rows_append sampled_rows_Nil flip: bs_def carry_def)
  then show ?thesis
    by (simp add: make_report_def reference_report_def Let_def acc_of_def shannon_entropy_def
        flip: stride_def bs_def)
qed

lemma valid_config:
  assumes "make_entropy_config c = Inr c'"
  shows "c' = c" "0 < ec_block_size c" "0 < ec_max_reported_blocks c"
  using assms by (auto simp: make_entropy_config_def split: if_splits)

lemma streaming_run:
  assumes "make_entropy_config c = Inr c" and "delivers rd 0 cs"
  shows "analyze_stream np c rd fsize label = Some
    (if int (length (concat cs)) = fsize then Inr (reference_report np c (concat cs))
     else Inl (FileAccessError (''file changed or was incompletely read: expected '' @ show_int fsize @
            '' bytes, read '' @ show_nat (length (concat cs)))))"
proof -
  note c = valid_config [OF assms(1)]
  have "read_chunks np c stride label rd 0 empty_acc = Some (Inr (acc_of np c stride (concat cs)))" for stride
    using read_chunks_delivers [OF c(2) assms(2), of np stride label "[]"] by (simp add: acc_of_Nil)
  moreover have "ea_bytes (finish_carry np c stride (acc_of np c stride D)) = length D" for stride D
    by (simp add: finish_carry_def acc_of_def add_block_def Let_def)
  ultimately show ?thesis
    using finish_acc_of [OF c(2), of np "concat cs"] by (auto simp: analyze_stream_def conclude_def Let_def)
qed

text \<open>C11: Reading in pieces does not matter. For every valid configuration and every way the reads cut a
  file into chunks, the streaming analysis, which counts bytes chunk by chunk and carries incomplete blocks
  over, returns the report computed from the whole file; when the number of bytes read differs from
  the size the file was announced with, it is the error of an incomplete read.\<close>

theorem streaming_is_whole_file:
  assumes "make_entropy_config c = Inr c" and "delivers rd 0 cs"
  shows "analyze_stream np c rd fsize label = Some
    (if int (length (concat cs)) = fsize then Inr (reference_report np c (concat cs))
     else Inl (FileAccessError (''file changed or was incompletely read: expected '' @ show_int fsize @
            '' bytes, read '' @ show_nat (length (concat cs)))))"
  by (rule streaming_run [OF assms])

theorem streaming_is_whole_file_witness:
  "analyze_stream (\<lambda>cs n. of_nat (length cs)) default_entropy_config
     (\<lambda>k. if k = 0 then Inr [1, 2] else if k = 1 then Inr [1] else Inr []) 3 ''/f''
   = Some (Inr (reference_report (\<lambda>cs n. of_nat (length cs)) default_entropy_config [1, 2, 1]))"
proof -
  have "make_entropy_config default_entropy_config = Inr default_entropy_config"
    by (simp add: make_entropy_config_def default_entropy_config_def)
  from streaming_is_whole_file [OF this, of _ "[[1, 2], [1]]"] show ?thesis by simp
qed

section \<open>The sample of reported blocks\<close>

lemma length_full_blocks: "length (full_blocks bs D) = length D div bs"
  by (simp add: full_blocks_def)

lemma ceil_div_nat: "0 < b \<Longrightarrow> ceil_div (int a) (int b) = int (a div b + (if a mod b = 0 then 0 else 1))"
proof -
  assume b: "0 < b"
  show ?thesis
  proof (cases "a mod b = 0")
    case True
    then obtain q where "a = b * q" by (auto simp: mod_eq_0_iff_dvd dvd_def)
    then show ?thesis using b by (simp add: ceil_div_def)
  next
    case False
    let ?q = "a div b"
    have "a = ?q * b + a mod b" by simp
    then have "(of_nat a :: rat) = of_nat ?q * of_nat b + of_nat (a mod b)" by (metis of_nat_add of_nat_mult)
    moreover have "(0::rat) < of_nat (a mod b)" "of_nat (a mod b) < (of_nat b :: rat)"
      using False b by (simp_all add: pos_mod_bound)
    ultimately have "of_nat ?q < (of_nat a :: rat) / of_nat b" "(of_nat a :: rat) / of_nat b \<le> of_nat ?q + 1"
      using b by (simp_all add: field_simps)
    then have "\<lceil>(of_nat a :: rat) / of_nat b\<rceil> = int ?q + 1" by (intro ceiling_unique) simp_all
    then show ?thesis using False by (simp add: ceil_div_def)
  qed
qed

lemma length_split_blocks:
  assumes "0 < bs"
  shows "int (length (split_blocks bs D)) = ceil_div (int (length D)) (int bs)"
proof -
  have "length (drop (complete_size bs D) D) = length D mod bs"
    by (simp add: complete_size_def minus_div_mult_eq_mod)
  then have "drop (complete_size bs D) D = [] \<longleftrightarrow> length D mod bs = 0" by (metis length_0_conv)
  then show ?thesis using assms by (simp add: split_blocks_full length_full_blocks ceil_div_nat)
qed

lemma multiples_below:
  assumes "0 < s" and "n \<le> s * m"
  shows "card {i. i < n \<and> i mod s = 0} \<le> (m::nat)"
proof -
  have "{i. i < n \<and> i mod s = 0} \<subseteq> (\<lambda>j. j * s) ` {..<m}"
  proof
    fix i assume "i \<in> {i. i < n \<and> i mod s = 0}"
    then have i: "i < s * m" "i = i div s * s" using assms by auto
    then have "i div s < m" by (metis less_mult_imp_div_less mult.commute)
    then show "i \<in> (\<lambda>j. j * s) ` {..<m}" using i(2) by blast
  qed
  then have "card {i. i < n \<and> i mod s = 0} \<le> card ((\<lambda>j. j * s) ` {..<m})" by (intro card_mono) auto
  also have "\<dots> \<le> m" using card_image_le [of "{..<m}"] by simp
  finally show ?thesis .
qed

lemma length_sampled_rows:
  "length (sampled_rows np c stride 0 bl) = card {i. i < length bl \<and> int i mod stride = 0}"
proof -
  have "length (sampled_rows np c stride 0 bl) = length (filter (\<lambda>i. int i mod stride = 0) (map fst (enumerate 0 bl)))"
    by (simp only: sampled_rows_def filter_map length_map o_def)
  also have "\<dots> = card {i. i < length bl \<and> int ([0..<length bl] ! i) mod stride = 0}"
    by (simp add: length_filter_conv_card)
  also have "{i. i < length bl \<and> int ([0..<length bl] ! i) mod stride = 0} = {i. i < length bl \<and> int i mod stride = 0}"
    by auto
  finally show ?thesis .
qed

lemma stride_covers:
  assumes "0 < ec_max_reported_blocks c" and "0 < ec_block_size c" and "n = length (split_blocks (nat (ec_block_size c)) D)"
  shows "int n \<le> sample_stride c (int (length D)) * ec_max_reported_blocks c"
proof -
  let ?m = "ec_max_reported_blocks c"
  have n: "expected_blocks c (int (length D)) = int n"
    using assms length_split_blocks [of "nat (ec_block_size c)" D]
    by (auto simp: expected_blocks_def split_blocks.simps)
  have "(of_int (int n) :: rat) / of_int ?m \<le> of_int (ceil_div (int n) ?m)" by (simp add: ceil_div_def)
  then have "(of_int (int n) :: rat) \<le> of_int (ceil_div (int n) ?m * ?m)" using assms(1) by (simp add: field_simps)
  then have "int n \<le> ceil_div (int n) ?m * ?m" by linarith
  also have "\<dots> \<le> sample_stride c (int (length D)) * ?m"
    using assms(1) by (simp add: sample_stride_def n)
  finally show ?thesis .
qed

lemma reported_bounded:
  assumes "0 < ec_max_reported_blocks c" and "0 < ec_block_size c"
  shows "int (length (er_reported_blocks (reference_report np c D))) \<le> ec_max_reported_blocks c"
proof -
  let ?bl = "split_blocks (nat (ec_block_size c)) D" and ?s = "sample_stride c (int (length D))"
  have s: "1 \<le> ?s" by (simp add: sample_stride_def)
  have "int (length ?bl) \<le> int (nat ?s * nat (ec_max_reported_blocks c))"
    using stride_covers [OF assms refl] s assms by simp
  then have "length ?bl \<le> nat ?s * nat (ec_max_reported_blocks c)" by (simp only: of_nat_le_iff)
  then have "card {i. i < length ?bl \<and> i mod nat ?s = 0} \<le> nat (ec_max_reported_blocks c)"
    using s by (intro multiples_below) simp_all
  moreover have "int i mod ?s = 0 \<longleftrightarrow> i mod nat ?s = 0" for i
    using s of_nat_mod [of i "nat ?s", where ?'a = int] of_nat_eq_0_iff [of "i mod nat ?s", where ?'a = int] by simp
  ultimately show ?thesis using assms(1) by (simp add: reference_report_def Let_def length_sampled_rows)
qed

lemma analyze_stream_report:
  assumes "make_entropy_config c = Inr c" and "analyze_stream np c rd fsize label = Some (Inr r)"
  obtains cs where "delivers rd 0 cs" "fsize = int (length (concat cs))" "r = reference_report np c (concat cs)"
proof -
  let ?s = "sample_stride c fsize"
  obtain x where x: "read_chunks np c ?s label rd 0 empty_acc = Some x"
    and r: "(case x of Inl e \<Rightarrow> Inl e | Inr a \<Rightarrow> conclude np c fsize ?s (finish_carry np c ?s a)) = Inr r"
    using assms(2) by (auto simp: analyze_stream_def Let_def)
  then obtain a where "x = Inr a" by (cases x) auto
  then obtain cs where cs: "delivers rd 0 cs" using read_chunks_some [OF x] by (auto simp: saw_end_def)
  then show ?thesis
    using that streaming_run [OF assms(1) cs] assms(2) by (auto split: if_splits)
qed

text \<open>C12: The report stays small. Whatever the file and however it is read, an analysis that returns a
  report lists at most the configured number of blocks, counts every block of the file, and has read exactly
  the announced number of bytes.\<close>

theorem entropy_report_bounded:
  assumes "make_entropy_config c = Inr c" and "analyze_stream np c rd fsize label = Some (Inr r)"
  shows "int (length (er_reported_blocks r)) \<le> ec_max_reported_blocks c \<and>
    int (er_bytes_analyzed r) = fsize \<and> int (er_block_count r) = ceil_div fsize (ec_block_size c) \<and>
    er_high_entropy_block_count r \<le> er_block_count r"
proof -
  note c = valid_config [OF assms(1)]
  obtain cs where "fsize = int (length (concat cs))" "r = reference_report np c (concat cs)"
    using analyze_stream_report [OF assms] by blast
  then show ?thesis
    using reported_bounded [OF c(3,2)] length_split_blocks [of "nat (ec_block_size c)" "concat cs"] c(2)
    by (simp add: reference_report_def Let_def)
qed

text \<open>A configuration with blocks of two bytes and at most one reported block.\<close>

definition tiny_config :: entropy_config where
  "tiny_config = \<lparr>ec_block_size = 2, ec_read_chunk_size = 4, ec_threshold = Fin 7, ec_max_reported_blocks = 1\<rparr>"

lemma tiny_config_valid: "make_entropy_config tiny_config = Inr tiny_config"
  by (simp add: make_entropy_config_def tiny_config_def)

definition tiny_stream :: stream where
  "tiny_stream k = (if k = 0 then Inr [7, 7, 7] else if k = 1 then Inr [9, 9] else Inr [])"

theorem entropy_report_bounded_witness:
  "\<exists>r. analyze_stream (\<lambda>cs n. of_nat (length cs)) tiny_config tiny_stream 5 ''/f'' = Some (Inr r) \<and>
     length (er_reported_blocks r) \<le> 1 \<and> er_block_count r = 3"
proof -
  have d: "delivers tiny_stream 0 [[7, 7, 7], [9, 9]]" by (simp add: tiny_stream_def)
  have run: "analyze_stream (\<lambda>cs n. of_nat (length cs)) tiny_config tiny_stream 5 ''/f'' =
      Some (Inr (reference_report (\<lambda>cs n. of_nat (length cs)) tiny_config [7, 7, 7, 9, 9]))"
    using streaming_run [OF tiny_config_valid d, of _ 5 "''/f''"] by simp
  have "ceil_div 5 2 = 3" using ceil_div_nat [of 2 5] by simp
  then show ?thesis
    using entropy_report_bounded [OF tiny_config_valid run] run by (auto simp: tiny_config_def)
qed

section \<open>Termination of the loop\<close>

lemma read_chunks_ends: "rd (k + n) = Inr [] \<or> (\<exists>e. rd (k + n) = Inl e) \<Longrightarrow>
    \<exists>r. read_chunks np c stride label rd k a = Some r"
proof (induction n arbitrary: k a)
  case 0
  then show ?case by (auto simp: read_chunks.simps)
next
  case (Suc n)
  show ?case
  proof (cases "\<exists>ch. rd k = Inr ch \<and> ch \<noteq> []")
    case True
    then obtain ch where "rd k = Inr ch" "ch \<noteq> []" by blast
    then show ?thesis using Suc.IH [of "Suc k" "absorb_chunk np c stride ch a"] Suc.prems
      by (subst read_chunks.simps) simp
  next
    case False
    then show ?thesis by (cases "rd k") (auto simp: read_chunks.simps)
  qed
qed

lemma delivers_end: "delivers rd k cs \<Longrightarrow> \<exists>n. rd n = Inr []"
  by (induction cs arbitrary: k) auto

text \<open>The analysis of a stream returns exactly when some read reaches the end of the file or fails; a
  file that grows faster than it is read is the only case in which it does not.\<close>

theorem entropy_analysis_returns:
  "(\<exists>r. analyze_stream np c rd fsize label = Some r) \<longleftrightarrow> (\<exists>n. rd n = Inr [] \<or> (\<exists>e. rd n = Inl e))"
proof -
  have "(\<exists>r. analyze_stream np c rd fsize label = Some r) \<longleftrightarrow>
      (\<exists>r. read_chunks np c (sample_stride c fsize) label rd 0 empty_acc = Some r)"
    by (auto simp: analyze_stream_def Let_def)
  also have "\<dots> \<longleftrightarrow> (\<exists>n. rd n = Inr [] \<or> (\<exists>e. rd n = Inl e))"
  proof
    assume "\<exists>r. read_chunks np c (sample_stride c fsize) label rd 0 empty_acc = Some r"
    then obtain r where "saw_end rd 0 r" using read_chunks_some by blast
    then show "\<exists>n. rd n = Inr [] \<or> (\<exists>e. rd n = Inl e)"
      using delivers_end [of rd 0] by (cases r) (auto simp: saw_end_def)
  next
    assume "\<exists>n. rd n = Inr [] \<or> (\<exists>e. rd n = Inl e)"
    then obtain n where "rd (0 + n) = Inr [] \<or> (\<exists>e. rd (0 + n) = Inl e)" by auto
    then show "\<exists>r. read_chunks np c (sample_stride c fsize) label rd 0 empty_acc = Some r"
      by (rule read_chunks_ends)
  qed
  finally show ?thesis .
qed

end
