(* ===== verification/Pe_Inspector.thy ===== *)
theory Pe_Inspector
  imports Effects Py_Json Entropy
begin

unbundle bit_operations_syntax

text \<open>
  The bounded inspection of Windows executables (\<open>analyzer/pe.py\<close>): the reader with its byte budget, the
  headers, the section table, the raw ranges and the certificate range, and the result on every path.

  The file is an argument: \<open>pf_open\<close> is the exception of opening it, if any (an operating-system error or a
  \<open>ValueError\<close> for a path that cannot be one), \<open>pf_fstat\<close> the size the descriptor
  reports, and \<open>pf_read k off n\<close> the answer to the k-th read, of \<open>n\<close> bytes at offset \<open>off\<close>, which may fail or be
  short. The state records the reads made. Whether a code point outside ASCII is printable
  is decided by the interpreter's Unicode tables and is an argument (\<open>printable\<close>). The phases of \<open>_inspect\<close> are
  separate definitions, in the order of the code, with the local variables they pass on as arguments.
\<close>

section \<open>Result and exceptions\<close>

record pe_analysis =
  pa_is_pe :: bool
  pa_valid :: "bool option"
  pa_summary :: pydict
  pa_sections :: "pydict list"
  pa_anomalies :: "string list"
  pa_warnings :: "(string, string) dict list"

definition MAX_PE_HEADER_OFFSET :: int where "MAX_PE_HEADER_OFFSET = 1024 * 1024"

definition MAX_OPTIONAL_HEADER_SIZE :: int where "MAX_OPTIONAL_HEADER_SIZE = 4096"

definition MAX_SECTIONS :: int where "MAX_SECTIONS = 96"

definition SECTION_HEADER_SIZE :: int where "SECTION_HEADER_SIZE = 40"

definition MAX_INSPECTION_BYTES :: int where
  "MAX_INSPECTION_BYTES = 64 + 4 + 20 + MAX_OPTIONAL_HEADER_SIZE + MAX_SECTIONS * 40"

lemmas pe_limits = MAX_PE_HEADER_OFFSET_def MAX_OPTIONAL_HEADER_SIZE_def MAX_SECTIONS_def SECTION_HEADER_SIZE_def
  MAX_INSPECTION_BYTES_def

definition new_pe_analysis :: pe_analysis where
  "new_pe_analysis = \<lparr>pa_is_pe = False, pa_valid = None,
     pa_summary = [(''status'', PStr ''NOT_PE''), (''candidate'', PBool False), (''scope'', PStr ''headers_and_sections''),
       (''signature_verification'', PStr ''NOT_PERFORMED''), (''bytes_read'', PInt 0)],
     pa_sections = [], pa_anomalies = [], pa_warnings = []\<rparr>"

text \<open>The exceptions that can occur inside the inspection.\<close>

datatype pe_exc =
    InspectionIssue string string bool   \<comment> \<open>code, message, unsupported\<close>
  | StructError string
  | FileError os_error
  | BadPath string                       \<comment> \<open>\<open>ValueError\<close> of \<open>open\<close>\<close>

record pe_file =
  pf_open :: "(os_error + string) option"
  pf_fstat :: "os_error + int"
  pf_read :: "nat \<Rightarrow> int \<Rightarrow> int \<Rightarrow> os_error + bytes"

record pe_state =
  ps_result :: pe_analysis
  ps_reads :: "(int \<times> int) list"

type_synonym 'a pe_op = "(pe_state, pe_exc, 'a) eff"

definition put_result :: "(pe_analysis \<Rightarrow> pe_analysis) \<Rightarrow> unit pe_op" where
  "put_result f = eff_modify (\<lambda>s. s\<lparr>ps_result := f (ps_result s)\<rparr>)"

text \<open>\<open>result.summary.update(...)\<close>, \<open>raise _InspectionIssue(...)\<close> under a condition.\<close>

definition update_summary :: "pydict \<Rightarrow> unit pe_op" where
  "update_summary kvs = put_result (\<lambda>r. r\<lparr>pa_summary := dict_update (pa_summary r) kvs\<rparr>)"

definition issue_if :: "bool \<Rightarrow> string \<Rightarrow> string \<Rightarrow> bool \<Rightarrow> unit pe_op" where
  "issue_if b code msg unsupported = eff_when b (eff_raise (InspectionIssue code msg unsupported))"

section \<open>The reader\<close>

definition bytes_read :: "pe_analysis \<Rightarrow> int" where
  "bytes_read r = (case dict_get (pa_summary r) ''bytes_read'' of Some (PInt n) \<Rightarrow> n | _ \<Rightarrow> 0)"

definition stream_read :: "pe_file \<Rightarrow> int \<Rightarrow> int \<Rightarrow> bytes pe_op" where
  "stream_read f off n = (\<lambda>s.
     (map_sum FileError id (pf_read f (length (ps_reads s)) off n), s\<lparr>ps_reads := ps_reads s @ [(off, n)]\<rparr>))"

definition reader_read :: "pe_file \<Rightarrow> int \<Rightarrow> int \<Rightarrow> int \<Rightarrow> string \<Rightarrow> bytes pe_op" where
  "reader_read f fsize off n code =
     eff_bind (issue_if (off < 0 \<or> n < 0 \<or> off + n > fsize) code ''Declared PE structure exceeds the file bounds'' False) (\<lambda>_.
     eff_bind (eff_gets (\<lambda>s. bytes_read (ps_result s))) (\<lambda>got.
     eff_bind (issue_if (got + n > MAX_INSPECTION_BYTES) ''PE_READ_LIMIT'' ''PE inspection read limit reached'' True) (\<lambda>_.
     eff_bind (stream_read f off n) (\<lambda>data.
     eff_bind (eff_gets (\<lambda>s. bytes_read (ps_result s))) (\<lambda>old.
     eff_bind (update_summary [(''bytes_read'', PInt (old + int (length data)))]) (\<lambda>_.
     eff_bind (issue_if (int (length data) \<noteq> n) code ''PE structure was truncated while reading'' False) (\<lambda>_.
     eff_return data)))))))"

text \<open>\<open>struct.unpack_from\<close> of \<open>n\<close> bytes at \<open>off\<close>, and \<open>struct.unpack\<close> of a whole buffer: the length check; the fields
  are read by \<open>le_field\<close>.\<close>

definition unpack_from :: "bytes \<Rightarrow> nat \<Rightarrow> nat \<Rightarrow> unit pe_op" where
  "unpack_from buf off n = eff_when (length buf < off + n) (eff_raise (StructError
     (''unpack_from requires a buffer of at least '' @ show_nat (off + n) @ '' bytes for unpacking '' @ show_nat n @
      '' bytes at offset '' @ show_nat off @ '' (actual buffer size is '' @ show_nat (length buf) @ '')'')))"

definition unpack_all :: "bytes \<Rightarrow> nat \<Rightarrow> unit pe_op" where
  "unpack_all buf n = eff_when (length buf \<noteq> n) (eff_raise (StructError
     (''unpack requires a buffer of '' @ show_nat n @ '' bytes'')))"

definition le_field :: "nat \<Rightarrow> nat \<Rightarrow> bytes \<Rightarrow> int" where
  "le_field off n buf = int (le_nat (field_at off n buf))"

section \<open>DOS and COFF headers\<close>

definition starts_MZ :: "bytes \<Rightarrow> bool" where
  "starts_MZ data = (take 2 data = [0x4D, 0x5A])"

definition machine_name :: "int \<Rightarrow> string" where
  "machine_name m = (case map_of [(0x014C, ''x86''), (0x8664, ''x64''), (0x01C4, ''ARM''), (0xAA64, ''ARM64'')] m of
      Some n \<Rightarrow> n | None \<Rightarrow> ''machine-0x'' @ hex4 (nat m))"

text \<open>Everything up to the signature; \<open>None\<close> is the early return on a file that is no candidate.\<close>

definition inspect_dos :: "pe_file \<Rightarrow> int \<Rightarrow> int option pe_op" where
  "inspect_dos f fsize =
     eff_bind (reader_read f fsize 0 (min 64 fsize) ''PE_DOS_HEADER_TRUNCATED'') (\<lambda>dos.
     if \<not> starts_MZ dos then eff_return None
     else
     eff_bind (update_summary [(''status'', PStr ''INCOMPLETE''), (''candidate'', PBool True)]) (\<lambda>_.
     eff_bind (issue_if (length dos < 64) ''PE_DOS_HEADER_TRUNCATED'' ''MZ header does not contain e_lfanew'' False) (\<lambda>_.
     eff_bind (unpack_from dos 0x3C 4) (\<lambda>_.
     let pe_offset = le_field 0x3C 4 dos in
     eff_bind (update_summary [(''pe_header_offset'', PInt pe_offset)]) (\<lambda>_.
     eff_bind (issue_if (pe_offset < 64 \<or> pe_offset + 24 > fsize) ''PE_HEADER_OUT_OF_BOUNDS''
       ''e_lfanew does not identify an in-file PE header'' False) (\<lambda>_.
     eff_bind (issue_if (pe_offset > MAX_PE_HEADER_OFFSET) ''PE_HEADER_OFFSET_LIMIT''
       ''PE header offset exceeds the inspection limit'' True) (\<lambda>_.
     eff_bind (reader_read f fsize pe_offset 4 ''PE_SIGNATURE_TRUNCATED'') (\<lambda>sig.
     eff_bind (issue_if (sig \<noteq> [0x50, 0x45, 0, 0]) ''PE_SIGNATURE_MISSING''
       ''MZ candidate does not have the PE signature'' False) (\<lambda>_.
     eff_bind (put_result (\<lambda>r. r\<lparr>pa_is_pe := True\<rparr>)) (\<lambda>_.
     eff_return (Some pe_offset)))))))))))"

text \<open>The COFF header; the section count and the size of the optional header go on.\<close>

definition inspect_coff :: "pe_file \<Rightarrow> int \<Rightarrow> int \<Rightarrow> (int \<times> int) pe_op" where
  "inspect_coff f fsize pe_offset =
     eff_bind (reader_read f fsize (pe_offset + 4) 20 ''PE_COFF_HEADER_TRUNCATED'') (\<lambda>coff.
     eff_bind (unpack_all coff 20) (\<lambda>_.
     let machine = le_field 0 2 coff; count = le_field 2 2 coff; timestamp = le_field 4 4 coff;
         optional_size = le_field 16 2 coff; characteristics = le_field 18 2 coff in
     eff_bind (update_summary [(''machine'', PInt machine), (''architecture'', PStr (machine_name machine)),
       (''section_count'', PInt count), (''coff_timestamp'', PInt timestamp), (''characteristics'', PInt characteristics),
       (''is_dll'', PBool (characteristics AND 0x2000 \<noteq> 0)), (''optional_header_size'', PInt optional_size)]) (\<lambda>_.
     eff_bind (issue_if (count = 0) ''PE_NO_SECTIONS'' ''PE image declares no sections'' False) (\<lambda>_.
     eff_bind (issue_if (count > MAX_SECTIONS) ''PE_SECTION_COUNT_LIMIT''
       ''Section count exceeds the supported limit of 96'' True) (\<lambda>_.
     eff_bind (issue_if (optional_size < 2) ''PE_OPTIONAL_HEADER_TRUNCATED''
       ''PE image has no complete optional-header magic'' False) (\<lambda>_.
     eff_bind (issue_if (optional_size > MAX_OPTIONAL_HEADER_SIZE) ''PE_OPTIONAL_HEADER_LIMIT''
       ''Optional header exceeds the inspection limit'' True) (\<lambda>_.
     eff_return (count, optional_size))))))))"

section \<open>Optional header and data directories\<close>

text \<open>The fixed part; the buffer, the base of the directories, their number and \<open>SizeOfHeaders\<close> go on.\<close>

definition inspect_optional :: "pe_file \<Rightarrow> int \<Rightarrow> int \<Rightarrow> int \<Rightarrow> (bytes \<times> int \<times> int \<times> int) pe_op" where
  "inspect_optional f fsize optional_offset optional_size =
     eff_bind (reader_read f fsize optional_offset optional_size ''PE_OPTIONAL_HEADER_TRUNCATED'') (\<lambda>opt.
     eff_bind (unpack_from opt 0 2) (\<lambda>_.
     let magic = le_field 0 2 opt in
     eff_bind (update_summary [(''optional_header_magic'', PInt magic)]) (\<lambda>_.
     eff_bind (issue_if (magic \<noteq> 0x10B \<and> magic \<noteq> 0x20B) ''PE_OPTIONAL_HEADER_UNSUPPORTED''
       ''Only PE32 and PE32+ optional headers are supported'' True) (\<lambda>_.
     let is_plus = (magic = 0x20B); directory_base = (if is_plus then 112 else 96 :: int) in
     eff_bind (update_summary [(''format'', PStr (if is_plus then ''PE32+'' else ''PE32''))]) (\<lambda>_.
     eff_bind (issue_if (int (length opt) < directory_base) ''PE_OPTIONAL_HEADER_TRUNCATED''
       ''Optional header lacks required Windows fields'' False) (\<lambda>_.
     eff_bind (unpack_from opt 16 4) (\<lambda>_.
     eff_bind (unpack_from opt (if is_plus then 24 else 28) (if is_plus then 8 else 4)) (\<lambda>_.
     eff_bind (unpack_from opt 32 8) (\<lambda>_.
     eff_bind (unpack_from opt 56 8) (\<lambda>_.
     eff_bind (unpack_from opt 68 4) (\<lambda>_.
     eff_bind (unpack_from opt (nat (directory_base - 4)) 4) (\<lambda>_.
     let image_base = le_field (if is_plus then 24 else 28) (if is_plus then 8 else 4) opt;
         headers_size = le_field 60 4 opt;
         directories = le_field (nat (directory_base - 4)) 4 opt in
     eff_bind (update_summary [(''entry_point_rva'', PInt (le_field 16 4 opt)), (''image_base'', PInt image_base),
       (''section_alignment'', PInt (le_field 32 4 opt)), (''file_alignment'', PInt (le_field 36 4 opt)),
       (''size_of_image'', PInt (le_field 56 4 opt)), (''size_of_headers'', PInt headers_size),
       (''subsystem'', PInt (le_field 68 2 opt)), (''dll_characteristics'', PInt (le_field 70 2 opt)),
       (''data_directory_count'', PInt directories)]) (\<lambda>_.
     eff_bind (issue_if (directories > (optional_size - directory_base) div 8) ''PE_DATA_DIRECTORIES_TRUNCATED''
       ''Directory count exceeds the declared optional header'' False) (\<lambda>_.
     eff_return (opt, directory_base, directories, headers_size)))))))))))))))"

text \<open>\<open>directory_values\<close>: the address and size of the first sixteen entries.\<close>

fun read_directories :: "bytes \<Rightarrow> int \<Rightarrow> int list \<Rightarrow> (int, int \<times> int) dict \<Rightarrow> (int, int \<times> int) dict pe_op" where
  "read_directories opt base [] acc = eff_return acc"
| "read_directories opt base (i # is) acc =
     (let off = nat (base + i * 8) in
      eff_bind (unpack_from opt off 8) (\<lambda>_.
      read_directories opt base is (dict_set i (le_field off 4 opt, le_field (off + 4) 4 opt) acc)))"

definition dir_entry :: "(int, int \<times> int) dict \<Rightarrow> int \<Rightarrow> int \<times> int" where
  "dir_entry d i = dict_get_or d i (0, 0)"

definition inspect_directories :: "bytes \<Rightarrow> int \<Rightarrow> int \<Rightarrow> (int, int \<times> int) dict pe_op" where
  "inspect_directories opt base directories =
     eff_bind (read_directories opt base [0..min directories 16 - 1] []) (\<lambda>dv.
     eff_bind (update_summary [
       (''import_directory_present'', PBool (snd (dir_entry dv 1) \<noteq> 0)),
       (''export_directory_present'', PBool (snd (dir_entry dv 0) \<noteq> 0)),
       (''debug_directory_present'', PBool (snd (dir_entry dv 6) \<noteq> 0)),
       (''certificate_table_present'', PBool (fst (dir_entry dv 4) \<noteq> 0 \<and> snd (dir_entry dv 4) \<noteq> 0)),
       (''packer_indicators'', PList [])]) (\<lambda>_.
     eff_return dv))"

section \<open>Section names\<close>

text \<open>
  \<open>bytes.decode("utf-8", errors="replace")\<close>: an ill-formed sequence becomes one replacement character per
  maximal well-formed prefix. \<open>more n lo hi cp s\<close> reads \<open>n\<close> more bytes of a sequence, the next one
  between \<open>lo\<close> and \<open>hi\<close>, and returns the code point and what remains.
\<close>

fun more :: "nat \<Rightarrow> nat \<Rightarrow> nat \<Rightarrow> nat \<Rightarrow> nat list \<Rightarrow> nat \<times> nat list" where
  "more 0 lo hi cp s = (cp, s)"
| "more (Suc n) lo hi cp [] = (0xFFFD, [])"
| "more (Suc n) lo hi cp (b # s) =
     (if lo \<le> b \<and> b \<le> hi then more n 0x80 0xBF (cp * 64 + b mod 64) s else (0xFFFD, b # s))"

definition decode_one :: "nat \<Rightarrow> nat list \<Rightarrow> nat \<times> nat list" where
  "decode_one b s =
     (if b < 0x80 then (b, s)
      else if 0xC2 \<le> b \<and> b \<le> 0xDF then more 1 0x80 0xBF (b mod 32) s
      else if 0xE0 \<le> b \<and> b \<le> 0xEF
        then more 2 (if b = 0xE0 then 0xA0 else 0x80) (if b = 0xED then 0x9F else 0xBF) (b mod 16) s
      else if 0xF0 \<le> b \<and> b \<le> 0xF4
        then more 3 (if b = 0xF0 then 0x90 else 0x80) (if b = 0xF4 then 0x8F else 0xBF) (b mod 8) s
      else (0xFFFD, s))"

lemma length_more: "length (snd (more n lo hi cp s)) \<le> length s"
  by (induction n lo hi cp s rule: more.induct) auto

lemma length_decode_one: "length (snd (decode_one b s)) \<le> length s"
  by (simp add: decode_one_def length_more)

function decode_replace :: "nat list \<Rightarrow> nat list" where
  "decode_replace [] = []"
| "decode_replace (b # s) = fst (decode_one b s) # decode_replace (snd (decode_one b s))"
  by pat_completeness auto

termination
  by (relation "measure length") (auto simp: le_imp_less_Suc length_decode_one)

definition is_printable :: "(nat \<Rightarrow> bool) \<Rightarrow> nat \<Rightarrow> bool" where
  "is_printable printable cp = (if cp < 128 then 32 \<le> cp \<and> cp < 127 else printable cp)"

definition section_name :: "(nat \<Rightarrow> bool) \<Rightarrow> bytes \<Rightarrow> string" where
  "section_name printable row =
     concat (map (\<lambda>cp. if is_printable printable cp then utf8_of cp else ''?'')
       (decode_replace (map unat (takeWhile (\<lambda>b. b \<noteq> 0) (take 8 row)))))"

section \<open>Sections\<close>

definition packer_names :: "string list" where
  "packer_names = [''upx0'', ''upx1'', ''upx2'', ''.aspack'', ''.adata'', ''.themida'', ''.vmp0'', ''.vmp1'']"

definition append_indicator :: "string \<Rightarrow> unit pe_op" where
  "append_indicator t = put_result (\<lambda>r. r\<lparr>pa_summary := dict_set ''packer_indicators''
     (case dict_get (pa_summary r) ''packer_indicators'' of Some (PList xs) \<Rightarrow> PList (xs @ [PStr t]) | _ \<Rightarrow> PList [PStr t])
     (pa_summary r)\<rparr>)"

definition add_anomaly :: "string \<Rightarrow> unit pe_op" where
  "add_anomaly t = put_result (\<lambda>r. r\<lparr>pa_anomalies := pa_anomalies r @ [t]\<rparr>)"

definition section_dict :: "int \<Rightarrow> string \<Rightarrow> bytes \<Rightarrow> pydict" where
  "section_dict index name row =
     (let flags = le_field 36 4 row in
      [(''index'', PInt index), (''name'', PStr name), (''virtual_address'', PInt (le_field 12 4 row)),
       (''virtual_size'', PInt (le_field 8 4 row)), (''raw_offset'', PInt (le_field 20 4 row)),
       (''raw_size'', PInt (le_field 16 4 row)), (''characteristics'', PInt flags),
       (''flags'', PDict [(''readable'', PBool (flags AND 0x40000000 \<noteq> 0)),
          (''writable'', PBool (flags AND 0x80000000 \<noteq> 0)), (''executable'', PBool (flags AND 0x20000000 \<noteq> 0))])])"

type_synonym raw_range = "int \<times> int \<times> int"

definition inspect_section :: "(nat \<Rightarrow> bool) \<Rightarrow> int \<Rightarrow> int \<Rightarrow> bytes \<Rightarrow> raw_range list \<Rightarrow> int \<Rightarrow> raw_range list pe_op" where
  "inspect_section printable fsize headers_size tab raw_ranges index =
     (let row = take (nat SECTION_HEADER_SIZE) (drop (nat (index * SECTION_HEADER_SIZE)) tab);
          name = section_name printable row in
      eff_bind (unpack_from row 8 16) (\<lambda>_.
      eff_bind (unpack_from row 36 4) (\<lambda>_.
      let virtual_size = le_field 8 4 row; raw_size = le_field 16 4 row; raw_offset = le_field 20 4 row;
          flags = le_field 36 4 row in
      eff_bind (put_result (\<lambda>r. r\<lparr>pa_sections := pa_sections r @ [section_dict index name row]\<rparr>)) (\<lambda>_.
      eff_bind (eff_when (py_lower name \<in> set packer_names)
        (append_indicator (''SUSPICIOUS_SECTION_NAME:'' @ name))) (\<lambda>_.
      eff_bind (eff_when (raw_size \<noteq> 0 \<and> virtual_size > raw_size * 8)
        (append_indicator (''HIGH_VIRTUAL_RAW_RATIO:'' @ show_int index))) (\<lambda>_.
      eff_bind (issue_if (raw_size \<noteq> 0 \<and> (raw_offset < headers_size \<or> raw_offset + raw_size > fsize))
        ''PE_SECTION_RAW_RANGE_INVALID''
        (''Section '' @ show_int index @ '' raw data is outside the file or overlaps headers'') False) (\<lambda>_.
      eff_bind (eff_when (flags AND 0x80000000 \<noteq> 0 \<and> flags AND 0x20000000 \<noteq> 0)
        (add_anomaly (''PE_WRITABLE_EXECUTABLE_SECTION:'' @ show_int index))) (\<lambda>_.
      eff_return (if raw_size \<noteq> 0 then raw_ranges @ [(raw_offset, raw_offset + raw_size, index)] else raw_ranges)))))))))"

fun inspect_rows :: "(nat \<Rightarrow> bool) \<Rightarrow> int \<Rightarrow> int \<Rightarrow> bytes \<Rightarrow> raw_range list \<Rightarrow> int list \<Rightarrow> raw_range list pe_op" where
  "inspect_rows printable fsize headers_size tab raw_ranges [] = eff_return raw_ranges"
| "inspect_rows printable fsize headers_size tab raw_ranges (i # is) =
     eff_bind (inspect_section printable fsize headers_size tab raw_ranges i) (\<lambda>rr.
     inspect_rows printable fsize headers_size tab rr is)"

definition inspect_sections ::
  "(nat \<Rightarrow> bool) \<Rightarrow> pe_file \<Rightarrow> int \<Rightarrow> int \<Rightarrow> int \<Rightarrow> int \<Rightarrow> raw_range list pe_op" where
  "inspect_sections printable f fsize table_offset n headers_size =
     (let table_end = table_offset + n * SECTION_HEADER_SIZE in
      eff_bind (issue_if (table_end > fsize) ''PE_SECTION_TABLE_TRUNCATED'' ''Section table exceeds the file bounds'' False) (\<lambda>_.
      eff_bind (issue_if (headers_size < table_end \<or> headers_size > fsize) ''PE_HEADERS_SIZE_INVALID''
        ''SizeOfHeaders does not contain the section table within the file'' False) (\<lambda>_.
      eff_bind (reader_read f fsize table_offset (n * SECTION_HEADER_SIZE) ''PE_SECTION_TABLE_TRUNCATED'') (\<lambda>tab.
      inspect_rows printable fsize headers_size tab [] [0..n - 1]))))"

section \<open>Raw ranges and the certificate range\<close>

definition adjacent_overlap :: "raw_range list \<Rightarrow> bool" where
  "adjacent_overlap rr = list_ex (\<lambda>(previous, current). fst current < fst (snd previous)) (zip rr (tl rr))"

definition inspect_ranges :: "int \<Rightarrow> int \<Rightarrow> (int, int \<times> int) dict \<Rightarrow> raw_range list \<Rightarrow> unit pe_op" where
  "inspect_ranges fsize headers_size dv raw_ranges0 =
     (let raw_ranges = sort raw_ranges0; (co, cs) = dir_entry dv 4 in
      eff_bind (issue_if (adjacent_overlap raw_ranges) ''PE_SECTION_RAW_OVERLAP''
        ''Raw data ranges of PE sections overlap'' False) (\<lambda>_.
      eff_bind (update_summary [(''certificate_table_present'', PBool (co \<noteq> 0 \<and> cs \<noteq> 0)),
        (''certificate_table_offset'', PInt co), (''certificate_table_size'', PInt cs)]) (\<lambda>_.
      eff_bind (eff_when (co \<noteq> 0 \<or> cs \<noteq> 0)
        (eff_bind (issue_if (co = 0 \<or> cs = 0 \<or> co < headers_size \<or> co + cs > fsize) ''PE_CERTIFICATE_RANGE_INVALID''
           ''Certificate directory has an incomplete or out-of-file range'' False) (\<lambda>_.
         issue_if (list_ex (\<lambda>(start, stop, _). co < stop \<and> start < co + cs) raw_ranges) ''PE_CERTIFICATE_SECTION_OVERLAP''
           ''Certificate directory overlaps raw section data'' False))) (\<lambda>_.
      eff_bind (put_result (\<lambda>r. r\<lparr>pa_valid := Some True\<rparr>)) (\<lambda>_.
      update_summary [(''status'', PStr ''COMPLETE'')])))))"

section \<open>The inspection\<close>

definition inspect :: "(nat \<Rightarrow> bool) \<Rightarrow> pe_file \<Rightarrow> int \<Rightarrow> unit pe_op" where
  "inspect printable f fsize =
     eff_bind (inspect_dos f fsize) (\<lambda>po. case po of None \<Rightarrow> eff_return () | Some pe_offset \<Rightarrow>
     eff_bind (inspect_coff f fsize pe_offset) (\<lambda>(count, optional_size).
     let optional_offset = pe_offset + 24 in
     eff_bind (inspect_optional f fsize optional_offset optional_size) (\<lambda>(opt, directory_base, directories, headers_size).
     eff_bind (inspect_directories opt directory_base directories) (\<lambda>dv.
     eff_bind (inspect_sections printable f fsize (optional_offset + optional_size) count headers_size) (\<lambda>raw_ranges.
     inspect_ranges fsize headers_size dv raw_ranges)))))"

definition pe_body :: "(nat \<Rightarrow> bool) \<Rightarrow> pe_file \<Rightarrow> unit pe_op" where
  "pe_body printable f = (case pf_open f of
      Some (Inl e) \<Rightarrow> eff_raise (FileError e)
    | Some (Inr m) \<Rightarrow> eff_raise (BadPath m)
    | None \<Rightarrow> eff_bind (eff_lift (map_sum FileError id (pf_fstat f))) (\<lambda>fsize. inspect printable f fsize))"

definition warning_dict :: "string \<Rightarrow> string \<Rightarrow> (string, string) dict" where
  "warning_dict code msg = [(''code'', code), (''message'', msg)]"

definition exc_text :: "pe_exc \<Rightarrow> string" where
  "exc_text e = (case e of InspectionIssue _ m _ \<Rightarrow> m | StructError m \<Rightarrow> m | FileError x \<Rightarrow> os_text x | BadPath m \<Rightarrow> m)"

definition handle_pe_exc :: "pe_exc \<Rightarrow> unit pe_op" where
  "handle_pe_exc e = (case e of
      InspectionIssue code msg unsupported \<Rightarrow> put_result (\<lambda>r. r\<lparr>
        pa_valid := (if unsupported then None else Some False),
        pa_summary := dict_set ''status'' (PStr (if unsupported then ''UNSUPPORTED'' else ''INCOMPLETE'')) (pa_summary r),
        pa_anomalies := pa_anomalies r @ [code], pa_warnings := pa_warnings r @ [warning_dict code msg]\<rparr>)
    | _ \<Rightarrow> put_result (\<lambda>r. r\<lparr>
        pa_valid := None, pa_summary := dict_set ''status'' (PStr ''ERROR'') (pa_summary r),
        pa_warnings := pa_warnings r @ [warning_dict ''PE_READ_ERROR'' (exc_text e)]\<rparr>))"

definition run_pe :: "(nat \<Rightarrow> bool) \<Rightarrow> pe_file \<Rightarrow> pe_state" where
  "run_pe printable f = snd (eff_catch (pe_body printable f) handle_pe_exc \<lparr>ps_result = new_pe_analysis, ps_reads = []\<rparr>)"

definition analyze_pe :: "(nat \<Rightarrow> bool) \<Rightarrow> pe_file \<Rightarrow> bytes option \<Rightarrow> pe_analysis" where
  "analyze_pe printable f head = (case head of
      Some h \<Rightarrow> if \<not> starts_MZ h then new_pe_analysis else ps_result (run_pe printable f)
    | None \<Rightarrow> ps_result (run_pe printable f))"

section \<open>Rules for the inspection\<close>

text \<open>
  \<open>reads_ok fsize B s\<close>: every read so far lies inside the file and at most \<open>B\<close> bytes were asked for. \<open>pe_at fsize B ...\<close>
  adds that the count in the summary is exact, and fixes the parts of the result the proofs follow: the
  sections, the two verdicts, \<open>SizeOfHeaders\<close> and the status. \<open>failed f fsize\<close> is what holds after an exception.
\<close>

definition reads_ok :: "int \<Rightarrow> int \<Rightarrow> pe_state \<Rightarrow> bool" where
  "reads_ok fsize B s \<longleftrightarrow> (\<forall>(off, n) \<in> set (ps_reads s). 0 \<le> off \<and> 0 \<le> n \<and> off + n \<le> fsize) \<and>
     sum_list (map snd (ps_reads s)) \<le> B"

record pe_shape =
  sh_sections :: "pydict list"
  sh_is_pe :: bool
  sh_valid :: "bool option"
  sh_headers :: "pyval option"
  sh_status :: "pyval option"
  sh_cert :: "pyval option \<times> pyval option"

definition shape :: "pe_analysis \<Rightarrow> pe_shape" where
  "shape r = \<lparr>sh_sections = pa_sections r, sh_is_pe = pa_is_pe r, sh_valid = pa_valid r,
     sh_headers = dict_get (pa_summary r) ''size_of_headers'', sh_status = dict_get (pa_summary r) ''status'',
     sh_cert = (dict_get (pa_summary r) ''certificate_table_offset'', dict_get (pa_summary r) ''certificate_table_size'')\<rparr>"

definition shape_update :: "pydict \<Rightarrow> pe_shape \<Rightarrow> pe_shape" where
  "shape_update kvs sh =
     (let new = (\<lambda>k old. case map_of (rev kvs) k of None \<Rightarrow> old | v \<Rightarrow> v) in
      sh\<lparr>sh_headers := new ''size_of_headers'' (sh_headers sh), sh_status := new ''status'' (sh_status sh),
         sh_cert := (new ''certificate_table_offset'' (fst (sh_cert sh)), new ''certificate_table_size'' (snd (sh_cert sh)))\<rparr>)"

definition pe_at :: "int \<Rightarrow> int \<Rightarrow> pe_shape \<Rightarrow> pe_state \<Rightarrow> bool" where
  "pe_at fsize B sh s \<longleftrightarrow> reads_ok fsize B s \<and> bytes_read (ps_result s) = sum_list (map snd (ps_reads s)) \<and>
     shape (ps_result s) = sh"

definition read_fails :: "pe_file \<Rightarrow> os_error \<Rightarrow> bool" where
  "read_fails f x \<longleftrightarrow> (\<exists>k off n. pf_read f k off n = Inl x)"

lemma read_failsI: "pf_read f k off n = Inl x \<Longrightarrow> read_fails f x"
  unfolding read_fails_def by blast

definition expected_exc :: "pe_file \<Rightarrow> pe_exc \<Rightarrow> bool" where
  "expected_exc f e = (case e of
      InspectionIssue code _ _ \<Rightarrow> code \<noteq> ''PE_READ_LIMIT''
    | StructError _ \<Rightarrow> False
    | FileError x \<Rightarrow> read_fails f x
    | BadPath _ \<Rightarrow> False)"

definition failed :: "pe_file \<Rightarrow> int \<Rightarrow> pe_exc \<Rightarrow> pe_state \<Rightarrow> bool" where
  "failed f fsize e s \<longleftrightarrow> reads_ok fsize MAX_INSPECTION_BYTES s \<and> expected_exc f e"

lemma reads_ok_mono: "reads_ok fsize B s \<Longrightarrow> B \<le> B' \<Longrightarrow> reads_ok fsize B' s"
  by (simp add: reads_ok_def)

lemma pe_at_mono: "pe_at fsize B sh s \<Longrightarrow> B \<le> B' \<Longrightarrow> pe_at fsize B' sh s"
  by (auto simp: pe_at_def intro: reads_ok_mono)

lemma pe_at_failed: "pe_at fsize B sh s \<Longrightarrow> B \<le> MAX_INSPECTION_BYTES \<Longrightarrow> expected_exc f e \<Longrightarrow> failed f fsize e s"
  by (auto simp: pe_at_def failed_def intro: reads_ok_mono)

lemma dict_get_update: "dict_get (dict_update d u) k = (case map_of (rev u) k of None \<Rightarrow> dict_get d k | Some v \<Rightarrow> Some v)"
  unfolding dict_update_def
  by (induction u arbitrary: d) (auto split: option.splits simp: map_add_def)

lemma issue_then:
  assumes "B \<le> MAX_INSPECTION_BYTES" and "code \<noteq> ''PE_READ_LIMIT''" and "\<not> b \<Longrightarrow> triple (pe_at fsize B sh) m Q (failed f fsize)"
  shows "triple (pe_at fsize B sh) (eff_bind (issue_if b code msg u) (\<lambda>_. m)) Q (failed f fsize)"
proof (rule triple_bind [where R = "\<lambda>_ s. pe_at fsize B sh s \<and> \<not> b"])
  show "triple (pe_at fsize B sh) (issue_if b code msg u) (\<lambda>_ s. pe_at fsize B sh s \<and> \<not> b) (failed f fsize)"
    using pe_at_failed [OF _ assms(1), of fsize sh _ f "InspectionIssue code msg u"] assms(2)
    by (auto simp: issue_if_def triple_def eff_when_def expected_exc_def)
qed (use assms(3) in \<open>auto intro: triple_pure\<close>)

lemma update_summary_triple:
  assumes "''bytes_read'' \<notin> fst ` set kvs"
  shows "triple (pe_at fsize B sh) (update_summary kvs) (\<lambda>_. pe_at fsize B (shape_update kvs sh)) E"
proof -
  have "map_of (rev kvs) ''bytes_read'' = None" using assms by (simp add: map_of_eq_None_iff)
  then show ?thesis
    unfolding update_summary_def put_result_def
    by (intro triple_modify)
      (auto simp: pe_at_def reads_ok_def shape_def shape_update_def bytes_read_def dict_get_update split: option.splits)
qed

lemma update_then:
  assumes "''bytes_read'' \<notin> fst ` set kvs" and "triple (pe_at fsize B (shape_update kvs sh)) m Q E"
  shows "triple (pe_at fsize B sh) (eff_bind (update_summary kvs) (\<lambda>_. m)) Q E"
  by (rule triple_bind [OF update_summary_triple]) (rule assms)+

lemma unpack_then:
  assumes "off + n \<le> length buf" and "triple P m Q E"
  shows "triple P (eff_bind (unpack_from buf off n) (\<lambda>_. m)) Q E"
  using assms by (auto simp: unpack_from_def eff_when_def triple_def eff_bind_def)

lemma unpack_all_then:
  assumes "length buf = n" and "triple P m Q E"
  shows "triple P (eff_bind (unpack_all buf n) (\<lambda>_. m)) Q E"
  using assms by (auto simp: unpack_all_def eff_when_def triple_def eff_bind_def)

text \<open>One read: its three outcomes.\<close>

lemma reader_read_run:
  "reader_read f fsize off n code s =
     (if off < 0 \<or> n < 0 \<or> off + n > fsize
      then (Inl (InspectionIssue code ''Declared PE structure exceeds the file bounds'' False), s)
      else if bytes_read (ps_result s) + n > MAX_INSPECTION_BYTES
      then (Inl (InspectionIssue ''PE_READ_LIMIT'' ''PE inspection read limit reached'' True), s)
      else let s' = s\<lparr>ps_reads := ps_reads s @ [(off, n)]\<rparr> in
        (case pf_read f (length (ps_reads s)) off n of
           Inl e \<Rightarrow> (Inl (FileError e), s')
         | Inr data \<Rightarrow>
             let s'' = s'\<lparr>ps_result := (ps_result s)\<lparr>pa_summary := dict_set ''bytes_read''
                 (PInt (bytes_read (ps_result s) + int (length data))) (pa_summary (ps_result s))\<rparr>\<rparr> in
             if int (length data) \<noteq> n then (Inl (InspectionIssue code ''PE structure was truncated while reading'' False), s'')
             else (Inr data, s'')))"
  by (simp add: reader_read_def issue_if_def eff_when_def stream_read_def update_summary_def put_result_def
      dict_update_def Let_def eff_bind_def split: sum.splits)

lemma reader_read_triple:
  assumes "B \<le> MAX_INSPECTION_BYTES" and "B + n \<le> MAX_INSPECTION_BYTES" and "code \<noteq> ''PE_READ_LIMIT''"
  shows "triple (pe_at fsize B sh) (reader_read f fsize off n code)
    (\<lambda>data s. pe_at fsize (B + n) sh s \<and> int (length data) = n \<and> 0 \<le> off \<and> off + n \<le> fsize) (failed f fsize)"
proof (rule tripleI)
  fix s data s'
  assume "pe_at fsize B sh s" "reader_read f fsize off n code s = (Inr data, s')"
  then show "pe_at fsize (B + n) sh s' \<and> int (length data) = n \<and> 0 \<le> off \<and> off + n \<le> fsize"
    by (auto simp: reader_read_run pe_at_def reads_ok_def shape_def bytes_read_def Let_def split: if_splits sum.splits)
next
  fix s e s'
  assume "pe_at fsize B sh s" "reader_read f fsize off n code s = (Inl e, s')"
  then show "failed f fsize e s'"
    using assms
    by (auto simp: reader_read_run pe_at_def reads_ok_def failed_def expected_exc_def Let_def
        split: if_splits sum.splits intro: read_failsI)
qed

lemma read_then:
  assumes "B \<le> MAX_INSPECTION_BYTES" and "B + n \<le> MAX_INSPECTION_BYTES" and "code \<noteq> ''PE_READ_LIMIT''"
    and "\<And>data. int (length data) = n \<Longrightarrow> 0 \<le> off \<Longrightarrow> off + n \<le> fsize \<Longrightarrow>
      triple (pe_at fsize (B + n) sh) (m data) Q (failed f fsize)"
  shows "triple (pe_at fsize B sh) (eff_bind (reader_read f fsize off n code) m) Q (failed f fsize)"
  by (rule triple_bind [OF reader_read_triple [OF assms(1-3)]]) (intro triple_pure assms(4); simp)

section \<open>The phases\<close>

abbreviation fresh_shape :: pe_shape where
  "fresh_shape \<equiv> \<lparr>sh_sections = [], sh_is_pe = False, sh_valid = None, sh_headers = None, sh_status = Some (PStr ''NOT_PE''), sh_cert = (None, None)\<rparr>"

definition pe_shape_of :: "pyval option \<Rightarrow> pydict list \<Rightarrow> pe_shape" where
  "pe_shape_of h S = \<lparr>sh_sections = S, sh_is_pe = True, sh_valid = None, sh_headers = h, sh_status = Some (PStr ''INCOMPLETE''), sh_cert = (None, None)\<rparr>"

lemma mark_pe: "triple (pe_at fsize B sh) (put_result (\<lambda>r. r\<lparr>pa_is_pe := True\<rparr>)) (\<lambda>_. pe_at fsize B (sh\<lparr>sh_is_pe := True\<rparr>)) E"
  unfolding put_result_def
  by (intro triple_modify) (auto simp: pe_at_def reads_ok_def shape_def bytes_read_def)

lemma budget: "triple (pe_at fsize B' sh) m Q E \<Longrightarrow> B \<le> B' \<Longrightarrow> triple (pe_at fsize B sh) m Q E"
  by (erule triple_weaken) (auto intro: pe_at_mono)

lemmas pe_steps = update_then issue_then unpack_then unpack_all_then read_then

lemma le_field_nonneg: "0 \<le> le_field off n buf"
  by (simp add: le_field_def)

lemma inspect_dos_triple:
  "triple (pe_at fsize 0 fresh_shape) (inspect_dos f fsize)
     (\<lambda>po s. case po of None \<Rightarrow> pe_at fsize 64 fresh_shape s | Some pe_offset \<Rightarrow> pe_at fsize 68 (pe_shape_of None []) s)
     (failed f fsize)"
  unfolding inspect_dos_def Let_def
proof (rule read_then, goal_cases)
  case (4 dos)
  show ?case
  proof (rule triple_if, goal_cases)
    case 1
    show ?case by (intro triple_return) (auto intro: pe_at_mono)
  next
    case 2
    show ?case
      by (rule budget [where B' = 64], intro pe_steps triple_bind [OF mark_pe] triple_return)
        (simp_all add: pe_limits pe_shape_of_def shape_update_def)
  qed
qed (simp_all add: pe_limits)

lemma shape_update_keep:
  "map_of (rev kvs) ''size_of_headers'' = None \<Longrightarrow> map_of (rev kvs) ''status'' = None \<Longrightarrow>
   map_of (rev kvs) ''certificate_table_offset'' = None \<Longrightarrow> map_of (rev kvs) ''certificate_table_size'' = None \<Longrightarrow>
   shape_update kvs sh = sh"
  by (simp add: shape_update_def)

lemma inspect_coff_triple:
  "triple (pe_at fsize 68 sh) (inspect_coff f fsize pe_offset)
     (\<lambda>(n, os) s. pe_at fsize 88 sh s \<and> 0 < n \<and> n \<le> 96 \<and> 2 \<le> os \<and> os \<le> 4096) (failed f fsize)"
  unfolding inspect_coff_def Let_def
  by (intro pe_steps triple_return) (auto simp: pe_limits order_less_le le_field_nonneg shape_update_keep)

lemma inspect_optional_triple:
  assumes "2 \<le> os" and "os \<le> 4096"
  shows "triple (pe_at fsize 88 (pe_shape_of h S)) (inspect_optional f fsize off os)
     (\<lambda>(opt, base, dirs, hs) s. pe_at fsize (88 + os) (pe_shape_of (Some (PInt hs)) S) s \<and>
        int (length opt) = os \<and> 0 \<le> base \<and> 0 \<le> dirs \<and> base + dirs * 8 \<le> os) (failed f fsize)"
  unfolding inspect_optional_def Let_def
  by (intro pe_steps triple_return)
    (use assms in \<open>auto simp: pe_limits pe_shape_of_def le_field_nonneg shape_update_def split: if_splits\<close>)

lemma read_directories_triple:
  assumes "\<forall>i \<in> set is. 0 \<le> i \<and> base + i * 8 + 8 \<le> int (length opt)" and "0 \<le> base"
  shows "triple P (read_directories opt base is acc) (\<lambda>_. P) E"
  using assms(1)
proof (induction "is" arbitrary: acc)
  case Nil
  show ?case unfolding read_directories.simps by (rule triple_return)
next
  case (Cons i "is")
  have "nat (base + i * 8) + 8 \<le> length opt" using Cons.prems assms(2) by auto
  then show ?case using Cons unfolding read_directories.simps Let_def by (intro unpack_then) auto
qed

lemma inspect_directories_triple:
  assumes "0 \<le> base" and "base + dirs * 8 \<le> int (length opt)"
  shows "triple (pe_at fsize B sh) (inspect_directories opt base dirs) (\<lambda>_. pe_at fsize B sh) E"
  unfolding inspect_directories_def
  by (rule triple_bind [OF read_directories_triple], use assms in force, rule assms, rule update_then)
    (auto simp: shape_update_keep intro!: triple_return)

text \<open>The raw range of a section entry, and where it may lie.\<close>

definition entry_int :: "pydict \<Rightarrow> string \<Rightarrow> int" where
  "entry_int d k = (case dict_get d k of Some (PInt n) \<Rightarrow> n | _ \<Rightarrow> 0)"

definition raw_start :: "pydict \<Rightarrow> int" where
  "raw_start d = entry_int d ''raw_offset''"

definition raw_stop :: "pydict \<Rightarrow> int" where
  "raw_stop d = entry_int d ''raw_offset'' + entry_int d ''raw_size''"

definition ranges_of :: "pydict \<Rightarrow> raw_range list" where
  "ranges_of d = (if raw_start d < raw_stop d then [(raw_start d, raw_stop d, entry_int d ''index'')] else [])"

definition placed :: "int \<Rightarrow> int \<Rightarrow> pydict \<Rightarrow> bool" where
  "placed hs fsize d \<longleftrightarrow> raw_start d < raw_stop d \<longrightarrow> hs \<le> raw_start d \<and> raw_stop d \<le> fsize"

lemma when_then:
  assumes "triple P m (\<lambda>_. P) E" and "triple P n Q E"
  shows "triple P (eff_bind (eff_when b m) (\<lambda>_. n)) Q E"
  by (rule triple_bind [where R = "\<lambda>_. P"]) (use assms in \<open>auto simp: eff_when_def intro: triple_return\<close>)

lemma indicator_triple: "triple (pe_at fsize B sh) (append_indicator t) (\<lambda>_. pe_at fsize B sh) E"
  and anomaly_triple: "triple (pe_at fsize B sh) (add_anomaly t) (\<lambda>_. pe_at fsize B sh) E"
  and add_section_triple: "triple (pe_at fsize B (pe_shape_of h S)) (put_result (\<lambda>r. r\<lparr>pa_sections := pa_sections r @ [d]\<rparr>))
    (\<lambda>_. pe_at fsize B (pe_shape_of h (S @ [d]))) E"
  unfolding append_indicator_def add_anomaly_def put_result_def
  by (intro triple_modify; auto simp: pe_at_def reads_ok_def shape_def bytes_read_def pe_shape_of_def)+

lemma section_entry:
  "raw_start (section_dict i name row) = le_field 20 4 row"
  "raw_stop (section_dict i name row) = le_field 20 4 row + le_field 16 4 row"
  "entry_int (section_dict i name row) ''index'' = i"
  by (simp_all add: raw_start_def raw_stop_def entry_int_def section_dict_def Let_def)

definition sections_read ::
  "int \<Rightarrow> int \<Rightarrow> int \<Rightarrow> pyval option \<Rightarrow> pydict list \<Rightarrow> int list \<Rightarrow> raw_range list \<Rightarrow> pe_state \<Rightarrow> bool" where
  "sections_read fsize B hs h S ix rr s \<longleftrightarrow> pe_at fsize B (pe_shape_of h S) s \<and>
     (rr = concat (map ranges_of S) \<and> (\<forall>d \<in> set S. placed hs fsize d) \<and> map (\<lambda>d. entry_int d ''index'') S = ix)"

lemma inspect_section_triple:
  assumes "B \<le> MAX_INSPECTION_BYTES" and "0 \<le> i" and "(i + 1) * 40 \<le> int (length tab)"
  shows "triple (sections_read fsize B hs h S ix rr) (inspect_section printable fsize hs tab rr i)
    (\<lambda>rr' s. \<exists>d. sections_read fsize B hs h (S @ [d]) (ix @ [i]) rr' s) (failed f fsize)"
proof -
  define row where "row = take (nat SECTION_HEADER_SIZE) (drop (nat (i * SECTION_HEADER_SIZE)) tab)"
  define d where "d = section_dict i (section_name printable row) row"
  have len: "length row = 40" using assms by (simp add: row_def pe_limits)
  show ?thesis
    unfolding sections_read_def [of fsize B hs h S ix rr] inspect_section_def Let_def row_def [symmetric] d_def [symmetric]
    by (rule triple_pure)
      (intro unpack_then triple_bind [OF add_section_triple] when_then indicator_triple anomaly_triple issue_then
          triple_return exI [where x = d],
        auto simp: len assms(1) sections_read_def ranges_of_def placed_def d_def section_entry le_field_nonneg order_less_le)
qed

lemma inspect_rows_triple:
  assumes "B \<le> MAX_INSPECTION_BYTES"
  shows "\<forall>i \<in> set is. 0 \<le> i \<and> (i + 1) * 40 \<le> int (length tab) \<Longrightarrow>
    triple (sections_read fsize B hs h S ix rr) (inspect_rows printable fsize hs tab rr is)
      (\<lambda>rr' s. \<exists>S'. sections_read fsize B hs h S' (ix @ is) rr' s) (failed f fsize)"
proof (induction "is" arbitrary: S ix rr)
  case Nil
  show ?case unfolding inspect_rows.simps by (rule triple_return) auto
next
  case (Cons i "is")
  have step: "triple (sections_read fsize B hs h S ix rr) (inspect_section printable fsize hs tab rr i)
      (\<lambda>rr' s. \<exists>d. sections_read fsize B hs h (S @ [d]) (ix @ [i]) rr' s) (failed f fsize)"
    using Cons.prems by (intro inspect_section_triple assms) auto
  show ?case
    unfolding inspect_rows.simps
    by (rule triple_bind [OF step], rule triple_ex) (use Cons.IH [where ix = "ix @ [i]"] Cons.prems in auto)
qed

lemma inspect_sections_triple:
  assumes "0 < n" and "n \<le> 96" and "os \<le> 4096"
  shows "triple (pe_at fsize (88 + os) (pe_shape_of h [])) (inspect_sections printable f fsize off n hs)
    (\<lambda>rr s. \<exists>S. sections_read fsize (88 + os + n * 40) hs h S [0..n - 1] rr s) (failed f fsize)"
proof -
  have B: "88 + os + n * 40 \<le> MAX_INSPECTION_BYTES" using assms by (simp add: pe_limits)
  have rows: "triple (pe_at fsize (88 + os + n * 40) (pe_shape_of h [])) (inspect_rows printable fsize hs tab [] [0..n - 1])
      (\<lambda>rr s. \<exists>S. sections_read fsize (88 + os + n * 40) hs h S [0..n - 1] rr s) (failed f fsize)"
    if "int (length tab) = n * 40" for tab
    using inspect_rows_triple [OF B, of "[0..n - 1]" tab fsize hs h "[]" "[]" "[]" printable f]
    by (rule triple_weaken) (use that in \<open>auto simp: sections_read_def\<close>)
  show ?thesis
    unfolding inspect_sections_def Let_def
    by (intro issue_then read_then) (use B assms rows in \<open>auto simp: pe_limits\<close>)
qed

section \<open>Disjoint ranges\<close>

definition raw_bytes :: "pydict \<Rightarrow> int set" where
  "raw_bytes d = {raw_start d..<raw_stop d}"

lemma adjacent_all:
  assumes "\<not> adjacent_overlap rr" and "\<forall>r \<in> set rr. fst r < fst (snd r)"
  shows "sorted_wrt (\<lambda>x y. fst (snd x) \<le> fst y) rr"
  using assms
proof (induction rr)
  case (Cons x xs)
  have tail: "sorted_wrt (\<lambda>x y. fst (snd x) \<le> fst y) xs"
    using Cons by (cases xs) (auto simp: adjacent_overlap_def)
  moreover have "fst (snd x) \<le> fst y" if y: "y \<in> set xs" for y
  proof -
    obtain z zs where xs: "xs = z # zs" using y by (cases xs) auto
    then have "fst (snd x) \<le> fst z" "fst z < fst (snd z)" using Cons.prems by (auto simp: adjacent_overlap_def)
    moreover have "y = z \<or> fst (snd z) \<le> fst y" using y tail by (auto simp: xs)
    ultimately show ?thesis by auto
  qed
  ultimately show ?case by simp
qed simp

lemma sorted_ranges_disjoint:
  assumes "\<not> adjacent_overlap (sort rr)" and "\<forall>r \<in> set rr. fst r < fst (snd r)"
    and "x \<in> set rr" and "y \<in> set rr" and "x \<noteq> y"
  shows "fst (snd x) \<le> fst y \<or> fst (snd y) \<le> fst x"
proof -
  have "sorted_wrt (\<lambda>x y. fst (snd x) \<le> fst y) (sort rr)" using assms(1,2) by (intro adjacent_all) auto
  moreover obtain i j where "i < length (sort rr)" "j < length (sort rr)" "sort rr ! i = x" "sort rr ! j = y"
    using assms(3,4) by (metis in_set_conv_nth set_sort)
  ultimately show ?thesis using assms(5) by (cases i j rule: linorder_cases) (auto simp: sorted_wrt_iff_nth_less)
qed

lemma sections_disjoint:
  assumes "\<not> adjacent_overlap (sort (concat (map ranges_of S)))" and "distinct (map (\<lambda>d. entry_int d ''index'') S)"
    and "i < j" and "j < length S"
  shows "raw_bytes (S ! i) \<inter> raw_bytes (S ! j) = {}"
proof (cases "raw_start (S ! i) < raw_stop (S ! i) \<and> raw_start (S ! j) < raw_stop (S ! j)")
  case True
  let ?r = "\<lambda>d. (raw_start d, raw_stop d, entry_int d ''index'')"
  have "entry_int (S ! i) ''index'' \<noteq> entry_int (S ! j) ''index''"
    using assms(2-4) by (auto simp: distinct_conv_nth)
  moreover have "?r (S ! i) \<in> set (concat (map ranges_of S))" "?r (S ! j) \<in> set (concat (map ranges_of S))"
    using True assms(3,4) by (auto simp: ranges_of_def intro: bexI [where x = "S ! i"] bexI [where x = "S ! j"])
  moreover have "\<forall>r \<in> set (concat (map ranges_of S)). fst r < fst (snd r)" by (auto simp: ranges_of_def)
  ultimately show ?thesis
    using sorted_ranges_disjoint [OF assms(1), of "?r (S ! i)" "?r (S ! j)"] by (auto simp: raw_bytes_def)
qed (auto simp: raw_bytes_def)

section \<open>The whole inspection\<close>

text \<open>What a completed inspection establishes about a result.\<close>

definition cert_bytes :: "pe_analysis \<Rightarrow> int set" where
  "cert_bytes r = (let co = entry_int (pa_summary r) ''certificate_table_offset'' in
     {co..<co + entry_int (pa_summary r) ''certificate_table_size''})"

definition header_end :: "pe_analysis \<Rightarrow> int" where
  "header_end r = entry_int (pa_summary r) ''size_of_headers''"

definition layout_ok :: "int \<Rightarrow> pe_analysis \<Rightarrow> bool" where
  "layout_ok fsize r \<longleftrightarrow>
     (\<forall>i j. i < j \<longrightarrow> j < length (pa_sections r) \<longrightarrow> raw_bytes (pa_sections r ! i) \<inter> raw_bytes (pa_sections r ! j) = {}) \<and>
     (\<forall>d \<in> set (pa_sections r). raw_bytes d \<subseteq> {header_end r..<fsize} \<and> cert_bytes r \<inter> raw_bytes d = {}) \<and>
     cert_bytes r \<subseteq> {header_end r..<fsize}"

definition complete_shape :: "int \<Rightarrow> pydict list \<Rightarrow> int \<Rightarrow> int \<Rightarrow> pe_shape" where
  "complete_shape hs S co cs = \<lparr>sh_sections = S, sh_is_pe = True, sh_valid = Some True, sh_headers = Some (PInt hs),
     sh_status = Some (PStr ''COMPLETE''), sh_cert = (Some (PInt co), Some (PInt cs))\<rparr>"

lemma mark_valid: "triple (pe_at fsize B sh) (put_result (\<lambda>r. r\<lparr>pa_valid := Some True\<rparr>)) (\<lambda>_. pe_at fsize B (sh\<lparr>sh_valid := Some True\<rparr>)) E"
  unfolding put_result_def
  by (intro triple_modify) (auto simp: pe_at_def reads_ok_def shape_def bytes_read_def)

definition cert_ok :: "int \<Rightarrow> int \<Rightarrow> raw_range list \<Rightarrow> int \<Rightarrow> int \<Rightarrow> bool" where
  "cert_ok fsize hs rr co cs \<longleftrightarrow> co = 0 \<and> cs = 0 \<or>
     hs \<le> co \<and> co + cs \<le> fsize \<and> (\<forall>r \<in> set rr. \<not> (co < fst (snd r) \<and> fst r < co + cs))"

lemma certificate_triple:
  assumes "B \<le> MAX_INSPECTION_BYTES"
  shows "triple (pe_at fsize B sh) (eff_when (co \<noteq> 0 \<or> cs \<noteq> 0)
        (eff_bind (issue_if (co = 0 \<or> cs = 0 \<or> co < hs \<or> co + cs > fsize) ''PE_CERTIFICATE_RANGE_INVALID'' m1 False) (\<lambda>_.
         issue_if (list_ex (\<lambda>(start, stop, _). co < stop \<and> start < co + cs) rr) ''PE_CERTIFICATE_SECTION_OVERLAP'' m2 False)))
     (\<lambda>_ s. pe_at fsize B sh s \<and> cert_ok fsize hs rr co cs) (failed f fsize)"
proof -
  have ok: "pe_at fsize B sh s \<Longrightarrow> code \<noteq> ''PE_READ_LIMIT'' \<Longrightarrow> failed f fsize (InspectionIssue code m u) s" for s code m u
    by (rule pe_at_failed [OF _ assms]) (simp_all add: expected_exc_def)
  show ?thesis
    by (intro tripleI)
      (auto simp: eff_when_def issue_if_def eff_bind_def cert_ok_def list_ex_iff intro!: ok split: if_splits)
qed

lemma inspect_ranges_triple:
  assumes "B \<le> MAX_INSPECTION_BYTES"
  shows "triple (pe_at fsize B (pe_shape_of (Some (PInt hs)) S)) (inspect_ranges fsize hs dv rr)
    (\<lambda>_ s. \<exists>co cs. pe_at fsize B (complete_shape hs S co cs) s \<and> (\<not> adjacent_overlap (sort rr) \<and> cert_ok fsize hs rr co cs))
    (failed f fsize)"
proof -
  obtain co cs where cert: "dir_entry dv 4 = (co, cs)" by (cases "dir_entry dv 4")
  have ok: "cert_ok fsize hs (sort rr) co cs \<longleftrightarrow> cert_ok fsize hs rr co cs" by (simp add: cert_ok_def)
  show ?thesis
    unfolding inspect_ranges_def Let_def cert prod.case
    by (rule issue_then [OF assms], simp, rule update_then, simp, rule triple_bind [OF certificate_triple [OF assms]],
        rule triple_pure, rule triple_bind [OF mark_valid],
        rule triple_weaken [OF update_summary_triple [where E = "failed f fsize"]], simp, assumption, intro exI [of _ co] exI [of _ cs])
      (simp_all add: shape_update_def pe_shape_of_def complete_shape_def ok)
qed

lemma layout_complete:
  assumes "shape r = complete_shape hs S co cs" and "distinct (map (\<lambda>d. entry_int d ''index'') S)"
    and "\<forall>d \<in> set S. placed hs fsize d" and "\<not> adjacent_overlap (sort (concat (map ranges_of S)))"
    and "cert_ok fsize hs (concat (map ranges_of S)) co cs"
  shows "layout_ok fsize r"
proof -
  have r: "pa_sections r = S" "header_end r = hs" "cert_bytes r = {co..<co + cs}"
    using assms(1) by (simp_all add: shape_def complete_shape_def header_end_def cert_bytes_def entry_int_def Let_def)
  have "cert_bytes r \<inter> raw_bytes d = {}" if "d \<in> set S" for d
    using assms(5) that by (force simp: r raw_bytes_def ranges_of_def cert_ok_def)
  moreover have "cert_bytes r \<subseteq> {header_end r..<fsize}" using assms(5) by (auto simp: r cert_ok_def)
  moreover have "raw_bytes d \<subseteq> {header_end r..<fsize}" if "d \<in> set S" for d
    using assms(3) that by (auto simp: r raw_bytes_def placed_def)
  ultimately show ?thesis
    using sections_disjoint [OF assms(4,2)] by (simp add: layout_ok_def r)
qed

text \<open>The outcome of the whole inspection: it found no candidate, or a complete and consistent image.\<close>

definition inspected :: "int \<Rightarrow> pe_analysis \<Rightarrow> bool" where
  "inspected fsize r \<longleftrightarrow> shape r = fresh_shape \<or>
     layout_ok fsize r \<and> pa_is_pe r \<and> pa_valid r = Some True \<and> dict_get (pa_summary r) ''status'' = Some (PStr ''COMPLETE'')"

definition finished :: "int \<Rightarrow> pe_state \<Rightarrow> bool" where
  "finished fsize s \<longleftrightarrow> reads_ok fsize MAX_INSPECTION_BYTES s \<and>
     bytes_read (ps_result s) = sum_list (map snd (ps_reads s)) \<and> inspected fsize (ps_result s)"

lemma ranges_finish:
  assumes "B \<le> MAX_INSPECTION_BYTES" and "distinct ix"
  shows "triple (sections_read fsize B hs (Some (PInt hs)) S ix rr) (inspect_ranges fsize hs dv rr)
    (\<lambda>_. finished fsize) (failed f fsize)"
  unfolding sections_read_def
proof (rule triple_pure, rule triple_weaken [OF inspect_ranges_triple [OF assms(1)]], assumption, goal_cases)
  case (1 _ s)
  then obtain co cs where at: "pe_at fsize B (complete_shape hs S co cs) s"
    and ok: "\<not> adjacent_overlap (sort rr)" "cert_ok fsize hs rr co cs" by blast
  have sh: "shape (ps_result s) = complete_shape hs S co cs" using at by (simp add: pe_at_def)
  have "layout_ok fsize (ps_result s)" using layout_complete [OF sh] 1(1) ok assms(2) by simp
  then show ?case
    using at assms(1) by (auto simp: finished_def inspected_def pe_at_def shape_def complete_shape_def intro: reads_ok_mono)
qed

lemma image_finish:
  assumes "0 < n" "n \<le> 96" "2 \<le> os" "os \<le> 4096"
  shows "triple (pe_at fsize 88 (pe_shape_of None []))
    (eff_bind (inspect_optional f fsize off os) (\<lambda>(opt, directory_base, directories, headers_size).
     eff_bind (inspect_directories opt directory_base directories) (\<lambda>dv.
     eff_bind (inspect_sections printable f fsize off2 n headers_size) (\<lambda>raw_ranges.
     inspect_ranges fsize headers_size dv raw_ranges)))) (\<lambda>_. finished fsize) (failed f fsize)"
proof (rule triple_bind [OF inspect_optional_triple [OF assms(3,4)]], goal_cases)
  case (1 x)
  obtain opt base dirs hs where x: "x = (opt, base, dirs, hs)" by (cases x)
  have B: "88 + os + n * 40 \<le> MAX_INSPECTION_BYTES" using assms by (simp add: pe_limits)
  show ?case
    unfolding x prod.case
  proof (rule triple_pure, rule triple_bind [OF inspect_directories_triple], goal_cases)
    case (3 dv)
    show ?case
      by (rule triple_bind [OF inspect_sections_triple [OF assms(1,2,4)]], rule triple_ex, rule ranges_finish [OF B]) simp
  qed simp_all
qed

lemma inspect_triple:
  "triple (pe_at fsize 0 fresh_shape) (inspect printable f fsize) (\<lambda>_. finished fsize) (failed f fsize)"
  unfolding inspect_def
proof (rule triple_bind [OF inspect_dos_triple], goal_cases)
  case (1 po)
  show ?case
  proof (cases po)
    case None
    have "pe_at fsize 64 fresh_shape s \<Longrightarrow> finished fsize s" for s
      by (auto simp: pe_at_def pe_limits finished_def inspected_def intro: reads_ok_mono)
    then show ?thesis unfolding None option.case by (intro triple_return)
  next
    case (Some pe_offset)
    show ?thesis
      unfolding Some option.case Let_def
    proof (rule triple_bind [OF inspect_coff_triple], goal_cases)
      case (1 co)
      obtain n os where co: "co = (n, os)" by (cases co)
      show ?case
        unfolding co prod.case by (rule triple_pure) (auto intro: image_finish)
    qed
  qed
qed

section \<open>Properties of the analysis\<close>

lemma start_at: "pe_at fsize 0 fresh_shape \<lparr>ps_result = new_pe_analysis, ps_reads = []\<rparr>"
  by (simp add: pe_at_def reads_ok_def shape_def new_pe_analysis_def bytes_read_def)

text \<open>The three ways a run ends.\<close>

lemma run_pe_cases:
  assumes "pf_open f = None" and "pf_fstat f = Inr fsize"
  obtains (returned) "finished fsize (run_pe printable f)"
  | (raised) e s where "failed f fsize e s" "run_pe printable f = snd (handle_pe_exc e s)"
proof -
  let ?s = "\<lparr>ps_result = new_pe_analysis, ps_reads = []\<rparr>"
  obtain r t where run: "inspect printable f fsize ?s = (r, t)" by (cases "inspect printable f fsize ?s")
  have body: "pe_body printable f ?s = (r, t)" using run assms by (simp add: pe_body_def)
  have out: "case r of Inl e \<Rightarrow> failed f fsize e t | Inr _ \<Rightarrow> finished fsize t"
    using inspect_triple [of fsize printable f] start_at [of fsize] run unfolding triple_def by blast
  show thesis
  proof (cases r)
    case (Inl e)
    then have "run_pe printable f = snd (handle_pe_exc e t)" using body by (simp add: run_pe_def eff_catch_def)
    then show thesis using raised out Inl by simp
  next
    case (Inr u)
    then have "run_pe printable f = t" using body by (simp add: run_pe_def eff_catch_def)
    then show thesis using returned out Inr by simp
  qed
qed

lemma handle_reads: "ps_reads (snd (handle_pe_exc e s)) = ps_reads s"
  by (simp add: handle_pe_exc_def put_result_def split: pe_exc.splits)

lemma handle_valid: "pa_valid (ps_result (snd (handle_pe_exc e s))) \<noteq> Some True"
  by (simp add: handle_pe_exc_def put_result_def split: pe_exc.splits)

lemma pe_body_unopened:
  assumes "pf_open f \<noteq> None \<or> (\<exists>e. pf_fstat f = Inl e)"
  shows "\<exists>e. pe_body printable f s = (Inl e, s)"
proof (cases "pf_open f")
  case None
  then show ?thesis using assms by (auto simp: pe_body_def)
next
  case (Some y)
  then show ?thesis by (cases y) (simp_all add: pe_body_def)
qed

lemma run_pe_unopened:
  assumes "pf_open f \<noteq> None \<or> (\<exists>e. pf_fstat f = Inl e)"
  shows "ps_reads (run_pe printable f) = []" "pa_valid (ps_result (run_pe printable f)) \<noteq> Some True"
proof -
  let ?s = "\<lparr>ps_result = new_pe_analysis, ps_reads = []\<rparr>"
  obtain e where "pe_body printable f ?s = (Inl e, ?s)" using pe_body_unopened [OF assms] by blast
  then have "run_pe printable f = snd (handle_pe_exc e ?s)" by (simp add: run_pe_def eff_catch_def)
  then show "ps_reads (run_pe printable f) = []" "pa_valid (ps_result (run_pe printable f)) \<noteq> Some True"
    using handle_valid by (simp_all add: handle_reads)
qed

text \<open>C8: The inspection is bounded. Whatever bytes a file holds and however its reads fail or fall short, every
  read lies inside the size the descriptor reported, and the reads together ask for at most
  \<open>MAX_INSPECTION_BYTES\<close>, which is 8024 bytes; without an opened file and its size nothing is read.\<close>

theorem pe_reads_bounded:
  "(\<forall>(off, n) \<in> set (ps_reads (run_pe printable f)).
      \<exists>fsize. pf_open f = None \<and> pf_fstat f = Inr fsize \<and> 0 \<le> off \<and> 0 \<le> n \<and> off + n \<le> fsize) \<and>
   sum_list (map snd (ps_reads (run_pe printable f))) \<le> MAX_INSPECTION_BYTES \<and> MAX_INSPECTION_BYTES = 8024"
proof (cases "\<exists>fsize. pf_open f = None \<and> pf_fstat f = Inr fsize")
  case True
  then obtain fsize where f: "pf_open f = None" "pf_fstat f = Inr fsize" by blast
  have "reads_ok fsize MAX_INSPECTION_BYTES (run_pe printable f)"
    using run_pe_cases [OF f, of printable]
    by cases (auto simp: finished_def failed_def reads_ok_def handle_reads)
  then show ?thesis using f by (auto simp: reads_ok_def pe_limits)
next
  case False
  then have "pf_open f \<noteq> None \<or> (\<exists>e. pf_fstat f = Inl e)" by (cases "pf_fstat f") auto
  then show ?thesis using run_pe_unopened(1) [of f printable] by (simp add: pe_limits)
qed

text \<open>C9: What \<open>valid\<close> means. When the analysis calls an image valid, it is complete; the raw data of its sections lie
  between the headers and the end of the file and do not overlap each other, and the certificate table lies there
  too and overlaps no section. The code compares only neighbours of the sorted ranges.\<close>

theorem pe_valid_layout:
  assumes "pa_valid (analyze_pe printable f head) = Some True"
  shows "\<exists>fsize. pf_fstat f = Inr fsize \<and> layout_ok fsize (analyze_pe printable f head) \<and>
    pa_is_pe (analyze_pe printable f head) \<and>
    dict_get (pa_summary (analyze_pe printable f head)) ''status'' = Some (PStr ''COMPLETE'')"
proof -
  have run: "analyze_pe printable f head = ps_result (run_pe printable f)"
    using assms by (auto simp: analyze_pe_def new_pe_analysis_def split: option.splits if_splits)
  then have valid: "pa_valid (ps_result (run_pe printable f)) = Some True" using assms by simp
  then have opened: "\<not> (pf_open f \<noteq> None \<or> (\<exists>e. pf_fstat f = Inl e))" using run_pe_unopened(2) by blast
  then obtain fsize where f: "pf_open f = None" "pf_fstat f = Inr fsize" by (cases "pf_fstat f") auto
  have "inspected fsize (ps_result (run_pe printable f))"
    using run_pe_cases [OF f, of printable] handle_valid valid by cases (auto simp: finished_def)
  then show ?thesis using f(2) valid by (auto simp: run inspected_def shape_def)
qed

text \<open>A small image: the headers and one section of one byte after them.\<close>

definition demo_image :: bytes where
  "demo_image = [0x4D, 0x5A] @ replicate 58 0 @ [64, 0, 0, 0] @
     [0x50, 0x45, 0, 0] @ [0, 0, 1, 0] @ replicate 12 0 @ [112, 0, 0, 0] @
     [0x0B, 0x02] @ replicate 58 0 @ [240, 0, 0, 0] @ replicate 48 0 @
     [0x2E, 0x74] @ replicate 6 0 @ [1, 0, 0, 0] @ replicate 4 0 @ [1, 0, 0, 0] @ [240, 0, 0, 0] @ replicate 16 0 @
     [0xC3]"

definition demo_pe_file :: "int \<Rightarrow> pe_file" where
  "demo_pe_file fsize = \<lparr>pf_open = None, pf_fstat = Inr fsize,
     pf_read = (\<lambda>k off n. Inr (take (nat n) (drop (nat off) demo_image)))\<rparr>"

lemma demo_valid: "pa_valid (analyze_pe (\<lambda>_. True) (demo_pe_file 241) None) = Some True"
  by code_simp

theorem pe_reads_bounded_witness:
  "sum_list (map snd (ps_reads (run_pe (\<lambda>_. True) (demo_pe_file 241)))) \<le> 8024 \<and>
   ps_reads (run_pe (\<lambda>_. True) (demo_pe_file 241)) = [(0, 64), (64, 4), (68, 20), (88, 112), (200, 40)]"
proof -
  have "ps_reads (run_pe (\<lambda>_. True) (demo_pe_file 241)) = [(0, 64), (64, 4), (68, 20), (88, 112), (200, 40)]" by code_simp
  then show ?thesis using pe_reads_bounded [of "\<lambda>_. True" "demo_pe_file 241"] by linarith
qed

theorem pe_valid_layout_witness:
  "layout_ok 241 (analyze_pe (\<lambda>_. True) (demo_pe_file 241) None) \<and>
   raw_bytes (pa_sections (analyze_pe (\<lambda>_. True) (demo_pe_file 241) None) ! 0) = {240..<241}"
proof -
  have "raw_start (pa_sections (analyze_pe (\<lambda>_. True) (demo_pe_file 241) None) ! 0) = 240"
    "raw_stop (pa_sections (analyze_pe (\<lambda>_. True) (demo_pe_file 241) None) ! 0) = 241" by code_simp+
  then show ?thesis using pe_valid_layout [OF demo_valid] by (simp add: raw_bytes_def demo_pe_file_def)
qed

lemma handle_status:
  assumes "dict_get (pa_summary (ps_result (snd (handle_pe_exc e s)))) ''status'' = Some (PStr ''ERROR'')"
  shows "\<not> (\<exists>c m u. e = InspectionIssue c m u)"
  using assms by (auto simp: handle_pe_exc_def put_result_def split: if_splits)

text \<open>C10: The status \<open>ERROR\<close> always stands for a failed system call: opening the file, asking for its size or a read.
  The unpacking of a header never runs past its buffer on any input, so the branch for \<open>struct.error\<close> is
  not taken; every malformed file ends as not a candidate, incomplete or unsupported.\<close>

theorem pe_error_is_io:
  assumes "dict_get (pa_summary (analyze_pe printable f head)) ''status'' = Some (PStr ''ERROR'')"
  shows "pf_open f \<noteq> None \<or> (\<exists>e. pf_fstat f = Inl e) \<or> (\<exists>k off n e. pf_read f k off n = Inl e)"
proof (rule ccontr)
  assume no: "\<not> ?thesis"
  then obtain fsize where f: "pf_open f = None" "pf_fstat f = Inr fsize" by (cases "pf_fstat f") auto
  have st: "dict_get (pa_summary (ps_result (run_pe printable f))) ''status'' = Some (PStr ''ERROR'')"
    using assms by (auto simp: analyze_pe_def new_pe_analysis_def split: option.splits if_splits)
  show False
  proof (cases rule: run_pe_cases [OF f, of printable, case_names returned raised])
    case returned
    then show False using st by (auto simp: finished_def inspected_def shape_def)
  next
    case (raised e s)
    then have "\<not> (\<exists>c m u. e = InspectionIssue c m u)" using st handle_status by metis
    then show False using raised(1) no by (cases e) (auto simp: failed_def expected_exc_def read_fails_def)
  qed
qed

theorem pe_error_is_io_witness:
  "dict_get (pa_summary (analyze_pe (\<lambda>_. True)
     \<lparr>pf_open = None, pf_fstat = Inl (OtherOSError ''I/O''), pf_read = \<lambda>_ _ _. Inr []\<rparr> None)) ''status'' = Some (PStr ''ERROR'') \<and>
   (\<exists>e. pf_fstat \<lparr>pf_open = None, pf_fstat = Inl (OtherOSError ''I/O''), pf_read = \<lambda>_ _ _. Inr []\<rparr> = Inl e)"
proof -
  let ?f = "\<lparr>pf_open = None, pf_fstat = Inl (OtherOSError ''I/O''), pf_read = \<lambda>_ _ _. Inr []\<rparr>"
  have st: "dict_get (pa_summary (analyze_pe (\<lambda>_. True) ?f None)) ''status'' = Some (PStr ''ERROR'')" by code_simp
  from pe_error_is_io [OF st] show ?thesis using st by simp
qed

end
