(* ===== verification/Static_Analyzer.thy ===== *)
theory Static_Analyzer
  imports Static_Result Pe_Inspector
begin

unbundle bit_operations_syntax

text \<open>
  The static analyser (\<open>analyzer/static_analyzer.py\<close>): MIME detection and its fallback, the consistency of type and
  extension, permissions, location, the ELF and PE inspections, entropy, and the scan that fills the
  evidence record on every path.

  One scan sees the outside world through a \<open>scan_env\<close>: what each call answers for the path or the descriptor it is
  given (system calls, libmagic, pyelftools, the table behind \<open>mimetypes.guess_type\<close>), the working directory, and the Unicode
  case mappings. A call that is made twice has two entries, since the file may change in between. \<open>duration_ms\<close> is left out
  of the record.
\<close>

section \<open>Paths\<close>

text \<open>\<open>pathlib\<close> on POSIX: the root, the components without empty ones and dots, and the text.\<close>

definition p_root :: "string \<Rightarrow> string" where
  "p_root p = (if \<not> starts_with p ''/'' then ''''
     else if starts_with p ''//'' \<and> \<not> starts_with p ''///'' then ''//'' else ''/'')"

definition p_comps :: "string \<Rightarrow> string list" where
  "p_comps p = filter (\<lambda>c. c \<noteq> '''' \<and> c \<noteq> ''.'') (split_on (CHR ''/'') p)"

definition p_str :: "string \<Rightarrow> string" where
  "p_str p = (let t = p_root p @ join_with ''/'' (p_comps p) in if t = '''' then ''.'' else t)"

definition p_name :: "string \<Rightarrow> string" where
  "p_name p = (if p_comps p = [] then '''' else last (p_comps p))"

definition p_suffix :: "string \<Rightarrow> string" where
  "p_suffix p =
     (let n = p_name p; after = takeWhile (\<lambda>c. c \<noteq> CHR ''.'') (rev n); i = length n - Suc (length after)
      in if CHR ''.'' \<in> set n \<and> 0 < i \<and> after \<noteq> [] then drop i n else '''')"

text \<open>\<open>absolute()\<close> joins with the working directory; \<open>parts\<close> starts with the root.\<close>

definition p_absolute :: "string \<Rightarrow> string \<Rightarrow> string" where
  "p_absolute cwd p = (if p_root p \<noteq> '''' then p_str p else p_str (cwd @ ''/'' @ p))"

definition p_parts :: "string \<Rightarrow> string list" where
  "p_parts p = (if p_root p \<noteq> '''' then [p_root p] else []) @ p_comps p"

section \<open>The world of one scan\<close>

record elf_section =
  els_name :: string
  els_type :: string
  els_offset :: int
  els_size :: int
  els_flags :: int

record elf_segment =
  elg_type :: string
  elg_offset :: int
  elg_file_size :: int
  elg_memory_size :: int
  elg_flags :: int

datatype elf_exc =
    ElfOSError string
  | ElfStructError string            \<comment> \<open>\<open>struct.error\<close> or \<open>ValueError\<close>\<close>
  | ElfParserError string            \<comment> \<open>\<open>ELFError\<close>\<close>
  | ElfOtherError string string      \<comment> \<open>class name and text\<close>

text \<open>
  What opening the file and pyelftools deliver: the entry point or an exception, the sections handed out before the iteration
  ended or raised, and the segments likewise.
\<close>

record elf_run =
  elr_entry :: "elf_exc + int"
  elr_sections :: "elf_section list"
  elr_sections_end :: "elf_exc option"
  elr_segments :: "elf_segment list"
  elr_segments_end :: "elf_exc option"

record scan_env =
  se_stat :: "string \<Rightarrow> os_error + file_meta"
  se_lstat :: "string \<Rightarrow> os_error + file_meta"
  se_head :: "string \<Rightarrow> os_error + bytes"           \<comment> \<open>\<open>open\<close> and \<open>read(64)\<close>\<close>
  se_magic :: "(string \<Rightarrow> string + string) option"   \<comment> \<open>libmagic: absent, or raises with a text or answers\<close>
  se_guess :: "string \<Rightarrow> string option"
  se_elf :: "(string \<Rightarrow> elf_run) option"            \<comment> \<open>pyelftools: absent, or its run on a path\<close>
  se_pe :: "string \<Rightarrow> pe_file"
  se_entropy_config :: entropy_config
  se_entropy_lstat :: "string \<Rightarrow> os_error + file_meta"
  se_entropy_open :: "string \<Rightarrow> os_error + stream"
  se_fstat :: "int \<Rightarrow> os_error + file_meta"
  se_dup :: "int \<Rightarrow> os_error + stream"              \<comment> \<open>\<open>dup\<close>, \<open>lseek\<close> and \<open>fdopen\<close>\<close>
  se_plogp :: plogp
  se_cwd :: string
  se_posix :: bool
  se_lower :: "string \<Rightarrow> string"
  se_casefold :: "string \<Rightarrow> string"
  se_printable :: "nat \<Rightarrow> bool"

definition scan_error :: "string \<Rightarrow> string \<Rightarrow> (string, string) dict" where
  "scan_error code msg = [(''code'', code), (''message'', msg)]"

section \<open>MIME type\<close>

definition ELF_MAGIC :: bytes where
  "ELF_MAGIC = [0x7F, 0x45, 0x4C, 0x46]"

definition starts_bytes :: "bytes \<Rightarrow> bytes \<Rightarrow> bool" where
  "starts_bytes data pre = (take (length pre) data = pre)"

definition mime_signatures :: "(bytes \<times> string) list" where
  "mime_signatures = [(ELF_MAGIC, ''application/x-executable''), ([0x4D, 0x5A], ''application/x-dosexec''),
     ([0x25, 0x50, 0x44, 0x46], ''application/pdf''),
     ([0x89, 0x50, 0x4E, 0x47, 0x0D, 0x0A, 0x1A, 0x0A], ''image/png''), ([0xFF, 0xD8, 0xFF], ''image/jpeg''),
     ([0x50, 0x4B, 0x03, 0x04], ''application/zip''), ([0x1F, 0x8B], ''application/gzip'')]"

definition bytes_text :: "bytes \<Rightarrow> string" where
  "bytes_text data = map (\<lambda>b. char_of (unat b)) data"

definition fallback_mime :: "scan_env \<Rightarrow> string \<Rightarrow> bytes \<Rightarrow> string \<times> string" where
  "fallback_mime e path head =
     (case find (\<lambda>(sig, _). starts_bytes head sig) mime_signatures of
        Some (_, mime) \<Rightarrow> (mime, ''signature-fallback'')
      | None \<Rightarrow> (let plain = (if head \<noteq> [] \<and> 0 \<notin> set head \<and> utf8_valid (bytes_text head)
                   then (''text/plain'', ''utf8-fallback'') else (''application/octet-stream'', ''generic-fallback'')) in
          case se_guess e (p_name path) of
            Some guessed \<Rightarrow> if guessed \<noteq> '''' then (guessed, ''extension-fallback'') else plain
          | None \<Rightarrow> plain))"

definition detect_mime :: "scan_env \<Rightarrow> string \<Rightarrow> bytes \<Rightarrow> string \<Rightarrow> string \<times> string \<times> (string, string) dict list" where
  "detect_mime e path head context_path =
     (let fallback = (\<lambda>ws. case fallback_mime e context_path head of (m, src) \<Rightarrow> (m, src, ws)) in
      case se_magic e of
        Some from_file \<Rightarrow> (case from_file (p_str path) of
          Inr detected \<Rightarrow> if detected \<noteq> '''' then (detected, ''libmagic'', []) else fallback []
        | Inl exc \<Rightarrow> fallback [scan_error ''LIBMAGIC_FAILED'' (''libmagic failed: '' @ exc)])
      | None \<Rightarrow> fallback [scan_error ''LIBMAGIC_UNAVAILABLE''
          ''python-magic/libmagic unavailable; signature fallback used''])"

definition PE_MIME_TYPES :: "string list" where
  "PE_MIME_TYPES = [''application/vnd.microsoft.portable-executable'', ''application/x-dosexec'',
     ''application/x-msdownload'', ''application/x-ms-dos-executable'']"

definition ELF_MIME_TYPES :: "string list" where
  "ELF_MIME_TYPES = [''application/x-executable'', ''application/x-pie-executable'', ''application/x-sharedlib'']"

definition EXTENSION_MIME_RULES :: "(string \<times> string list) list" where
  "EXTENSION_MIME_RULES = [
     (''.txt'', [''text/plain'']), (''.csv'', [''text/csv'', ''text/plain'']),
     (''.json'', [''application/json'', ''text/plain'']),
     (''.xml'', [''application/xml'', ''text/xml'', ''text/plain'']),
     (''.pdf'', [''application/pdf'']), (''.png'', [''image/png'']), (''.jpg'', [''image/jpeg'']),
     (''.jpeg'', [''image/jpeg'']), (''.gif'', [''image/gif'']),
     (''.zip'', [''application/zip'', ''application/x-zip'']),
     (''.gz'', [''application/gzip'', ''application/x-gzip'']),
     (''.py'', [''text/x-python'', ''text/plain'']),
     (''.sh'', [''text/x-shellscript'', ''text/plain'', ''application/x-shellscript'']),
     (''.so'', [''application/x-sharedlib'', ''application/x-pie-executable'']),
     (''.exe'', PE_MIME_TYPES), (''.dll'', PE_MIME_TYPES), (''.elf'', ELF_MIME_TYPES)]"

definition OBVIOUS_CONTENT_EXTENSIONS :: "string list" where
  "OBVIOUS_CONTENT_EXTENSIONS = [''.txt'', ''.csv'', ''.json'', ''.xml'', ''.pdf'', ''.png'', ''.jpg'', ''.jpeg'',
     ''.gif'', ''.zip'', ''.gz'', ''.py'', ''.sh'']"

definition PE_DISGUISE_EXTENSIONS :: "string list" where
  "PE_DISGUISE_EXTENSIONS = OBVIOUS_CONTENT_EXTENSIONS @ [''.doc'', ''.docx'', ''.xls'', ''.xlsx'', ''.ppt'', ''.pptx'',
     ''.rtf'', ''.mp3'', ''.mp4'', ''.wav'', ''.html'', ''.htm'']"

definition evaluate_mime_extension :: "scan_env \<Rightarrow> string \<Rightarrow> string \<Rightarrow> bool \<Rightarrow> bool \<Rightarrow> string \<times> string list" where
  "evaluate_mime_extension e path mime is_elf is_pe =
     (let ext = se_lower e (p_suffix path) in
      if ext = '''' then (''NO_EXTENSION'', [])
      else if is_pe \<and> ext \<in> set PE_DISGUISE_EXTENSIONS then (''INCONSISTENT'', PE_MIME_TYPES)
      else if is_elf \<and> ext \<in> set OBVIOUS_CONTENT_EXTENSIONS then (''INCONSISTENT'', ELF_MIME_TYPES)
      else (let expected = dict_get_or EXTENSION_MIME_RULES ext [] in
        if expected = [] then (''UNKNOWN'', expected)
        else if mime \<in> set expected then (''CONSISTENT'', expected)
        else (''INCONSISTENT'', expected)))"

section \<open>Permissions and location\<close>

definition octal4 :: "int \<Rightarrow> string" where
  "octal4 n = map (\<lambda>d. char_of (48 + nat d)) [n div 512 mod 8, n div 64 mod 8, n div 8 mod 8, n mod 8]"

definition mode_bit :: "int \<Rightarrow> int \<Rightarrow> bool" where
  "mode_bit mode b = (mode AND b \<noteq> 0)"

definition analyze_permissions :: "bool \<Rightarrow> file_meta \<Rightarrow> pydict \<times> string list" where
  "analyze_permissions posix meta =
     (let mode = fm_mode meta; suid = posix \<and> mode_bit mode 0x800; sgid = posix \<and> mode_bit mode 0x400;
          ww = posix \<and> mode_bit mode 2; wx = mode_bit mode 1 in
      ([(''mode_octal'', PStr (octal4 mode)), (''posix_mode_semantics'', PBool posix),
        (''owner_uid'', PInt (fm_uid meta)), (''owner_gid'', PInt (fm_gid meta)), (''suid'', PBool suid), (''sgid'', PBool sgid),
        (''owner_executable'', PBool (mode_bit mode 0x40)), (''group_executable'', PBool (mode_bit mode 8)),
        (''world_executable'', PBool wx), (''world_writable'', PBool ww)],
       (if suid then [''SUID_BIT_SET''] else []) @ (if sgid then [''SGID_BIT_SET''] else []) @
       (if ww then [''WORLD_WRITABLE''] else []) @ (if ww \<and> wx then [''WORLD_WRITABLE_AND_EXECUTABLE''] else [])))"

definition is_at_or_under :: "string \<Rightarrow> string \<Rightarrow> bool" where
  "is_at_or_under p d = (p = d \<or> starts_with p (d @ ''/''))"

definition analyze_path_context :: "scan_env \<Rightarrow> string \<Rightarrow> pydict \<times> string list" where
  "analyze_path_context e path =
     (let absolute = p_absolute (se_cwd e) path; parts = p_parts absolute; lowered = map (se_casefold e) parts;
          hidden = filter (\<lambda>c. starts_with c ''.'' \<and> c \<noteq> ''.'' \<and> c \<noteq> ''..'') parts;
          t = p_str absolute;
          categories = (if is_at_or_under t ''/tmp'' then [''TEMPORARY_DIRECTORY''] else []) @
            (if is_at_or_under t ''/var/tmp'' then [''TEMPORARY_DIRECTORY''] else []) @
            (if \<exists>c \<in> set lowered. c = ''downloads'' \<or> c = ''indirilenler'' then [''DOWNLOAD_DIRECTORY''] else []) @
            (if is_at_or_under t ''/media'' \<or> is_at_or_under t ''/run/media'' \<or> is_at_or_under t ''/mnt''
             then [''REMOVABLE_OR_MOUNTED_MEDIA''] else []);
          indicators = categories @ (if hidden \<noteq> [] then [''HIDDEN_PATH_COMPONENT''] else []) in
      ([(''absolute_path'', PStr t), (''hidden'', PBool (hidden \<noteq> [])), (''hidden_components'', PList (map PStr hidden)),
        (''location_categories'', PList (map PStr categories))], indicators))"

section \<open>ELF\<close>

record elf_result =
  elf_is :: bool
  elf_valid :: "bool option"
  elf_entry_point :: "int option"
  elf_sections :: "pydict list"
  elf_segments :: "pydict list"
  elf_indicators :: "string list"

definition segment_flags :: "int \<Rightarrow> pydict" where
  "segment_flags flags = [(''readable'', PBool (flags AND 4 \<noteq> 0)), (''writable'', PBool (flags AND 2 \<noteq> 0)),
     (''executable'', PBool (flags AND 1 \<noteq> 0))]"

definition section_flags :: "int \<Rightarrow> pydict" where
  "section_flags flags = [(''writable'', PBool (flags AND 1 \<noteq> 0)), (''allocated'', PBool (flags AND 2 \<noteq> 0)),
     (''executable'', PBool (flags AND 4 \<noteq> 0))]"

definition add_elf_section :: "nat \<times> elf_section \<Rightarrow> elf_result \<Rightarrow> elf_result" where
  "add_elf_section ix r = (case ix of (i, x) \<Rightarrow>
     r\<lparr>elf_sections := elf_sections r @ [[(''index'', PInt (int i)), (''name'', PStr (els_name x)), (''type'', PStr (els_type x)),
         (''offset'', PInt (els_offset x)), (''size'', PInt (els_size x)), (''flags'', PDict (section_flags (els_flags x)))]],
       elf_indicators := elf_indicators r @ (if els_flags x AND 1 \<noteq> 0 \<and> els_flags x AND 4 \<noteq> 0
         then [''WRITABLE_EXECUTABLE_SECTION:'' @ (if els_name x \<noteq> '''' then els_name x else show_nat i)] else [])\<rparr>)"

definition add_elf_segment :: "nat \<times> elf_segment \<Rightarrow> elf_result \<Rightarrow> elf_result" where
  "add_elf_segment ix r = (case ix of (i, x) \<Rightarrow>
     r\<lparr>elf_segments := elf_segments r @ [[(''index'', PInt (int i)), (''type'', PStr (elg_type x)),
         (''offset'', PInt (elg_offset x)), (''file_size'', PInt (elg_file_size x)), (''memory_size'', PInt (elg_memory_size x)),
         (''flags'', PDict (segment_flags (elg_flags x)))]],
       elf_indicators := elf_indicators r @ (if elg_flags x AND 2 \<noteq> 0 \<and> elg_flags x AND 1 \<noteq> 0
         then [''WRITABLE_EXECUTABLE_SEGMENT:'' @ show_nat i] else [])\<rparr>)"

text \<open>The body of the \<open>try\<close>: the exception that ended it, if any, and the result so far.\<close>

definition elf_body :: "elf_run \<Rightarrow> elf_result \<Rightarrow> elf_exc option \<times> elf_result" where
  "elf_body run r0 = (case elr_entry run of
      Inl x \<Rightarrow> (Some x, r0)
    | Inr entry \<Rightarrow>
        let r1 = r0\<lparr>elf_valid := Some True, elf_entry_point := Some entry,
              elf_indicators := elf_indicators r0 @ (if entry = 0 then [''ELF_ENTRY_POINT_ZERO''] else [])\<rparr>;
            r2 = fold add_elf_section (enumerate 0 (elr_sections run)) r1 in
        case elr_sections_end run of
          Some x \<Rightarrow> (Some x, r2)
        | None \<Rightarrow>
            let r3 = fold add_elf_segment (enumerate 0 (elr_segments run)) r2 in
            case elr_segments_end run of
              Some x \<Rightarrow> (Some x, r3)
            | None \<Rightarrow> (None, if elf_sections r3 = []
                then r3\<lparr>elf_indicators := elf_indicators r3 @ [''ELF_NO_SECTION_HEADERS'']\<rparr> else r3))"

definition elf_failure :: "elf_exc \<Rightarrow> (string, string) dict" where
  "elf_failure x = (case x of
      ElfOSError m \<Rightarrow> scan_error ''ELF_READ_ERROR'' m
    | ElfStructError m \<Rightarrow> scan_error ''MALFORMED_ELF'' m
    | ElfParserError m \<Rightarrow> scan_error ''MALFORMED_ELF'' m
    | ElfOtherError c m \<Rightarrow> scan_error ''ELF_ANALYSIS_FAILED'' (c @ '': '' @ m))"

definition analyze_elf :: "scan_env \<Rightarrow> string \<Rightarrow> bytes \<Rightarrow> elf_result \<times> (string, string) dict list \<times> (string, string) dict list" where
  "analyze_elf e path head =
     (let r0 = \<lparr>elf_is = starts_bytes head ELF_MAGIC, elf_valid = None, elf_entry_point = None, elf_sections = [],
             elf_segments = [], elf_indicators = []\<rparr> in
      if \<not> elf_is r0 then (r0, [], [])
      else (case se_elf e of
        None \<Rightarrow> (r0, [scan_error ''PYELFTOOLS_UNAVAILABLE'' ''pyelftools unavailable; only ELF magic was verified''], [])
      | Some run \<Rightarrow> (case elf_body (run (p_str path)) r0 of
          (None, r) \<Rightarrow> (r, [], [])
        | (Some x, r) \<Rightarrow> (r\<lparr>elf_valid := Some False\<rparr>, [], [elf_failure x]))))"

section \<open>The scan\<close>

text \<open>\<open>EntropyReport.to_dict()\<close> without \<open>reported_blocks\<close>, and the block rows.\<close>

definition block_dict :: "block_entropy \<Rightarrow> pydict" where
  "block_dict b = [(''index'', PInt (int (be_index b))), (''offset'', PInt (be_offset b)), (''size'', PInt (int (be_size b))),
     (''entropy'', PFloat (Fin (be_entropy b))), (''above_provisional_threshold'', PBool (be_above b))]"

definition entropy_dict :: "entropy_report \<Rightarrow> pydict" where
  "entropy_dict r = [(''file_size'', PInt (er_file_size r)), (''bytes_analyzed'', PInt (int (er_bytes_analyzed r))),
     (''whole_file_entropy'', PFloat (Fin (er_whole_file_entropy r))), (''block_size'', PInt (er_block_size r)),
     (''block_count'', PInt (int (er_block_count r))),
     (''high_entropy_block_count'', PInt (int (er_high_entropy_block_count r))),
     (''high_entropy_block_ratio'', PFloat (Fin (er_high_entropy_block_ratio r))),
     (''min_block_entropy'', PFloat (Fin (er_min_block_entropy r))),
     (''max_block_entropy'', PFloat (Fin (er_max_block_entropy r))),
     (''mean_block_entropy'', PFloat (Fin (er_mean_block_entropy r))),
     (''provisional_high_entropy_threshold'', PFloat (er_threshold r)), (''threshold_status'', PStr (er_threshold_status r)),
     (''blocks_truncated'', PBool (er_blocks_truncated r)), (''report_sample_stride'', PInt (er_report_sample_stride r))]"

definition add_error :: "string \<Rightarrow> string \<Rightarrow> static_scan \<Rightarrow> static_scan" where
  "add_error code msg r = r\<lparr>scan_errors := scan_errors r @ [scan_error code msg]\<rparr>"

definition read_head_error :: "string \<Rightarrow> os_error \<Rightarrow> string" where
  "read_head_error path x = (case x of
      NotPermitted _ \<Rightarrow> ''permission denied while reading file: '' @ path
    | _ \<Rightarrow> ''cannot read file '' @ path @ '': '' @ os_text x)"

text \<open>From the metadata to the content evidence, with the identity, permissions and location.\<close>

definition with_metadata :: "scan_env \<Rightarrow> bool \<Rightarrow> string \<Rightarrow> file_meta \<Rightarrow> static_scan \<Rightarrow> static_scan" where
  "with_metadata e trusted ctx meta r = r\<lparr>
     scan_file_size := Some (fm_size meta),
     scan_file_identity := [(''device'', PInt (fm_dev meta)), (''inode'', PInt (fm_ino meta)), (''size'', PInt (fm_size meta)),
       (''mtime_ns'', PInt (fm_mtime_ns meta))],
     scan_identity_source := (if trusted then ''OPEN_DESCRIPTOR'' else ''PATH_LSTAT''),
     scan_permission_details := fst (analyze_permissions (se_posix e) meta),
     scan_permission_anomalies := snd (analyze_permissions (se_posix e) meta),
     scan_path_context := fst (analyze_path_context e ctx),
     scan_path_indicators := snd (analyze_path_context e ctx)\<rparr>"

definition with_elf :: "scan_env \<Rightarrow> string \<Rightarrow> bytes \<Rightarrow> static_scan \<Rightarrow> static_scan" where
  "with_elf e read_path head r = (case analyze_elf e read_path head of (x, ws, es) \<Rightarrow> r\<lparr>
     scan_is_elf := elf_is x, scan_elf_valid := elf_valid x, scan_elf_entry_point := elf_entry_point x,
     scan_elf_sections := elf_sections x, scan_elf_segments := elf_segments x, scan_elf_anomalies := elf_indicators x,
     scan_warnings := scan_warnings r @ ws, scan_errors := scan_errors r @ es\<rparr>)"

definition with_pe :: "scan_env \<Rightarrow> string \<Rightarrow> bytes \<Rightarrow> static_scan \<Rightarrow> static_scan" where
  "with_pe e read_path head r = (let x = analyze_pe (se_printable e) (se_pe e (p_str read_path)) (Some head) in r\<lparr>
     scan_is_pe := pa_is_pe x, scan_pe_valid := pa_valid x, scan_pe_summary := pa_summary x,
     scan_pe_sections := pa_sections x, scan_pe_anomalies := pa_anomalies x,
     scan_warnings := scan_warnings r @ pa_warnings x\<rparr>)"

definition with_mime :: "scan_env \<Rightarrow> string \<Rightarrow> bytes \<Rightarrow> string \<Rightarrow> static_scan \<Rightarrow> static_scan" where
  "with_mime e read_path head ctx r = (case detect_mime e read_path head ctx of (m, src, ws) \<Rightarrow> r\<lparr>
     scan_mime_type := m, scan_mime_source := src, scan_warnings := scan_warnings r @ ws\<rparr>)"

definition with_consistency :: "scan_env \<Rightarrow> string \<Rightarrow> static_scan \<Rightarrow> static_scan" where
  "with_consistency e ctx r =
     (case evaluate_mime_extension e ctx (scan_mime_type r) (scan_is_elf r) (scan_is_pe r) of (c, expected) \<Rightarrow> r\<lparr>
        scan_mime_extension_consistency := c, scan_expected_mime_types := expected,
        scan_path_indicators := scan_path_indicators r @ (if c = ''INCONSISTENT'' then [''MIME_EXTENSION_INCONSISTENT''] else [])\<rparr>)"

definition content_evidence :: "scan_env \<Rightarrow> string \<Rightarrow> bytes \<Rightarrow> string \<Rightarrow> static_scan \<Rightarrow> static_scan" where
  "content_evidence e read_path head ctx r =
     with_consistency e ctx (with_pe e read_path head (with_elf e read_path head (with_mime e read_path head ctx r)))"

definition final_status :: "static_scan \<Rightarrow> string" where
  "final_status r = (if py_get (scan_pe_summary r) ''status'' \<in> {PStr ''INCOMPLETE'', PStr ''UNSUPPORTED'', PStr ''ERROR''}
     then ''PARTIAL'' else if scan_errors r = [] then ''OK'' else ''PARTIAL'')"

text \<open>The entropy outcome and the status; only the two listed exceptions are caught.\<close>

definition conclude_scan :: "entropy_error + entropy_report \<Rightarrow> static_scan \<Rightarrow> pyexc + static_scan" where
  "conclude_scan outcome r =
     (let finish = (\<lambda>r. Inr (r\<lparr>scan_status := final_status r\<rparr>)) in
      case outcome of
        Inr rep \<Rightarrow> finish (r\<lparr>scan_block_entropies := map block_dict (er_reported_blocks rep), scan_entropy_summary := entropy_dict rep\<rparr>)
      | Inl (FileAccessError m) \<Rightarrow> finish (add_error ''ENTROPY_ANALYSIS_FAILED'' m r)
      | Inl (UnsupportedFileTypeError m) \<Rightarrow> finish (add_error ''ENTROPY_ANALYSIS_FAILED'' m r)
      | Inl (EntropyValueError m) \<Rightarrow> Inl (ValueError m)
      | Inl (InvalidEntropyConfiguration m) \<Rightarrow> Inl (ValueError m))"

text \<open>\<open>read_path\<close> and \<open>ctx\<close> are texts of paths; \<open>fd\<close> is the descriptor of a trusted scan, the number in the last component
  of its read path. The file is reached only through the read path and the descriptor.\<close>

definition scan_at :: "scan_env \<Rightarrow> string \<Rightarrow> string \<Rightarrow> int option \<Rightarrow> (pyexc + static_scan) option" where
  "scan_at e read_path ctx fd =
     (let r0 = (new_scan (p_str ctx))\<lparr>scan_extension := se_lower e (p_suffix ctx)\<rparr> in
      case (if fd \<noteq> None then se_stat e (p_str read_path) else se_lstat e (p_str read_path)) of
        Inl (FileNotFoundError _) \<Rightarrow> Some (Inr (add_error ''FILE_NOT_FOUND'' (''file does not exist: '' @ p_str ctx) r0))
      | Inl (NotPermitted _) \<Rightarrow> Some (Inr (add_error ''STAT_PERMISSION_DENIED'' (''cannot stat: '' @ p_str ctx) r0))
      | Inl (OtherOSError m) \<Rightarrow> Some (Inr (add_error ''STAT_FAILED'' m r0))
      | Inr meta \<Rightarrow>
          if fd = None \<and> S_ISLNK (fm_mode meta)
          then Some (Inr (add_error ''SYMLINK_NOT_SCANNED'' ''symbolic-link targets are not followed'' r0))
          else if \<not> S_ISREG (fm_mode meta)
          then Some (Inr (add_error ''NOT_REGULAR_FILE'' ''target is not a regular file'' r0))
          else (let r1 = with_metadata e (fd \<noteq> None) ctx meta r0 in
            case se_head e (p_str read_path) of
              Inl x \<Rightarrow> Some (Inr (add_error ''FILE_READ_FAILED'' (read_head_error (p_str read_path) x) r1))
            | Inr head \<Rightarrow>
                (let r2 = content_evidence e read_path head ctx r1;
                     outcome = (case fd of
                        Some n \<Rightarrow> analyze_open_fd (se_plogp e) (se_entropy_config e) n (Some (p_str ctx)) (se_fstat e n) (se_dup e n)
                      | None \<Rightarrow> entropy_analyze (se_plogp e) (se_entropy_config e) (p_str read_path)
                          (se_entropy_lstat e (p_str read_path)) (se_entropy_open e (p_str read_path)))
                 in map_option (\<lambda>oc. conclude_scan oc r2) outcome)))"

definition scan_path :: "scan_env \<Rightarrow> string \<Rightarrow> (pyexc + static_scan) option" where
  "scan_path e filepath = scan_at e filepath filepath None"

definition scan_open_fd :: "scan_env \<Rightarrow> int \<Rightarrow> string option \<Rightarrow> (pyexc + static_scan) option" where
  "scan_open_fd e fd original_path =
     (if fd < 0 then Some (Inl (ValueError ''fanotify event fd must be non-negative''))
      else (let read_path = ''/proc/self/fd/'' @ show_int fd in
        scan_at e read_path (case original_path of Some p \<Rightarrow> if p \<noteq> '''' then p else read_path | None \<Rightarrow> read_path) (Some fd)))"

section \<open>What a status says\<close>

lemma handle_pe_status:
  "dict_get (pa_summary (ps_result (snd (handle_pe_exc x s)))) ''status''
     \<in> {Some (PStr ''INCOMPLETE''), Some (PStr ''UNSUPPORTED''), Some (PStr ''ERROR'')}"
  by (simp add: handle_pe_exc_def put_result_def split: pe_exc.splits)

lemma settled_pe:
  assumes "dict_get (pa_summary (analyze_pe printable f head)) ''status''
      \<notin> {Some (PStr ''INCOMPLETE''), Some (PStr ''UNSUPPORTED''), Some (PStr ''ERROR'')}"
    and "pa_is_pe (analyze_pe printable f head) \<or> pa_valid (analyze_pe printable f head) \<noteq> None"
  shows "\<exists>fsize. pf_fstat f = Inr fsize \<and> layout_ok fsize (analyze_pe printable f head) \<and>
    pa_valid (analyze_pe printable f head) = Some True"
proof -
  have run: "analyze_pe printable f head = ps_result (run_pe printable f)"
    using assms(2) by (auto simp: analyze_pe_def new_pe_analysis_def split: option.splits if_splits)
  have opened: "\<not> (pf_open f \<noteq> None \<or> (\<exists>e. pf_fstat f = Inl e))"
  proof
    assume "pf_open f \<noteq> None \<or> (\<exists>e. pf_fstat f = Inl e)"
    then obtain x where "pe_body printable f \<lparr>ps_result = new_pe_analysis, ps_reads = []\<rparr> = (Inl x, \<lparr>ps_result = new_pe_analysis, ps_reads = []\<rparr>)"
      using pe_body_unopened by blast
    then have "run_pe printable f = snd (handle_pe_exc x \<lparr>ps_result = new_pe_analysis, ps_reads = []\<rparr>)"
      by (simp add: run_pe_def eff_catch_def)
    then show False using assms(1) handle_pe_status by (simp only: run) blast
  qed
  then obtain fsize where f: "pf_open f = None" "pf_fstat f = Inr fsize" by (cases "pf_fstat f") auto
  have "inspected fsize (ps_result (run_pe printable f))"
  proof (cases rule: run_pe_cases [OF f, of printable, case_names returned raised])
    case returned
    then show ?thesis by (simp add: finished_def)
  next
    case (raised x s)
    then show ?thesis using assms(1) handle_pe_status [of x s] by (simp only: run) blast
  qed
  then show ?thesis using assms(2) f(2) by (auto simp: run inspected_def shape_def)
qed

text \<open>The content evidence in the record.\<close>

lemma content_pe:
  "scan_pe_summary (content_evidence e rp head ctx r) = pa_summary (analyze_pe (se_printable e) (se_pe e (p_str rp)) (Some head))"
  "scan_is_pe (content_evidence e rp head ctx r) = pa_is_pe (analyze_pe (se_printable e) (se_pe e (p_str rp)) (Some head))"
  "scan_pe_valid (content_evidence e rp head ctx r) = pa_valid (analyze_pe (se_printable e) (se_pe e (p_str rp)) (Some head))"
  "scan_pe_sections (content_evidence e rp head ctx r) = pa_sections (analyze_pe (se_printable e) (se_pe e (p_str rp)) (Some head))"
  "scan_pe_anomalies (content_evidence e rp head ctx r) = pa_anomalies (analyze_pe (se_printable e) (se_pe e (p_str rp)) (Some head))"
  by (simp_all add: content_evidence_def with_consistency_def with_pe_def Let_def split: prod.splits)

lemma content_elf:
  "scan_is_elf (content_evidence e rp head ctx r) = elf_is (fst (analyze_elf e rp head))"
  "scan_elf_valid (content_evidence e rp head ctx r) = elf_valid (fst (analyze_elf e rp head))"
  "scan_elf_entry_point (content_evidence e rp head ctx r) = elf_entry_point (fst (analyze_elf e rp head))"
  "scan_elf_sections (content_evidence e rp head ctx r) = elf_sections (fst (analyze_elf e rp head))"
  "scan_elf_segments (content_evidence e rp head ctx r) = elf_segments (fst (analyze_elf e rp head))"
  "scan_elf_anomalies (content_evidence e rp head ctx r) = elf_indicators (fst (analyze_elf e rp head))"
  "scan_errors (content_evidence e rp head ctx r) = scan_errors r @ snd (snd (analyze_elf e rp head))"
  by (simp_all add: content_evidence_def with_consistency_def with_pe_def with_elf_def with_mime_def Let_def split: prod.splits)

lemma content_frame:
  "scan_file_size (content_evidence e rp head ctx r) = scan_file_size r"
  "scan_file_identity (content_evidence e rp head ctx r) = scan_file_identity r"
  "scan_identity_source (content_evidence e rp head ctx r) = scan_identity_source r"
  "scan_permission_details (content_evidence e rp head ctx r) = scan_permission_details r"
  "scan_permission_anomalies (content_evidence e rp head ctx r) = scan_permission_anomalies r"
  "scan_entropy_summary (content_evidence e rp head ctx r) = scan_entropy_summary r"
  "scan_block_entropies (content_evidence e rp head ctx r) = scan_block_entropies r"
  "scan_status (content_evidence e rp head ctx r) = scan_status r"
  by (simp_all add: content_evidence_def with_consistency_def with_pe_def with_elf_def with_mime_def Let_def split: prod.splits)

lemmas content_simps = content_pe content_elf content_frame

text \<open>The stages of a scan that did not return early.\<close>

definition entropy_outcome :: "scan_env \<Rightarrow> string \<Rightarrow> string \<Rightarrow> int option \<Rightarrow> (entropy_error + entropy_report) option" where
  "entropy_outcome e rp ctx fd = (case fd of
      Some n \<Rightarrow> analyze_open_fd (se_plogp e) (se_entropy_config e) n (Some (p_str ctx)) (se_fstat e n) (se_dup e n)
    | None \<Rightarrow> entropy_analyze (se_plogp e) (se_entropy_config e) (p_str rp) (se_entropy_lstat e (p_str rp)) (se_entropy_open e (p_str rp)))"

text \<open>The metadata and the stream of bytes a scan reads: by descriptor when there is one, by read path otherwise.\<close>

definition scan_stat :: "scan_env \<Rightarrow> string \<Rightarrow> int option \<Rightarrow> os_error + file_meta" where
  "scan_stat e rp fd = (if fd \<noteq> None then se_stat e (p_str rp) else se_lstat e (p_str rp))"

definition entropy_stream :: "scan_env \<Rightarrow> string \<Rightarrow> int option \<Rightarrow> os_error + stream" where
  "entropy_stream e rp fd = (case fd of Some n \<Rightarrow> se_dup e n | None \<Rightarrow> se_entropy_open e (p_str rp))"

definition scan_start :: "scan_env \<Rightarrow> string \<Rightarrow> static_scan" where
  "scan_start e ctx = (new_scan (p_str ctx))\<lparr>scan_extension := se_lower e (p_suffix ctx)\<rparr>"

lemma scan_at_cases:
  assumes "scan_at e rp ctx fd = Some (Inr r)"
  obtains (early) code msg where "r = add_error code msg (scan_start e ctx)"
  | (unread) msg meta where "scan_stat e rp fd = Inr meta" "r = add_error ''FILE_READ_FAILED'' msg (with_metadata e (fd \<noteq> None) ctx meta (scan_start e ctx))"
  | (full) meta head oc where "scan_stat e rp fd = Inr meta" "S_ISREG (fm_mode meta)" "se_head e (p_str rp) = Inr head"
      "entropy_outcome e rp ctx fd = Some oc"
      "conclude_scan oc (content_evidence e rp head ctx (with_metadata e (fd \<noteq> None) ctx meta (scan_start e ctx))) = Inr r"
  using assms unfolding scan_at_def Let_def scan_stat_def [symmetric] entropy_outcome_def [symmetric] scan_start_def [symmetric]
  by (auto split: sum.splits os_error.splits if_splits)

lemma conclude_scan_Inr:
  assumes "conclude_scan oc r0 = Inr r"
  shows "scan_status r = final_status r"
    and "case oc of Inr rep \<Rightarrow> \<exists>st. r = r0\<lparr>scan_block_entropies := map block_dict (er_reported_blocks rep),
             scan_entropy_summary := entropy_dict rep, scan_status := st\<rparr>
         | Inl _ \<Rightarrow> \<exists>m st. r = (add_error ''ENTROPY_ANALYSIS_FAILED'' m r0)\<lparr>scan_status := st\<rparr>"
  using assms
  by (auto simp: conclude_scan_def final_status_def add_error_def Let_def split: sum.splits entropy_error.splits)

lemma entropy_outcome_report:
  assumes "make_entropy_config (se_entropy_config e) = Inr (se_entropy_config e)"
    and "entropy_outcome e rp ctx fd = Some (Inr rep)"
  obtains rd cs where "entropy_stream e rp fd = Inr rd" "delivers rd 0 cs"
    "rep = reference_report (se_plogp e) (se_entropy_config e) (concat cs)"
proof -
  have "\<exists>rd n label. entropy_stream e rp fd = Inr rd \<and>
      analyze_stream (se_plogp e) (se_entropy_config e) rd n label = Some (Inr rep)"
    using assms(2)
    by (auto simp: entropy_outcome_def entropy_stream_def analyze_open_fd_def entropy_analyze_def open_binary_def Let_def
        split: option.splits sum.splits if_splits os_error.splits)
  then show thesis using analyze_stream_report [OF assms(1)] that by metis
qed

definition unparsed_elf :: "(string, string) dict" where
  "unparsed_elf = scan_error ''PYELFTOOLS_UNAVAILABLE'' ''pyelftools unavailable; only ELF magic was verified''"

lemma analyze_elf_clean:
  assumes "snd (snd (analyze_elf e rp head)) = []" and "elf_is (fst (analyze_elf e rp head))"
  shows "if se_elf e = None
    then elf_valid (fst (analyze_elf e rp head)) = None \<and> unparsed_elf \<in> set (fst (snd (analyze_elf e rp head)))
    else elf_valid (fst (analyze_elf e rp head)) = Some True"
proof -
  have sec: "elf_valid (fold add_elf_section xs r) = elf_valid r" for xs r
    by (induction xs arbitrary: r) (auto simp: add_elf_section_def)
  have seg: "elf_valid (fold add_elf_segment xs r) = elf_valid r" for xs r
    by (induction xs arbitrary: r) (auto simp: add_elf_segment_def)
  show ?thesis
    using assms
    by (auto simp: analyze_elf_def elf_body_def Let_def sec seg unparsed_elf_def split: if_splits option.splits sum.splits prod.splits)
qed

lemma content_warnings: "set (fst (snd (analyze_elf e rp head))) \<subseteq> set (scan_warnings (content_evidence e rp head ctx r))"
  by (auto simp: content_evidence_def with_consistency_def with_pe_def with_elf_def with_mime_def Let_def split: prod.splits)

lemma ok_scan:
  assumes "make_entropy_config (se_entropy_config e) = Inr (se_entropy_config e)"
    and "scan_at e rp ctx fd = Some (Inr r)" and "scan_status r = ''OK''"
  shows "scan_errors r = [] \<and>
    (\<exists>rd cs. entropy_stream e rp fd = Inr rd \<and> delivers rd 0 cs \<and>
       scan_entropy_summary r = entropy_dict (reference_report (se_plogp e) (se_entropy_config e) (concat cs))) \<and>
    (scan_is_pe r \<longrightarrow> scan_pe_valid r = Some True) \<and>
    (scan_is_elf r \<longrightarrow> (if se_elf e = None then scan_elf_valid r = None \<and> unparsed_elf \<in> set (scan_warnings r)
       else scan_elf_valid r = Some True))"
proof (cases rule: scan_at_cases [OF assms(2), case_names early unread full])
  case (early code msg)
  then show ?thesis using assms(3) by (simp add: add_error_def scan_start_def new_scan_def)
next
  case (unread msg meta)
  then show ?thesis using assms(3) by (simp add: add_error_def scan_start_def new_scan_def with_metadata_def)
next
  case (full meta head oc)
  let ?r0 = "content_evidence e rp head ctx (with_metadata e (fd \<noteq> None) ctx meta (scan_start e ctx))"
  note c = conclude_scan_Inr [OF full(5)]
  have ok: "scan_errors r = []" "py_get (scan_pe_summary r) ''status'' \<notin> {PStr ''INCOMPLETE'', PStr ''UNSUPPORTED'', PStr ''ERROR''}"
    using c(1) assms(3) by (auto simp: final_status_def split: if_splits)
  then obtain rep where rep: "oc = Inr rep" using c(2) by (cases oc) (auto simp: add_error_def)
  then obtain st where r: "r = ?r0\<lparr>scan_block_entropies := map block_dict (er_reported_blocks rep),
      scan_entropy_summary := entropy_dict rep, scan_status := st\<rparr>" using c(2) by auto
  have fields: "scan_errors r = scan_errors ?r0" "scan_pe_summary r = scan_pe_summary ?r0" "scan_is_pe r = scan_is_pe ?r0"
    "scan_pe_valid r = scan_pe_valid ?r0" "scan_is_elf r = scan_is_elf ?r0" "scan_elf_valid r = scan_elf_valid ?r0"
    "scan_warnings r = scan_warnings ?r0" "scan_entropy_summary r = entropy_dict rep" by (simp_all add: r)
  have "scan_is_pe r \<Longrightarrow> scan_pe_valid r = Some True"
    using settled_pe [of "se_printable e" "se_pe e (p_str rp)" "Some head"] ok(2)
    by (auto simp: fields content_simps py_get_def dict_get_or_def split: option.splits)
  moreover have "scan_is_elf r \<Longrightarrow> if se_elf e = None then scan_elf_valid r = None \<and> unparsed_elf \<in> set (scan_warnings r)
      else scan_elf_valid r = Some True"
    using analyze_elf_clean [of e rp head] ok(1) content_warnings [of e rp head ctx] by (auto simp: fields content_simps split: if_splits)
  moreover obtain rd cs where "entropy_stream e rp fd = Inr rd" "delivers rd 0 cs"
    "rep = reference_report (se_plogp e) (se_entropy_config e) (concat cs)"
    using entropy_outcome_report [OF assms(1)] full(4) rep by blast
  ultimately show ?thesis using ok(1) fields(8) by blast
qed

lemma scan_status_values:
  assumes "scan_at e read_path ctx fd = Some (Inr r)"
  shows "scan_status r \<in> {''OK'', ''PARTIAL'', ''ERROR''}"
proof (cases rule: scan_at_cases [OF assms, case_names early unread full])
  case (full meta head oc)
  then show ?thesis using conclude_scan_Inr(1) [OF full(5)] by (simp add: final_status_def)
qed (simp_all add: add_error_def scan_start_def new_scan_def with_metadata_def)

text \<open>C6: What the status \<open>OK\<close> stands for. No error was recorded; the entropy evidence is that of all bytes the stream
  delivered up to its end; a file recognised as a Windows image passed every structural check of the inspection; and a file
  with the ELF magic was parsed to the end without an exception if pyelftools is installed. Without pyelftools the status says
  nothing about the rest of an ELF file: it stays unparsed (\<open>elf_valid\<close> is \<open>None\<close>), and the record carries the warning that
  only the magic was verified.\<close>

theorem ok_scan_is_complete:
  assumes "make_entropy_config (se_entropy_config e) = Inr (se_entropy_config e)"
    and "scan_at e rp ctx fd = Some (Inr r)" and "scan_status r = ''OK''"
  shows "scan_errors r = [] \<and>
    (\<exists>rd cs. entropy_stream e rp fd = Inr rd \<and> delivers rd 0 cs \<and>
       scan_entropy_summary r = entropy_dict (reference_report (se_plogp e) (se_entropy_config e) (concat cs))) \<and>
    (scan_is_pe r \<longrightarrow> scan_pe_valid r = Some True) \<and>
    (scan_is_elf r \<longrightarrow> (if se_elf e = None then scan_elf_valid r = None \<and> unparsed_elf \<in> set (scan_warnings r)
       else scan_elf_valid r = Some True))"
  by (rule ok_scan [OF assms])

definition demo_meta :: file_meta where
  "demo_meta = \<lparr>fm_mode = 0x81ED, fm_uid = 0, fm_gid = 0, fm_dev = 1, fm_ino = 9, fm_size = 5, fm_mtime_ns = 0\<rparr>"

text \<open>Descriptor 3 is a file of five bytes, and the path \<open>/tmp/x\<close> names it; every other path names a program image that
  cannot be read to its end.\<close>

definition demo_scan_env :: scan_env where
  "demo_scan_env =
     (let own = (\<lambda>p. p = ''/tmp/x'' \<or> p = ''/proc/self/fd/3'') in \<lparr>
     se_stat = (\<lambda>p. if own p then Inr demo_meta else Inr (demo_meta\<lparr>fm_size := 64\<rparr>)),
     se_lstat = (\<lambda>p. if own p then Inr demo_meta else Inl (FileNotFoundError '''')),
     se_head = (\<lambda>p. if own p then Inr [7, 7, 7, 9, 9] else Inr [0x4D, 0x5A]), se_magic = None, se_guess = (\<lambda>_. None), se_elf = None,
     se_pe = (\<lambda>p. \<lparr>pf_open = None, pf_fstat = Inr (if own p then 5 else 64), pf_read = \<lambda>_ _ _. Inr []\<rparr>),
     se_entropy_config = tiny_config,
     se_entropy_lstat = (\<lambda>p. if own p then Inr demo_meta else Inl (FileNotFoundError '''')),
     se_entropy_open = (\<lambda>p. if own p then Inr tiny_stream else Inl (FileNotFoundError '''')),
     se_fstat = (\<lambda>n. if n = 3 then Inr demo_meta else Inl (OtherOSError ''bad descriptor'')),
     se_dup = (\<lambda>n. if n = 3 then Inr tiny_stream else Inl (OtherOSError ''bad descriptor'')),
     se_plogp = (\<lambda>cs n. of_nat (length cs)), se_cwd = ''/'', se_posix = True,
     se_lower = py_lower, se_casefold = py_lower, se_printable = (\<lambda>_. True)\<rparr>)"

text \<open>The same scan of a file that starts with the ELF magic, without pyelftools.\<close>

definition demo_elf_env :: scan_env where
  "demo_elf_env = demo_scan_env\<lparr>se_head := \<lambda>_. Inr (ELF_MAGIC @ [2])\<rparr>"

lemma demo_scan_status: "map_option (map_sum id (\<lambda>r. (scan_status r, scan_is_elf r))) (scan_at demo_elf_env ''/tmp/x'' ''/tmp/x'' None) = Some (Inr (''OK'', True))"
  by code_simp

lemma map_sum_eq_Inr: "map_sum f g x = Inr y \<longleftrightarrow> (\<exists>z. x = Inr z \<and> y = g z)"
  by (cases x) auto

theorem ok_scan_is_complete_witness:
  "\<exists>r. scan_at demo_elf_env ''/tmp/x'' ''/tmp/x'' None = Some (Inr r) \<and> scan_status r = ''OK'' \<and> scan_errors r = [] \<and>
     scan_is_elf r \<and> scan_elf_valid r = None"
proof -
  obtain r where r: "scan_at demo_elf_env ''/tmp/x'' ''/tmp/x'' None = Some (Inr r)" "scan_status r = ''OK''" "scan_is_elf r"
    using demo_scan_status by (cases "scan_at demo_elf_env ''/tmp/x'' ''/tmp/x'' None") (auto simp: map_sum_eq_Inr)
  have "make_entropy_config (se_entropy_config demo_elf_env) = Inr (se_entropy_config demo_elf_env)"
    by (simp add: demo_elf_env_def demo_scan_env_def tiny_config_valid)
  moreover have "se_elf demo_elf_env = None" by (simp add: demo_elf_env_def demo_scan_env_def)
  ultimately show ?thesis using ok_scan_is_complete [OF _ r(1,2)] r by auto
qed

section \<open>The original path of a descriptor\<close>

definition content_of where
  "content_of r = (scan_file_size r, scan_file_identity r, scan_identity_source r,
     scan_permission_details r, scan_permission_anomalies r,
     (scan_is_elf r, scan_elf_valid r, scan_elf_entry_point r, scan_elf_sections r, scan_elf_segments r, scan_elf_anomalies r),
     (scan_is_pe r, scan_pe_valid r, scan_pe_summary r, scan_pe_sections r, scan_pe_anomalies r),
     scan_entropy_summary r, scan_block_entropies r)"

text \<open>Labels only appear in messages.\<close>

definition erase :: "('e + 'a) option \<Rightarrow> (unit + 'a) option" where
  "erase = map_option (map_sum (\<lambda>_. ()) id)"

lemma read_chunks_label:
  assumes "read_chunks np c stride l1 rd k a = Some r"
  shows "erase (read_chunks np c stride l2 rd k a) = erase (Some r)"
proof (rule read_chunks.raw_induct [where P = "\<lambda>np c stride _ rd k a r. erase (read_chunks np c stride l2 rd k a) = erase (Some r)", OF _ assms], goal_cases)
  case (1 rc np c stride label rd k a r)
  show ?case
  proof (cases "\<exists>ch. rd k = Inr ch \<and> ch \<noteq> []")
    case True
    then obtain ch where ch: "rd k = Inr ch" "ch \<noteq> []" by blast
    then have "rc np c stride label rd (Suc k) (absorb_chunk np c stride ch a) = Some r" using 1(2) by simp
    from 1(1) [OF this] show ?thesis using ch by (subst read_chunks.simps) simp
  next
    case False
    then show ?thesis using 1(2) by (subst read_chunks.simps) (auto simp: erase_def split: sum.splits if_splits)
  qed
qed

lemma read_chunks_labels: "erase (read_chunks np c stride l1 rd k a) = erase (read_chunks np c stride l2 rd k a)"
proof (cases "read_chunks np c stride l1 rd k a")
  case None
  then show ?thesis
    using read_chunks_label [of np c stride l2 rd k a _ l1] by (cases "read_chunks np c stride l2 rd k a") (auto simp: erase_def)
qed (use read_chunks_label in simp)

lemma analyze_stream_labels: "erase (analyze_stream np c rd n l1) = erase (analyze_stream np c rd n l2)"
  using read_chunks_labels [of np c "sample_stride c n" l1 rd 0 empty_acc l2]
  by (cases "read_chunks np c (sample_stride c n) l1 rd 0 empty_acc";
      cases "read_chunks np c (sample_stride c n) l2 rd 0 empty_acc")
    (auto simp: erase_def analyze_stream_def Let_def map_sum_def split: sum.splits)

lemma analyze_open_fd_labels: "erase (analyze_open_fd np c fd l1 st op) = erase (analyze_open_fd np c fd l2 st op)"
  using analyze_stream_labels by (auto simp: analyze_open_fd_def Let_def erase_def split: sum.splits)

lemma conclude_content:
  assumes "conclude_scan oc1 r1 = Inr s1" and "conclude_scan oc2 r2 = Inr s2" and "content_of r1 = content_of r2"
    and "map_sum (\<lambda>_. ()) id oc1 = map_sum (\<lambda>_. ()) id oc2"
  shows "content_of s1 = content_of s2"
  using conclude_scan_Inr(2) [OF assms(1)] conclude_scan_Inr(2) [OF assms(2)] assms(3,4)
  by (cases oc1; cases oc2) (auto simp: content_of_def add_error_def)

text \<open>Two worlds that agree on one opened object: on what the calls answer for its read path and its descriptor. They may
  differ on every other path, the reported one included, and on everything else a scan asks.\<close>

definition same_object :: "string \<Rightarrow> int \<Rightarrow> scan_env \<Rightarrow> scan_env \<Rightarrow> bool" where
  "same_object rp fd e e' \<longleftrightarrow>
     se_stat e (p_str rp) = se_stat e' (p_str rp) \<and> se_head e (p_str rp) = se_head e' (p_str rp) \<and>
     map_option (\<lambda>run. run (p_str rp)) (se_elf e) = map_option (\<lambda>run. run (p_str rp)) (se_elf e') \<and>
     se_pe e (p_str rp) = se_pe e' (p_str rp) \<and> se_fstat e fd = se_fstat e' fd \<and> se_dup e fd = se_dup e' fd \<and>
     se_entropy_config e = se_entropy_config e' \<and> se_plogp e = se_plogp e' \<and> se_posix e = se_posix e' \<and>
     se_printable e = se_printable e'"

lemma same_object_elf:
  assumes "same_object rp fd e e'"
  shows "analyze_elf e rp head = analyze_elf e' rp head"
  using assms by (cases "se_elf e"; cases "se_elf e'") (auto simp: same_object_def analyze_elf_def Let_def)

lemma evidence_content:
  assumes "same_object rp fd e e'"
  shows "content_of (content_evidence e rp head p (with_metadata e t p meta (scan_start e p))) =
    content_of (content_evidence e' rp head q (with_metadata e' t q meta (scan_start e' q)))"
  using assms same_object_elf [OF assms, of head]
  by (simp add: same_object_def content_of_def content_simps with_metadata_def scan_start_def new_scan_def)

lemma early_content:
  "content_of (add_error c1 m1 (scan_start e p)) = content_of (add_error c2 m2 (scan_start e' q))"
  "se_posix e = se_posix e' \<Longrightarrow> content_of (add_error c1 m1 (with_metadata e t p meta (scan_start e p))) =
   content_of (add_error c2 m2 (with_metadata e' t q meta (scan_start e' q)))"
  by (simp_all add: content_of_def add_error_def with_metadata_def scan_start_def new_scan_def)

text \<open>What a scan of a descriptor returns, by what the two calls answer.\<close>

lemma fd_scan_early:
  assumes "scan_at e rp c (Some fd) = Some (Inr r)" and "\<nexists>meta. se_stat e (p_str rp) = Inr meta \<and> S_ISREG (fm_mode meta)"
  shows "\<exists>code msg. r = add_error code msg (scan_start e c)"
  using assms unfolding scan_at_def Let_def scan_start_def [symmetric] by (auto split: sum.splits os_error.splits if_splits)

lemma fd_scan_unread:
  assumes "scan_at e rp c (Some fd) = Some (Inr r)" and "se_stat e (p_str rp) = Inr meta" "S_ISREG (fm_mode meta)"
    and "se_head e (p_str rp) = Inl x"
  shows "\<exists>code msg. r = add_error code msg (with_metadata e True c meta (scan_start e c))"
  using assms unfolding scan_at_def Let_def scan_start_def [symmetric] by auto

lemma fd_scan_full:
  assumes "scan_at e rp c (Some fd) = Some (Inr r)" and "se_stat e (p_str rp) = Inr meta" "S_ISREG (fm_mode meta)"
    and "se_head e (p_str rp) = Inr head"
  shows "\<exists>oc. analyze_open_fd (se_plogp e) (se_entropy_config e) fd (Some (p_str c)) (se_fstat e fd) (se_dup e fd) = Some oc \<and>
      conclude_scan oc (content_evidence e rp head c (with_metadata e True c meta (scan_start e c))) = Inr r"
  using assms by (auto simp: scan_at_def Let_def scan_start_def)

lemma scan_at_content:
  assumes same: "same_object rp fd e e'"
    and r: "scan_at e rp p (Some fd) = Some (Inr r1)" "scan_at e' rp q (Some fd) = Some (Inr r2)"
  shows "content_of r1 = content_of r2"
proof -
  have eqs: "se_stat e' (p_str rp) = se_stat e (p_str rp)" "se_head e' (p_str rp) = se_head e (p_str rp)" "se_posix e = se_posix e'"
    using same by (simp_all add: same_object_def)
  consider "\<nexists>meta. se_stat e (p_str rp) = Inr meta \<and> S_ISREG (fm_mode meta)"
    | meta x where "se_stat e (p_str rp) = Inr meta" "S_ISREG (fm_mode meta)" "se_head e (p_str rp) = Inl x"
    | meta head where "se_stat e (p_str rp) = Inr meta" "S_ISREG (fm_mode meta)" "se_head e (p_str rp) = Inr head"
    by (cases "se_head e (p_str rp)") auto
  then show ?thesis
  proof cases
    case 1
    then show ?thesis using fd_scan_early [OF r(1)] fd_scan_early [OF r(2)] early_content(1) eqs by metis
  next
    case 2
    then show ?thesis using fd_scan_unread [OF r(1)] fd_scan_unread [OF r(2)] early_content(2) eqs by metis
  next
    case 3
    obtain oc1 where oc1: "analyze_open_fd (se_plogp e) (se_entropy_config e) fd (Some (p_str p)) (se_fstat e fd) (se_dup e fd) = Some oc1"
      "conclude_scan oc1 (content_evidence e rp head p (with_metadata e True p meta (scan_start e p))) = Inr r1"
      using fd_scan_full [OF r(1) 3] by blast
    obtain oc2 where oc2: "analyze_open_fd (se_plogp e') (se_entropy_config e') fd (Some (p_str q)) (se_fstat e' fd) (se_dup e' fd) = Some oc2"
      "conclude_scan oc2 (content_evidence e' rp head q (with_metadata e' True q meta (scan_start e' q))) = Inr r2"
      using fd_scan_full [OF r(2)] 3 eqs by metis
    have "map_sum (\<lambda>_. ()) id oc1 = map_sum (\<lambda>_. ()) id oc2"
      using analyze_open_fd_labels [of "se_plogp e" "se_entropy_config e" fd "Some (p_str p)" "se_fstat e fd" "se_dup e fd" "Some (p_str q)"]
        oc1(1) oc2(1) same by (simp add: erase_def same_object_def)
    from conclude_content [OF oc1(2) oc2(2) evidence_content [OF same] this] show ?thesis .
  qed
qed

text \<open>C7: The path reported with a descriptor is context only. Take two scans of the same descriptor, with any two reported
  paths, in two worlds that agree on the opened object (what the calls answer for \<open>/proc/self/fd/N\<close> and for \<open>N\<close>) and may
  differ on every other path, so also on the file that now stands under the reported name. Their evidence on size,
  identity, permissions, ELF and PE structure and entropy is the same: a renamed or replaced path cannot change what is said
  about the bytes.\<close>

theorem original_path_is_context:
  assumes "same_object (''/proc/self/fd/'' @ show_int fd) fd e e'"
    and "scan_open_fd e fd p = Some (Inr r1)" and "scan_open_fd e' fd q = Some (Inr r2)"
  shows "content_of r1 = content_of r2"
proof -
  have nonneg: "\<not> fd < 0" using assms(2) by (auto simp: scan_open_fd_def)
  show ?thesis
    using scan_at_content [OF assms(1)] assms(2,3) unfolding scan_open_fd_def if_not_P [OF nonneg] Let_def by blast
qed

text \<open>The same descriptor while the reported path names the truncated program image, and while nothing else can be opened.\<close>

definition replaced_env :: scan_env where
  "replaced_env = demo_scan_env\<lparr>
     se_head := \<lambda>p. if p = ''/proc/self/fd/3'' then Inr [7, 7, 7, 9, 9] else Inl (NotPermitted ''''),
     se_stat := \<lambda>p. if p = ''/proc/self/fd/3'' then Inr demo_meta else Inl (FileNotFoundError '''')\<rparr>"

lemma replaced_same: "same_object (''/proc/self/fd/'' @ show_int 3) 3 demo_scan_env replaced_env"
proof -
  have "p_str (''/proc/self/fd/'' @ show_int 3) = ''/proc/self/fd/3''" by code_simp
  then show ?thesis by (simp add: same_object_def replaced_env_def demo_scan_env_def Let_def)
qed

theorem original_path_is_context_witness:
  "\<exists>r1 r2. scan_open_fd demo_scan_env 3 (Some ''/tmp/a.txt'') = Some (Inr r1) \<and> scan_open_fd replaced_env 3 None = Some (Inr r2) \<and>
     scan_extension r1 \<noteq> scan_extension r2 \<and> content_of r1 = content_of r2"
proof -
  have "map_option (map_sum id scan_extension) (scan_open_fd demo_scan_env 3 (Some ''/tmp/a.txt'')) = Some (Inr ''.txt'')"
    "map_option (map_sum id scan_extension) (scan_open_fd replaced_env 3 None) = Some (Inr '''')" by code_simp+
  then obtain r1 r2 where r: "scan_open_fd demo_scan_env 3 (Some ''/tmp/a.txt'') = Some (Inr r1)" "scan_extension r1 = ''.txt''"
    "scan_open_fd replaced_env 3 None = Some (Inr r2)" "scan_extension r2 = ''''"
    by (auto simp: map_sum_eq_Inr)
  from original_path_is_context [OF replaced_same r(1,3)] show ?thesis using r by auto
qed

end
