(* ===== verification/Response.thy ===== *)
theory Response
  imports Effects Py_Path "HOL-Library.Word"
begin

text \<open>
  Response execution (\<open>response/engine.py\<close>): the policy, the binding of a correlation to a process
  and a file identity, termination through a process descriptor, quarantine of the bound file and
  the dispatch of recommendations.

  The operating system, the clock, the identifier source, the hash and the quarantine store are
  arguments (\<open>resp_env\<close>); the engine state counts the calls made to them, so answers may change over
  time. Everything the engine does outside itself is appended to a log of effects.
\<close>

section \<open>Policy\<close>

datatype resp_exc =
    ResponseConfigurationError string
  | ResponseMappingError pyexc
  | ResponseSafetyError string
  | RespQuarantineError string
  | RespExc pyexc

record resp_policy =
  rp_schema_version :: string
  rp_policy_name :: string
  rp_policy_status :: string
  rp_automatic :: bool
  rp_terminate_grace :: pyfloat
  rp_kill_grace :: pyfloat
  rp_escalate :: bool
  rp_require_pidfd :: bool
  rp_protected_pids :: "int list"
  rp_protected_prefixes :: "string list"

text \<open>Iterating over a decoded value.\<close>

definition py_iter :: "pyval \<Rightarrow> pyexc + pyval list" where
  "py_iter v = (case v of PList xs \<Rightarrow> Inr xs | PDict d \<Rightarrow> Inr (map (PStr \<circ> fst) d)
     | PStr s \<Rightarrow> Inr (map (\<lambda>c. PStr [c]) s) | _ \<Rightarrow> Inl TypeError)"

definition resp_policy_of_mapping :: "(pyval \<Rightarrow> string) \<Rightarrow> pydict \<Rightarrow> pyexc + resp_policy" where
  "resp_policy_of_mapping render data = (let field = py_item (PDict data) in
     res_bind (field ''schema_version'') (\<lambda>schema.
     res_bind (field ''policy_name'') (\<lambda>name.
     res_bind (field ''policy_status'') (\<lambda>status.
     res_bind (field ''automatic_runtime_actions'') (\<lambda>auto.
     res_bind (res_bind (field ''terminate_grace_seconds'') py_float) (\<lambda>tg.
     res_bind (res_bind (field ''kill_grace_seconds'') py_float) (\<lambda>kg.
     res_bind (field ''escalate_to_sigkill'') (\<lambda>esc.
     res_bind (field ''require_pidfd'') (\<lambda>req.
     res_bind (res_bind (res_bind (field ''protected_pids'') py_iter) (map_res py_int)) (\<lambda>pids.
     res_bind (res_bind (field ''protected_path_prefixes'') py_iter) (\<lambda>prefixes.
     Inr \<lparr>rp_schema_version = py_str render schema, rp_policy_name = py_str render name,
           rp_policy_status = py_str render status, rp_automatic = py_truthy auto,
           rp_terminate_grace = tg, rp_kill_grace = kg, rp_escalate = py_truthy esc,
           rp_require_pidfd = py_truthy req, rp_protected_pids = pids,
           rp_protected_prefixes = map (py_str render) prefixes\<rparr>)))))))))))"

definition validate_resp :: "resp_policy \<Rightarrow> resp_exc + unit" where
  "validate_resp p =
     (if rp_policy_status p \<noteq> ''PROVISIONAL_NOT_CALIBRATED''
      then Inl (ResponseConfigurationError ''Stage 11 policy must be labelled PROVISIONAL_NOT_CALIBRATED'')
      else if float_ge (Fin 0) (rp_terminate_grace p) \<or> float_ge (Fin 0) (rp_kill_grace p)
      then Inl (ResponseConfigurationError ''process termination timeouts must be positive'')
      else if 0 \<notin> set (rp_protected_pids p) \<or> 1 \<notin> set (rp_protected_pids p)
      then Inl (ResponseConfigurationError ''PID 0 and PID 1 must remain protected'')
      else if list_ex (\<lambda>x. \<not> starts_with x ''/'') (rp_protected_prefixes p)
      then Inl (ResponseConfigurationError ''protected path prefixes must be absolute'')
      else Inr ())"

definition resp_catches :: "pyexc \<Rightarrow> bool" where
  "resp_catches e = (case e of KeyError _ \<Rightarrow> True | TypeError \<Rightarrow> True | ValueError _ \<Rightarrow> True | _ \<Rightarrow> False)"

definition resp_from_mapping :: "(pyval \<Rightarrow> string) \<Rightarrow> pydict \<Rightarrow> resp_exc + resp_policy" where
  "resp_from_mapping render data = (case resp_policy_of_mapping render data of
      Inl e \<Rightarrow> Inl (if resp_catches e then ResponseMappingError e else RespExc e)
    | Inr p \<Rightarrow> res_bind (validate_resp p) (\<lambda>_. Inr p))"

definition load_resp :: "(pyval \<Rightarrow> string) \<Rightarrow> pyval option \<Rightarrow> resp_exc + resp_policy" where
  "load_resp render doc = (case doc of
      None \<Rightarrow> Inl (ResponseConfigurationError ''response policy is not valid JSON'')
    | Some (PDict data) \<Rightarrow> resp_from_mapping render data
    | Some _ \<Rightarrow> Inl (ResponseConfigurationError ''response policy root must be an object''))"

definition with_runtime_actions :: "bool \<Rightarrow> resp_policy \<Rightarrow> resp_policy" where
  "with_runtime_actions b p = p\<lparr>rp_automatic := b\<rparr>"

section \<open>Identities and engine state\<close>

record process_identity =
  pi_pid :: int
  pi_start :: int
  pi_path :: string
  pi_device :: int
  pi_inode :: int
  pi_uid :: int

record file_identity =
  fi_path :: string
  fi_device :: int
  fi_inode :: int
  fi_size :: int
  fi_mtime :: int
  fi_ctime :: int
  fi_sha256 :: string

record bound_target =
  bt_correlation_id :: string
  bt_pid :: int
  bt_process :: "process_identity option"
  bt_file :: "file_identity option"
  bt_fd :: "int option"
  bt_bound_at :: rat

definition process_to_dict :: "process_identity \<Rightarrow> pyval" where
  "process_to_dict i = PDict [(''pid'', PInt (pi_pid i)), (''start_time_ticks'', PInt (pi_start i)),
     (''executable_path'', PStr (pi_path i)), (''executable_device'', PInt (pi_device i)),
     (''executable_inode'', PInt (pi_inode i)), (''uid'', PInt (pi_uid i))]"

definition file_to_dict :: "file_identity \<Rightarrow> pyval" where
  "file_to_dict i = PDict [(''path'', PStr (fi_path i)), (''device'', PInt (fi_device i)),
     (''inode'', PInt (fi_inode i)), (''size_bytes'', PInt (fi_size i)), (''mtime_ns'', PInt (fi_mtime i)),
     (''ctime_ns'', PInt (fi_ctime i)), (''sha256'', PStr (fi_sha256 i))]"

text \<open>What the calls of \<open>_open_file_identity\<close> answer, in their order: each may raise. The chunks are those read before the end of the
  file or before the read that failed.\<close>

record file_stat =
  st_regular :: bool
  st_dev :: int
  st_ino :: int
  st_size :: int
  st_mtime :: int
  st_ctime :: int

record file_probe =
  fp_lstat :: "pyexc + file_stat"
  fp_open :: "pyexc + int"
  fp_before :: "pyexc + file_stat"
  fp_chunks :: "8 word list list"
  fp_read_end :: "pyexc option"
  fp_seek :: "pyexc option"
  fp_after :: "pyexc + file_stat"
  fp_resolve :: "pyexc + string"

datatype pidfd_outcome = PidfdOpened int | PidfdNoProcess | PidfdError string

text \<open>What the quarantine store raises: a \<open>QuarantineError\<close>, or an exception the engine does not handle.\<close>

datatype store_failure = StoreRefused string | StoreRaised pyexc

datatype resp_effect =
    OpenedFd int
  | ClosedFd int
  | Inspected process_identity       \<comment> \<open>an answer of the process inspector\<close>
  | SentSignal process_identity string
  | Quarantined file_identity
  | Audited string pydict
  | Emitted pydict
  | Restored string pydict
  | Deleted string

record resp_env =
  rx_self_pid :: int
  rx_has_pidfd_open :: bool
  rx_has_send :: bool
  rx_capture :: "nat \<Rightarrow> int \<Rightarrow> string + process_identity"
  rx_pidfd_open :: "nat \<Rightarrow> int \<Rightarrow> pidfd_outcome"
  rx_signal_error :: "nat \<Rightarrow> string option"
  rx_wait :: "nat \<Rightarrow> int \<Rightarrow> bool"
  rx_probe :: "nat \<Rightarrow> string \<Rightarrow> file_probe"
  rx_sha256 :: "8 word list \<Rightarrow> string"
  rx_quarantine :: "nat \<Rightarrow> file_identity \<Rightarrow> store_failure + pydict"
  rx_restore :: "nat \<Rightarrow> string \<Rightarrow> string option \<Rightarrow> store_failure + pydict"
  rx_delete :: "nat \<Rightarrow> string \<Rightarrow> store_failure option"
  rx_audit_error :: "nat \<Rightarrow> pyexc option"
  rx_has_sink :: bool
  rx_sink_error :: "nat \<Rightarrow> pyexc option"
  rx_clock :: "nat \<Rightarrow> rat"
  rx_id :: "nat \<Rightarrow> string"
  rx_iso :: "rat \<Rightarrow> pyexc + string"
  rx_render :: "pyval \<Rightarrow> string"

record resp_engine =
  re_bindings :: "(string, bound_target) dict"
  re_ranks :: "(string, int) dict"
  re_calls :: nat
  re_log :: "resp_effect list"

type_synonym 'a resp_op = "(resp_engine, resp_exc, 'a) eff"

definition new_resp_engine :: resp_engine where
  "new_resp_engine = \<lparr>re_bindings = [], re_ranks = [], re_calls = 0, re_log = []\<rparr>"

definition ask :: "(nat \<Rightarrow> 'a) \<Rightarrow> 'a resp_op" where
  "ask f = (\<lambda>s. (Inr (f (re_calls s)), s\<lparr>re_calls := Suc (re_calls s)\<rparr>))"

definition log_effect :: "resp_effect \<Rightarrow> resp_engine \<Rightarrow> resp_engine" where
  "log_effect x s = s\<lparr>re_log := re_log s @ [x]\<rparr>"

section \<open>Reading a state\<close>

definition resp_rules :: "pydict \<Rightarrow> pydict list" where
  "resp_rules state = concat (map (\<lambda>key. case py_get state key of
      PList xs \<Rightarrow> concat (map (\<lambda>x. case x of PDict d \<Rightarrow> [d] | _ \<Rightarrow> []) xs) | _ \<Rightarrow> [])
     [''pre_execution_indicators'', ''runtime_indicators'', ''indicators''])"

definition resp_score :: "pydict \<Rightarrow> pyexc + int" where
  "resp_score state = (let v = py_get_or state ''combined_score'' (py_get_or state ''score'' (PInt 0)) in
     if is_bool v then Inr 0
     else case res_bind (py_float v) float_to_int of
         Inr i \<Rightarrow> Inr (clamp_score i)
       | Inl TypeError \<Rightarrow> Inr 0
       | Inl (ValueError _) \<Rightarrow> Inr 0
       | Inl e \<Rightarrow> Inl e)"

definition resp_path :: "pydict \<Rightarrow> string option" where
  "resp_path state = (case py_get state ''executable_path'' of
      PStr (c # cs) \<Rightarrow> Some (c # cs)
    | _ \<Rightarrow> (case py_get state ''path'' of PStr (c # cs) \<Rightarrow> Some (c # cs) | _ \<Rightarrow> None))"

definition resp_pid :: "pydict \<Rightarrow> pyexc + int option" where
  "resp_pid state = (let v = py_get_or state ''tgid'' (py_get state ''pid'') in
     if is_bool v \<or> v = PNone then Inr None
     else case py_int v of
         Inr i \<Rightarrow> Inr (if i > 0 then Some i else None)
       | Inl TypeError \<Rightarrow> Inr None
       | Inl (ValueError _) \<Rightarrow> Inr None
       | Inl e \<Rightarrow> Inl e)"

definition resp_cid :: "(pyval \<Rightarrow> string) \<Rightarrow> pydict \<Rightarrow> string" where
  "resp_cid render state = py_str render (py_or (py_get state ''correlation_id'') (PStr ''''))"

section \<open>Binding\<close>

text \<open>\<open>except OSError as exc: raise ResponseSafetyError\<close>; any other exception passes.\<close>

definition refuse_os :: "string \<Rightarrow> pyexc \<Rightarrow> resp_exc" where
  "refuse_os what e = (case e of
      OSError msg \<Rightarrow> ResponseSafetyError (what @ '': '' @ msg)
    | PermissionError msg \<Rightarrow> ResponseSafetyError (what @ '': '' @ msg)
    | _ \<Rightarrow> RespExc e)"

text \<open>\<open>_open_file_identity\<close>; once the descriptor is open every failure closes it.\<close>

definition open_file_identity :: "resp_env \<Rightarrow> string \<Rightarrow> (file_identity \<times> int) resp_op" where
  "open_file_identity env path =
     eff_bind (ask (\<lambda>n. rx_probe env n path)) (\<lambda>pr.
     case fp_lstat pr of
       Inl e \<Rightarrow> eff_raise (refuse_os (''cannot inspect response target file: '' @ path) e)
     | Inr meta \<Rightarrow>
       if \<not> st_regular meta
       then eff_raise (ResponseSafetyError ''response target must be a non-symlink regular file'')
       else (case fp_open pr of
         Inl e \<Rightarrow> eff_raise (refuse_os (''cannot securely open response target: '' @ path) e)
       | Inr fd \<Rightarrow>
         eff_bind (eff_modify (log_effect (OpenedFd fd))) (\<lambda>_.
         let abort = (\<lambda>e. eff_bind (eff_modify (log_effect (ClosedFd fd))) (\<lambda>_. eff_raise e)) in
         (case fp_before pr of Inl e \<Rightarrow> abort (RespExc e)
          | Inr opened \<Rightarrow>
            if (st_dev opened, st_ino opened) \<noteq> (st_dev meta, st_ino meta)
            then abort (ResponseSafetyError ''response target identity changed while opening'')
            else (case fp_read_end pr of Some e \<Rightarrow> abort (RespExc e)
            | None \<Rightarrow> (case fp_seek pr of Some e \<Rightarrow> abort (RespExc e)
            | None \<Rightarrow> (case fp_after pr of Inl e \<Rightarrow> abort (RespExc e)
            | Inr after \<Rightarrow>
              if st_size after \<noteq> st_size opened \<or> st_mtime after \<noteq> st_mtime opened \<or>
                 st_ctime after \<noteq> st_ctime opened \<or> st_ino after \<noteq> st_ino opened
              then abort (ResponseSafetyError ''response target changed while hashing'')
              else (case fp_resolve pr of Inl e \<Rightarrow> abort (RespExc e)
                | Inr resolved \<Rightarrow> eff_return (\<lparr>fi_path = resolved, fi_device = st_dev opened,
                    fi_inode = st_ino opened, fi_size = st_size opened, fi_mtime = st_mtime opened,
                    fi_ctime = st_ctime opened, fi_sha256 = rx_sha256 env (concat (fp_chunks pr))\<rparr>, fd)))))))))"

definition close_opt :: "int option \<Rightarrow> resp_engine \<Rightarrow> resp_engine" where
  "close_opt fd s = (case fd of None \<Rightarrow> s | Some x \<Rightarrow> log_effect (ClosedFd x) s)"

definition release_binding :: "string \<Rightarrow> resp_engine \<Rightarrow> resp_engine" where
  "release_binding cid s = (case dict_get (re_bindings s) cid of
      None \<Rightarrow> s
    | Some b \<Rightarrow> close_opt (bt_fd b) (s\<lparr>re_bindings := dict_pop cid (re_bindings s)\<rparr>))"

lemma release_binding_bindings [simp]:
  "re_bindings (release_binding cid s) = dict_pop cid (re_bindings s)"
proof (cases "dict_get (re_bindings s) cid")
  case None
  then have "cid \<notin> fst ` set (re_bindings s)" by (simp add: dict_get_None_iff)
  then show ?thesis using None by (simp add: release_binding_def dict_pop_absent)
qed (simp add: release_binding_def close_opt_def log_effect_def split: option.splits)

text \<open>\<open>while len(self._bindings) >= 1024\<close>: the oldest binding is dropped and its descriptor closed.\<close>

function evict_bindings :: "resp_engine \<Rightarrow> resp_engine" where
  "evict_bindings s =
     (if 1024 \<le> length (re_bindings s)
      then (case oldest_key bt_bound_at (re_bindings s) of
              None \<Rightarrow> s | Some k \<Rightarrow> evict_bindings (release_binding k s))
      else s)"
  by pat_completeness auto

termination
  by (relation "measure (length \<circ> re_bindings)")
    (auto dest!: oldest_key_Some intro!: dict_length_pop_less)

declare evict_bindings.simps [simp del]

definition store_binding :: "bound_target \<Rightarrow> resp_engine \<Rightarrow> resp_engine" where
  "store_binding b s = (let s1 = evict_bindings (release_binding (bt_correlation_id b) s) in
     s1\<lparr>re_bindings := dict_set (bt_correlation_id b) b (re_bindings s1)\<rparr>)"

definition is_safety :: "resp_exc \<Rightarrow> bool" where
  "is_safety e = (case e of ResponseSafetyError _ \<Rightarrow> True | _ \<Rightarrow> False)"

text \<open>\<open>try: ... except ResponseSafetyError: None\<close>.\<close>

definition try_safety :: "'a resp_op \<Rightarrow> 'a option resp_op" where
  "try_safety m = eff_catch (eff_bind m (\<lambda>x. eff_return (Some x)))
     (\<lambda>e. if is_safety e then eff_return None else eff_raise e)"

text \<open>A call of the process inspector; what it found is logged.\<close>

definition capture_process :: "resp_env \<Rightarrow> int \<Rightarrow> process_identity resp_op" where
  "capture_process env pid = eff_bind (ask (\<lambda>n. rx_capture env n pid)) (\<lambda>r.
     case r of Inl msg \<Rightarrow> eff_raise (ResponseSafetyError msg)
     | Inr i \<Rightarrow> eff_bind (eff_modify (log_effect (Inspected i))) (\<lambda>_. eff_return i))"

definition lift_exc :: "pyexc + 'a \<Rightarrow> 'a resp_op" where
  "lift_exc r = eff_lift (case r of Inl e \<Rightarrow> Inl (RespExc e) | Inr x \<Rightarrow> Inr x)"

definition bind_state :: "resp_env \<Rightarrow> pydict \<Rightarrow> pydict resp_op" where
  "bind_state env state = (let cid = resp_cid (rx_render env) state in
     if cid = [] then eff_raise (ResponseSafetyError ''correlation_id is required before response binding'')
     else
     eff_bind (lift_exc (resp_pid state)) (\<lambda>pid.
     eff_bind (case pid of None \<Rightarrow> eff_return None | Some i \<Rightarrow> try_safety (capture_process env i)) (\<lambda>process.
     eff_bind (case resp_path state of None \<Rightarrow> eff_return None
               | Some path \<Rightarrow> try_safety (open_file_identity env path)) (\<lambda>opened.
     if process = None \<and> opened = None
     then eff_raise (ResponseSafetyError ''neither process nor file identity could be bound'')
     else
     eff_bind (ask (rx_clock env)) (\<lambda>now.
     eff_bind (eff_modify (store_binding \<lparr>bt_correlation_id = cid,
        bt_pid = (case pid of None \<Rightarrow> 0 | Some i \<Rightarrow> i), bt_process = process,
        bt_file = map_option fst opened, bt_fd = map_option snd opened, bt_bound_at = now\<rparr>)) (\<lambda>_.
     eff_return [(''correlation_id'', PStr cid),
       (''process'', case process of None \<Rightarrow> PNone | Some i \<Rightarrow> process_to_dict i),
       (''file'', case opened of None \<Rightarrow> PNone | Some (i, _) \<Rightarrow> file_to_dict i)]))))))"

definition close_engine :: "resp_engine \<Rightarrow> resp_engine" where
  "close_engine s = fold release_binding (map fst (re_bindings s)) s"

section \<open>Termination\<close>

definition same_identity :: "process_identity \<Rightarrow> process_identity \<Rightarrow> bool" where
  "same_identity expected current = (pi_pid expected = pi_pid current \<and> pi_start expected = pi_start current \<and>
     pi_device expected = pi_device current \<and> pi_inode expected = pi_inode current)"

definition protected_path :: "resp_policy \<Rightarrow> string \<Rightarrow> bool" where
  "protected_path p path = (let resolved = normpath path in
     list_ex (\<lambda>x. resolved = x \<or> starts_with resolved (rstrip_char (CHR ''/'') x @ ''/'')) (rp_protected_prefixes p))"

text \<open>\<open>max(1, int(timeout_seconds * 1000))\<close>: the conversion raises on not-a-number and on infinity, also one the product reaches;
  \<open>poll\<close> takes no more milliseconds than a C integer holds.\<close>

definition poll_timeout :: "pyfloat \<Rightarrow> pyexc + int" where
  "poll_timeout timeout =
     res_bind (float_to_int (case timeout of Fin q \<Rightarrow> round_binary64 (q * 1000) | x \<Rightarrow> x)) (\<lambda>i.
     let ms = max 1 i in if ms > 2147483647 then Inl OverflowError else Inr ms)"

definition wait_pidfd :: "resp_env \<Rightarrow> pyfloat \<Rightarrow> bool resp_op" where
  "wait_pidfd env timeout = eff_bind (lift_exc (poll_timeout timeout)) (\<lambda>ms. ask (\<lambda>n. rx_wait env n ms))"

definition send_signal :: "resp_env \<Rightarrow> process_identity \<Rightarrow> string \<Rightarrow> unit resp_op" where
  "send_signal env target sig = eff_bind (ask (rx_signal_error env)) (\<lambda>r.
     case r of Some msg \<Rightarrow> eff_raise (RespExc (OSError msg))
     | None \<Rightarrow> eff_modify (log_effect (SentSignal target sig)))"

definition exit_details :: "bool \<Rightarrow> pyval \<Rightarrow> bool \<Rightarrow> pydict" where
  "exit_details already sig escalated = [(''process_already_exited'', PBool already), (''signal'', sig),
     (''escalated'', PBool escalated)]"

text \<open>The body of the \<open>try ... finally: os.close(pidfd)\<close>.\<close>

definition signal_process :: "resp_env \<Rightarrow> resp_policy \<Rightarrow> process_identity \<Rightarrow> pydict resp_op" where
  "signal_process env p expected =
     eff_bind (capture_process env (pi_pid expected)) (\<lambda>current.
     if \<not> same_identity expected current
     then eff_raise (ResponseSafetyError ''PID identity changed after correlation; termination was refused'')
     else
     eff_bind (send_signal env current ''SIGTERM'') (\<lambda>_.
     eff_bind (wait_pidfd env (rp_terminate_grace p)) (\<lambda>gone.
     if gone then eff_return (exit_details False (PStr ''SIGTERM'') False)
     else if \<not> rp_escalate p then eff_raise (ResponseSafetyError ''process did not exit after SIGTERM'')
     else
     eff_bind (send_signal env current ''SIGKILL'') (\<lambda>_.
     eff_bind (wait_pidfd env (rp_kill_grace p)) (\<lambda>gone2.
     if \<not> gone2 then eff_raise (ResponseSafetyError ''process did not exit after SIGKILL'')
     else eff_return (exit_details False (PStr ''SIGKILL'') True))))))"

definition with_fd :: "int \<Rightarrow> 'a resp_op \<Rightarrow> 'a resp_op" where
  "with_fd fd m = (\<lambda>s. case m (log_effect (OpenedFd fd) s) of (r, s') \<Rightarrow> (r, log_effect (ClosedFd fd) s'))"

definition terminate_process :: "resp_env \<Rightarrow> resp_policy \<Rightarrow> process_identity \<Rightarrow> pydict resp_op" where
  "terminate_process env p expected =
     (if pi_pid expected \<in> set (rp_protected_pids p) \<or> pi_pid expected = rx_self_pid env
      then eff_raise (ResponseSafetyError (''refusing to terminate protected PID '' @ show_int (pi_pid expected)))
      else if protected_path p (pi_path expected)
      then eff_raise (ResponseSafetyError ''refusing to terminate an ELYRA protected executable'')
      else if rp_require_pidfd p \<and> \<not> rx_has_pidfd_open env
      then eff_raise (ResponseSafetyError ''pidfd_open is unavailable; safe termination is refused'')
      else if \<not> rx_has_send env
      then eff_raise (ResponseSafetyError ''pidfd_send_signal is unavailable; safe termination is refused'')
      else if \<not> rx_has_pidfd_open env
      then eff_raise (RespExc AttributeError)
      else eff_bind (ask (\<lambda>n. rx_pidfd_open env n (pi_pid expected))) (\<lambda>r. case r of
          PidfdNoProcess \<Rightarrow> eff_return (exit_details True PNone False)
        | PidfdError msg \<Rightarrow> eff_raise (ResponseSafetyError
            (''cannot open pidfd for PID '' @ show_int (pi_pid expected) @ '': '' @ msg))
        | PidfdOpened fd \<Rightarrow> with_fd fd (signal_process env p expected)))"

section \<open>Results and dispatch\<close>

record action_result =
  ar_action_id :: string
  ar_correlation_id :: "string option"
  ar_requested :: string
  ar_executed :: string
  ar_status :: string
  ar_timestamp :: rat
  ar_timestamp_utc :: string
  ar_score :: int
  ar_reason :: string
  ar_rules :: "pydict list"
  ar_pid :: "int option"
  ar_path :: "string option"
  ar_details :: pydict
  ar_failure :: "string option"

definition action_result_to_dict :: "action_result \<Rightarrow> pydict" where
  "action_result_to_dict r = [
     (''schema_version'', PStr ''1.0''), (''action_id'', PStr (ar_action_id r)),
     (''correlation_id'', py_opt_str (ar_correlation_id r)), (''requested_action'', PStr (ar_requested r)),
     (''executed_action'', PStr (ar_executed r)), (''status'', PStr (ar_status r)),
     (''timestamp'', PFloat (Fin (ar_timestamp r))), (''timestamp_utc'', PStr (ar_timestamp_utc r)),
     (''score'', PInt (ar_score r)), (''reason'', PStr (ar_reason r)),
     (''triggered_rules'', PList (map PDict (ar_rules r))), (''pid'', py_opt_int (ar_pid r)),
     (''path'', py_opt_str (ar_path r)), (''details'', PDict (ar_details r)),
     (''failure_explanation'', py_opt_str (ar_failure r))]"

text \<open>An exception of the audit log or of the sink leaves the method.\<close>

definition raise_opt :: "pyexc option \<Rightarrow> unit resp_op" where
  "raise_opt r = (case r of Some e \<Rightarrow> eff_raise (RespExc e) | None \<Rightarrow> eff_return ())"

definition make_result :: "resp_env \<Rightarrow> pydict \<Rightarrow> string \<Rightarrow> string \<Rightarrow> string \<Rightarrow> string \<Rightarrow> pydict \<Rightarrow>
    string option \<Rightarrow> action_result resp_op" where
  "make_result env state requested executed status reason details failure =
     eff_bind (ask (rx_clock env)) (\<lambda>t.
     eff_bind (ask (rx_id env)) (\<lambda>aid.
     eff_bind (lift_exc (rx_iso env t)) (\<lambda>utc.
     eff_bind (lift_exc (resp_score state)) (\<lambda>score.
     eff_bind (lift_exc (resp_pid state)) (\<lambda>pid.
     let r = \<lparr>ar_action_id = aid,
       ar_correlation_id = (let v = py_get state ''correlation_id'' in
          if py_truthy v then Some (py_str (rx_render env) v) else None),
       ar_requested = requested, ar_executed = executed, ar_status = status, ar_timestamp = t,
       ar_timestamp_utc = utc, ar_score = score, ar_reason = reason,
       ar_rules = resp_rules state, ar_pid = pid, ar_path = resp_path state, ar_details = details,
       ar_failure = failure\<rparr> in
     eff_bind (eff_bind (ask (rx_audit_error env)) raise_opt) (\<lambda>_.
     eff_bind (eff_modify (log_effect (Audited (py_lower executed) (action_result_to_dict r)))) (\<lambda>_.
     eff_bind (eff_when (rx_has_sink env)
       (eff_bind (eff_modify (log_effect (Emitted (dict_update [(''source'', PStr ''response'')] (action_result_to_dict r))))) (\<lambda>_.
        eff_bind (ask (rx_sink_error env)) raise_opt))) (\<lambda>_.
     eff_return r))))))))"

definition action_map :: "(string, string) dict" where
  "action_map = [(''CONTINUE_MONITORING'', ''ALLOW_MONITOR''), (''ALERT'', ''WARN''),
     (''TERMINATE'', ''TERMINATE''), (''QUARANTINE'', ''QUARANTINE''), (''DENY'', ''DENY''),
     (''ALLOW'', ''ALLOW''), (''ALLOW_MONITOR'', ''ALLOW_MONITOR''), (''WARN'', ''WARN'')]"

definition response_rank :: "string \<Rightarrow> int" where
  "response_rank a = dict_get_or [(''ALLOW'', 0), (''ALLOW_MONITOR'', 1), (''WARN'', 2), (''DENY'', 3),
     (''TERMINATE'', 4), (''QUARANTINE'', 5)] a 0"

definition find_binding :: "resp_env \<Rightarrow> pydict \<Rightarrow> bound_target resp_op" where
  "find_binding env state =
     eff_bind (eff_gets (\<lambda>s. dict_get (re_bindings s) (resp_cid (rx_render env) state))) (\<lambda>found.
     case found of None \<Rightarrow> eff_raise (ResponseSafetyError ''response target was not bound to this correlation'')
     | Some b \<Rightarrow>
       eff_bind (lift_exc (resp_pid state)) (\<lambda>pid.
       if bt_pid b \<noteq> 0 \<and> bt_pid b \<noteq> (case pid of None \<Rightarrow> 0 | Some i \<Rightarrow> i)
       then eff_raise (ResponseSafetyError ''bound PID does not match the current correlation state'')
       else eff_return b))"

definition resp_exc_text :: "resp_exc \<Rightarrow> string" where
  "resp_exc_text e = (case e of ResponseSafetyError m \<Rightarrow> m | RespQuarantineError m \<Rightarrow> m | _ \<Rightarrow> '''')"

definition is_quarantine_error :: "resp_exc \<Rightarrow> bool" where
  "is_quarantine_error e = (case e of RespQuarantineError _ \<Rightarrow> True | _ \<Rightarrow> False)"

text \<open>The exception handlers: a caught refusal is a result, any other exception leaves the method.\<close>

definition refused :: "(resp_exc \<Rightarrow> bool) \<Rightarrow> resp_env \<Rightarrow> pydict \<Rightarrow> string \<Rightarrow> string \<Rightarrow> string \<Rightarrow> resp_exc \<Rightarrow>
    action_result resp_op" where
  "refused caught env state rec action reason e =
     (if caught e then make_result env state rec action ''REFUSED'' reason [] (Some (resp_exc_text e))
      else eff_raise e)"

definition terminate_bound :: "resp_env \<Rightarrow> resp_policy \<Rightarrow> pydict \<Rightarrow> string \<Rightarrow> bound_target \<Rightarrow> action_result resp_op" where
  "terminate_bound env p state rec b = (case bt_process b of
      None \<Rightarrow> eff_raise (ResponseSafetyError ''no process identity is bound for termination'')
    | Some proc \<Rightarrow>
      eff_bind (terminate_process env p proc) (\<lambda>details.
      make_result env state rec ''TERMINATE'' ''SUCCEEDED''
        ''The correlation-bound process was terminated using a pidfd''
        (dict_update [(''process_identity'', process_to_dict proc)] details) None))"

definition execute_terminate :: "resp_env \<Rightarrow> resp_policy \<Rightarrow> pydict \<Rightarrow> string \<Rightarrow> action_result resp_op" where
  "execute_terminate env p state rec =
     eff_catch (eff_bind (find_binding env state) (terminate_bound env p state rec))
       (refused is_safety env state rec ''TERMINATE'' ''Safe process termination requirements were not satisfied'')"

definition store_exc :: "store_failure \<Rightarrow> resp_exc" where
  "store_exc e = (case e of StoreRefused msg \<Rightarrow> RespQuarantineError msg | StoreRaised x \<Rightarrow> RespExc x)"

definition quarantine_bound :: "resp_env \<Rightarrow> file_identity \<Rightarrow> pydict resp_op" where
  "quarantine_bound env f = eff_bind (ask (\<lambda>n. rx_quarantine env n f)) (\<lambda>r.
     case r of Inl e \<Rightarrow> eff_raise (store_exc e)
     | Inr record \<Rightarrow> eff_bind (eff_modify (log_effect (Quarantined f))) (\<lambda>_. eff_return record))"

definition quarantine_target :: "resp_env \<Rightarrow> resp_policy \<Rightarrow> pydict \<Rightarrow> string \<Rightarrow> bound_target \<Rightarrow> action_result resp_op" where
  "quarantine_target env p state rec b = (case bt_file b of
      None \<Rightarrow> eff_raise (ResponseSafetyError ''no file identity is bound for quarantine'')
    | Some f \<Rightarrow>
      if protected_path p (fi_path f)
      then eff_raise (ResponseSafetyError ''ELYRA protected paths cannot be quarantined'')
      else
      eff_bind (case bt_process b of None \<Rightarrow> eff_return PNone
         | Some proc \<Rightarrow> eff_bind (terminate_process env p proc) (\<lambda>d. eff_return (PDict d))) (\<lambda>termination.
      eff_bind (lift_exc (resp_score state)) (\<lambda>_.  \<comment> \<open>the score is rendered into the reason\<close>
      eff_bind (quarantine_bound env f) (\<lambda>record.
      eff_bind (make_result env state rec ''QUARANTINE'' ''SUCCEEDED''
         ''The correlation-bound file was placed in protected quarantine''
         [(''termination'', termination), (''quarantine_record'', PDict record)] None) (\<lambda>result.
      eff_bind (eff_modify (release_binding (resp_cid (rx_render env) state))) (\<lambda>_.
      eff_return result))))))"

definition execute_quarantine :: "resp_env \<Rightarrow> resp_policy \<Rightarrow> pydict \<Rightarrow> string \<Rightarrow> action_result resp_op" where
  "execute_quarantine env p state rec =
     eff_catch (eff_bind (find_binding env state) (quarantine_target env p state rec))
       (\<lambda>e. eff_bind (refused (\<lambda>e. is_safety e \<or> is_quarantine_error e) env state rec ''QUARANTINE''
              ''Safe quarantine requirements were not satisfied'' e) (\<lambda>result.
            eff_bind (eff_modify (release_binding (resp_cid (rx_render env) state))) (\<lambda>_. eff_return result)))"

definition perform_action :: "resp_env \<Rightarrow> resp_policy \<Rightarrow> pydict \<Rightarrow> string \<Rightarrow> string \<Rightarrow> action_result resp_op" where
  "perform_action env p state rec action =
     (let simple = (\<lambda>status reason failure. make_result env state rec action status reason [] failure) in
      if action = ''ALLOW'' then simple ''SUCCEEDED'' ''Execution was allowed by the current policy'' None
      else if action = ''ALLOW_MONITOR'' then simple ''SUCCEEDED'' ''Execution continues under runtime monitoring'' None
      else if action = ''WARN''
      then simple ''SUCCEEDED'' ''A warning event was emitted for the correlated execution'' None
      else if action = ''DENY''
      then (if py_str (rx_render env) (py_get state ''status'') \<noteq> ''DENIED_PRE_EXECUTION''
            then simple ''REFUSED'' ''Deny can only acknowledge a fanotify denial already applied''
                   (Some ''DENY_NOT_CONFIRMED_BY_FANOTIFY'')
            else simple ''SUCCEEDED'' ''fanotify pre-execution denial was confirmed and recorded'' None)
      else if \<not> rp_automatic p
      then simple ''SKIPPED_POLICY_DISABLED'' ''Automatic destructive runtime responses are disabled'' None
      else if action = ''TERMINATE'' then execute_terminate env p state rec
      else execute_quarantine env p state rec)"

definition recommendation_of :: "(pyval \<Rightarrow> string) \<Rightarrow> pydict \<Rightarrow> string" where
  "recommendation_of render state = py_upper (py_str render (py_or (py_get state ''recommended_action'') (PStr '''')))"

definition execute_recommendation :: "resp_env \<Rightarrow> resp_policy \<Rightarrow> pydict \<Rightarrow> action_result resp_op" where
  "execute_recommendation env p state =
     (let rec = recommendation_of (rx_render env) state;
          cid = resp_cid (rx_render env) state in
      case dict_get action_map rec of
        None \<Rightarrow> make_result env state (if rec = [] then ''UNKNOWN'' else rec) ''NONE'' ''REFUSED''
                  ''Unsupported response recommendation'' [] (Some ''UNKNOWN_RECOMMENDATION'')
      | Some action \<Rightarrow>
        eff_bind (eff_gets (\<lambda>s. dict_get_or (re_ranks s) cid (- 1))) (\<lambda>previous.
        if cid \<noteq> [] \<and> response_rank action \<le> previous
        then make_result env state rec action ''DUPLICATE_SUPPRESSED''
               ''This correlation already executed an equal or stronger response'' [] None
        else
        eff_bind (perform_action env p state rec action) (\<lambda>result.
        eff_bind (eff_when (cid \<noteq> [] \<and> ar_status result = ''SUCCEEDED'')
          (eff_modify (\<lambda>s. s\<lparr>re_ranks := dict_set cid (max previous (response_rank action)) (re_ranks s)\<rparr>))) (\<lambda>_.
        eff_return result))))"

text \<open>Restoring and deleting a quarantined file on request; a refusal of the store is recorded and raised again.\<close>

definition synthetic_state :: "string \<Rightarrow> int option \<Rightarrow> pydict" where
  "synthetic_state action pid = [(''correlation_id'', PNone), (''recommended_action'', PStr action),
     (''combined_score'', PInt 0), (''pid'', py_opt_int pid)]"

definition failed_safely :: "resp_env \<Rightarrow> pydict \<Rightarrow> string \<Rightarrow> string \<Rightarrow> pydict \<Rightarrow> store_failure \<Rightarrow> 'a resp_op" where
  "failed_safely env state action reason details e = (case e of
      StoreRefused msg \<Rightarrow>
        eff_bind (make_result env state action action ''FAILED'' reason details (Some msg)) (\<lambda>_.
        eff_raise (RespQuarantineError msg))
    | StoreRaised x \<Rightarrow> eff_raise (RespExc x))"

definition restore_quarantined :: "resp_env \<Rightarrow> string \<Rightarrow> string option \<Rightarrow> string \<Rightarrow> int option \<Rightarrow>
    (pydict \<times> action_result) resp_op" where
  "restore_quarantined env qid destination actor pid =
     (let state = synthetic_state ''RESTORE'' pid in
      eff_bind (ask (\<lambda>n. rx_restore env n qid destination)) (\<lambda>r. case r of
        Inl msg \<Rightarrow> failed_safely env state ''RESTORE'' ''Authorised restoration failed safely''
          [(''actor'', PStr actor), (''quarantine_id'', PStr qid)] msg
      | Inr record \<Rightarrow>
        eff_bind (eff_modify (log_effect (Restored qid record))) (\<lambda>_.
        eff_bind (make_result env state ''RESTORE'' ''RESTORE'' ''SUCCEEDED''
          ''An authorised quarantine restoration completed''
          [(''actor'', PStr actor), (''quarantine_record'', PDict record)] None) (\<lambda>result.
        eff_return (record, result)))))"

definition delete_quarantined :: "resp_env \<Rightarrow> string \<Rightarrow> string \<Rightarrow> int option \<Rightarrow> action_result resp_op" where
  "delete_quarantined env qid actor pid =
     (let state = synthetic_state ''DELETE_PERMANENTLY'' pid;
          details = [(''actor'', PStr actor), (''quarantine_id'', PStr qid)] in
      eff_bind (ask (\<lambda>n. rx_delete env n qid)) (\<lambda>r. case r of
        Some msg \<Rightarrow> failed_safely env state ''DELETE_PERMANENTLY''
          ''Authorised permanent deletion failed safely'' details msg
      | None \<Rightarrow>
        eff_bind (eff_modify (log_effect (Deleted qid))) (\<lambda>_.
        make_result env state ''DELETE_PERMANENTLY'' ''DELETE_PERMANENTLY'' ''SUCCEEDED''
          ''An authorised permanent quarantine deletion completed'' details None)))"

section \<open>Destructive effects\<close>

text \<open>What an operation has appended to the log.\<close>

definition appends :: "(resp_effect \<Rightarrow> bool) \<Rightarrow> resp_engine \<Rightarrow> resp_engine \<Rightarrow> bool" where
  "appends P s s' = (\<exists>new. re_log s' = re_log s @ new \<and> list_all P new)"

interpretation app: effect_relation "appends P" for P
proof
  show "appends P s s" for s by (simp add: appends_def)
  show "appends P s u" if "appends P s t" "appends P t u" for s t u
    using that by (fastforce simp: appends_def)
qed

definition harmless :: "resp_effect \<Rightarrow> bool" where
  "harmless x = (case x of SentSignal _ _ \<Rightarrow> False | Quarantined _ \<Rightarrow> False
     | Restored _ _ \<Rightarrow> False | Deleted _ \<Rightarrow> False | _ \<Rightarrow> True)"

text \<open>The conditions under which an effect on a bound target is in order.\<close>

definition authorised :: "resp_env \<Rightarrow> resp_policy \<Rightarrow> bound_target \<Rightarrow> resp_effect \<Rightarrow> bool" where
  "authorised env p b x = (case x of
      SentSignal cur sig \<Rightarrow> (\<exists>proc. bt_process b = Some proc \<and> same_identity proc cur \<and>
        pi_pid proc \<notin> set (rp_protected_pids p) \<and> pi_pid proc \<noteq> rx_self_pid env \<and>
        \<not> protected_path p (pi_path proc) \<and> (sig = ''SIGTERM'' \<or> sig = ''SIGKILL'' \<and> rp_escalate p))
    | Quarantined f \<Rightarrow> bt_file b = Some f \<and> \<not> protected_path p (fi_path f)
    | _ \<Rightarrow> harmless x)"

lemma harmless_simps [simp]:
  "harmless (OpenedFd fd)" "harmless (ClosedFd fd)" "harmless (Inspected i)" "harmless (Audited k d)" "harmless (Emitted d)"
  "\<not> harmless (SentSignal i g)" "\<not> harmless (Quarantined f)" "\<not> harmless (Restored q d)" "\<not> harmless (Deleted q)"
  by (simp_all add: harmless_def)

lemma ask_app: "relates (appends P) (ask f)"
  by (simp add: relates_def appends_def ask_def)

lemma log_app: "P x \<Longrightarrow> relates (appends P) (eff_modify (log_effect x))"
  by (simp add: relates_def appends_def log_effect_def)

lemma lift_app: "relates (appends P) (lift_exc r)"
  unfolding lift_exc_def by (rule app.relates_pure)

lemma raise_app: "relates (appends P) (raise_opt r)"
  unfolding raise_opt_def by (intro app.relates_option app.relates_pure)

lemma make_result_app: "(\<And>x. harmless x \<Longrightarrow> P x) \<Longrightarrow>
    relates (appends P) (make_result env state a b c d e f)"
  unfolding make_result_def Let_def
  by (intro app.relates_bind app.relates_pure app.relates_when ask_app lift_app log_app raise_app) simp_all

lemma capture_app: "(\<And>x. harmless x \<Longrightarrow> P x) \<Longrightarrow> relates (appends P) (capture_process env pid)"
  unfolding capture_process_def
  by (intro app.relates_bind app.relates_sum app.relates_pure ask_app log_app) simp

lemma send_app: "P (SentSignal i g) \<Longrightarrow> relates (appends P) (send_signal env i g)"
  unfolding send_signal_def
  by (intro app.relates_bind ask_app) (simp add: app.relates_pure log_app split: option.split)

lemma wait_app: "relates (appends P) (wait_pidfd env t)"
  unfolding wait_pidfd_def by (intro app.relates_bind ask_app lift_app)

lemma with_fd_app:
  assumes "relates (appends P) m" and "\<And>x. harmless x \<Longrightarrow> P x"
  shows "relates (appends P) (with_fd fd m)"
  unfolding relates_def
proof
  fix s
  have "appends P (log_effect (OpenedFd fd) s) (snd (m (log_effect (OpenedFd fd) s)))"
    using assms(1) by (simp add: relates_def)
  then show "appends P s (snd (with_fd fd m s))"
    using assms(2) by (auto simp: with_fd_def appends_def log_effect_def split: prod.splits)
qed

lemma signal_app:
  assumes "\<And>x. harmless x \<Longrightarrow> P x" and "\<And>cur. same_identity proc cur \<Longrightarrow> P (SentSignal cur ''SIGTERM'')"
    and "\<And>cur. same_identity proc cur \<Longrightarrow> rp_escalate p \<Longrightarrow> P (SentSignal cur ''SIGKILL'')"
  shows "relates (appends P) (signal_process env p proc)"
  unfolding signal_process_def
  by (intro app.relates_bind app.relates_if app.relates_pure capture_app send_app wait_app) (use assms in auto)

lemma terminate_app:
  assumes "\<And>x. harmless x \<Longrightarrow> P x" and "bt_process b = Some proc"
    and "\<And>x. authorised env p b x \<Longrightarrow> P x"
  shows "relates (appends P) (terminate_process env p proc)"
proof (cases "pi_pid proc \<in> set (rp_protected_pids p) \<or> pi_pid proc = rx_self_pid env \<or> protected_path p (pi_path proc)")
  case True
  then show ?thesis by (auto simp: terminate_process_def app.relates_pure)
next
  case False
  have "P (SentSignal cur ''SIGTERM'')" "rp_escalate p \<Longrightarrow> P (SentSignal cur ''SIGKILL'')"
    if "same_identity proc cur" for cur
    using that False assms(2) by (auto intro!: assms(3) simp: authorised_def)
  then have "relates (appends P) (with_fd fd (signal_process env p proc))" for fd
    by (intro with_fd_app signal_app) (auto simp: assms(1))
  then show ?thesis
    unfolding terminate_process_def
    by (intro app.relates_if app.relates_bind app.relates_pure ask_app)
      (simp add: app.relates_pure split: pidfd_outcome.split)
qed

lemma find_binding_ok:
  "find_binding env state s = (Inr b, s') \<Longrightarrow> s' = s \<and> dict_get (re_bindings s) (resp_cid (rx_render env) state) = Some b"
  by (auto simp: find_binding_def eff_bind_def lift_exc_def split: option.splits sum.splits if_splits prod.splits)

lemma find_binding_app: "relates (appends P) (find_binding env state)"
  unfolding find_binding_def
  by (intro app.relates_bind app.relates_pure app.relates_option app.relates_if lift_app)

lemma release_app: "(\<And>x. harmless x \<Longrightarrow> P x) \<Longrightarrow> relates (appends P) (eff_modify (release_binding cid))"
  by (rule app.relates_modify)
    (auto simp: release_binding_def close_opt_def log_effect_def appends_def split: option.splits)

lemma quarantine_bound_app: "P (Quarantined f) \<Longrightarrow> relates (appends P) (quarantine_bound env f)"
  unfolding quarantine_bound_def
  by (intro app.relates_bind ask_app)
    (auto intro!: app.relates_bind app.relates_pure log_app split: sum.split)

text \<open>Both destructive operations touch only the target bound when they start.\<close>

lemma failed_app: "(\<And>x. harmless x \<Longrightarrow> P x) \<Longrightarrow> relates (appends P) (failed_safely env state a b c e)"
  unfolding failed_safely_def by (cases e) (auto intro!: app.relates_bind app.relates_pure make_result_app)

lemma refused_app: "(\<And>x. harmless x \<Longrightarrow> P x) \<Longrightarrow> relates (appends P) (refused c env state rec a b e)"
  unfolding refused_def by (auto intro: make_result_app app.relates_pure)

lemma terminate_bound_app:
  assumes "\<And>x. harmless x \<Longrightarrow> P x" and "\<And>x. authorised env p b x \<Longrightarrow> P x"
  shows "relates (appends P) (terminate_bound env p state rec b)"
  unfolding terminate_bound_def
  by (intro app.relates_option app.relates_pure app.relates_bind make_result_app terminate_app [of P b])
    (auto simp: assms)

lemma quarantine_target_app:
  assumes "\<And>x. harmless x \<Longrightarrow> P x" and "\<And>x. authorised env p b x \<Longrightarrow> P x"
  shows "relates (appends P) (quarantine_target env p state rec b)"
  unfolding quarantine_target_def
  by (intro app.relates_option app.relates_if app.relates_pure app.relates_bind make_result_app
      lift_app terminate_app [of P b] quarantine_bound_app release_app)
    (auto simp: assms intro!: assms(2) simp: authorised_def)

lemma bound_operation_app:
  assumes "\<And>b. dict_get (re_bindings s) (resp_cid (rx_render env) state) = Some b \<Longrightarrow> relates (appends P) (f b)"
    and "\<And>e. relates (appends P) (h e)"
  shows "appends P s (snd (eff_catch (eff_bind (find_binding env state) f) h s))"
proof (intro app.at_catch app.at_bind)
  show "appends P s (snd (find_binding env state s))" by (rule app.at_relates [OF find_binding_app])
  show "appends P s' (snd (f b s'))" if "find_binding env state s = (Inr b, s')" for b s'
    using find_binding_ok [OF that] assms(1) by (blast intro: app.at_relates)
  show "appends P s' (snd (h e s'))" for e s' by (rule app.at_relates [OF assms(2)])
qed

lemma perform_action_app:
  assumes h: "\<And>x. harmless x \<Longrightarrow> P x"
    and a: "\<And>b x. dict_get (re_bindings s) (resp_cid (rx_render env) state) = Some b \<Longrightarrow> rp_automatic p \<Longrightarrow>
      action = ''TERMINATE'' \<or> action = ''QUARANTINE'' \<Longrightarrow> authorised env p b x \<Longrightarrow> P x"
    and "action \<in> snd ` set action_map"
  shows "appends P s (snd (perform_action env p state rec action s))"
proof -
  have simple: "appends P s (snd (make_result env state q b c d e f s))" for q b c d e f
    using h by (intro app.at_relates make_result_app) auto
  have act: "action \<in> {''ALLOW'', ''ALLOW_MONITOR'', ''WARN'', ''DENY'', ''TERMINATE'', ''QUARANTINE''}"
    using assms(3) by (auto simp: action_map_def)
  show ?thesis
  proof (cases "rp_automatic p \<and> (action = ''TERMINATE'' \<or> action = ''QUARANTINE'')")
    case True
    then have t: "appends P s (snd (execute_terminate env p state rec s))"
      "appends P s (snd (execute_quarantine env p state rec s))"
      unfolding execute_terminate_def execute_quarantine_def
      by (intro bound_operation_app terminate_bound_app quarantine_target_app refused_app h a
          app.relates_bind release_app app.relates_pure; blast)+
    then show ?thesis using True by (auto simp: perform_action_def)
  next
    case False
    then show ?thesis using act simple by (auto simp: perform_action_def Let_def)
  qed
qed

text \<open>What one recommendation may do in a given state.\<close>

definition permitted :: "resp_env \<Rightarrow> resp_policy \<Rightarrow> pydict \<Rightarrow> resp_engine \<Rightarrow> resp_effect \<Rightarrow> bool" where
  "permitted env p state s x \<longleftrightarrow> harmless x \<or> rp_automatic p \<and>
      (\<exists>b. dict_get (re_bindings s) (resp_cid (rx_render env) state) = Some b \<and> authorised env p b x)"

lemma execute_permitted:
  "appends (permitted env p state s) s (snd (execute_recommendation env p state s))"
proof -
  let ?P = "\<lambda>x. harmless x \<or> rp_automatic p \<and>
      (\<exists>b. dict_get (re_bindings s) (resp_cid (rx_render env) state) = Some b \<and> authorised env p b x)"
  have res: "appends ?P t (snd (make_result env state q b c d e f t))" for q b c d e f t
    by (intro app.at_relates make_result_app) auto
  have act: "appends ?P s (snd (perform_action env p state rec action s))"
    if "dict_get action_map rec0 = Some action" for rec rec0 action
    by (rule perform_action_app) (use that in \<open>auto dest!: map_of_SomeD intro: rev_image_eqI\<close>)
  have rank: "relates (appends ?P) (eff_when c (eff_modify (\<lambda>s. s\<lparr>re_ranks := g s\<rparr>)))" for c g
    by (intro app.relates_when app.relates_modify) (simp add: appends_def)
  define P where "P = ?P"
  let ?rec = "recommendation_of (rx_render env) state"
  let ?cid = "resp_cid (rx_render env) state"
  have "appends P s (snd (execute_recommendation env p state s))"
  proof (cases "dict_get action_map ?rec")
    case None
    show ?thesis unfolding execute_recommendation_def Let_def None option.case P_def by (rule res)
  next
    case (Some action)
    have perform: "appends P s (snd (eff_bind (perform_action env p state ?rec action) (\<lambda>result.
        eff_bind (eff_when (c result) (eff_modify (\<lambda>s. s\<lparr>re_ranks := g s\<rparr>))) (\<lambda>_. eff_return result)) s))" for c g
      unfolding P_def
      by (rule app.at_bind, rule act [OF Some], rule app.at_relates)
        (rule app.relates_bind [OF rank app.relates_pure(1)])
    have res': "appends P s (snd (make_result env state q b c d e f s))" for q b c d e f
      unfolding P_def by (rule res)
    show ?thesis
      unfolding execute_recommendation_def Let_def Some option.case
      by (rule app.at_gets, cases "?cid \<noteq> [] \<and> response_rank action \<le> dict_get_or (re_ranks s) ?cid (- 1)")
        (simp_all only: simp_thms if_True if_False res' perform)
  qed
  then show ?thesis by (simp add: P_def permitted_def [abs_def])
qed

section \<open>Relations every engine operation keeps\<close>

text \<open>Effects that neither open nor close a descriptor nor signal a process.\<close>

definition plain_effect :: "resp_effect \<Rightarrow> bool" where
  "plain_effect x = (case x of OpenedFd _ \<Rightarrow> False | ClosedFd _ \<Rightarrow> False | SentSignal _ _ \<Rightarrow> False | _ \<Rightarrow> True)"

lemma plain_effect_simps [simp]:
  "plain_effect (Inspected i)" "plain_effect (Quarantined f)" "plain_effect (Audited k d)"
  "plain_effect (Emitted d)" "plain_effect (Restored q d)" "plain_effect (Deleted q)"
  by (simp_all add: plain_effect_def)

text \<open>What a relation on engine states needs to be kept by the operations that do not touch a process.\<close>

locale engine_calls = effect_relation R for R :: "resp_engine \<Rightarrow> resp_engine \<Rightarrow> bool" +
  assumes R_calls: "R s (s\<lparr>re_calls := Suc (re_calls s)\<rparr>)"
    and R_log: "plain_effect x \<Longrightarrow> R s (log_effect x s)"
    and R_release: "R s (release_binding cid s)"
begin

lemma ask_keeps: "relates R (ask f)"
  by (simp add: relates_def ask_def R_calls)

lemma lift_keeps: "relates R (lift_exc r)"
  unfolding lift_exc_def by (rule relates_pure)

lemma log_keeps: "plain_effect x \<Longrightarrow> relates R (eff_modify (log_effect x))"
  by (rule relates_modify) (rule R_log)

lemma raise_keeps: "relates R (raise_opt r)"
  unfolding raise_opt_def by (intro relates_option relates_pure)

lemma wait_keeps: "relates R (wait_pidfd env t)"
  unfolding wait_pidfd_def by (intro relates_bind ask_keeps lift_keeps)

lemma capture_keeps: "relates R (capture_process env pid)"
  unfolding capture_process_def
  by (intro relates_bind ask_keeps relates_sum relates_pure log_keeps) simp

lemma try_safety_keeps: "relates R m \<Longrightarrow> relates R (try_safety m)"
  unfolding try_safety_def by (intro relates_catch relates_bind relates_pure relates_if)

lemma make_result_keeps: "relates R (make_result env state a b c d e f)"
  unfolding make_result_def Let_def
  by (intro relates_bind relates_pure relates_when ask_keeps lift_keeps log_keeps raise_keeps) simp_all

lemma find_binding_keeps: "relates R (find_binding env state)"
  unfolding find_binding_def
  by (intro relates_bind relates_option relates_if relates_pure lift_keeps)

lemma refused_keeps: "relates R (refused c env state rec a b e)"
  unfolding refused_def by (intro relates_if relates_pure make_result_keeps)

lemma release_op_keeps: "relates R (eff_modify (release_binding cid))"
  by (rule relates_modify) (rule R_release)

lemma quarantine_bound_keeps: "relates R (quarantine_bound env f)"
  unfolding quarantine_bound_def
  by (intro relates_bind ask_keeps relates_sum relates_pure log_keeps) simp

lemma failed_keeps: "relates R (failed_safely env state a b c e)"
  unfolding failed_safely_def
  by (cases e) (auto intro!: relates_bind relates_pure make_result_keeps)

lemma restore_delete_keeps:
  "relates R (restore_quarantined env qid dest actor pid)" "relates R (delete_quarantined env qid actor pid)"
  unfolding restore_quarantined_def delete_quarantined_def Let_def
  by (intro relates_bind relates_option relates_sum relates_pure make_result_keeps failed_keeps ask_keeps log_keeps; simp)+

lemma close_keeps: "R s (close_engine s)"
proof -
  have "R s (fold release_binding ks s)" for ks
    by (induction ks arbitrary: s) (auto intro: R_refl R_trans R_release)
  then show ?thesis by (simp add: close_engine_def)
qed

end

text \<open>With a termination that keeps the relation, every action on a binding keeps it.\<close>

locale engine_actions = engine_calls +
  fixes env :: resp_env
  assumes R_terminate: "relates R (terminate_process env p proc)"
begin

lemma perform_action_keeps: "relates R (perform_action env p state rec action)"
proof -
  have "relates R (execute_terminate env p state rec)"
    unfolding execute_terminate_def terminate_bound_def
    by (intro relates_catch relates_bind relates_option relates_pure find_binding_keeps
        R_terminate make_result_keeps refused_keeps)
  moreover have "relates R (execute_quarantine env p state rec)"
    unfolding execute_quarantine_def quarantine_target_def
    by (intro relates_catch relates_bind relates_option relates_pure relates_if find_binding_keeps
        R_terminate make_result_keeps refused_keeps release_op_keeps quarantine_bound_keeps lift_keeps)
  ultimately show ?thesis
    unfolding perform_action_def Let_def by (intro relates_if make_result_keeps)
qed

text \<open>The table of ranks is written once an action has succeeded.\<close>

lemma execute_recommendation_keeps:
  assumes "\<And>s g. R s (s\<lparr>re_ranks := g s\<rparr>)"
  shows "relates R (execute_recommendation env p state)"
proof -
  have "relates R (eff_modify (\<lambda>s. s\<lparr>re_ranks := g s\<rparr>))" for g
    by (rule relates_modify) (rule assms)
  then show ?thesis
    unfolding execute_recommendation_def Let_def
    by (intro relates_option relates_bind relates_if relates_when relates_pure make_result_keeps perform_action_keeps)
qed

end

text \<open>A relation that single signals and a descriptor opened and closed keep is kept by a termination.\<close>

locale engine_relation = engine_calls +
  assumes R_signal: "R s (log_effect (SentSignal i g) s)"
    and R_with_fd: "R (log_effect (OpenedFd fd) s) t \<Longrightarrow> R s (log_effect (ClosedFd fd) t)"
begin

lemma with_fd_keeps: "relates R m \<Longrightarrow> relates R (with_fd fd m)"
  by (auto simp: relates_def with_fd_def intro!: R_with_fd split: prod.splits)
    (metis snd_conv)

lemma terminate_keeps: "relates R (terminate_process env p proc)"
proof -
  have send: "relates R (send_signal env i g)" for i g
    unfolding send_signal_def
    by (intro relates_bind relates_option relates_pure ask_keeps relates_modify R_signal)
  have "relates R (signal_process env p proc)"
    unfolding signal_process_def
    by (intro relates_bind relates_if relates_pure capture_keeps send wait_keeps)
  then show ?thesis
    unfolding terminate_process_def
    by (intro relates_if relates_bind relates_pure ask_keeps)
      (simp add: relates_pure with_fd_keeps split: pidfd_outcome.split)
qed

end

sublocale engine_relation \<subseteq> engine_actions R env for env
  by unfold_locales (rule terminate_keeps)

section \<open>A signal follows a fresh inspection\<close>

text \<open>
  In a piece of the log, with the calls \<open>a\<close> to \<open>b\<close> made meanwhile: a signal to a process comes right after a descriptor
  was opened and the inspector, in one of these calls, described that very process; only signals to the same process
  stand in between.
\<close>

definition vetted :: "resp_env \<Rightarrow> nat \<Rightarrow> nat \<Rightarrow> resp_effect list \<Rightarrow> bool" where
  "vetted env a b new \<longleftrightarrow> (\<forall>pre cur sig post. new = pre @ SentSignal cur sig # post \<longrightarrow>
     (\<exists>fd n pre1 mid. pre = pre1 @ [OpenedFd fd, Inspected cur] @ mid \<and> list_all (\<lambda>x. \<exists>g. x = SentSignal cur g) mid \<and>
       a \<le> n \<and> n < b \<and> rx_capture env n (pi_pid cur) = Inr cur))"

definition vets :: "resp_env \<Rightarrow> resp_engine \<Rightarrow> resp_engine \<Rightarrow> bool" where
  "vets env s s' \<longleftrightarrow> re_calls s \<le> re_calls s' \<and>
     (\<exists>new. re_log s' = re_log s @ new \<and> vetted env (re_calls s) (re_calls s') new)"

lemma vetted_silent: "(\<And>i g. SentSignal i g \<notin> set new) \<Longrightarrow> vetted env a b new"
  unfolding vetted_def by (metis in_set_conv_decomp)

lemma vetted_append:
  assumes "vetted env a b xs" and "vetted env b c ys" and "a \<le> b" and "b \<le> c"
  shows "vetted env a c (xs @ ys)"
  unfolding vetted_def
proof (intro allI impI)
  fix pre cur sig post
  assume "xs @ ys = pre @ SentSignal cur sig # post"
  then consider us where "xs = pre @ SentSignal cur sig # us" | us where "pre = xs @ us" "ys = us @ SentSignal cur sig # post"
    by (fastforce simp: append_eq_append_conv2 append_eq_Cons_conv Cons_eq_append_conv)
  then show "\<exists>fd n pre1 mid. pre = pre1 @ [OpenedFd fd, Inspected cur] @ mid \<and> list_all (\<lambda>x. \<exists>g. x = SentSignal cur g) mid \<and>
      a \<le> n \<and> n < c \<and> rx_capture env n (pi_pid cur) = Inr cur"
  proof cases
    case 1
    then obtain fd n pre1 mid where "pre = pre1 @ [OpenedFd fd, Inspected cur] @ mid"
        "list_all (\<lambda>x. \<exists>g. x = SentSignal cur g) mid" "a \<le> n" "n < b" "rx_capture env n (pi_pid cur) = Inr cur"
      using assms(1) unfolding vetted_def by blast
    moreover from this(4) have "n < c" using assms(4) by simp
    ultimately show ?thesis by blast
  next
    case 2
    from assms(2) 2(2) obtain fd n pre1 mid where v: "us = pre1 @ [OpenedFd fd, Inspected cur] @ mid"
        "list_all (\<lambda>x. \<exists>g. x = SentSignal cur g) mid" "b \<le> n" "n < c" "rx_capture env n (pi_pid cur) = Inr cur"
      unfolding vetted_def by blast
    then have "pre = (xs @ pre1) @ [OpenedFd fd, Inspected cur] @ mid" "a \<le> n" using 2(1) assms(3) by simp_all
    then show ?thesis using v by blast
  qed
qed

text \<open>One termination: a descriptor, an inspection of the process, signals to what it found.\<close>

lemma vetted_signals:
  assumes "sigs = [] \<or> a \<le> n \<and> n < b \<and> rx_capture env n (pi_pid cur) = Inr cur"
  shows "vetted env a b (OpenedFd fd # Inspected cur # map (SentSignal cur) sigs @ [ClosedFd fd'])"
  unfolding vetted_def
proof (intro allI impI)
  fix pre i sig post
  assume eq: "OpenedFd fd # Inspected cur # map (SentSignal cur) sigs @ [ClosedFd fd'] = pre @ SentSignal i sig # post"
  then obtain mid where mid: "pre = OpenedFd fd # Inspected cur # mid"
      "map (SentSignal cur) sigs @ [ClosedFd fd'] = mid @ SentSignal i sig # post"
    by (auto simp: Cons_eq_append_conv)
  then obtain us where us: "map (SentSignal cur) sigs = mid @ SentSignal i sig # us"
    by (auto simp: append_eq_append_conv2 append_eq_Cons_conv Cons_eq_append_conv)
  then have set: "set (mid @ [SentSignal i sig]) \<subseteq> SentSignal cur ` set sigs"
    by (metis Un_iff append.assoc append_Cons append_Nil list.set_map set_append subsetI)
  then have "i = cur" "sigs \<noteq> []" "list_all (\<lambda>x. \<exists>g. x = SentSignal cur g) mid" by (auto simp: list_all_iff)
  then show "\<exists>fd n pre1 mid. pre = pre1 @ [OpenedFd fd, Inspected i] @ mid \<and> list_all (\<lambda>x. \<exists>g. x = SentSignal i g) mid \<and>
      a \<le> n \<and> n < b \<and> rx_capture env n (pi_pid i) = Inr i"
    using assms mid(1) by (intro exI [of _ fd] exI [of _ n] exI [of _ "[]"] exI [of _ mid]) auto
qed

lemma signal_log:
  assumes "signal_process env p proc s = (r, s')"
  shows "re_calls s < re_calls s' \<and> (re_log s' = re_log s \<or>
    (\<exists>cur sigs. re_log s' = re_log s @ Inspected cur # map (SentSignal cur) sigs \<and>
      (sigs = [] \<or> rx_capture env (re_calls s) (pi_pid cur) = Inr cur)))"
proof (cases "rx_capture env (re_calls s) (pi_pid proc)")
  case (Inl msg)
  then show ?thesis using assms by (auto simp: signal_process_def capture_process_def eff_bind_run ask_def)
next
  case (Inr cur)
  have pid: "pi_pid proc = pi_pid cur" if "same_identity proc cur" using that by (simp add: same_identity_def)
  have "\<exists>sigs. re_log s' = re_log s @ Inspected cur # map (SentSignal cur) sigs \<and> (sigs = [] \<or> same_identity proc cur) \<and>
      re_calls s < re_calls s'"
    using assms Inr
    by (auto simp: signal_process_def capture_process_def send_signal_def wait_pidfd_def lift_exc_def eff_bind_run ask_def
        log_effect_def split: if_splits sum.splits option.splits
        intro: exI [of _ "[]"] exI [of _ "[''SIGTERM'']"] exI [of _ "[''SIGTERM'', ''SIGKILL'']"])
  then show ?thesis using pid Inr by metis
qed

lemma vets_trans: "vets env s t \<Longrightarrow> vets env t u \<Longrightarrow> vets env s u"
  unfolding vets_def using vetted_append by fastforce

lemma vets_silent:
  assumes "re_log s' = re_log s @ new" and "\<And>i g. SentSignal i g \<notin> set new" and "re_calls s \<le> re_calls s'"
  shows "vets env s s'"
  using assms vetted_silent by (auto simp: vets_def)

interpretation vts: engine_calls "vets env" for env
proof
  show "vets env s s" for s by (rule vets_silent [of _ _ "[]"]) simp_all
  show "vets env s u" if "vets env s t" "vets env t u" for s t u using that by (rule vets_trans)
  show "vets env s (s\<lparr>re_calls := Suc (re_calls s)\<rparr>)" for s by (rule vets_silent [of _ _ "[]"]) simp_all
  show "vets env s (log_effect x s)" if "plain_effect x" for x s
    using that by (intro vets_silent [of _ _ "[x]"]) (auto simp: log_effect_def plain_effect_def)
  show "vets env s (release_binding cid s)" for cid s
  proof (cases "\<exists>b fd. dict_get (re_bindings s) cid = Some b \<and> bt_fd b = Some fd")
    case True
    then obtain fd where "re_log (release_binding cid s) = re_log s @ [ClosedFd fd]" "re_calls (release_binding cid s) = re_calls s"
      by (auto simp: release_binding_def close_opt_def log_effect_def)
    then show ?thesis by (intro vets_silent) auto
  next
    case False
    then show ?thesis
      by (intro vets_silent [of _ _ "[]"]) (auto simp: release_binding_def close_opt_def split: option.splits)
  qed
qed

lemma with_fd_vets: "relates (vets env) (with_fd fd (signal_process env p proc))"
  unfolding relates_def
proof
  fix s
  obtain r t where t: "signal_process env p proc (log_effect (OpenedFd fd) s) = (r, t)" by fastforce
  note l = signal_log [OF t]
  have calls: "re_calls s < re_calls t" using l by (simp add: log_effect_def)
  have "vets env s (log_effect (ClosedFd fd) t)"
  proof (cases "re_log t = re_log (log_effect (OpenedFd fd) s)")
    case True
    then show ?thesis
      using calls by (intro vets_silent [of _ _ "[OpenedFd fd, ClosedFd fd]"]) (auto simp: log_effect_def)
  next
    case False
    then obtain cur sigs where c: "re_log t = re_log s @ OpenedFd fd # Inspected cur # map (SentSignal cur) sigs"
        "sigs = [] \<or> rx_capture env (re_calls s) (pi_pid cur) = Inr cur"
      using l by (auto simp: log_effect_def)
    then have "vetted env (re_calls s) (re_calls t) (OpenedFd fd # Inspected cur # map (SentSignal cur) sigs @ [ClosedFd fd])"
      using calls by (intro vetted_signals [of _ _ "re_calls s"]) auto
    then show ?thesis
      unfolding vets_def using c(1) calls
      by (intro conjI exI [of _ "OpenedFd fd # Inspected cur # map (SentSignal cur) sigs @ [ClosedFd fd]"])
        (simp_all add: log_effect_def)
  qed
  then show "vets env s (snd (with_fd fd (signal_process env p proc) s))" using t by (simp add: with_fd_def)
qed

text \<open>Terminations with the environment the relation is about.\<close>

lemma terminate_vets: "relates (vets env) (terminate_process env p proc)"
  unfolding terminate_process_def
  by (intro vts.relates_if vts.relates_bind vts.relates_pure vts.ask_keeps)
    (simp add: vts.relates_pure with_fd_vets split: pidfd_outcome.split)

interpretation vta: engine_actions "vets env" env for env
  by unfold_locales (rule terminate_vets)

lemma execute_vets: "vets env s (snd (execute_recommendation env p state s))"
  by (rule vts.at_relates, rule vta.execute_recommendation_keeps) (rule vets_silent [of _ _ "[]"], simp_all)

text \<open>C23: Destructive effects are confined and follow a fresh inspection. Whatever recommendation is executed, a signal or a
  quarantine happens only when the policy enables automatic actions and a target was bound to this very correlation
  beforehand; the file quarantined is the bound one, outside protected paths; the process signalled has the bound
  identity, is not protected by identifier or executable path and is not the engine itself; a kill signal needs the escalation
  setting. And every signal comes, within this call, right after a process descriptor was opened and the process inspector
  was asked again and described exactly the process that is signalled; only an earlier signal to the same process may
  stand in between.\<close>

theorem destructive_effects_authorised:
  assumes "execute_recommendation env p state s = (r, s')"
  shows "\<exists>new. re_log s' = re_log s @ new \<and>
    (\<forall>x \<in> set new. harmless x \<or> rp_automatic p \<and>
      (\<exists>b. dict_get (re_bindings s) (resp_cid (rx_render env) state) = Some b \<and> authorised env p b x)) \<and>
    (\<forall>pre cur sig post. new = pre @ SentSignal cur sig # post \<longrightarrow>
      (\<exists>fd n pre1 mid. pre = pre1 @ [OpenedFd fd, Inspected cur] @ mid \<and> list_all (\<lambda>x. \<exists>g. x = SentSignal cur g) mid \<and>
        re_calls s \<le> n \<and> n < re_calls s' \<and> rx_capture env n (pi_pid cur) = Inr cur))"
proof -
  obtain new where new: "re_log s' = re_log s @ new" "list_all (permitted env p state s) new"
    using execute_permitted [of env p state s] assms by (auto simp: appends_def)
  moreover have "vetted env (re_calls s) (re_calls s') new"
    using execute_vets [of env s p state] assms new(1) by (auto simp: vets_def)
  ultimately show ?thesis
    unfolding vetted_def by (intro exI [of _ new] conjI) (auto simp: list_all_iff permitted_def)
qed

section \<open>Descriptors\<close>

definition opened_fds :: "resp_effect list \<Rightarrow> int list" where
  "opened_fds effs = concat (map (\<lambda>x. case x of OpenedFd fd \<Rightarrow> [fd] | _ \<Rightarrow> []) effs)"

definition closed_fds :: "resp_effect list \<Rightarrow> int list" where
  "closed_fds effs = concat (map (\<lambda>x. case x of ClosedFd fd \<Rightarrow> [fd] | _ \<Rightarrow> []) effs)"

definition held_fds :: "(string, bound_target) dict \<Rightarrow> int list" where
  "held_fds d = concat (map (\<lambda>kb. case bt_fd (snd kb) of None \<Rightarrow> [] | Some fd \<Rightarrow> [fd]) d)"

text \<open>Descriptors opened, not closed and not held by a binding: the debt of a state.\<close>

definition fd_debt :: "resp_engine \<Rightarrow> int \<Rightarrow> int" where
  "fd_debt s fd = int (count_list (opened_fds (re_log s)) fd) - int (count_list (closed_fds (re_log s)) fd)
     - int (count_list (held_fds (re_bindings s)) fd)"

definition is_fd :: "int option \<Rightarrow> int \<Rightarrow> int" where
  "is_fd held fd = (if held = Some fd then 1 else 0)"

lemma is_fd_None [simp]: "is_fd None fd = 0"
  by (simp add: is_fd_def)

definition bindings_ok :: "resp_engine \<Rightarrow> bool" where
  "bindings_ok s \<longleftrightarrow> dict_ok (re_bindings s) \<and> length (re_bindings s) \<le> 1024 \<and>
     dict_all (\<lambda>k b. bt_correlation_id b = k \<and> k \<noteq> [] \<and> (bt_process b \<noteq> None \<or> bt_file b \<noteq> None) \<and>
       (bt_file b = None \<longleftrightarrow> bt_fd b = None)) (re_bindings s)"

text \<open>The relation every operation keeps: bindings stay well formed and the debt does not change.\<close>

definition fd_safe :: "resp_engine \<Rightarrow> resp_engine \<Rightarrow> bool" where
  "fd_safe s s' \<longleftrightarrow> (bindings_ok s \<longrightarrow> bindings_ok s' \<and> fd_debt s' = fd_debt s)"

lemma held_Cons: "int (count_list (held_fds ((k, b) # d)) fd) = is_fd (bt_fd b) fd + int (count_list (held_fds d) fd)"
  by (simp add: held_fds_def is_fd_def split: option.splits)

lemma held_Nil [simp]: "held_fds [] = []"
  by (simp add: held_fds_def)

lemma held_pop:
  assumes "dict_ok d" and "dict_get d k = Some b"
  shows "int (count_list (held_fds (dict_pop k d)) fd) = int (count_list (held_fds d) fd) - is_fd (bt_fd b) fd"
  using assms
proof (induction d)
  case (Cons x d)
  obtain k' b' where x: "x = (k', b')" by (cases x)
  show ?case
  proof (cases "k' = k")
    case True
    then have "dict_pop k (x # d) = d" "b' = b"
      using Cons.prems x by (auto simp: dict_pop_def dict_ok_def filter_id_conv)
    then show ?thesis using x by (simp add: held_Cons)
  next
    case False
    then have "dict_pop k (x # d) = x # dict_pop k d" using x by (simp add: dict_pop_def)
    then show ?thesis using Cons False x by (simp add: held_Cons dict_ok_def)
  qed
qed simp

lemma held_set:
  "k \<notin> fst ` set d \<Longrightarrow>
    int (count_list (held_fds (dict_set k b d)) fd) = int (count_list (held_fds d) fd) + is_fd (bt_fd b) fd"
  by (induction d) (auto simp: held_Cons)

lemma log_bindings [simp]: "re_bindings (log_effect x s) = re_bindings s" "re_ranks (log_effect x s) = re_ranks s"
  by (simp_all add: log_effect_def)

lemma bindings_ok_cong: "re_bindings s' = re_bindings s \<Longrightarrow> bindings_ok s' = bindings_ok s"
  by (simp add: bindings_ok_def)

lemma debt_log:
  "fd_debt (log_effect x s) fd = fd_debt s fd +
     (case x of OpenedFd y \<Rightarrow> is_fd (Some y) fd | ClosedFd y \<Rightarrow> - is_fd (Some y) fd | _ \<Rightarrow> 0)"
  by (simp add: fd_debt_def log_effect_def opened_fds_def closed_fds_def is_fd_def split: resp_effect.split)

lemma debt_pop:
  assumes "dict_ok (re_bindings s)" and "dict_get (re_bindings s) cid = Some b"
  shows "fd_debt (s\<lparr>re_bindings := dict_pop cid (re_bindings s)\<rparr>) fd = fd_debt s fd + is_fd (bt_fd b) fd"
  using held_pop [OF assms] by (simp add: fd_debt_def)

lemma debt_set:
  "cid \<notin> fst ` set (re_bindings s) \<Longrightarrow>
    fd_debt (s\<lparr>re_bindings := dict_set cid b (re_bindings s)\<rparr>) fd = fd_debt s fd - is_fd (bt_fd b) fd"
  using held_set [of cid "re_bindings s"] by (simp add: fd_debt_def)

lemma calls_fds: "re_bindings s' = re_bindings s \<Longrightarrow> re_log s' = re_log s \<Longrightarrow> fd_safe s s'"
  by (simp add: fd_safe_def bindings_ok_def fd_debt_def fun_eq_iff)

lemma release_fds: "fd_safe s (release_binding cid s)"
proof (cases "dict_get (re_bindings s) cid")
  case None
  then show ?thesis by (simp add: release_binding_def fd_safe_def)
next
  case (Some b)
  show ?thesis
    unfolding fd_safe_def
  proof (intro impI conjI)
    assume ok: "bindings_ok s"
    then have d: "dict_ok (re_bindings s)" by (simp add: bindings_ok_def)
    show "bindings_ok (release_binding cid s)"
      using ok dict_length_pop_le [of cid "re_bindings s"] by (auto simp: bindings_ok_def)
    show "fd_debt (release_binding cid s) = fd_debt s"
      using Some debt_pop [OF d Some]
      by (auto simp: release_binding_def close_opt_def fun_eq_iff debt_log is_fd_def split: option.splits)
  qed
qed

interpretation fds: engine_relation fd_safe
proof
  show "fd_safe s u" if "fd_safe s t" "fd_safe t u" for s t u using that by (auto simp: fd_safe_def)
  show "fd_safe s (s\<lparr>re_calls := Suc (re_calls s)\<rparr>)" for s by (simp add: calls_fds)
  show "fd_safe s (log_effect x s)" if "plain_effect x" for x s
    using that by (auto simp: fd_safe_def plain_effect_def debt_log bindings_ok_cong [of "log_effect x s" s] fun_eq_iff
        split: resp_effect.splits)
  show "fd_safe s (log_effect (SentSignal i g) s)" for s i g
    by (auto simp: fd_safe_def debt_log bindings_ok_cong [of "log_effect _ s" s] fun_eq_iff)
  show "fd_safe s (log_effect (ClosedFd fd) t)" if "fd_safe (log_effect (OpenedFd fd) s) t" for fd s t
    using that by (auto simp: fd_safe_def fun_eq_iff debt_log bindings_ok_cong [of "log_effect _ _"])
  show "fd_safe s (release_binding cid s)" for s cid by (rule release_fds)
qed (simp add: fd_safe_def)

lemma evict_fds: "fd_safe s (evict_bindings s)"
proof (induction s rule: evict_bindings.induct)
  case (1 s)
  show ?case
  proof (cases "1024 \<le> length (re_bindings s)")
    case True
    then obtain k where k: "oldest_key bt_bound_at (re_bindings s) = Some k"
      by (cases "oldest_key bt_bound_at (re_bindings s)") (auto simp: oldest_key_None)
    then have "fd_safe s (evict_bindings (release_binding k s))"
      using 1 True by (blast intro: fds.R_trans release_fds)
    then show ?thesis using True k by (subst evict_bindings.simps) simp
  qed (simp add: evict_bindings.simps fds.R_refl)
qed

lemma evict_room: "length (re_bindings (evict_bindings s)) < 1024 \<and> set (re_bindings (evict_bindings s)) \<subseteq> set (re_bindings s)"
proof (induction s rule: evict_bindings.induct)
  case (1 s)
  show ?case
  proof (cases "1024 \<le> length (re_bindings s)")
    case True
    then obtain k where k: "oldest_key bt_bound_at (re_bindings s) = Some k"
      by (cases "oldest_key bt_bound_at (re_bindings s)") (auto simp: oldest_key_None)
    then show ?thesis using 1 [OF True k] True dict_pop_subset [of k "re_bindings s"]
      by (subst (1 2) evict_bindings.simps) auto
  qed (simp add: evict_bindings.simps)
qed

lemma store_binding_fds:
  assumes "bindings_ok s" and "bt_correlation_id b \<noteq> []" and "bt_process b \<noteq> None \<or> bt_file b \<noteq> None"
    and "bt_file b = None \<longleftrightarrow> bt_fd b = None"
  shows "bindings_ok (store_binding b s) \<and> fd_debt (store_binding b s) fd = fd_debt s fd - is_fd (bt_fd b) fd"
proof -
  let ?cid = "bt_correlation_id b"
  define s1 where "s1 = evict_bindings (release_binding ?cid s)"
  have "fd_safe s s1" unfolding s1_def by (blast intro: fds.R_trans release_fds evict_fds)
  then have s1: "bindings_ok s1" "fd_debt s1 = fd_debt s" using assms(1) by (simp_all add: fd_safe_def)
  have room: "length (re_bindings s1) < 1024" "?cid \<notin> fst ` set (re_bindings s1)"
    using evict_room [of "release_binding ?cid s"] dict_pop_keys [of ?cid "re_bindings s"]
    by (auto simp: s1_def)
  then have "length (dict_set ?cid b (re_bindings s1)) \<le> 1024"
    using dict_length_set_le [of ?cid b "re_bindings s1"] by linarith
  then show ?thesis
    using s1 room(2) assms(2-4) debt_set [of ?cid s1 b]
    by (auto simp: store_binding_def s1_def [symmetric] bindings_ok_def)
qed

text \<open>Opening a file leaves exactly the descriptor it returns.\<close>

lemma ask_debt [simp]: "fd_debt (s\<lparr>re_calls := n\<rparr>) = fd_debt s"
  by (simp add: fd_debt_def fun_eq_iff)

lemma open_outcome:
  assumes "open_file_identity env path s = (r, s')"
  shows "re_bindings s' = re_bindings s \<and>
    (\<forall>fd. fd_debt s' fd = fd_debt s fd + (case r of Inr (_, x) \<Rightarrow> is_fd (Some x) fd | Inl _ \<Rightarrow> 0))"
  using assms
  by (auto simp: open_file_identity_def eff_bind_def ask_def Let_def debt_log split: sum.splits option.splits if_splits prod.splits)

lemma try_open_outcome:
  assumes "try_safety (open_file_identity env path) s = (r, s')"
  shows "re_bindings s' = re_bindings s \<and>
    (\<forall>fd. fd_debt s' fd = fd_debt s fd + (case r of Inr (Some (_, x)) \<Rightarrow> is_fd (Some x) fd | _ \<Rightarrow> 0))"
proof -
  obtain q t where q: "open_file_identity env path s = (q, t)" by (cases "open_file_identity env path s")
  show ?thesis using assms open_outcome [OF q] q
    by (auto simp: try_safety_def eff_catch_def eff_bind_def split: sum.splits if_splits prod.splits)
qed

lemma bind_opened_fds:
  assumes "bindings_ok s0" and "bindings_ok s" and "cid \<noteq> []"
    and "\<And>fd. fd_debt s fd = fd_debt s0 fd + (case opened of Some (_, x) \<Rightarrow> is_fd (Some x) fd | None \<Rightarrow> 0)"
  shows "fd_safe s0 (snd ((if process = None \<and> opened = None
     then eff_raise (ResponseSafetyError ''neither process nor file identity could be bound'')
     else eff_bind (ask (rx_clock env)) (\<lambda>now.
       eff_bind (eff_modify (store_binding \<lparr>bt_correlation_id = cid, bt_pid = pid, bt_process = process,
         bt_file = map_option fst opened, bt_fd = map_option snd opened, bt_bound_at = now\<rparr>)) (\<lambda>_.
       eff_return res))) s))"
proof (cases "process = None \<and> opened = None")
  case True
  then show ?thesis using assms by (simp add: fd_safe_def fun_eq_iff)
next
  case False
  let ?b = "\<lparr>bt_correlation_id = cid, bt_pid = pid, bt_process = process, bt_file = map_option fst opened,
    bt_fd = map_option snd opened, bt_bound_at = rx_clock env (re_calls s)\<rparr>"
  have "bindings_ok (s\<lparr>re_calls := Suc (re_calls s)\<rparr>)" using assms(2) by (simp add: bindings_ok_def)
  then have "bindings_ok (store_binding ?b (s\<lparr>re_calls := Suc (re_calls s)\<rparr>)) \<and>
      fd_debt (store_binding ?b (s\<lparr>re_calls := Suc (re_calls s)\<rparr>)) fd = fd_debt s0 fd" for fd
    using store_binding_fds [of _ ?b fd] False assms(3) assms(4) [of fd] by (auto split: option.splits)
  then show ?thesis using False by (auto simp: eff_bind_def ask_def fd_safe_def fun_eq_iff)
qed

lemma bind_state_fds: "relates fd_safe (bind_state env state)"
proof (cases "resp_cid (rx_render env) state = []")
  case True
  then show ?thesis by (simp add: bind_state_def fds.relates_pure)
next
  case False
  let ?open = "case resp_path state of None \<Rightarrow> eff_return None | Some path \<Rightarrow> try_safety (open_file_identity env path)"
  have step: "fd_safe s0 (snd (eff_bind ?open (\<lambda>opened. if process = None \<and> opened = None
     then eff_raise (ResponseSafetyError ''neither process nor file identity could be bound'')
     else eff_bind (ask (rx_clock env)) (\<lambda>now.
       eff_bind (eff_modify (store_binding \<lparr>bt_correlation_id = resp_cid (rx_render env) state, bt_pid = pid,
         bt_process = process, bt_file = map_option fst opened, bt_fd = map_option snd opened, bt_bound_at = now\<rparr>))
       (\<lambda>_. eff_return (res opened)))) s0))" for s0 process pid res
  proof (cases "bindings_ok s0")
    case ok: True
    obtain r s where r: "?open s0 = (r, s)" by (cases "?open s0")
    have out: "re_bindings s = re_bindings s0 \<and>
      (\<forall>fd. fd_debt s fd = fd_debt s0 fd + (case r of Inr (Some (_, x)) \<Rightarrow> is_fd (Some x) fd | _ \<Rightarrow> 0))"
      using r try_open_outcome by (cases "resp_path state") auto
    then have "bindings_ok s" using ok by (simp add: bindings_ok_def)
    then show ?thesis
    proof (cases r)
      case (Inl e)
      then show ?thesis using \<open>bindings_ok s\<close> r out by (simp add: fd_safe_def fun_eq_iff)
    next
      case (Inr opened)
      show ?thesis
        unfolding eff_bind_simps(2) [where m = ?open and s = s0, OF r [unfolded Inr]]
        by (rule bind_opened_fds [OF ok \<open>bindings_ok s\<close> False]) (use out Inr in \<open>auto split: option.splits\<close>)
    qed
  qed (simp add: fd_safe_def)
  show ?thesis
    unfolding bind_state_def Let_def if_not_P [OF False]
  proof (rule fds.relates_bind [OF fds.lift_keeps], rule fds.relates_bind)
    show "relates fd_safe (case pid of None \<Rightarrow> eff_return None | Some i \<Rightarrow> try_safety (capture_process env i))" for pid
      by (intro fds.relates_option fds.relates_pure fds.try_safety_keeps fds.capture_keeps)
  qed (unfold relates_def, intro allI, rule step)
qed

lemma execute_recommendation_fds: "relates fd_safe (execute_recommendation env p state)"
  by (rule fds.execute_recommendation_keeps) (simp add: calls_fds)

lemma close_empties: "re_bindings (close_engine s) = []"
proof -
  have "re_bindings (fold release_binding ks s) = filter (\<lambda>kb. fst kb \<notin> set ks) (re_bindings s)" for ks
    by (induction ks arbitrary: s) (auto simp: dict_pop_def intro: filter_cong)
  then show ?thesis by (auto simp: close_engine_def)
qed

section \<open>Runs of the engine\<close>

inductive resp_step :: "resp_env \<Rightarrow> resp_policy \<Rightarrow> resp_engine \<Rightarrow> resp_engine \<Rightarrow> bool" for env p where
  step_bind: "resp_step env p s (snd (bind_state env state s))"
| step_execute: "resp_step env p s (snd (execute_recommendation env p state s))"
| step_release: "resp_step env p s (release_binding cid s)"
| step_restore: "resp_step env p s (snd (restore_quarantined env qid dest actor pid s))"
| step_delete: "resp_step env p s (snd (delete_quarantined env qid actor pid s))"
| step_close: "resp_step env p s (close_engine s)"

lemma resp_step_fds: "resp_step env p s s' \<Longrightarrow> fd_safe s s'"
  by (induction rule: resp_step.induct)
    (simp_all add: fds.at_relates bind_state_fds execute_recommendation_fds release_fds
      fds.restore_delete_keeps fds.close_keeps)

lemma run_fds: "(resp_step env p)\<^sup>*\<^sup>* s s' \<Longrightarrow> fd_safe s s'"
  by (induction rule: rtranclp_induct) (auto intro: fds.R_refl fds.R_trans resp_step_fds)

lemma debt_zero_iff: "(\<forall>fd. fd_debt s fd = 0) \<longleftrightarrow>
    mset (opened_fds (re_log s)) = mset (closed_fds (re_log s)) + mset (held_fds (re_bindings s))"
  by (auto simp: fd_debt_def multiset_eq_iff count_mset) (smt (verit) of_nat_add of_nat_eq_iff)+

text \<open>C24: Descriptor accounting over any run of the engine, whatever the system answers: the binding
  table never exceeds 1024 entries, every entry is keyed by its own correlation and names a process
  or a file, and the descriptors opened so far are exactly those closed plus those the bindings hold;
  after closing the engine every descriptor ever opened has been closed.\<close>

theorem descriptors_accounted:
  assumes "(resp_step env p)\<^sup>*\<^sup>* new_resp_engine s"
  shows "bindings_ok s \<and>
    mset (opened_fds (re_log s)) = mset (closed_fds (re_log s)) + mset (held_fds (re_bindings s)) \<and>
    mset (opened_fds (re_log (close_engine s))) = mset (closed_fds (re_log (close_engine s)))"
proof (intro conjI)
  have start: "bindings_ok new_resp_engine" "fd_debt new_resp_engine fd = 0" for fd
    by (simp_all add: bindings_ok_def new_resp_engine_def fd_debt_def opened_fds_def closed_fds_def)
  then have run: "bindings_ok s" "\<forall>fd. fd_debt s fd = 0"
    using run_fds [OF assms] by (simp_all add: fd_safe_def)
  then show "bindings_ok s"
    and "mset (opened_fds (re_log s)) = mset (closed_fds (re_log s)) + mset (held_fds (re_bindings s))"
    by (simp_all add: debt_zero_iff)
  have "\<forall>fd. fd_debt (close_engine s) fd = 0" using run fds.close_keeps [of s] by (simp add: fd_safe_def)
  then show "mset (opened_fds (re_log (close_engine s))) = mset (closed_fds (re_log (close_engine s)))"
    unfolding debt_zero_iff by (simp add: close_empties)
qed

section \<open>What a loaded policy guarantees over a run\<close>

definition spares :: "resp_env \<Rightarrow> resp_policy \<Rightarrow> resp_effect \<Rightarrow> bool" where
  "spares env p x = (case x of
      SentSignal i _ \<Rightarrow> rp_automatic p \<and> pi_pid i \<noteq> 0 \<and> pi_pid i \<noteq> 1 \<and> pi_pid i \<noteq> rx_self_pid env
    | Quarantined f \<Rightarrow> rp_automatic p \<and> \<not> protected_path p (fi_path f)
    | _ \<Rightarrow> True)"

lemma harmless_spares: "harmless x \<Longrightarrow> spares env p x"
  by (simp add: harmless_def spares_def split: resp_effect.splits)

lemma spares_simps [simp]: "spares env p (Restored q d)" "spares env p (Deleted q)"
  by (simp_all add: spares_def)

lemma permitted_spares:
  "0 \<in> set (rp_protected_pids p) \<Longrightarrow> 1 \<in> set (rp_protected_pids p) \<Longrightarrow> permitted env p state s x \<Longrightarrow> spares env p x"
  by (auto simp: permitted_def authorised_def spares_def same_identity_def harmless_spares split: resp_effect.splits)

lemma bind_state_app: "(\<And>x. harmless x \<Longrightarrow> P x) \<Longrightarrow> relates (appends P) (bind_state env state)"
proof -
  assume h: "\<And>x. harmless x \<Longrightarrow> P x"
  have rel: "appends P s (release_binding cid s)" for s cid
    using app.at_relates [OF release_app [of P cid], of s] h by simp
  have "appends P s (evict_bindings s)" for s
  proof (induction s rule: evict_bindings.induct)
    case (1 s)
    then show ?case
      by (subst evict_bindings.simps) (auto intro: app.R_refl app.R_trans rel split: option.split)
  qed
  then have "appends P s (evict_bindings (release_binding cid s))" for s cid
    by (blast intro: app.R_trans rel)
  then have st: "relates (appends P) (eff_modify (store_binding b))" for b
    by (intro app.relates_modify) (simp add: store_binding_def Let_def appends_def)
  have op: "relates (appends P) (open_file_identity env path)" for path
    unfolding open_file_identity_def Let_def
    by (intro app.relates_bind ask_app)
      (auto intro!: app.relates_bind app.relates_pure log_app h split: sum.split option.split)
  have tc: "relates (appends P) (try_safety (capture_process env i))" for i
    unfolding try_safety_def by (intro app.relates_catch app.relates_bind app.relates_pure app.relates_if capture_app h)
  have "relates (appends P) (try_safety (open_file_identity env path))" for path
    unfolding try_safety_def by (intro app.relates_catch app.relates_bind app.relates_pure app.relates_if op)
  then show ?thesis
    unfolding bind_state_def Let_def
    by (intro app.relates_if app.relates_pure app.relates_bind app.relates_option lift_app tc ask_app st)
qed

lemma resp_step_spares:
  assumes "resp_step env p s s'" and "0 \<in> set (rp_protected_pids p)" and "1 \<in> set (rp_protected_pids p)"
  shows "appends (spares env p) s s'"
  using assms(1)
proof (induction rule: resp_step.induct)
  case (step_execute s state)
  then show ?case
    using execute_permitted [of env p state s] permitted_spares [OF assms(2,3)]
    by (fastforce simp: appends_def list_all_iff)
next
  case (step_bind s state)
  then show ?case by (intro app.at_relates bind_state_app harmless_spares)
next
  case (step_release s cid)
  then show ?case using app.at_relates [OF release_app [of "spares env p" cid], of s] harmless_spares by simp
next
  case (step_restore s qid dest actor pid)
  then show ?case
    unfolding restore_quarantined_def Let_def
    by (intro app.at_relates app.relates_bind app.relates_sum app.relates_pure make_result_app failed_app ask_app log_app)
      (simp_all add: harmless_spares)
next
  case (step_delete s qid actor pid)
  then show ?case
    unfolding delete_quarantined_def Let_def
    by (intro app.at_relates app.relates_bind app.relates_option app.relates_pure make_result_app failed_app ask_app log_app)
      (simp_all add: harmless_spares)
next
  case (step_close s)
  have "appends (spares env p) s (fold release_binding ks s)" for ks
    using app.at_relates [OF release_app [of "spares env p"]] harmless_spares
    by (induction ks arbitrary: s) (auto intro: app.R_refl app.R_trans)
  then show ?case by (simp add: close_engine_def)
qed

text \<open>C25: Whatever happens over a run under a policy loaded from a document, processes 0 and 1 and the
  engine's own process are never signalled, no protected path is quarantined, and without automatic
  actions there is neither a signal nor a quarantine.\<close>

theorem loaded_policy_spares:
  assumes "load_resp render doc = Inr p" and "(resp_step env p)\<^sup>*\<^sup>* new_resp_engine s" and "x \<in> set (re_log s)"
  shows "case x of
      SentSignal i _ \<Rightarrow> rp_automatic p \<and> pi_pid i \<noteq> 0 \<and> pi_pid i \<noteq> 1 \<and> pi_pid i \<noteq> rx_self_pid env
    | Quarantined f \<Rightarrow> rp_automatic p \<and> \<not> protected_path p (fi_path f)
    | _ \<Rightarrow> True"
proof -
  have pids: "0 \<in> set (rp_protected_pids p)" "1 \<in> set (rp_protected_pids p)"
    using assms(1) by (auto simp: load_resp_def resp_from_mapping_def validate_resp_def res_bind_eq_Inr
        split: option.splits pyval.splits sum.splits if_splits)
  have "appends (spares env p) new_resp_engine s"
    using assms(2) by (induction rule: rtranclp_induct) (auto intro: app.R_refl app.R_trans resp_step_spares pids)
  then show ?thesis using assms(3) by (auto simp: appends_def list_all_iff new_resp_engine_def spares_def)
qed

section \<open>Repeated recommendations\<close>




definition executed_rank :: "resp_engine \<Rightarrow> string \<Rightarrow> int" where
  "executed_rank s cid = dict_get_or (re_ranks s) cid (- 1)"



lemma execute_known:
  assumes "dict_get action_map (recommendation_of (rx_render env) state) = Some action"
    and "resp_cid (rx_render env) state = cid" and "rec = recommendation_of (rx_render env) state"
  shows "cid \<noteq> [] \<and> response_rank action \<le> executed_rank s cid \<Longrightarrow>
      execute_recommendation env p state s = make_result env state rec action ''DUPLICATE_SUPPRESSED''
        ''This correlation already executed an equal or stronger response'' [] None s"
    and "\<not> (cid \<noteq> [] \<and> response_rank action \<le> executed_rank s cid) \<Longrightarrow>
      execute_recommendation env p state s = eff_bind (perform_action env p state rec action) (\<lambda>result.
        eff_bind (eff_when (cid \<noteq> [] \<and> ar_status result = ''SUCCEEDED'')
          (eff_modify (\<lambda>t. t\<lparr>re_ranks := dict_set cid (max (executed_rank s cid) (response_rank action)) (re_ranks t)\<rparr>)))
          (\<lambda>_. eff_return result)) s"
  unfolding execute_recommendation_def Let_def assms option.case executed_rank_def
    eff_bind_simps(2) [OF eff_run(3)] by (simp_all only: if_P if_not_P if_True if_False simp_thms)





section \<open>Sample runs\<close>

text \<open>A policy with automatic actions, a system whose process ignores the first signal, and a file.\<close>

definition sample_response_policy :: resp_policy where
  "sample_response_policy = \<lparr>rp_schema_version = ''1.0'', rp_policy_name = ''elyra-response'',
     rp_policy_status = ''PROVISIONAL_NOT_CALIBRATED'', rp_automatic = True, rp_terminate_grace = Fin 1,
     rp_kill_grace = Fin 1, rp_escalate = True, rp_require_pidfd = True, rp_protected_pids = [0, 1],
     rp_protected_prefixes = [''/run/elyra'', ''/opt/elyra'']\<rparr>"

definition sample_process :: process_identity where
  "sample_process = \<lparr>pi_pid = 4242, pi_start = 99, pi_path = ''/tmp/x'', pi_device = 1, pi_inode = 2, pi_uid = 1000\<rparr>"

definition sample_stat :: file_stat where
  "sample_stat = \<lparr>st_regular = True, st_dev = 1, st_ino = 2, st_size = 3, st_mtime = 4, st_ctime = 5\<rparr>"

definition sample_response_env :: resp_env where
  "sample_response_env = \<lparr>rx_self_pid = 77, rx_has_pidfd_open = True, rx_has_send = True,
     rx_capture = (\<lambda>_ _. Inr sample_process), rx_pidfd_open = (\<lambda>_ _. PidfdOpened 7),
     rx_signal_error = (\<lambda>_. None), rx_wait = (\<lambda>n _. 4 < n),
     rx_probe = (\<lambda>_ path. \<lparr>fp_lstat = Inr sample_stat, fp_open = Inr 9, fp_before = Inr sample_stat,
        fp_chunks = [], fp_read_end = None, fp_seek = None, fp_after = Inr sample_stat, fp_resolve = Inr path\<rparr>),
     rx_sha256 = (\<lambda>_. ''e3b0''), rx_quarantine = (\<lambda>_ _. Inr []), rx_restore = (\<lambda>_ _ _. Inr []),
     rx_delete = (\<lambda>_ _. None), rx_audit_error = (\<lambda>_. None), rx_has_sink = False,
     rx_sink_error = (\<lambda>_. None), rx_clock = (\<lambda>_. 0),
     rx_id = (\<lambda>_. ''a''), rx_iso = (\<lambda>_. Inr ''''), rx_render = (\<lambda>_. '''')\<rparr>"

definition sample_target :: bound_target where
  "sample_target = \<lparr>bt_correlation_id = ''c'', bt_pid = 4242, bt_process = Some sample_process, bt_file = None,
     bt_fd = None, bt_bound_at = 0\<rparr>"

definition sample_response_state :: "string \<Rightarrow> pydict" where
  "sample_response_state rec = [(''correlation_id'', PStr ''c''), (''recommended_action'', PStr rec),
     (''pid'', PInt 4242), (''path'', PStr ''/tmp/x'')]"

definition sample_engine :: resp_engine where
  "sample_engine = new_resp_engine\<lparr>re_bindings := [(''c'', sample_target)]\<rparr>"

lemmas sample_response_defs = sample_response_policy_def sample_process_def sample_stat_def sample_response_env_def
  sample_target_def sample_response_state_def sample_engine_def

lemma sample_path: "protected_path sample_response_policy ''/tmp/x'' = False"
  by code_simp

lemma sample_recommendation:
  "dict_get action_map (recommendation_of (rx_render sample_response_env) (sample_response_state ''TERMINATE'')) =
    Some ''TERMINATE''"
  by code_simp

lemma sample_cid: "resp_cid (rx_render sample_response_env) (sample_response_state rec) = ''c''"
  by (simp add: sample_response_defs resp_cid_def py_get_def dict_get_or_def py_or_def)

lemma sample_pid: "resp_pid (sample_response_state rec) = Inr (Some 4242)"
  by (simp add: sample_response_defs resp_pid_def py_get_def dict_get_or_def py_or_def Let_def)

lemma sample_path_of: "resp_path (sample_response_state rec) = Some ''/tmp/x''"
  by (simp add: sample_response_defs resp_path_def py_get_def dict_get_or_def)

lemma sample_probe: "rx_probe sample_response_env n path = \<lparr>fp_lstat = Inr sample_stat, fp_open = Inr 9, fp_before = Inr sample_stat,
        fp_chunks = [], fp_read_end = None, fp_seek = None, fp_after = Inr sample_stat, fp_resolve = Inr path\<rparr>"
  "rx_sha256 sample_response_env x = ''e3b0''" "rx_clock sample_response_env n = 0"
  by (simp_all add: sample_response_env_def)

lemma sample_zero: "int_to_float 0 = Inr (Fin 0)"
  by code_simp

lemma sample_score: "resp_score (sample_response_state rec) = Inr 0"
  by (simp add: sample_response_defs resp_score_def py_get_def dict_get_or_def py_or_def Let_def clamp_score_def sample_zero rat_trunc_def)

lemma sample_env [simp]:
  "rx_self_pid sample_response_env = 77" "rx_has_pidfd_open sample_response_env" "rx_has_send sample_response_env"
  "rx_capture sample_response_env n i = Inr sample_process" "rx_pidfd_open sample_response_env n i = PidfdOpened 7"
  "rx_signal_error sample_response_env n = None" "rx_wait sample_response_env n ms = (4 < n)" "rx_iso sample_response_env q = Inr ''''"
  "rx_audit_error sample_response_env n = None" "\<not> rx_has_sink sample_response_env"
  by (simp_all add: sample_response_env_def)

lemma sample_policy [simp]:
  "rp_automatic sample_response_policy" "rp_escalate sample_response_policy" "rp_protected_pids sample_response_policy = [0, 1]"
  "rp_terminate_grace sample_response_policy = Fin 1" "rp_kill_grace sample_response_policy = Fin 1"
  by (simp_all add: sample_response_policy_def)

lemma sample_grace: "poll_timeout (Fin 1) = Inr 1000"
  by code_simp

lemma sample_terminate:
  "re_calls s = 0 \<Longrightarrow> terminate_process sample_response_env sample_response_policy sample_process s =
    (Inr (exit_details False (PStr ''SIGKILL'') True), s\<lparr>re_calls := 6, re_log := re_log s @ [OpenedFd 7, Inspected sample_process,
       SentSignal sample_process ''SIGTERM'', SentSignal sample_process ''SIGKILL'', ClosedFd 7]\<rparr>)"
  "re_calls s = 3 \<Longrightarrow> terminate_process sample_response_env sample_response_policy sample_process s =
    (Inr (exit_details False (PStr ''SIGTERM'') False), s\<lparr>re_calls := 7, re_log := re_log s @ [OpenedFd 7, Inspected sample_process,
       SentSignal sample_process ''SIGTERM'', ClosedFd 7]\<rparr>)"
  using sample_path sample_grace
  by (simp_all add: terminate_process_def signal_process_def capture_process_def send_signal_def wait_pidfd_def with_fd_def
   eff_bind_run ask_def lift_exc_def log_effect_def same_identity_def, simp_all add: sample_process_def)

lemma sample_bind:
  "snd (bind_state sample_response_env (sample_response_state rec) new_resp_engine) =
    \<lparr>re_bindings = [(''c'', \<lparr>bt_correlation_id = ''c'', bt_pid = 4242, bt_process = Some sample_process,
       bt_file = Some \<lparr>fi_path = ''/tmp/x'', fi_device = 1, fi_inode = 2, fi_size = 3, fi_mtime = 4, fi_ctime = 5,
         fi_sha256 = ''e3b0''\<rparr>, bt_fd = Some 9, bt_bound_at = 0\<rparr>)], re_ranks = [], re_calls = 3, re_log = [Inspected sample_process, OpenedFd 9]\<rparr>"
  by (simp add: bind_state_def sample_cid sample_pid sample_path_of lift_exc_def eff_bind_run try_safety_def eff_catch_def
    capture_process_def ask_def open_file_identity_def sample_probe Let_def sample_stat_def log_effect_def store_binding_def
    release_binding_def new_resp_engine_def evict_bindings.simps)

lemma sample_execute:
  assumes "re_ranks s = []" and "dict_get (re_bindings s) ''c'' = Some b" and "bt_pid b = 4242"
    and "bt_process b = Some sample_process" and "terminate_process sample_response_env sample_response_policy sample_process s = (Inr d, t)"
  shows "set (re_log t) \<subseteq> set (re_log (snd (execute_recommendation sample_response_env
      sample_response_policy (sample_response_state ''TERMINATE'') s)))"
  using assms
  by (simp add: execute_known(2) [OF sample_recommendation sample_cid refl] eff_bind_run response_rank_def executed_rank_def
    perform_action_def Let_def execute_terminate_def eff_catch_def find_binding_def sample_cid sample_pid sample_score
    terminate_bound_def lift_exc_def
    make_result_def raise_opt_def ask_def log_effect_def dict_get_or_def, fastforce)

lemma destructive_effects_authorised_witness:
  "let out = execute_recommendation sample_response_env sample_response_policy
       (sample_response_state ''TERMINATE'') sample_engine
   in SentSignal sample_process ''SIGKILL'' \<in> set (re_log (snd out)) \<and> Inspected sample_process \<in> set (re_log (snd out)) \<and>
     authorised sample_response_env sample_response_policy sample_target (SentSignal sample_process ''SIGKILL'')"
proof -
  let ?out = "execute_recommendation sample_response_env sample_response_policy (sample_response_state ''TERMINATE'') sample_engine"
  have sent: "SentSignal sample_process ''SIGKILL'' \<in> set (re_log (snd ?out))"
    using sample_execute [of sample_engine sample_target, OF _ _ _ _ sample_terminate(1)]
    by (simp add: sample_engine_def new_resp_engine_def sample_target_def)
  obtain new where new: "re_log (snd ?out) = re_log sample_engine @ new"
    "\<And>x. x \<in> set new \<Longrightarrow> harmless x \<or> (\<exists>b. dict_get (re_bindings sample_engine) (resp_cid (rx_render sample_response_env)
        (sample_response_state ''TERMINATE'')) = Some b \<and> authorised sample_response_env sample_response_policy b x)"
    "\<And>pre cur sig post. new = pre @ SentSignal cur sig # post \<Longrightarrow> Inspected cur \<in> set pre"
    using destructive_effects_authorised [OF surjective_pairing, of sample_response_env sample_response_policy
        "sample_response_state ''TERMINATE''" sample_engine] by fastforce
  have log0: "re_log sample_engine = []" by (simp add: sample_engine_def new_resp_engine_def)
  then have "SentSignal sample_process ''SIGKILL'' \<in> set new" using sent new(1) by simp
  then obtain pre post where split: "new = pre @ SentSignal sample_process ''SIGKILL'' # post" by (meson split_list)
  have "authorised sample_response_env sample_response_policy sample_target (SentSignal sample_process ''SIGKILL'')"
    using new(2) [of "SentSignal sample_process ''SIGKILL''"] split by (auto simp: sample_cid sample_engine_def)
  then show ?thesis using sent new(1) new(3) [OF split] split log0 by (simp add: Let_def)
qed

lemma descriptors_accounted_witness:
  "let s = snd (bind_state sample_response_env (sample_response_state ''ALERT'') new_resp_engine)
   in bindings_ok s \<and> held_fds (re_bindings s) = [9] \<and>
     mset (opened_fds (re_log (close_engine s))) = mset (closed_fds (re_log (close_engine s)))"
proof -
  have "held_fds (re_bindings (snd (bind_state sample_response_env (sample_response_state ''ALERT'') new_resp_engine))) = [9]"
    by (simp add: sample_bind held_fds_def)
  then show ?thesis
    using descriptors_accounted [OF r_into_rtranclp [of "resp_step sample_response_env sample_response_policy",
          OF step_bind [of _ _ _ "sample_response_state ''ALERT''"]]]
    unfolding Let_def by blast
qed


definition sample_response_document :: pydict where
  "sample_response_document = [(''schema_version'', PStr ''1.0''), (''policy_name'', PStr ''elyra-response''),
     (''policy_status'', PStr ''PROVISIONAL_NOT_CALIBRATED''), (''automatic_runtime_actions'', PBool True),
     (''terminate_grace_seconds'', PFloat (Fin 1)), (''kill_grace_seconds'', PFloat (Fin 1)), (''escalate_to_sigkill'', PBool True),
     (''require_pidfd'', PBool True), (''protected_pids'', PList [PInt 0, PInt 1]),
     (''protected_path_prefixes'', PList [PStr ''/run/elyra'', PStr ''/opt/elyra''])]"

lemmas sample_load_defs = load_resp_def resp_from_mapping_def resp_policy_of_mapping_def sample_response_document_def
  py_item_def Let_def py_iter_def validate_resp_def sample_response_policy_def

lemma loaded_policy_spares_witness:
  "load_resp (\<lambda>_. '''') (Some (PDict sample_response_document)) = Inr sample_response_policy \<and>
   (let s = snd (execute_recommendation sample_response_env sample_response_policy (sample_response_state ''TERMINATE'')
       (snd (bind_state sample_response_env (sample_response_state ''TERMINATE'') new_resp_engine)))
    in SentSignal sample_process ''SIGTERM'' \<in> set (re_log s) \<and> pi_pid sample_process \<noteq> 1)"
proof -
  let ?s = "snd (bind_state sample_response_env (sample_response_state ''TERMINATE'') new_resp_engine)"
  let ?t = "snd (execute_recommendation sample_response_env sample_response_policy (sample_response_state ''TERMINATE'') ?s)"
  have load: "load_resp (\<lambda>_. '''') (Some (PDict sample_response_document)) = Inr sample_response_policy"
    by (simp add: sample_load_defs)
  have run: "(resp_step sample_response_env sample_response_policy)\<^sup>*\<^sup>* new_resp_engine ?t"
    by (rule rtranclp.rtrancl_into_rtrancl [OF r_into_rtranclp]) (rule step_bind, rule step_execute)
  have sent: "SentSignal sample_process ''SIGTERM'' \<in> set (re_log ?t)"
    using sample_execute [of ?s, OF _ _ _ _ sample_terminate(2)] by (simp add: sample_bind)
  show ?thesis using loaded_policy_spares [OF load run sent] load sent by (simp add: Let_def)
qed

text \<open>The configuration reader takes any non-empty text for true: the word false enables the actions.\<close>

lemma automatic_actions_from_text:
  "(case load_resp (\<lambda>_. '''') (Some (PDict (dict_set ''automatic_runtime_actions'' (PStr ''false'') sample_response_document)))
    of Inr p \<Rightarrow> rp_automatic p | Inl _ \<Rightarrow> False)"
  by (simp add: sample_load_defs)

end
