(* ===== verification/Authorization.thy ===== *)
theory Authorization
  imports Py_Path
begin

text \<open>
  Peer authorisation (\<open>service/authorization.py\<close>): action levels, the requester and the policy for
  manually scanned paths. The account and group databases, path resolution and \<open>lstat\<close> are
  arguments (\<open>accounts\<close>, \<open>scan_view\<close>).
\<close>

section \<open>Action levels\<close>

datatype action_level = READ_ONLY | STANDARD | SENSITIVE

definition read_only_actions :: "string list" where
  "read_only_actions = [''get_status'', ''list_events'', ''list_runtime_states'', ''list_quarantine'', ''get_policy'']"

definition standard_actions :: "string list" where
  "standard_actions = [''scan_file'']"

definition sensitive_actions :: "string list" where
  "sensitive_actions = [''restore_file'', ''delete_permanently'', ''update_enforcement_policy'']"

definition action_levels :: "(string, action_level) dict" where
  "action_levels = map (\<lambda>a. (a, READ_ONLY)) read_only_actions @ map (\<lambda>a. (a, STANDARD)) standard_actions @
     map (\<lambda>a. (a, SENSITIVE)) sensitive_actions"

datatype auth_exc =
    AuthorizationError string
  | ScanTargetError string
  | AuthOSError string

definition action_level_of :: "string \<Rightarrow> auth_exc + action_level" where
  "action_level_of action = (case dict_get action_levels action of
      None \<Rightarrow> Inl (AuthorizationError (''Unknown action: '' @ action)) | Some l \<Rightarrow> Inr l)"

section \<open>Requesters\<close>

record requester =
  rq_pid :: int
  rq_uid :: int
  rq_gid :: int

text \<open>\<open>pwd.getpwuid\<close> (name and home directory), \<open>os.getgrouplist\<close>, \<open>grp.getgrnam\<close> and
  \<open>Path.resolve(strict=False)\<close>; \<open>None\<close> is the \<open>KeyError\<close> (or \<open>OSError\<close>) of the call.\<close>

record accounts =
  ac_user :: "int \<Rightarrow> (string \<times> string) option"
  ac_grouplist :: "string \<Rightarrow> int \<Rightarrow> int list option"
  ac_group :: "string \<Rightarrow> int option"
  ac_resolve :: "string \<Rightarrow> string"

definition username :: "accounts \<Rightarrow> requester \<Rightarrow> string" where
  "username acc r = (case ac_user acc (rq_uid r) of
      Some (name, _) \<Rightarrow> name | None \<Rightarrow> ''uid:'' @ show_int (rq_uid r))"

definition home_directory :: "accounts \<Rightarrow> requester \<Rightarrow> string option" where
  "home_directory acc r = map_option (\<lambda>(_, dir). ac_resolve acc dir) (ac_user acc (rq_uid r))"

definition is_root :: "requester \<Rightarrow> bool" where
  "is_root r = (rq_uid r = 0)"

definition group_ids :: "accounts \<Rightarrow> requester \<Rightarrow> int list" where
  "group_ids acc r = (case ac_grouplist acc (username acc r) (rq_gid r) of Some gs \<Rightarrow> gs | None \<Rightarrow> [rq_gid r])"

definition in_group :: "accounts \<Rightarrow> requester \<Rightarrow> string \<Rightarrow> bool" where
  "in_group acc r name = (case ac_group acc name of None \<Rightarrow> False | Some g \<Rightarrow> g \<in> set (group_ids acc r))"

definition in_admin_group :: "accounts \<Rightarrow> requester \<Rightarrow> bool" where
  "in_admin_group acc r = in_group acc r ''elyra-admin''"

definition authorize :: "accounts \<Rightarrow> requester \<Rightarrow> string \<Rightarrow> auth_exc + unit" where
  "authorize acc r action = res_bind (action_level_of action) (\<lambda>level.
     if level = READ_ONLY \<or> level = STANDARD then Inr ()
     else if is_root r \<or> in_admin_group acc r then Inr ()
     else Inl (AuthorizationError (''Action '' @ [CHR 0x27] @ action @ [CHR 0x27] @
       '' requires root or membership in '' @ [CHR 0x27] @ ''elyra-admin'' @ [CHR 0x27] @ ''.'')))"

section \<open>Manual scan paths\<close>

text \<open>\<open>PurePath.relative_to\<close> compares the component tuples of absolute paths.\<close>

definition is_beneath :: "string \<Rightarrow> string \<Rightarrow> bool" where
  "is_beneath path base = prefix (path_comps base) (path_comps path)"

definition allowed_manual_scan_roots :: "accounts \<Rightarrow> requester \<Rightarrow> string list" where
  "allowed_manual_scan_roots acc r = map (ac_resolve acc)
     ([''/tmp'', ''/var/tmp'', ''/run/user/'' @ show_int (rq_uid r)] @
      (case home_directory acc r of
         None \<Rightarrow> []
       | Some home \<Rightarrow> [home, path_join ''/media'' (username acc r), path_join ''/run/media'' (username acc r)]))"

datatype file_kind = Regular | Symlink | OtherKind

record scan_stat =
  ss_kind :: file_kind
  ss_size :: int
  ss_uid :: int

datatype lstat_outcome = LstatMissing | LstatError string | LstatOk scan_stat

record scan_view =
  sv_lstat :: "string \<Rightarrow> lstat_outcome"
  sv_resolve :: "string \<Rightarrow> string + string"

definition authorize_manual_scan_path ::
    "accounts \<Rightarrow> scan_view \<Rightarrow> int \<Rightarrow> requester \<Rightarrow> string \<Rightarrow> auth_exc + string" where
  "authorize_manual_scan_path acc view maximum_size r path =
     (if \<not> starts_with path ''/'' then Inl (ScanTargetError ''Manual scan paths must be absolute'')
      else (case sv_lstat view path of
        LstatMissing \<Rightarrow> Inl (ScanTargetError ''Manual scan target does not exist'')
      | LstatError msg \<Rightarrow> Inl (ScanTargetError (''Manual scan target cannot be inspected: '' @ msg))
      | LstatOk meta \<Rightarrow>
        if ss_kind meta = Symlink then Inl (ScanTargetError ''Symbolic-link scan targets are not permitted'')
        else if ss_kind meta \<noteq> Regular then Inl (ScanTargetError ''Manual scan target must be a regular file'')
        else if ss_size meta > maximum_size
        then Inl (ScanTargetError (''Manual scan target exceeds the '' @ show_int maximum_size @ ''-byte IPC policy limit''))
        else (case sv_resolve view path of
          Inl msg \<Rightarrow> Inl (AuthOSError msg)
        | Inr resolved \<Rightarrow>
          if is_root r \<or> in_admin_group acc r then Inr resolved
          else if ss_uid meta \<noteq> rq_uid r then Inl (ScanTargetError ''Non-privileged peers may scan only files they own'')
          else if \<not> list_ex (is_beneath resolved) (allowed_manual_scan_roots acc r)
          then Inl (ScanTargetError ''Manual scan target is outside the permitted roots'')
          else Inr resolved)))"

definition max_manual_scan_bytes :: int where
  "max_manual_scan_bytes = 512 * 1024 * 1024"

section \<open>What is granted\<close>

definition privileged :: "accounts \<Rightarrow> requester \<Rightarrow> bool" where
  "privileged acc r \<longleftrightarrow> is_root r \<or> in_admin_group acc r"

lemma authorize_ok_iff:
  "authorize acc r action = Inr () \<longleftrightarrow>
     action \<in> set read_only_actions \<union> set standard_actions \<or> action \<in> set sensitive_actions \<and> privileged acc r"
proof -
  have "dict_get action_levels action =
      (if action \<in> set read_only_actions then Some READ_ONLY else if action \<in> set standard_actions then Some STANDARD
       else if action \<in> set sensitive_actions then Some SENSITIVE else None)"
    by (simp add: action_levels_def read_only_actions_def standard_actions_def sensitive_actions_def)
  then show ?thesis by (auto simp: authorize_def action_level_of_def privileged_def)
qed

text \<open>C37: A path granted for a manual scan is absolute and names a regular file within the size limit;
  a requester who is neither root nor an administrator also owns the file, and the resolved path lies
  component-wise beneath one of the requester's own roots, so a root is never left through a name that
  merely starts with the same characters.\<close>

theorem manual_scan_grants:
  assumes "authorize_manual_scan_path acc view maximum r path = Inr granted"
  shows "starts_with path ''/'' \<and>
    (\<exists>meta. sv_lstat view path = LstatOk meta \<and> ss_kind meta = Regular \<and> ss_size meta \<le> maximum \<and>
      sv_resolve view path = Inr granted \<and>
      (privileged acc r \<or> ss_uid meta = rq_uid r \<and>
        (\<exists>base \<in> set (allowed_manual_scan_roots acc r). \<exists>rest. path_comps granted = path_comps base @ rest)))"
  using assms
  by (auto simp: authorize_manual_scan_path_def privileged_def is_beneath_def prefix_def list_ex_iff
      split: if_splits lstat_outcome.splits sum.splits)

definition sample_accounts :: accounts where
  "sample_accounts = \<lparr>ac_user = (\<lambda>u. if u = 1000 then Some (''ada'', ''/home/ada'') else None),
     ac_grouplist = (\<lambda>_ g. Some [g]), ac_group = (\<lambda>_. Some 900), ac_resolve = (\<lambda>p. p)\<rparr>"

definition sample_view :: scan_view where
  "sample_view = \<lparr>sv_lstat = (\<lambda>_. LstatOk \<lparr>ss_kind = Regular, ss_size = 10, ss_uid = 1000\<rparr>), sv_resolve = Inr\<rparr>"

lemma manual_scan_grants_witness:
  "\<exists>base \<in> set (allowed_manual_scan_roots sample_accounts \<lparr>rq_pid = 5, rq_uid = 1000, rq_gid = 1000\<rparr>).
     \<exists>rest. path_comps ''/home/ada/x'' = path_comps base @ rest"
proof -
  let ?r = "\<lparr>rq_pid = 5, rq_uid = 1000, rq_gid = 1000\<rparr>"
  have ok: "authorize_manual_scan_path sample_accounts sample_view max_manual_scan_bytes ?r ''/home/ada/x'' = Inr ''/home/ada/x''"
    by code_simp
  have "\<not> privileged sample_accounts ?r" by code_simp
  then show ?thesis using manual_scan_grants [OF ok] by blast
qed

end
