(* ===== verification/Ipc.thy ===== *)
theory Ipc
  imports Authorization Py_Json Effects
begin

text \<open>
  The socket protocol (\<open>service/ipc_protocol.py\<close>) and the server's handling of a connection
  (\<open>service/ipc_server.py\<close>): request validation, framing of the byte stream into lines,
  authorisation, dispatch and responses.

  Lines are read and printed with the JSON of \<open>Py_Json\<close>; the interpreter's nesting limit, the shortest
  decimal of a float, the accounts and the daemon's handler are arguments. The handler threads a
  state of its own.
\<close>

section \<open>Validation\<close>

record protocol_error =
  pe_code :: string
  pe_message :: string
  pe_request_id :: "string option"

record request_message =
  rm_version :: int
  rm_request_id :: string
  rm_action :: string
  rm_params :: pydict

datatype ipc_exc = ProtocolError protocol_error | IpcRaised pyexc

definition proto :: "string \<Rightarrow> string \<Rightarrow> protocol_error + 'a" where
  "proto code message = Inl \<lparr>pe_code = code, pe_message = message, pe_request_id = None\<rparr>"

definition quoted :: "string \<Rightarrow> string" where
  "quoted s = [CHR 0x27] @ s @ [CHR 0x27]"

definition max_request_bytes :: nat where "max_request_bytes = 64 * 1024"
definition max_response_bytes :: nat where "max_response_bytes = 2 * 1024 * 1024"
definition max_path_characters :: nat where "max_path_characters = 4096"
definition max_request_id_characters :: nat where "max_request_id_characters = 128"

definition action_params :: "(string, string list \<times> string list) dict" where
  "action_params = [
     (''get_status'', ([], [])),
     (''list_events'', ([], [''limit''])),
     (''list_runtime_states'', ([], [''limit''])),
     (''list_quarantine'', ([], [])),
     (''get_policy'', ([], [])),
     (''scan_file'', ([''path''], [])),
     (''restore_file'', ([''quarantine_id''], [''destination''])),
     (''delete_permanently'', ([''quarantine_id''], [])),
     (''update_enforcement_policy'', ([''mode''], []))]"

text \<open>Decoded objects have text keys only, so the key check of \<open>_require_plain_object\<close> holds.\<close>

definition require_plain_object :: "pyval \<Rightarrow> string \<Rightarrow> protocol_error + pydict" where
  "require_plain_object v field = (case v of PDict d \<Rightarrow> Inr d
     | _ \<Rightarrow> proto ''INVALID_SCHEMA'' (quoted field @ '' must be a JSON object''))"

text \<open>\<open>^[A-Za-z0-9._:-]+$\<close>.\<close>

definition request_id_char :: "char \<Rightarrow> bool" where
  "request_id_char c = (let n = char_code c in
     65 \<le> n \<and> n \<le> 90 \<or> 97 \<le> n \<and> n \<le> 122 \<or> is_digit c \<or> c \<in> set ''._:-'')"

definition validate_request_id :: "pyval \<Rightarrow> protocol_error + string" where
  "validate_request_id v = (case v of
      PStr (c # cs) \<Rightarrow>
        if text_length (c # cs) > max_request_id_characters \<or> \<not> list_all request_id_char (c # cs)
        then proto ''INVALID_REQUEST_ID'' (quoted ''request_id'' @ '' contains unsupported characters or is too long'')
        else Inr (c # cs)
    | _ \<Rightarrow> proto ''INVALID_REQUEST_ID'' (quoted ''request_id'' @ '' must be a non-empty string''))"

definition require_string :: "pydict \<Rightarrow> string \<Rightarrow> bool \<Rightarrow> nat option \<Rightarrow> protocol_error + string option" where
  "require_string params name allow_none max_characters = (case py_get params name of
      PStr (c # cs) \<Rightarrow>
        if (case max_characters of None \<Rightarrow> False | Some m \<Rightarrow> text_length (c # cs) > m)
        then proto ''INVALID_PARAMETERS'' (quoted name @ '' is too long'')
        else if CHR 0x00 \<in> set (c # cs)
        then proto ''INVALID_PARAMETERS'' (quoted name @ '' contains a NUL character'')
        else Inr (Some (c # cs))
    | v \<Rightarrow> if v = PNone \<and> allow_none then Inr None
           else proto ''INVALID_PARAMETERS'' (quoted name @ '' must be a non-empty string''))"

definition validate_quarantine_id :: "string option \<Rightarrow> protocol_error + string" where
  "validate_quarantine_id v = (case v of
      None \<Rightarrow> proto ''INVALID_PARAMETERS'' (quoted ''quarantine_id'' @ '' is required'')
    | Some value \<Rightarrow> (case uuid_of value of
        None \<Rightarrow> proto ''INVALID_PARAMETERS'' (quoted ''quarantine_id'' @ '' must be a UUID'')
      | Some n \<Rightarrow>
        if value \<noteq> uuid_text n
        then proto ''INVALID_PARAMETERS'' (quoted ''quarantine_id'' @ '' must use canonical UUID form'')
        else Inr (uuid_text n)))"

definition comma_list :: "string list \<Rightarrow> string" where
  "comma_list xs = join_with '', '' (sort xs)"

definition check_limit :: "pydict \<Rightarrow> protocol_error + pydict" where
  "check_limit params = (case py_get_or params ''limit'' (PInt 50) of
      PInt i \<Rightarrow> if 1 \<le> i \<and> i \<le> 200 then Inr (dict_set ''limit'' (PInt i) params)
                else proto ''INVALID_PARAMETERS'' (quoted ''limit'' @ '' must be an integer from 1 to 200'')
    | _ \<Rightarrow> proto ''INVALID_PARAMETERS'' (quoted ''limit'' @ '' must be an integer from 1 to 200''))"

definition text_or_empty :: "string option \<Rightarrow> string" where
  "text_or_empty t = (case t of None \<Rightarrow> '''' | Some s \<Rightarrow> s)"

definition check_path :: "pydict \<Rightarrow> protocol_error + pydict" where
  "check_path params =
     res_bind (require_string params ''path'' False (Some max_path_characters)) (\<lambda>path.
     if \<not> starts_with (text_or_empty path) ''/''
     then proto ''INVALID_PARAMETERS'' (quoted ''path'' @ '' must be absolute'')
     else Inr (dict_set ''path'' (py_opt_str path) params))"

definition check_quarantine_id :: "pydict \<Rightarrow> protocol_error + pydict" where
  "check_quarantine_id params =
     res_bind (require_string params ''quarantine_id'' False (Some 64)) (\<lambda>text.
     res_bind (validate_quarantine_id text) (\<lambda>qid.
     Inr (dict_set ''quarantine_id'' (PStr qid) params)))"

definition check_destination :: "pydict \<Rightarrow> protocol_error + pydict" where
  "check_destination params =
     res_bind (require_string params ''destination'' True (Some max_path_characters)) (\<lambda>destination.
     if destination \<noteq> None \<and> \<not> starts_with (text_or_empty destination) ''/''
     then proto ''INVALID_PARAMETERS'' (quoted ''destination'' @ '' must be absolute'')
     else Inr (dict_set ''destination'' (py_opt_str destination) params))"

definition check_mode :: "pydict \<Rightarrow> protocol_error + pydict" where
  "check_mode params =
     res_bind (require_string params ''mode'' False (Some 32)) (\<lambda>mode.
     if text_or_empty mode \<notin> {''MONITOR_ONLY'', ''ENFORCEMENT''}
     then proto ''INVALID_PARAMETERS'' (quoted ''mode'' @ '' must be MONITOR_ONLY or ENFORCEMENT'')
     else Inr (dict_set ''mode'' (py_opt_str mode) params))"

definition normalise_params :: "string \<Rightarrow> pydict \<Rightarrow> protocol_error + pydict" where
  "normalise_params action params =
     (if action = ''list_events'' \<or> action = ''list_runtime_states'' then check_limit params
      else if action = ''scan_file'' then check_path params
      else if action = ''restore_file'' then res_bind (check_quarantine_id params) check_destination
      else if action = ''delete_permanently'' then check_quarantine_id params
      else if action = ''update_enforcement_policy'' then check_mode params
      else Inr params)"

definition validate_action_params :: "string \<Rightarrow> pydict \<Rightarrow> protocol_error + pydict" where
  "validate_action_params action params = (case dict_get action_params action of
      None \<Rightarrow> proto ''UNKNOWN_ACTION'' (''Unsupported action: '' @ action)
    | Some (required, optional) \<Rightarrow>
       let keys = map fst params;
           missing = filter (\<lambda>k. k \<notin> set keys) required;
           unknown = filter (\<lambda>k. k \<notin> set required \<union> set optional) keys in
       if missing \<noteq> [] then proto ''INVALID_PARAMETERS'' (''Missing parameter(s): '' @ comma_list missing)
       else if unknown \<noteq> [] then proto ''INVALID_PARAMETERS'' (''Unknown parameter(s): '' @ comma_list unknown)
       else normalise_params action params)"

definition request_fields :: "string list" where
  "request_fields = [''version'', ''request_id'', ''action'', ''params'']"

definition with_request_id :: "string \<Rightarrow> protocol_error + 'a \<Rightarrow> protocol_error + 'a" where
  "with_request_id rid r = (case r of Inl e \<Rightarrow> Inl (e\<lparr>pe_request_id := Some rid\<rparr>) | Inr x \<Rightarrow> Inr x)"

definition validate_request_object :: "pyval \<Rightarrow> protocol_error + request_message" where
  "validate_request_object v =
     res_bind (require_plain_object v ''request'') (\<lambda>request.
     let missing = filter (\<lambda>k. k \<notin> set (map fst request)) request_fields;
         unknown = filter (\<lambda>k. k \<notin> set request_fields) (map fst request) in
     if missing \<noteq> [] then proto ''INVALID_SCHEMA'' (''Missing field(s): '' @ comma_list missing)
     else if unknown \<noteq> [] then proto ''INVALID_SCHEMA'' (''Unknown field(s): '' @ comma_list unknown)
     else
     res_bind (validate_request_id (py_get request ''request_id'')) (\<lambda>rid.
     if \<not> py_eq (py_get request ''version'') (PInt 1)
     then with_request_id rid (proto ''UNSUPPORTED_VERSION'' ''Protocol version 1 is required'')
     else (case py_get request ''action'' of
         PStr (c # cs) \<Rightarrow>
           res_bind (require_plain_object (py_get request ''params'') ''params'') (\<lambda>params.
           res_bind (with_request_id rid (validate_action_params (c # cs) params)) (\<lambda>normalised.
           Inr \<lparr>rm_version = 1, rm_request_id = rid, rm_action = c # cs, rm_params = normalised\<rparr>))
       | _ \<Rightarrow> with_request_id rid (proto ''INVALID_SCHEMA'' (quoted ''action'' @ '' must be a non-empty string'')))))"

section \<open>Lines\<close>

text \<open>\<open>line.decode("utf-8")\<close> and \<open>json.loads\<close>. The library also raises: \<open>ValueError\<close> on an integer
  literal of more than 4300 digits, \<open>RecursionError\<close> on deep nesting.\<close>

datatype json_outcome = BadUtf8 | BadJson | JsonRaises pyexc | JsonValue pyval

definition decode_json :: "nat \<Rightarrow> string \<Rightarrow> json_outcome" where
  "decode_json depth line =
     (if \<not> utf8_valid line then BadUtf8
      else (case loads depth line of
          Inr v \<Rightarrow> JsonValue v
        | Inl IntTooLong \<Rightarrow> JsonRaises (ValueError ''Exceeds the limit (4300 digits) for integer string conversion'')
        | Inl TooDeep \<Rightarrow> JsonRaises (RuntimeError ''maximum recursion depth exceeded'')
        | Inl _ \<Rightarrow> BadJson))"

definition lift_proto :: "protocol_error + 'a \<Rightarrow> ipc_exc + 'a" where
  "lift_proto r = (case r of Inl e \<Rightarrow> Inl (ProtocolError e) | Inr x \<Rightarrow> Inr x)"

definition decode_request_line :: "nat \<Rightarrow> string \<Rightarrow> ipc_exc + request_message" where
  "decode_request_line depth line =
     (if line = [] then lift_proto (proto ''EMPTY_MESSAGE'' ''Request line is empty'')
      else if length line > max_request_bytes
      then lift_proto (proto ''MESSAGE_TOO_LARGE'' ''Request exceeds the size limit'')
      else (case decode_json depth line of
          BadUtf8 \<Rightarrow> lift_proto (proto ''INVALID_UTF8'' ''Request is not valid UTF-8'')
        | BadJson \<Rightarrow> lift_proto (proto ''INVALID_JSON'' ''Request is not valid JSON'')
        | JsonRaises e \<Rightarrow> Inl (IpcRaised e)
        | JsonValue v \<Rightarrow> lift_proto (validate_request_object v)))"

definition build_request :: "string \<Rightarrow> string \<Rightarrow> pydict \<Rightarrow> protocol_error + pydict" where
  "build_request new_request_id action params =
     res_bind (validate_request_object (PDict [(''version'', PInt 1), (''request_id'', PStr new_request_id),
        (''action'', PStr action), (''params'', PDict params)])) (\<lambda>m.
     Inr [(''version'', PInt (rm_version m)), (''request_id'', PStr (rm_request_id m)),
          (''action'', PStr (rm_action m)), (''params'', PDict (rm_params m))])"

definition success_response :: "string \<Rightarrow> pyval \<Rightarrow> pydict" where
  "success_response rid result = [(''version'', PInt 1), (''request_id'', PStr rid), (''ok'', PBool True), (''result'', result)]"

definition error_response :: "string option \<Rightarrow> string \<Rightarrow> string \<Rightarrow> pydict" where
  "error_response rid code message = [(''version'', PInt 1), (''request_id'', py_opt_str rid), (''ok'', PBool False),
     (''error'', PDict [(''code'', PStr code), (''message'', PStr message)])]"

text \<open>A text with a lone surrogate has no UTF-8 encoding; that error is a \<open>ValueError\<close> too.\<close>

definition encode_json_line :: "(rat \<Rightarrow> string) \<Rightarrow> nat \<Rightarrow> pyval \<Rightarrow> ipc_exc + string" where
  "encode_json_line fr maximum v = (case dumps (compact_style fr) v of
      Inl TypeError \<Rightarrow> lift_proto (proto ''SERIALIZATION_FAILED'' ''Response is not JSON serializable'')
    | Inl (ValueError _) \<Rightarrow> lift_proto (proto ''SERIALIZATION_FAILED'' ''Response is not JSON serializable'')
    | Inl e \<Rightarrow> Inl (IpcRaised e)
    | Inr text \<Rightarrow>
        if \<not> utf8_valid text
        then lift_proto (proto ''SERIALIZATION_FAILED'' ''Response is not JSON serializable'')
        else if length (text @ [CHR 0x0A]) > maximum
        then lift_proto (proto ''MESSAGE_TOO_LARGE'' ''Encoded message exceeds the size limit'')
        else Inr (text @ [CHR 0x0A]))"

section \<open>The server\<close>

datatype handler_outcome =
    HandlerReturned pyval
  | HandlerDenied string       \<comment> \<open>\<open>AuthorizationError\<close>\<close>
  | HandlerNotFound            \<comment> \<open>\<open>FileNotFoundError\<close>, \<open>KeyError\<close>\<close>
  | HandlerValueError string
  | HandlerFailed              \<comment> \<open>any other exception\<close>

type_synonym 's handler = "string \<Rightarrow> pydict \<Rightarrow> requester \<Rightarrow> 's \<Rightarrow> handler_outcome \<times> 's"

definition auth_text :: "auth_exc \<Rightarrow> string" where
  "auth_text e = (case e of AuthorizationError m \<Rightarrow> m | ScanTargetError m \<Rightarrow> m | AuthOSError m \<Rightarrow> m)"

definition response_of :: "string \<Rightarrow> handler_outcome \<Rightarrow> pydict" where
  "response_of rid out = (case out of
      HandlerReturned result \<Rightarrow> success_response rid result
    | HandlerDenied msg \<Rightarrow> error_response (Some rid) ''AUTHORIZATION_DENIED'' msg
    | HandlerNotFound \<Rightarrow> error_response (Some rid) ''NOT_FOUND'' ''Requested resource was not found''
    | HandlerValueError msg \<Rightarrow> error_response (Some rid) ''INVALID_PARAMETERS'' msg
    | HandlerFailed \<Rightarrow> error_response (Some rid) ''OPERATION_FAILED''
        ''The requested operation failed; see the daemon audit log'')"

definition process_line :: "nat \<Rightarrow> accounts \<Rightarrow> 's handler \<Rightarrow> requester \<Rightarrow> string \<Rightarrow>
    ('s, pyexc, pydict) eff" where
  "process_line depth acc handler r line s = (case decode_request_line depth line of
      Inl (ProtocolError e) \<Rightarrow> (Inr (error_response (pe_request_id e) (pe_code e) (pe_message e)), s)
    | Inl (IpcRaised e) \<Rightarrow> (Inl e, s)
    | Inr m \<Rightarrow> (case authorize acc r (rm_action m) of
        Inl e \<Rightarrow> (Inr (error_response (Some (rm_request_id m)) ''AUTHORIZATION_DENIED'' (auth_text e)), s)
      | Inr _ \<Rightarrow> (case handler (rm_action m) (rm_params m) r s of
          (out, s') \<Rightarrow> (Inr (response_of (rm_request_id m) out), s'))))"

text \<open>A connection: the daemon's state, the bytes sent and what the peer does next.\<close>

datatype send_outcome =
    Sent
  | PeerGone                   \<comment> \<open>\<open>BrokenPipeError\<close>, \<open>ConnectionResetError\<close> or a timeout\<close>
  | SendFailed pyexc           \<comment> \<open>any other exception, which is not handled here\<close>

record 's conn =
  cn_app :: 's
  cn_sent :: "string list"

definition send_response :: "(rat \<Rightarrow> string) \<Rightarrow> (nat \<Rightarrow> send_outcome) \<Rightarrow> pydict \<Rightarrow>
    ('s conn, ipc_exc, bool) eff" where
  "send_response fr sendall response c =
     (let encoded = (case encode_json_line fr max_response_bytes (PDict response) of
         Inl (ProtocolError _) \<Rightarrow> encode_json_line fr max_response_bytes (PDict
             [(''version'', PInt 1), (''request_id'', py_get response ''request_id''), (''ok'', PBool False),
              (''error'', PDict [(''code'', PStr ''RESPONSE_TOO_LARGE''),
                 (''message'', PStr ''The daemon result exceeds the IPC response limit'')])])
       | other \<Rightarrow> other) in
      case encoded of
        Inl e \<Rightarrow> (Inl e, c)
      | Inr text \<Rightarrow> (case sendall (length (cn_sent c)) of
          Sent \<Rightarrow> (Inr True, c\<lparr>cn_sent := cn_sent c @ [text]\<rparr>)
        | PeerGone \<Rightarrow> (Inr False, c)
        | SendFailed e \<Rightarrow> (Inl (IpcRaised e), c)))"

text \<open>\<open>_process_line\<close> on the connection's state.\<close>

definition on_app :: "('s, pyexc, 'a) eff \<Rightarrow> ('s conn, ipc_exc, 'a) eff" where
  "on_app m c = (case m (cn_app c) of (r, s) \<Rightarrow>
     ((case r of Inl e \<Rightarrow> Inl (IpcRaised e) | Inr x \<Rightarrow> Inr x), c\<lparr>cn_app := s\<rparr>))"

text \<open>\<open>bytes(buffer).split(b"\<newline>", 1)\<close> when there is a newline.\<close>

definition newline :: char where "newline = CHR 0x0A"

definition first_line :: "string \<Rightarrow> string \<times> string" where
  "first_line buffer = (takeWhile (\<lambda>c. c \<noteq> newline) buffer, tl (dropWhile (\<lambda>c. c \<noteq> newline) buffer))"

lemma first_line_append: "newline \<notin> set l \<Longrightarrow> first_line (l @ newline # rest) = (l, rest)"
  by (induction l) (auto simp: first_line_def)

lemma first_line_shorter: "newline \<in> set buffer \<Longrightarrow> length (snd (first_line buffer)) < length buffer"
  by (auto dest!: split_list_first simp: first_line_append)

text \<open>\<open>while b"\<newline>" in buffer\<close>: \<open>Some\<close> is the remaining buffer, \<open>None\<close> the end of the connection.\<close>

definition too_large :: pydict where
  "too_large = error_response None ''MESSAGE_TOO_LARGE'' ''Request exceeds the size limit''"

function drain :: "(string \<Rightarrow> ('s, pyexc, pydict) eff) \<Rightarrow> (pydict \<Rightarrow> ('s conn, ipc_exc, bool) eff) \<Rightarrow> string \<Rightarrow>
    ('s conn, ipc_exc, string option) eff" where
  "drain process send buffer =
     (if newline \<notin> set buffer then eff_return (Some buffer)
      else
      eff_bind (on_app (process (fst (first_line buffer)))) (\<lambda>response.
      eff_bind (send response) (\<lambda>ok.
      if \<not> ok then eff_return None
      else if length (snd (first_line buffer)) > max_request_bytes
      then eff_bind (send too_large) (\<lambda>_. eff_return None)
      else drain process send (snd (first_line buffer)))))"
  by pat_completeness auto
termination
  by (relation "measure (\<lambda>(_, _, b). length b)")
    (simp_all add: first_line_shorter)

declare drain.simps [simp del]

text \<open>One turn of the receive loop: the stop flag is set, or \<open>recv(4096)\<close> answers or raises; no bytes is the end of the stream. Only
  timeouts and resets are handled.\<close>

datatype recv_event = StopRequested | RecvTimeout | RecvReset | RecvFailed pyexc | Received string

fun serve :: "(string \<Rightarrow> ('s, pyexc, pydict) eff) \<Rightarrow> (pydict \<Rightarrow> ('s conn, ipc_exc, bool) eff) \<Rightarrow> string \<Rightarrow>
    recv_event list \<Rightarrow> ('s conn, ipc_exc, unit) eff" where
  "serve process send buffer [] = eff_return ()"
| "serve process send buffer (StopRequested # es) = eff_return ()"
| "serve process send buffer (RecvTimeout # es) =
     eff_bind (send (error_response None ''REQUEST_TIMEOUT'' ''IPC request timed out'')) (\<lambda>_. eff_return ())"
| "serve process send buffer (RecvReset # es) = eff_return ()"
| "serve process send buffer (RecvFailed e # es) = eff_raise (IpcRaised e)"
| "serve process send buffer (Received chunk # es) =
     (if chunk = [] then
        eff_bind (if buffer \<noteq> [] then send (error_response None ''INCOMPLETE_MESSAGE'' ''Request was not newline terminated'')
                  else eff_return True) (\<lambda>_. eff_return ())
      else if length (buffer @ chunk) > max_request_bytes \<and> newline \<notin> set (buffer @ chunk)
      then eff_bind (send too_large) (\<lambda>_. eff_return ())
      else eff_bind (drain process send (buffer @ chunk)) (\<lambda>rest. case rest of
          None \<Rightarrow> eff_return ()
        | Some buffer' \<Rightarrow> serve process send buffer' es))"

definition handle_client :: "nat \<Rightarrow> (rat \<Rightarrow> string) \<Rightarrow> accounts \<Rightarrow> 's handler \<Rightarrow>
    (nat \<Rightarrow> send_outcome) \<Rightarrow> requester option \<Rightarrow> recv_event list \<Rightarrow> ('s conn, ipc_exc, unit) eff" where
  "handle_client depth fr acc handler sendall peer es = (case peer of
      None \<Rightarrow> eff_bind (send_response fr sendall
          (error_response None ''PEER_CREDENTIALS_UNAVAILABLE'' ''Peer identity is unavailable'')) (\<lambda>_. eff_return ())
    | Some r \<Rightarrow> serve (process_line depth acc handler r) (send_response fr sendall) [] es)"

section \<open>Framing\<close>

text \<open>The reference reading of a stream: its complete lines in order, then the unfinished rest.\<close>

fun answer_lines :: "(string \<Rightarrow> ('s, pyexc, pydict) eff) \<Rightarrow> (pydict \<Rightarrow> ('s conn, ipc_exc, bool) eff) \<Rightarrow> string list \<Rightarrow>
    ('s conn, ipc_exc, unit) eff \<Rightarrow> ('s conn, ipc_exc, unit) eff" where
  "answer_lines process send [] finish = finish"
| "answer_lines process send (l # ls) finish =
     eff_bind (on_app (process l)) (\<lambda>response.
     eff_bind (send response) (\<lambda>ok. if ok then answer_lines process send ls finish else eff_return ()))"

definition serve_stream :: "(string \<Rightarrow> ('s, pyexc, pydict) eff) \<Rightarrow> (pydict \<Rightarrow> ('s conn, ipc_exc, bool) eff) \<Rightarrow> string \<Rightarrow>
    ('s conn, ipc_exc, unit) eff" where
  "serve_stream process send stream = (let parts = split_on newline stream in
     answer_lines process send (butlast parts)
       (if last parts = [] then eff_return ()
        else eff_bind (send (error_response None ''INCOMPLETE_MESSAGE'' ''Request was not newline terminated''))
               (\<lambda>_. eff_return ())))"

lemma eff_bind_assoc: "eff_bind (eff_bind m f) g = eff_bind m (\<lambda>x. eff_bind (f x) g)"
  by (auto simp: eff_bind_def fun_eq_iff split: prod.splits sum.splits)

lemma eff_bind_if: "eff_bind (if b then m else n) f = (if b then eff_bind m f else eff_bind n f)"
  by simp

lemma eff_return_bind [simp]: "eff_bind (eff_return x) f = f x"
  by (simp add: eff_bind_def fun_eq_iff)

lemma drain_lines:
  assumes "list_all (\<lambda>l. newline \<notin> set l) ls" and "newline \<notin> set rest"
    and "length (concat (map (\<lambda>l. l @ [newline]) (tl ls)) @ rest) \<le> max_request_bytes"
  shows "eff_bind (drain process send (concat (map (\<lambda>l. l @ [newline]) ls) @ rest))
      (\<lambda>r. case r of None \<Rightarrow> eff_return () | Some b \<Rightarrow> k b) = answer_lines process send ls (k rest)"
  using assms
proof (induction ls)
  case Nil
  then show ?case by (simp add: drain.simps [of _ _ rest])
next
  case (Cons l ls)
  let ?tail = "concat (map (\<lambda>l. l @ [newline]) ls) @ rest"
  have b: "concat (map (\<lambda>l. l @ [newline]) (l # ls)) @ rest = l @ newline # ?tail" by simp
  have fl: "first_line (l @ newline # ?tail) = (l, ?tail)" using Cons.prems(1) by (simp add: first_line_append)
  have len: "length ?tail \<le> max_request_bytes" using Cons.prems(3) by simp
  then have "length (concat (map (\<lambda>l. l @ [newline]) (tl ls)) @ rest) \<le> max_request_bytes" by (cases ls) auto
  then have IH: "eff_bind (drain process send ?tail) (\<lambda>r. case r of None \<Rightarrow> eff_return () | Some b \<Rightarrow> k b) =
      answer_lines process send ls (k rest)"
    using Cons.IH Cons.prems by simp
  have inner: "eff_bind (if \<not> ok then eff_return None
        else if length ?tail > max_request_bytes then eff_bind (send too_large) (\<lambda>_. eff_return None)
        else drain process send ?tail) (\<lambda>r. case r of None \<Rightarrow> eff_return () | Some b \<Rightarrow> k b) =
      (if ok then answer_lines process send ls (k rest) else eff_return ())" for ok
    using IH by (cases ok) (simp_all only: if_True if_False simp_thms eff_return_bind option.case len [folded not_less])
  have "newline \<in> set (l @ newline # ?tail)" by simp
  then show ?case
    unfolding b
    by (subst drain.simps) (simp only: simp_thms if_False fl fst_conv snd_conv eff_bind_assoc inner answer_lines.simps)
qed

lemma answer_lines_append:
  "answer_lines process send (as @ bs) finish = answer_lines process send as (answer_lines process send bs finish)"
proof (induction as)
  case (Cons a as)
  then show ?case by (simp only: append_Cons answer_lines.simps)
qed simp

lemma split_lines:
  "list_all (\<lambda>l. newline \<notin> set l) ls \<Longrightarrow>
    split_on newline (concat (map (\<lambda>l. l @ [newline]) ls) @ x) = ls @ split_on newline x"
  by (induction ls) (auto simp: split_on_append_sep)

lemma unsplit_lines:
  assumes "split_on newline b = ls @ [rest]"
  shows "b = concat (map (\<lambda>l. l @ [newline]) ls) @ rest \<and> list_all (\<lambda>l. newline \<notin> set l) ls \<and> newline \<notin> set rest"
proof -
  have "join_with [newline] (ls @ [rest]) = concat (map (\<lambda>l. l @ [newline]) ls) @ rest" for ls
    by (induction ls) (simp_all add: join_with_Cons)
  then show ?thesis
    using join_split [of newline b] assms split_on_fields [of _ newline b] by (auto simp: list_all_iff)
qed

lemma first_part_length: "newline \<notin> set b \<Longrightarrow> length b \<le> length (hd (split_on newline (b @ x)))"
  by (induction b) (auto split: list.splits)

lemma serve_chunks:
  assumes "newline \<notin> set buffer"
    and "list_all (\<lambda>c. c \<noteq> [] \<and> length c \<le> 4096) cs"
    and "list_all (\<lambda>l. length l \<le> max_request_bytes) (split_on newline (buffer @ concat cs))"
  shows "serve process send buffer (map Received cs @ [Received []]) = serve_stream process send (buffer @ concat cs)"
  using assms
proof (induction cs arbitrary: buffer)
  case Nil
  then show ?case by (simp add: serve_stream_def split_on_no_sep eff_bind_if) (simp add: eff_return_def)
next
  case (Cons c cs)
  let ?b = "buffer @ c"
  define ls where "ls = butlast (split_on newline ?b)"
  define rest where "rest = last (split_on newline ?b)"
  have parts: "split_on newline ?b = ls @ [rest]" by (simp add: ls_def rest_def)
  note b = unsplit_lines [OF parts]
  have split: "split_on newline (?b @ concat cs) = ls @ split_on newline (rest @ concat cs)"
    using b split_lines [of ls "rest @ concat cs"] by (metis append_assoc)
  have lens: "list_all (\<lambda>l. length l \<le> max_request_bytes) (split_on newline (rest @ concat cs))"
    using Cons.prems(3) split by simp
  then have "length rest \<le> max_request_bytes"
    using first_part_length [of rest "concat cs"] b by (cases "split_on newline (rest @ concat cs)") auto
  moreover have "length (concat (map (\<lambda>l. l @ [newline]) (tl ls)) @ rest) \<le> length c" if "ls \<noteq> []"
  proof -
    obtain l ls' where ls: "ls = l # ls'" using \<open>ls \<noteq> []\<close> by (cases ls) auto
    have "buffer @ c = l @ newline # concat (map (\<lambda>l. l @ [newline]) ls') @ rest" using b ls by simp
    moreover have "length buffer \<le> length l"
      using Cons.prems(1) calculation by (auto simp: append_eq_append_conv2 append_eq_Cons_conv)
    ultimately show ?thesis using ls by (auto dest!: arg_cong [of _ _ length])
  qed
  ultimately have tail: "length (concat (map (\<lambda>l. l @ [newline]) (tl ls)) @ rest) \<le> max_request_bytes"
    using Cons.prems(2) by (cases "ls = []") (auto simp: max_request_bytes_def)
  have fits: "\<not> (length ?b > max_request_bytes \<and> newline \<notin> set ?b)"
  proof (cases "ls = []")
    case True
    then have "rest = ?b" using b by simp
    then show ?thesis using \<open>length rest \<le> max_request_bytes\<close> by simp
  next
    case False
    then have "newline \<in> set ?b" using b by (cases ls) auto
    then show ?thesis by simp
  qed
  have "serve process send buffer (map Received (c # cs) @ [Received []]) =
      eff_bind (drain process send ?b) (\<lambda>r. case r of None \<Rightarrow> eff_return ()
        | Some b' \<Rightarrow> serve process send b' (map Received cs @ [Received []]))"
    unfolding list.map append_Cons serve.simps if_not_P [OF fits] using Cons.prems(2) by simp
  also have "\<dots> = answer_lines process send ls (serve process send rest (map Received cs @ [Received []]))"
    using b drain_lines [OF _ _ tail, of process send] by metis
  also have "\<dots> = answer_lines process send ls (serve_stream process send (rest @ concat cs))"
    using Cons.IH [of rest] b Cons.prems(2) lens by simp
  also have "\<dots> = serve_stream process send (?b @ concat cs)"
    unfolding serve_stream_def Let_def split by (simp add: butlast_append answer_lines_append)
  finally show ?case by simp
qed

text \<open>C35: The connection handler does not depend on how the peer's bytes arrive: for any division of a
  stream into received chunks, the lines are answered exactly as the reference reading of the whole
  stream answers them, one by one and in order, with the unfinished rest reported at the end, provided
  no line exceeds the request limit.\<close>

theorem framing_independent_of_chunks:
  assumes "list_all (\<lambda>c. c \<noteq> [] \<and> length c \<le> 4096) chunks"
    and "list_all (\<lambda>l. length l \<le> max_request_bytes) (split_on newline (concat chunks))"
  shows "handle_client depth fr acc handler sendall (Some r) (map Received chunks @ [Received []]) =
    serve_stream (process_line depth acc handler r) (send_response fr sendall) (concat chunks)"
  using serve_chunks [of "[]" chunks] assms by (simp add: handle_client_def)

lemma framing_independent_of_chunks_witness:
  "handle_client 10 (\<lambda>_. ''0.0'') sample_accounts (\<lambda>_ _ _ s. (HandlerFailed, s)) (\<lambda>_. Sent)
      (Some \<lparr>rq_pid = 5, rq_uid = 1000, rq_gid = 1000\<rparr>)
      (map Received [''a'', ''b'' @ [newline] @ ''c'', [newline]] @ [Received []]) =
    serve_stream (process_line 10 sample_accounts (\<lambda>_ _ _ s. (HandlerFailed, s :: unit))
      \<lparr>rq_pid = 5, rq_uid = 1000, rq_gid = 1000\<rparr>) (send_response (\<lambda>_. ''0.0'') (\<lambda>_. Sent))
      (''ab'' @ [newline] @ ''c'' @ [newline])"
  using framing_independent_of_chunks [of "[''a'', ''b'' @ [newline] @ ''c'', [newline]]" 10 "\<lambda>_. ''0.0''"
      sample_accounts "\<lambda>_ _ _ s. (HandlerFailed, s :: unit)" "\<lambda>_. Sent" "\<lparr>rq_pid = 5, rq_uid = 1000, rq_gid = 1000\<rparr>"]
  by (simp add: newline_def max_request_bytes_def)

section \<open>Accepted parameters\<close>

text \<open>What the parameters of an accepted request look like, stated without the checks.\<close>

definition absolute_text :: "pyval \<Rightarrow> bool" where
  "absolute_text v = (case v of
      PStr s \<Rightarrow> starts_with s ''/'' \<and> text_length s \<le> max_path_characters \<and> CHR 0x00 \<notin> set s | _ \<Rightarrow> False)"

definition canonical_id :: "pyval \<Rightarrow> bool" where
  "canonical_id v \<longleftrightarrow> (\<exists>n < 2 ^ 128. v = PStr (uuid_text n))"

definition field_is :: "pydict \<Rightarrow> string \<Rightarrow> (pyval \<Rightarrow> bool) \<Rightarrow> bool" where
  "field_is d k P = (case dict_get d k of None \<Rightarrow> False | Some v \<Rightarrow> P v)"

definition params_ok :: "string \<Rightarrow> pydict \<Rightarrow> bool" where
  "params_ok action params \<longleftrightarrow>
     (\<exists>required optional. dict_get action_params action = Some (required, optional) \<and>
       set required \<subseteq> fst ` set params \<and> fst ` set params \<subseteq> set required \<union> set optional) \<and>
     (action \<in> {''list_events'', ''list_runtime_states''} \<longrightarrow>
       field_is params ''limit'' (\<lambda>v. \<exists>i. v = PInt i \<and> 1 \<le> i \<and> i \<le> 200)) \<and>
     (action = ''scan_file'' \<longrightarrow> field_is params ''path'' absolute_text) \<and>
     (action \<in> {''restore_file'', ''delete_permanently''} \<longrightarrow> field_is params ''quarantine_id'' canonical_id) \<and>
     (action = ''restore_file'' \<longrightarrow> field_is params ''destination'' (\<lambda>v. v = PNone \<or> absolute_text v)) \<and>
     (action = ''update_enforcement_policy'' \<longrightarrow>
       field_is params ''mode'' (\<lambda>v. v = PStr ''MONITOR_ONLY'' \<or> v = PStr ''ENFORCEMENT''))"

lemma field_is_set [simp]: "field_is (dict_set k v d) k' P = (if k' = k then P v else field_is d k' P)"
  by (simp add: field_is_def)

lemma field_isE: "field_is d k P \<Longrightarrow> (\<And>v. dict_get d k = Some v \<Longrightarrow> P v \<Longrightarrow> thesis) \<Longrightarrow> thesis"
  by (auto simp: field_is_def split: option.splits)

lemma text_length_le: "text_length s \<le> length s"
  by (simp add: text_length_def)

lemma require_string_Inr:
  "require_string d k none m = Inr t \<longleftrightarrow>
     (case t of None \<Rightarrow> none \<and> py_get d k = PNone
      | Some s \<Rightarrow> py_get d k = PStr s \<and> s \<noteq> [] \<and> (case m of None \<Rightarrow> True | Some n \<Rightarrow> text_length s \<le> n) \<and> CHR 0x00 \<notin> set s)"
  by (auto simp: require_string_def proto_def split: pyval.splits list.splits if_splits option.splits)

lemma check_limit_ok: "check_limit p = Inr q \<Longrightarrow> \<exists>i. q = dict_set ''limit'' (PInt i) p \<and> 1 \<le> i \<and> i \<le> 200"
  by (auto simp: check_limit_def proto_def split: pyval.splits if_splits)

lemma check_path_ok: "check_path p = Inr q \<Longrightarrow> \<exists>v. q = dict_set ''path'' v p \<and> absolute_text v"
  by (auto simp: check_path_def proto_def res_bind_eq_Inr require_string_Inr absolute_text_def text_or_empty_def py_opt_str_def
      split: if_splits option.splits)

lemma canonical_idI: "uuid_of (uuid_text n) = Some n \<Longrightarrow> canonical_id (PStr (uuid_text n))"
  unfolding canonical_id_def by (blast dest: uuid_of_bound)

lemma validate_quarantine_id_ok: "validate_quarantine_id t = Inr q \<Longrightarrow> t = Some q \<and> canonical_id (PStr q)"
  by (auto simp: validate_quarantine_id_def proto_def split: option.splits if_splits intro: canonical_idI)

lemma set_dict_keys: "fst ` set (dict_set k v d) = insert k (fst ` set d)"
  using arg_cong [OF dict_set_keys [of k v d], of set] by (auto simp del: dict_set.simps split: if_splits)

lemma check_quarantine_id_ok:
  "check_quarantine_id p = Inr q \<Longrightarrow> \<exists>v. q = dict_set ''quarantine_id'' v p \<and> canonical_id v"
  by (auto simp: check_quarantine_id_def res_bind_eq_Inr dest: validate_quarantine_id_ok)

lemma check_destination_ok:
  "check_destination p = Inr q \<Longrightarrow> \<exists>v. q = dict_set ''destination'' v p \<and> (v = PNone \<or> absolute_text v)"
  by (auto simp: check_destination_def proto_def res_bind_eq_Inr require_string_Inr absolute_text_def text_or_empty_def
      py_opt_str_def split: if_splits option.splits)

lemma check_mode_ok:
  "check_mode p = Inr q \<Longrightarrow> \<exists>v. q = dict_set ''mode'' v p \<and> (v = PStr ''MONITOR_ONLY'' \<or> v = PStr ''ENFORCEMENT'')"
  by (auto simp: check_mode_def proto_def res_bind_eq_Inr require_string_Inr text_or_empty_def py_opt_str_def
      split: if_splits option.splits)

lemma action_params_cases:
  assumes "dict_get action_params action = Some ro"
  obtains "action \<in> {''get_status'', ''list_quarantine'', ''get_policy''}" "ro = ([], [])"
  | "action \<in> {''list_events'', ''list_runtime_states''}" "ro = ([], [''limit''])"
  | "action = ''scan_file''" "ro = ([''path''], [])"
  | "action = ''restore_file''" "ro = ([''quarantine_id''], [''destination''])"
  | "action = ''delete_permanently''" "ro = ([''quarantine_id''], [])"
  | "action = ''update_enforcement_policy''" "ro = ([''mode''], [])"
  using assms by (auto simp: action_params_def split: if_splits)

lemma validate_action_params_Inr:
  "validate_action_params action p = Inr q \<longleftrightarrow>
     (\<exists>required optional. dict_get action_params action = Some (required, optional) \<and>
       set required \<subseteq> fst ` set p \<and> fst ` set p \<subseteq> set required \<union> set optional \<and> normalise_params action p = Inr q)"
  by (auto simp: validate_action_params_def proto_def Let_def filter_empty_conv split: option.splits if_splits)

lemma validate_action_params_ok:
  assumes "validate_action_params action p = Inr q"
  shows "params_ok action q"
proof -
  obtain required optional where ro: "dict_get action_params action = Some (required, optional)"
    and keys: "set required \<subseteq> fst ` set p" "fst ` set p \<subseteq> set required \<union> set optional"
    and norm: "normalise_params action p = Inr q"
    using assms by (auto simp: validate_action_params_Inr)
  show ?thesis
    using ro
  proof (cases rule: action_params_cases)
    case 4
    then obtain q1 where "check_quarantine_id p = Inr q1" "check_destination q1 = Inr q"
      using norm by (auto simp: normalise_params_def res_bind_eq_Inr)
    then obtain v w where "q = dict_set ''destination'' v (dict_set ''quarantine_id'' w p)" "canonical_id w"
      "v = PNone \<or> absolute_text v" using check_quarantine_id_ok check_destination_ok by blast
    then show ?thesis using 4 ro keys by (simp add: params_ok_def set_dict_keys)
  qed (use norm ro keys in \<open>auto simp: normalise_params_def params_ok_def set_dict_keys
      dest!: check_limit_ok check_path_ok check_quarantine_id_ok check_mode_ok dict_set_set_subset [THEN subsetD]\<close>)
qed

text \<open>Accepted parameters are a fixed point of the validation.\<close>

lemma py_get_of: "dict_get d k = Some v \<Longrightarrow> py_get d k = v"
  by (simp add: py_get_def dict_get_or_def)

lemma require_absolute:
  "py_get d k = PStr s \<Longrightarrow> absolute_text (PStr s) \<Longrightarrow> require_string d k none (Some max_path_characters) = Inr (Some s)"
  by (auto simp: require_string_Inr absolute_text_def)

lemma canonical_require:
  assumes "py_get d k = v" and "canonical_id v"
  shows "\<exists>s. v = PStr s \<and> require_string d k none (Some 64) = Inr (Some s) \<and> validate_quarantine_id (Some s) = Inr s"
proof -
  obtain n where n: "n < 2 ^ 128" "v = PStr (uuid_text n)" using assms(2) by (auto simp: canonical_id_def)
  have "uuid_text n \<noteq> []" using uuid_text_length [of n] by force
  moreover have "CHR 0x00 \<notin> set (uuid_text n)" using uuid_text_chars [of "CHR 0x00" n] by (auto simp: id_char_def is_digit_def char_code_def)
  ultimately show ?thesis
    using n assms(1) text_length_le [of "uuid_text n"]
    by (simp add: require_string_Inr uuid_text_length validate_quarantine_id_def uuid_of_text)
qed

lemma params_okD:
  assumes "params_ok action q"
  shows "action = ''list_events'' \<or> action = ''list_runtime_states'' \<Longrightarrow>
      field_is q ''limit'' (\<lambda>v. \<exists>i. v = PInt i \<and> 1 \<le> i \<and> i \<le> 200)"
    and "action = ''scan_file'' \<Longrightarrow> field_is q ''path'' absolute_text"
    and "action = ''restore_file'' \<or> action = ''delete_permanently'' \<Longrightarrow> field_is q ''quarantine_id'' canonical_id"
    and "action = ''restore_file'' \<Longrightarrow> field_is q ''destination'' (\<lambda>v. v = PNone \<or> absolute_text v)"
    and "action = ''update_enforcement_policy'' \<Longrightarrow>
      field_is q ''mode'' (\<lambda>v. v = PStr ''MONITOR_ONLY'' \<or> v = PStr ''ENFORCEMENT'')"
  using assms unfolding params_ok_def by simp_all

lemma normalise_fixed:
  assumes "params_ok action q"
  shows "normalise_params action q = Inr q"
proof -
  obtain ro where "dict_get action_params action = Some ro" using assms by (auto simp: params_ok_def)
  then show ?thesis
  proof (cases rule: action_params_cases)
    case 2
    then have "field_is q ''limit'' (\<lambda>v. \<exists>i. v = PInt i \<and> 1 \<le> i \<and> i \<le> 200)"
      using params_okD(1) [OF assms] by simp
    then obtain i where "dict_get q ''limit'' = Some (PInt i)" "1 \<le> i" "i \<le> 200" by (auto elim: field_isE)
    then show ?thesis using 2 by (auto simp: normalise_params_def check_limit_def dict_get_or_def dict_set_same)
  next
    case 3
    then obtain v where v: "dict_get q ''path'' = Some v" "absolute_text v"
      using params_okD(2) [OF assms] by (auto elim: field_isE)
    then obtain s where "v = PStr s" by (cases v) (auto simp: absolute_text_def)
    then show ?thesis using v 3 require_absolute [OF py_get_of, of q "''path''" s False]
      by (simp add: normalise_params_def check_path_def text_or_empty_def py_opt_str_def dict_set_same absolute_text_def)
  next
    case 4
    obtain v w where v: "dict_get q ''quarantine_id'' = Some v" "canonical_id v"
      and w: "dict_get q ''destination'' = Some w" "w = PNone \<or> absolute_text w"
      using params_okD(3,4) [OF assms] 4 by (auto elim!: field_isE)
    have "check_quarantine_id q = Inr q"
      using canonical_require [OF py_get_of [OF v(1)] v(2), of False] v(1)
      by (auto simp: check_quarantine_id_def dict_set_same)
    moreover have "check_destination q = Inr q"
    proof (cases "w = PNone")
      case True
      then have "require_string q ''destination'' True (Some max_path_characters) = Inr None"
        using py_get_of [OF w(1)] by (simp add: require_string_Inr)
      then show ?thesis using True w(1) by (simp add: check_destination_def py_opt_str_def dict_set_same)
    next
      case False
      then obtain s where s: "w = PStr s" "absolute_text (PStr s)" using w(2) by (cases w) (auto simp: absolute_text_def)
      then show ?thesis using require_absolute [OF py_get_of, of q "''destination''" s True] w(1)
        by (simp add: check_destination_def text_or_empty_def py_opt_str_def dict_set_same absolute_text_def)
    qed
    ultimately show ?thesis using 4 by (simp add: normalise_params_def)
  next
    case 5
    then obtain v where v: "dict_get q ''quarantine_id'' = Some v" "canonical_id v"
      using params_okD(3) [OF assms] by (auto elim!: field_isE)
    then show ?thesis using 5 canonical_require [OF py_get_of [OF v(1)] v(2), of False]
      by (auto simp: normalise_params_def check_quarantine_id_def dict_set_same)
  next
    case 6
    then obtain m where m: "dict_get q ''mode'' = Some (PStr m)" "m = ''MONITOR_ONLY'' \<or> m = ''ENFORCEMENT''"
      using params_okD(5) [OF assms] by (auto elim!: field_isE)
    then have "require_string q ''mode'' False (Some 32) = Inr (Some m)"
      using py_get_of [OF m(1)] text_length_le [of m] by (auto simp: require_string_Inr)
    then show ?thesis using 6 m by (auto simp: normalise_params_def check_mode_def text_or_empty_def py_opt_str_def dict_set_same)
  qed (auto simp: normalise_params_def)
qed

lemma validate_fixed: "params_ok action q \<Longrightarrow> validate_action_params action q = Inr q"
  using normalise_fixed by (auto simp: validate_action_params_Inr params_ok_def)

lemma with_request_id_Inr [simp]: "with_request_id rid r = Inr x \<longleftrightarrow> r = Inr x"
  by (simp add: with_request_id_def split: sum.split)

lemma proto_Inr [simp]: "proto c m \<noteq> Inr x"
  by (simp add: proto_def)

lemma lift_proto_Inr [simp]: "lift_proto r = Inr x \<longleftrightarrow> r = Inr x"
  by (simp add: lift_proto_def split: sum.split)

lemma validate_request_id_Inr:
  "validate_request_id v = Inr rid \<longleftrightarrow>
     v = PStr rid \<and> rid \<noteq> [] \<and> text_length rid \<le> max_request_id_characters \<and> list_all request_id_char rid"
  by (auto simp: validate_request_id_def split: pyval.splits list.splits if_splits)

lemma request_object_Inr:
  assumes "validate_request_object v = Inr m"
  shows "rm_version m = 1 \<and> params_ok (rm_action m) (rm_params m) \<and> rm_action m \<noteq> [] \<and>
    rm_request_id m \<noteq> [] \<and> text_length (rm_request_id m) \<le> max_request_id_characters \<and> list_all request_id_char (rm_request_id m)"
  using assms
  by (auto simp: validate_request_object_def res_bind_eq_Inr validate_request_id_Inr Let_def
      split: if_splits pyval.splits list.splits dest: validate_action_params_ok)

text \<open>C34: The daemon's handler runs only for an authorised, fully validated request: in every other
  case its state is untouched. A request that reaches it fits the size limit, has a well-formed
  identifier and normalised parameters (bounded limits, absolute paths, canonical quarantine
  identifiers, known modes), and a sensitive action comes from root or an administrator.\<close>

theorem handler_sees_valid_requests:
  assumes "process_line depth acc handler r line s = (out, s')" and "s' \<noteq> s"
  shows "\<exists>m. decode_request_line depth line = Inr m \<and> length line \<le> max_request_bytes \<and>
    params_ok (rm_action m) (rm_params m) \<and> list_all request_id_char (rm_request_id m) \<and>
    (rm_action m \<in> set sensitive_actions \<longrightarrow> privileged acc r) \<and>
    s' = snd (handler (rm_action m) (rm_params m) r s) \<and>
    out = Inr (response_of (rm_request_id m) (fst (handler (rm_action m) (rm_params m) r s)))"
proof -
  obtain m where m: "decode_request_line depth line = Inr m" and auth: "authorize acc r (rm_action m) = Inr ()"
    and run: "s' = snd (handler (rm_action m) (rm_params m) r s)"
      "out = Inr (response_of (rm_request_id m) (fst (handler (rm_action m) (rm_params m) r s)))"
    using assms by (auto simp: process_line_def split: sum.splits ipc_exc.splits prod.splits)
  then obtain v where v: "validate_request_object v = Inr m" and len: "length line \<le> max_request_bytes"
    by (auto simp: decode_request_line_def split: if_splits json_outcome.splits)
  have "rm_action m \<in> set sensitive_actions \<longrightarrow> privileged acc r"
    using auth by (auto simp: authorize_ok_iff read_only_actions_def standard_actions_def sensitive_actions_def)
  then show ?thesis using m run len request_object_Inr [OF v] by blast
qed

text \<open>Accepted requests print without floats, so they always read back.\<close>

lemma length_show_nat: "length (show_nat n) \<le> Suc n"
proof (induction n rule: show_nat.induct)
  case (1 n)
  show ?case
  proof (cases "n < 10")
    case True
    then show ?thesis by (simp add: show_nat.simps [of n])
  next
    case False
    then have "length (show_nat (n div 10)) \<le> Suc (n div 10)" by (rule 1)
    then show ?thesis using False by (simp add: show_nat.simps [of n])
  qed
qed

lemma absolute_plain: "absolute_text v \<Longrightarrow> json_ok st v \<and> nesting v = 0"
  by (cases v) (simp_all add: absolute_text_def)

lemma canonical_plain: "canonical_id v \<Longrightarrow> json_ok st v \<and> nesting v = 0"
  unfolding canonical_id_def by auto

lemma fold_max_zero: "(\<And>x. x \<in> set xs \<Longrightarrow> f x = 0) \<Longrightarrow> fold max (map f xs) (0::nat) = 0"
  by (induction xs) simp_all

lemma params_json_ok:
  assumes "params_ok action q" and "dict_ok q"
  shows "json_ok st (PDict q) \<and> nesting (PDict q) = 1"
proof -
  have field: "json_ok st v \<and> nesting v = 0" if kv: "(k, v) \<in> set q" for k v
  proof -
    have get: "dict_get q k = Some v" using kv assms(2) by (simp add: dict_in_set_get)
    have small: "length (show_nat (nat \<bar>i\<bar>)) \<le> 4300" if "1 \<le> i" "i \<le> (200::int)" for i
      using that length_show_nat [of "nat \<bar>i\<bar>"] by linarith
    obtain required optional where ro: "dict_get action_params action = Some (required, optional)"
      and keys: "fst ` set q \<subseteq> set required \<union> set optional" using assms(1) unfolding params_ok_def by blast
    have "k \<in> fst ` set q" using kv by force
    then have k: "k \<in> set required \<union> set optional" using keys by blast
    have prim: "json_ok st v \<and> nesting v = 0" if "field_is q k P" "\<And>v. P v \<Longrightarrow> json_ok st v \<and> nesting v = 0" for P
      using that get by (simp add: field_is_def)
    show ?thesis
      using ro
    proof (cases rule: action_params_cases)
      case 2
      then have "k = ''limit''" using k by simp
      then show ?thesis using prim [OF params_okD(1) [OF assms(1), folded \<open>k = _\<close>]] 2 small by force
    next
      case 3
      then have "k = ''path''" using k by simp
      then show ?thesis using prim [OF params_okD(2) [OF assms(1), folded \<open>k = _\<close>]] 3 absolute_plain by simp
    next
      case 4
      then consider "k = ''quarantine_id''" | "k = ''destination''" using k by auto
      then show ?thesis
      proof cases
        case 1
        then show ?thesis using prim [OF params_okD(3) [OF assms(1), folded 1]] 4 canonical_plain by simp
      next
        case 2
        have "json_ok st v \<and> nesting v = 0" if "v = PNone \<or> absolute_text v" for v
          using that absolute_plain by auto
        then show ?thesis using prim [OF params_okD(4) [OF assms(1), folded 2]] 4 by blast
      qed
    next
      case 5
      then have "k = ''quarantine_id''" using k by simp
      then show ?thesis using prim [OF params_okD(3) [OF assms(1), folded \<open>k = _\<close>]] 5 canonical_plain by simp
    next
      case 6
      then have "k = ''mode''" using k by simp
      have "json_ok st v \<and> nesting v = 0" if "v = PStr ''MONITOR_ONLY'' \<or> v = PStr ''ENFORCEMENT''" for v
        using that by auto
      then show ?thesis using prim [OF params_okD(5) [OF assms(1), folded \<open>k = _\<close>]] 6 by blast
    qed (use k in auto)
  qed
  have "fold max (map (\<lambda>kv. nesting (snd kv)) q) 0 = 0"
    using field by (intro fold_max_zero) force
  then show ?thesis using field assms(2) by (auto simp: list_all_iff)
qed

lemma params_dict_ok:
  assumes "validate_action_params action p = Inr q" and "dict_ok p"
  shows "dict_ok q"
proof -
  obtain ro where "dict_get action_params action = Some ro" and norm: "normalise_params action p = Inr q"
    using assms(1) by (auto simp: validate_action_params_Inr)
  then show ?thesis
    by (cases rule: action_params_cases)
      (use assms(2) in \<open>auto simp: normalise_params_def res_bind_eq_Inr dest!: check_limit_ok check_path_ok
        check_quarantine_id_ok check_destination_ok check_mode_ok\<close>)
qed

text \<open>C36: A request the client builds and encodes is the request the server decodes: whatever the float
  printing, decoding the line without its newline yields the same identifier and action and the
  parameters the client normalised, so validating twice changes nothing. A nesting limit of two is
  enough.\<close>

theorem built_request_round_trip:
  assumes "build_request rid action params = Inr obj" and "dict_ok params"
    and "encode_json_line fr max_request_bytes (PDict obj) = Inr line" and "2 \<le> depth"
  shows "\<exists>q body. line = body @ [newline] \<and> validate_action_params action params = Inr q \<and>
    decode_request_line depth body =
      Inr \<lparr>rm_version = 1, rm_request_id = rid, rm_action = action, rm_params = q\<rparr>"
proof -
  obtain q where q: "validate_action_params action params = Inr q" and rid: "validate_request_id (PStr rid) = Inr rid"
    and a: "action \<noteq> []" and obj: "obj = [(''version'', PInt 1), (''request_id'', PStr rid), (''action'', PStr action), (''params'', PDict q)]"
    using assms(1)
    by (auto simp: build_request_def validate_request_object_def res_bind_eq_Inr Let_def
        require_plain_object_def py_get_def dict_get_or_def request_fields_def validate_request_id_Inr
        split: if_splits list.splits)
  have "validate_action_params action q = Inr q" by (rule validate_fixed [OF validate_action_params_ok [OF q]])
  then have valid: "validate_request_object (PDict obj) =
      Inr \<lparr>rm_version = 1, rm_request_id = rid, rm_action = action, rm_params = q\<rparr>"
    using a rid obj by (cases action)
      (simp_all add: validate_request_object_def require_plain_object_def py_get_def dict_get_or_def request_fields_def
        with_request_id_def Let_def py_eq_def)
  obtain body where body: "dumps (compact_style fr) (PDict obj) = Inr body" "utf8_valid body"
      "length body < max_request_bytes" "line = body @ [newline]"
    using assms(3) by (auto simp: encode_json_line_def newline_def split: sum.splits if_splits pyexc.splits)
  have "json_ok (compact_style fr) (PDict obj) \<and> nesting (PDict obj) = 2"
    using params_json_ok [OF validate_action_params_ok [OF q] params_dict_ok [OF q assms(2)], of "compact_style fr"] obj
    by (simp add: dict_ok_def show_nat.simps)
  then have "loads depth body = Inr (PDict obj)"
    using loads_dumps [OF compact_style_ok body(1)] assms(4) by simp
  moreover have "body \<noteq> []" using body(1) by (auto simp: res_bind_eq_Inr)
  ultimately show ?thesis
    using q body valid by (simp add: decode_request_line_def decode_json_def lift_proto_def)
qed

section \<open>Sample requests\<close>

definition sample_request :: pydict where
  "sample_request = [(''version'', PInt 1), (''request_id'', PStr ''r-1''), (''action'', PStr ''update_enforcement_policy''),
     (''params'', PDict [(''mode'', PStr ''ENFORCEMENT'')])]"

definition sample_root :: requester where
  "sample_root = \<lparr>rq_pid = 9, rq_uid = 0, rq_gid = 0\<rparr>"

lemma sample_validated:
  "validate_request_object (PDict sample_request) = Inr \<lparr>rm_version = 1, rm_request_id = ''r-1'',
     rm_action = ''update_enforcement_policy'', rm_params = [(''mode'', PStr ''ENFORCEMENT'')]\<rparr>"
  by code_simp

lemma sample_authorised: "authorize sample_accounts sample_root ''update_enforcement_policy'' = Inr ()"
  by code_simp

lemma sample_style: "json_ok (compact_style fr) (PDict sample_request) \<and> nesting (PDict sample_request) = 2"
  by (simp add: sample_request_def dict_ok_def show_nat.simps)

definition sample_line :: string where
  "sample_line = (case dumps (compact_style (\<lambda>_. ''0.0'')) (PDict sample_request) of Inr t \<Rightarrow> t | Inl _ \<Rightarrow> '''')"

lemma sample_line_facts: "dumps (compact_style (\<lambda>_. ''0.0'')) (PDict sample_request) = Inr sample_line"
    "utf8_valid sample_line" "length sample_line < 1000" "sample_line \<noteq> []"
  by code_simp+

lemma sample_decoded: "decode_request_line 10 sample_line = Inr \<lparr>rm_version = 1, rm_request_id = ''r-1'',
     rm_action = ''update_enforcement_policy'', rm_params = [(''mode'', PStr ''ENFORCEMENT'')]\<rparr>"
proof -
  have "loads 10 sample_line = Inr (PDict sample_request)"
    using loads_dumps [OF compact_style_ok sample_line_facts(1), of 10] sample_style by simp
  then show ?thesis
    using sample_line_facts sample_validated
    by (simp add: decode_request_line_def decode_json_def lift_proto_def max_request_bytes_def)
qed

lemma handler_sees_valid_requests_witness:
  "process_line 10 sample_accounts (\<lambda>_ _ _ s. (HandlerReturned PNone, Suc s))
      sample_root sample_line 0 = (Inr (success_response ''r-1'' PNone), 1) \<and>
   (\<exists>m. decode_request_line 10 sample_line = Inr m \<and> params_ok (rm_action m) (rm_params m))"
proof -
  have run: "process_line 10 sample_accounts (\<lambda>_ _ _ s. (HandlerReturned PNone, Suc s))
      sample_root sample_line 0 = (Inr (success_response ''r-1'' PNone), 1)"
    using sample_decoded sample_authorised by (simp add: process_line_def response_of_def)
  then show ?thesis using handler_sees_valid_requests [OF run] by auto
qed

lemma built_request_round_trip_witness:
  "build_request ''r-1'' ''update_enforcement_policy'' [(''mode'', PStr ''ENFORCEMENT'')] = Inr sample_request \<and>
   (\<exists>q body. sample_line @ [newline] = body @ [newline] \<and> decode_request_line 10 body =
      Inr \<lparr>rm_version = 1, rm_request_id = ''r-1'', rm_action = ''update_enforcement_policy'', rm_params = q\<rparr>)"
proof -
  have build: "build_request ''r-1'' ''update_enforcement_policy'' [(''mode'', PStr ''ENFORCEMENT'')] = Inr sample_request"
    using sample_validated by (simp add: build_request_def sample_request_def)
  have enc: "encode_json_line (\<lambda>_. ''0.0'') max_request_bytes (PDict sample_request) = Inr (sample_line @ [newline])"
    using sample_line_facts by (simp add: encode_json_line_def newline_def max_request_bytes_def)
  show ?thesis
    using built_request_round_trip [OF build _ enc, of 10] build by (auto simp: dict_ok_def)
qed

end
