(* ===== verification/Py_Time.thy ===== *)
theory Py_Time
  imports Py_Values
begin

text \<open>
  \<open>datetime.fromtimestamp(t, tz=timezone.utc).isoformat()\<close>, the only use the engine's records make
  of the calendar: the fraction is rounded to microseconds (ties to even, after the binary64
  product), the date follows the proleptic Gregorian calendar, and a time outside the years 1 to
  9999 raises.
\<close>

definition days_in_month :: "int \<Rightarrow> nat \<Rightarrow> int" where
  "days_in_month y m =
     (if m = 2 then (if 4 dvd y \<and> (\<not> 100 dvd y \<or> 400 dvd y) then 29 else 28)
      else if m \<in> {4, 6, 9, 11} then 30 else 31)"

text \<open>Month and day of the zero-based day of a year.\<close>

fun month_day :: "int \<Rightarrow> nat list \<Rightarrow> int \<Rightarrow> nat \<times> int" where
  "month_day y [] n = (12, 31)"
| "month_day y (m # ms) n =
     (if n < days_in_month y m then (m, n + 1) else month_day y ms (n - days_in_month y m))"

text \<open>\<open>_ord2ymd\<close>: year, month and day of a day number, day 1 being the first of January of year 1.\<close>

definition ord2ymd :: "int \<Rightarrow> int \<times> nat \<times> int" where
  "ord2ymd ordinal = (let
      n = ordinal - 1;
      n400 = n div 146097; r400 = n mod 146097;
      n100 = r400 div 36524; r100 = r400 mod 36524;
      n4 = r100 div 1461; r4 = r100 mod 1461;
      n1 = r4 div 365; r1 = r4 mod 365;
      year = n400 * 400 + 1 + n100 * 100 + n4 * 4 + n1
    in if n1 = 4 \<or> n100 = 4 then (year - 1, 12, 31)
       else (case month_day year [1..<13] r1 of (m, d) \<Rightarrow> (year, m, d)))"

definition pad_nat :: "nat \<Rightarrow> nat \<Rightarrow> string" where
  "pad_nat w n = replicate (w - length (show_nat n)) (CHR ''0'') @ show_nat n"

text \<open>Whole seconds and microseconds.\<close>

definition split_timestamp :: "rat \<Rightarrow> int \<times> int" where
  "split_timestamp q = (let
      whole = rat_trunc q;
      us = (case round_binary64 ((q - of_int whole) * 1000000) of Fin x \<Rightarrow> round_half_even x | _ \<Rightarrow> 0)
    in if us \<ge> 1000000 then (whole + 1, us - 1000000)
       else if us < 0 then (whole - 1, us + 1000000)
       else (whole, us))"

definition utc_isoformat :: "pyfloat \<Rightarrow> pyexc + string" where
  "utc_isoformat t = (case t of
      NaN \<Rightarrow> Inl (ValueError ''Invalid value NaN (not a number)'')
    | PosInf \<Rightarrow> Inl OverflowError
    | NegInf \<Rightarrow> Inl OverflowError
    | Fin q \<Rightarrow> (case split_timestamp q of (secs, us) \<Rightarrow>
        let ordinal = 719163 + secs div 86400; s = nat (secs mod 86400) in
        if \<bar>secs\<bar> \<ge> 2 ^ 63 then Inl OverflowError
        else if ordinal < 1 \<or> ordinal > 3652059 then Inl (ValueError ''year is out of range'')
        else (case ord2ymd ordinal of (y, m, d) \<Rightarrow>
          Inr (pad_nat 4 (nat y) @ ''-'' @ pad_nat 2 m @ ''-'' @ pad_nat 2 (nat d) @ ''T'' @
               pad_nat 2 (s div 3600) @ '':'' @ pad_nat 2 (s div 60 mod 60) @ '':'' @ pad_nat 2 (s mod 60) @
               (if us = 0 then '''' else ''.'' @ pad_nat 6 (nat us)) @ ''+00:00''))))"

lemma pad_nat_digits: "c \<in> set (pad_nat w n) \<Longrightarrow> is_digit c"
  using show_nat_digits [of c n] by (auto simp: pad_nat_def is_digit_def char_code_def)

lemma pad_nat_length: "length (pad_nat w n) = max w (length (show_nat n))"
  by (simp add: pad_nat_def)

end
