(* ===== verification/Audit_Chain.thy ===== *)
theory Audit_Chain
  imports Py_Json Py_Time
begin

text \<open>
  The audit log on disk (\<open>audit/audit_logger.py\<close>): the entries of the log directory, the order of
  its segments, the hash of a record and the verification of the whole chain.

  The SHA-256 digest (as hexadecimal text), the printing of floats and the nesting limit of the JSON
  reader are fields of \<open>chain_env\<close>, the environment argument. Contents are lists of bytes.
\<close>

section \<open>Directory entries\<close>

datatype node =
    Regular (node_bytes: string) (node_mode: nat)
  | Symlink "string option"
  | Directory
  | Special nat

type_synonym log_dir = "(string, node) dict"

record chain_env =
  ce_sha256 :: "string \<Rightarrow> string"
  ce_float :: "rat \<Rightarrow> string"
  ce_depth :: nat

definition ZERO_HASH :: string where
  "ZERO_HASH = replicate 64 (CHR ''0'')"

definition SCHEMA_VERSION :: string where
  "SCHEMA_VERSION = ''2.0''"

section \<open>Reports and exceptions\<close>

text \<open>The texts of the \<open>error\<close> field; the part taken from an interpreter exception is left out.\<close>

datatype chain_error =
    SEGMENT_READ_FAILED
  | TRAILING_PARTIAL_RECORD
  | INVALID_JSON
  | RECORD_NOT_OBJECT
  | MISSING_FIELDS "string list"
  | INVALID_HASH_ENCODING
  | PREVIOUS_HASH_MISMATCH
  | RECORD_HASH_MISMATCH
  | NON_MONOTONIC_SEQUENCE
  | INVALID_TAIL

record integrity_report =
  ir_valid :: bool
  ir_record_count :: nat
  ir_segment_count :: nat
  ir_coverage :: string
  ir_first_prev_hash :: string
  ir_last_hash :: string
  ir_last_sequence :: int
  ir_error :: "chain_error option"
  ir_error_segment :: "string option"
  ir_error_line :: "nat option"
  ir_repaired :: bool
  ir_artifact :: "string option"

datatype audit_exc =
    AuditIntegrityError integrity_report
  | AuditSecurityError
  | AuditPy pyexc
  | RecursionError

section \<open>Canonical text and record hash\<close>

definition canonical_json :: "chain_env \<Rightarrow> bool \<Rightarrow> pydict \<Rightarrow> pyexc + string" where
  "canonical_json env legacy v =
     dumps ((if legacy then default_style else compact_style) (ce_float env)) (sort_value (PDict v))"

text \<open>\<open>.encode("utf-8")\<close> raises on lone surrogates.\<close>

definition encode_utf8 :: "string \<Rightarrow> pyexc + string" where
  "encode_utf8 s = (if utf8_valid s then Inr s else Inl (ValueError ''surrogates not allowed''))"

definition str_or_zero :: "pydict \<Rightarrow> string" where
  "str_or_zero e = (case py_get_or e ''prev_hash'' (PStr ZERO_HASH) of PStr s \<Rightarrow> s | _ \<Rightarrow> [])"

text \<open>The text that is hashed. Callers have checked that \<open>prev_hash\<close> is a string.\<close>

definition hash_input :: "chain_env \<Rightarrow> pydict \<Rightarrow> pyexc + string" where
  "hash_input env e =
     (if py_eq (py_get e ''schema_version'') (PStr SCHEMA_VERSION)
      then res_bind (canonical_json env False e) encode_utf8
      else res_bind (canonical_json env True e) (\<lambda>t. encode_utf8 (str_or_zero e @ t)))"

definition record_hash :: "chain_env \<Rightarrow> pydict \<Rightarrow> pyexc + string" where
  "record_hash env e = res_bind (hash_input env e) (\<lambda>t. Inr (ce_sha256 env t))"

definition hex_digit :: "char \<Rightarrow> bool" where
  "hex_digit c = (is_digit c \<or> 97 \<le> char_code c \<and> char_code c \<le> 102)"

definition validate_hex_hash :: "pyval \<Rightarrow> bool" where
  "validate_hex_hash v = (case v of PStr s \<Rightarrow> length s = 64 \<and> list_all hex_digit s | _ \<Rightarrow> False)"

section \<open>Segments\<close>

definition segment_index :: "string \<Rightarrow> string \<Rightarrow> nat option" where
  "segment_index file_name name =
     (let pre = file_name @ ''.'' in
      if \<not> starts_with name pre then None
      else (let suffix = drop (length pre) name in
        if length suffix \<noteq> 6 \<or> \<not> list_all is_digit suffix then None
        else parse_digits 0 False suffix))"

definition rotated_segments :: "string \<Rightarrow> log_dir \<Rightarrow> (nat \<times> string) list" where
  "rotated_segments file_name d =
     sort_key fst (concat (map (\<lambda>(name, _). case segment_index file_name name of
        None \<Rightarrow> [] | Some i \<Rightarrow> [(i, name)]) d))"

definition segments_for :: "string \<Rightarrow> log_dir \<Rightarrow> string list" where
  "segments_for file_name d =
     map snd (rotated_segments file_name d) @ (if dict_get d file_name \<noteq> None then [file_name] else [])"

text \<open>\<open>lstat\<close> of an entry: \<open>Inr ()\<close> for a regular file.\<close>

definition assert_regular_nosymlink :: "log_dir \<Rightarrow> string \<Rightarrow> audit_exc + unit" where
  "assert_regular_nosymlink d name = (case dict_get d name of
      None \<Rightarrow> Inl (AuditPy (OSError ''No such file''))
    | Some (Regular _ _) \<Rightarrow> Inr ()
    | Some _ \<Rightarrow> Inl AuditSecurityError)"

text \<open>\<open>read_bytes\<close>; the names in \<open>bad\<close> are files whose reads fail.\<close>

definition read_segment :: "string list \<Rightarrow> log_dir \<Rightarrow> string \<Rightarrow> audit_exc + string" where
  "read_segment bad d name = res_bind (assert_regular_nosymlink d name) (\<lambda>_.
     if name \<in> set bad then Inl (AuditPy (OSError ''Input/output error''))
     else (case dict_get d name of Some (Regular b _) \<Rightarrow> Inr b | _ \<Rightarrow> Inl AuditSecurityError))"

section \<open>Lines\<close>

text \<open>
  \<open>bytes.splitlines()\<close>: a line ends at LF, CR or CR LF. \<open>cur\<close> is the current line reversed, \<open>cr\<close>
  says that the last byte was a CR.
\<close>

fun byte_lines :: "bool \<Rightarrow> string \<Rightarrow> string \<Rightarrow> string list" where
  "byte_lines cr cur [] = (if cur = [] then [] else [rev cur])"
| "byte_lines cr cur (c # cs) =
     (if c = CHR 0x0A then (if cr then byte_lines False [] cs else rev cur # byte_lines False [] cs)
      else if c = CHR 0x0D then rev cur # byte_lines True [] cs
      else byte_lines False (c # cur) cs)"

abbreviation splitlines :: "string \<Rightarrow> string list" where
  "splitlines raw \<equiv> byte_lines False [] raw"

text \<open>\<open>not line.strip()\<close> for bytes.\<close>

definition byte_space :: "char \<Rightarrow> bool" where
  "byte_space c = (9 \<le> char_code c \<and> char_code c \<le> 13 \<or> char_code c = 32)"

definition blank :: "string \<Rightarrow> bool" where
  "blank line = list_all byte_space line"

section \<open>Verification\<close>

record vstate =
  vs_previous :: "string option"
  vs_first :: string
  vs_last :: string
  vs_sequence :: int
  vs_count :: nat

definition vstate0 :: vstate where
  "vstate0 = \<lparr>vs_previous = None, vs_first = ZERO_HASH, vs_last = ZERO_HASH, vs_sequence = 0, vs_count = 0\<rparr>"

text \<open>How the loop ends early: a report, with the state it shows, or an exception nothing catches.\<close>

datatype vstop = Reported chain_error vstate | Raised audit_exc

datatype decoded_line = LineBad | LineRaises audit_exc | LineValue pyval

text \<open>\<open>json.loads(line.decode("utf-8"))\<close> under \<open>except (UnicodeDecodeError, JSONDecodeError)\<close>.\<close>

definition decode_line :: "chain_env \<Rightarrow> string \<Rightarrow> decoded_line" where
  "decode_line env line =
     (if \<not> utf8_valid line then LineBad
      else (case loads (ce_depth env) line of
          Inr v \<Rightarrow> LineValue v
        | Inl IntTooLong \<Rightarrow> LineRaises (AuditPy (ValueError ''Exceeds the limit for integer string conversion''))
        | Inl TooDeep \<Rightarrow> LineRaises RecursionError
        | Inl _ \<Rightarrow> LineBad))"

text \<open>The required fields in sorted order.\<close>

definition required_fields :: "string list" where
  "required_fields = [''payload'', ''prev_hash'', ''record_hash'', ''source'', ''subject'', ''timestamp'']"

text \<open>\<open>isinstance(sequence, int)\<close> and the number it stands for.\<close>

definition int_value :: "pyval \<Rightarrow> int option" where
  "int_value v = (case v of PInt i \<Rightarrow> Some i | PBool b \<Rightarrow> Some (if b then 1 else 0) | _ \<Rightarrow> None)"

definition text_of :: "pyval \<Rightarrow> string" where
  "text_of v = (case v of PStr s \<Rightarrow> s | _ \<Rightarrow> [])"

definition check_sequence :: "pyval \<Rightarrow> vstate \<Rightarrow> vstop + vstate" where
  "check_sequence sequence st =
     (if sequence = PNone then Inr (st\<lparr>vs_sequence := vs_sequence st + 1\<rparr>)
      else (case int_value sequence of
          None \<Rightarrow> Inl (Reported NON_MONOTONIC_SEQUENCE st)
        | Some i \<Rightarrow> if i \<le> vs_sequence st then Inl (Reported NON_MONOTONIC_SEQUENCE st)
                    else Inr (st\<lparr>vs_sequence := i\<rparr>)))"

definition check_record :: "chain_env \<Rightarrow> pydict \<Rightarrow> vstate \<Rightarrow> vstop + vstate" where
  "check_record env decoded st =
     (let missing = filter (\<lambda>k. dict_get decoded k = None) required_fields;
          stored_hash = py_get decoded ''record_hash'';
          record_prev = py_get decoded ''prev_hash'' in
      if missing \<noteq> [] then Inl (Reported (MISSING_FIELDS missing) st)
      else if \<not> validate_hex_hash stored_hash \<or> \<not> validate_hex_hash record_prev
        then Inl (Reported INVALID_HASH_ENCODING st)
      else let st1 = (if vs_previous st = None
               then st\<lparr>vs_first := text_of record_prev, vs_previous := Some (text_of record_prev)\<rparr> else st) in
        if vs_previous st1 \<noteq> Some (text_of record_prev) then Inl (Reported PREVIOUS_HASH_MISMATCH st1)
        else (case record_hash env (dict_pop ''record_hash'' decoded) of
            Inl e \<Rightarrow> Inl (Raised (AuditPy e))
          | Inr recomputed \<Rightarrow>
              if recomputed \<noteq> text_of stored_hash then Inl (Reported RECORD_HASH_MISMATCH st1)
              else res_bind (check_sequence (py_get decoded ''sequence'') st1) (\<lambda>st2.
                Inr (st2\<lparr>vs_previous := Some (text_of stored_hash), vs_last := text_of stored_hash,
                  vs_count := Suc (vs_count st2)\<rparr>))))"

definition check_line :: "chain_env \<Rightarrow> string \<Rightarrow> vstate \<Rightarrow> vstop + vstate" where
  "check_line env line st =
     (if blank line then Inr st
      else (case decode_line env line of
          LineBad \<Rightarrow> Inl (Reported INVALID_JSON st)
        | LineRaises e \<Rightarrow> Inl (Raised e)
        | LineValue (PDict decoded) \<Rightarrow> check_record env decoded st
        | LineValue _ \<Rightarrow> Inl (Reported RECORD_NOT_OBJECT st)))"

text \<open>The loop over the lines of one segment; a stop carries the line number.\<close>

fun check_lines :: "chain_env \<Rightarrow> nat \<Rightarrow> string list \<Rightarrow> vstate \<Rightarrow> (nat \<times> vstop) + vstate" where
  "check_lines env n [] st = Inr st"
| "check_lines env n (l # ls) st = (case check_line env l st of
      Inl stop \<Rightarrow> Inl (n, stop)
    | Inr st' \<Rightarrow> check_lines env (Suc n) ls st')"

definition newline_count :: "string \<Rightarrow> nat" where
  "newline_count raw = length (filter (\<lambda>c. c = CHR 0x0A) raw)"

definition terminated :: "string \<Rightarrow> bool" where
  "terminated raw = (raw = [] \<or> last raw = CHR 0x0A)"

definition check_segment ::
  "chain_env \<Rightarrow> string list \<Rightarrow> log_dir \<Rightarrow> string \<Rightarrow> vstate \<Rightarrow> (nat option \<times> vstop) + vstate" where
  "check_segment env bad d segment st = (case read_segment bad d segment of
      Inl _ \<Rightarrow> Inl (None, Reported SEGMENT_READ_FAILED st)
    | Inr raw \<Rightarrow>
        if \<not> terminated raw then Inl (Some (newline_count raw + 1), Reported TRAILING_PARTIAL_RECORD st)
        else (case check_lines env 1 (splitlines raw) st of
            Inl (n, stop) \<Rightarrow> Inl (Some n, stop)
          | Inr st' \<Rightarrow> Inr st'))"

fun check_segments ::
  "chain_env \<Rightarrow> string list \<Rightarrow> log_dir \<Rightarrow> string list \<Rightarrow> vstate \<Rightarrow> (string \<times> nat option \<times> vstop) + vstate" where
  "check_segments env bad d [] st = Inr st"
| "check_segments env bad d (s # ss) st = (case check_segment env bad d s st of
      Inl stop \<Rightarrow> Inl (s, stop)
    | Inr st' \<Rightarrow> check_segments env bad d ss st')"

definition report_of :: "vstate \<Rightarrow> nat \<Rightarrow> bool \<Rightarrow> string option \<Rightarrow> integrity_report" where
  "report_of st segments repaired artifact =
     \<lparr>ir_valid = True, ir_record_count = vs_count st, ir_segment_count = segments,
      ir_coverage = (if vs_first st = ZERO_HASH then ''FULL_FROM_GENESIS'' else ''RETAINED_WINDOW''),
      ir_first_prev_hash = vs_first st, ir_last_hash = vs_last st, ir_last_sequence = vs_sequence st,
      ir_error = None, ir_error_segment = None, ir_error_line = None,
      ir_repaired = repaired, ir_artifact = artifact\<rparr>"

definition failure_of ::
  "chain_error \<Rightarrow> string \<Rightarrow> nat option \<Rightarrow> vstate \<Rightarrow> nat \<Rightarrow> bool \<Rightarrow> string option \<Rightarrow> integrity_report" where
  "failure_of err segment line st segments repaired artifact =
     \<lparr>ir_valid = False, ir_record_count = vs_count st, ir_segment_count = segments, ir_coverage = ''UNKNOWN'',
      ir_first_prev_hash = vs_first st, ir_last_hash = vs_last st, ir_last_sequence = vs_sequence st,
      ir_error = Some err, ir_error_segment = Some segment, ir_error_line = line,
      ir_repaired = repaired, ir_artifact = artifact\<rparr>"

text \<open>\<open>log_path\<close> turns an entry's name into the path the report shows.\<close>

definition verify_audit_directory ::
  "chain_env \<Rightarrow> (string \<Rightarrow> string) \<Rightarrow> string list \<Rightarrow> string \<Rightarrow> bool \<Rightarrow> string option \<Rightarrow> log_dir \<Rightarrow>
    audit_exc + integrity_report" where
  "verify_audit_directory env log_path bad file_name repaired artifact d =
     (let segments = segments_for file_name d in
      case check_segments env bad d segments vstate0 of
        Inr st \<Rightarrow> Inr (report_of st (length segments) repaired artifact)
      | Inl (segment, line, Reported err st) \<Rightarrow>
          Inr (failure_of err (log_path segment) line st (length segments) repaired artifact)
      | Inl (_, _, Raised e) \<Rightarrow> Inl e)"

section \<open>Lines of a log\<close>

lemma byte_lines_break:
  "byte_lines cr cur (x @ CHR 0x0A # y) = byte_lines cr cur (x @ [CHR 0x0A]) @ splitlines y"
  by (induction cr cur x rule: byte_lines.induct) auto

lemma splitlines_append: "terminated x \<Longrightarrow> splitlines (x @ y) = splitlines x @ splitlines y"
  using byte_lines_break [of False "[]" "butlast x" y]
  by (cases x rule: rev_cases) (auto simp: terminated_def)

lemma byte_lines_plain:
  "CHR 0x0A \<notin> set l \<Longrightarrow> CHR 0x0D \<notin> set l \<Longrightarrow> byte_lines False cur (l @ [CHR 0x0A]) = [rev cur @ l]"
  by (induction l arbitrary: cur) auto

lemma splitlines_line:
  "CHR 0x0A \<notin> set l \<Longrightarrow> CHR 0x0D \<notin> set l \<Longrightarrow> splitlines (l @ [CHR 0x0A]) = [l]"
  using byte_lines_plain [of l "[]"] by simp

text \<open>The same loop without line numbers.\<close>

fun run_lines :: "chain_env \<Rightarrow> string list \<Rightarrow> vstate \<Rightarrow> vstop + vstate" where
  "run_lines env [] st = Inr st"
| "run_lines env (l # ls) st = res_bind (check_line env l st) (run_lines env ls)"

lemma check_lines_Inr: "check_lines env n ls st = Inr st' \<longleftrightarrow> run_lines env ls st = Inr st'"
  by (induction ls arbitrary: n st) (auto simp: res_bind_def split: sum.splits)

lemma run_lines_append: "run_lines env (ls @ ms) st = res_bind (run_lines env ls st) (run_lines env ms)"
  by (induction ls arbitrary: st) (auto simp: res_bind_def split: sum.splits)

definition segment_bytes :: "log_dir \<Rightarrow> string \<Rightarrow> string" where
  "segment_bytes d name = (case dict_get d name of Some (Regular b _) \<Rightarrow> b | _ \<Rightarrow> [])"

definition segment_ok :: "string list \<Rightarrow> log_dir \<Rightarrow> string \<Rightarrow> bool" where
  "segment_ok bad d name \<longleftrightarrow> (\<exists>b m. dict_get d name = Some (Regular b m) \<and> terminated b) \<and> name \<notin> set bad"

definition log_lines :: "string \<Rightarrow> log_dir \<Rightarrow> string list" where
  "log_lines file_name d = concat (map (\<lambda>s. splitlines (segment_bytes d s)) (segments_for file_name d))"

lemma read_segment_Inr:
  "read_segment bad d name = Inr b \<longleftrightarrow> (\<exists>m. dict_get d name = Some (Regular b m)) \<and> name \<notin> set bad"
  by (auto simp: read_segment_def assert_regular_nosymlink_def res_bind_eq_Inr split: option.splits node.splits)

lemma check_segment_Inr:
  "check_segment env bad d s st = Inr st' \<longleftrightarrow>
     segment_ok bad d s \<and> run_lines env (splitlines (segment_bytes d s)) st = Inr st'"
proof (cases "read_segment bad d s")
  case (Inl e)
  then have "\<not> segment_ok bad d s"
    using read_segment_Inr [of bad d s] by (fastforce simp: segment_ok_def)
  then show ?thesis using Inl by (simp add: check_segment_def)
next
  case (Inr b)
  then obtain m where "dict_get d s = Some (Regular b m)" "s \<notin> set bad" by (auto simp: read_segment_Inr)
  then show ?thesis using Inr
    by (auto simp: check_segment_def segment_ok_def segment_bytes_def check_lines_Inr [of env 1, symmetric] split: sum.splits)
qed

lemma check_segments_Inr:
  "check_segments env bad d ss st = Inr st' \<longleftrightarrow>
     list_all (segment_ok bad d) ss \<and>
     run_lines env (concat (map (\<lambda>s. splitlines (segment_bytes d s)) ss)) st = Inr st'"
proof (induction ss arbitrary: st)
  case (Cons s ss)
  show ?case
  proof (cases "check_segment env bad d s st")
    case (Inl e)
    then have "\<not> (segment_ok bad d s \<and> run_lines env (splitlines (segment_bytes d s)) st = Inr x)" for x
      using check_segment_Inr [of env bad d s st x] by simp
    then show ?thesis using Inl by (auto simp: run_lines_append res_bind_eq_Inr)
  next
    case (Inr x)
    then have "segment_ok bad d s" "run_lines env (splitlines (segment_bytes d s)) st = Inr x"
      by (simp_all add: check_segment_Inr)
    then show ?thesis using Inr Cons.IH [of x] by (simp add: run_lines_append)
  qed
qed simp

text \<open>A directory verifies when its segments are whole files and its lines form a chain.\<close>

definition log_verifies :: "chain_env \<Rightarrow> string list \<Rightarrow> string \<Rightarrow> log_dir \<Rightarrow> vstate \<Rightarrow> bool" where
  "log_verifies env bad file_name d st \<longleftrightarrow> list_all (segment_ok bad d) (segments_for file_name d) \<and>
     run_lines env (log_lines file_name d) vstate0 = Inr st"

lemma verify_valid_iff:
  "(\<exists>rep. verify_audit_directory env lp bad file_name repaired artifact d = Inr rep \<and> ir_valid rep) \<longleftrightarrow>
   (\<exists>st. log_verifies env bad file_name d st)"
  by (auto simp: verify_audit_directory_def log_verifies_def log_lines_def Let_def failure_of_def report_of_def
      check_segments_Inr [symmetric] split: sum.splits vstop.splits prod.splits)

lemma verify_of_log:
  "log_verifies env bad file_name d st \<Longrightarrow> verify_audit_directory env lp bad file_name repaired artifact d =
     Inr (report_of st (length (segments_for file_name d)) repaired artifact)"
  by (auto simp: verify_audit_directory_def log_verifies_def log_lines_def Let_def check_segments_Inr [symmetric])

lemma verify_valid_log:
  assumes "verify_audit_directory env lp bad file_name repaired artifact d = Inr rep" and "ir_valid rep"
  shows "\<exists>st. log_verifies env bad file_name d st \<and>
    rep = report_of st (length (segments_for file_name d)) repaired artifact"
proof -
  obtain st where st: "log_verifies env bad file_name d st" using assms verify_valid_iff by blast
  then show ?thesis using verify_of_log [OF st, of lp repaired artifact] assms by auto
qed

section \<open>The records of a chain\<close>

definition stored_hash :: "pydict \<Rightarrow> string" where
  "stored_hash r = text_of (py_get r ''record_hash'')"

definition prev_hash :: "pydict \<Rightarrow> string" where
  "prev_hash r = text_of (py_get r ''prev_hash'')"

definition record_of_line :: "chain_env \<Rightarrow> string \<Rightarrow> pydict" where
  "record_of_line env line = (case decode_line env line of LineValue (PDict r) \<Rightarrow> r | _ \<Rightarrow> [])"

definition log_records :: "chain_env \<Rightarrow> string list \<Rightarrow> pydict list" where
  "log_records env ls = map (record_of_line env) (filter (\<lambda>l. \<not> blank l) ls)"

text \<open>What an accepted record satisfies.\<close>

definition sealed :: "chain_env \<Rightarrow> pydict \<Rightarrow> bool" where
  "sealed env r \<longleftrightarrow> validate_hex_hash (py_get r ''record_hash'') \<and> validate_hex_hash (py_get r ''prev_hash'') \<and>
     record_hash env (dict_pop ''record_hash'' r) = Inr (stored_hash r)"

lemma check_sequence_Inr:
  "check_sequence s st = Inr st' \<longleftrightarrow>
     (if s = PNone then st' = st\<lparr>vs_sequence := vs_sequence st + 1\<rparr>
      else \<exists>i. int_value s = Some i \<and> vs_sequence st < i \<and> st' = st\<lparr>vs_sequence := i\<rparr>)"
  by (auto simp: check_sequence_def split: option.splits if_splits)

text \<open>The state after an accepted record.\<close>

definition next_sequence :: "pydict \<Rightarrow> vstate \<Rightarrow> int" where
  "next_sequence r st = (case int_value (py_get r ''sequence'') of Some i \<Rightarrow> i | None \<Rightarrow> vs_sequence st + 1)"

definition sequence_ok :: "pydict \<Rightarrow> vstate \<Rightarrow> bool" where
  "sequence_ok r st \<longleftrightarrow> py_get r ''sequence'' = PNone \<or>
     (\<exists>i. int_value (py_get r ''sequence'') = Some i \<and> vs_sequence st < i)"

definition after_record :: "pydict \<Rightarrow> vstate \<Rightarrow> vstate" where
  "after_record r st = \<lparr>vs_previous = Some (stored_hash r),
     vs_first = (if vs_previous st = None then prev_hash r else vs_first st),
     vs_last = stored_hash r, vs_sequence = next_sequence r st, vs_count = Suc (vs_count st)\<rparr>"

lemma check_record_Inr:
  "check_record env r st = Inr st' \<longleftrightarrow>
     list_all (\<lambda>k. dict_get r k \<noteq> None) required_fields \<and> sealed env r \<and>
     (vs_previous st = None \<or> vs_previous st = Some (prev_hash r)) \<and> sequence_ok r st \<and> st' = after_record r st"
  by (cases st; cases "vs_previous st")
    (auto simp: check_record_def sealed_def check_sequence_Inr res_bind_eq_Inr Let_def stored_hash_def prev_hash_def
      after_record_def next_sequence_def sequence_ok_def filter_empty_conv list_all_iff int_value_def split: sum.splits if_splits)

lemma check_line_Inr:
  "check_line env l st = Inr st' \<longleftrightarrow>
     (if blank l then st' = st
      else \<exists>r. decode_line env l = LineValue (PDict r) \<and> check_record env r st = Inr st')"
  by (auto simp: check_line_def split: decoded_line.splits pyval.splits)

text \<open>Each record names the hash of the one before it; \<open>p\<close> is the hash expected first, if any.\<close>

fun linked :: "chain_env \<Rightarrow> string option \<Rightarrow> pydict list \<Rightarrow> string option \<Rightarrow> bool" where
  "linked env p [] q = (p = q)"
| "linked env p (r # rs) q = (sealed env r \<and> (p = None \<or> p = Some (prev_hash r)) \<and>
     linked env (Some (stored_hash r)) rs q)"

lemma log_records_simps [simp]:
  "log_records env [] = []"
  "log_records env (l # ls) = (if blank l then log_records env ls else record_of_line env l # log_records env ls)"
  "log_records env (ls @ ms) = log_records env ls @ log_records env ms"
  by (simp_all add: log_records_def)

lemma run_lines_linked:
  "run_lines env ls st = Inr st' \<Longrightarrow> linked env (vs_previous st) (log_records env ls) (vs_previous st')"
proof (induction ls arbitrary: st)
  case (Cons l ls)
  then obtain s1 where 1: "check_line env l st = Inr s1" "run_lines env ls s1 = Inr st'" by (auto simp: res_bind_eq_Inr)
  then show ?case using Cons.IH [OF 1(2)]
    by (auto simp: check_line_Inr check_record_Inr after_record_def record_of_line_def split: if_splits)
qed simp

lemma check_line_previous:
  "check_line env l st = Inr st' \<Longrightarrow> if blank l then st' = st else vs_previous st' = Some (vs_last st')"
  by (auto simp: check_line_Inr check_record_Inr after_record_def split: if_splits)

lemma run_lines_some:
  "run_lines env ls st = Inr st' \<Longrightarrow> vs_previous st = Some (vs_last st) \<Longrightarrow> vs_previous st' = Some (vs_last st')"
proof (induction ls arbitrary: st)
  case (Cons l ls)
  then obtain s1 where 1: "check_line env l st = Inr s1" "run_lines env ls s1 = Inr st'" by (auto simp: res_bind_eq_Inr)
  show ?case using Cons.IH [OF 1(2)] check_line_previous [OF 1(1)] Cons.prems(2) by (auto split: if_splits)
qed simp

lemma run_lines_previous:
  "run_lines env ls st = Inr st' \<Longrightarrow>
     (if log_records env ls = [] then st' = st else vs_previous st' = Some (vs_last st'))"
proof (induction ls arbitrary: st)
  case (Cons l ls)
  then obtain s1 where 1: "check_line env l st = Inr s1" "run_lines env ls s1 = Inr st'" by (auto simp: res_bind_eq_Inr)
  show ?case using Cons.IH [OF 1(2)] check_line_previous [OF 1(1)] run_lines_some [OF 1(2)] by auto
qed simp

lemma linked_snoc:
  "linked env p (rs @ [r]) q \<longleftrightarrow> (\<exists>p'. linked env p rs p' \<and> sealed env r \<and> (p' = None \<or> p' = Some (prev_hash r)) \<and>
     q = Some (stored_hash r))"
  by (induction rs arbitrary: p) auto

lemma linked_Some: "linked env p rs q \<Longrightarrow> rs \<noteq> [] \<Longrightarrow> \<exists>h. q = Some h"
  by (cases rs rule: rev_cases) (auto simp: linked_snoc)

section \<open>Tamper evidence\<close>

text \<open>What the hash covers: the hashed text of the record without its hash.\<close>

definition hashed_text :: "chain_env \<Rightarrow> pydict \<Rightarrow> string" where
  "hashed_text env r = (case hash_input env (dict_pop ''record_hash'' r) of Inr t \<Rightarrow> t | Inl _ \<Rightarrow> [])"

definition current_schema :: "pydict \<Rightarrow> bool" where
  "current_schema r = py_eq (py_get r ''schema_version'') (PStr SCHEMA_VERSION)"

text \<open>The floats of a record of the current schema print so that they read back.\<close>

definition printable :: "chain_env \<Rightarrow> pydict \<Rightarrow> bool" where
  "printable env r = (current_schema r \<longrightarrow> json_ok (compact_style (ce_float env)) (PDict r))"

lemma sealed_hashed: "sealed env r \<Longrightarrow> stored_hash r = ce_sha256 env (hashed_text env r)"
  by (auto simp: sealed_def record_hash_def hashed_text_def res_bind_eq_Inr)

lemma json_ok_pop: "json_ok st (PDict r) \<Longrightarrow> json_ok st (PDict (dict_pop k r))"
  by (auto simp: list_all_iff dict_pop_def dict_ok_def distinct_map_filter)

lemma prev_hash_hex: "sealed env r \<Longrightarrow> length (prev_hash r) = 64 \<and> list_all hex_digit (prev_hash r) \<and>
    dict_get r ''prev_hash'' = Some (PStr (prev_hash r))"
  by (auto simp: sealed_def validate_hex_hash_def prev_hash_def text_of_def py_get_def dict_get_or_def
      split: pyval.splits option.splits)

text \<open>The hashed text of either schema; it determines the previous hash.\<close>

lemma hashed_text_cases:
  assumes "sealed env r"
  shows "if current_schema r
    then dumps (compact_style (ce_float env)) (sort_value (PDict (dict_pop ''record_hash'' r))) = Inr (hashed_text env r)
    else \<exists>u. hashed_text env r = prev_hash r @ u"
proof -
  have get: "dict_get_or (dict_pop ''record_hash'' r) k v = dict_get_or r k v" if "k \<noteq> ''record_hash''" for k v
    using that by (simp add: dict_get_or_def)
  have "str_or_zero (dict_pop ''record_hash'' r) = prev_hash r"
    using prev_hash_hex [OF assms] by (simp add: str_or_zero_def dict_get_or_def)
  moreover obtain t where "hash_input env (dict_pop ''record_hash'' r) = Inr t"
    using assms by (auto simp: sealed_def record_hash_def res_bind_eq_Inr)
  ultimately show ?thesis
    by (auto simp: hashed_text_def hash_input_def current_schema_def py_get_def get canonical_json_def res_bind_eq_Inr
        encode_utf8_def split: if_splits)
qed

lemma dict_text_brace: "dumps st (sort_value (PDict d)) = Inr t \<Longrightarrow> \<exists>u. t = CHR ''{'' # u"
  by (auto simp: res_bind_eq_Inr enclose_start)

lemma mixed_schema_texts:
  assumes "sealed env r" "sealed env r'" "current_schema r" "\<not> current_schema r'"
  shows "hashed_text env r \<noteq> hashed_text env r'"
proof
  assume eq: "hashed_text env r = hashed_text env r'"
  obtain u where u: "hashed_text env r = CHR ''{'' # u"
    using dict_text_brace hashed_text_cases [OF assms(1)] assms(3) by fastforce
  obtain v where v: "hashed_text env r' = prev_hash r' @ v" using hashed_text_cases [OF assms(2)] assms(4) by auto
  have hex: "length (prev_hash r') = 64" "list_all hex_digit (prev_hash r')" using prev_hash_hex [OF assms(2)] by auto
  then obtain c cs where "prev_hash r' = c # cs" "hex_digit c" by (cases "prev_hash r'") auto
  then show False using eq u v by (auto simp: hex_digit_def is_digit_def char_code_def)
qed

lemma hashed_text_prev:
  assumes "sealed env r" "sealed env r'" "printable env r" "printable env r'"
    and eq: "hashed_text env r = hashed_text env r'"
  shows "prev_hash r = prev_hash r'"
proof -
  let ?st = "compact_style (ce_float env)"
  let ?e = "dict_pop ''record_hash'' r" and ?e' = "dict_pop ''record_hash'' r'"
  have same: "current_schema r = current_schema r'"
    using mixed_schema_texts [OF assms(1,2)] mixed_schema_texts [OF assms(2,1)] eq by metis
  show ?thesis
  proof (cases "current_schema r")
    case True
    then have ok: "json_ok ?st (PDict ?e)" "json_ok ?st (PDict ?e')"
      using assms(3,4) same json_ok_pop by (simp_all add: printable_def)
    have "sort_value (PDict ?e) = sort_value (PDict ?e')"
      using hashed_text_cases [OF assms(1)] hashed_text_cases [OF assms(2)] True same eq
      by (intro dumps_inject [OF compact_style_ok _ _ json_ok_sort [OF ok(1)] json_ok_sort [OF ok(2)]]) simp_all
    moreover have "dict_ok ?e" "dict_ok ?e'" using ok by simp_all
    ultimately have "map_option sort_value (dict_get ?e ''prev_hash'') = map_option sort_value (dict_get ?e' ''prev_hash'')"
      using sort_value_get by (metis pyval.inject(6))
    then show ?thesis using prev_hash_hex [OF assms(1)] prev_hash_hex [OF assms(2)] by simp
  next
    case False
    then obtain u u' where "hashed_text env r = prev_hash r @ u" "hashed_text env r' = prev_hash r' @ u'"
      using hashed_text_cases [OF assms(1)] hashed_text_cases [OF assms(2)] same by auto
    then show ?thesis using prev_hash_hex [OF assms(1)] prev_hash_hex [OF assms(2)] eq by simp
  qed
qed

text \<open>
  Two chains with the same last hash agree backwards from the end, as long as the digest has no
  collision among their records.
\<close>

lemma linked_agree:
  assumes "linked env p rs (Some h)" and "linked env p' rs' (Some h)"
    and "list_all (printable env) rs" and "list_all (printable env) rs'"
    and "inj_on (ce_sha256 env) (hashed_text env ` (set rs \<union> set rs'))"
  shows "suffix (map (hashed_text env) rs) (map (hashed_text env) rs') \<or>
    suffix (map (hashed_text env) rs') (map (hashed_text env) rs)"
  using assms
proof (induction rs arbitrary: rs' h rule: rev_induct)
  case (snoc r rs)
  note chain = snoc.prems(1,2) and print = snoc.prems(3,4) and inj = snoc.prems(5) and IH = snoc.IH
  show ?case
  proof (cases rs' rule: rev_cases)
    case qs: (snoc qs q)
    have r: "sealed env r" "h = stored_hash r" and q: "sealed env q" "h = stored_hash q"
      using chain qs by (auto simp: linked_snoc)
    have "ce_sha256 env (hashed_text env r) = ce_sha256 env (hashed_text env q)"
      using r q sealed_hashed by metis
    then have eq: "hashed_text env r = hashed_text env q"
      by (rule inj_onD [OF inj]) (simp_all add: qs)
    then have prev: "prev_hash r = prev_hash q"
      using print qs r q by (intro hashed_text_prev) auto
    obtain a b where ab: "linked env p rs a" "a = None \<or> a = Some (prev_hash r)"
      "linked env p' qs b" "b = None \<or> b = Some (prev_hash r)"
      using chain qs prev by (auto simp: linked_snoc)
    show ?thesis
    proof (cases "rs = [] \<or> qs = []")
      case True
      then show ?thesis using qs eq by (auto simp: suffix_def)
    next
      case False
      then have h: "a = Some (prev_hash r)" "b = Some (prev_hash r)" using ab linked_Some by blast+
      have "inj_on (ce_sha256 env) (hashed_text env ` (set rs \<union> set qs))"
        by (rule inj_on_subset [OF inj]) (auto simp: qs)
      then have "suffix (map (hashed_text env) rs) (map (hashed_text env) qs) \<or>
          suffix (map (hashed_text env) qs) (map (hashed_text env) rs)"
        using IH [of "prev_hash r" qs] ab(1,3) h print qs by simp
      then show ?thesis using qs eq by simp
    qed
  qed simp
qed simp

end
