(* ===== verification/Audit_Writer.thy ===== *)
theory Audit_Writer
  imports Audit_Chain Effects Py_Path
begin

text \<open>
  The audit writer, class \<open>AuditLogger\<close> of \<open>audit/audit_logger.py\<close>: startup with repair and
  recovery, appending with rotation, and reading back. The methods hold a thread lock and a process
  lock for their whole body, so each is one operation on the state.

  Every call into the operating system that changes something takes its outcome from \<open>au_script\<close>:
  it succeeds, fails with an \<open>OSError\<close>, or (for a write) transfers fewer bytes. An exhausted script
  means success. Reads fail for the names in \<open>au_bad\<close>.
\<close>

section \<open>State\<close>

datatype os_outcome = Done | Wrote nat | Failed

datatype root_node = RootMissing | RootDir nat | RootLink | RootOther

record audit =
  au_root :: root_node
  au_dir :: log_dir
  au_artifacts :: "(string, string) dict" \<comment> \<open>the files below \<open>corrupt/\<close>\<close>
  au_bad :: "string list"
  au_script :: "os_outcome list"
  au_last_hash :: string
  au_last_sequence :: int
  au_repaired :: bool
  au_artifact :: "string option"

record audit_cfg =
  ac_log_dir :: string
  ac_file_name :: string
  ac_dir_mode :: nat
  ac_file_mode :: nat
  ac_max_bytes :: int
  ac_backup_count :: int
  ac_max_record_bytes :: int
  ac_corruption_policy :: string
  ac_repair :: bool

text \<open>The chain's environment, the interpreter's renderings, and the values one call draws.\<close>

record audit_env =
  ae_chain :: chain_env
  ae_detail :: "chain_error \<Rightarrow> string"
  ae_render :: "pyval \<Rightarrow> string"
  ae_repr :: "pyval \<Rightarrow> string"

record tick =
  tk_clock :: pyfloat
  tk_uuid :: nat
  tk_ns :: nat

type_synonym 'a audit_op = "(audit, audit_exc, 'a) eff"

section \<open>Operating-system calls\<close>

definition pop_outcome :: "os_outcome audit_op" where
  "pop_outcome = (\<lambda>s. case au_script s of [] \<Rightarrow> (Inr Done, s) | x # xs \<Rightarrow> (Inr x, s\<lparr>au_script := xs\<rparr>))"

definition os_call :: "(audit \<Rightarrow> audit_exc + audit) \<Rightarrow> unit audit_op" where
  "os_call f = eff_bind pop_outcome (\<lambda>outcome.
     if outcome = Failed then eff_raise (AuditPy (OSError ''injected''))
     else (\<lambda>s. case f s of Inl e \<Rightarrow> (Inl e, s) | Inr s' \<Rightarrow> (Inr (), s')))"

definition set_node :: "string \<Rightarrow> node \<Rightarrow> audit \<Rightarrow> audit" where
  "set_node name x s = s\<lparr>au_dir := dict_set name x (au_dir s)\<rparr>"

definition chmod_node :: "nat \<Rightarrow> string \<Rightarrow> audit \<Rightarrow> audit_exc + audit" where
  "chmod_node mode name s = (case dict_get (au_dir s) name of
      None \<Rightarrow> Inl (AuditPy (OSError ''No such file''))
    | Some (Regular b _) \<Rightarrow> Inr (set_node name (Regular b mode) s)
    | Some _ \<Rightarrow> Inr s)"

definition replace_node :: "string \<Rightarrow> string \<Rightarrow> audit \<Rightarrow> audit_exc + audit" where
  "replace_node src dst s = (case dict_get (au_dir s) src of
      None \<Rightarrow> Inl (AuditPy (OSError ''No such file''))
    | Some x \<Rightarrow> if dict_get (au_dir s) dst = Some Directory then Inl (AuditPy (OSError ''Is a directory''))
        else Inr (s\<lparr>au_dir := dict_set dst x (dict_pop src (au_dir s))\<rparr>))"

definition unlink_node :: "string \<Rightarrow> audit \<Rightarrow> audit_exc + audit" where
  "unlink_node name s = (case dict_get (au_dir s) name of
      None \<Rightarrow> Inl (AuditPy (OSError ''No such file''))
    | Some _ \<Rightarrow> Inr (s\<lparr>au_dir := dict_pop name (au_dir s)\<rparr>))"

text \<open>\<open>_fsync_directory\<close> and \<open>os.fsync\<close> change nothing a later read can see.\<close>

definition fsync :: "unit audit_op" where
  "fsync = os_call Inr"

text \<open>\<open>_open_secure\<close> for writing without \<open>O_EXCL\<close>: links are refused, as is what is not a regular file.\<close>

definition open_secure :: "bool \<Rightarrow> nat \<Rightarrow> string \<Rightarrow> unit audit_op" where
  "open_secure create mode name = os_call (\<lambda>s. case dict_get (au_dir s) name of
      None \<Rightarrow> if create then Inr (set_node name (Regular [] mode) s) else Inl (AuditPy (OSError ''No such file''))
    | Some (Regular _ _) \<Rightarrow> Inr s
    | Some (Special _) \<Rightarrow> Inl AuditSecurityError
    | Some _ \<Rightarrow> Inl (AuditPy (OSError ''Too many levels of symbolic links'')))"

text \<open>The same with \<open>O_CREAT | O_EXCL\<close>, for a new file below \<open>corrupt/\<close>.\<close>

definition open_artifact :: "string \<Rightarrow> unit audit_op" where
  "open_artifact name = os_call (\<lambda>s. if dict_get (au_artifacts s) name \<noteq> None then Inl (AuditPy (OSError ''File exists''))
     else Inr (s\<lparr>au_artifacts := dict_set name [] (au_artifacts s)\<rparr>))"

text \<open>One \<open>os.write\<close>: the number of bytes it takes.\<close>

definition write_count :: "string \<Rightarrow> nat audit_op" where
  "write_count view = eff_bind pop_outcome (\<lambda>outcome. case outcome of
      Failed \<Rightarrow> eff_raise (AuditPy (OSError ''injected''))
    | Done \<Rightarrow> eff_return (length view)
    | Wrote n \<Rightarrow> eff_return (min n (length view)))"

definition append_node :: "string \<Rightarrow> string \<Rightarrow> audit \<Rightarrow> audit" where
  "append_node name data s = (case dict_get (au_dir s) name of
      Some (Regular b m) \<Rightarrow> set_node name (Regular (b @ data) m) s
    | _ \<Rightarrow> s)"

definition write_log :: "string \<Rightarrow> string \<Rightarrow> nat audit_op" where
  "write_log name view = eff_bind (write_count view) (\<lambda>n.
     eff_bind (eff_modify (append_node name (take n view))) (\<lambda>_. eff_return n))"

definition write_artifact :: "string \<Rightarrow> string \<Rightarrow> unit audit_op" where
  "write_artifact name data = eff_bind (write_count data) (\<lambda>n. eff_modify (\<lambda>s.
     s\<lparr>au_artifacts := dict_set name (take n data) (au_artifacts s)\<rparr>))"

text \<open>\<open>Path.exists\<close> follows links, \<open>Path.is_symlink\<close> does not.\<close>

definition node_exists :: "node option \<Rightarrow> bool" where
  "node_exists x = (case x of None \<Rightarrow> False | Some (Symlink None) \<Rightarrow> False | Some _ \<Rightarrow> True)"

definition node_size :: "node option \<Rightarrow> nat" where
  "node_size x = (case x of
      Some (Regular b _) \<Rightarrow> length b
    | Some (Symlink (Some b)) \<Rightarrow> length b
    | Some (Special n) \<Rightarrow> n
    | Some Directory \<Rightarrow> 4096
    | _ \<Rightarrow> 0)"

section \<open>Record contents\<close>

text \<open>The argument values \<open>_safe_value\<close> distinguishes.\<close>

datatype rawval =
    RNone
  | RBool bool
  | RInt int
  | RStr string
  | RFloat pyfloat
  | RBytes string
  | RPath string
  | RDataclass "(string \<times> rawval) list"
  | RMapping "(pyval \<times> rawval) list"
  | RSequence "rawval list"
  | RSet "rawval list"
  | ROther string string

definition hex_of_bytes :: "string \<Rightarrow> string" where
  "hex_of_bytes b = concat (map (\<lambda>c. [hex_char (char_code c div 16), hex_char (char_code c mod 16)]) b)"

definition safe_float :: "pyfloat \<Rightarrow> pyval" where
  "safe_float f = (case f of NaN \<Rightarrow> PStr ''nan'' | PosInf \<Rightarrow> PStr ''inf'' | NegInf \<Rightarrow> PStr ''-inf'' | Fin _ \<Rightarrow> PFloat f)"

fun safe_value :: "audit_env \<Rightarrow> rawval \<Rightarrow> pyval" where
  "safe_value env RNone = PNone"
| "safe_value env (RBool b) = PBool b"
| "safe_value env (RInt i) = PInt i"
| "safe_value env (RStr s) = PStr s"
| "safe_value env (RFloat f) = safe_float f"
| "safe_value env (RBytes b) = PDict [(''type'', PStr ''bytes''), (''hex'', PStr (hex_of_bytes b))]"
| "safe_value env (RPath p) = PStr p"
| "safe_value env (RDataclass fs) = PDict (map (\<lambda>kv. (fst kv, safe_value env (snd kv))) fs)"
| "safe_value env (RMapping kvs) =
     PDict (dict_update [] (map (\<lambda>kv. (py_str (ae_render env) (fst kv), safe_value env (snd kv))) kvs))"
| "safe_value env (RSequence xs) = PList (map (safe_value env) xs)"
| "safe_value env (RSet xs) = PList (sort_key (ae_repr env) (map (safe_value env) xs))"
| "safe_value env (ROther ty r) = PDict [(''type'', PStr ty), (''repr'', PStr r)]"

text \<open>\<open>not s.strip()\<close>: only characters Python counts as white space, those outside ASCII in their UTF-8 bytes.\<close>

definition wide_space :: "char \<Rightarrow> char \<Rightarrow> char \<Rightarrow> bool" where
  "wide_space a b c = ((char_code a, char_code b, char_code c) \<in>
       {(0xE1, 0x9A, 0x80), (0xE2, 0x81, 0x9F), (0xE3, 0x80, 0x80)} \<or>
     char_code a = 0xE2 \<and> char_code b = 0x80 \<and>
       (0x80 \<le> char_code c \<and> char_code c \<le> 0x8A \<or> char_code c \<in> {0xA8, 0xA9, 0xAF}))"

fun is_blank :: "string \<Rightarrow> bool" where
  "is_blank [] = True"
| "is_blank [a] = is_space a"
| "is_blank [a, b] = (if is_space a then is_blank [b] else char_code a = 0xC2 \<and> char_code b \<in> {0x85, 0xA0})"
| "is_blank (a # b # c # s) = (if is_space a then is_blank (b # c # s)
     else if char_code a = 0xC2 \<and> char_code b \<in> {0x85, 0xA0} then is_blank (c # s)
     else wide_space a b c \<and> is_blank s)"

definition check_label :: "string \<Rightarrow> pyval \<Rightarrow> audit_exc + string" where
  "check_label name v = (case v of
      PStr s \<Rightarrow>
        if is_blank s then Inl (AuditPy (ValueError (name @ '' must be a non-empty string'')))
        else if text_length s > 128 then Inl (AuditPy (ValueError (name @ '' exceeds 128 characters'')))
        else if \<not> list_all (\<lambda>c. 32 \<le> char_code c) s then Inl (AuditPy (ValueError (name @ '' contains control characters'')))
        else Inr s
    | _ \<Rightarrow> Inl (AuditPy (ValueError (name @ '' must be a non-empty string''))))"

definition validate_record_input :: "pyval \<Rightarrow> pyval \<Rightarrow> rawval \<Rightarrow> audit_exc + string \<times> string" where
  "validate_record_input source subject payload =
     res_bind (check_label ''source'' source) (\<lambda>a. res_bind (check_label ''subject'' subject) (\<lambda>b.
       case payload of RMapping _ \<Rightarrow> Inr (a, b) | _ \<Rightarrow> Inl (AuditPy TypeError)))"

definition lift_py :: "pyexc + 'a \<Rightarrow> audit_exc + 'a" where
  "lift_py r = (case r of Inl e \<Rightarrow> Inl (AuditPy e) | Inr x \<Rightarrow> Inr x)"

definition build_entry ::
  "audit_env \<Rightarrow> tick \<Rightarrow> string \<Rightarrow> string \<Rightarrow> rawval \<Rightarrow> string \<Rightarrow> int \<Rightarrow> audit_exc + pydict" where
  "build_entry env tk source subject payload last_hash last_sequence =
     res_bind (lift_py (utc_isoformat (tk_clock tk))) (\<lambda>utc.
       let entry =
         [(''schema_version'', PStr SCHEMA_VERSION),
          (''record_id'', PStr (hex_digits 32 (tk_uuid tk))),
          (''sequence'', PInt (last_sequence + 1)),
          (''timestamp'', PFloat (tk_clock tk)),
          (''timestamp_utc'', PStr utc),
          (''source'', PStr source),
          (''subject'', PStr subject),
          (''payload'', safe_value env payload),
          (''prev_hash'', PStr last_hash)]
       in res_bind (lift_py (record_hash (ae_chain env) entry)) (\<lambda>h. Inr (dict_set ''record_hash'' (PStr h) entry)))"

section \<open>Rotation\<close>

definition rotated_name :: "audit_cfg \<Rightarrow> nat \<Rightarrow> string" where
  "rotated_name cfg i = ac_file_name cfg @ ''.'' @ pad_nat 6 i"

definition next_rotation_index :: "audit_cfg \<Rightarrow> log_dir \<Rightarrow> nat" where
  "next_rotation_index cfg d = fold max (map fst (rotated_segments (ac_file_name cfg) d)) 0 + 1"

text \<open>The rotated segments beyond the backup count, oldest first.\<close>

definition surplus :: "audit_cfg \<Rightarrow> log_dir \<Rightarrow> string list" where
  "surplus cfg d = (let rotated = filter (\<lambda>n. n \<noteq> ac_file_name cfg) (segments_for (ac_file_name cfg) d) in
     take (length rotated - nat (ac_backup_count cfg)) rotated)"

definition rotate_locked :: "audit_cfg \<Rightarrow> string option audit_op" where
  "rotate_locked cfg = eff_bind (eff_gets au_dir) (\<lambda>d. let x = dict_get d (ac_file_name cfg) in
     if \<not> node_exists x \<or> node_size x = 0 then eff_return None
     else eff_bind (eff_lift (assert_regular_nosymlink d (ac_file_name cfg))) (\<lambda>_.
       let rotated = rotated_name cfg (next_rotation_index cfg d) in
       eff_bind (os_call (replace_node (ac_file_name cfg) rotated)) (\<lambda>_.
       eff_bind (os_call (chmod_node (ac_file_mode cfg) rotated)) (\<lambda>_.
       eff_bind fsync (\<lambda>_.
       eff_bind (eff_gets (\<lambda>s. surplus cfg (au_dir s))) (\<lambda>old.
       eff_bind (eff_for (\<lambda>name. eff_bind (os_call (unlink_node name)) (\<lambda>_. fsync)) old) (\<lambda>_.
       eff_return (Some rotated))))))))"

section \<open>Appending\<close>

text \<open>The last non-blank line of the window of 1 MiB at the end of a segment.\<close>

definition tail_window :: nat where
  "tail_window = 1048576"

definition tail_line :: "string \<Rightarrow> string option" where
  "tail_line raw = (case filter (\<lambda>l. \<not> blank l) (splitlines raw) of [] \<Rightarrow> None | ls \<Rightarrow> Some (last ls))"

definition invalid_tail :: "audit_cfg \<Rightarrow> string \<Rightarrow> nat \<Rightarrow> integrity_report" where
  "invalid_tail cfg segment segments =
     failure_of INVALID_TAIL (path_join (ac_log_dir cfg) segment) None vstate0 segments False None"

text \<open>What the tail record of a segment gives: its hash and its sequence number, or the number in memory.\<close>

definition tail_record :: "chain_env \<Rightarrow> integrity_report \<Rightarrow> int \<Rightarrow> string \<Rightarrow> audit_exc + string \<times> int" where
  "tail_record env rep in_memory line = (case decode_line env line of
      LineBad \<Rightarrow> Inl (AuditIntegrityError rep)
    | LineRaises e \<Rightarrow> Inl e
    | LineValue (PDict entry) \<Rightarrow>
        if \<not> validate_hex_hash (py_get entry ''record_hash'') then Inl AuditSecurityError
        else Inr (text_of (py_get entry ''record_hash''),
              case int_value (py_get entry ''sequence'') of Some i \<Rightarrow> i | None \<Rightarrow> in_memory)
    | LineValue _ \<Rightarrow> Inl (AuditPy AttributeError))"

fun tail_of :: "chain_env \<Rightarrow> (string \<Rightarrow> integrity_report) \<Rightarrow> string list \<Rightarrow> log_dir \<Rightarrow> int \<Rightarrow> string list \<Rightarrow>
    audit_exc + string \<times> int" where
  "tail_of env rep bad d in_memory [] = Inr (ZERO_HASH, 0)"
| "tail_of env rep bad d in_memory (segment # older) = res_bind (read_segment bad d segment) (\<lambda>raw.
     case tail_line (last_n tail_window raw) of
       None \<Rightarrow> tail_of env rep bad d in_memory older
     | Some line \<Rightarrow> tail_record env (rep segment) in_memory line)"

definition tail_state_locked :: "audit_env \<Rightarrow> audit_cfg \<Rightarrow> (string \<times> int) audit_op" where
  "tail_state_locked env cfg = (\<lambda>s. let segments = segments_for (ac_file_name cfg) (au_dir s) in
     (tail_of (ae_chain env) (\<lambda>seg. invalid_tail cfg seg (length segments)) (au_bad s) (au_dir s)
        (au_last_sequence s) (rev segments), s))"

text \<open>The write loop of \<open>_append_bytes_locked\<close>.\<close>

function append_loop :: "string \<Rightarrow> string \<Rightarrow> unit audit_op" where
  "append_loop name view s =
     (if view = [] then (Inr (), s)
      else (case write_log name view s of
          (Inl e, s') \<Rightarrow> (Inl e, s')
        | (Inr n, s') \<Rightarrow>
            if n = 0 then (Inl (AuditPy (OSError ''audit append made no progress'')), s')
            else append_loop name (drop n view) s'))"
  by pat_completeness auto
termination
  by (relation "measure (\<lambda>(_, view, _). length view)") auto

definition append_bytes_locked :: "audit_cfg \<Rightarrow> string \<Rightarrow> unit audit_op" where
  "append_bytes_locked cfg line =
     eff_bind (open_secure True (ac_file_mode cfg) (ac_file_name cfg)) (\<lambda>_.
     eff_bind (os_call (chmod_node (ac_file_mode cfg) (ac_file_name cfg))) (\<lambda>_.
     eff_bind (append_loop (ac_file_name cfg) line) (\<lambda>_.
     eff_bind fsync (\<lambda>_. fsync))))"

definition encode_entry :: "audit_env \<Rightarrow> audit_cfg \<Rightarrow> pydict \<Rightarrow> audit_exc + string" where
  "encode_entry env cfg entry =
     res_bind (lift_py (res_bind (dumps (compact_style (ce_float (ae_chain env))) (PDict entry)) encode_utf8)) (\<lambda>body.
       let encoded = body @ [CHR 0x0A] in
       if int (length encoded) > ac_max_record_bytes cfg
       then Inl (AuditPy (ValueError ''audit record exceeds max_record_bytes'')) else Inr encoded)"

definition remember :: "string \<Rightarrow> int \<Rightarrow> audit \<Rightarrow> audit" where
  "remember h n s = s\<lparr>au_last_hash := h, au_last_sequence := n\<rparr>"

definition append_record_locked ::
  "audit_env \<Rightarrow> audit_cfg \<Rightarrow> tick \<Rightarrow> pyval \<Rightarrow> pyval \<Rightarrow> rawval \<Rightarrow> string audit_op" where
  "append_record_locked env cfg tk source subject payload =
     eff_bind (eff_lift (validate_record_input source subject payload)) (\<lambda>(src, sub).
     eff_bind (tail_state_locked env cfg) (\<lambda>(h, n).
     eff_bind (eff_modify (remember h n)) (\<lambda>_.
     eff_bind (eff_lift (build_entry env tk src sub payload h n)) (\<lambda>entry.
     eff_bind (eff_lift (encode_entry env cfg entry)) (\<lambda>encoded.
     eff_bind (eff_gets (\<lambda>s. node_size (dict_get (au_dir s) (ac_file_name cfg)))) (\<lambda>active_size.
     eff_bind (eff_when (active_size \<noteq> 0 \<and> int (active_size + length encoded) > ac_max_bytes cfg)
       (eff_bind (rotate_locked cfg) (\<lambda>_. eff_return ()))) (\<lambda>_.
     eff_bind (append_bytes_locked cfg encoded) (\<lambda>_.
     eff_bind (eff_modify (remember (stored_hash entry) (n + 1))) (\<lambda>_.
     eff_return (stored_hash entry))))))))))"

section \<open>Public methods\<close>

definition lock_name :: "audit_cfg \<Rightarrow> string" where
  "lock_name cfg = ''.'' @ ac_file_name cfg @ ''.lock''"

text \<open>\<open>_exclusive_process_lock\<close> around a body; releasing it changes nothing.\<close>

definition with_lock :: "audit_cfg \<Rightarrow> 'a audit_op \<Rightarrow> 'a audit_op" where
  "with_lock cfg m = eff_bind (open_secure True 384 (lock_name cfg)) (\<lambda>_. m)"

definition record_event :: "audit_env \<Rightarrow> audit_cfg \<Rightarrow> tick \<Rightarrow> pyval \<Rightarrow> pyval \<Rightarrow> rawval \<Rightarrow> string audit_op" where
  "record_event env cfg tk source subject payload =
     with_lock cfg (append_record_locked env cfg tk source subject payload)"

definition rotate :: "audit_cfg \<Rightarrow> string option audit_op" where
  "rotate cfg = with_lock cfg (eff_bind (rotate_locked cfg) (\<lambda>r.
     eff_return (map_option (path_join (ac_log_dir cfg)) r)))"

definition verify_locked :: "audit_env \<Rightarrow> audit_cfg \<Rightarrow> integrity_report audit_op" where
  "verify_locked env cfg = (\<lambda>s. (verify_audit_directory (ae_chain env) (path_join (ac_log_dir cfg)) (au_bad s)
     (ac_file_name cfg) (au_repaired s) (au_artifact s) (au_dir s), s))"

definition verify_integrity :: "audit_env \<Rightarrow> audit_cfg \<Rightarrow> integrity_report audit_op" where
  "verify_integrity env cfg = with_lock cfg (verify_locked env cfg)"

definition verify_chain :: "audit_env \<Rightarrow> audit_cfg \<Rightarrow> (bool \<times> nat) audit_op" where
  "verify_chain env cfg = eff_bind (verify_integrity env cfg) (\<lambda>r. eff_return (ir_valid r, ir_record_count r))"

text \<open>\<open>iter_records\<close>: the dictionaries among the lines, the last \<open>limit\<close> of them.\<close>

definition read_entry :: "chain_env \<Rightarrow> string \<Rightarrow> audit_exc + pydict list" where
  "read_entry env line =
     (if list_all is_space line then Inr []
      else (case decode_line env line of
          LineBad \<Rightarrow> Inl (AuditPy (ValueError ''invalid JSON or UTF-8''))
        | LineRaises e \<Rightarrow> Inl e
        | LineValue (PDict r) \<Rightarrow> Inr [r]
        | LineValue _ \<Rightarrow> Inr []))"

definition iter_records :: "audit_env \<Rightarrow> audit_cfg \<Rightarrow> int option \<Rightarrow> pydict list audit_op" where
  "iter_records env cfg limit =
     (if (case limit of Some n \<Rightarrow> n \<le> 0 | None \<Rightarrow> False) then eff_return []
      else with_lock cfg (\<lambda>s.
        (res_bind (map_res (read_segment (au_bad s) (au_dir s)) (segments_for (ac_file_name cfg) (au_dir s))) (\<lambda>raws.
         res_bind (map_res (read_entry (ae_chain env)) (concat (map splitlines raws))) (\<lambda>rs.
         Inr (case limit of None \<Rightarrow> concat rs | Some n \<Rightarrow> last_n (nat n) (concat rs)))), s)))"

text \<open>\<open>status()\<close>: \<open>f"0o{mode:04o}"\<close> and the fields of \<open>AuditStatus\<close>.\<close>

fun octal :: "nat \<Rightarrow> string" where
  "octal n = (if n < 8 then [char_of (48 + n)] else octal (n div 8) @ [char_of (48 + n mod 8)])"

declare octal.simps [simp del]

definition mode_text :: "nat \<Rightarrow> string" where
  "mode_text m = ''0o'' @ replicate (4 - length (octal (m mod 4096))) (CHR ''0'') @ octal (m mod 4096)"

section \<open>Reports as values\<close>

definition error_text :: "audit_env \<Rightarrow> chain_error \<Rightarrow> string" where
  "error_text env e = (case e of
      SEGMENT_READ_FAILED \<Rightarrow> ''SEGMENT_READ_FAILED:'' @ ae_detail env e
    | TRAILING_PARTIAL_RECORD \<Rightarrow> ''TRAILING_PARTIAL_RECORD''
    | INVALID_JSON \<Rightarrow> ''INVALID_JSON:'' @ ae_detail env e
    | RECORD_NOT_OBJECT \<Rightarrow> ''RECORD_NOT_OBJECT''
    | MISSING_FIELDS fs \<Rightarrow> ''MISSING_FIELDS:'' @ join_with '','' fs
    | INVALID_HASH_ENCODING \<Rightarrow> ''INVALID_HASH_ENCODING''
    | PREVIOUS_HASH_MISMATCH \<Rightarrow> ''PREVIOUS_HASH_MISMATCH''
    | RECORD_HASH_MISMATCH \<Rightarrow> ''RECORD_HASH_MISMATCH''
    | NON_MONOTONIC_SEQUENCE \<Rightarrow> ''NON_MONOTONIC_SEQUENCE''
    | INVALID_TAIL \<Rightarrow> ''INVALID_TAIL:'' @ ae_detail env e)"

definition report_fields :: "audit_env \<Rightarrow> integrity_report \<Rightarrow> (string \<times> rawval) list" where
  "report_fields env r =
     [(''valid'', RBool (ir_valid r)),
      (''record_count'', RInt (int (ir_record_count r))),
      (''segment_count'', RInt (int (ir_segment_count r))),
      (''coverage'', RStr (ir_coverage r)),
      (''first_prev_hash'', RStr (ir_first_prev_hash r)),
      (''last_hash'', RStr (ir_last_hash r)),
      (''last_sequence'', RInt (ir_last_sequence r)),
      (''error'', case ir_error r of None \<Rightarrow> RNone | Some e \<Rightarrow> RStr (error_text env e)),
      (''error_segment'', case ir_error_segment r of None \<Rightarrow> RNone | Some s \<Rightarrow> RStr s),
      (''error_line'', case ir_error_line r of None \<Rightarrow> RNone | Some n \<Rightarrow> RInt (int n)),
      (''repaired_trailing_partial'', RBool (ir_repaired r)),
      (''recovery_artifact'', case ir_artifact r of None \<Rightarrow> RNone | Some a \<Rightarrow> RStr a)]"

definition report_raw :: "audit_env \<Rightarrow> integrity_report \<Rightarrow> rawval" where
  "report_raw env r = RMapping (map (\<lambda>(k, v). (PStr k, v)) (report_fields env r))"

definition threat_model :: string where
  "threat_model = ''SHA-256 chaining is tamper-evident for the retained records but does not '' @
     ''prevent a privileged attacker from replacing all logs and recomputing the chain.''"

definition audit_status :: "audit_env \<Rightarrow> audit_cfg \<Rightarrow> integrity_report \<Rightarrow> pydict audit_op" where
  "audit_status env cfg startup = (\<lambda>s.
     (case au_root s of
        RootDir dm \<Rightarrow> Inr
          [(''log_path'', PStr (path_join (ac_log_dir cfg) (ac_file_name cfg))),
           (''directory_mode'', PStr (mode_text dm)),
           (''file_mode'', case dict_get (au_dir s) (ac_file_name cfg) of
              Some (Regular _ m) \<Rightarrow> PStr (mode_text m) | _ \<Rightarrow> PNone),
           (''max_bytes'', PInt (ac_max_bytes cfg)),
           (''backup_count'', PInt (ac_backup_count cfg)),
           (''startup_integrity'', safe_value env (report_raw env startup)),
           (''threat_model'', PStr threat_model)]
      | _ \<Rightarrow> Inl (AuditPy (OSError ''No such directory'')), s))"

section \<open>Startup\<close>

definition ensure_secure_directory :: "audit_cfg \<Rightarrow> unit audit_op" where
  "ensure_secure_directory cfg = eff_bind (eff_gets au_root) (\<lambda>r.
     eff_bind (case r of
         RootLink \<Rightarrow> eff_raise AuditSecurityError
       | RootOther \<Rightarrow> eff_raise AuditSecurityError
       | RootDir _ \<Rightarrow> eff_return ()
       | RootMissing \<Rightarrow> os_call (\<lambda>s. Inr (s\<lparr>au_root := RootDir (ac_dir_mode cfg), au_dir := [], au_artifacts := []\<rparr>))) (\<lambda>_.
     os_call (\<lambda>s. Inr (s\<lparr>au_root := RootDir (ac_dir_mode cfg)\<rparr>))))"

definition ensure_lock_file :: "audit_cfg \<Rightarrow> unit audit_op" where
  "ensure_lock_file cfg = eff_bind (open_secure True 384 (lock_name cfg)) (\<lambda>_.
     eff_bind (os_call (chmod_node 384 (lock_name cfg))) (\<lambda>_. fsync))"

definition enforce_segment_permissions_locked :: "audit_cfg \<Rightarrow> unit audit_op" where
  "enforce_segment_permissions_locked cfg = eff_bind (eff_gets (\<lambda>s. segments_for (ac_file_name cfg) (au_dir s))) (\<lambda>segments.
     eff_for (\<lambda>segment. eff_bind (\<lambda>s. (assert_regular_nosymlink (au_dir s) segment, s)) (\<lambda>_.
       os_call (chmod_node (ac_file_mode cfg) segment))) segments)"

text \<open>\<open>corrupt_dir.mkdir(mode=0o700, exist_ok=True)\<close>.\<close>

definition make_corrupt_dir :: "unit audit_op" where
  "make_corrupt_dir = os_call (\<lambda>s. case dict_get (au_dir s) ''corrupt'' of
      None \<Rightarrow> Inr (set_node ''corrupt'' Directory s)
    | Some Directory \<Rightarrow> Inr s
    | Some _ \<Rightarrow> Inl (AuditPy (OSError ''File exists'')))"

text \<open>The bytes up to and including the last LF, and the rest.\<close>

definition whole_lines :: "string \<Rightarrow> string" where
  "whole_lines raw = rev (dropWhile (\<lambda>c. c \<noteq> CHR 0x0A) (rev raw))"

definition fragment :: "string \<Rightarrow> string" where
  "fragment raw = drop (length (whole_lines raw)) raw"

definition truncate_node :: "string \<Rightarrow> nat \<Rightarrow> audit \<Rightarrow> audit_exc + audit" where
  "truncate_node name n s = (case dict_get (au_dir s) name of
      Some (Regular b m) \<Rightarrow> Inr (set_node name (Regular (take n b) m) s)
    | _ \<Rightarrow> Inr s)"

definition repair_active_trailing_partial_locked :: "audit_cfg \<Rightarrow> tick \<Rightarrow> unit audit_op" where
  "repair_active_trailing_partial_locked cfg tk = (let name = ac_file_name cfg in
     eff_bind (eff_gets au_dir) (\<lambda>d.
     if \<not> node_exists (dict_get d name) then eff_return ()
     else eff_bind (\<lambda>s. (read_segment (au_bad s) d name, s)) (\<lambda>raw.
       if terminated raw then eff_return ()
       else let artifact = ''trailing-partial-'' @ show_nat (tk_ns tk) @ ''.bin'' in
         eff_bind make_corrupt_dir (\<lambda>_.
         eff_bind fsync (\<lambda>_. \<comment> \<open>\<open>chmod\<close> of the directory\<close>
         eff_bind (open_artifact artifact) (\<lambda>_.
         eff_bind (write_artifact artifact (fragment raw)) (\<lambda>_.
         eff_bind fsync (\<lambda>_.
         eff_bind (open_secure False (ac_file_mode cfg) name) (\<lambda>_.
         eff_bind (os_call (truncate_node name (length (whole_lines raw)))) (\<lambda>_.
         eff_bind (os_call (chmod_node (ac_file_mode cfg) name)) (\<lambda>_.
         eff_bind fsync (\<lambda>_.
         eff_bind fsync (\<lambda>_.
         eff_bind fsync (\<lambda>_.
         eff_modify (\<lambda>s. s\<lparr>au_repaired := True,
           au_artifact := Some (path_join (path_join (ac_log_dir cfg) ''corrupt'') artifact)\<rparr>)))))))))))))))"

text \<open>\<open>os.replace\<close> of a segment into the new directory below \<open>corrupt/\<close>.\<close>

definition stash_node :: "string \<Rightarrow> string \<Rightarrow> audit \<Rightarrow> audit_exc + audit" where
  "stash_node target name s = (case dict_get (au_dir s) name of
      Some (Regular b _) \<Rightarrow> Inr (s\<lparr>au_dir := dict_pop name (au_dir s),
        au_artifacts := dict_set (target @ ''/'' @ name) b (au_artifacts s)\<rparr>)
    | _ \<Rightarrow> Inl (AuditPy (OSError ''No such file'')))"

definition quarantine_corrupt_segments_locked ::
  "audit_env \<Rightarrow> audit_cfg \<Rightarrow> tick \<Rightarrow> integrity_report \<Rightarrow> string audit_op" where
  "quarantine_corrupt_segments_locked env cfg tk report = (let chain = ''chain-'' @ show_nat (tk_ns tk) in
     eff_bind make_corrupt_dir (\<lambda>_.
     eff_bind fsync (\<lambda>_. \<comment> \<open>\<open>chmod\<close> of the directory\<close>
     eff_bind (os_call (\<lambda>s. if list_ex (\<lambda>a. starts_with (fst a) (chain @ ''/'')) (au_artifacts s)
       then Inl (AuditPy (OSError ''File exists'')) else Inr s)) (\<lambda>_.
     eff_bind (eff_gets (\<lambda>s. segments_for (ac_file_name cfg) (au_dir s))) (\<lambda>segments.
     eff_bind (eff_for (\<lambda>segment. eff_bind (\<lambda>s. (assert_regular_nosymlink (au_dir s) segment, s)) (\<lambda>_.
       os_call (stash_node chain segment))) segments) (\<lambda>_.
     eff_bind (open_artifact (chain @ ''/integrity-report.json'')) (\<lambda>_.
     eff_bind (eff_lift (lift_py (res_bind (dumps (indented_style (ce_float (ae_chain env)))
       (safe_value env (report_raw env report))) encode_utf8))) (\<lambda>payload.
     eff_bind (write_artifact (chain @ ''/integrity-report.json'') (payload @ [CHR 0x0A])) (\<lambda>_.
     eff_bind fsync (\<lambda>_.
     eff_bind fsync (\<lambda>_.
     eff_bind fsync (\<lambda>_.
     eff_bind fsync (\<lambda>_.
     eff_return (path_join (path_join (ac_log_dir cfg) ''corrupt'') chain))))))))))))))"

text \<open>\<open>Path(file_name).name\<close>.\<close>

definition path_name :: "string \<Rightarrow> string" where
  "path_name p = (case path_comps p of [] \<Rightarrow> [] | cs \<Rightarrow> last cs)"

definition validate_audit_config :: "audit_cfg \<Rightarrow> audit_exc + unit" where
  "validate_audit_config cfg =
     (if ac_max_bytes cfg < 512 then Inl (AuditPy (ValueError ''max_bytes must be at least 512''))
      else if ac_backup_count cfg < 0 then Inl (AuditPy (ValueError ''backup_count cannot be negative''))
      else if ac_max_record_bytes cfg < 256 then Inl (AuditPy (ValueError ''max_record_bytes must be at least 256''))
      else if ac_corruption_policy cfg \<notin> set [''raise'', ''quarantine'']
        then Inl (AuditPy (ValueError ''corruption_policy must be raise or quarantine''))
      else if path_name (ac_file_name cfg) \<noteq> ac_file_name cfg \<or> ac_file_name cfg = []
        then Inl (AuditPy (ValueError ''file_name must be a simple filename''))
      else Inr ())"

definition recovery_payload :: "audit_env \<Rightarrow> integrity_report \<Rightarrow> string \<Rightarrow> rawval" where
  "recovery_payload env report artifact = RMapping
     [(PStr ''previous_integrity'', report_raw env report),
      (PStr ''quarantined_to'', RStr artifact),
      (PStr ''limitation'', RStr (''A new chain was started. The prior corrupted chain is preserved '' @
         ''for forensic review but is not trusted.''))]"

definition audit_init :: "audit_env \<Rightarrow> audit_cfg \<Rightarrow> tick \<Rightarrow> integrity_report audit_op" where
  "audit_init env cfg tk =
     eff_bind (eff_lift (validate_audit_config cfg)) (\<lambda>_.
     eff_bind (eff_modify (\<lambda>s. (remember ZERO_HASH 0 s)\<lparr>au_repaired := False, au_artifact := None\<rparr>)) (\<lambda>_.
     eff_bind (ensure_secure_directory cfg) (\<lambda>_.
     eff_bind (ensure_lock_file cfg) (\<lambda>_.
     with_lock cfg (
       eff_bind (enforce_segment_permissions_locked cfg) (\<lambda>_.
       eff_bind (eff_when (ac_repair cfg) (repair_active_trailing_partial_locked cfg tk)) (\<lambda>_.
       eff_bind (verify_locked env cfg) (\<lambda>report.
       if ir_valid report
       then eff_bind (eff_modify (remember (ir_last_hash report) (ir_last_sequence report))) (\<lambda>_. eff_return report)
       else if ac_corruption_policy cfg = ''raise'' then eff_raise (AuditIntegrityError report)
       else eff_bind (quarantine_corrupt_segments_locked env cfg tk report) (\<lambda>artifact.
         eff_bind (eff_modify (\<lambda>s. (remember ZERO_HASH 0 s)\<lparr>au_artifact := Some artifact\<rparr>)) (\<lambda>_.
         eff_bind (append_record_locked env cfg tk (PStr ''audit'') (PStr ''corruption_recovery'')
           (recovery_payload env report artifact)) (\<lambda>_. eff_return report)))))))))))"

end
