(* ===== verification/Audit_Log.thy ===== *)
theory Audit_Log
  imports Audit_Writer
begin

text \<open>
  What the audit writer guarantees. The directory is seen as the list of its segments' contents
  (\<open>has_log\<close>); each operating-system call changes that list in a simple way, and the chain depends
  on nothing else. The properties: an append adds exactly one record to the retained ones and the log
  still verifies, whatever is rotated away; a record is in the log wholly or not at all after a
  restart, wherever the operating system failed; and two verified logs that end in the same hash
  agree.
\<close>

section \<open>Segment names\<close>

definition index_list :: "string \<Rightarrow> string list \<Rightarrow> (nat \<times> string) list" where
  "index_list fn names = concat (map (\<lambda>n. case segment_index fn n of None \<Rightarrow> [] | Some i \<Rightarrow> [(i, n)]) names)"

lemma index_list_simps [simp]:
  "index_list fn [] = []"
  "index_list fn (n # ns) = (case segment_index fn n of None \<Rightarrow> [] | Some i \<Rightarrow> [(i, n)]) @ index_list fn ns"
  "index_list fn (ns @ ms) = index_list fn ns @ index_list fn ms"
  by (simp_all add: index_list_def)

lemma rotated_segments_keys: "rotated_segments fn d = sort_key fst (index_list fn (map fst d))"
  by (simp add: rotated_segments_def index_list_def comp_def case_prod_unfold)

lemma index_list_set: "(i, n) \<in> set (index_list fn ns) \<longleftrightarrow> n \<in> set ns \<and> segment_index fn n = Some i"
  by (auto simp: index_list_def split: option.splits)

lemma index_list_filter: "index_list fn (filter P ns) = filter (\<lambda>p. P (snd p)) (index_list fn ns)"
  by (induction ns) (auto split: option.splits)

lemma segment_index_last: "segment_index fn n = Some i \<Longrightarrow> n \<noteq> [] \<and> is_digit (last n)"
proof -
  assume a: "segment_index fn n = Some i"
  let ?s = "drop (length (fn @ ''.'')) n"
  have "length ?s = 6" "list_all is_digit ?s"
    using a by (auto simp: segment_index_def Let_def split: if_splits)
  then have ne: "?s \<noteq> []" by force
  then have "is_digit (last ?s)" using \<open>list_all is_digit ?s\<close> last_in_set [OF ne] by (simp only: list_all_iff)
  then show ?thesis using ne by auto
qed

lemma segment_index_self [simp]: "segment_index fn fn = None"
  by (auto simp: segment_index_def Let_def dest!: prefix_length_le)

lemma parse_zeros: "parse_digits 0 True (replicate k (CHR ''0'') @ s) = parse_digits 0 True s"
  by (induction k) (simp_all add: is_digit_def char_code_def)

lemma parse_started: "s \<noteq> [] \<Longrightarrow> is_digit (hd s) \<Longrightarrow> parse_digits 0 d s = parse_digits 0 d' s"
  by (cases s) auto

lemma parse_pad: "parse_digits 0 False (pad_nat w n) = Some n"
proof (cases "w - length (show_nat n)")
  case (Suc k)
  have "is_digit (hd (show_nat n))" using show_nat_digits show_nat_nonempty hd_in_set by blast
  then show ?thesis using Suc parse_show_nat [of n] parse_zeros [of k "show_nat n"] parse_started [of "show_nat n" True False]
    by (simp add: pad_nat_def is_digit_def char_code_def)
qed (simp add: pad_nat_def parse_show_nat)

lemma show_nat_length: "n < 10 ^ Suc k \<Longrightarrow> length (show_nat n) \<le> Suc k"
proof (induction k arbitrary: n)
  case (Suc k)
  show ?case
  proof (cases "n < 10")
    case False
    then have "length (show_nat (n div 10)) \<le> Suc k" using Suc.prems by (intro Suc.IH) auto
    then show ?thesis using False by (simp add: show_nat.simps [of n])
  qed (simp add: show_nat.simps [of n])
next
  case 0
  then show ?case by (simp add: show_nat.simps [of n])
qed

lemma segment_index_rotated:
  assumes "i < 1000000"
  shows "segment_index (ac_file_name cfg) (rotated_name cfg i) = Some i"
proof -
  have "length (show_nat i) \<le> 6" using show_nat_length [of i 5] assms by simp
  then have "length (pad_nat 6 i) = 6" by (simp add: pad_nat_length)
  moreover have "list_all is_digit (pad_nat 6 i)" by (simp add: list_all_iff pad_nat_digits)
  ultimately show ?thesis by (simp add: segment_index_def rotated_name_def Let_def parse_pad)
qed

section \<open>The directory as a list of contents\<close>

definition holds :: "log_dir \<Rightarrow> string list \<Rightarrow> string list \<Rightarrow> bool" where
  "holds d names raws \<longleftrightarrow> list_all2 (\<lambda>n b. \<exists>m. dict_get d n = Some (Regular b m)) names raws"

definition has_log :: "string \<Rightarrow> log_dir \<Rightarrow> string list \<Rightarrow> bool" where
  "has_log fn d raws \<longleftrightarrow> holds d (segments_for fn d) raws"

lemma holds_bytes: "holds d names raws \<Longrightarrow> map (segment_bytes d) names = raws"
  unfolding holds_def by (induction names raws rule: list_all2_induct) (auto simp: segment_bytes_def)

lemma holds_ok: "holds d names raws \<Longrightarrow> list_all terminated raws \<Longrightarrow> list_all (segment_ok [] d) names"
  unfolding holds_def by (induction names raws rule: list_all2_induct) (auto simp: segment_ok_def)

lemma holds_self: "list_all (segment_ok [] d) names \<Longrightarrow> holds d names (map (segment_bytes d) names)"
  unfolding holds_def by (induction names) (auto simp: segment_ok_def segment_bytes_def)

lemma holds_append: "holds d ns rs \<Longrightarrow> holds d ms ss \<Longrightarrow> holds d (ns @ ms) (rs @ ss)"
  unfolding holds_def by (rule list_all2_appendI)

lemma holds_mono:
  "holds d ns rs \<Longrightarrow> (\<And>n. n \<in> set ns \<Longrightarrow> dict_get d' n = dict_get d n) \<Longrightarrow> holds d' ns rs"
  unfolding holds_def by (erule list.rel_mono_strong) simp

lemma has_log_lines: "has_log fn d raws \<Longrightarrow> log_lines fn d = concat (map splitlines raws)"
  using holds_bytes [of d "segments_for fn d" raws] by (auto simp: has_log_def log_lines_def map_concat comp_def)

lemma log_verifies_iff:
  "log_verifies env [] fn d st \<longleftrightarrow> (\<exists>raws. has_log fn d raws \<and> list_all terminated raws \<and>
     run_lines env (concat (map splitlines raws)) vstate0 = Inr st)" (is "?l \<longleftrightarrow> ?r")
proof
  assume ?l
  then have ok: "segment_ok [] d n" if "n \<in> set (segments_for fn d)" for n
    using that by (simp add: log_verifies_def list_all_iff)
  let ?raws = "map (segment_bytes d) (segments_for fn d)"
  have "has_log fn d ?raws" using ok by (simp add: has_log_def holds_self list_all_iff)
  moreover have "list_all terminated ?raws" using ok by (fastforce simp: list_all_iff segment_ok_def segment_bytes_def)
  moreover have "run_lines env (concat (map splitlines ?raws)) vstate0 = Inr st"
    using \<open>?l\<close> by (simp add: log_verifies_def log_lines_def comp_def)
  ultimately show ?r by blast
next
  assume ?r
  then obtain raws where raws: "has_log fn d raws" "list_all terminated raws"
    "run_lines env (concat (map splitlines raws)) vstate0 = Inr st" by blast
  then show ?l using holds_ok [of d "segments_for fn d" raws] has_log_lines [OF raws(1)]
    by (simp add: has_log_def log_verifies_def)
qed

text \<open>The active segment is last.\<close>

lemma segments_active:
  "dict_get d fn \<noteq> None \<Longrightarrow> segments_for fn d = map snd (rotated_segments fn d) @ [fn]"
  "dict_get d fn = None \<Longrightarrow> segments_for fn d = map snd (rotated_segments fn d)"
  by (simp_all add: segments_for_def)

lemma has_log_active:
  "dict_get d fn \<noteq> None \<Longrightarrow> has_log fn d raws \<Longrightarrow>
     \<exists>rs b m. raws = rs @ [b] \<and> dict_get d fn = Some (Regular b m)"
  by (auto simp: has_log_def holds_def segments_active list_all2_append1 list_all2_Cons1)

lemma rotated_names: "n \<in> set (map snd (rotated_segments fn d)) \<Longrightarrow> n \<noteq> fn \<and> segment_index fn n \<noteq> None"
  by (auto simp: rotated_segments_keys index_list_set)

lemma present_key: "dict_get d n = Some x \<Longrightarrow> n \<in> fst ` set d"
  by (metis dict_get_None_iff option.distinct(1))

lemma rotated_set_present: "dict_get d n = Some y \<Longrightarrow> rotated_segments fn (dict_set n x d) = rotated_segments fn d"
  using present_key [of d n y] by (auto simp: rotated_segments_keys dict_set_keys)

lemma segments_set_present: "dict_get d n = Some y \<Longrightarrow> segments_for fn (dict_set n x d) = segments_for fn d"
  by (auto simp: segments_for_def rotated_set_present)

lemma rotated_set_other: "segment_index fn n = None \<Longrightarrow> rotated_segments fn (dict_set n x d) = rotated_segments fn d"
  by (simp add: rotated_segments_keys dict_set_keys)

lemma segments_set_other:
  "segment_index fn n = None \<Longrightarrow> n \<noteq> fn \<Longrightarrow> segments_for fn (dict_set n x d) = segments_for fn d"
  by (auto simp: segments_for_def rotated_set_other)

lemma not_segment: "segment_index fn n = None \<Longrightarrow> n \<noteq> fn \<Longrightarrow> n \<notin> set (segments_for fn d)"
  using rotated_names [of n fn d] by (auto simp: segments_for_def)

text \<open>How the basic updates change the list.\<close>

lemma has_log_other:
  assumes "segment_index fn n = None" and "n \<noteq> fn" and "has_log fn d raws"
  shows "has_log fn (dict_set n x d) raws"
  using assms(3) not_segment [OF assms(1,2), of d] unfolding has_log_def segments_set_other [OF assms(1,2)]
  by (elim holds_mono) auto

lemma has_log_same_bytes:
  assumes "dict_get d n = Some (Regular b m)" and "has_log fn d raws"
  shows "has_log fn (dict_set n (Regular b m') d) raws"
  using assms(2) unfolding has_log_def holds_def segments_set_present [OF assms(1)]
  by (rule list.rel_mono_strong) (use assms(1) in auto)

lemma has_log_extend:
  assumes "dict_get d fn = Some (Regular b m)" and "has_log fn d (rs @ [b])"
  shows "has_log fn (dict_set fn (Regular b' m') d) (rs @ [b'])"
proof -
  let ?d = "dict_set fn (Regular b' m') d" and ?ns = "map snd (rotated_segments fn d)"
  have "holds d ?ns rs"
    using assms by (auto simp: has_log_def holds_def segments_active list_all2_append1 list_all2_Cons1)
  then have "holds ?d ?ns rs" by (rule holds_mono) (use rotated_names [of _ fn d] in auto)
  moreover have "holds ?d [fn] [b']" by (simp add: holds_def)
  moreover have "segments_for fn ?d = ?ns @ [fn]"
    unfolding segments_set_present [OF assms(1)] using assms(1) by (simp add: segments_active)
  ultimately show ?thesis using holds_append [of ?d ?ns rs "[fn]" "[b']"] by (simp add: has_log_def)
qed

lemma has_log_create:
  assumes "dict_get d fn = None" and "has_log fn d raws"
  shows "has_log fn (dict_set fn (Regular [] m) d) (raws @ [[]])"
proof -
  let ?d = "dict_set fn (Regular [] m) d"
  have "segments_for fn ?d = segments_for fn d @ [fn]"
    using assms(1) by (auto simp: segments_for_def rotated_segments_keys dict_set_keys dict_get_None_iff)
  moreover have "holds ?d (segments_for fn d) raws"
    using assms(2) unfolding has_log_def
    by (rule holds_mono) (use assms(1) rotated_names [of _ fn d] in \<open>auto simp: segments_active\<close>)
  moreover have "holds ?d [fn] [[]]" by (simp add: holds_def)
  ultimately show ?thesis using holds_append [of ?d "segments_for fn d" raws "[fn]" "[[]]"] by (simp add: has_log_def)
qed

text \<open>The next index is above every index in use, so a rotation keeps the order.\<close>

lemma fold_max_upper: "x \<in> set xs \<Longrightarrow> x \<le> fold max xs (n::nat)"
  using fold_max_le [of x xs "\<lambda>x. x" n] by simp

lemma next_index_fresh:
  assumes "next_rotation_index cfg d < 1000000"
  shows "rotated_name cfg (next_rotation_index cfg d) \<notin> fst ` set d"
proof
  let ?i = "next_rotation_index cfg d"
  assume "rotated_name cfg ?i \<in> fst ` set d"
  then have "(?i, rotated_name cfg ?i) \<in> set (rotated_segments (ac_file_name cfg) d)"
    using segment_index_rotated [OF assms] by (simp add: rotated_segments_keys index_list_set)
  then have "?i \<in> set (map fst (rotated_segments (ac_file_name cfg) d))" by force
  from fold_max_upper [OF this, of 0] show False by (simp add: next_rotation_index_def)
qed

lemma insort_snoc: "f x \<le> f y \<Longrightarrow> insort_key f x (zs @ [y]) = insort_key f x zs @ [y]"
  by (induction zs) auto

lemma sort_key_snoc: "\<forall>x \<in> set xs. f x \<le> f y \<Longrightarrow> sort_key f (xs @ [y]) = sort_key f xs @ [y]"
  by (induction xs) (simp_all add: insort_snoc)

lemma rotated_replace:
  assumes "next_rotation_index cfg d < 1000000"
  shows "rotated_segments (ac_file_name cfg) (dict_set (rotated_name cfg (next_rotation_index cfg d)) x (dict_pop (ac_file_name cfg) d)) =
    rotated_segments (ac_file_name cfg) d @ [(next_rotation_index cfg d, rotated_name cfg (next_rotation_index cfg d))]"
proof -
  let ?fn = "ac_file_name cfg" and ?i = "next_rotation_index cfg d"
  let ?dst = "rotated_name cfg ?i"
  have keys: "map fst (dict_set ?dst x (dict_pop ?fn d)) = filter (\<lambda>n. n \<noteq> ?fn) (map fst d) @ [?dst]"
    using next_index_fresh [OF assms] by (auto simp: dict_set_keys dict_pop_def filter_map comp_def)
  have "filter (\<lambda>p. snd p \<noteq> ?fn) (index_list ?fn (map fst d)) = index_list ?fn (map fst d)"
    by (auto simp: filter_id_conv index_list_set)
  then have il: "index_list ?fn (map fst (dict_set ?dst x (dict_pop ?fn d))) = index_list ?fn (map fst d) @ [(?i, ?dst)]"
    unfolding keys using segment_index_rotated [OF assms] by (simp add: index_list_filter)
  have "\<forall>p \<in> set (index_list ?fn (map fst d)). fst p \<le> fst (?i, ?dst)"
    using fold_max_upper [of _ "map fst (rotated_segments ?fn d)" 0]
    by (fastforce simp: next_rotation_index_def rotated_segments_keys)
  then show ?thesis unfolding rotated_segments_keys il by (rule sort_key_snoc)
qed

lemma has_log_replace:
  assumes "next_rotation_index cfg d < 1000000" and "dict_get d (ac_file_name cfg) = Some x"
    and "has_log (ac_file_name cfg) d raws"
  defines "d' \<equiv> dict_set (rotated_name cfg (next_rotation_index cfg d)) x (dict_pop (ac_file_name cfg) d)"
  shows "has_log (ac_file_name cfg) d' raws \<and> dict_get d' (ac_file_name cfg) = None"
proof -
  let ?fn = "ac_file_name cfg" and ?dst = "rotated_name cfg (next_rotation_index cfg d)"
  have ne: "?dst \<noteq> ?fn" by (simp add: rotated_name_def)
  obtain rs b m where raws: "raws = rs @ [b]" "x = Regular b m" using has_log_active [OF _ assms(3)] assms(2) by auto
  have none: "dict_get d' ?fn = None" using ne by (simp add: d'_def)
  then have seg: "segments_for ?fn d' = map snd (rotated_segments ?fn d) @ [?dst]"
    using rotated_replace [OF assms(1), of x] by (simp add: segments_active d'_def)
  have "holds d (map snd (rotated_segments ?fn d)) rs"
    using assms(2,3) raws by (auto simp: has_log_def holds_def segments_active list_all2_append1 list_all2_Cons1)
  then have "holds d' (map snd (rotated_segments ?fn d)) rs"
  proof (rule holds_mono)
    fix n assume "n \<in> set (map snd (rotated_segments ?fn d))"
    moreover from this have "n \<in> fst ` set d" by (auto simp: rotated_segments_keys index_list_set)
    then have "n \<noteq> ?dst" using next_index_fresh [OF assms(1)] by blast
    ultimately show "dict_get d' n = dict_get d n"
      using rotated_names [of n ?fn d] by (simp add: d'_def)
  qed
  moreover have "holds d' [?dst] [b]" using raws by (simp add: holds_def d'_def)
  ultimately show ?thesis using holds_append none by (fastforce simp: has_log_def seg raws)
qed

lemma rotated_pop: "rotated_segments fn (dict_pop n d) = filter (\<lambda>p. snd p \<noteq> n) (rotated_segments fn d)"
proof -
  have "map fst (dict_pop n d) = filter (\<lambda>k. k \<noteq> n) (map fst d)" by (simp add: dict_pop_def filter_map comp_def)
  then show ?thesis by (simp add: rotated_segments_keys index_list_filter filter_sort)
qed

lemma index_list_distinct: "distinct names \<Longrightarrow> distinct (map snd (index_list fn names))"
  by (induction names) (auto simp: index_list_set split: option.splits)

lemma rotated_distinct:
  assumes "dict_ok d"
  shows "distinct (map snd (rotated_segments fn d))"
proof -
  have 1: "distinct (map snd (index_list fn (map fst d)))"
    using assms index_list_distinct by (simp add: dict_ok_def)
  have "mset (map snd (sort_key fst (index_list fn (map fst d)))) = mset (map snd (index_list fn (map fst d)))"
    by simp
  then show ?thesis using 1 unfolding rotated_segments_keys by (metis mset_eq_imp_distinct_iff)
qed

lemma filter_head: "distinct (n # ns) \<Longrightarrow> map snd ps = n # ns \<Longrightarrow> map snd (filter (\<lambda>p. snd p \<noteq> n) ps) = ns"
proof -
  assume "distinct (n # ns)" and ps: "map snd ps = n # ns"
  then obtain p qs where "ps = p # qs" "snd p = n" "map snd qs = ns" "n \<notin> set ns" by auto
  moreover from this have "filter (\<lambda>p. snd p \<noteq> n) qs = qs"
    by (intro filter_True) (metis imageI list.set_map)
  ultimately show ?thesis by simp
qed

lemma has_log_unlink:
  assumes "dict_ok d" and "dict_get d fn = None" and "has_log fn d raws" and "segments_for fn d = n # ns"
  shows "has_log fn (dict_pop n d) (drop 1 raws)" and "segments_for fn (dict_pop n d) = ns"
    and "dict_get (dict_pop n d) fn = None"
proof -
  have rot: "map snd (rotated_segments fn d) = n # ns" using assms(2,4) by (simp add: segments_active)
  have dist: "distinct (n # ns)" using rotated_distinct [OF assms(1), of fn] rot by simp
  show none: "dict_get (dict_pop n d) fn = None" using assms(2) by simp
  then show seg: "segments_for fn (dict_pop n d) = ns"
    using filter_head [OF dist rot] by (simp add: segments_active rotated_pop)
  obtain b rs where raws: "raws = b # rs" "holds d ns rs"
    using assms(3,4) by (auto simp: has_log_def holds_def list_all2_Cons1)
  then have "holds (dict_pop n d) ns rs" using dist by (auto elim!: holds_mono)
  then show "has_log fn (dict_pop n d) (drop 1 raws)" using raws seg by (simp add: has_log_def)
qed

section \<open>Effects of the calls\<close>

text \<open>The state apart from the directory and the script.\<close>

definition frame :: "audit \<Rightarrow> _" where
  "frame s = (au_root s, au_artifacts s, au_bad s, au_last_hash s, au_last_sequence s, au_repaired s, au_artifact s)"

lemma frame_simps [simp]:
  "frame (s\<lparr>au_script := sc\<rparr>) = frame s"
  "frame (s\<lparr>au_dir := d\<rparr>) = frame s"
  "frame (set_node n x s) = frame s"
  "au_dir (set_node n x s) = dict_set n x (au_dir s)"
  by (simp_all add: frame_def set_node_def)

lemma pop_outcome_run: "\<exists>x sc. pop_outcome s = (Inr x, s\<lparr>au_script := sc\<rparr>)"
  by (cases s; cases "au_script s") (auto simp: pop_outcome_def)

lemma os_call_cases:
  assumes "os_call f s = (r, s')"
  obtains (failed) e sc where "r = Inl e" "s' = s\<lparr>au_script := sc\<rparr>"
    | (ran) sc where "r = Inr ()" "f (s\<lparr>au_script := sc\<rparr>) = Inr s'"
proof -
  obtain x sc where "pop_outcome s = (Inr x, s\<lparr>au_script := sc\<rparr>)" using pop_outcome_run by blast
  then show ?thesis using assms failed ran by (auto simp: os_call_def split: if_splits sum.splits)
qed

lemma bind_cases:
  assumes "eff_bind m f s = (r, s'')"
  obtains (stop) e where "m s = (Inl e, s'')" "r = Inl e"
    | (go) x s' where "m s = (Inr x, s')" "f x s' = (r, s'')"
  using assms by (auto simp: eff_bind_def split: prod.splits sum.splits)

text \<open>Calls that leave the contents as they are.\<close>

definition steady :: "string \<Rightarrow> unit audit_op \<Rightarrow> bool" where
  "steady fn m \<longleftrightarrow> (\<forall>s r s'. m s = (r, s') \<longrightarrow> frame s' = frame s \<and>
     (dict_ok (au_dir s) \<longrightarrow> dict_ok (au_dir s')) \<and>
     (\<forall>raws. has_log fn (au_dir s) raws \<longrightarrow> has_log fn (au_dir s') raws) \<and>
     (dict_get (au_dir s') fn = None \<longleftrightarrow> dict_get (au_dir s) fn = None) \<and>
     rotated_segments fn (au_dir s') = rotated_segments fn (au_dir s))"

lemma steadyD:
  assumes "steady fn m" and "m s = (r, s')"
  shows "frame s' = frame s" "dict_ok (au_dir s) \<Longrightarrow> dict_ok (au_dir s')"
    "has_log fn (au_dir s) raws \<Longrightarrow> has_log fn (au_dir s') raws"
    "dict_get (au_dir s') fn = None \<longleftrightarrow> dict_get (au_dir s) fn = None"
    "rotated_segments fn (au_dir s') = rotated_segments fn (au_dir s)"
  using assms unfolding steady_def by blast+

lemma steady_segments: "steady fn m \<Longrightarrow> m s = (r, s') \<Longrightarrow> segments_for fn (au_dir s') = segments_for fn (au_dir s)"
  using steadyD(4,5) [of fn m s r s'] by (simp add: segments_for_def)

lemma steady_os_call:
  assumes "\<And>s s'. f s = Inr s' \<Longrightarrow> s' = s \<or> (\<exists>n b m m'. dict_get (au_dir s) n = Some (Regular b m) \<and> s' = set_node n (Regular b m') s) \<or>
    (\<exists>n x. segment_index fn n = None \<and> n \<noteq> fn \<and> s' = set_node n x s)"
  shows "steady fn (os_call f)"
  unfolding steady_def
proof (intro allI impI)
  fix s r s' assume run: "os_call f s = (r, s')"
  let ?P = "\<lambda>s s'. frame s' = frame s \<and> (dict_ok (au_dir s) \<longrightarrow> dict_ok (au_dir s')) \<and>
     (\<forall>raws. has_log fn (au_dir s) raws \<longrightarrow> has_log fn (au_dir s') raws) \<and>
     (dict_get (au_dir s') fn = None \<longleftrightarrow> dict_get (au_dir s) fn = None) \<and>
     rotated_segments fn (au_dir s') = rotated_segments fn (au_dir s)"
  from run show "?P s s'"
  proof (cases rule: os_call_cases)
    case (failed e sc)
    then show ?thesis by simp
  next
    case (ran sc)
    have "?P (s\<lparr>au_script := sc\<rparr>) s'"
      using assms [OF ran(2)]
      by (auto simp: has_log_same_bytes has_log_other rotated_set_present rotated_set_other split: if_splits)
    then show ?thesis by simp
  qed
qed

lemma steady_calls:
  "steady fn fsync"
  "steady fn (os_call (chmod_node mode n))"
  "segment_index fn n = None \<Longrightarrow> n \<noteq> fn \<Longrightarrow> steady fn (open_secure True mode n)"
  "fn \<noteq> ''corrupt'' \<Longrightarrow> steady fn make_corrupt_dir"
proof -
  show "steady fn fsync" unfolding fsync_def by (rule steady_os_call) simp
  show "steady fn (os_call (chmod_node mode n))"
    by (rule steady_os_call) (auto simp: chmod_node_def split: option.splits node.splits)
  show "steady fn (open_secure True mode n)" if "segment_index fn n = None" "n \<noteq> fn"
    unfolding open_secure_def by (rule steady_os_call) (use that in \<open>auto split: option.splits node.splits\<close>)
  have "segment_index fn ''corrupt'' = None" using segment_index_last [of fn "''corrupt''"]
    by (cases "segment_index fn ''corrupt''") (auto simp: is_digit_def char_code_def)
  then show "steady fn make_corrupt_dir" if "fn \<noteq> ''corrupt''"
    unfolding make_corrupt_dir_def by (rule_tac steady_os_call) (use that in \<open>auto split: option.splits node.splits\<close>)
qed

lemma lock_not_segment: "segment_index (ac_file_name cfg) (lock_name cfg) = None" "lock_name cfg \<noteq> ac_file_name cfg"
proof -
  have "last (lock_name cfg) = CHR ''k''" by (simp add: lock_name_def)
  then show "segment_index (ac_file_name cfg) (lock_name cfg) = None"
    using segment_index_last [of "ac_file_name cfg" "lock_name cfg"]
    by (cases "segment_index (ac_file_name cfg) (lock_name cfg)") (auto simp: is_digit_def char_code_def)
  show "lock_name cfg \<noteq> ac_file_name cfg" by (auto simp: lock_name_def dest: arg_cong [of _ _ length])
qed

lemmas steady_lock = steady_calls(3) [OF lock_not_segment]

section \<open>Rotation\<close>

text \<open>The loop that removes the oldest segments stops at any point with a suffix left.\<close>

lemma unlink_loop:
  assumes "eff_for (\<lambda>name. eff_bind (os_call (unlink_node name)) (\<lambda>_. fsync)) (take k (segments_for fn (au_dir s))) s = (r, s')"
    and "dict_ok (au_dir s)" and "dict_get (au_dir s) fn = None" and "has_log fn (au_dir s) raws"
  shows "frame s' = frame s \<and> dict_ok (au_dir s') \<and> dict_get (au_dir s') fn = None \<and>
    (\<exists>j \<le> k. has_log fn (au_dir s') (drop j raws) \<and> (is_ok r \<longrightarrow> segments_for fn (au_dir s') = drop k (segments_for fn (au_dir s))))"
  using assms
proof (induction k arbitrary: s raws)
  case 0
  then show ?case by (auto intro: exI [of _ 0])
next
  case (Suc k)
  show ?case
  proof (cases "segments_for fn (au_dir s)")
    case Nil
    then show ?thesis using Suc.prems by (auto intro: exI [of _ 0])
  next
    case (Cons n ns)
    have run: "eff_bind (eff_bind (os_call (unlink_node n)) (\<lambda>_. fsync))
        (\<lambda>_. eff_for (\<lambda>name. eff_bind (os_call (unlink_node name)) (\<lambda>_. fsync)) (take k ns)) s = (r, s')"
      using Suc.prems(1) Cons by simp
    note unlink = has_log_unlink [OF Suc.prems(2,3,4) Cons]
    have gone: "frame s1 = frame s \<and> dict_ok (au_dir s1) \<and> dict_get (au_dir s1) fn = None \<and>
        has_log fn (au_dir s1) (drop 1 raws) \<and> segments_for fn (au_dir s1) = ns"
      if "unlink_node n (s\<lparr>au_script := sc\<rparr>) = Inr s0" "fsync s0 = (r0, s1)" for sc s0 s1 r0
    proof -
      have s0: "au_dir s0 = dict_pop n (au_dir s)" "frame s0 = frame s"
        using that(1) by (auto simp: unlink_node_def split: option.splits)
      then show ?thesis
        using unlink Suc.prems(2) steadyD [OF steady_calls(1) [of fn] that(2)] steady_segments [OF steady_calls(1) that(2), of fn] by auto
    qed
    from run show ?thesis
    proof (cases rule: bind_cases)
      case (stop e)
      from stop(1) show ?thesis
      proof (cases rule: bind_cases)
        case (stop e)
        from stop(1) show ?thesis
          by (cases rule: os_call_cases) (use Suc.prems stop \<open>r = _\<close> in \<open>auto intro: exI [of _ 0]\<close>)
      next
        case (go u s0)
        from go(1) obtain sc where "unlink_node n (s\<lparr>au_script := sc\<rparr>) = Inr s0" by (cases rule: os_call_cases) auto
        from gone [OF this go(2)] show ?thesis using \<open>r = _\<close> by (auto intro!: exI [of _ 1])
      qed
    next
      case (go u s1)
      from go(1) obtain s0 u0 where s0: "os_call (unlink_node n) s = (Inr u0, s0)" "fsync s0 = (Inr u, s1)"
        by (auto simp: eff_bind_Inr)
      from s0(1) obtain sc where "unlink_node n (s\<lparr>au_script := sc\<rparr>) = Inr s0" by (cases rule: os_call_cases) auto
      note g = gone [OF this s0(2)]
      have "take k ns = take k (segments_for fn (au_dir s1))" using g by simp
      then have "eff_for (\<lambda>name. eff_bind (os_call (unlink_node name)) (\<lambda>_. fsync)) (take k (segments_for fn (au_dir s1))) s1 = (r, s')"
        using go(2) by simp
      from Suc.IH [OF this, of "drop 1 raws"] g obtain j where "j \<le> k" "has_log fn (au_dir s') (drop j (drop 1 raws))" "frame s' = frame s"
        "dict_ok (au_dir s')" "dict_get (au_dir s') fn = None"
        "is_ok r \<longrightarrow> segments_for fn (au_dir s') = drop k ns" by auto
      then show ?thesis using Cons by (auto intro!: exI [of _ "j + 1"])
    qed
  qed
qed

lemma rotate_locked_outcome:
  assumes run: "rotate_locked cfg s = (r, s')" and ok: "dict_ok (au_dir s)" and log: "has_log (ac_file_name cfg) (au_dir s) raws"
    and idx: "next_rotation_index cfg (au_dir s) < 1000000"
  shows "frame s' = frame s \<and> dict_ok (au_dir s') \<and>
    (\<exists>j \<le> length raws - nat (ac_backup_count cfg). has_log (ac_file_name cfg) (au_dir s') (drop j raws)) \<and>
    (node_size (dict_get (au_dir s) (ac_file_name cfg)) \<noteq> 0 \<longrightarrow> is_ok r \<longrightarrow>
      dict_get (au_dir s') (ac_file_name cfg) = None \<and>
      length (segments_for (ac_file_name cfg) (au_dir s')) \<le> nat (ac_backup_count cfg))"
proof -
  let ?fn = "ac_file_name cfg" and ?d = "au_dir s"
  let ?x = "dict_get ?d ?fn" and ?dst = "rotated_name cfg (next_rotation_index cfg ?d)"
  have same: ?thesis if "s' = s" "is_ok r \<Longrightarrow> node_size ?x = 0"
    using that ok log by (auto intro: exI [of _ 0])
  show ?thesis
  proof (cases "\<not> node_exists ?x \<or> node_size ?x = 0")
    case True
    then have "node_size ?x = 0" by (auto simp: node_exists_def node_size_def split: option.splits node.splits)
    moreover have "s' = s" using run True by (auto simp: rotate_locked_def Let_def eff_bind_run)
    ultimately show ?thesis using same by blast
  next
    case False
    then have some: "?x \<noteq> None" by (cases ?x) (auto simp: node_exists_def)
    then obtain b m where x: "?x = Some (Regular b m)" using has_log_active [OF _ log] by auto
    have run1: "eff_bind (os_call (replace_node ?fn ?dst)) (\<lambda>_.
       eff_bind (os_call (chmod_node (ac_file_mode cfg) ?dst)) (\<lambda>_.
       eff_bind fsync (\<lambda>_.
       eff_bind (eff_gets (\<lambda>s. surplus cfg (au_dir s))) (\<lambda>old.
       eff_bind (eff_for (\<lambda>name. eff_bind (os_call (unlink_node name)) (\<lambda>_. fsync)) old) (\<lambda>_.
       eff_return (Some ?dst)))))) s = (r, s')"
      using run False x by (simp add: rotate_locked_def Let_def eff_bind_run assert_regular_nosymlink_def)
    have moved: "frame s1 = frame s \<and> dict_ok (au_dir s1) \<and> has_log ?fn (au_dir s1) raws \<and> dict_get (au_dir s1) ?fn = None"
      if "replace_node ?fn ?dst (s\<lparr>au_script := sc\<rparr>) = Inr s1" for sc s1
      using that x ok has_log_replace [OF idx x log] by (auto simp: replace_node_def split: if_splits)
    show ?thesis
      using run1
    proof (cases rule: bind_cases)
      case (stop e)
      from stop(1) show ?thesis
        by (cases rule: os_call_cases) (use ok log stop(2) in \<open>auto intro: exI [of _ 0]\<close>)
    next
      case (go u s1)
      from go(1) obtain sc where "replace_node ?fn ?dst (s\<lparr>au_script := sc\<rparr>) = Inr s1" by (cases rule: os_call_cases) auto
      note m1 = moved [OF this]
      have stopped: ?thesis if "r = Inl e" "frame s' = frame s" "dict_ok (au_dir s')" "has_log ?fn (au_dir s') raws" for e
        using that by (auto intro: exI [of _ 0])
      from go(2) show ?thesis
      proof (cases rule: bind_cases)
        case (stop e)
        then show ?thesis using m1 steadyD [OF steady_calls(2) [of ?fn] stop(1)] stopped by simp
      next
        case (go u s2)
        note m2 = m1 steadyD [OF steady_calls(2) [of ?fn] go(1)]
        from go(2) show ?thesis
        proof (cases rule: bind_cases)
          case (stop e)
          then show ?thesis using m2 steadyD [OF steady_calls(1) [of ?fn] stop(1)] stopped by simp
        next
          case (go u s3)
          note m3 = m2 steadyD [OF steady_calls(1) [of ?fn] go(1)]
          let ?k = "length (segments_for ?fn (au_dir s3)) - nat (ac_backup_count cfg)"
          have none: "dict_get (au_dir s3) ?fn = None" using m3 by simp
          have "filter (\<lambda>n. n \<noteq> ?fn) (segments_for ?fn (au_dir s3)) = segments_for ?fn (au_dir s3)"
            using rotated_names [of _ ?fn "au_dir s3"] by (intro filter_True) (auto simp: segments_active(2) [OF none])
          then have "surplus cfg (au_dir s3) = take ?k (segments_for ?fn (au_dir s3))"
            by (simp add: surplus_def Let_def)
          then have "eff_bind (eff_for (\<lambda>name. eff_bind (os_call (unlink_node name)) (\<lambda>_. fsync))
              (take ?k (segments_for ?fn (au_dir s3)))) (\<lambda>_. eff_return (Some ?dst)) s3 = (r, s')"
            using go(2) by (simp add: eff_bind_run)
          then obtain r' where loop: "eff_for (\<lambda>name. eff_bind (os_call (unlink_node name)) (\<lambda>_. fsync))
              (take ?k (segments_for ?fn (au_dir s3))) s3 = (r', s')" "is_ok r \<longrightarrow> is_ok r'"
            by (cases rule: bind_cases) auto
          have len: "length (drop ?k (segments_for ?fn (au_dir s3))) \<le> nat (ac_backup_count cfg)" by simp
          have "length (segments_for ?fn (au_dir s3)) = length raws"
            using m3 by (auto simp: has_log_def holds_def dest: list_all2_lengthD)
          then show ?thesis using unlink_loop [OF loop(1), of raws] loop(2) m3 none len by (auto simp del: length_drop)
        qed
      qed
    qed
  qed
qed

section \<open>Appending bytes\<close>

lemma write_log_cases:
  assumes "write_log n view s = (r, s')" and "dict_get (au_dir s) n = Some (Regular b m)"
  obtains (failed) e where "r = Inl e" "frame s' = frame s" "au_dir s' = au_dir s"
    | (wrote) k where "r = Inr k" "frame s' = frame s" "au_dir s' = dict_set n (Regular (b @ take k view) m) (au_dir s)"
proof -
  obtain x sc where pop: "pop_outcome s = (Inr x, s\<lparr>au_script := sc\<rparr>)" using pop_outcome_run by blast
  have app: "append_node n data (s\<lparr>au_script := sc\<rparr>) = set_node n (Regular (b @ data) m) (s\<lparr>au_script := sc\<rparr>)" for data
    using assms(2) by (simp add: append_node_def)
  show ?thesis
  proof (cases x)
    case Failed
    then show ?thesis using assms(1) pop by (intro failed) (auto simp: write_log_def write_count_def eff_bind_run)
  next
    case Done
    then show ?thesis using assms(1) pop app
      by (intro wrote [of "length view"]) (auto simp: write_log_def write_count_def eff_bind_run)
  next
    case (Wrote k)
    then show ?thesis using assms(1) pop app
      by (intro wrote [of "min k (length view)"]) (auto simp: write_log_def write_count_def eff_bind_run)
  qed
qed

lemma append_loop_outcome:
  assumes "append_loop n view s = (r, s')" and "dict_get (au_dir s) n = Some (Regular b m)"
  shows "frame s' = frame s \<and> (\<exists>data. prefix data view \<and> au_dir s' = dict_set n (Regular (b @ data) m) (au_dir s) \<and>
    (is_ok r \<longrightarrow> data = view))"
  using assms
proof (induction n view s arbitrary: b r rule: append_loop.induct)
  case (1 n view s)
  show ?case
  proof (cases "view = []")
    case True
    then show ?thesis using "1.prems" by (auto simp: append_loop.simps [of n view] dict_set_same)
  next
    case False
    obtain r1 s1 where w: "write_log n view s = (r1, s1)" by (cases "write_log n view s")
    from w "1.prems"(2) show ?thesis
    proof (cases rule: write_log_cases)
      case (failed e)
      then show ?thesis using "1.prems" w False
        by (auto simp: append_loop.simps [of n view] dict_set_same intro!: exI [of _ "[]"])
    next
      case (wrote k)
      show ?thesis
      proof (cases "k = 0")
        case True
        then show ?thesis using "1.prems" w wrote False
          by (auto simp: append_loop.simps [of n view] intro!: exI [of _ "[]"])
      next
        case k: False
        have rest: "append_loop n (drop k view) s1 = (r, s')"
          using "1.prems"(1) w wrote False k by (simp add: append_loop.simps [of n view])
        have get: "dict_get (au_dir s1) n = Some (Regular (b @ take k view) m)" using wrote by simp
        have "(r1, s1) = write_log n view s" using w by simp
        from "1.IH" [OF False this wrote(1) k rest get] obtain data where
          "frame s' = frame s1" "prefix data (drop k view)" "is_ok r \<longrightarrow> data = drop k view"
          "au_dir s' = dict_set n (Regular (b @ take k view @ data) m) (au_dir s)" using wrote(3) by auto
        moreover from this(2) have "prefix (take k view @ data) view"
          by (metis append_take_drop_id same_prefix_prefix)
        ultimately show ?thesis using wrote(2) by (intro conjI exI [of _ "take k view @ data"]) auto
      qed
    qed
  qed
qed

text \<open>The log after some bytes of a line have reached the active segment.\<close>

definition extended :: "string \<Rightarrow> log_dir \<Rightarrow> string list \<Rightarrow> string \<Rightarrow> bool" where
  "extended fn d raws data \<longleftrightarrow> data = [] \<and> has_log fn d raws \<or>
     (\<exists>rs b. has_log fn d (rs @ [b @ data]) \<and> dict_get d fn \<noteq> None \<and> (raws = rs @ [b] \<or> raws = rs \<and> b = []))"

lemma extended_steady: "extended fn (au_dir s) raws data \<Longrightarrow> steady fn m \<Longrightarrow> m s = (r, s') \<Longrightarrow> extended fn (au_dir s') raws data"
  unfolding extended_def using steadyD(3,4) by metis

lemma open_active:
  assumes "open_secure True mode fn s = (r, s')" and "dict_ok (au_dir s)" and "has_log fn (au_dir s) raws"
  shows "frame s' = frame s \<and> dict_ok (au_dir s') \<and> extended fn (au_dir s') raws [] \<and>
    (is_ok r \<longrightarrow> (\<exists>rs b m. has_log fn (au_dir s') (rs @ [b]) \<and> dict_get (au_dir s') fn = Some (Regular b m) \<and>
       (raws = rs @ [b] \<or> raws = rs \<and> b = [])))"
  using assms(1) unfolding open_secure_def
proof (cases rule: os_call_cases)
  case (failed e sc)
  then show ?thesis using assms by (simp add: extended_def)
next
  case (ran sc)
  show ?thesis
  proof (cases "dict_get (au_dir s) fn")
    case None
    then have "s' = set_node fn (Regular [] mode) (s\<lparr>au_script := sc\<rparr>)" using ran by simp
    moreover from this have "has_log fn (au_dir s') (raws @ [[]])" using has_log_create [OF None assms(3)] by simp
    ultimately show ?thesis using assms(2) unfolding extended_def by (fastforce)
  next
    case (Some x)
    then obtain rs b m where rs: "raws = rs @ [b]" "x = Regular b m" using has_log_active [OF _ assms(3)] by auto
    then have "s' = s\<lparr>au_script := sc\<rparr>" using ran Some by simp
    then show ?thesis using assms rs Some by (auto simp: extended_def)
  qed
qed

lemma append_bytes_outcome:
  assumes run: "append_bytes_locked cfg line s = (r, s')" and ok: "dict_ok (au_dir s)"
    and log: "has_log (ac_file_name cfg) (au_dir s) raws"
  shows "frame s' = frame s \<and> dict_ok (au_dir s') \<and>
    (\<exists>data. prefix data line \<and> extended (ac_file_name cfg) (au_dir s') raws data \<and> (is_ok r \<longrightarrow> data = line))"
  using run unfolding append_bytes_locked_def
proof (cases rule: bind_cases)
  case (stop e)
  then show ?thesis using open_active [OF stop(1) ok log] by (intro conjI exI [of _ "[]"]) auto
next
  case (go u s1)
  let ?fn = "ac_file_name cfg"
  obtain rs b m where s1: "frame s1 = frame s" "dict_ok (au_dir s1)" "has_log ?fn (au_dir s1) (rs @ [b])"
      "dict_get (au_dir s1) ?fn = Some (Regular b m)" "raws = rs @ [b] \<or> raws = rs \<and> b = []"
    using open_active [OF go(1) ok log] by auto
  have untouched: "extended ?fn (au_dir t) raws []" if "has_log ?fn (au_dir t) (rs @ [b])" "dict_get (au_dir t) ?fn \<noteq> None" for t :: audit
    using that s1(5) by (auto simp: extended_def)
  from go(2) show ?thesis
  proof (cases rule: bind_cases)
    case (stop e)
    note st = steadyD [OF steady_calls(2) [of ?fn] stop(1)]
    have "extended ?fn (au_dir s') raws []" using untouched [of s'] s1 st by simp
    then show ?thesis using s1 st stop(2) by (intro conjI exI [of _ "[]"]) auto
  next
    case (go u s2)
    note st = steadyD [OF steady_calls(2) [of ?fn] go(1)]
    have s2: "frame s2 = frame s" "dict_ok (au_dir s2)" "has_log ?fn (au_dir s2) (rs @ [b])" "dict_get (au_dir s2) ?fn \<noteq> None"
      using s1 st by auto
    then obtain m' where m': "dict_get (au_dir s2) ?fn = Some (Regular b m')" using has_log_active [OF s2(4,3)] by auto
    have after: "frame s3 = frame s \<and> dict_ok (au_dir s3) \<and> (\<exists>data. prefix data line \<and> extended ?fn (au_dir s3) raws data \<and> (is_ok r1 \<longrightarrow> data = line))"
      if loop: "append_loop ?fn line s2 = (r1, s3)" for r1 s3
    proof -
      obtain data where data: "frame s3 = frame s2" "prefix data line" "is_ok r1 \<longrightarrow> data = line"
        "au_dir s3 = dict_set ?fn (Regular (b @ data) m') (au_dir s2)" using append_loop_outcome [OF loop m'] by auto
      have "extended ?fn (au_dir s3) raws data"
        using has_log_extend [OF m' s2(3), of "b @ data" m'] s1(5) data(4) by (auto simp: extended_def)
      then show ?thesis using data s2 by auto
    qed
    from go(2) show ?thesis
    proof (cases rule: bind_cases)
      case (stop e)
      then show ?thesis using after [OF stop(1)] by auto
    next
      case (go u s3)
      have done3: "frame s3 = frame s" "dict_ok (au_dir s3)" "extended ?fn (au_dir s3) raws line" using after [OF go(1)] by auto
      have fs: "frame t' = frame t \<and> (dict_ok (au_dir t) \<longrightarrow> dict_ok (au_dir t')) \<and>
          (extended ?fn (au_dir t) raws line \<longrightarrow> extended ?fn (au_dir t') raws line)" if "fsync t = (q, t')" for t t' q
        using that steadyD [OF steady_calls(1) [of ?fn] that] extended_steady [OF _ steady_calls(1) that] by blast
      from go(2) have "frame s' = frame s \<and> dict_ok (au_dir s') \<and> extended ?fn (au_dir s') raws line"
        by (cases rule: bind_cases) (use fs done3 in metis)+
      then show ?thesis by auto
    qed
  qed
qed

section \<open>The line of a record\<close>

definition clean :: "string \<Rightarrow> bool" where
  "clean t = list_all (\<lambda>c. 32 \<le> char_code c) t"

lemma clean_simps [simp]:
  "clean []" "clean (c # t) \<longleftrightarrow> 32 \<le> char_code c \<and> clean t" "clean (t @ u) \<longleftrightarrow> clean t \<and> clean u"
  by (simp_all add: clean_def)

lemma clean_join: "clean sep \<Longrightarrow> \<forall>t \<in> set ts. clean t \<Longrightarrow> clean (join_with sep ts)"
  by (induction sep ts rule: join_with.induct) simp_all

lemma clean_escape: "clean (json_escape c)"
  by (auto simp: json_escape_def hex4_def hex_char_def char_code_def)

lemma clean_concat: "\<forall>t \<in> set ts. clean t \<Longrightarrow> clean (concat ts)"
  by (induction ts) simp_all

lemma clean_text: "clean (json_text s)"
  by (simp add: json_text_def clean_concat clean_escape) (simp add: char_code_def)

lemma clean_digits: "(\<forall>c \<in> set t. is_digit c) \<Longrightarrow> clean t"
  by (auto simp: clean_def list_all_iff is_digit_def)

text \<open>The digest is 64 hexadecimal digits and floats print without control characters.\<close>

definition env_ok :: "chain_env \<Rightarrow> bool" where
  "env_ok env \<longleftrightarrow> (\<forall>t. length (ce_sha256 env t) = 64 \<and> list_all hex_digit (ce_sha256 env t)) \<and>
     (\<forall>q. clean (ce_float env q))"

lemma list_all2_right: "list_all2 P xs ys \<Longrightarrow> y \<in> set ys \<Longrightarrow> \<exists>x \<in> set xs. P x y"
  by (induction xs ys rule: list_all2_induct) auto

lemma dumps_clean:
  assumes "env_ok env"
  shows "dumps_at (compact_style (ce_float env)) n v = Inr t \<Longrightarrow> clean t"
proof (induction "compact_style (ce_float env)" n v arbitrary: t rule: dumps_at.induct)
  case (3 n i)
  then show ?case using show_nat_digits clean_digits by (auto simp: show_int_def char_code_def split: if_splits)
next
  case (4 n f)
  then show ?case using assms
    by (auto simp: json_float_def compact_style_def env_ok_def split: pyfloat.splits)
next
  case (6 n xs)
  then obtain ts where ts: "list_all2 (\<lambda>x t. dumps_at (compact_style (ce_float env)) (Suc n) x = Inr t) xs ts"
    "t = enclose (compact_style (ce_float env)) n (CHR ''['') (CHR '']'') ts" by (auto simp: res_bind_eq_Inr map_res_all2)
  have "\<forall>t \<in> set ts. clean t" using list_all2_right [OF ts(1)] 6(1) by blast
  then show ?case using ts(2)
    by (auto simp: enclose_def line_break_def compact_style_def char_code_def intro!: clean_join)
next
  case (7 n d)
  then obtain ts where ts: "list_all2 (\<lambda>kv t. \<exists>u. dumps_at (compact_style (ce_float env)) (Suc n) (snd kv) = Inr u \<and>
      json_text (fst kv) @ js_key (compact_style (ce_float env)) @ u = t) d ts"
    "t = enclose (compact_style (ce_float env)) n (CHR ''{'') (CHR ''}'') ts"
    by (auto simp: res_bind_eq_Inr map_res_all2)
  have "clean t" if t: "t \<in> set ts" for t
  proof -
    obtain kv u where u: "dumps_at (compact_style (ce_float env)) (Suc n) (snd kv) = Inr u" "kv \<in> set d"
      "t = json_text (fst kv) @ js_key (compact_style (ce_float env)) @ u"
      using list_all2_right [OF ts(1) t] by blast
    then show ?thesis using 7(1) [OF u(2) u(1)] by (simp add: clean_text compact_style_def char_code_def)
  qed
  then show ?case using ts(2)
    by (auto simp: enclose_def line_break_def compact_style_def char_code_def intro!: clean_join)
qed (auto simp: clean_text char_code_def)

text \<open>An accepted record's fields.\<close>

lemma build_entry_fields:
  assumes "build_entry env tk a b payload h n = Inr e"
  shows "\<exists>utc hash. e = [(''schema_version'', PStr SCHEMA_VERSION), (''record_id'', PStr (hex_digits 32 (tk_uuid tk))),
      (''sequence'', PInt (n + 1)), (''timestamp'', PFloat (tk_clock tk)), (''timestamp_utc'', PStr utc),
      (''source'', PStr a), (''subject'', PStr b), (''payload'', safe_value env payload), (''prev_hash'', PStr h),
      (''record_hash'', PStr hash)] \<and> record_hash (ae_chain env) (dict_pop ''record_hash'' e) = Inr hash"
  using assms by (auto simp: build_entry_def lift_py_def res_bind_eq_Inr Let_def dict_pop_def split: sum.splits)

lemma built_record:
  assumes "build_entry env tk a b payload h n = Inr e"
  shows "py_get e ''record_hash'' = PStr (stored_hash e)" "py_get e ''prev_hash'' = PStr h"
    "py_get e ''sequence'' = PInt (n + 1)" "py_get e ''payload'' = safe_value env payload"
    "list_all (\<lambda>k. dict_get e k \<noteq> None) required_fields"
    "record_hash (ae_chain env) (dict_pop ''record_hash'' e) = Inr (stored_hash e)"
  using build_entry_fields [OF assms]
  by (auto simp: stored_hash_def py_get_def dict_get_or_def text_of_def required_fields_def)

text \<open>The payload and the time of the record can be printed and read back.\<close>

definition payload_ok :: "audit_env \<Rightarrow> tick \<Rightarrow> rawval \<Rightarrow> bool" where
  "payload_ok env tk payload \<longleftrightarrow> json_ok (compact_style (ce_float (ae_chain env))) (safe_value env payload) \<and>
     json_ok (compact_style (ce_float (ae_chain env))) (PFloat (tk_clock tk)) \<and>
     nesting (safe_value env payload) < ce_depth (ae_chain env)"

lemma built_line:
  assumes "env_ok (ae_chain env)" and "payload_ok env tk payload" and "build_entry env tk a b payload h n = Inr e"
    and "encode_entry env cfg e = Inr line"
  obtains body where "line = body @ [CHR 0x0A]" "clean body" "\<not> blank body" "int (length line) \<le> ac_max_record_bytes cfg"
    "decode_line (ae_chain env) body = LineValue (PDict e)" "json_ok (compact_style (ce_float (ae_chain env))) (PDict e)"
proof -
  let ?st = "compact_style (ce_float (ae_chain env))"
  obtain body where body: "dumps ?st (PDict e) = Inr body" "utf8_valid body" "line = body @ [CHR 0x0A]"
      "int (length line) \<le> ac_max_record_bytes cfg"
    using assms(4) by (auto simp: encode_entry_def lift_py_def res_bind_eq_Inr encode_utf8_def Let_def split: sum.splits if_splits)
  obtain utc hash where e: "e = [(''schema_version'', PStr SCHEMA_VERSION), (''record_id'', PStr (hex_digits 32 (tk_uuid tk))),
      (''sequence'', PInt (n + 1)), (''timestamp'', PFloat (tk_clock tk)), (''timestamp_utc'', PStr utc),
      (''source'', PStr a), (''subject'', PStr b), (''payload'', safe_value env payload), (''prev_hash'', PStr h),
      (''record_hash'', PStr hash)]" using build_entry_fields [OF assms(3)] by blast
  have "length (show_nat (nat \<bar>n + 1\<bar>)) \<le> 4300"
    using body(1) unfolding e by (auto simp: res_bind_eq_Inr split: if_splits)
  then have ok: "json_ok ?st (PDict e)"
    using assms(2) unfolding e by (simp add: payload_ok_def dict_ok_def)
  have "nesting (PDict e) \<le> ce_depth (ae_chain env)"
    using assms(2) unfolding e by (simp add: payload_ok_def)
  then have "loads (ce_depth (ae_chain env)) body = Inr (PDict e)"
    by (rule loads_dumps [OF compact_style_ok body(1) ok])
  moreover obtain ts where "body = enclose ?st 0 (CHR ''{'') (CHR ''}'') ts" using body(1) by (auto simp: res_bind_eq_Inr)
  then obtain u where "body = CHR ''{'' # u" using enclose_start by blast
  ultimately show ?thesis
    using that [OF body(3) dumps_clean [OF assms(1) body(1)] _ body(4)] body(2) ok
    by (simp add: decode_line_def blank_def byte_space_def char_code_def)
qed

section \<open>Starting later in the chain\<close>

text \<open>A verification that knows less accepts at least as much.\<close>

definition weaker :: "vstate \<Rightarrow> vstate \<Rightarrow> bool" where
  "weaker st0 st \<longleftrightarrow> (vs_previous st0 = None \<or> vs_previous st0 = vs_previous st) \<and> vs_sequence st0 \<le> vs_sequence st"

lemma check_line_weaker:
  assumes "check_line env l st = Inr st'" and "weaker st0 st"
  shows "\<exists>st0'. check_line env l st0 = Inr st0' \<and> weaker st0' st'"
proof (cases "blank l")
  case True
  then show ?thesis using assms by (simp add: check_line_Inr)
next
  case False
  then obtain r where r: "decode_line env l = LineValue (PDict r)" "check_record env r st = Inr st'"
    using assms(1) by (auto simp: check_line_Inr)
  then have "check_record env r st0 = Inr (after_record r st0)"
    using assms(2) by (auto simp: check_record_Inr weaker_def sequence_ok_def)
  moreover have "weaker (after_record r st0) st'"
    using r(2) assms(2) by (auto simp: check_record_Inr weaker_def after_record_def next_sequence_def split: option.splits)
  ultimately show ?thesis using r(1) False by (auto simp: check_line_Inr)
qed

lemma run_lines_weaker:
  "run_lines env ls st = Inr st' \<Longrightarrow> weaker st0 st \<Longrightarrow> \<exists>st0'. run_lines env ls st0 = Inr st0' \<and> weaker st0' st'"
proof (induction ls arbitrary: st st0)
  case (Cons l ls)
  then obtain s1 where 1: "check_line env l st = Inr s1" "run_lines env ls s1 = Inr st'" by (auto simp: res_bind_eq_Inr)
  obtain t1 where "check_line env l st0 = Inr t1" "weaker t1 s1" using check_line_weaker [OF 1(1) Cons.prems(2)] by blast
  then show ?case using Cons.IH [OF 1(2)] by auto
qed auto

lemma run_lines_sequence: "run_lines env ls st = Inr st' \<Longrightarrow> vs_sequence st \<le> vs_sequence st'"
proof (induction ls arbitrary: st)
  case (Cons l ls)
  then obtain s1 where 1: "check_line env l st = Inr s1" "run_lines env ls s1 = Inr st'" by (auto simp: res_bind_eq_Inr)
  have "vs_sequence st \<le> vs_sequence s1"
    using 1(1) by (auto simp: check_line_Inr check_record_Inr after_record_def next_sequence_def sequence_ok_def
        int_value_def split: if_splits option.splits)
  then show ?case using Cons.IH [OF 1(2)] by simp
qed simp

lemma run_lines_suffix:
  assumes "run_lines env (as @ bs) vstate0 = Inr st"
  shows "\<exists>st0. run_lines env bs vstate0 = Inr st0 \<and> weaker st0 st"
proof -
  obtain s1 where 1: "run_lines env as vstate0 = Inr s1" "run_lines env bs s1 = Inr st"
    using assms by (auto simp: run_lines_append res_bind_eq_Inr)
  have "weaker vstate0 s1" using run_lines_sequence [OF 1(1)] by (simp add: weaker_def vstate0_def)
  then show ?thesis using run_lines_weaker [OF 1(2)] by blast
qed

section \<open>The tail of the log\<close>

definition window_ok :: "string \<Rightarrow> bool" where
  "window_ok raw \<longleftrightarrow> tail_line (last_n tail_window raw) = tail_line raw"

lemma tail_line_last: "filter (\<lambda>l. \<not> blank l) (splitlines b) = ls @ [l] \<Longrightarrow> tail_line b = Some l"
  unfolding tail_line_def by (cases ls) simp_all

lemma tail_line_cases:
  obtains (none) "tail_line b = None" "list_all blank (splitlines b)"
    | (some) l pre post where "tail_line b = Some l" "splitlines b = pre @ l # post" "\<not> blank l" "list_all blank post"
proof (cases "list_all blank (splitlines b)")
  case True
  then have "filter (\<lambda>l. \<not> blank l) (splitlines b) = []" by (simp add: filter_empty_conv list_all_iff)
  then show ?thesis using none True by (simp add: tail_line_def)
next
  case False
  then have "\<exists>l \<in> set (splitlines b). \<not> blank l" by (simp add: list_all_iff)
  then obtain pre l post where l: "splitlines b = pre @ l # post" "\<not> blank l" "\<forall>z \<in> set post. \<not> \<not> blank z"
    using split_list_last_prop [of "splitlines b" "\<lambda>l. \<not> blank l"] by blast
  then have "filter (\<lambda>l. \<not> blank l) (splitlines b) = filter (\<lambda>l. \<not> blank l) pre @ [l]" by simp
  then have "tail_line b = Some l" by (rule tail_line_last)
  then show ?thesis using some l by (simp add: list_all_iff)
qed

lemma run_blank: "list_all blank ls \<Longrightarrow> run_lines env ls st = Inr st"
  by (induction ls) (simp_all add: check_line_def)

lemma ZERO_HASH_hex: "validate_hex_hash (PStr ZERO_HASH)"
  by (simp add: validate_hex_hash_def ZERO_HASH_def list_all_iff hex_digit_def is_digit_def char_code_def)

lemma tail_of_log:
  assumes "holds d names raws" and "list_all window_ok raws"
    and "run_lines env (concat (map splitlines raws)) vstate0 = Inr st" and "vs_sequence st \<le> mem"
  shows "\<exists>q. tail_of env rep [] d mem (rev names) = Inr (vs_last st, q) \<and> vs_sequence st \<le> q \<and>
    validate_hex_hash (PStr (vs_last st))"
  using assms
proof (induction raws arbitrary: names st rule: rev_induct)
  case Nil
  then show ?case by (auto simp: holds_def vstate0_def ZERO_HASH_hex)
next
  case (snoc b raws)
  obtain ns n where n: "names = ns @ [n]" "holds d ns raws" "\<exists>m. dict_get d n = Some (Regular b m)"
    using snoc.prems(1) by (auto simp: holds_def list_all2_append2 list_all2_Cons2)
  have read: "read_segment [] d n = Inr b" using n(3) by (simp add: read_segment_Inr)
  have win: "tail_line (last_n tail_window b) = tail_line b" using snoc.prems(2) by (simp add: window_ok_def)
  obtain s1 where s1: "run_lines env (concat (map splitlines raws)) vstate0 = Inr s1" "run_lines env (splitlines b) s1 = Inr st"
    using snoc.prems(3) by (auto simp: run_lines_append res_bind_eq_Inr)
  show ?case
  proof (cases b rule: tail_line_cases)
    case none
    then have "s1 = st" using s1(2) run_blank [of "splitlines b" env s1] by simp
    then show ?thesis using snoc.IH [OF n(2) _ s1(1)] snoc.prems(2,4) n(1) read win none(1) by simp
  next
    case (some l pre post)
    obtain s2 s3 where s3: "check_line env l s2 = Inr s3" "run_lines env post s3 = Inr st"
      using s1(2) some(2) by (auto simp: run_lines_append res_bind_eq_Inr)
    then have "s3 = st" using run_blank [OF some(4)] by simp
    then obtain r where r: "decode_line env l = LineValue (PDict r)" "check_record env r s2 = Inr st"
      using s3(1) some(3) by (auto simp: check_line_Inr)
    then have st: "vs_last st = stored_hash r" "vs_sequence st = next_sequence r s2" "sealed env r" "sequence_ok r s2"
      by (auto simp: check_record_Inr after_record_def)
    have valid: "validate_hex_hash (py_get r ''record_hash'')" using st(3) by (simp add: sealed_def)
    then have "validate_hex_hash (PStr (stored_hash r))"
      by (cases "py_get r ''record_hash''") (simp_all add: validate_hex_hash_def stored_hash_def text_of_def)
    moreover define q where "q = (case int_value (py_get r ''sequence'') of Some i \<Rightarrow> i | None \<Rightarrow> mem)"
    moreover have "tail_record env (rep n) mem l = Inr (stored_hash r, q)"
      using r(1) valid by (simp add: tail_record_def stored_hash_def q_def)
    moreover have "vs_sequence st \<le> q"
      using st(2) snoc.prems(4) by (simp add: next_sequence_def q_def split: option.splits)
    ultimately show ?thesis using st(1) n(1) read win some(1) by simp
  qed
qed

text \<open>A new line is seen whole through the window.\<close>

lemma terminated_suffix: "terminated (a @ b) \<Longrightarrow> terminated b"
  by (cases b) (auto simp: terminated_def)

lemma clean_no_break: "clean t \<Longrightarrow> CHR 0x0A \<notin> set t \<and> CHR 0x0D \<notin> set t"
  by (auto simp: clean_def list_all_iff char_code_def)

lemma splitlines_snoc:
  "terminated b \<Longrightarrow> clean body \<Longrightarrow> splitlines (b @ body @ [CHR 0x0A]) = splitlines b @ [body]"
  using splitlines_append [of b "body @ [CHR 0x0A]"] splitlines_line clean_no_break by simp

lemma tail_line_snoc: "terminated b \<Longrightarrow> clean body \<Longrightarrow> \<not> blank body \<Longrightarrow> tail_line (b @ body @ [CHR 0x0A]) = Some body"
  by (rule tail_line_last) (simp add: splitlines_snoc)

lemma window_snoc:
  assumes "terminated b" and "clean body" and "\<not> blank body" and "length (body @ [CHR 0x0A]) \<le> tail_window"
  shows "window_ok (b @ body @ [CHR 0x0A])"
proof -
  let ?line = "body @ [CHR 0x0A]"
  let ?k = "length (b @ ?line) - tail_window"
  have k: "?k \<le> length b" using assms(4) by simp
  then have "last_n tail_window (b @ ?line) = drop ?k b @ ?line" by (simp add: last_n_def)
  moreover have "terminated (drop ?k b)" using assms(1) terminated_suffix [of "take ?k b" "drop ?k b"] by simp
  ultimately show ?thesis unfolding window_ok_def using tail_line_snoc assms by metis
qed

section \<open>Appending a record\<close>

definition good_log :: "chain_env \<Rightarrow> string list \<Rightarrow> vstate \<Rightarrow> bool" where
  "good_log env raws st \<longleftrightarrow> list_all terminated raws \<and> list_all window_ok raws \<and>
     run_lines env (concat (map splitlines raws)) vstate0 = Inr st"

definition log_state :: "audit_env \<Rightarrow> audit_cfg \<Rightarrow> audit \<Rightarrow> string list \<Rightarrow> vstate \<Rightarrow> bool" where
  "log_state env cfg s raws st \<longleftrightarrow> dict_ok (au_dir s) \<and> au_bad s = [] \<and> has_log (ac_file_name cfg) (au_dir s) raws \<and>
     good_log (ae_chain env) raws st \<and> vs_sequence st \<le> au_last_sequence s"

text \<open>
  The invariant: a verified directory whose segments end in a record that the tail window shows
  whole, and a sequence counter that is not behind.
\<close>

definition log_ok :: "audit_env \<Rightarrow> audit_cfg \<Rightarrow> audit \<Rightarrow> bool" where
  "log_ok env cfg s \<longleftrightarrow> (\<exists>raws st. log_state env cfg s raws st)"

definition retained :: "audit_env \<Rightarrow> audit_cfg \<Rightarrow> audit \<Rightarrow> pydict list" where
  "retained env cfg s = log_records (ae_chain env) (log_lines (ac_file_name cfg) (au_dir s))"

text \<open>The records in the newest \<open>k\<close> segments, the active one included.\<close>

definition recent_records :: "audit_env \<Rightarrow> audit_cfg \<Rightarrow> nat \<Rightarrow> audit \<Rightarrow> pydict list" where
  "recent_records env cfg k s = (let raws = map (segment_bytes (au_dir s)) (segments_for (ac_file_name cfg) (au_dir s)) in
     log_records (ae_chain env) (concat (map splitlines (drop (length raws - k) raws))))"

text \<open>Any part of a good log at its end is a good log.\<close>

lemma concat_drop: "\<exists>ls. concat (map f xs) = ls @ concat (map f (drop j xs))"
  by (metis append_take_drop_id concat_append map_append)

lemma good_log_drop:
  assumes "good_log env raws st"
  shows "\<exists>st'. good_log env (drop j raws) st' \<and> weaker st' st"
proof -
  obtain ls where "concat (map splitlines raws) = ls @ concat (map splitlines (drop j raws))" using concat_drop by blast
  then obtain st' where "run_lines env (concat (map splitlines (drop j raws))) vstate0 = Inr st'" "weaker st' st"
    using assms run_lines_suffix by (fastforce simp: good_log_def)
  moreover have "set (drop j raws) \<subseteq> set raws" by (rule set_drop_subset)
  ultimately show ?thesis using assms by (auto simp: good_log_def list_all_iff)
qed

text \<open>A built record continues the chain.\<close>

lemma built_continues:
  assumes "env_ok (ae_chain env)" and "build_entry env tk a b payload (vs_last st) n = Inr e"
    and "decode_line (ae_chain env) body = LineValue (PDict e)" and "\<not> blank body"
    and "vs_previous st = None \<or> vs_previous st = Some (vs_last st)" and "validate_hex_hash (PStr (vs_last st))"
    and "vs_sequence st' \<le> n" and "weaker st' st"
  shows "check_line (ae_chain env) body st' = Inr (after_record e st')"
proof -
  note f = built_record [OF assms(2)]
  obtain t where "ce_sha256 (ae_chain env) t = stored_hash e"
    using f(6) by (auto simp: record_hash_def res_bind_eq_Inr)
  then have "stored_hash e = ce_sha256 (ae_chain env) t" ..
  then have "validate_hex_hash (PStr (stored_hash e))"
    using assms(1) by (simp add: validate_hex_hash_def env_ok_def)
  then have "sealed (ae_chain env) e" using f assms(6) by (simp add: sealed_def)
  moreover have "prev_hash e = vs_last st" using f(2) by (simp add: prev_hash_def text_of_def)
  moreover have "sequence_ok e st'" using f(3) assms(7) by (simp add: sequence_ok_def int_value_def)
  ultimately have "check_record (ae_chain env) e st' = Inr (after_record e st')"
    using f(5) assms(5,8) by (auto simp: check_record_Inr weaker_def)
  then show ?thesis using assms(3,4) by (simp add: check_line_def)
qed

text \<open>The effect of \<open>_append_record_locked\<close>, whatever the operating system does.\<close>

definition settings_ok :: "audit_cfg \<Rightarrow> audit \<Rightarrow> bool" where
  "settings_ok cfg s \<longleftrightarrow> ac_max_record_bytes cfg \<le> int tail_window \<and> next_rotation_index cfg (au_dir s) < 1000000"

definition attempted ::
  "audit_env \<Rightarrow> audit_cfg \<Rightarrow> rawval \<Rightarrow> vstate \<Rightarrow> pydict \<Rightarrow> string \<Rightarrow> bool" where
  "attempted env cfg payload st e body \<longleftrightarrow> clean body \<and> \<not> blank body \<and> length (body @ [CHR 0x0A]) \<le> tail_window \<and>
     decode_line (ae_chain env) body = LineValue (PDict e) \<and>
     json_ok (compact_style (ce_float (ae_chain env))) (PDict e) \<and> py_get e ''payload'' = safe_value env payload \<and>
     (\<forall>st'. weaker st' st \<longrightarrow> check_line (ae_chain env) body st' = Inr (after_record e st'))"

lemma append_record_outcome:
  assumes inv: "log_state env cfg s raws st" and env: "env_ok (ae_chain env)" and pay: "payload_ok env tk payload"
    and set: "settings_ok cfg s" and run: "append_record_locked env cfg tk source subject payload s = (r, s')"
  shows "dict_ok (au_dir s') \<and> au_bad s' = [] \<and> au_root s' = au_root s \<and> vs_sequence st \<le> au_last_sequence s' \<and>
    (\<exists>j \<le> length raws - nat (ac_backup_count cfg). \<not> is_ok r \<and> has_log (ac_file_name cfg) (au_dir s') (drop j raws) \<or>
      (\<exists>e body data. attempted env cfg payload st e body \<and> prefix data (body @ [CHR 0x0A]) \<and>
         extended (ac_file_name cfg) (au_dir s') (drop j raws) data \<and>
         (is_ok r \<longrightarrow> data = body @ [CHR 0x0A] \<and> r = Inr (stored_hash e) \<and>
            int_value (py_get e ''sequence'') = Some (au_last_sequence s'))))"
proof -
  let ?fn = "ac_file_name cfg" and ?env = "ae_chain env"
  have i: "dict_ok (au_dir s)" "au_bad s = []" "has_log ?fn (au_dir s) raws" "list_all window_ok raws"
    "run_lines ?env (concat (map splitlines raws)) vstate0 = Inr st" "vs_sequence st \<le> au_last_sequence s"
    using inv by (auto simp: log_state_def good_log_def)
  obtain n where tail: "tail_state_locked env cfg s = (Inr (vs_last st, n), s)" "vs_sequence st \<le> n" "validate_hex_hash (PStr (vs_last st))"
    using tail_of_log [OF i(3) [unfolded has_log_def] i(4-6)] i(2) by (fastforce simp: tail_state_locked_def Let_def)
  have prev: "vs_previous st = None \<or> vs_previous st = Some (vs_last st)"
    using run_lines_previous [OF i(5)] by (auto simp: vstate0_def split: if_splits)
  let ?s = "remember (vs_last st) n s"
  have early: ?thesis if "r = Inl x" "s' = s \<or> s' = ?s" for x
    using that i tail(2) by (auto simp: remember_def intro!: exI [of _ 0])
  show ?thesis
  proof (cases "validate_record_input source subject payload")
    case (Inl x)
    then have "r = Inl x" "s' = s" using run by (simp_all add: append_record_locked_def eff_bind_run)
    then show ?thesis using early by blast
  next
    case (Inr ab)
    obtain a b where ab: "ab = (a, b)" by (cases ab)
    show ?thesis
    proof (cases "build_entry env tk a b payload (vs_last st) n")
      case (Inl x)
      then have "r = Inl x" "s' = ?s" using run tail ab \<open>validate_record_input _ _ _ = _\<close>
        by (simp_all add: append_record_locked_def eff_bind_run)
      then show ?thesis using early by blast
    next
      case e: (Inr e)
      show ?thesis
      proof (cases "encode_entry env cfg e")
        case (Inl x)
        then have "r = Inl x" "s' = ?s" using run tail e ab \<open>validate_record_input _ _ _ = _\<close>
          by (simp_all add: append_record_locked_def eff_bind_run)
        then show ?thesis using early by blast
      next
        case line: (Inr line)
        obtain body where body: "line = body @ [CHR 0x0A]" "clean body" "\<not> blank body" "int (length line) \<le> ac_max_record_bytes cfg"
          "decode_line ?env body = LineValue (PDict e)" "json_ok (compact_style (ce_float ?env)) (PDict e)"
          using built_line [OF env pay e line] by blast
        have att: "attempted env cfg payload st e body"
          unfolding attempted_def
        proof (intro conjI allI impI)
          show "length (body @ [CHR 0x0A]) \<le> tail_window" using body(1,4) set by (simp add: settings_ok_def)
          show "py_get e ''payload'' = safe_value env payload" using built_record [OF e] by simp
          fix st' assume w: "weaker st' st"
          then have "vs_sequence st' \<le> n" using tail(2) by (simp add: weaker_def)
          then show "check_line ?env body st' = Inr (after_record e st')"
            using built_continues [OF env e body(5,3) prev tail(3) _ w] by simp
        qed (use body in auto)
        define sz where "sz = node_size (dict_get (au_dir s) ?fn)"
        let ?rot = "eff_when (sz \<noteq> 0 \<and> int (sz + length line) > ac_max_bytes cfg) (eff_bind (rotate_locked cfg) (\<lambda>_. eff_return ()))"
        have rem: "au_dir ?s = au_dir s" "au_bad ?s = au_bad s" "au_root ?s = au_root s" "au_last_sequence ?s = n" by (simp_all add: remember_def)
        have run1: "eff_bind ?rot (\<lambda>_. eff_bind (append_bytes_locked cfg line) (\<lambda>_.
            eff_bind (eff_modify (remember (stored_hash e) (n + 1))) (\<lambda>_. eff_return (stored_hash e)))) ?s = (r, s')"
          using run tail e line ab \<open>validate_record_input _ _ _ = _\<close>
          by (simp add: append_record_locked_def eff_bind_run sz_def remember_def)
        have rot: "frame s1 = frame ?s \<and> dict_ok (au_dir s1) \<and>
            (\<exists>j \<le> length raws - nat (ac_backup_count cfg). has_log ?fn (au_dir s1) (drop j raws))"
          if "?rot ?s = (q, s1)" for q s1
        proof (cases "sz \<noteq> 0 \<and> int (sz + length line) > ac_max_bytes cfg")
          case True
          obtain q' t where q': "rotate_locked cfg ?s = (q', t)" by (cases "rotate_locked cfg ?s")
          then have "t = s1" using that True by (cases q') (simp_all add: eff_when_def eff_bind_def)
          with q' have "rotate_locked cfg ?s = (q', s1)" by simp
          then show ?thesis using rotate_locked_outcome [of cfg ?s q' s1 raws] i set by (simp add: rem settings_ok_def)
        next
          case False
          then show ?thesis using that i rem by (auto simp: eff_when_def intro!: exI [of _ 0])
        qed
        from run1 show ?thesis
        proof (cases rule: bind_cases)
          case (stop x)
          note rr = rot [OF stop(1)]
          then have "au_bad s' = [] \<and> au_root s' = au_root s \<and> au_last_sequence s' = n" using i(2) by (simp add: frame_def remember_def)
          then show ?thesis using rr stop(2) tail(2) by auto
        next
          case (go u s1)
          note rr = rot [OF go(1)]
          then obtain j where j: "has_log ?fn (au_dir s1) (drop j raws)" "j \<le> length raws - nat (ac_backup_count cfg)" by blast
          have s1: "au_bad s1 = [] \<and> au_root s1 = au_root s \<and> au_last_sequence s1 = n" using rr i(2) by (simp add: frame_def remember_def)
          obtain q s2 where app: "append_bytes_locked cfg line s1 = (q, s2)" by (cases "append_bytes_locked cfg line s1")
          obtain data where data: "frame s2 = frame s1" "dict_ok (au_dir s2)" "prefix data line"
              "extended ?fn (au_dir s2) (drop j raws) data" "is_ok q \<longrightarrow> data = line"
            using append_bytes_outcome [OF app _ j(1)] rr by blast
          have s2: "au_bad s2 = [] \<and> au_root s2 = au_root s \<and> au_last_sequence s2 = n" using data(1) s1 by (simp add: frame_def)
          have fin: "if is_ok q then r = Inr (stored_hash e) \<and> s' = remember (stored_hash e) (n + 1) s2 else s' = s2 \<and> \<not> is_ok r"
            using go(2) app by (cases q) (auto simp: eff_bind_def)
          have "au_dir s' = au_dir s2 \<and> au_bad s' = [] \<and> au_root s' = au_root s \<and> n \<le> au_last_sequence s' \<and>
              (is_ok r \<longrightarrow> is_ok q \<and> r = Inr (stored_hash e) \<and> au_last_sequence s' = n + 1)"
            using fin s2 by (auto simp: remember_def split: if_splits)
          moreover have "int_value (py_get e ''sequence'') = Some (n + 1)" using built_record(3) [OF e] by (simp add: int_value_def)
          ultimately show ?thesis using att data body(1) tail(2) j(2) by (intro conjI exI [of _ j] disjI2) auto
        qed
      qed
    qed
  qed
qed

text \<open>The log after the whole line is there.\<close>

lemma extended_lines:
  assumes "extended fn d K data" and "data \<noteq> []"
  obtains rs b where "has_log fn d (rs @ [b @ data])" "dict_get d fn \<noteq> None" "K = rs @ [b] \<or> K = rs \<and> b = []"
  using assms unfolding extended_def by blast

lemma good_log_append:
  assumes "good_log (ae_chain env) K st" and "attempted env cfg payload st0 e body" and "weaker st st0"
    and "extended fn d K (body @ [CHR 0x0A])"
  shows "\<exists>K'. has_log fn d K' \<and> good_log (ae_chain env) K' (after_record e st) \<and>
    concat (map splitlines K') = concat (map splitlines K) @ [body]"
proof -
  let ?line = "body @ [CHR 0x0A]"
  obtain rs b where rs: "has_log fn d (rs @ [b @ ?line])" "K = rs @ [b] \<or> K = rs \<and> b = []"
    by (rule extended_lines [OF assms(4)]) auto
  have t: "terminated b" "list_all terminated rs" "list_all window_ok rs"
    using rs(2) assms(1) by (auto simp: good_log_def terminated_def list_all_iff)
  have body: "clean body" "\<not> blank body" "length ?line \<le> tail_window" using assms(2) by (auto simp: attempted_def)
  have "splitlines (b @ ?line) = splitlines b @ [body]" using splitlines_snoc t(1) body(1) by simp
  moreover have "concat (map splitlines K) = concat (map splitlines rs) @ splitlines b" using rs(2) by auto
  ultimately have lines: "concat (map splitlines (rs @ [b @ ?line])) = concat (map splitlines K) @ [body]" by simp
  have "run_lines (ae_chain env) (concat (map splitlines K) @ [body]) vstate0 = Inr (after_record e st)"
    using assms(1,2,3) by (simp add: run_lines_append good_log_def attempted_def)
  moreover have "terminated (b @ ?line)" by (simp add: terminated_def)
  moreover have "window_ok (b @ ?line)" by (rule window_snoc [OF t(1) body])
  ultimately have "good_log (ae_chain env) (rs @ [b @ ?line]) (after_record e st)"
    using t lines by (simp add: good_log_def)
  then show ?thesis using lines rs(1) by blast
qed

lemma log_state_steady:
  assumes "log_state env cfg s raws st" and "steady (ac_file_name cfg) m" and "m s = (r, s')"
  shows "log_state env cfg s' raws st" and "settings_ok cfg s \<Longrightarrow> settings_ok cfg s'"
  using assms(1) steadyD [OF assms(2,3)]
  by (auto simp: log_state_def frame_def settings_ok_def next_rotation_index_def)

lemma log_state_retained: "log_state env cfg s raws st \<Longrightarrow> retained env cfg s = log_records (ae_chain env) (concat (map splitlines raws))"
  using has_log_lines [of "ac_file_name cfg" "au_dir s" raws] by (simp add: log_state_def retained_def)

lemma attempted_record: "attempted env cfg payload st e body \<Longrightarrow> log_records (ae_chain env) [body] = [e]"
  by (simp add: attempted_def record_of_line_def)

lemma attempted_sequence: "int_value (py_get e ''sequence'') = Some i \<Longrightarrow> vs_sequence (after_record e st) = i"
  by (simp add: after_record_def next_sequence_def)

lemma log_state_verifies:
  assumes "log_state env cfg s raws st"
  shows "\<exists>rep. verify_locked env cfg s = (Inr rep, s) \<and> ir_valid rep \<and> ir_last_hash rep = vs_last st \<and>
    ir_last_sequence rep = vs_sequence st"
proof -
  have "log_verifies (ae_chain env) [] (ac_file_name cfg) (au_dir s) st"
    using assms by (auto simp: log_verifies_iff log_state_def good_log_def)
  then show ?thesis using assms by (simp add: verify_locked_def verify_of_log log_state_def report_of_def)
qed

lemma recent_suffix:
  assumes "log_state env cfg s raws st" and "j \<le> length raws - k"
  shows "suffix (recent_records env cfg k s) (log_records (ae_chain env) (concat (map splitlines (drop j raws))))"
proof -
  have "map (segment_bytes (au_dir s)) (segments_for (ac_file_name cfg) (au_dir s)) = raws"
    using assms(1) holds_bytes by (simp add: log_state_def has_log_def)
  then have "recent_records env cfg k s = log_records (ae_chain env) (concat (map splitlines (drop (length raws - k) raws)))"
    by (auto simp: recent_records_def drop_map)
  moreover have "drop (length raws - k) raws = drop (length raws - k - j) (drop j raws)"
    by (simp only: drop_drop le_add_diff_inverse2 [OF assms(2)])
  moreover obtain ls where "concat (map splitlines (drop j raws)) = ls @ concat (map splitlines (drop (length raws - k - j) (drop j raws)))"
    using concat_drop by blast
  ultimately show ?thesis by (simp add: suffix_def)
qed

lemma record_outcome:
  assumes "log_ok env cfg s" and "env_ok (ae_chain env)" and "payload_ok env tk payload" and "settings_ok cfg s"
    and "record_event env cfg tk source subject payload s = (Inr h, s')"
  shows "\<exists>K st e kept. log_state env cfg s' K (after_record e st) \<and> stored_hash e = h \<and>
    suffix kept (retained env cfg s) \<and> suffix (recent_records env cfg (nat (ac_backup_count cfg)) s) kept \<and> retained env cfg s' = kept @ [e] \<and>
    py_get e ''payload'' = safe_value env payload \<and> json_ok (compact_style (ce_float (ae_chain env))) (PDict e)"
proof -
  obtain raws st where inv: "log_state env cfg s raws st" using assms(1) by (auto simp: log_ok_def)
  obtain u s0 where s0: "open_secure True 384 (lock_name cfg) s = (Inr u, s0)"
      "append_record_locked env cfg tk source subject payload s0 = (Inr h, s')"
    using assms(5) by (auto simp: record_event_def with_lock_def eff_bind_Inr)
  note inv0 = log_state_steady [OF inv steady_lock s0(1)]
  obtain j e body where j: "j \<le> length raws - nat (ac_backup_count cfg)" and
      e: "attempted env cfg payload st e body" "stored_hash e = h" "dict_ok (au_dir s')" "au_bad s' = []"
      "extended (ac_file_name cfg) (au_dir s') (drop j raws) (body @ [CHR 0x0A])"
      "int_value (py_get e ''sequence'') = Some (au_last_sequence s')"
    using append_record_outcome [OF inv0(1) assms(2,3) inv0(2) [OF assms(4)] s0(2)] by auto
  obtain ls where ls: "concat (map splitlines raws) = ls @ concat (map splitlines (drop j raws))" using concat_drop by blast
  obtain st' where st': "good_log (ae_chain env) (drop j raws) st'" "weaker st' st"
    using good_log_drop [of "ae_chain env" raws st] inv by (auto simp: log_state_def)
  obtain K where K: "has_log (ac_file_name cfg) (au_dir s') K" "good_log (ae_chain env) K (after_record e st')"
      "concat (map splitlines K) = concat (map splitlines (drop j raws)) @ [body]"
    using good_log_append [OF st'(1) e(1) st'(2) e(5)] by blast
  then have final: "log_state env cfg s' K (after_record e st')"
    using e(3,4) attempted_sequence [OF e(6)] by (simp add: log_state_def)
  have "retained env cfg s' = log_records (ae_chain env) (concat (map splitlines (drop j raws))) @ [e]"
    using log_state_retained [OF final] K(3) attempted_record [OF e(1)] by simp
  moreover have "suffix (log_records (ae_chain env) (concat (map splitlines (drop j raws)))) (retained env cfg s)"
    using log_state_retained [OF inv] ls by (simp add: suffix_def)
  moreover have "suffix (recent_records env cfg (nat (ac_backup_count cfg)) s) (log_records (ae_chain env) (concat (map splitlines (drop j raws))))"
    using recent_suffix [OF inv j] .
  moreover have "py_get e ''payload'' = safe_value env payload" "json_ok (compact_style (ce_float (ae_chain env))) (PDict e)"
    using e(1) by (simp_all add: attempted_def)
  ultimately show ?thesis using final e(2) by blast
qed

section \<open>Properties\<close>

text \<open>C38: Recording an event appends exactly one record. From a log that verifies, a successful call
  leaves a log that verifies: its records are an end of the previous ones that contains at least those of the newest
  \<open>backup_count\<close> segments (rotation drops whole segments, oldest first, and no more), followed by one new record that carries the payload, the returned hash
  is that record's, and verification reports it as the last. This holds for every outcome of the
  operating-system calls under which the method returns.\<close>

theorem record_appends:
  assumes "log_ok env cfg s" and "env_ok (ae_chain env)" and "payload_ok env tk payload" and "settings_ok cfg s"
    and "record_event env cfg tk source subject payload s = (Inr h, s')"
  shows "log_ok env cfg s' \<and> (\<exists>kept e rep. suffix kept (retained env cfg s) \<and>
    suffix (recent_records env cfg (nat (ac_backup_count cfg)) s) kept \<and> retained env cfg s' = kept @ [e] \<and>
    py_get e ''payload'' = safe_value env payload \<and> stored_hash e = h \<and>
    verify_locked env cfg s' = (Inr rep, s') \<and> ir_valid rep \<and> ir_last_hash rep = h)"
proof -
  obtain K st e kept where e: "log_state env cfg s' K (after_record e st)" "stored_hash e = h"
      "suffix kept (retained env cfg s)" "suffix (recent_records env cfg (nat (ac_backup_count cfg)) s) kept" "retained env cfg s' = kept @ [e]" "py_get e ''payload'' = safe_value env payload"
    using record_outcome [OF assms] by blast
  moreover obtain rep where "verify_locked env cfg s' = (Inr rep, s')" "ir_valid rep" "ir_last_hash rep = h"
    using log_state_verifies [OF e(1)] e(2) by (auto simp: after_record_def)
  ultimately show ?thesis unfolding log_ok_def by blast
qed

text \<open>C39: The log is tamper-evident. If two log directories both verify and end in the same hash, then
  the hashed texts of their records agree from the end backwards for as long as both have records:
  one log is the end of the other. So a retained record cannot be changed, inserted, removed or
  reordered while verification succeeds and the last hash stays. The digest must have no collision
  among the hashed texts of the two logs, and floats must print so that they read back.\<close>

theorem tamper_evident:
  assumes "verify_audit_directory env lp bad fn repaired artifact d = Inr rep" and "ir_valid rep"
    and "verify_audit_directory env lp' bad' fn' repaired' artifact' d' = Inr rep'" and "ir_valid rep'"
    and "ir_last_hash rep = ir_last_hash rep'"
    and "log_records env (log_lines fn d) \<noteq> []" and "log_records env (log_lines fn' d') \<noteq> []"
    and "list_all (printable env) (log_records env (log_lines fn d) @ log_records env (log_lines fn' d'))"
    and "inj_on (ce_sha256 env)
      (hashed_text env ` set (log_records env (log_lines fn d) @ log_records env (log_lines fn' d')))"
  shows "suffix (map (hashed_text env) (log_records env (log_lines fn d))) (map (hashed_text env) (log_records env (log_lines fn' d'))) \<or>
    suffix (map (hashed_text env) (log_records env (log_lines fn' d'))) (map (hashed_text env) (log_records env (log_lines fn d)))"
proof -
  have chain: "linked env None (log_records env (log_lines f x)) (Some (ir_last_hash r))"
    if v: "verify_audit_directory env l b f rd a x = Inr r" and iv: "ir_valid r" and ne: "log_records env (log_lines f x) \<noteq> []" for l b f rd a x r
  proof -
    obtain st where st: "log_verifies env b f x st" "r = report_of st (length (segments_for f x)) rd a"
      using verify_valid_log [OF v iv] by blast
    then have run: "run_lines env (log_lines f x) vstate0 = Inr st" by (simp add: log_verifies_def)
    then have "vs_previous st = Some (vs_last st)" using run_lines_previous [OF run] ne by (auto split: if_splits)
    then show ?thesis using run_lines_linked [OF run] st(2) by (simp add: vstate0_def report_of_def)
  qed
  show ?thesis
    using linked_agree [OF chain [OF assms(1,2,6)]] chain [OF assms(3,4,7)] assms(5,8,9) by simp
qed

section \<open>Startup\<close>

text \<open>With no failing calls, every step of the startup does what it says.\<close>

lemma calm_call: "au_script s = [] \<Longrightarrow> f s = Inr s' \<Longrightarrow> os_call f s = (Inr (), s')"
  by (simp add: os_call_def pop_outcome_def eff_bind_run)

lemma calm_fsync [simp]: "au_script s = [] \<Longrightarrow> fsync s = (Inr (), s)"
  by (simp add: fsync_def calm_call)

text \<open>The directory as a restart may find it: the entries the startup needs are usable.\<close>

definition startup_ready :: "audit_cfg \<Rightarrow> tick \<Rightarrow> audit \<Rightarrow> bool" where
  "startup_ready cfg tk s \<longleftrightarrow> au_script s = [] \<and> au_bad s = [] \<and> dict_ok (au_dir s) \<and> (\<exists>m. au_root s = RootDir m) \<and>
     (case dict_get (au_dir s) (lock_name cfg) of None \<Rightarrow> True | Some (Regular _ _) \<Rightarrow> True | Some _ \<Rightarrow> False) \<and>
     (case dict_get (au_dir s) ''corrupt'' of None \<Rightarrow> True | Some Directory \<Rightarrow> True | Some _ \<Rightarrow> False) \<and>
     dict_get (au_artifacts s) (''trailing-partial-'' @ show_nat (tk_ns tk) @ ''.bin'') = None"

text \<open>The contents a repair ends with: a partial line at the end of the active segment is cut.\<close>

definition recoverable :: "string \<Rightarrow> log_dir \<Rightarrow> string list \<Rightarrow> bool" where
  "recoverable fn d R \<longleftrightarrow> (dict_get d fn = None \<and> has_log fn d R) \<or>
     (\<exists>rs b data. R = rs @ [b] \<and> has_log fn d (rs @ [b @ data]) \<and> dict_get d fn \<noteq> None \<and> CHR 0x0A \<notin> set data)"

lemma recoverable_steady: "recoverable fn (au_dir s) R \<Longrightarrow> steady fn m \<Longrightarrow> m s = (r, s') \<Longrightarrow> recoverable fn (au_dir s') R"
  unfolding recoverable_def using steadyD(3,4) by metis

text \<open>Steps that keep the directory ready.\<close>

definition calm_step :: "audit_cfg \<Rightarrow> tick \<Rightarrow> unit audit_op \<Rightarrow> audit \<Rightarrow> bool" where
  "calm_step cfg tk m s \<longleftrightarrow> (\<exists>s'. m s = (Inr (), s') \<and> startup_ready cfg tk s' \<and>
     (\<forall>R. recoverable (ac_file_name cfg) (au_dir s) R \<longrightarrow> recoverable (ac_file_name cfg) (au_dir s') R))"

lemma calm_stepE:
  assumes "calm_step cfg tk m s"
  obtains s' where "m s = (Inr (), s')" "startup_ready cfg tk s'"
    "\<And>R. recoverable (ac_file_name cfg) (au_dir s) R \<Longrightarrow> recoverable (ac_file_name cfg) (au_dir s') R"
  using assms unfolding calm_step_def by blast

lemma calm_steps:
  assumes "calm_step cfg tk m s" and "\<And>s'. m s = (Inr (), s') \<Longrightarrow> startup_ready cfg tk s' \<Longrightarrow> calm_step cfg tk m' s'"
  shows "calm_step cfg tk (eff_bind m (\<lambda>_. m')) s"
proof -
  obtain s1 where 1: "m s = (Inr (), s1)" "startup_ready cfg tk s1"
    "\<And>R. recoverable (ac_file_name cfg) (au_dir s) R \<Longrightarrow> recoverable (ac_file_name cfg) (au_dir s1) R"
    using calm_stepE [OF assms(1)] by blast
  obtain s2 where "m' s1 = (Inr (), s2)" "startup_ready cfg tk s2"
    "\<And>R. recoverable (ac_file_name cfg) (au_dir s1) R \<Longrightarrow> recoverable (ac_file_name cfg) (au_dir s2) R"
    using calm_stepE [OF assms(2) [OF 1(1,2)]] by blast
  then show ?thesis using 1 unfolding calm_step_def by auto
qed

lemma calm_fsync_step: "startup_ready cfg tk s \<Longrightarrow> calm_step cfg tk fsync s"
  unfolding calm_step_def by (auto simp: startup_ready_def)

lemma calm_chmod:
  assumes "startup_ready cfg tk s" and "dict_get (au_dir s) n = Some (Regular b m)"
  shows "calm_step cfg tk (os_call (chmod_node mode n)) s"
proof -
  have run: "os_call (chmod_node mode n) s = (Inr (), set_node n (Regular b mode) s)"
    using assms by (intro calm_call) (auto simp: chmod_node_def startup_ready_def)
  moreover have "startup_ready cfg tk (set_node n (Regular b mode) s)"
    using assms by (auto simp: startup_ready_def set_node_def split: option.splits node.splits)
  ultimately show ?thesis unfolding calm_step_def using recoverable_steady [OF _ steady_calls(2) run] by blast
qed

lemma calm_lock:
  assumes "startup_ready cfg tk s"
  shows "calm_step cfg tk (open_secure True 384 (lock_name cfg)) s"
proof (cases "dict_get (au_dir s) (lock_name cfg)")
  case None
  have run: "open_secure True 384 (lock_name cfg) s = (Inr (), set_node (lock_name cfg) (Regular [] 384) s)"
    unfolding open_secure_def using assms None by (intro calm_call) (auto simp: startup_ready_def)
  have "lock_name cfg \<noteq> ''corrupt''" by (simp add: lock_name_def)
  then have "startup_ready cfg tk (set_node (lock_name cfg) (Regular [] 384) s)"
    using assms None by (auto simp: startup_ready_def set_node_def split: option.splits node.splits)
  then show ?thesis unfolding calm_step_def using run recoverable_steady [OF _ steady_lock run] by blast
next
  case (Some x)
  then obtain b m where "x = Regular b m" using assms by (cases x) (auto simp: startup_ready_def)
  then have run: "open_secure True 384 (lock_name cfg) s = (Inr (), s)"
    unfolding open_secure_def using assms Some by (intro calm_call) (auto simp: startup_ready_def)
  then show ?thesis using assms unfolding calm_step_def by blast
qed

lemma calm_enforce:
  assumes "startup_ready cfg tk s" and "\<forall>n \<in> set ns. \<exists>b m. dict_get (au_dir s) n = Some (Regular b m)"
  shows "calm_step cfg tk (eff_for (\<lambda>segment. eff_bind (\<lambda>s. (assert_regular_nosymlink (au_dir s) segment, s)) (\<lambda>_.
    os_call (chmod_node mode segment))) ns) s"
  using assms
proof (induction ns arbitrary: s)
  case Nil
  then show ?case by (auto simp: calm_step_def)
next
  case (Cons n ns)
  obtain b m where n: "dict_get (au_dir s) n = Some (Regular b m)" using Cons.prems(2) by auto
  let ?f = "\<lambda>segment. eff_bind (\<lambda>s. (assert_regular_nosymlink (au_dir s) segment, s)) (\<lambda>_. os_call (chmod_node mode segment))"
  have same: "?f n s = os_call (chmod_node mode n) s"
    using n by (simp add: eff_bind_run assert_regular_nosymlink_def)
  have "calm_step cfg tk (?f n) s" using calm_chmod [OF Cons.prems(1) n, of mode] same by (simp add: calm_step_def)
  then show ?case
    unfolding eff_for.simps
  proof (rule calm_steps)
    fix s' assume run: "?f n s = (Inr (), s')" and ready: "startup_ready cfg tk s'"
    have "s' = set_node n (Regular b mode) s"
      using run n Cons.prems(1) calm_call [of s "chmod_node mode n"] unfolding same
      by (simp add: chmod_node_def startup_ready_def)
    then show "calm_step cfg tk (eff_for ?f ns) s'"
      using Cons.prems(2) by (intro Cons.IH [OF ready]) (auto simp: set_node_def)
  qed
qed

lemma recoverable_regular:
  assumes "recoverable fn d R" and "n \<in> set (segments_for fn d)"
  shows "\<exists>b m. dict_get d n = Some (Regular b m)"
proof -
  obtain raws where "holds d (segments_for fn d) raws" using assms(1) by (auto simp: recoverable_def has_log_def)
  then show ?thesis using assms(2) unfolding holds_def by (auto simp: list_all2_conv_all_nth in_set_conv_nth)
qed

lemma whole_lines_partial: "terminated b \<Longrightarrow> CHR 0x0A \<notin> set data \<Longrightarrow> whole_lines (b @ data) = b"
proof -
  assume b: "terminated b" and data: "CHR 0x0A \<notin> set data"
  have "dropWhile (\<lambda>c. c \<noteq> CHR 0x0A) (rev b) = rev b"
    using b by (cases b rule: rev_cases) (auto simp: terminated_def)
  moreover have "dropWhile (\<lambda>c. c \<noteq> CHR 0x0A) (rev data @ rev b) = dropWhile (\<lambda>c. c \<noteq> CHR 0x0A) (rev b)"
    using data by (intro dropWhile_append2) auto
  ultimately show ?thesis by (simp add: whole_lines_def)
qed

lemma calm_run [simp]:
  "au_script s = [] \<Longrightarrow> os_call f s = (case f s of Inl e \<Rightarrow> (Inl e, s) | Inr s' \<Rightarrow> (Inr (), s'))"
  "au_script s = [] \<Longrightarrow> write_count view s = (Inr (length view), s)"
  by (simp_all add: os_call_def write_count_def pop_outcome_def eff_bind_run)

lemma repair_partial:
  assumes ready: "startup_ready cfg tk s" and ne: "ac_file_name cfg \<noteq> ''corrupt''"
    and fn: "dict_get (au_dir s) (ac_file_name cfg) = Some (Regular (b @ data) m)"
    and b: "terminated b" and data: "CHR 0x0A \<notin> set data" "data \<noteq> []"
  shows "\<exists>s' x. repair_active_trailing_partial_locked cfg tk s = (Inr (), s') \<and> au_script s' = [] \<and> au_bad s' = [] \<and>
    (au_dir s' = dict_set (ac_file_name cfg) (Regular b (ac_file_mode cfg)) (au_dir s) \<or>
     au_dir s' = dict_set (ac_file_name cfg) (Regular b (ac_file_mode cfg)) (dict_set ''corrupt'' Directory (au_dir s))) \<and>
    dict_get (au_artifacts s') x = Some data"
proof -
  let ?fn = "ac_file_name cfg"
  let ?art = "''trailing-partial-'' @ show_nat (tk_ns tk) @ ''.bin''"
  have calm: "au_script s = []" "au_bad s = []" "dict_get (au_artifacts s) ?art = None" using ready by (auto simp: startup_ready_def)
  have read: "read_segment [] (au_dir s) ?fn = Inr (b @ data)" using fn by (simp add: read_segment_Inr)
  have torn: "\<not> terminated (b @ data)" using data by (cases data rule: rev_cases) (auto simp: terminated_def)
  have cut: "whole_lines (b @ data) = b" "fragment (b @ data) = data"
    using whole_lines_partial [OF b data(1)] by (simp_all add: fragment_def)
  have ex: "node_exists (Some (Regular (b @ data) m))" by (simp add: node_exists_def)
  note steps = repair_active_trailing_partial_locked_def Let_def eff_bind_run make_corrupt_dir_def open_artifact_def
    write_artifact_def open_secure_def truncate_node_def chmod_node_def set_node_def
  consider "dict_get (au_dir s) ''corrupt'' = None" | "dict_get (au_dir s) ''corrupt'' = Some Directory"
    using ready by (auto simp: startup_ready_def split: option.splits node.splits)
  then show ?thesis
  proof cases
    case 1
    then show ?thesis using calm read torn cut ex fn ne by (simp add: steps) (metis dict_get_set)
  next
    case 2
    then show ?thesis using calm read torn cut ex fn ne by (simp add: steps) (metis dict_get_set)
  qed
qed

lemma repair_recovers:
  assumes ready: "startup_ready cfg tk s" and ne: "ac_file_name cfg \<noteq> ''corrupt''"
    and rec: "recoverable (ac_file_name cfg) (au_dir s) R" and ends: "list_all terminated R"
  shows "\<exists>s'. repair_active_trailing_partial_locked cfg tk s = (Inr (), s') \<and> au_script s' = [] \<and> au_bad s' = [] \<and>
    dict_ok (au_dir s') \<and> has_log (ac_file_name cfg) (au_dir s') R"
proof -
  let ?fn = "ac_file_name cfg"
  have calm: "au_script s = []" "au_bad s = []" "dict_ok (au_dir s)" using ready by (auto simp: startup_ready_def)
  show ?thesis
  proof (cases "dict_get (au_dir s) ?fn")
    case None
    then have "repair_active_trailing_partial_locked cfg tk s = (Inr (), s)"
      by (simp add: repair_active_trailing_partial_locked_def eff_bind_run Let_def node_exists_def)
    then show ?thesis using None rec calm by (auto simp: recoverable_def)
  next
    case (Some x)
    then obtain rs b data where R: "R = rs @ [b]" "has_log ?fn (au_dir s) (rs @ [b @ data])" "CHR 0x0A \<notin> set data"
      using rec by (auto simp: recoverable_def)
    have "dict_get (au_dir s) ?fn \<noteq> None" using Some by simp
    from has_log_active [OF this R(2)] obtain m where m: "dict_get (au_dir s) ?fn = Some (Regular (b @ data) m)" by auto
    have b: "terminated b" using ends R(1) by simp
    show ?thesis
    proof (cases "data = []")
      case True
      then have "repair_active_trailing_partial_locked cfg tk s = (Inr (), s)"
        using m b calm by (simp add: repair_active_trailing_partial_locked_def eff_bind_run Let_def node_exists_def
            read_segment_def assert_regular_nosymlink_def)
      then show ?thesis using calm R True by auto
    next
      case False
      obtain s' where s': "repair_active_trailing_partial_locked cfg tk s = (Inr (), s')" "au_script s' = []" "au_bad s' = []"
        "au_dir s' = dict_set ?fn (Regular b (ac_file_mode cfg)) (au_dir s) \<or>
         au_dir s' = dict_set ?fn (Regular b (ac_file_mode cfg)) (dict_set ''corrupt'' Directory (au_dir s))"
        using repair_partial [OF ready ne m b R(3) False] by blast
      have c: "segment_index ?fn ''corrupt'' = None" using segment_index_last [of ?fn "''corrupt''"]
        by (cases "segment_index ?fn ''corrupt''") (auto simp: is_digit_def char_code_def)
      have "has_log ?fn (au_dir s') R"
        using s'(4) has_log_extend [OF m R(2)] has_log_extend [of "dict_set ''corrupt'' Directory (au_dir s)" ?fn "b @ data" m rs]
          has_log_other [OF c ne [symmetric] R(2)] m ne R(1) by auto
      then show ?thesis using s' calm(3) by auto
    qed
  qed
qed

lemma calm_lock_file:
  assumes "startup_ready cfg tk s"
  shows "calm_step cfg tk (ensure_lock_file cfg) s"
  unfolding ensure_lock_file_def
proof (rule calm_steps [OF calm_lock [OF assms]])
  fix s' assume run: "open_secure True 384 (lock_name cfg) s = (Inr (), s')" and ready: "startup_ready cfg tk s'"
  have "\<exists>b m. dict_get (au_dir s') (lock_name cfg) = Some (Regular b m)"
    using run unfolding open_secure_def
    by (cases rule: os_call_cases) (auto simp: set_node_def split: option.splits node.splits)
  then obtain b m where "dict_get (au_dir s') (lock_name cfg) = Some (Regular b m)" by blast
  from calm_chmod [OF ready this] show "calm_step cfg tk (eff_bind (os_call (chmod_node 384 (lock_name cfg))) (\<lambda>_. fsync)) s'"
    by (rule calm_steps) (rule calm_fsync_step)
qed

lemma calm_directory: "startup_ready cfg tk s \<Longrightarrow> calm_step cfg tk (ensure_secure_directory cfg) s"
  unfolding startup_ready_def calm_step_def by (auto simp: ensure_secure_directory_def eff_bind_run)

lemma calm_permissions:
  assumes "startup_ready cfg tk s" and "recoverable (ac_file_name cfg) (au_dir s) R"
  shows "calm_step cfg tk (enforce_segment_permissions_locked cfg) s"
proof -
  have "\<forall>n \<in> set (segments_for (ac_file_name cfg) (au_dir s)). \<exists>b m. dict_get (au_dir s) n = Some (Regular b m)"
    using recoverable_regular [OF assms(2)] by blast
  from calm_enforce [OF assms(1) this] show ?thesis
    by (simp add: calm_step_def enforce_segment_permissions_locked_def eff_bind_run)
qed

text \<open>A startup on a recoverable directory succeeds and leaves the recovered log.\<close>

lemma init_recovers:
  assumes cfg: "validate_audit_config cfg = Inr ()" "ac_repair cfg" "ac_file_name cfg \<noteq> ''corrupt''"
    and ready: "startup_ready cfg tk s" and rc: "recoverable (ac_file_name cfg) (au_dir s) R"
    and good: "good_log (ae_chain env) R st"
  shows "\<exists>rep s'. audit_init env cfg tk s = (Inr rep, s') \<and> ir_valid rep \<and> log_state env cfg s' R st"
proof -
  let ?fn = "ac_file_name cfg"
  define s0 where "s0 = (remember ZERO_HASH 0 s)\<lparr>au_repaired := False, au_artifact := None\<rparr>"
  have s0: "startup_ready cfg tk s0" "recoverable ?fn (au_dir s0) R"
    using ready rc by (auto simp: s0_def startup_ready_def remember_def)
  obtain s1 where s1: "ensure_secure_directory cfg s0 = (Inr (), s1)" "startup_ready cfg tk s1" "recoverable ?fn (au_dir s1) R"
    using calm_stepE [OF calm_directory [OF s0(1)]] s0(2) by metis
  obtain s2 where s2: "ensure_lock_file cfg s1 = (Inr (), s2)" "startup_ready cfg tk s2" "recoverable ?fn (au_dir s2) R"
    using calm_stepE [OF calm_lock_file [OF s1(2)]] s1(3) by metis
  obtain s3 where s3: "open_secure True 384 (lock_name cfg) s2 = (Inr (), s3)" "startup_ready cfg tk s3" "recoverable ?fn (au_dir s3) R"
    using calm_stepE [OF calm_lock [OF s2(2)]] s2(3) by metis
  obtain s4 where s4: "enforce_segment_permissions_locked cfg s3 = (Inr (), s4)" "startup_ready cfg tk s4" "recoverable ?fn (au_dir s4) R"
    using calm_stepE [OF calm_permissions [OF s3(2,3)]] s3(3) by metis
  obtain s5 where s5: "repair_active_trailing_partial_locked cfg tk s4 = (Inr (), s5)" "au_bad s5 = []" "dict_ok (au_dir s5)"
      "has_log ?fn (au_dir s5) R"
    using repair_recovers [OF s4(2) cfg(3) s4(3)] good by (auto simp: good_log_def)
  have "log_verifies (ae_chain env) [] ?fn (au_dir s5) st" using s5(4) good by (auto simp: log_verifies_iff good_log_def)
  then obtain rep where rep: "verify_locked env cfg s5 = (Inr rep, s5)" "ir_valid rep" "ir_last_sequence rep = vs_sequence st"
    using s5(2) by (auto simp: verify_locked_def verify_of_log report_of_def)
  have "audit_init env cfg tk s = (Inr rep, remember (ir_last_hash rep) (ir_last_sequence rep) s5)"
    using cfg s1(1) s2(1) s3(1) s4(1) s5(1) rep(1,2) by (simp add: audit_init_def with_lock_def eff_bind_run s0_def)
  moreover have "log_state env cfg (remember (ir_last_hash rep) (ir_last_sequence rep) s5) R st"
    using s5 good rep(3) by (simp add: log_state_def remember_def)
  ultimately show ?thesis using rep(2) by blast
qed

text \<open>What an attempt to append leaves is recoverable.\<close>

lemma prefix_of_line: "prefix data (body @ [c]) \<Longrightarrow> data = body @ [c] \<or> prefix data body"
  by (simp add: prefix_snoc)

lemma has_log_recoverable:
  assumes "has_log fn d R"
  shows "recoverable fn d R"
proof (cases "dict_get d fn = None")
  case False
  then obtain rs b where "R = rs @ [b]" using has_log_active assms by blast
  then have "\<exists>rs b data. R = rs @ [b] \<and> has_log fn d (rs @ [b @ data]) \<and> dict_get d fn \<noteq> None \<and> CHR 0x0A \<notin> set data"
    using assms False by (intro exI [of _ rs] exI [of _ b] exI [of _ "[]"]) simp
  then show ?thesis by (simp add: recoverable_def)
qed (simp add: recoverable_def assms)

lemma extended_recoverable:
  assumes "extended fn d K data" and "prefix data (body @ [CHR 0x0A])" and "clean body"
    and "good_log (ae_chain env) K st" and "attempted env cfg payload st0 e body" and "weaker st st0"
  shows "\<exists>R st'. recoverable fn d R \<and> good_log (ae_chain env) R st' \<and>
    (concat (map splitlines R) = concat (map splitlines K) \<and> data \<noteq> body @ [CHR 0x0A] \<or>
     concat (map splitlines R) = concat (map splitlines K) @ [body])"
proof -
  note whole = has_log_recoverable [of fn d]
  show ?thesis
  proof (cases "data = body @ [CHR 0x0A]")
    case True
    then show ?thesis using good_log_append [OF assms(4,5,6)] assms(1) whole by blast
  next
    case False
    then have "prefix data body" using prefix_of_line [OF assms(2)] by blast
    then have nl: "CHR 0x0A \<notin> set data" using clean_no_break [OF assms(3)] set_mono_prefix by blast
    consider "data = []" "has_log fn d K" |
      rs b where "has_log fn d (rs @ [b @ data])" "dict_get d fn \<noteq> None" "K = rs @ [b] \<or> K = rs \<and> b = []"
      using assms(1) unfolding extended_def by blast
    then show ?thesis
    proof cases
      case 1
      then show ?thesis using whole assms(4) False by blast
    next
      case (2 rs b)
      then have "recoverable fn d (rs @ [b])" using nl by (auto simp: recoverable_def)
      moreover have "good_log (ae_chain env) (rs @ [b]) st" "concat (map splitlines (rs @ [b])) = concat (map splitlines K)"
        using 2(3) assms(4) by (auto simp: good_log_def terminated_def window_ok_def last_n_def)
      ultimately show ?thesis using False by blast
    qed
  qed
qed

text \<open>C40: A record is in the log wholly or not at all. Whatever the operating-system calls of a
  recording did (any of them may fail, a write may transfer only part of the line), the next startup
  succeeds: it reports a valid chain whose records are the retained end of the previous ones, followed
  by the new record or by nothing, and by the new record if the recording had returned. A partial line
  is moved aside, and recording can continue.\<close>

theorem recording_is_atomic:
  assumes "log_ok env cfg s" and "env_ok (ae_chain env)" and "payload_ok env tk payload" and "settings_ok cfg s"
    and "record_event env cfg tk source subject payload s = (r, s')"
    and "validate_audit_config cfg = Inr ()" and "ac_repair cfg" and "ac_file_name cfg \<noteq> ''corrupt''"
    and "startup_ready cfg tk' (s'\<lparr>au_script := []\<rparr>)"
  shows "\<exists>rep s'' kept new. audit_init env cfg tk' (s'\<lparr>au_script := []\<rparr>) = (Inr rep, s'') \<and> ir_valid rep \<and>
    log_ok env cfg s'' \<and> suffix kept (retained env cfg s) \<and> retained env cfg s'' = kept @ new \<and>
    (new = [] \<and> \<not> is_ok r \<or> (\<exists>e. new = [e] \<and> py_get e ''payload'' = safe_value env payload))"
proof -
  let ?fn = "ac_file_name cfg" and ?env = "ae_chain env" and ?lines = "\<lambda>R. concat (map splitlines R)"
  obtain raws st where inv: "log_state env cfg s raws st" using assms(1) by (auto simp: log_ok_def)
  have kept: "suffix (log_records ?env (?lines (drop j raws))) (retained env cfg s)" for j
    using log_state_retained [OF inv] concat_drop [of splitlines raws j] by (auto simp: suffix_def)
  have restart: ?thesis if rc: "recoverable ?fn (au_dir s') R" and good: "good_log ?env R st'"
    and new: "log_records ?env (?lines R) = log_records ?env (?lines (drop j raws)) @ new"
      "new = [] \<and> \<not> is_ok r \<or> (\<exists>e. new = [e] \<and> py_get e ''payload'' = safe_value env payload)" for R st' j new
  proof -
    obtain rep s'' where s'': "audit_init env cfg tk' (s'\<lparr>au_script := []\<rparr>) = (Inr rep, s'')" "ir_valid rep" "log_state env cfg s'' R st'"
      using init_recovers [OF assms(6-9) _ good] rc by auto
    then show ?thesis using log_state_retained [OF s''(3)] new kept [of j] unfolding log_ok_def by metis
  qed
  obtain q s0 where lock: "open_secure True 384 (lock_name cfg) s = (q, s0)" by (cases "open_secure True 384 (lock_name cfg) s")
  note inv0 = log_state_steady [OF inv steady_lock lock]
  show ?thesis
  proof (cases q)
    case (Inl e)
    then have "r = Inl e" "s' = s0" using assms(5) lock by (simp_all add: record_event_def with_lock_def)
    then show ?thesis using restart [of raws st 0 "[]"] inv0(1) has_log_recoverable by (simp add: log_state_def)
  next
    case (Inr u)
    then have run: "append_record_locked env cfg tk source subject payload s0 = (r, s')"
      using assms(5) lock by (simp add: record_event_def with_lock_def)
    from append_record_outcome [OF inv0(1) assms(2,3) inv0(2) [OF assms(4)] run]
    consider j where "\<not> is_ok r" "has_log ?fn (au_dir s') (drop j raws)" |
      j e body data where "attempted env cfg payload st e body" "prefix data (body @ [CHR 0x0A])"
        "extended ?fn (au_dir s') (drop j raws) data" "is_ok r \<longrightarrow> data = body @ [CHR 0x0A]"
      by blast
    then show ?thesis
    proof cases
      case (1 j)
      then show ?thesis using restart [of "drop j raws" _ j "[]"] good_log_drop [of ?env raws st j] inv has_log_recoverable
        by (auto simp: log_state_def)
    next
      case (2 j e body data)
      obtain st1 where st1: "good_log ?env (drop j raws) st1" "weaker st1 st"
        using good_log_drop [of ?env raws st j] inv by (auto simp: log_state_def)
      have e: "clean body" "log_records ?env [body] = [e]" "py_get e ''payload'' = safe_value env payload"
        using 2(1) attempted_record [OF 2(1)] by (auto simp: attempted_def)
      from extended_recoverable [OF 2(3,2) e(1) st1(1) 2(1) st1(2)] obtain R st' where R: "recoverable ?fn (au_dir s') R" "good_log ?env R st'"
        "?lines R = ?lines (drop j raws) \<and> data \<noteq> body @ [CHR 0x0A] \<or> ?lines R = ?lines (drop j raws) @ [body]" by blast
      show ?thesis
        using R(3)
      proof
        assume "?lines R = ?lines (drop j raws) \<and> data \<noteq> body @ [CHR 0x0A]"
        then show ?thesis using 2(4) by (intro restart [OF R(1,2), of j "[]"]) auto
      next
        assume "?lines R = ?lines (drop j raws) @ [body]"
        then show ?thesis using e by (intro restart [OF R(1,2), of j "[e]"]) auto
      qed
    qed
  qed
qed

section \<open>Sample log\<close>

definition sample_chain :: chain_env where
  "sample_chain = \<lparr>ce_sha256 = (\<lambda>_. replicate 64 (CHR ''a'')), ce_float = (\<lambda>_. ''0.0''), ce_depth = 8\<rparr>"

definition sample_audit_env :: audit_env where
  "sample_audit_env = \<lparr>ae_chain = sample_chain, ae_detail = (\<lambda>_. []), ae_render = (\<lambda>_. []), ae_repr = (\<lambda>_. [])\<rparr>"

definition sample_audit_cfg :: audit_cfg where
  "sample_audit_cfg = \<lparr>ac_log_dir = ''/var/log/elyra'', ac_file_name = ''audit.jsonl'', ac_dir_mode = 488, ac_file_mode = 416,
     ac_max_bytes = 10485760, ac_backup_count = 10, ac_max_record_bytes = 1048576, ac_corruption_policy = ''raise'',
     ac_repair = True\<rparr>"

definition sample_tick :: tick where
  "sample_tick = \<lparr>tk_clock = Fin 0, tk_uuid = 7, tk_ns = 1\<rparr>"

definition sample_audit :: "os_outcome list \<Rightarrow> audit" where
  "sample_audit script = \<lparr>au_root = RootDir 488, au_dir = [], au_artifacts = [], au_bad = [], au_script = script,
     au_last_hash = ZERO_HASH, au_last_sequence = 0, au_repaired = False, au_artifact = None\<rparr>"

definition sample_record :: "os_outcome list \<Rightarrow> (audit_exc + string) \<times> audit" where
  "sample_record script = record_event sample_audit_env sample_audit_cfg sample_tick (PStr ''engine'') (PStr ''start'')
     (RMapping []) (sample_audit script)"

lemma sample_float: "float_prints (compact_style (ce_float sample_chain)) 0"
  by (rule zero_prints) (simp add: compact_style_def sample_chain_def)

lemma sample_audit_ok:
  "log_ok sample_audit_env sample_audit_cfg (sample_audit script)" "env_ok (ae_chain sample_audit_env)"
  "payload_ok sample_audit_env sample_tick (RMapping [])" "settings_ok sample_audit_cfg (sample_audit script)"
proof -
  have "log_state sample_audit_env sample_audit_cfg (sample_audit script) [] vstate0"
    by (simp add: log_state_def good_log_def has_log_def holds_def segments_for_def rotated_segments_def sample_audit_def vstate0_def)
  then show "log_ok sample_audit_env sample_audit_cfg (sample_audit script)" unfolding log_ok_def by blast
  show "env_ok (ae_chain sample_audit_env)"
    by (simp add: env_ok_def sample_audit_env_def sample_chain_def list_all_iff hex_digit_def char_code_def)
  show "payload_ok sample_audit_env sample_tick (RMapping [])"
    using sample_float by (simp add: payload_ok_def sample_audit_env_def sample_tick_def dict_update_def) (simp add: sample_chain_def)
  show "settings_ok sample_audit_cfg (sample_audit script)"
    by (simp add: settings_ok_def sample_audit_cfg_def sample_audit_def tail_window_def next_rotation_index_def rotated_segments_def)
qed

lemma sample_record_ok: "is_ok (fst (sample_record []))"
  by code_simp

text \<open>The log with one record.\<close>

lemma sample_log:
  "\<exists>d rep e. verify_audit_directory sample_chain (\<lambda>n. n) [] ''audit.jsonl'' False None d = Inr rep \<and> ir_valid rep \<and>
     log_records sample_chain (log_lines ''audit.jsonl'' d) = [e] \<and> printable sample_chain e"
proof -
  have env: "ae_chain sample_audit_env = sample_chain" "ac_file_name sample_audit_cfg = ''audit.jsonl''"
    by (simp_all add: sample_audit_env_def sample_audit_cfg_def)
  obtain h s' where run: "sample_record [] = (Inr h, s')"
    using sample_record_ok by (cases "sample_record []") (auto simp: is_ok_iff)
  obtain K st e kept where e: "log_state sample_audit_env sample_audit_cfg s' K (after_record e st)"
      "suffix kept (retained sample_audit_env sample_audit_cfg (sample_audit []))"
      "retained sample_audit_env sample_audit_cfg s' = kept @ [e]" "json_ok (compact_style (ce_float sample_chain)) (PDict e)"
    using record_outcome [OF sample_audit_ok run [unfolded sample_record_def]] unfolding env by blast
  have "retained sample_audit_env sample_audit_cfg (sample_audit []) = []"
    by (simp add: retained_def log_lines_def segments_for_def rotated_segments_def sample_audit_def)
  then have "retained sample_audit_env sample_audit_cfg s' = [e]" using e(2,3) by simp
  moreover have "log_verifies sample_chain [] ''audit.jsonl'' (au_dir s') (after_record e st)"
    using e(1) unfolding log_verifies_iff log_state_def good_log_def env by blast
  then have "verify_audit_directory sample_chain (\<lambda>n. n) [] ''audit.jsonl'' False None (au_dir s') =
      Inr (report_of (after_record e st) (length (segments_for ''audit.jsonl'' (au_dir s'))) False None)" by (rule verify_of_log)
  moreover have "printable sample_chain e" using e(4) unfolding printable_def by blast
  ultimately show ?thesis unfolding retained_def env
    by (intro exI conjI) (assumption, simp add: report_of_def, assumption, assumption)
qed

text \<open>A write that stops after five bytes.\<close>

lemma sample_torn:
  "case sample_record [Done, Done, Done, Wrote 5, Failed] of (r, s) \<Rightarrow>
     \<not> is_ok r \<and> au_bad s = [] \<and> distinct (map fst (au_dir s)) \<and> au_root s = RootDir 488 \<and>
     dict_get (au_dir s) (lock_name sample_audit_cfg) = Some (Regular [] 384) \<and>
     dict_get (au_dir s) ''corrupt'' = None \<and> au_artifacts s = []"
  by code_simp

section \<open>Witnesses\<close>

theorem record_appends_witness:
  "\<exists>h s' e. sample_record [] = (Inr h, s') \<and> retained sample_audit_env sample_audit_cfg s' = [e] \<and> stored_hash e = h \<and>
     log_ok sample_audit_env sample_audit_cfg s'"
proof -
  obtain h s' where run: "sample_record [] = (Inr h, s')"
    using sample_record_ok by (cases "sample_record []") (auto simp: is_ok_iff)
  obtain kept e where e: "suffix kept (retained sample_audit_env sample_audit_cfg (sample_audit []))"
      "retained sample_audit_env sample_audit_cfg s' = kept @ [e]" "stored_hash e = h" "log_ok sample_audit_env sample_audit_cfg s'"
    using record_appends [OF sample_audit_ok run [unfolded sample_record_def]] by blast
  moreover have "retained sample_audit_env sample_audit_cfg (sample_audit []) = []"
    by (simp add: retained_def log_lines_def segments_for_def rotated_segments_def sample_audit_def)
  ultimately have "kept = []" by simp
  then show ?thesis using run e by auto
qed

theorem tamper_evident_witness:
  "\<exists>d rep e. verify_audit_directory sample_chain (\<lambda>n. n) [] ''audit.jsonl'' False None d = Inr rep \<and> ir_valid rep \<and>
     log_records sample_chain (log_lines ''audit.jsonl'' d) = [e] \<and> suffix [hashed_text sample_chain e] [hashed_text sample_chain e]"
proof -
  obtain d rep e where v: "verify_audit_directory sample_chain (\<lambda>n. n) [] ''audit.jsonl'' False None d = Inr rep" "ir_valid rep"
    and r: "log_records sample_chain (log_lines ''audit.jsonl'' d) = [e]" and p: "printable sample_chain e" using sample_log by blast
  have "suffix [hashed_text sample_chain e] [hashed_text sample_chain e] \<or> suffix [hashed_text sample_chain e] [hashed_text sample_chain e]"
    using tamper_evident [OF v v refl] by (simp add: r p)
  then show ?thesis using v r by blast
qed

theorem recording_is_atomic_witness:
  "\<exists>e s' rep s''. sample_record [Done, Done, Done, Wrote 5, Failed] = (Inl e, s') \<and>
     audit_init sample_audit_env sample_audit_cfg sample_tick (s'\<lparr>au_script := []\<rparr>) = (Inr rep, s'') \<and> ir_valid rep"
proof -
  obtain r s' where run: "sample_record [Done, Done, Done, Wrote 5, Failed] = (r, s')"
    by (cases "sample_record [Done, Done, Done, Wrote 5, Failed]")
  obtain e where r: "r = Inl e" using sample_torn run by (cases r) auto
  have cfg: "validate_audit_config sample_audit_cfg = Inr ()" "ac_repair sample_audit_cfg" "ac_file_name sample_audit_cfg \<noteq> ''corrupt''"
    by code_simp+
  have ready: "startup_ready sample_audit_cfg sample_tick (s'\<lparr>au_script := []\<rparr>)"
    using sample_torn run by (simp add: startup_ready_def dict_ok_def)
  show ?thesis
    using recording_is_atomic [OF sample_audit_ok run [unfolded sample_record_def] cfg ready] run r by blast
qed

end
