(* ===== verification/File_System.thy ===== *)
theory File_System
  imports Py_Path
begin

text \<open>
  The part of a POSIX file system the quarantine store works on: names bound to inodes, symbolic
  links in the directory part of a path, and the effect of each system call the store makes. A path
  is the list of its components below the root, so \<open>/var/lib\<close> is \<open>[''var'', ''lib'']\<close>. Every change
  of an inode advances the clock and stamps its change time.

  Calls that look at a path or change it give an \<open>errno\<close> or the new file system. Failures that do not
  follow from the tree (permissions, a full disk, a device error, a rename between devices) are outcomes
  of the caller's event script.
\<close>

unbundle bit_operations_syntax

section \<open>Inodes and names\<close>

type_synonym path = "string list"

datatype errno = ENOENT | EEXIST | ELOOP | EISDIR | ENOTDIR | EPERM | EINVAL | ENOSYS | EROFS | EIO

datatype content = RegularFile string | DirectoryNode | LinkTo string | OtherNode

record inode =
  in_content :: content
  in_mode :: nat
  in_uid :: int
  in_gid :: int
  in_dev :: int
  in_mtime :: nat
  in_ctime :: nat

record fsys =
  fs_names :: "(path, nat) dict"
  fs_inodes :: "nat \<Rightarrow> inode"
  fs_next :: nat
  fs_clock :: nat

definition inode_at :: "fsys \<Rightarrow> path \<Rightarrow> nat option" where
  "inode_at fs k = dict_get (fs_names fs) k"

definition content_at :: "fsys \<Rightarrow> path \<Rightarrow> content option" where
  "content_at fs k = map_option (\<lambda>i. in_content (fs_inodes fs i)) (inode_at fs k)"

definition inode_bytes :: "fsys \<Rightarrow> nat \<Rightarrow> string" where
  "inode_bytes fs i = (case in_content (fs_inodes fs i) of RegularFile b \<Rightarrow> b | _ \<Rightarrow> [])"

section \<open>Path resolution\<close>

text \<open>
  \<open>os.path.realpath(strict=True)\<close>: directories and links on the way are followed, the last component may
  be anything but a link. At most 40 links are followed, as in the kernel.
\<close>

fun walk :: "fsys \<Rightarrow> nat \<Rightarrow> path \<Rightarrow> path \<Rightarrow> path option" where
  "walk fs n base [] = Some base"
| "walk fs n base (c # cs) =
     (if c = ''..'' then walk fs n (butlast base) cs
      else (case content_at fs (base @ [c]) of
          None \<Rightarrow> None
        | Some DirectoryNode \<Rightarrow> walk fs n (base @ [c]) cs
        | Some (LinkTo t) \<Rightarrow>
            (case n of 0 \<Rightarrow> None
             | Suc m \<Rightarrow> walk fs m (if starts_with t ''/'' then [] else base) (path_comps t @ cs))
        | Some _ \<Rightarrow> if cs = [] then Some (base @ [c]) else None))"

definition realpath :: "fsys \<Rightarrow> path \<Rightarrow> path option" where
  "realpath fs p = walk fs 40 [] p"

definition is_dir :: "fsys \<Rightarrow> path \<Rightarrow> bool" where
  "is_dir fs k = (content_at fs k = Some DirectoryNode)"

text \<open>The entry a path denotes when a link in its last component is not followed.\<close>

definition locate :: "fsys \<Rightarrow> path \<Rightarrow> path option" where
  "locate fs p =
     (if p = [] then Some []
      else if last p = ''..'' then realpath fs p
      else (case realpath fs (butlast p) of
          None \<Rightarrow> None
        | Some d \<Rightarrow> if is_dir fs d then Some (d @ [last p]) else None))"

definition lookup :: "fsys \<Rightarrow> path \<Rightarrow> nat option" where
  "lookup fs p = Option.bind (locate fs p) (inode_at fs)"

definition path_text :: "path \<Rightarrow> string" where
  "path_text p = abs_path 1 p"

section \<open>Status\<close>

record file_stat =
  st_content :: content
  st_mode :: nat
  st_uid :: int
  st_gid :: int
  st_dev :: int
  st_ino :: nat
  st_nlink :: nat
  st_size :: nat
  st_mtime :: nat
  st_ctime :: nat

definition link_count :: "fsys \<Rightarrow> nat \<Rightarrow> nat" where
  "link_count fs i = length (filter (\<lambda>kv. snd kv = i) (fs_names fs))"

definition stat_of :: "fsys \<Rightarrow> nat \<Rightarrow> file_stat" where
  "stat_of fs i = (let x = fs_inodes fs i in
     \<lparr>st_content = in_content x, st_mode = in_mode x, st_uid = in_uid x, st_gid = in_gid x, st_dev = in_dev x,
      st_ino = i, st_nlink = link_count fs i, st_size = length (inode_bytes fs i),
      st_mtime = in_mtime x, st_ctime = in_ctime x\<rparr>)"

fun is_regular :: "content \<Rightarrow> bool" where
  "is_regular (RegularFile _) = True"
| "is_regular _ = False"

fun is_link :: "content \<Rightarrow> bool" where
  "is_link (LinkTo _) = True"
| "is_link _ = False"

lemma regular_not_link: "is_regular c \<Longrightarrow> \<not> is_link c \<and> c \<noteq> DirectoryNode"
  by (cases c) auto

definition same_file :: "file_stat \<Rightarrow> file_stat \<Rightarrow> bool" where
  "same_file a b = (st_dev a = st_dev b \<and> st_ino a = st_ino b)"

section \<open>System calls\<close>

text \<open>A changed inode carries the new time as its change time.\<close>

definition set_inode :: "nat \<Rightarrow> inode \<Rightarrow> fsys \<Rightarrow> fsys" where
  "set_inode i x fs = fs\<lparr>fs_clock := Suc (fs_clock fs),
     fs_inodes := (fs_inodes fs)(i := x\<lparr>in_ctime := Suc (fs_clock fs)\<rparr>)\<rparr>"

definition touch :: "nat \<Rightarrow> fsys \<Rightarrow> fsys" where
  "touch i fs = set_inode i (fs_inodes fs i) fs"

definition set_names :: "(path, nat) dict \<Rightarrow> fsys \<Rightarrow> fsys" where
  "set_names d fs = fs\<lparr>fs_names := d\<rparr>"

definition new_inode :: "content \<Rightarrow> nat \<Rightarrow> int \<Rightarrow> int \<Rightarrow> path \<Rightarrow> fsys \<Rightarrow> inode" where
  "new_inode c mode uid gid k fs =
     \<lparr>in_content = c, in_mode = mode, in_uid = uid, in_gid = gid,
      in_dev = (case inode_at fs (butlast k) of Some d \<Rightarrow> in_dev (fs_inodes fs d) | None \<Rightarrow> 0),
      in_mtime = Suc (fs_clock fs), in_ctime = Suc (fs_clock fs)\<rparr>"

text \<open>\<open>open(O_CREAT | O_EXCL | O_NOFOLLOW)\<close> and \<open>mkdir\<close>: a new inode under a name that must be free.\<close>

definition sys_create :: "content \<Rightarrow> nat \<Rightarrow> int \<Rightarrow> int \<Rightarrow> path \<Rightarrow> fsys \<Rightarrow> errno + nat \<times> fsys" where
  "sys_create c mode uid gid p fs = (case locate fs p of
      None \<Rightarrow> Inl ENOENT
    | Some k \<Rightarrow> if inode_at fs k \<noteq> None then Inl EEXIST
        else let i = fs_next fs in
          Inr (i, set_inode i (new_inode c mode uid gid k fs)
                    (fs\<lparr>fs_names := dict_set k i (fs_names fs), fs_next := Suc i\<rparr>)))"

text \<open>\<open>open(O_RDONLY | O_NOFOLLOW)\<close>: the inode the descriptor refers to.\<close>

definition sys_open :: "path \<Rightarrow> fsys \<Rightarrow> errno + nat" where
  "sys_open p fs = (case lookup fs p of
      None \<Rightarrow> Inl ENOENT
    | Some i \<Rightarrow> if is_link (in_content (fs_inodes fs i)) then Inl ELOOP else Inr i)"

text \<open>Opening a path with its links followed.\<close>

definition sys_open_follow :: "path \<Rightarrow> fsys \<Rightarrow> errno + nat" where
  "sys_open_follow p fs = (case realpath fs p of
      None \<Rightarrow> Inl ENOENT
    | Some k \<Rightarrow> (case inode_at fs k of None \<Rightarrow> Inl ENOENT | Some i \<Rightarrow> Inr i))"

definition sys_unlink :: "path \<Rightarrow> fsys \<Rightarrow> errno + fsys" where
  "sys_unlink p fs = (case locate fs p of
      None \<Rightarrow> Inl ENOENT
    | Some k \<Rightarrow> (case inode_at fs k of
          None \<Rightarrow> Inl ENOENT
        | Some i \<Rightarrow> if in_content (fs_inodes fs i) = DirectoryNode then Inl EISDIR
            else Inr (touch i (set_names (dict_pop k (fs_names fs)) fs))))"

text \<open>The name \<open>k\<close> of an inode becomes \<open>l\<close>; a directory takes what is below it along.\<close>

definition move_name :: "path \<Rightarrow> path \<Rightarrow> nat \<Rightarrow> fsys \<Rightarrow> fsys" where
  "move_name k l i fs = touch i (set_names
     (if in_content (fs_inodes fs i) = DirectoryNode
      then map (\<lambda>(q, j). (if prefix k q then l @ drop (length k) q else q, j)) (dict_pop l (fs_names fs))
      else dict_set l i (dict_pop k (fs_names fs))) fs)"

text \<open>\<open>renameat2(RENAME_NOREPLACE)\<close>.\<close>

definition sys_rename_noreplace :: "path \<Rightarrow> path \<Rightarrow> fsys \<Rightarrow> errno + fsys" where
  "sys_rename_noreplace src dst fs = (case (locate fs src, locate fs dst) of
      (Some k, Some l) \<Rightarrow> (case inode_at fs k of
          None \<Rightarrow> Inl ENOENT
        | Some i \<Rightarrow> if inode_at fs l \<noteq> None then Inl EEXIST else Inr (move_name k l i fs))
    | _ \<Rightarrow> Inl ENOENT)"

text \<open>\<open>os.replace\<close>: two names of one file stay as they are, a directory is not overwritten.\<close>

definition sys_replace :: "path \<Rightarrow> path \<Rightarrow> fsys \<Rightarrow> errno + fsys" where
  "sys_replace src dst fs = (case (locate fs src, locate fs dst) of
      (Some k, Some l) \<Rightarrow> (case inode_at fs k of
          None \<Rightarrow> Inl ENOENT
        | Some i \<Rightarrow> if inode_at fs l = Some i then Inr fs
            else if is_dir fs l then Inl EISDIR else Inr (move_name k l i fs))
    | _ \<Rightarrow> Inl ENOENT)"

text \<open>\<open>os.link(follow_symlinks=False)\<close>.\<close>

definition sys_link :: "path \<Rightarrow> path \<Rightarrow> fsys \<Rightarrow> errno + fsys" where
  "sys_link src dst fs = (case (locate fs src, locate fs dst) of
      (Some k, Some l) \<Rightarrow> (case inode_at fs k of
          None \<Rightarrow> Inl ENOENT
        | Some i \<Rightarrow> if inode_at fs l \<noteq> None then Inl EEXIST
            else if in_content (fs_inodes fs i) = DirectoryNode then Inl EPERM
            else Inr (touch i (set_names (dict_set l i (fs_names fs)) fs)))
    | _ \<Rightarrow> Inl ENOENT)"

definition sys_fchmod :: "nat \<Rightarrow> nat \<Rightarrow> fsys \<Rightarrow> fsys" where
  "sys_fchmod mode i fs = set_inode i ((fs_inodes fs i)\<lparr>in_mode := mode\<rparr>) fs"

text \<open>An identifier of -1 leaves the owner or the group as it is.\<close>

definition sys_fchown :: "int \<Rightarrow> int \<Rightarrow> nat \<Rightarrow> fsys \<Rightarrow> fsys" where
  "sys_fchown uid gid i fs = (let x = fs_inodes fs i in set_inode i (x\<lparr>
     in_uid := (if uid = - 1 then in_uid x else uid), in_gid := (if gid = - 1 then in_gid x else gid)\<rparr>) fs)"

text \<open>\<open>os.chmod\<close> follows links.\<close>

definition sys_chmod :: "nat \<Rightarrow> path \<Rightarrow> fsys \<Rightarrow> errno + fsys" where
  "sys_chmod mode p fs = (case sys_open_follow p fs of Inl e \<Rightarrow> Inl e | Inr i \<Rightarrow> Inr (sys_fchmod mode i fs))"

text \<open>Writing bytes at an offset of a regular file.\<close>

definition overlay :: "nat \<Rightarrow> string \<Rightarrow> string \<Rightarrow> string" where
  "overlay off bytes b = take off b @ replicate (off - length b) (CHR 0x00) @ bytes @ drop (off + length bytes) b"

definition sys_pwrite :: "nat \<Rightarrow> nat \<Rightarrow> string \<Rightarrow> fsys \<Rightarrow> fsys" where
  "sys_pwrite i off bytes fs = set_inode i ((fs_inodes fs i)
     \<lparr>in_content := RegularFile (overlay off bytes (inode_bytes fs i)), in_mtime := Suc (fs_clock fs)\<rparr>) fs"

section \<open>Resolution lemmas\<close>

text \<open>Directories and links decide where a path leads; regular files do not.\<close>

definition keeps_tree :: "fsys \<Rightarrow> fsys \<Rightarrow> bool" where
  "keeps_tree fs fs' \<longleftrightarrow> (\<forall>k c. content_at fs k = Some c \<longrightarrow> c = DirectoryNode \<or> is_link c \<longrightarrow> content_at fs' k = Some c)"

lemma keeps_tree_refl [simp]: "keeps_tree fs fs"
  by (simp add: keeps_tree_def)

lemma keeps_tree_trans: "keeps_tree a b \<Longrightarrow> keeps_tree b c \<Longrightarrow> keeps_tree a c"
  unfolding keeps_tree_def by blast

lemma is_dir_keeps: "keeps_tree fs fs' \<Longrightarrow> is_dir fs d \<Longrightarrow> is_dir fs' d"
  by (simp add: keeps_tree_def is_dir_def)

lemma walk_keeps:
  "keeps_tree fs fs' \<Longrightarrow> walk fs n b p = Some d \<Longrightarrow> is_dir fs d \<Longrightarrow> walk fs' n b p = Some d"
proof (induction fs n b p rule: walk.induct)
  case (2 fs n b c cs)
  show ?case
  proof (cases "c = ''..''")
    case False
    then obtain x where x: "content_at fs (b @ [c]) = Some x" using 2 by (auto split: option.splits)
    show ?thesis
    proof (cases x)
      case (RegularFile t)
      then show ?thesis using 2 False x by (auto simp: is_dir_def split: if_splits)
    next
      case OtherNode
      then show ?thesis using 2 False x by (auto simp: is_dir_def split: if_splits)
    next
      case DirectoryNode
      then show ?thesis using 2 False x by (auto simp: keeps_tree_def)
    next
      case (LinkTo t)
      then have "content_at fs' (b @ [c]) = Some (LinkTo t)" using 2(4) x by (simp add: keeps_tree_def)
      then show ?thesis using 2 False x LinkTo by (cases n) auto
    qed
  qed (use 2 in auto)
qed simp

lemma realpath_keeps: "keeps_tree fs fs' \<Longrightarrow> realpath fs p = Some d \<Longrightarrow> is_dir fs d \<Longrightarrow> realpath fs' p = Some d"
  unfolding realpath_def by (rule walk_keeps)

text \<open>A path without links: every step on the way is a directory.\<close>

definition real_dir :: "fsys \<Rightarrow> path \<Rightarrow> bool" where
  "real_dir fs d \<longleftrightarrow> (\<forall>k. prefix k d \<longrightarrow> k \<noteq> [] \<longrightarrow> is_dir fs k \<and> last k \<noteq> ''..'')"

lemma real_dir_snoc: "real_dir fs d \<Longrightarrow> is_dir fs (d @ [c]) \<Longrightarrow> c \<noteq> ''..'' \<Longrightarrow> real_dir fs (d @ [c])"
  by (auto simp: real_dir_def prefix_snoc)

lemma real_dir_prefix: "real_dir fs d \<Longrightarrow> prefix k d \<Longrightarrow> real_dir fs k"
  by (meson prefix_order.trans real_dir_def)

lemma real_dir_Nil [simp]: "real_dir fs []"
  by (simp add: real_dir_def)

lemma prefix_butlast: "prefix (butlast b) b"
  by (metis append_butlast_last_id butlast.simps(1) prefixI prefix_order.refl)

lemma walk_real: "walk fs n b p = Some d \<Longrightarrow> real_dir fs b \<Longrightarrow> is_dir fs d \<Longrightarrow> real_dir fs d"
proof (induction fs n b p rule: walk.induct)
  case (2 fs n b c cs)
  show ?case
  proof (cases "c = ''..''")
    case True
    then show ?thesis using 2 real_dir_prefix [OF _ prefix_butlast] by auto
  next
    case False
    then obtain x where x: "content_at fs (b @ [c]) = Some x" using 2 by (auto split: option.splits)
    show ?thesis
    proof (cases x)
      case DirectoryNode
      then have "real_dir fs (b @ [c])" using 2 False x by (intro real_dir_snoc) (auto simp: is_dir_def)
      then show ?thesis using 2 False x DirectoryNode by simp
    next
      case (LinkTo t)
      then show ?thesis using 2 False x by (cases n) (auto split: if_splits)
    qed (use 2 False x in \<open>auto simp: is_dir_def split: if_splits\<close>)
  qed
qed simp

lemma walk_along: "real_dir fs (b @ p) \<Longrightarrow> walk fs n b p = Some (b @ p)"
proof (induction p arbitrary: b)
  case (Cons c p)
  have "is_dir fs (b @ [c]) \<and> c \<noteq> ''..''"
    using Cons.prems by (auto simp: real_dir_def dest!: spec [of _ "b @ [c]"])
  then show ?case using Cons.IH [of "b @ [c]"] Cons.prems by (simp add: is_dir_def)
qed simp

lemma realpath_real: "realpath fs p = Some d \<Longrightarrow> is_dir fs d \<Longrightarrow> realpath fs d = Some d"
  using walk_real [of fs 40 "[]" p d] walk_along [of fs "[]" d] by (simp add: realpath_def)

lemma locate_in: "realpath fs d = Some r \<Longrightarrow> is_dir fs r \<Longrightarrow> c \<noteq> ''..'' \<Longrightarrow> locate fs (d @ [c]) = Some (r @ [c])"
  by (simp add: locate_def)

text \<open>A regular file is never reached through a last component of dots.\<close>

lemma walk_dots: "walk fs n b (p @ [''..'']) = Some d \<Longrightarrow> real_dir fs b \<Longrightarrow> real_dir fs d"
proof (induction fs n b p rule: walk.induct)
  case (1 fs n b)
  then show ?case using real_dir_prefix [OF _ prefix_butlast] by auto
next
  case (2 fs n b c cs)
  show ?case
  proof (cases "c = ''..''")
    case True
    then show ?thesis using 2 real_dir_prefix [OF _ prefix_butlast] by auto
  next
    case False
    then obtain x where x: "content_at fs (b @ [c]) = Some x" using 2 by (auto split: option.splits)
    show ?thesis
    proof (cases x)
      case DirectoryNode
      then have "real_dir fs (b @ [c])" using 2 False x by (intro real_dir_snoc) (auto simp: is_dir_def)
      then show ?thesis using 2 False x DirectoryNode by simp
    next
      case (LinkTo t)
      then show ?thesis using 2 False x by (cases n) (auto split: if_splits)
    qed (use 2 False x in \<open>auto split: if_splits\<close>)
  qed
qed

lemma realpath_dots: "realpath fs (p @ [''..'']) = Some d \<Longrightarrow> is_dir fs [] \<Longrightarrow> is_dir fs d"
  using walk_dots [of fs 40 "[]" p d] by (cases "d = []") (auto simp: realpath_def real_dir_def)

section \<open>Effects of the calls\<close>

text \<open>An inode up to its change time, and file systems whose old inodes are the same.\<close>

definition same_node :: "inode \<Rightarrow> inode \<Rightarrow> bool" where
  "same_node x y \<longleftrightarrow> y\<lparr>in_ctime := 0\<rparr> = x\<lparr>in_ctime := 0\<rparr>"

definition same_nodes :: "fsys \<Rightarrow> fsys \<Rightarrow> bool" where
  "same_nodes fs fs' \<longleftrightarrow> fs_next fs \<le> fs_next fs' \<and> (\<forall>j < fs_next fs. same_node (fs_inodes fs j) (fs_inodes fs' j))"

lemma same_node_refl [simp]: "same_node x x"
  by (simp add: same_node_def)

lemma same_node_trans: "same_node x y \<Longrightarrow> same_node y z \<Longrightarrow> same_node x z"
  by (simp add: same_node_def)

lemma same_node_fields:
  assumes "same_node x y"
  shows "in_content y = in_content x" "in_mode y = in_mode x" "in_uid y = in_uid x" "in_gid y = in_gid x"
    "in_dev y = in_dev x" "in_mtime y = in_mtime x"
  using arg_cong [OF assms [unfolded same_node_def], of in_content] arg_cong [OF assms [unfolded same_node_def], of in_mode]
    arg_cong [OF assms [unfolded same_node_def], of in_uid] arg_cong [OF assms [unfolded same_node_def], of in_gid]
    arg_cong [OF assms [unfolded same_node_def], of in_dev] arg_cong [OF assms [unfolded same_node_def], of in_mtime]
  by simp_all

lemma same_node_ctime [simp]: "same_node x (x\<lparr>in_ctime := n\<rparr>)"
  by (simp add: same_node_def)

lemma same_nodes_refl [simp]: "same_nodes fs fs"
  by (simp add: same_nodes_def)

lemma same_nodes_trans: "same_nodes a b \<Longrightarrow> same_nodes b c \<Longrightarrow> same_nodes a c"
  by (auto simp: same_nodes_def intro: same_node_trans)

lemma same_nodes_content:
  assumes "same_nodes fs fs'" and "i < fs_next fs"
  shows "in_content (fs_inodes fs' i) = in_content (fs_inodes fs i)"
proof -
  have "same_node (fs_inodes fs i) (fs_inodes fs' i)" using assms by (simp add: same_nodes_def)
  then show ?thesis by (rule same_node_fields(1))
qed

lemma same_nodes_bytes: "same_nodes fs fs' \<Longrightarrow> i < fs_next fs \<Longrightarrow> inode_bytes fs' i = inode_bytes fs i"
  by (simp add: inode_bytes_def same_nodes_content)

definition fs_ok :: "fsys \<Rightarrow> bool" where
  "fs_ok fs \<longleftrightarrow> is_dir fs [] \<and> (\<forall>k i. inode_at fs k = Some i \<longrightarrow> i < fs_next fs)"

lemma fs_okD: "fs_ok fs \<Longrightarrow> inode_at fs k = Some i \<Longrightarrow> i < fs_next fs"
  unfolding fs_ok_def by blast

lemma touch_simps [simp]:
  "fs_names (touch i fs) = fs_names fs" "fs_next (touch i fs) = fs_next fs" "inode_at (touch i fs) = inode_at fs"
  "same_nodes fs (touch i fs)" "same_nodes (set_names d fs) (touch i (set_names d fs))"
  by (auto simp: touch_def set_inode_def inode_at_def fun_eq_iff same_nodes_def)

lemma set_names_simps [simp]:
  "fs_names (set_names d fs) = d" "fs_next (set_names d fs) = fs_next fs" "fs_inodes (set_names d fs) = fs_inodes fs"
  "same_nodes fs (set_names d fs)"
  by (simp_all add: set_names_def same_nodes_def)

lemma same_nodes_touch: "same_nodes fs (touch i (set_names d fs))"
  using same_nodes_trans [of fs "set_names d fs" "touch i (set_names d fs)"] by simp

lemma inode_at_set_names [simp]: "inode_at (set_names d fs) k = dict_get d k"
  by (simp add: inode_at_def)

lemma sys_unlink_effect:
  assumes "sys_unlink p fs = Inr fs'" and "locate fs p = Some k"
  shows "inode_at fs' = (inode_at fs)(k := None)" and "same_nodes fs fs'" and "fs_next fs' = fs_next fs"
    and "\<exists>i. inode_at fs k = Some i \<and> in_content (fs_inodes fs i) \<noteq> DirectoryNode"
  using assms
  by (auto simp: sys_unlink_def same_nodes_touch fun_eq_iff split: option.splits if_splits) (auto simp: inode_at_def)

lemma move_name_effect:
  assumes "in_content (fs_inodes fs i) \<noteq> DirectoryNode"
  shows "inode_at (move_name k l i fs) = (inode_at fs)(k := None, l := Some i)"
    and "same_nodes fs (move_name k l i fs)" and "fs_next (move_name k l i fs) = fs_next fs"
  using assms by (auto simp: move_name_def same_nodes_touch fun_eq_iff) (auto simp: inode_at_def)

lemma sys_rename_effect:
  assumes "sys_rename_noreplace src dst fs = Inr fs'" and "locate fs src = Some k" and "locate fs dst = Some l"
    and "inode_at fs k = Some i" and "in_content (fs_inodes fs i) \<noteq> DirectoryNode"
  shows "inode_at fs' = (inode_at fs)(k := None, l := Some i)" and "same_nodes fs fs'" and "fs_next fs' = fs_next fs"
    and "inode_at fs l = None"
  using assms move_name_effect [OF assms(5)] by (auto simp: sys_rename_noreplace_def split: if_splits)

lemma sys_link_effect:
  assumes "sys_link src dst fs = Inr fs'" and "locate fs src = Some k" and "locate fs dst = Some l"
    and "inode_at fs k = Some i"
  shows "inode_at fs' = (inode_at fs)(l := Some i)" and "same_nodes fs fs'" and "fs_next fs' = fs_next fs"
    and "inode_at fs l = None"
  using assms by (auto simp: sys_link_def same_nodes_touch fun_eq_iff split: if_splits) (auto simp: inode_at_def)

lemma sys_replace_effect:
  assumes "sys_replace src dst fs = Inr fs'" and "locate fs src = Some k" and "locate fs dst = Some l"
    and "inode_at fs k = Some i" and "in_content (fs_inodes fs i) \<noteq> DirectoryNode" and "inode_at fs l \<noteq> Some i"
  shows "inode_at fs' = (inode_at fs)(k := None, l := Some i)" and "same_nodes fs fs'" and "fs_next fs' = fs_next fs"
  using assms move_name_effect [OF assms(5)] by (auto simp: sys_replace_def split: if_splits)

lemma sys_create_effect:
  assumes "sys_create c mode uid gid p fs = Inr (i, fs')" and "locate fs p = Some k"
  shows "i = fs_next fs" and "inode_at fs k = None" and "inode_at fs' = (inode_at fs)(k := Some i)"
    and "fs_next fs' = Suc (fs_next fs)" and "same_nodes fs fs'" and "in_content (fs_inodes fs' i) = c"
    and "in_mode (fs_inodes fs' i) = mode" and "in_uid (fs_inodes fs' i) = uid" and "in_gid (fs_inodes fs' i) = gid"
  using assms
  by (auto simp: sys_create_def set_inode_def new_inode_def same_nodes_def inode_at_def fun_eq_iff Let_def split: if_splits)

text \<open>Calls on a descriptor change that inode only.\<close>

definition only_inode :: "nat \<Rightarrow> fsys \<Rightarrow> fsys \<Rightarrow> bool" where
  "only_inode i fs fs' \<longleftrightarrow> fs_names fs' = fs_names fs \<and> fs_next fs' = fs_next fs \<and>
     (\<forall>j. j \<noteq> i \<longrightarrow> fs_inodes fs' j = fs_inodes fs j)"

lemma only_inode_refl [simp]: "only_inode i fs fs"
  by (simp add: only_inode_def)

lemma only_inode_trans: "only_inode i a b \<Longrightarrow> only_inode i b c \<Longrightarrow> only_inode i a c"
  by (simp add: only_inode_def)

lemma only_inode_at: "only_inode i fs fs' \<Longrightarrow> inode_at fs' = inode_at fs"
  by (simp add: only_inode_def inode_at_def fun_eq_iff)

lemma only_inode_set [simp]: "only_inode i fs (set_inode i x fs)"
  by (simp add: only_inode_def set_inode_def)

lemma set_inode_get [simp]: "fs_inodes (set_inode i x fs) i = x\<lparr>in_ctime := Suc (fs_clock fs)\<rparr>"
  by (simp add: set_inode_def)

lemma sys_pwrite_effect:
  "only_inode i fs (sys_pwrite i off v fs)"
  "in_content (fs_inodes (sys_pwrite i off v fs) i) = RegularFile (overlay off v (inode_bytes fs i))"
  "inode_bytes (sys_pwrite i off v fs) i = overlay off v (inode_bytes fs i)"
  "in_mode (fs_inodes (sys_pwrite i off v fs) i) = in_mode (fs_inodes fs i)"
  by (simp_all add: sys_pwrite_def inode_bytes_def)

lemma sys_fchmod_effect:
  "only_inode i fs (sys_fchmod mode i fs)"
  "in_content (fs_inodes (sys_fchmod mode i fs) i) = in_content (fs_inodes fs i)"
  "in_mode (fs_inodes (sys_fchmod mode i fs) i) = mode"
  by (simp_all add: sys_fchmod_def)

lemma sys_fchown_effect:
  "only_inode i fs (sys_fchown u g i fs)"
  "in_content (fs_inodes (sys_fchown u g i fs) i) = in_content (fs_inodes fs i)"
  "in_mode (fs_inodes (sys_fchown u g i fs) i) = in_mode (fs_inodes fs i)"
  by (simp_all add: sys_fchown_def Let_def)

lemma overlay_end [simp]: "overlay (length b) v b = b @ v"
  by (simp add: overlay_def)

lemma keeps_tree_names:
  assumes "fs_ok fs" and "same_nodes fs fs'"
    and "\<And>k i. inode_at fs k = Some i \<Longrightarrow> inode_at fs' k \<noteq> Some i \<Longrightarrow> is_regular (in_content (fs_inodes fs i))"
  shows "keeps_tree fs fs'"
  unfolding keeps_tree_def
proof (intro allI impI)
  fix k c
  assume "content_at fs k = Some c" and c: "c = DirectoryNode \<or> is_link c"
  then obtain i where i: "inode_at fs k = Some i" "in_content (fs_inodes fs i) = c" by (auto simp: content_at_def)
  then have "inode_at fs' k = Some i" using assms(3) [OF i(1)] c by (cases c) auto
  then show "content_at fs' k = Some c"
    using i same_nodes_content [OF assms(2) fs_okD [OF assms(1) i(1)]] by (simp add: content_at_def)
qed

lemma fs_ok_keeps:
  assumes "fs_ok fs" and "keeps_tree fs fs'" and "\<And>k i. inode_at fs' k = Some i \<Longrightarrow> i < fs_next fs'"
  shows "fs_ok fs'"
  using assms is_dir_keeps by (auto simp: fs_ok_def)

lemma locate_keeps:
  assumes "keeps_tree fs fs'" and "last p \<noteq> ''..''" and "locate fs p = Some k"
  shows "locate fs' p = Some k"
proof (cases "p = []")
  case False
  then obtain d where d: "realpath fs (butlast p) = Some d" "is_dir fs d" "k = d @ [last p]"
    using assms(2,3) by (auto simp: locate_def split: option.splits if_splits)
  then show ?thesis
    using assms(1,2) False realpath_keeps [OF assms(1) d(1,2)] is_dir_keeps [OF assms(1) d(2)] by (simp add: locate_def)
qed (use assms in \<open>simp add: locate_def\<close>)

lemma only_inode_keeps:
  assumes "only_inode i fs fs'" and "in_content (fs_inodes fs' i) = in_content (fs_inodes fs i) \<or>
    is_regular (in_content (fs_inodes fs i))"
  shows "keeps_tree fs fs'"
  unfolding keeps_tree_def
proof (intro allI impI)
  fix k c
  assume "content_at fs k = Some c" and c: "c = DirectoryNode \<or> is_link c"
  then obtain j where j: "inode_at fs k = Some j" "in_content (fs_inodes fs j) = c" by (auto simp: content_at_def)
  have "in_content (fs_inodes fs' j) = c"
    using assms c j(2) regular_not_link by (cases "j = i") (auto simp: only_inode_def)
  then show "content_at fs' k = Some c" using j(1) by (simp add: content_at_def only_inode_at [OF assms(1)])
qed

text \<open>Following links makes no difference for a regular file.\<close>

lemma walk_snoc:
  "walk fs n b p = Some r \<Longrightarrow> is_dir fs r \<Longrightarrow> content_at fs (r @ [c]) = Some (RegularFile x) \<Longrightarrow> c \<noteq> ''..'' \<Longrightarrow>
     walk fs n b (p @ [c]) = Some (r @ [c])"
proof (induction fs n b p rule: walk.induct)
  case (2 fs n b a cs)
  show ?case
  proof (cases "a = ''..''")
    case False
    then obtain y where y: "content_at fs (b @ [a]) = Some y" using 2 by (auto split: option.splits)
    show ?thesis
    proof (cases y)
      case (LinkTo t)
      then show ?thesis using 2 False y by (cases n) auto
    qed (use 2 False y in \<open>auto simp: is_dir_def split: if_splits\<close>)
  qed (use 2 in auto)
qed simp

lemma open_follow_regular:
  assumes "locate fs p = Some k" and "p \<noteq> []" and "last p \<noteq> ''..''" and "inode_at fs k = Some i"
    and "is_regular (in_content (fs_inodes fs i))"
  shows "sys_open_follow p fs = Inr i"
proof -
  obtain d where d: "realpath fs (butlast p) = Some d" "is_dir fs d" "k = d @ [last p]"
    using assms(1-3) by (auto simp: locate_def split: option.splits if_splits)
  obtain x where "in_content (fs_inodes fs i) = RegularFile x" using assms(5) by (cases "in_content (fs_inodes fs i)") auto
  then have "content_at fs (d @ [last p]) = Some (RegularFile x)" using assms(4) d(3) by (simp add: content_at_def)
  then have "walk fs 40 [] (butlast p @ [last p]) = Some k"
    using walk_snoc d assms(3) unfolding realpath_def by blast
  then show ?thesis using assms(2,4) by (simp add: sys_open_follow_def realpath_def)
qed

end
