(* ===== verification/Quarantine_Store.thy ===== *)
theory Quarantine_Store
  imports File_System Audit_Writer
begin

text \<open>
  The quarantine store, class \<open>QuarantineManager\<close> of \<open>response/quarantine_manager.py\<close>: files are moved
  into a protected directory with a metadata record beside them, restored, or deleted.

  Every system call first takes an event from \<open>qs_events\<close>: a change of the file system made by some
  other process before the call, and the outcome of the call (it completes, fails with an \<open>errno\<close>, or
  transfers fewer bytes). An exhausted script means that nothing interferes and every call completes.
  \<open>lstat\<close>, \<open>fstat\<close> and path resolution fail only when the entry is missing; closing a descriptor has no
  effect. A descriptor is the inode it refers to.

  The digest, the printing of floats, \<open>expanduser\<close>, the identity of the process, the optional \<open>magic\<close>
  package and the table of MIME types are fields of \<open>q_env\<close>. Identifiers and the time a call draws are
  arguments. Messages keep the fixed part of their text.
\<close>

section \<open>State\<close>

datatype outcome = Completes | Transfers nat | Fails errno

record event =
  ev_change :: "fsys \<Rightarrow> fsys"
  ev_outcome :: outcome

datatype q_exc =
    QuarantineError string
  | QuarantineIntegrityError string
  | QuarantineConflictError string
  | QuarantineMetadataError string
  | QOs errno
  | QPy pyexc
  | QUncaught string \<comment> \<open>\<open>RecursionError\<close>, or an exception of the \<open>magic\<close> package\<close>

datatype magic_result = MagicType pyval | MagicUnavailable | MagicRaises

record q_cfg =
  qc_quarantine_dir :: path
  qc_metadata_dir :: path

record q_env =
  qe_sha256 :: "string \<Rightarrow> string"
  qe_float :: "rat \<Rightarrow> string"
  qe_dumps_depth :: nat
  qe_loads_depth :: nat
  qe_asdict_depth :: nat
  qe_expanduser :: "string \<Rightarrow> q_exc + string"
  qe_cwd :: path
  qe_euid :: int
  qe_egid :: int
  qe_umask :: nat
  qe_renameat2 :: bool
  qe_magic :: "path \<Rightarrow> string \<Rightarrow> magic_result"
  qe_mimetype :: "string \<Rightarrow> string option"
  qe_sort_lists :: "pydict list \<Rightarrow> q_exc + pydict list"
  qe_audit :: audit_env
  qe_audit_cfg :: audit_cfg
  qe_audit_error :: "audit_exc \<Rightarrow> string"

text \<open>The local variables an exception handler reads.\<close>

record q_vars =
  v_holding :: "path option"
  v_temporary :: "path option"
  v_final :: "path option"
  v_metadata :: "path option"
  v_target :: "path option"
  v_identity :: "(int \<times> nat) option"
  v_record :: pydict

definition no_vars :: q_vars where
  "no_vars = \<lparr>v_holding = None, v_temporary = None, v_final = None, v_metadata = None,
     v_target = None, v_identity = None, v_record = []\<rparr>"

record qstore =
  qs_fs :: fsys
  qs_events :: "event list"
  qs_vars :: q_vars
  qs_audit :: "audit option"
  qs_audit_status :: string
  qs_audit_error :: "string option"

type_synonym 'a q_op = "(qstore, q_exc, 'a) eff"

text \<open>The identifiers and clock readings of one call, in the order they are drawn.\<close>

record draws =
  dr_id :: nat
  dr_payload :: nat
  dr_metadata :: nat
  dr_rollback :: nat
  dr_now :: pyfloat
  dr_tick :: tick

section \<open>Calls into the operating system\<close>

definition next_event :: "outcome q_op" where
  "next_event = (\<lambda>s. case qs_events s of
      [] \<Rightarrow> (Inr Completes, s)
    | ev # evs \<Rightarrow> (Inr (ev_outcome ev), s\<lparr>qs_fs := ev_change ev (qs_fs s), qs_events := evs\<rparr>))"

text \<open>A query, a call that returns a value and one that changes the file system.\<close>

definition q_query :: "(fsys \<Rightarrow> 'a) \<Rightarrow> 'a q_op" where
  "q_query f = eff_bind next_event (\<lambda>_. eff_gets (\<lambda>s. f (qs_fs s)))"

definition q_read :: "(fsys \<Rightarrow> errno + 'a) \<Rightarrow> 'a q_op" where
  "q_read f = eff_bind next_event (\<lambda>oc. case oc of
      Fails e \<Rightarrow> eff_raise (QOs e)
    | _ \<Rightarrow> (\<lambda>s. case f (qs_fs s) of Inl e \<Rightarrow> (Inl (QOs e), s) | Inr x \<Rightarrow> (Inr x, s)))"

definition q_call :: "(fsys \<Rightarrow> errno + 'a \<times> fsys) \<Rightarrow> 'a q_op" where
  "q_call f = eff_bind next_event (\<lambda>oc. case oc of
      Fails e \<Rightarrow> eff_raise (QOs e)
    | _ \<Rightarrow> (\<lambda>s. case f (qs_fs s) of Inl e \<Rightarrow> (Inl (QOs e), s) | Inr (x, fs) \<Rightarrow> (Inr x, s\<lparr>qs_fs := fs\<rparr>)))"

definition unit_call :: "(fsys \<Rightarrow> errno + fsys) \<Rightarrow> fsys \<Rightarrow> errno + unit \<times> fsys" where
  "unit_call f fs = res_bind (f fs) (\<lambda>fs'. Inr ((), fs'))"

definition q_lexists :: "path \<Rightarrow> bool q_op" where
  "q_lexists p = q_query (\<lambda>fs. lookup fs p \<noteq> None)"

definition q_lstat :: "path \<Rightarrow> file_stat q_op" where
  "q_lstat p = eff_bind (q_query (\<lambda>fs. map_option (stat_of fs) (lookup fs p))) (\<lambda>r.
     case r of None \<Rightarrow> eff_raise (QOs ENOENT) | Some st \<Rightarrow> eff_return st)"

definition q_fstat :: "nat \<Rightarrow> file_stat q_op" where
  "q_fstat fd = q_query (\<lambda>fs. stat_of fs fd)"

definition q_unlink :: "path \<Rightarrow> unit q_op" where
  "q_unlink p = q_call (unit_call (sys_unlink p))"

text \<open>\<open>unlink(missing_ok=True)\<close>.\<close>

definition q_unlink_missing_ok :: "path \<Rightarrow> unit q_op" where
  "q_unlink_missing_ok p = eff_catch (q_unlink p) (\<lambda>e. if e = QOs ENOENT then eff_return () else eff_raise e)"

definition masked :: "q_env \<Rightarrow> nat \<Rightarrow> nat" where
  "masked env mode = mode - (mode AND qe_umask env)"

definition q_open_excl :: "q_env \<Rightarrow> nat \<Rightarrow> path \<Rightarrow> nat q_op" where
  "q_open_excl env mode p = q_call (sys_create (RegularFile []) (masked env mode) (qe_euid env) (qe_egid env) p)"

definition q_fchmod :: "nat \<Rightarrow> nat \<Rightarrow> unit q_op" where
  "q_fchmod mode fd = q_call (unit_call (\<lambda>fs. Inr (sys_fchmod mode fd fs)))"

definition q_fsync :: "unit q_op" where
  "q_fsync = q_read (\<lambda>_. Inr ())"

text \<open>One \<open>os.read\<close> of at most a chunk; before the end of the file it returns at least one byte.\<close>

definition COPY_CHUNK_SIZE :: nat where
  "COPY_CHUNK_SIZE = 1048576"

definition chunk_of :: "string \<Rightarrow> string" where
  "chunk_of b = take COPY_CHUNK_SIZE b"

lemma chunk_of_code [code]:
  "chunk_of b = (if int (length b) \<le> 1048576 then b else take COPY_CHUNK_SIZE b)"
proof -
  have "int (length b) \<le> 1048576 \<longleftrightarrow> length b \<le> 1048576" by linarith
  then show ?thesis by (simp add: chunk_of_def COPY_CHUNK_SIZE_def)
qed

definition q_read_chunk :: "nat \<Rightarrow> nat \<Rightarrow> string q_op" where
  "q_read_chunk fd off = eff_bind next_event (\<lambda>oc. case oc of
      Fails e \<Rightarrow> eff_raise (QOs e)
    | Completes \<Rightarrow> eff_gets (\<lambda>s. chunk_of (drop off (inode_bytes (qs_fs s) fd)))
    | Transfers n \<Rightarrow> eff_gets (\<lambda>s. take (max 1 n) (chunk_of (drop off (inode_bytes (qs_fs s) fd)))))"

text \<open>One \<open>os.write\<close>: the number of bytes it takes.\<close>

definition q_write :: "nat \<Rightarrow> nat \<Rightarrow> string \<Rightarrow> nat q_op" where
  "q_write fd off view = eff_bind next_event (\<lambda>oc. case oc of
      Fails e \<Rightarrow> eff_raise (QOs e)
    | _ \<Rightarrow> let n = (case oc of Transfers m \<Rightarrow> min m (length view) | _ \<Rightarrow> length view) in
        eff_bind (eff_modify (\<lambda>s. s\<lparr>qs_fs := sys_pwrite fd off (take n view) (qs_fs s)\<rparr>)) (\<lambda>_. eff_return n))"

text \<open>The inner loop over a view of the bytes; the descriptor's offset advances with it.\<close>

function write_all :: "nat \<Rightarrow> nat \<Rightarrow> string \<Rightarrow> unit q_op" where
  "write_all fd off view s =
     (if view = [] then (Inr (), s)
      else (case q_write fd off view s of
          (Inl e, s') \<Rightarrow> (Inl e, s')
        | (Inr n, s') \<Rightarrow> if n = 0 then (Inl (QOs EIO), s') else write_all fd (off + n) (drop n view) s'))"
  by pat_completeness auto
termination
  by (relation "measure (\<lambda>(_, _, view, _). length view)") auto

declare write_all.simps [simp del]

section \<open>Reading and copying to the end of a file\<close>

lemma next_event_cases:
  obtains (quiet) "qs_events s = []" "next_event s = (Inr Completes, s)"
  | (step) ev evs where "qs_events s = ev # evs"
      "next_event s = (Inr (ev_outcome ev), s\<lparr>qs_fs := ev_change ev (qs_fs s), qs_events := evs\<rparr>)"
  by (cases "qs_events s") (auto simp: next_event_def)

lemma read_chunk_measure:
  assumes "q_read_chunk fd off s = (Inr c, s')" and "c \<noteq> []"
  shows "length (qs_events s') < length (qs_events s) \<or>
    qs_events s' = [] \<and> qs_events s = [] \<and> qs_fs s' = qs_fs s \<and> off < length (inode_bytes (qs_fs s) fd)
      \<and> length c \<le> length (inode_bytes (qs_fs s) fd) - off"
proof (cases rule: next_event_cases [of s])
  case quiet
  then have "s' = s" "c = chunk_of (drop off (inode_bytes (qs_fs s) fd))"
    using assms(1) by (auto simp: q_read_chunk_def)
  then show ?thesis using assms(2) quiet by (auto simp: chunk_of_def)
next
  case (step ev evs)
  then have "qs_events s' = evs"
    using assms(1) by (auto simp: q_read_chunk_def split: outcome.splits)
  then show ?thesis using step by simp
qed

lemma q_write_measure:
  assumes "q_write fd off view s = (r, s')"
  shows "length (qs_events s') \<le> length (qs_events s)"
    and "qs_events s = [] \<Longrightarrow> length (inode_bytes (qs_fs s') i) \<le> max (length (inode_bytes (qs_fs s) i)) (off + length view)"
  using assms by (cases rule: next_event_cases [of s];
    auto simp: q_write_def sys_pwrite_def set_inode_def inode_bytes_def overlay_def Let_def split: outcome.splits)+

lemma q_write_count: "q_write fd off view s = (Inr n, s') \<Longrightarrow> n \<le> length view"
  by (cases rule: next_event_cases [of s]) (auto simp: q_write_def Let_def split: outcome.splits)

lemma write_all_steps:
  "write_all fd off [] s = (Inr (), s)"
  "view \<noteq> [] \<Longrightarrow> q_write fd off view s = (Inl e, t) \<Longrightarrow> write_all fd off view s = (Inl e, t)"
  "view \<noteq> [] \<Longrightarrow> q_write fd off view s = (Inr 0, t) \<Longrightarrow> write_all fd off view s = (Inl (QOs EIO), t)"
  "view \<noteq> [] \<Longrightarrow> q_write fd off view s = (Inr (Suc n), t) \<Longrightarrow>
     write_all fd off view s = write_all fd (off + Suc n) (drop (Suc n) view) t"
  by (subst write_all.simps, simp)+

lemma write_all_measure:
  "write_all fd off view s = (r, s') \<Longrightarrow> length (qs_events s') \<le> length (qs_events s) \<and>
     (qs_events s = [] \<longrightarrow> length (inode_bytes (qs_fs s') i) \<le> max (length (inode_bytes (qs_fs s) i)) (off + length view))"
proof (induction fd off view s arbitrary: r s' rule: write_all.induct)
  case (1 fd off view s)
  obtain q t where w: "q_write fd off view s = (q, t)" by (cases "q_write fd off view s")
  note le = q_write_measure [OF w]
  consider (empty) "view = []" | (stop) "view \<noteq> []" "\<exists>e. r = Inl e" "s' = t"
    | (more) n where "view \<noteq> []" "q = Inr (Suc n)"
    using 1(2) w by (cases q; cases "view = []"; cases "q = Inr 0") (auto simp: write_all_steps gr0_conv_Suc)
  then show ?case
  proof cases
    case (more n)
    then have n: "Suc n \<le> length view" using q_write_count w by simp
    have "write_all fd (off + Suc n) (drop (Suc n) view) t = (r, s')"
      using 1(2) w more by (simp add: write_all_steps)
    from 1(1) [OF more(1) w [symmetric] more(2) _ this] le(1) le(2) [of i] n show ?thesis by fastforce
  qed (use 1(2) le in \<open>auto simp: write_all_steps\<close>)
qed

text \<open>The loop of \<open>_hash_fd\<close>: the bytes read from an offset on.\<close>

function read_rest :: "nat \<Rightarrow> nat \<Rightarrow> string \<Rightarrow> string q_op" where
  "read_rest fd off acc s =
     (case q_read_chunk fd off s of
        (Inl e, s') \<Rightarrow> (Inl e, s')
      | (Inr c, s') \<Rightarrow> if c = [] then (Inr acc, s') else read_rest fd (off + length c) (acc @ c) s')"
  by pat_completeness auto
termination
proof (relation "measures [\<lambda>(_, _, _, s). length (qs_events s), \<lambda>(fd, off, _, s). length (inode_bytes (qs_fs s) fd) - off]")
  fix fd off acc s x s' c
  assume "(x, s') = q_read_chunk fd off s" and "x = Inr c" and "c \<noteq> []"
  then show "((fd, off + length c, acc @ c, s'), (fd, off, acc, s)) \<in>
      measures [\<lambda>(_, _, _, s). length (qs_events s), \<lambda>(fd, off, _, s). length (inode_bytes (qs_fs s) fd) - off]"
    using read_chunk_measure [of fd off s c s'] by (cases c) auto
qed simp

text \<open>The loop of \<open>_copy_between_fds\<close>: each chunk read is written before the next one is read.\<close>

function copy_rest :: "nat \<Rightarrow> nat \<Rightarrow> nat \<Rightarrow> string \<Rightarrow> string q_op" where
  "copy_rest src dst off acc s =
     (case q_read_chunk src off s of
        (Inl e, s') \<Rightarrow> (Inl e, s')
      | (Inr c, s') \<Rightarrow>
          if c = [] then (Inr acc, s')
          else (case write_all dst off c s' of
              (Inl e, t) \<Rightarrow> (Inl e, t)
            | (Inr _, t) \<Rightarrow> copy_rest src dst (off + length c) (acc @ c) t))"
  by pat_completeness auto
termination
proof (relation "measures [\<lambda>(_, _, _, _, s). length (qs_events s), \<lambda>(src, _, off, _, s). length (inode_bytes (qs_fs s) src) - off]")
  fix src dst off acc s x s' c y t u
  assume "(x, s') = q_read_chunk src off s" and "x = Inr c" and "c \<noteq> []"
    and "(y, t) = write_all dst off c s'" and "y = Inr u"
  then show "((src, dst, off + length c, acc @ c, t), (src, dst, off, acc, s)) \<in>
      measures [\<lambda>(_, _, _, _, s). length (qs_events s), \<lambda>(src, _, off, _, s). length (inode_bytes (qs_fs s) src) - off]"
    using read_chunk_measure [of src off s c s'] write_all_measure [of dst off c s' y t src] by (cases c) auto
qed simp

declare read_rest.simps [simp del] copy_rest.simps [simp del]

section \<open>Descriptors and paths\<close>

definition hash_fd :: "q_env \<Rightarrow> nat \<Rightarrow> string q_op" where
  "hash_fd env fd = eff_bind (read_rest fd 0 []) (\<lambda>b. eff_return (qe_sha256 env b))"

definition copy_between_fds :: "q_env \<Rightarrow> nat \<Rightarrow> nat \<Rightarrow> (string \<times> nat) q_op" where
  "copy_between_fds env src dst = eff_bind (copy_rest src dst 0 []) (\<lambda>b. eff_return (qe_sha256 env b, length b))"

definition sha256_file :: "q_env \<Rightarrow> path \<Rightarrow> string q_op" where
  "sha256_file env p =
     eff_bind (eff_catch (q_read (sys_open p)) (\<lambda>_. eff_raise (QuarantineError ''Cannot open file for hashing''))) (\<lambda>fd.
     eff_bind (q_fstat fd) (\<lambda>st.
     if \<not> is_regular (st_content st) then eff_raise (QuarantineError ''Only regular files can be hashed'')
     else hash_fd env fd))"

text \<open>\<open>path.mkdir(parents=True)\<close>: a missing parent is made first, with the default mode.\<close>

definition q_mkdir :: "q_env \<Rightarrow> nat \<Rightarrow> path \<Rightarrow> nat q_op" where
  "q_mkdir env mode p = q_call (sys_create DirectoryNode (masked env mode) (qe_euid env) (qe_egid env) p)"

text \<open>With \<open>exist_ok=True\<close>, as for the parents, an existing directory is accepted.\<close>

definition q_exist_ok :: "bool \<Rightarrow> path \<Rightarrow> q_exc \<Rightarrow> unit q_op" where
  "q_exist_ok ok p e =
     (if \<not> ok then eff_raise e
      else eff_bind (q_query (\<lambda>fs. case realpath fs p of Some d \<Rightarrow> is_dir fs d | None \<Rightarrow> False)) (\<lambda>there.
        if there then eff_return () else eff_raise e))"

fun q_mkdir_parents :: "q_env \<Rightarrow> nat \<Rightarrow> bool \<Rightarrow> nat \<Rightarrow> path \<Rightarrow> unit q_op" where
  "q_mkdir_parents env depth ok mode p = eff_catch (eff_bind (q_mkdir env mode p) (\<lambda>_. eff_return ())) (\<lambda>e.
     case depth of
       0 \<Rightarrow> if e = QOs ENOENT then eff_raise e else q_exist_ok ok p e
     | Suc d \<Rightarrow>
         if e = QOs ENOENT
         then eff_bind (q_mkdir_parents env d True 511 (butlast p)) (\<lambda>_.
           eff_catch (eff_bind (q_mkdir env mode p) (\<lambda>_. eff_return ()))
             (\<lambda>e'. if e' = QOs ENOENT then eff_raise e' else q_exist_ok ok p e'))
         else q_exist_ok ok p e)"

definition prepare_private_directory :: "q_env \<Rightarrow> path \<Rightarrow> unit q_op" where
  "prepare_private_directory env p =
     eff_bind (q_lexists p) (\<lambda>there.
     eff_bind
       (if there then eff_bind (q_lstat p) (\<lambda>info.
          if is_link (st_content info) \<or> st_content info \<noteq> DirectoryNode
          then eff_raise (QuarantineError ''Protected path is not a real directory'') else eff_return ())
        else q_mkdir_parents env (length p) False 448 p) (\<lambda>_.
     eff_bind (q_lstat p) (\<lambda>info.
     if st_uid info \<noteq> qe_euid env
     then eff_raise (QuarantineError ''Protected directory is not owned by the current service user'')
     else q_call (unit_call (sys_chmod 448 p)))))"

definition quarantine_init :: "q_env \<Rightarrow> q_cfg \<Rightarrow> unit q_op" where
  "quarantine_init env cfg =
     eff_bind (eff_modify (\<lambda>s. s\<lparr>qs_audit_status := (if qs_audit s \<noteq> None then ''HEALTHY'' else ''NOT_CONFIGURED''),
       qs_audit_error := None\<rparr>)) (\<lambda>_.
     eff_bind (prepare_private_directory env (qc_quarantine_dir cfg)) (\<lambda>_.
     prepare_private_directory env (qc_metadata_dir cfg)))"

definition audit_health :: "qstore \<Rightarrow> pydict" where
  "audit_health s = [(''status'', PStr (qs_audit_status s)), (''error'', py_opt_str (qs_audit_error s))]"

text \<open>\<open>Path(text).expanduser()\<close>: whether the path is absolute, and its components.\<close>

definition expand_path :: "q_env \<Rightarrow> string \<Rightarrow> q_exc + bool \<times> path" where
  "expand_path env t = res_bind (qe_expanduser env t) (\<lambda>e. Inr (starts_with e ''/'', path_comps e))"

text \<open>\<open>parent / name\<close>; the root has no name.\<close>

definition with_name :: "path \<Rightarrow> path \<Rightarrow> path" where
  "with_name d p = (if p = [] then d else d @ [last p])"

definition canonical_source_path :: "q_env \<Rightarrow> string \<Rightarrow> path q_op" where
  "canonical_source_path env t =
     eff_bind (eff_lift (expand_path env t)) (\<lambda>(absolute, comps).
     let raw = (if absolute then comps else qe_cwd env @ comps) in
     eff_bind (q_lexists raw) (\<lambda>there.
     if \<not> there then eff_raise (QuarantineError ''Source file does not exist'')
     else eff_bind (q_lstat raw) (\<lambda>st.
       if is_link (st_content st) then eff_raise (QuarantineError ''Symbolic-link sources are not accepted'')
       else eff_bind (q_query (\<lambda>fs. realpath fs (butlast raw))) (\<lambda>r.
         case r of
           None \<Rightarrow> eff_raise (QuarantineError ''Cannot resolve source parent directory'')
         | Some d \<Rightarrow> let canonical = with_name d raw in
             eff_bind (q_lexists canonical) (\<lambda>still.
             if \<not> still then eff_raise (QuarantineError ''Source file disappeared before quarantine'')
             else eff_return canonical)))))"

definition open_regular_nofollow :: "path \<Rightarrow> (nat \<times> file_stat) q_op" where
  "open_regular_nofollow p =
     eff_bind (eff_catch (q_read (sys_open p)) (\<lambda>e. eff_raise (QuarantineError
       (if e = QOs ELOOP then ''Symbolic-link path rejected'' else ''Cannot securely open file'')))) (\<lambda>fd.
     eff_bind (q_fstat fd) (\<lambda>opened.
     if \<not> is_regular (st_content opened) then eff_raise (QuarantineError ''Only regular files can be quarantined'')
     else eff_bind (q_lstat p) (\<lambda>path_stat.
       if is_link (st_content path_stat) then eff_raise (QuarantineError ''Symbolic-link path rejected'')
       else if \<not> same_file path_stat opened
         then eff_raise (QuarantineIntegrityError ''File identity changed while opening'')
       else eff_return (fd, opened))))"

definition assert_fd_unchanged :: "nat \<Rightarrow> file_stat \<Rightarrow> unit q_op" where
  "assert_fd_unchanged fd initial = eff_bind (q_fstat fd) (\<lambda>current.
     if same_file current initial \<and> st_size current = st_size initial \<and>
        st_mtime current = st_mtime initial \<and> st_ctime current = st_ctime initial
     then eff_return () else eff_raise (QuarantineIntegrityError ''Source changed; quarantine was aborted''))"

definition assert_path_matches_fd :: "path \<Rightarrow> nat \<Rightarrow> file_stat \<Rightarrow> unit q_op" where
  "assert_path_matches_fd p fd initial =
     eff_bind (q_lstat p) (\<lambda>path_stat. eff_bind (q_fstat fd) (\<lambda>fd_stat.
     if is_link (st_content path_stat) then eff_raise (QuarantineIntegrityError ''Holding path became a symbolic link'')
     else if \<not> same_file path_stat initial
       then eff_raise (QuarantineIntegrityError ''Source identity changed during protected move'')
     else if \<not> same_file fd_stat initial
       then eff_raise (QuarantineIntegrityError ''Opened source identity changed unexpectedly'')
     else eff_return ()))"

definition copy_fd_to_new_file :: "q_env \<Rightarrow> nat \<Rightarrow> path \<Rightarrow> (string \<times> nat) q_op" where
  "copy_fd_to_new_file env src destination =
     eff_bind (q_open_excl env 384 destination) (\<lambda>fd.
     eff_bind (copy_between_fds env src fd) (\<lambda>r.
     eff_bind (q_fchmod 384 fd) (\<lambda>_. eff_bind q_fsync (\<lambda>_. eff_return r))))"

text \<open>The portable fallback: a hard link, then the removal of the old name.\<close>

definition link_and_unlink :: "path \<Rightarrow> path \<Rightarrow> unit q_op" where
  "link_and_unlink src dst =
     eff_bind (q_call (unit_call (sys_link src dst))) (\<lambda>_.
     eff_catch (q_unlink src) (\<lambda>e.
       eff_bind (eff_catch (q_unlink_missing_ok dst) (\<lambda>_. eff_return ())) (\<lambda>_. eff_raise e)))"

definition move_noreplace :: "q_env \<Rightarrow> path \<Rightarrow> path \<Rightarrow> unit q_op" where
  "move_noreplace env src dst = eff_bind (q_lexists dst) (\<lambda>there.
     if there then eff_raise (QuarantineConflictError ''Destination already exists'')
     else if qe_renameat2 env
       then eff_catch (q_call (unit_call (sys_rename_noreplace src dst))) (\<lambda>e.
         if e = QOs ENOSYS \<or> e = QOs EINVAL then link_and_unlink src dst else eff_raise e)
     else link_and_unlink src dst)"

text \<open>A directory that cannot be opened is left alone; some file systems cannot sync one.\<close>

definition fsync_directory :: "path \<Rightarrow> unit q_op" where
  "fsync_directory p =
     eff_bind (eff_catch (eff_bind (q_read (sys_open_follow p)) (\<lambda>i. eff_bind (eff_gets qs_fs) (\<lambda>fs.
       eff_return (in_content (fs_inodes fs i) = DirectoryNode)))) (\<lambda>_. eff_return False)) (\<lambda>opened.
     if \<not> opened then eff_return ()
     else eff_catch q_fsync (\<lambda>e. if e = QOs EINVAL \<or> e = QOs EROFS then eff_return () else eff_raise e))"

section \<open>Records\<close>

text \<open>
  \<open>QuarantineRecord\<close> is a dataclass without type checks: a record is the dictionary of its fields, in
  their order, and \<open>to_dict\<close> fails only on values nested deeper than the interpreter recurses.
\<close>

definition REQUIRED_FIELDS :: "string list" where
  "REQUIRED_FIELDS =
     [''schema_version'', ''quarantine_id'', ''original_path'', ''sha256'', ''size_bytes'', ''file_type'',
      ''timestamp'', ''timestamp_utc'', ''reason'', ''related_pid'', ''process_info'', ''triggered_rules'',
      ''original_mode'', ''original_uid'', ''original_gid'', ''source_device'', ''source_inode'',
      ''source_link_count'']"

definition DEFAULT_FIELDS :: pydict where
  "DEFAULT_FIELDS =
     [(''restoration_status'', PStr ''quarantined''), (''restored_at'', PNone), (''restored_at_utc'', PNone),
      (''restored_path'', PNone), (''restored_mode'', PNone), (''ownership_restored'', PBool False),
      (''deleted_at'', PNone), (''deleted_at_utc'', PNone)]"

definition RECORD_FIELDS :: "string list" where
  "RECORD_FIELDS = REQUIRED_FIELDS @ map fst DEFAULT_FIELDS"

text \<open>\<open>QuarantineRecord(**data)\<close>.\<close>

definition make_record :: "pydict \<Rightarrow> q_exc + pydict" where
  "make_record data =
     (if list_all (\<lambda>k. k \<in> set RECORD_FIELDS) (map fst data) \<and> list_all (\<lambda>k. dict_get data k \<noteq> None) REQUIRED_FIELDS
      then Inr (map (\<lambda>k. (k, py_get_or data k (py_get DEFAULT_FIELDS k))) RECORD_FIELDS)
      else Inl (QPy TypeError))"

definition record_to_dict :: "q_env \<Rightarrow> pydict \<Rightarrow> q_exc + pydict" where
  "record_to_dict env r = (if nesting (PDict r) \<le> qe_asdict_depth env then Inr r else Inl (QUncaught ''RecursionError''))"

definition records_differ :: "pydict \<Rightarrow> pydict \<Rightarrow> bool" where
  "records_differ a b = list_ex (\<lambda>k. \<not> py_eq (py_get a k) (py_get b k)) RECORD_FIELDS"

section \<open>Validation\<close>

definition METADATA_SCHEMA_VERSION :: int where
  "METADATA_SCHEMA_VERSION = 1"

definition lift_q :: "pyexc + 'a \<Rightarrow> q_exc + 'a" where
  "lift_q r = (case r of Inl e \<Rightarrow> Inl (QPy e) | Inr x \<Rightarrow> Inr x)"

definition validate_quarantine_id :: "pyval \<Rightarrow> q_exc + string" where
  "validate_quarantine_id v = (case v of
      PStr t \<Rightarrow> (case uuid_of t of
          None \<Rightarrow> Inl (QuarantineMetadataError ''Invalid quarantine ID'')
        | Some n \<Rightarrow> if py_lower t \<noteq> uuid_text n
            then Inl (QuarantineMetadataError ''Quarantine ID is not canonical'') else Inr (uuid_text n))
    | _ \<Rightarrow> Inl (QuarantineMetadataError ''Quarantine ID must be a string''))"

definition any_hex_digit :: "char \<Rightarrow> bool" where
  "any_hex_digit c = (c \<in> set ''0123456789abcdefABCDEF'')"

definition validate_expected_hash :: "pyval \<Rightarrow> q_exc + unit" where
  "validate_expected_hash v = (case v of
      PNone \<Rightarrow> Inr ()
    | PStr t \<Rightarrow> if text_length t \<noteq> 64 \<or> \<not> list_all any_hex_digit t
        then Inl (QuarantineError ''expected_sha256 must contain 64 hexadecimal characters'') else Inr ()
    | _ \<Rightarrow> Inl (QuarantineError ''expected_sha256 must contain 64 hexadecimal characters''))"

definition validate_pid :: "pyval \<Rightarrow> q_exc + pyval" where
  "validate_pid v = (case v of
      PNone \<Rightarrow> Inr PNone
    | PInt i \<Rightarrow> if i \<le> 0 then Inl (QuarantineError ''related_pid must be a positive integer or null'') else Inr v
    | _ \<Rightarrow> Inl (QuarantineError ''related_pid must be a positive integer or null''))"

definition require_nonempty_text :: "pyval \<Rightarrow> string \<Rightarrow> q_exc + string" where
  "require_nonempty_text v name = (case v of
      PStr t \<Rightarrow> if py_strip t = [] then Inl (QuarantineError (name @ '' must be a non-empty string'')) else Inr (py_strip t)
    | _ \<Rightarrow> Inl (QuarantineError (name @ '' must be a non-empty string'')))"

text \<open>\<open>json.dumps(value, ensure_ascii=False, allow_nan=False)\<close> as a test.\<close>

definition strict_style :: "q_env \<Rightarrow> json_style" where
  "strict_style env = (default_style (qe_float env))\<lparr>js_nan := False\<rparr>"

definition require_json_value :: "q_env \<Rightarrow> pyval \<Rightarrow> string \<Rightarrow> q_exc + pyval" where
  "require_json_value env v name =
     (if nesting v > qe_dumps_depth env then Inl (QUncaught ''RecursionError'')
      else (case dumps (strict_style env) v of
          Inl _ \<Rightarrow> Inl (QuarantineError (name @ '' must be JSON-serialisable''))
        | Inr _ \<Rightarrow> Inr v))"

text \<open>
  \<open>len(sha256) != 64 or any(character not in "0123456789abcdef" ...)\<close>: a list or a dictionary has a
  length and items too, and \<open>in\<close> is the substring test on them.
\<close>

fun any_not_hex :: "pyval list \<Rightarrow> q_exc + bool" where
  "any_not_hex [] = Inr False"
| "any_not_hex (PStr t # vs) = (if sublist t ''0123456789abcdef'' then any_not_hex vs else Inr True)"
| "any_not_hex (_ # vs) = Inl (QPy TypeError)"

definition bad_sha256 :: "pyval \<Rightarrow> q_exc + bool" where
  "bad_sha256 v = (case v of
      PStr t \<Rightarrow> Inr (text_length t \<noteq> 64 \<or> \<not> list_all hex_digit t)
    | PList xs \<Rightarrow> if length xs \<noteq> 64 then Inr True else any_not_hex xs
    | PDict d \<Rightarrow> if length d \<noteq> 64 then Inr True else any_not_hex (map (\<lambda>kv. PStr (fst kv)) d)
    | _ \<Rightarrow> Inl (QPy TypeError))"

definition bad_size :: "pyval \<Rightarrow> bool" where
  "bad_size v = (case v of PInt i \<Rightarrow> i < 0 | PBool _ \<Rightarrow> False | _ \<Rightarrow> True)"

definition bad_status :: "pyval \<Rightarrow> q_exc + bool" where
  "bad_status v = (case v of
      PList _ \<Rightarrow> Inl (QPy TypeError)
    | PDict _ \<Rightarrow> Inl (QPy TypeError)
    | PStr t \<Rightarrow> Inr (t \<notin> set [''quarantined'', ''restored'', ''deleted''])
    | _ \<Rightarrow> Inr True)"

definition refuse :: "bool \<Rightarrow> string \<Rightarrow> q_exc + unit" where
  "refuse b msg = (if b then Inl (QuarantineMetadataError msg) else Inr ())"

definition is_absolute_path :: "pyval \<Rightarrow> q_exc + bool" where
  "is_absolute_path v = (case v of PStr t \<Rightarrow> Inr (starts_with t ''/'') | _ \<Rightarrow> Inl (QPy TypeError))"

definition validate_record :: "q_env \<Rightarrow> pydict \<Rightarrow> q_exc + unit" where
  "validate_record env r =
     res_bind (refuse (\<not> py_eq (py_get r ''schema_version'') (PInt METADATA_SCHEMA_VERSION)) ''Unsupported metadata schema'') (\<lambda>_.
     res_bind (validate_quarantine_id (py_get r ''quarantine_id'')) (\<lambda>_.
     res_bind (is_absolute_path (py_get r ''original_path'')) (\<lambda>absolute.
     res_bind (refuse (\<not> absolute) ''Original path must be absolute'') (\<lambda>_.
     res_bind (bad_sha256 (py_get r ''sha256'')) (\<lambda>bad.
     res_bind (refuse bad ''Invalid SHA-256 value in metadata'') (\<lambda>_.
     res_bind (refuse (bad_size (py_get r ''size_bytes'')) ''Invalid file size in metadata'') (\<lambda>_.
     res_bind (bad_status (py_get r ''restoration_status'')) (\<lambda>bad.
     res_bind (refuse bad ''Invalid restoration status'') (\<lambda>_.
     res_bind (refuse (\<not> is_list (py_get r ''triggered_rules'')) ''triggered_rules must be a list'') (\<lambda>_.
     res_bind (refuse (\<not> is_dict (py_get r ''process_info'')) ''process_info must be an object'') (\<lambda>_.
     res_bind (record_to_dict env r) (\<lambda>d.
     res_bind (require_json_value env (PDict d) ''metadata'') (\<lambda>_. Inr ())))))))))))))"

definition payload_path :: "q_cfg \<Rightarrow> pyval \<Rightarrow> q_exc + path" where
  "payload_path cfg v = res_bind (validate_quarantine_id v) (\<lambda>t. Inr (qc_quarantine_dir cfg @ [t]))"

definition metadata_path :: "q_cfg \<Rightarrow> pyval \<Rightarrow> q_exc + path" where
  "metadata_path cfg v = res_bind (validate_quarantine_id v) (\<lambda>t. Inr (qc_metadata_dir cfg @ [t @ ''.json'']))"

section \<open>Metadata files\<close>

text \<open>The bytes of a record: sorted keys, two spaces of indentation, UTF-8.\<close>

definition metadata_bytes :: "q_env \<Rightarrow> pydict \<Rightarrow> q_exc + string" where
  "metadata_bytes env r = res_bind (record_to_dict env r) (\<lambda>d.
     if nesting (PDict d) > qe_dumps_depth env then Inl (QUncaught ''RecursionError'')
     else lift_q (res_bind (dumps (indented_style (qe_float env)) (sort_value (PDict d))) encode_utf8))"

text \<open>\<open>f".{id}.{uuid4().hex}.tmp"\<close>.\<close>

definition temporary_name :: "string \<Rightarrow> nat \<Rightarrow> string" where
  "temporary_name t u = ''.'' @ t @ ''.'' @ hex_digits 32 u @ ''.tmp''"

definition text_of_id :: "pydict \<Rightarrow> string" where
  "text_of_id r = (case py_get r ''quarantine_id'' of PStr t \<Rightarrow> t | _ \<Rightarrow> [])"

text \<open>Runs a step; if it raises, the temporary file is removed before the exception goes on.\<close>

definition or_unlink :: "path \<Rightarrow> 'a q_op \<Rightarrow> 'a q_op" where
  "or_unlink temporary m = eff_catch m (\<lambda>e. eff_bind (q_unlink_missing_ok temporary) (\<lambda>_. eff_raise e))"

definition write_metadata_atomic :: "q_env \<Rightarrow> q_cfg \<Rightarrow> nat \<Rightarrow> pydict \<Rightarrow> unit q_op" where
  "write_metadata_atomic env cfg u r =
     eff_bind (eff_lift (validate_record env r)) (\<lambda>_.
     eff_bind (eff_lift (metadata_path cfg (py_get r ''quarantine_id''))) (\<lambda>destination.
     eff_bind (q_lexists destination) (\<lambda>there.
     eff_bind (if there then eff_bind (q_lstat destination) (\<lambda>st.
         if is_link (st_content st) \<or> \<not> is_regular (st_content st)
         then eff_raise (QuarantineMetadataError ''Metadata destination is not a regular file'') else eff_return ())
       else eff_return ()) (\<lambda>_.
     eff_bind (eff_lift (metadata_bytes env r)) (\<lambda>payload.
     let temporary = qc_metadata_dir cfg @ [temporary_name (text_of_id r) u] in
     eff_bind (q_open_excl env 384 temporary) (\<lambda>fd.
     eff_bind (or_unlink temporary (eff_bind (write_all fd 0 payload) (\<lambda>_.
       eff_bind (q_fchmod 384 fd) (\<lambda>_. q_fsync)))) (\<lambda>_.
     or_unlink temporary (eff_bind (q_call (unit_call (sys_replace temporary destination))) (\<lambda>_.
       eff_bind (q_call (unit_call (sys_chmod 384 destination))) (\<lambda>_.
       fsync_directory (qc_metadata_dir cfg)))))))))))"

definition json_failure :: "json_error \<Rightarrow> q_exc" where
  "json_failure e = (case e of
      JSONDecodeError \<Rightarrow> QuarantineMetadataError ''Metadata cannot be read''
    | IntTooLong \<Rightarrow> QPy (ValueError ''Exceeds the limit for integer string conversion'')
    | _ \<Rightarrow> QUncaught ''RecursionError'')"

definition decode_metadata :: "q_env \<Rightarrow> string \<Rightarrow> string \<Rightarrow> q_exc + pydict" where
  "decode_metadata env safe_id raw =
     (if \<not> utf8_valid raw then Inl (QuarantineMetadataError ''Metadata cannot be read'')
      else (case loads (qe_loads_depth env) raw of
          Inl e \<Rightarrow> Inl (json_failure e)
        | Inr (PDict data) \<Rightarrow> (case make_record data of
            Inl _ \<Rightarrow> Inl (QuarantineMetadataError ''Metadata fields are incomplete or unsupported'')
          | Inr r \<Rightarrow> res_bind (validate_record env r) (\<lambda>_.
              if py_get r ''quarantine_id'' \<noteq> PStr safe_id
              then Inl (QuarantineMetadataError ''Metadata ID does not match its filename'') else Inr r))
        | Inr _ \<Rightarrow> Inl (QuarantineMetadataError ''Metadata root must be an object'')))"

definition load_metadata :: "q_env \<Rightarrow> q_cfg \<Rightarrow> pyval \<Rightarrow> pydict q_op" where
  "load_metadata env cfg v =
     eff_bind (eff_lift (validate_quarantine_id v)) (\<lambda>safe_id.
     eff_bind (eff_lift (metadata_path cfg (PStr safe_id))) (\<lambda>p.
     eff_bind (q_lexists p) (\<lambda>there.
     if \<not> there then eff_raise (QuarantineMetadataError ''Metadata not found'')
     else eff_bind (q_lstat p) (\<lambda>st.
       if is_link (st_content st) \<or> \<not> is_regular (st_content st)
       then eff_raise (QuarantineMetadataError ''Metadata path is unsafe'')
       else eff_bind (eff_catch (eff_bind (q_read (sys_open_follow p)) (\<lambda>fd. q_query (\<lambda>fs. inode_bytes fs fd)))
           (\<lambda>_. eff_raise (QuarantineMetadataError ''Metadata cannot be read''))) (\<lambda>raw.
         eff_lift (decode_metadata env safe_id raw))))))"

definition get_record :: "q_env \<Rightarrow> q_cfg \<Rightarrow> pyval \<Rightarrow> pydict q_op" where
  "get_record env cfg v = load_metadata env cfg v"

section \<open>Audit\<close>

fun raw_of_value :: "pyval \<Rightarrow> rawval" where
  "raw_of_value PNone = RNone"
| "raw_of_value (PBool b) = RBool b"
| "raw_of_value (PInt i) = RInt i"
| "raw_of_value (PFloat f) = RFloat f"
| "raw_of_value (PStr t) = RStr t"
| "raw_of_value (PList xs) = RSequence (map raw_of_value xs)"
| "raw_of_value (PDict d) = RMapping (map (\<lambda>kv. (PStr (fst kv), raw_of_value (snd kv))) d)"

text \<open>A failure of the audit log is remembered and never undoes the action.\<close>

definition audit_action :: "q_env \<Rightarrow> tick \<Rightarrow> string \<Rightarrow> string \<Rightarrow> pydict \<Rightarrow> unit q_op" where
  "audit_action env tk event_type target details = (\<lambda>s. case qs_audit s of
      None \<Rightarrow> (Inr (), s)
    | Some a \<Rightarrow> (case record_event (qe_audit env) (qe_audit_cfg env) tk (PStr event_type) (PStr target)
          (raw_of_value (PDict details)) a of
        (Inr _, a') \<Rightarrow> (Inr (), s\<lparr>qs_audit := Some a', qs_audit_status := ''HEALTHY'', qs_audit_error := None\<rparr>)
      | (Inl e, a') \<Rightarrow> (Inr (), s\<lparr>qs_audit := Some a', qs_audit_status := ''DEGRADED_AUDIT_WRITE_FAILED'',
          qs_audit_error := Some (qe_audit_error env e)\<rparr>)))"

section \<open>Quarantine\<close>

text \<open>\<open>except (OSError, ValueError, TypeError, QuarantineError)\<close>.\<close>

fun is_caught :: "q_exc \<Rightarrow> bool" where
  "is_caught (QUncaught _) = False"
| "is_caught (QPy e) = (case e of TypeError \<Rightarrow> True | ValueError _ \<Rightarrow> True | OSError _ \<Rightarrow> True
     | PermissionError _ \<Rightarrow> True | _ \<Rightarrow> False)"
| "is_caught _ = True"

fun is_quarantine_error :: "q_exc \<Rightarrow> bool" where
  "is_quarantine_error (QuarantineError _) = True"
| "is_quarantine_error (QuarantineIntegrityError _) = True"
| "is_quarantine_error (QuarantineConflictError _) = True"
| "is_quarantine_error (QuarantineMetadataError _) = True"
| "is_quarantine_error _ = False"

definition is_oserror :: "q_exc \<Rightarrow> bool" where
  "is_oserror e = (case e of QOs _ \<Rightarrow> True | QPy (OSError _) \<Rightarrow> True | QPy (PermissionError _) \<Rightarrow> True | _ \<Rightarrow> False)"

definition set_vars :: "(q_vars \<Rightarrow> q_vars) \<Rightarrow> unit q_op" where
  "set_vars f = eff_modify (\<lambda>s. s\<lparr>qs_vars := f (qs_vars s)\<rparr>)"

definition when_some :: "'a option \<Rightarrow> ('a \<Rightarrow> unit q_op) \<Rightarrow> unit q_op" where
  "when_some x f = (case x of None \<Rightarrow> eff_return () | Some y \<Rightarrow> f y)"

definition reject_if :: "bool \<Rightarrow> q_exc \<Rightarrow> unit q_op" where
  "reject_if b e = (if b then eff_raise e else eff_return ())"

definition differs :: "nat \<Rightarrow> int option \<Rightarrow> bool" where
  "differs actual expected = (case expected of None \<Rightarrow> False | Some x \<Rightarrow> int actual \<noteq> x)"

record expected_identity =
  ex_device :: "int option"
  ex_inode :: "int option"
  ex_size :: "int option"
  ex_mtime :: "int option"
  ex_ctime :: "int option"

definition check_identity :: "expected_identity \<Rightarrow> file_stat \<Rightarrow> unit q_op" where
  "check_identity ex st =
     eff_bind (if ex_device ex = None \<and> ex_inode ex = None then eff_return ()
       else if ex_device ex = None \<or> ex_inode ex = None
         then eff_raise (QuarantineError ''expected_device and expected_inode must be supplied together'')
       else reject_if ((Some (st_dev st), Some (int (st_ino st))) \<noteq> (ex_device ex, ex_inode ex))
         (QuarantineIntegrityError ''Source file identity changed before quarantine; no file was removed'')) (\<lambda>_.
     eff_bind (reject_if (differs (st_size st) (ex_size ex))
       (QuarantineIntegrityError ''Source file size changed before quarantine; no file was removed'')) (\<lambda>_.
     eff_bind (reject_if (differs (st_mtime st) (ex_mtime ex))
       (QuarantineIntegrityError ''Source file modification time changed before quarantine; no file was removed'')) (\<lambda>_.
     eff_bind (reject_if (differs (st_ctime st) (ex_ctime ex))
       (QuarantineIntegrityError ''Source file change time changed before quarantine; no file was removed'')) (\<lambda>_.
     reject_if (st_nlink st \<noteq> 1)
       (QuarantineError ''Source has multiple hard links; path-only quarantine cannot isolate all aliases'')))))"

definition hash_matches :: "pyval \<Rightarrow> string \<Rightarrow> bool" where
  "hash_matches expected h = (case expected of PStr t \<Rightarrow> t = [] \<or> h = py_lower t | _ \<Rightarrow> True)"

text \<open>\<open>_detect_file_type\<close>: the ELF signature, then the \<open>magic\<close> package, then the name.\<close>

definition guessed_type :: "q_env \<Rightarrow> path \<Rightarrow> string" where
  "guessed_type env p = (case qe_mimetype env (if p = [] then [] else last p) of
      Some t \<Rightarrow> if t = [] then ''application/octet-stream'' else t
    | None \<Rightarrow> ''application/octet-stream'')"

definition magic_type :: "q_env \<Rightarrow> path \<Rightarrow> string \<Rightarrow> q_exc + string" where
  "magic_type env p b = (case qe_magic env p b of
      MagicRaises \<Rightarrow> Inl (QUncaught ''MagicException'')
    | MagicType (PStr t) \<Rightarrow> Inr (if t \<noteq> [] then t else guessed_type env p)
    | _ \<Rightarrow> Inr (guessed_type env p))"

definition detect_file_type :: "q_env \<Rightarrow> path \<Rightarrow> string q_op" where
  "detect_file_type env p =
     eff_bind (eff_catch (eff_bind (q_read (sys_open_follow p)) (\<lambda>fd.
         eff_bind (q_query (\<lambda>fs. inode_bytes fs fd)) (\<lambda>b. eff_return (Some b)))) (\<lambda>_. eff_return None)) (\<lambda>r.
     case r of
       None \<Rightarrow> eff_return ''application/octet-stream''
     | Some b \<Rightarrow>
         if take 4 b = [CHR 0x7F, CHR ''E'', CHR ''L'', CHR ''F''] then eff_return ''application/x-elf''
         else eff_lift (magic_type env p b))"

text \<open>The arguments that stay the same from the checks to the record.\<close>

record q_request =
  rq_path :: string
  rq_hash :: pyval
  rq_reason :: pyval
  rq_pid :: pyval
  rq_rules :: pyval
  rq_process :: pyval
  rq_identity :: expected_identity

definition new_record ::
  "q_env \<Rightarrow> draws \<Rightarrow> path \<Rightarrow> string \<Rightarrow> file_stat \<Rightarrow> string \<Rightarrow> string \<Rightarrow> pyval \<Rightarrow> pyval \<Rightarrow> pyval \<Rightarrow> q_exc + pydict" where
  "new_record env dr source h st file_type reason pid process rules =
     res_bind (lift_q (utc_isoformat (dr_now dr))) (\<lambda>utc. Inr (
       [(''schema_version'', PInt METADATA_SCHEMA_VERSION),
        (''quarantine_id'', PStr (uuid_text (dr_id dr))),
        (''original_path'', PStr (path_text source)),
        (''sha256'', PStr h),
        (''size_bytes'', PInt (int (st_size st))),
        (''file_type'', PStr file_type),
        (''timestamp'', PFloat (dr_now dr)),
        (''timestamp_utc'', PStr utc),
        (''reason'', PStr reason),
        (''related_pid'', pid),
        (''process_info'', process),
        (''triggered_rules'', rules),
        (''original_mode'', PInt (int (st_mode st))),
        (''original_uid'', PInt (st_uid st)),
        (''original_gid'', PInt (st_gid st)),
        (''source_device'', PInt (st_dev st)),
        (''source_inode'', PInt (int (st_ino st))),
        (''source_link_count'', PInt (int (st_nlink st)))] @ DEFAULT_FIELDS))"

text \<open>
  The body of the \<open>try\<close> in three parts; the local variables the handler needs are set as in the source.
  First the source is opened, checked, hashed and moved to its holding name.
\<close>

definition holding_path :: "draws \<Rightarrow> path \<Rightarrow> path" where
  "holding_path dr source = butlast source @ [''.elyra-'' @ uuid_text (dr_id dr) @ ''.pending'']"

definition hold_source ::
  "q_env \<Rightarrow> draws \<Rightarrow> q_request \<Rightarrow> path \<Rightarrow> (nat \<times> file_stat \<times> string \<times> file_stat) q_op" where
  "hold_source env dr rq source =
     eff_bind (open_regular_nofollow source) (\<lambda>(fd, source_stat).
     eff_bind (check_identity (rq_identity rq) source_stat) (\<lambda>_.
     eff_bind (hash_fd env fd) (\<lambda>source_hash.
     eff_bind (assert_fd_unchanged fd source_stat) (\<lambda>_.
     eff_bind (reject_if (\<not> hash_matches (rq_hash rq) source_hash)
       (QuarantineIntegrityError ''Source hash changed before quarantine; the original file was not removed'')) (\<lambda>_.
     eff_bind (set_vars (v_holding_update (\<lambda>_. Some (holding_path dr source)))) (\<lambda>_.
     eff_bind (move_noreplace env source (holding_path dr source)) (\<lambda>_.
     eff_bind (assert_path_matches_fd (holding_path dr source) fd source_stat) (\<lambda>_.
     eff_bind (q_fstat fd) (\<lambda>held_stat.
     eff_bind (reject_if (st_size held_stat \<noteq> st_size source_stat \<or> st_mtime held_stat \<noteq> st_mtime source_stat)
       (QuarantineIntegrityError ''Source content changed during protected move'')) (\<lambda>_.
     eff_return (fd, source_stat, source_hash, held_stat)))))))))))"

text \<open>Then the protected copy is made under a temporary name and moved to its final one.\<close>

definition protect_payload ::
  "q_env \<Rightarrow> q_cfg \<Rightarrow> draws \<Rightarrow> nat \<Rightarrow> file_stat \<Rightarrow> string \<Rightarrow> file_stat \<Rightarrow> path q_op" where
  "protect_payload env cfg dr fd source_stat source_hash held_stat = (let t = uuid_text (dr_id dr) in
     eff_bind (eff_lift (payload_path cfg (PStr t))) (\<lambda>final.
     eff_bind (set_vars (v_final_update (\<lambda>_. Some final))) (\<lambda>_.
     let temporary = qc_quarantine_dir cfg @ [temporary_name t (dr_payload dr)] in
     eff_bind (set_vars (v_temporary_update (\<lambda>_. Some temporary))) (\<lambda>_.
     eff_bind (copy_fd_to_new_file env fd temporary) (\<lambda>(copied_hash, copied_size).
     eff_bind (reject_if (copied_hash \<noteq> source_hash \<or> copied_size \<noteq> st_size source_stat)
       (QuarantineIntegrityError ''Protected quarantine copy does not match the opened source file'')) (\<lambda>_.
     eff_bind (assert_fd_unchanged fd held_stat) (\<lambda>_.
     eff_bind (move_noreplace env temporary final) (\<lambda>_.
     eff_bind (set_vars (v_temporary_update (\<lambda>_. None))) (\<lambda>_.
     eff_bind (q_call (unit_call (sys_chmod 384 final))) (\<lambda>_.
     eff_bind (fsync_directory (qc_quarantine_dir cfg)) (\<lambda>_. eff_return final)))))))))))"

text \<open>At last the record is written and the holding name removed.\<close>

definition commit_record ::
  "q_env \<Rightarrow> q_cfg \<Rightarrow> draws \<Rightarrow> path \<Rightarrow> string \<Rightarrow> file_stat \<Rightarrow> path \<Rightarrow> string \<Rightarrow> pyval \<Rightarrow> pyval \<Rightarrow> pyval \<Rightarrow> pydict q_op" where
  "commit_record env cfg dr source source_hash source_stat final reason pid process rules =
     eff_bind (detect_file_type env final) (\<lambda>file_type.
     eff_bind (eff_lift (new_record env dr source source_hash source_stat file_type reason pid process rules)) (\<lambda>r.
     eff_bind (eff_lift (validate_record env r)) (\<lambda>_.
     eff_bind (eff_lift (metadata_path cfg (PStr (uuid_text (dr_id dr))))) (\<lambda>meta.
     eff_bind (set_vars (v_metadata_update (\<lambda>_. Some meta))) (\<lambda>_.
     eff_bind (write_metadata_atomic env cfg (dr_metadata dr) r) (\<lambda>_.
     eff_bind (q_unlink (holding_path dr source)) (\<lambda>_.
     eff_bind (set_vars (v_holding_update (\<lambda>_. None))) (\<lambda>_.
     eff_bind (eff_catch (fsync_directory (butlast source)) (\<lambda>e.
       if is_oserror e then eff_return () else eff_raise e)) (\<lambda>_.
     eff_return r)))))))))"

definition quarantine_body ::
  "q_env \<Rightarrow> q_cfg \<Rightarrow> draws \<Rightarrow> q_request \<Rightarrow> path \<Rightarrow> string \<Rightarrow> pyval \<Rightarrow> pyval \<Rightarrow> pyval \<Rightarrow> pydict q_op" where
  "quarantine_body env cfg dr rq source reason pid process rules =
     eff_bind (hold_source env dr rq source) (\<lambda>(fd, source_stat, source_hash, held_stat).
     eff_bind (protect_payload env cfg dr fd source_stat source_hash held_stat) (\<lambda>final.
     commit_record env cfg dr source source_hash source_stat final reason pid process rules))"

text \<open>The recovery of \<open>_rollback_quarantine\<close>: \<open>None\<close> when everything was undone.\<close>

definition rollback_quarantine :: "q_env \<Rightarrow> q_cfg \<Rightarrow> path \<Rightarrow> string option q_op" where
  "rollback_quarantine env cfg original = eff_bind (eff_gets qs_vars) (\<lambda>v.
     let finish = eff_bind (when_some (v_temporary v) q_unlink_missing_ok) (\<lambda>_.
           eff_bind (when_some (v_metadata v) q_unlink_missing_ok) (\<lambda>_.
           eff_bind (when_some (v_final v) q_unlink_missing_ok) (\<lambda>_.
           eff_bind (fsync_directory (qc_quarantine_dir cfg)) (\<lambda>_.
           eff_bind (fsync_directory (qc_metadata_dir cfg)) (\<lambda>_. eff_return None))))) in
     eff_catch
       (case v_holding v of
          None \<Rightarrow> finish
        | Some holding \<Rightarrow> eff_bind (q_lexists holding) (\<lambda>held.
            if \<not> held then finish
            else eff_bind (q_lexists original) (\<lambda>occupied.
              if occupied then eff_return (Some ''original path is occupied; recovery file retained'')
              else eff_bind (move_noreplace env holding original) (\<lambda>_.
                eff_bind (fsync_directory (butlast original)) (\<lambda>_. finish)))))
       (\<lambda>e. if is_oserror e then eff_return (Some ''OSError'') else eff_raise e))"

definition incomplete_rollback :: q_exc where
  "incomplete_rollback = QuarantineError ''Quarantine failed and automatic rollback was incomplete''"

definition recover_quarantine :: "q_env \<Rightarrow> q_cfg \<Rightarrow> path \<Rightarrow> q_exc \<Rightarrow> pydict q_op" where
  "recover_quarantine env cfg source e =
     (if \<not> is_caught e then eff_raise e
      else eff_bind (rollback_quarantine env cfg source) (\<lambda>problem.
        if problem \<noteq> None then eff_raise incomplete_rollback
        else if is_quarantine_error e then eff_raise e
        else eff_raise (QuarantineError ''Quarantine failed safely'')))"

definition quarantine_checked ::
  "q_env \<Rightarrow> q_cfg \<Rightarrow> draws \<Rightarrow> q_request \<Rightarrow> path \<Rightarrow> string \<Rightarrow> pyval \<Rightarrow> pyval \<Rightarrow> pyval \<Rightarrow> pydict q_op" where
  "quarantine_checked env cfg dr rq source reason pid process rules =
     eff_bind (set_vars (\<lambda>_. no_vars)) (\<lambda>_.
     eff_bind (eff_catch (quarantine_body env cfg dr rq source reason pid process rules)
       (recover_quarantine env cfg source)) (\<lambda>r.
     eff_bind (eff_lift (record_to_dict env r)) (\<lambda>d.
     eff_bind (audit_action env (dr_tick dr) ''quarantine'' (path_text source) d) (\<lambda>_. eff_return r))))"

definition quarantine_file :: "q_env \<Rightarrow> q_cfg \<Rightarrow> draws \<Rightarrow> q_request \<Rightarrow> pydict q_op" where
  "quarantine_file env cfg dr rq =
     eff_bind (canonical_source_path env (rq_path rq)) (\<lambda>source.
     eff_bind (eff_lift (validate_expected_hash (rq_hash rq))) (\<lambda>_.
     eff_bind (eff_lift (require_nonempty_text (rq_reason rq) ''reason'')) (\<lambda>reason.
     eff_bind (reject_if (\<not> is_list (rq_rules rq)) (QuarantineError ''triggered_rules must be a list'')) (\<lambda>_.
     eff_bind (eff_lift (require_json_value env (rq_rules rq) ''triggered_rules'')) (\<lambda>rules.
     eff_bind (reject_if (rq_process rq \<noteq> PNone \<and> \<not> is_dict (rq_process rq)) (QuarantineError ''process_info must be an object'')) (\<lambda>_.
     eff_bind (eff_lift (require_json_value env (py_or (rq_process rq) (PDict [])) ''process_info'')) (\<lambda>process.
     eff_bind (eff_lift (validate_pid (rq_pid rq))) (\<lambda>pid.
     quarantine_checked env cfg dr rq source reason pid process rules))))))))"

section \<open>Restoration\<close>

definition prepare_restore_target :: "q_env \<Rightarrow> string \<Rightarrow> path q_op" where
  "prepare_restore_target env t =
     eff_bind (eff_lift (expand_path env t)) (\<lambda>(absolute, raw).
     if \<not> absolute then eff_raise (QuarantineConflictError ''Restore destination must be an absolute path'')
     else eff_bind (q_lexists raw) (\<lambda>there.
       if there then eff_raise (QuarantineConflictError ''Restore destination already exists and will not be overwritten'')
       else eff_bind (q_query (\<lambda>fs. realpath fs (butlast raw))) (\<lambda>r.
         case r of
           None \<Rightarrow> eff_raise (QuarantineConflictError ''Restore parent directory does not exist or is inaccessible'')
         | Some d \<Rightarrow>
             eff_bind (q_query (\<lambda>fs. case realpath fs d of Some k \<Rightarrow> is_dir fs k | None \<Rightarrow> False)) (\<lambda>directory.
             if \<not> directory then eff_raise (QuarantineConflictError ''Restore parent is not a directory'')
             else let target = with_name d raw in
               eff_bind (q_lexists target) (\<lambda>there.
               if there then eff_raise (QuarantineConflictError ''Restore destination already exists and will not be overwritten'')
               else eff_return target)))))"

definition open_exclusive_restore_target :: "q_env \<Rightarrow> path \<Rightarrow> nat q_op" where
  "open_exclusive_restore_target env p = eff_catch (q_open_excl env 384 p) (\<lambda>e.
     eff_raise (if e = QOs EEXIST
       then QuarantineConflictError ''Restore destination already exists and will not be overwritten'' else e))"

text \<open>\<open>os.fchown\<close> takes integers of 32 bits, and -1 for no change; metadata may hold anything.\<close>

definition owner_id :: "pyval \<Rightarrow> q_exc + int" where
  "owner_id v =
     (if \<not> is_int v then Inl (QPy TypeError)
      else (case py_int v of
          Inl e \<Rightarrow> Inl (QPy e)
        | Inr i \<Rightarrow> if i < - 1 \<or> i \<ge> 2 ^ 32 - 1 then Inl (QPy OverflowError) else Inr i))"

definition restore_ownership_if_privileged :: "q_env \<Rightarrow> nat \<Rightarrow> pyval \<Rightarrow> pyval \<Rightarrow> bool q_op" where
  "restore_ownership_if_privileged env fd uid gid =
     (if qe_euid env \<noteq> 0 then eff_return False
      else eff_bind (eff_lift (owner_id uid)) (\<lambda>u. eff_bind (eff_lift (owner_id gid)) (\<lambda>g.
        eff_bind (q_call (unit_call (\<lambda>fs. Inr (sys_fchown u g fd fs)))) (\<lambda>_. eff_return True))))"

definition unlink_if_identity_matches :: "path \<Rightarrow> int \<times> nat \<Rightarrow> unit q_op" where
  "unlink_if_identity_matches p identity = eff_bind (q_lexists p) (\<lambda>there.
     if \<not> there then eff_return ()
     else eff_bind (q_lstat p) (\<lambda>info.
       if (st_dev info, st_ino info) \<noteq> identity then eff_raise (QPy (OSError ''Refusing to remove replacement path during rollback''))
       else q_unlink p))"

text \<open>\<open>record.original_mode & 0o0777\<close>: a \<open>TypeError\<close> unless the field is an integer.\<close>

definition restored_mode_of :: "pyval \<Rightarrow> q_exc + nat" where
  "restored_mode_of v = (if is_int v then (case py_int v of Inr i \<Rightarrow> Inr (nat (i mod 512)) | Inl e \<Rightarrow> Inl (QPy e))
     else Inl (QPy TypeError))"

definition mark_restored :: "pyfloat \<Rightarrow> string \<Rightarrow> path \<Rightarrow> nat \<Rightarrow> bool \<Rightarrow> pydict \<Rightarrow> pydict" where
  "mark_restored now utc target mode owner r =
     dict_set ''ownership_restored'' (PBool owner) (dict_set ''restored_mode'' (PInt (int mode))
     (dict_set ''restored_path'' (PStr (path_text target)) (dict_set ''restored_at_utc'' (PStr utc)
     (dict_set ''restored_at'' (PFloat now) (dict_set ''restoration_status'' (PStr ''restored'') r)))))"

text \<open>
  The body of the \<open>try\<close> in three parts: the payload is verified, the target is made and filled, and the
  record is marked as restored.
\<close>

definition verify_payload :: "q_env \<Rightarrow> path \<Rightarrow> pydict \<Rightarrow> nat q_op" where
  "verify_payload env payload r =
     eff_bind (open_regular_nofollow payload) (\<lambda>(fd, payload_stat).
     eff_bind (hash_fd env fd) (\<lambda>h.
     eff_bind (assert_fd_unchanged fd payload_stat) (\<lambda>_.
     eff_bind (reject_if (\<not> py_eq (PStr h) (py_get r ''sha256'') \<or>
         \<not> py_eq (PInt (int (st_size payload_stat))) (py_get r ''size_bytes''))
       (QuarantineIntegrityError ''Quarantine payload integrity verification failed; restoration was aborted'')) (\<lambda>_.
     eff_return fd))))"

definition fill_target :: "q_env \<Rightarrow> nat \<Rightarrow> string \<Rightarrow> pydict \<Rightarrow> (path \<times> nat \<times> bool) q_op" where
  "fill_target env fd destination r =
     eff_bind (prepare_restore_target env destination) (\<lambda>target.
     eff_bind (set_vars (v_target_update (\<lambda>_. Some target))) (\<lambda>_.
     eff_bind (open_exclusive_restore_target env target) (\<lambda>target_fd.
     eff_bind (q_fstat target_fd) (\<lambda>opened.
     eff_bind (set_vars (v_identity_update (\<lambda>_. Some (st_dev opened, st_ino opened)))) (\<lambda>_.
     eff_bind (copy_between_fds env fd target_fd) (\<lambda>(target_hash, target_size).
     eff_bind (reject_if (\<not> py_eq (PStr target_hash) (py_get r ''sha256'') \<or>
         \<not> py_eq (PInt (int target_size)) (py_get r ''size_bytes''))
       (QuarantineIntegrityError ''Restored file does not match quarantine metadata'')) (\<lambda>_.
     eff_bind (eff_lift (restored_mode_of (py_get r ''original_mode''))) (\<lambda>mode.
     eff_bind (q_fchmod mode target_fd) (\<lambda>_.
     eff_bind (restore_ownership_if_privileged env target_fd (py_get r ''original_uid'') (py_get r ''original_gid'')) (\<lambda>owner.
     eff_bind q_fsync (\<lambda>_.
     eff_bind (q_fstat target_fd) (\<lambda>target_stat.
     eff_bind (set_vars (v_identity_update (\<lambda>_. Some (st_dev target_stat, st_ino target_stat)))) (\<lambda>_.
     eff_return (target, mode, owner))))))))))))))"

definition commit_restore :: "q_env \<Rightarrow> q_cfg \<Rightarrow> draws \<Rightarrow> pydict \<Rightarrow> path \<Rightarrow> nat \<Rightarrow> bool \<Rightarrow> (path \<times> pydict) q_op" where
  "commit_restore env cfg dr r target mode owner =
     eff_bind (set_vars (v_record_update (dict_set ''restored_at'' (PFloat (dr_now dr)) \<circ>
       dict_set ''restoration_status'' (PStr ''restored'')))) (\<lambda>_.
     eff_bind (eff_lift (lift_q (utc_isoformat (dr_now dr)))) (\<lambda>utc.
     let restored = mark_restored (dr_now dr) utc target mode owner r in
     eff_bind (set_vars (v_record_update (\<lambda>_. restored))) (\<lambda>_.
     eff_bind (write_metadata_atomic env cfg (dr_metadata dr) restored) (\<lambda>_.
     eff_bind (fsync_directory (butlast target)) (\<lambda>_.
     eff_return (target, restored))))))"

definition restore_body :: "q_env \<Rightarrow> q_cfg \<Rightarrow> draws \<Rightarrow> path \<Rightarrow> string \<Rightarrow> pydict \<Rightarrow> (path \<times> pydict) q_op" where
  "restore_body env cfg dr payload destination r =
     eff_bind (verify_payload env payload r) (\<lambda>fd.
     eff_bind (fill_target env fd destination r) (\<lambda>(target, mode, owner).
     commit_restore env cfg dr r target mode owner))"

definition incomplete_restore :: q_exc where
  "incomplete_restore = QuarantineError ''Restoration failed and rollback was incomplete''"

text \<open>The handler: remove the target if it is the file that was made, then put the metadata back.\<close>

definition remove_target :: "bool q_op" where
  "remove_target = eff_bind (eff_gets qs_vars) (\<lambda>v.
     case (v_target v, v_identity v) of
       (Some p, Some identity) \<Rightarrow>
         eff_catch (eff_bind (unlink_if_identity_matches p identity) (\<lambda>_. eff_return True)) (\<lambda>e.
           if is_oserror e then eff_return False else eff_raise e)
     | _ \<Rightarrow> eff_return True)"

definition put_back_metadata :: "q_env \<Rightarrow> q_cfg \<Rightarrow> nat \<Rightarrow> pydict \<Rightarrow> bool q_op" where
  "put_back_metadata env cfg u previous = eff_bind (eff_gets qs_vars) (\<lambda>v.
     eff_catch
       (if records_differ previous (v_record v)
        then eff_bind (write_metadata_atomic env cfg u previous) (\<lambda>_. eff_return True) else eff_return True)
       (\<lambda>e. if is_caught e then eff_return False else eff_raise e))"

definition recover_restore :: "q_env \<Rightarrow> q_cfg \<Rightarrow> draws \<Rightarrow> pydict \<Rightarrow> q_exc \<Rightarrow> (path \<times> pydict) q_op" where
  "recover_restore env cfg dr previous e =
     (if \<not> is_caught e then eff_raise e
      else eff_bind remove_target (\<lambda>removed.
        eff_bind (put_back_metadata env cfg (dr_rollback dr) previous) (\<lambda>back.
        if \<not> removed \<or> \<not> back then eff_raise incomplete_restore
        else if is_quarantine_error e then eff_raise e
        else eff_raise (QuarantineError ''Restoration failed safely''))))"

definition text_field :: "pydict \<Rightarrow> string \<Rightarrow> string" where
  "text_field r k = (case py_get r k of PStr t \<Rightarrow> t | _ \<Rightarrow> [])"

definition restore_file :: "q_env \<Rightarrow> q_cfg \<Rightarrow> draws \<Rightarrow> pyval \<Rightarrow> string option \<Rightarrow> pydict q_op" where
  "restore_file env cfg dr v destination =
     eff_bind (load_metadata env cfg v) (\<lambda>r.
     if py_eq (py_get r ''restoration_status'') (PStr ''deleted'')
     then eff_raise (QuarantineError ''Quarantine item has been permanently deleted'')
     else eff_bind (eff_lift (payload_path cfg (py_get r ''quarantine_id''))) (\<lambda>payload.
       eff_bind (q_lexists payload) (\<lambda>there.
       if \<not> there then eff_raise (QuarantineError ''Quarantine payload does not exist'')
       else eff_bind (eff_lift (record_to_dict env r)) (\<lambda>previous.
         eff_bind (set_vars (\<lambda>_. no_vars\<lparr>v_record := r\<rparr>)) (\<lambda>_.
         eff_bind (eff_catch
           (restore_body env cfg dr payload
             (case destination of Some t \<Rightarrow> t | None \<Rightarrow> text_field r ''original_path'') r)
           (recover_restore env cfg dr previous)) (\<lambda>(target, restored).
         eff_bind (audit_action env (dr_tick dr) ''quarantine'' (path_text target)
           (dict_update [(''action'', PStr ''restore'')] restored)) (\<lambda>_.
         eff_return restored)))))))"

section \<open>Deletion\<close>

definition mark_deleted :: "pyfloat \<Rightarrow> string \<Rightarrow> pydict \<Rightarrow> pydict" where
  "mark_deleted now utc r =
     dict_set ''deleted_at_utc'' (PStr utc) (dict_set ''deleted_at'' (PFloat now)
     (dict_set ''restoration_status'' (PStr ''deleted'') r))"

definition incomplete_delete :: q_exc where
  "incomplete_delete = QuarantineError ''Permanent deletion failed and rollback was incomplete''"

definition delete_body :: "q_env \<Rightarrow> q_cfg \<Rightarrow> draws \<Rightarrow> path \<Rightarrow> pydict \<Rightarrow> pydict q_op" where
  "delete_body env cfg dr pending r =
     eff_bind (eff_lift (lift_q (utc_isoformat (dr_now dr)))) (\<lambda>utc.
     let gone = mark_deleted (dr_now dr) utc r in
     eff_bind (write_metadata_atomic env cfg (dr_metadata dr) gone) (\<lambda>_.
     eff_bind (q_unlink pending) (\<lambda>_.
     eff_bind (fsync_directory (qc_quarantine_dir cfg)) (\<lambda>_. eff_return gone))))"

definition recover_delete :: "q_env \<Rightarrow> q_cfg \<Rightarrow> draws \<Rightarrow> path \<Rightarrow> path \<Rightarrow> pydict \<Rightarrow> q_exc \<Rightarrow> pydict q_op" where
  "recover_delete env cfg dr pending payload previous e =
     (if \<not> is_caught e then eff_raise e
      else eff_bind (eff_catch
        (eff_bind (q_lexists pending) (\<lambda>held.
         eff_bind (if held then eff_bind (q_lexists payload) (\<lambda>there. eff_return (\<not> there)) else eff_return False) (\<lambda>back.
         eff_bind (if back then move_noreplace env pending payload else eff_return ()) (\<lambda>_.
         write_metadata_atomic env cfg (dr_rollback dr) previous))))
        (\<lambda>e'. eff_raise (if is_caught e' then incomplete_delete else e'))) (\<lambda>_.
      if is_quarantine_error e then eff_raise e else eff_raise (QuarantineError ''Permanent deletion failed safely'')))"

definition delete_permanently :: "q_env \<Rightarrow> q_cfg \<Rightarrow> draws \<Rightarrow> pyval \<Rightarrow> unit q_op" where
  "delete_permanently env cfg dr v =
     eff_bind (load_metadata env cfg v) (\<lambda>r.
     if py_eq (py_get r ''restoration_status'') (PStr ''deleted'') then eff_return ()
     else eff_bind (eff_lift (payload_path cfg (py_get r ''quarantine_id''))) (\<lambda>payload.
       eff_bind (q_lexists payload) (\<lambda>there.
       if \<not> there then eff_raise (QuarantineError ''Quarantine payload is missing'')
       else let pending = qc_quarantine_dir cfg @ [''.'' @ text_of_id r @ ''.delete-pending''] in
         eff_bind (eff_lift (record_to_dict env r)) (\<lambda>previous.
         eff_bind (move_noreplace env payload pending) (\<lambda>_.
         eff_bind (eff_catch (delete_body env cfg dr pending r) (recover_delete env cfg dr pending payload previous)) (\<lambda>gone.
         audit_action env (dr_tick dr) ''quarantine'' (text_field r ''original_path'')
           (dict_update [(''action'', PStr ''delete'')] gone)))))))"

section \<open>Listing\<close>

text \<open>The names the directory scan gives, in order; a directory that cannot be read gives none.\<close>

definition json_names :: "path \<Rightarrow> fsys \<Rightarrow> string list" where
  "json_names d fs = (case realpath fs d of
      None \<Rightarrow> []
    | Some k \<Rightarrow> sort (map (\<lambda>kv. last (fst kv))
        (filter (\<lambda>kv. fst kv \<noteq> [] \<and> butlast (fst kv) = k \<and> suffix ''.json'' (last (fst kv))) (fs_names fs))))"

definition path_stem :: "string \<Rightarrow> string" where
  "path_stem name = (if name = ''.json'' then name else take (length name - 5) name)"

text \<open>Metadata errors are collected; any other exception ends the loop.\<close>

fun load_each :: "q_env \<Rightarrow> q_cfg \<Rightarrow> string list \<Rightarrow> (pydict list \<times> string list) q_op" where
  "load_each env cfg [] = eff_return ([], [])"
| "load_each env cfg (name # names) =
     eff_bind (eff_catch (eff_bind (load_metadata env cfg (PStr (path_stem name))) (\<lambda>r. eff_return (Some r)))
       (\<lambda>e. case e of QuarantineMetadataError _ \<Rightarrow> eff_return None | _ \<Rightarrow> eff_raise e)) (\<lambda>x.
     eff_bind (load_each env cfg names) (\<lambda>(rs, bad).
     eff_return (case x of Some r \<Rightarrow> (r # rs, bad) | None \<Rightarrow> (rs, name # bad))))"

definition timestamp_number :: "pydict \<Rightarrow> rat" where
  "timestamp_number r = (case num_value (py_get r ''timestamp'') of Some (Fin q) \<Rightarrow> q | _ \<Rightarrow> 0)"

text \<open>\<open>sorted(records, key=timestamp, reverse=True)\<close>: time stamps of different kinds do not compare.\<close>

definition sort_records :: "q_env \<Rightarrow> pydict list \<Rightarrow> q_exc + pydict list" where
  "sort_records env rs =
     (if length rs \<le> 1 then Inr rs
      else if list_all (\<lambda>r. is_number (py_get r ''timestamp'')) rs then Inr (sort_desc timestamp_number rs)
      else if list_all (\<lambda>r. is_str (py_get r ''timestamp'')) rs then Inr (sort_desc (\<lambda>r. text_field r ''timestamp'') rs)
      else if list_all (\<lambda>r. is_list (py_get r ''timestamp'')) rs then qe_sort_lists env rs
      else Inl (QPy TypeError))"

definition list_quarantine :: "q_env \<Rightarrow> q_cfg \<Rightarrow> bool \<Rightarrow> pydict list q_op" where
  "list_quarantine env cfg strict =
     eff_bind (eff_catch (q_read (\<lambda>fs. Inr (json_names (qc_metadata_dir cfg) fs))) (\<lambda>_. eff_return [])) (\<lambda>names.
     eff_bind (load_each env cfg names) (\<lambda>(rs, bad).
     if bad \<noteq> [] \<and> strict then eff_raise (QuarantineMetadataError (join_with ''; '' bad))
     else eff_lift (sort_records env rs)))"

end
