(* ===== verification/Quarantine_Calls.thy ===== *)
theory Quarantine_Calls
  imports Quarantine_Store
begin

text \<open>
  What each operation of the quarantine store does to the file system when no other process interferes
  (\<open>quiet\<close>): the system calls may still fail or be short at every point. An operation is described by a
  relation between the file system before, the result, and the file system after (\<open>quiet_spec\<close>).
\<close>

section \<open>Operations as relations between file systems\<close>

text \<open>No other process changes the tree, and a missing or existing name is reported from the tree only.\<close>

definition quiet_event :: "event \<Rightarrow> bool" where
  "quiet_event ev \<longleftrightarrow> (\<forall>fs. ev_change ev fs = fs) \<and> ev_outcome ev \<noteq> Fails ENOENT \<and> ev_outcome ev \<noteq> Fails EEXIST"

definition quiet :: "qstore \<Rightarrow> bool" where
  "quiet s \<longleftrightarrow> (\<forall>ev \<in> set (qs_events s). quiet_event ev)"

text \<open>The state after an operation that only works on files.\<close>

definition fs_step :: "qstore \<Rightarrow> qstore \<Rightarrow> bool" where
  "fs_step s s' \<longleftrightarrow> (quiet s \<longrightarrow> quiet s') \<and> qs_vars s' = qs_vars s \<and> qs_audit s' = qs_audit s \<and>
     qs_audit_status s' = qs_audit_status s \<and> qs_audit_error s' = qs_audit_error s"

definition quiet_spec :: "'a q_op \<Rightarrow> (fsys \<Rightarrow> q_exc + 'a \<Rightarrow> fsys \<Rightarrow> bool) \<Rightarrow> bool" where
  "quiet_spec m R \<longleftrightarrow> (\<forall>s r s'. quiet s \<longrightarrow> m s = (r, s') \<longrightarrow> fs_step s s' \<and> R (qs_fs s) r (qs_fs s'))"

lemma quiet_specD:
  assumes "quiet_spec m R" and "quiet s" and "m s = (r, s')"
  shows "R (qs_fs s) r (qs_fs s')" and "fs_step s s'" and "quiet s'"
proof -
  have "fs_step s s' \<and> R (qs_fs s) r (qs_fs s')" using assms unfolding quiet_spec_def by blast
  then show "R (qs_fs s) r (qs_fs s')" and "fs_step s s'" and "quiet s'"
    using assms(2) by (simp_all add: fs_step_def)
qed

lemma specI: "(\<And>s r s'. quiet s \<Longrightarrow> m s = (r, s') \<Longrightarrow> fs_step s s' \<and> R (qs_fs s) r (qs_fs s')) \<Longrightarrow> quiet_spec m R"
  by (simp add: quiet_spec_def)

lemma fs_step_refl [simp]: "fs_step s s"
  by (simp add: fs_step_def)

lemma fs_step_trans: "fs_step s t \<Longrightarrow> fs_step t u \<Longrightarrow> fs_step s u"
  by (simp add: fs_step_def)

lemma quiet_spec_mono:
  "quiet_spec m R \<Longrightarrow> (\<And>fs r fs'. R fs r fs' \<Longrightarrow> S fs r fs') \<Longrightarrow> quiet_spec m S"
  unfolding quiet_spec_def by blast

lemma quiet_spec_conj: "quiet_spec m R \<Longrightarrow> quiet_spec m S \<Longrightarrow> quiet_spec m (\<lambda>fs r fs'. R fs r fs' \<and> S fs r fs')"
  unfolding quiet_spec_def by blast

lemma spec_return: "(\<And>fs. R fs (Inr x) fs) \<Longrightarrow> quiet_spec (eff_return x) R"
  and spec_raise: "(\<And>fs. R fs (Inl e) fs) \<Longrightarrow> quiet_spec (eff_raise e) R"
  and spec_lift: "(\<And>fs. R fs v fs) \<Longrightarrow> quiet_spec (eff_lift v) R"
  by (simp_all add: quiet_spec_def)

lemma spec_bind:
  assumes m: "quiet_spec m R1"
    and f: "\<And>x. quiet_spec (f x) (R2 x)"
    and l: "\<And>fs e fs'. R1 fs (Inl e) fs' \<Longrightarrow> R fs (Inl e) fs'"
    and r: "\<And>fs x fs' y fs''. R1 fs (Inr x) fs' \<Longrightarrow> R2 x fs' y fs'' \<Longrightarrow> R fs y fs''"
  shows "quiet_spec (eff_bind m f) R"
  unfolding quiet_spec_def
proof (intro allI impI)
  fix s y s''
  assume q: "quiet s" and run: "eff_bind m f s = (y, s'')"
  obtain x s' where ms: "m s = (x, s')" by (cases "m s")
  note 1 = quiet_specD [OF m q ms]
  show "fs_step s s'' \<and> R (qs_fs s) y (qs_fs s'')"
  proof (cases x)
    case (Inl e)
    then show ?thesis using run ms 1 l by auto
  next
    case (Inr v)
    then have "f v s' = (y, s'')" using run ms by simp
    note 2 = quiet_specD [OF f 1(3) this]
    show ?thesis using 1 2 r Inr fs_step_trans by blast
  qed
qed

lemma spec_catch:
  assumes m: "quiet_spec m R1"
    and h: "\<And>e. quiet_spec (h e) (R2 e)"
    and r: "\<And>fs x fs'. R1 fs (Inr x) fs' \<Longrightarrow> R fs (Inr x) fs'"
    and l: "\<And>fs e fs' y fs''. R1 fs (Inl e) fs' \<Longrightarrow> R2 e fs' y fs'' \<Longrightarrow> R fs y fs''"
  shows "quiet_spec (eff_catch m h) R"
  unfolding quiet_spec_def
proof (intro allI impI)
  fix s y s''
  assume q: "quiet s" and run: "eff_catch m h s = (y, s'')"
  obtain x s' where ms: "m s = (x, s')" by (cases "m s")
  note 1 = quiet_specD [OF m q ms]
  show "fs_step s s'' \<and> R (qs_fs s) y (qs_fs s'')"
  proof (cases x)
    case (Inl e)
    then have "h e s' = (y, s'')" using run ms by (simp add: eff_catch_def)
    note 2 = quiet_specD [OF h 1(3) this]
    show ?thesis using 1 2 l Inl fs_step_trans by blast
  next
    case (Inr v)
    then show ?thesis using run ms 1 r by (auto simp: eff_catch_def)
  qed
qed

lemma spec_if: "(b \<Longrightarrow> quiet_spec m R) \<Longrightarrow> (\<not> b \<Longrightarrow> quiet_spec n R) \<Longrightarrow> quiet_spec (if b then m else n) R"
  by simp

lemma spec_option:
  "quiet_spec m R \<Longrightarrow> (\<And>y. quiet_spec (f y) R) \<Longrightarrow> quiet_spec (case x of None \<Rightarrow> m | Some y \<Rightarrow> f y) R"
  by (cases x) simp_all

lemma spec_gets_fs: "(\<And>fs. R fs (Inr (g fs)) fs) \<Longrightarrow> quiet_spec (eff_gets (\<lambda>s. g (qs_fs s))) R"
  by (simp add: quiet_spec_def)

section \<open>Primitive calls\<close>

lemma next_event_spec: "quiet_spec next_event (\<lambda>fs r fs'. fs' = fs \<and> (\<exists>x. r = Inr x \<and> x \<noteq> Fails ENOENT \<and> x \<noteq> Fails EEXIST))"
  unfolding quiet_spec_def
proof (intro allI impI)
  fix s r s'
  assume "quiet s" and "next_event s = (r, s')"
  then show "fs_step s s' \<and> qs_fs s' = qs_fs s \<and> (\<exists>x. r = Inr x \<and> x \<noteq> Fails ENOENT \<and> x \<noteq> Fails EEXIST)"
    by (cases rule: next_event_cases [of s]) (auto simp: fs_step_def quiet_def quiet_event_def)
qed

text \<open>An operation that leaves the file system alone: \<open>Q\<close> holds of its value, \<open>E\<close> of its exception.\<close>

definition looks :: "'a q_op \<Rightarrow> (fsys \<Rightarrow> 'a \<Rightarrow> bool) \<Rightarrow> (q_exc \<Rightarrow> bool) \<Rightarrow> bool" where
  "looks m Q E \<longleftrightarrow> quiet_spec m (\<lambda>fs r fs'. fs' = fs \<and> (\<forall>x. r = Inr x \<longrightarrow> Q fs x) \<and> (\<forall>e. r = Inl e \<longrightarrow> E e))"

definition is_errno :: "q_exc \<Rightarrow> bool" where
  "is_errno e \<longleftrightarrow> (\<exists>n. e = QOs n)"

lemma is_errno_simps [simp]: "is_errno (QOs n)" "is_errno e \<Longrightarrow> is_oserror e" "is_errno e \<Longrightarrow> is_caught e"
  by (auto simp: is_errno_def is_oserror_def)

lemma looks_mono: "looks m Q E \<Longrightarrow> (\<And>fs x. Q fs x \<Longrightarrow> Q' fs x) \<Longrightarrow> (\<And>e. E e \<Longrightarrow> E' e) \<Longrightarrow> looks m Q' E'"
  unfolding looks_def by (erule quiet_spec_mono) blast

lemma looks_return: "(\<And>fs. Q fs x) \<Longrightarrow> looks (eff_return x) Q E"
  and looks_raise: "E e \<Longrightarrow> looks (eff_raise e) Q E"
  by (simp_all add: looks_def spec_return spec_raise)

lemma looks_lift: "(\<And>fs x. v = Inr x \<Longrightarrow> Q fs x) \<Longrightarrow> (\<And>e. v = Inl e \<Longrightarrow> E e) \<Longrightarrow> looks (eff_lift v) Q E"
  by (simp add: looks_def spec_lift)

lemma looks_bind:
  assumes "looks m P E" and "\<And>x. looks (f x) (\<lambda>fs y. P fs x \<longrightarrow> Q fs y) E"
  shows "looks (eff_bind m f) Q E"
  unfolding looks_def by (rule spec_bind [OF assms [unfolded looks_def]]) auto

lemma looks_catch:
  assumes "looks m Q P" and "\<And>e. P e \<Longrightarrow> looks (h e) Q E"
  shows "looks (eff_catch m h) Q E"
proof -
  show ?thesis
    unfolding looks_def quiet_spec_def
  proof (intro allI impI)
    fix s y s''
    assume q: "quiet s" and run: "eff_catch m h s = (y, s'')"
    obtain x s' where ms: "m s = (x, s')" by (cases "m s")
    note 1 = quiet_specD [OF assms(1) [unfolded looks_def] q ms]
    show "fs_step s s'' \<and> qs_fs s'' = qs_fs s \<and> (\<forall>x. y = Inr x \<longrightarrow> Q (qs_fs s) x) \<and> (\<forall>e. y = Inl e \<longrightarrow> E e)"
    proof (cases x)
      case (Inl e)
      then have hs: "h e s' = (y, s'')" and P: "P e" using run ms 1(1) by (simp_all add: eff_catch_def)
      note 2 = quiet_specD [OF assms(2) [OF P, unfolded looks_def] 1(3) hs]
      show ?thesis using 1 2 fs_step_trans by (metis (no_types, lifting))
    next
      case (Inr v)
      then show ?thesis using run ms 1 by (auto simp: eff_catch_def)
    qed
  qed
qed

lemma looks_if: "(b \<Longrightarrow> looks m Q E) \<Longrightarrow> (\<not> b \<Longrightarrow> looks n Q E) \<Longrightarrow> looks (if b then m else n) Q E"
  by simp

lemma q_query_looks: "looks (q_query f) (\<lambda>fs x. x = f fs) E"
  unfolding looks_def q_query_def
  by (rule spec_bind [OF next_event_spec spec_gets_fs [where R = "\<lambda>fs r fs'. fs' = fs \<and> r = Inr (f fs)"]]) auto

lemma spec_at:
  assumes "\<And>s r s'. quiet s \<Longrightarrow> m s = (r, s') \<Longrightarrow> s' = s\<lparr>qs_fs := qs_fs s'\<rparr> \<and> R (qs_fs s) r (qs_fs s')"
  shows "quiet_spec m R"
  unfolding quiet_spec_def
proof (intro allI impI)
  fix s r s'
  assume q: "quiet s" and run: "m s = (r, s')"
  have s': "s' = s\<lparr>qs_fs := qs_fs s'\<rparr>" and R: "R (qs_fs s) r (qs_fs s')" using assms [OF q run] by auto
  have "fs_step s (s\<lparr>qs_fs := qs_fs s'\<rparr>)" using q by (simp add: fs_step_def quiet_def)
  then show "fs_step s s' \<and> R (qs_fs s) r (qs_fs s')" using s' R by metis
qed

lemma q_read_looks: "looks (q_read f) (\<lambda>fs x. f fs = Inr x) is_errno"
proof -
  have "quiet_spec (case oc of Fails e \<Rightarrow> eff_raise (QOs e)
      | _ \<Rightarrow> (\<lambda>s. case f (qs_fs s) of Inl e \<Rightarrow> (Inl (QOs e), s) | Inr x \<Rightarrow> (Inr x, s)))
    (\<lambda>fs r fs'. fs' = fs \<and> (\<forall>x. r = Inr x \<longrightarrow> f fs = Inr x) \<and> (\<forall>e. r = Inl e \<longrightarrow> is_errno e))" for oc
    by (rule spec_at) (auto split: outcome.splits sum.splits)
  then show ?thesis unfolding looks_def q_read_def by (rule spec_bind [OF next_event_spec]) auto
qed

text \<open>
  A call that completes or changes nothing: \<open>Q\<close> holds of its effect, \<open>Z\<close> of the file system when it
  reports a missing name.
\<close>

definition calls :: "'a q_op \<Rightarrow> (fsys \<Rightarrow> 'a \<Rightarrow> fsys \<Rightarrow> bool) \<Rightarrow> (fsys \<Rightarrow> bool) \<Rightarrow> bool" where
  "calls m Q Z \<longleftrightarrow> quiet_spec m (\<lambda>fs r fs'. (\<forall>x. r = Inr x \<longrightarrow> Q fs x fs') \<and>
     (\<forall>e. r = Inl e \<longrightarrow> fs' = fs \<and> is_errno e \<and> (e = QOs ENOENT \<longrightarrow> Z fs)))"

lemma q_call_calls: "calls (q_call f) (\<lambda>fs x fs'. f fs = Inr (x, fs')) (\<lambda>fs. f fs = Inl ENOENT)"
proof -
  have "quiet_spec (case oc of Fails e \<Rightarrow> eff_raise (QOs e)
      | _ \<Rightarrow> (\<lambda>s. case f (qs_fs s) of Inl e \<Rightarrow> (Inl (QOs e), s) | Inr (x, fs) \<Rightarrow> (Inr x, s\<lparr>qs_fs := fs\<rparr>)))
    (\<lambda>fs r fs'. (\<forall>x. r = Inr x \<longrightarrow> f fs = Inr (x, fs')) \<and>
      (\<forall>e. r = Inl e \<longrightarrow> fs' = fs \<and> is_errno e \<and> (e = QOs ENOENT \<longrightarrow> oc = Fails ENOENT \<or> f fs = Inl ENOENT)))" for oc
    by (rule spec_at) (auto split: outcome.splits sum.splits)
  then show ?thesis unfolding calls_def q_call_def by (rule spec_bind [OF next_event_spec]) auto
qed

lemma calls_mono: "calls m Q Z \<Longrightarrow> (\<And>fs x fs'. Q fs x fs' \<Longrightarrow> Q' fs x fs') \<Longrightarrow> (\<And>fs. Z fs \<Longrightarrow> Z' fs) \<Longrightarrow> calls m Q' Z'"
  unfolding calls_def by (erule quiet_spec_mono) blast

lemma unit_call_calls: "calls (q_call (unit_call f)) (\<lambda>fs _ fs'. f fs = Inr fs') (\<lambda>fs. f fs = Inl ENOENT)"
  by (rule calls_mono [OF q_call_calls]) (auto simp: unit_call_def res_bind_eq_Inr res_bind_eq_Inl)

lemma looks_spec: "looks m Q E \<Longrightarrow> quiet_spec m (\<lambda>fs r fs'. fs' = fs \<and> (\<forall>x. r = Inr x \<longrightarrow> Q fs x) \<and> (\<forall>e. r = Inl e \<longrightarrow> E e))"
  by (simp add: looks_def)

lemma q_lexists_looks: "looks (q_lexists p) (\<lambda>fs b. b = (lookup fs p \<noteq> None)) E"
  unfolding q_lexists_def by (rule q_query_looks)

lemma q_lstat_looks: "looks (q_lstat p) (\<lambda>fs st. \<exists>i. lookup fs p = Some i \<and> st = stat_of fs i) is_errno"
  unfolding q_lstat_def
proof (rule looks_bind [OF q_query_looks])
  fix r :: "file_stat option"
  show "looks (case r of None \<Rightarrow> eff_raise (QOs ENOENT) | Some st \<Rightarrow> eff_return st)
    (\<lambda>fs st. r = map_option (stat_of fs) (lookup fs p) \<longrightarrow> (\<exists>i. lookup fs p = Some i \<and> st = stat_of fs i)) is_errno"
    by (cases r) (auto intro!: looks_raise looks_return dest!: sym [of "Some _"])
qed

lemma q_fstat_looks: "looks (q_fstat fd) (\<lambda>fs st. st = stat_of fs fd) E"
  unfolding q_fstat_def by (rule q_query_looks)

lemma q_fsync_looks: "looks q_fsync (\<lambda>_ _. True) is_errno"
  unfolding q_fsync_def by (rule looks_mono [OF q_read_looks]) auto

lemma fsync_directory_looks: "looks (fsync_directory p) (\<lambda>_ _. True) is_errno"
  unfolding fsync_directory_def
proof (rule looks_bind [where P = "\<lambda>_ _. True"])
  show "looks (eff_catch (eff_bind (q_read (sys_open_follow p)) (\<lambda>i. eff_bind (eff_gets qs_fs) (\<lambda>fs.
       eff_return (in_content (fs_inodes fs i) = DirectoryNode)))) (\<lambda>_. eff_return False)) (\<lambda>_ _. True) is_errno"
  proof (rule looks_catch [where P = is_errno])
    have "looks (eff_gets qs_fs) (\<lambda>_ _. True) is_errno"
      unfolding looks_def using spec_gets_fs [of "\<lambda>fs r fs'. fs' = fs \<and> (\<exists>x. r = Inr x)" "\<lambda>x. x"]
      by (auto elim!: quiet_spec_mono)
    then show "looks (eff_bind (q_read (sys_open_follow p)) (\<lambda>i. eff_bind (eff_gets qs_fs) (\<lambda>fs.
       eff_return (in_content (fs_inodes fs i) = DirectoryNode)))) (\<lambda>_ _. True) is_errno"
      by (intro looks_bind [OF q_read_looks] looks_bind [where P = "\<lambda>_ _. True"])
        (auto elim!: looks_mono intro: looks_return)
  qed (auto intro: looks_return)
  show "looks (if \<not> x then eff_return () else eff_catch q_fsync (\<lambda>e. if e = QOs EINVAL \<or> e = QOs EROFS then eff_return () else eff_raise e))
      (\<lambda>fs y. True \<longrightarrow> True) is_errno" for x
    by (auto intro!: looks_return looks_catch [OF q_fsync_looks] looks_raise)
qed

section \<open>Names\<close>

text \<open>The effect of a change of names on a file system.\<close>

definition renamed :: "(path \<Rightarrow> nat option) \<Rightarrow> fsys \<Rightarrow> fsys \<Rightarrow> bool" where
  "renamed names fs fs' \<longleftrightarrow> inode_at fs' = names \<and> same_nodes fs fs' \<and> fs_next fs' = fs_next fs"

lemma renamed_refl [simp]: "renamed (inode_at fs) fs fs"
  by (simp add: renamed_def)

lemma renamed_trans: "renamed n a b \<Longrightarrow> renamed m b c \<Longrightarrow> renamed m a c"
  by (auto simp: renamed_def intro: same_nodes_trans)

lemma q_unlink_spec:
  "calls (q_unlink p) (\<lambda>fs _ fs'. \<forall>k. locate fs p = Some k \<longrightarrow> renamed ((inode_at fs)(k := None)) fs fs' \<and> inode_at fs k \<noteq> None)
     (\<lambda>fs. \<forall>k. locate fs p = Some k \<longrightarrow> inode_at fs k = None)"
  unfolding q_unlink_def
proof (rule calls_mono [OF unit_call_calls])
  fix fs fs'
  assume "sys_unlink p fs = Inr fs'"
  from sys_unlink_effect [OF this]
  show "\<forall>k. locate fs p = Some k \<longrightarrow> renamed ((inode_at fs)(k := None)) fs fs' \<and> inode_at fs k \<noteq> None"
    unfolding renamed_def by (metis option.distinct(1))
qed (auto simp: sys_unlink_def split: option.splits if_splits)

lemma q_unlink_missing_ok_spec:
  "quiet_spec (q_unlink_missing_ok p) (\<lambda>fs r fs'.
     (\<forall>k. r = Inr () \<longrightarrow> locate fs p = Some k \<longrightarrow> renamed ((inode_at fs)(k := None)) fs fs') \<and>
     (\<forall>e. r = Inl e \<longrightarrow> fs' = fs \<and> is_errno e))"
  unfolding q_unlink_missing_ok_def
proof (rule spec_catch [OF q_unlink_spec [unfolded calls_def]])
  show "quiet_spec (if e = QOs ENOENT then eff_return () else eff_raise e)
      (\<lambda>fs r fs'. fs' = fs \<and> (r = Inr () \<longrightarrow> e = QOs ENOENT) \<and> (\<forall>d. r = Inl d \<longrightarrow> d = e))" for e
    by (simp add: spec_return spec_raise)
qed (auto simp: fun_upd_idem)

text \<open>A regular file with a name that may be moved.\<close>

definition movable :: "fsys \<Rightarrow> path \<Rightarrow> path \<Rightarrow> path \<Rightarrow> path \<Rightarrow> nat \<Rightarrow> bool" where
  "movable fs src dst k l i \<longleftrightarrow> fs_ok fs \<and> locate fs src = Some k \<and> locate fs dst = Some l \<and> last src \<noteq> ''..'' \<and>
     last dst \<noteq> ''..'' \<and> k \<noteq> l \<and> inode_at fs k = Some i \<and> is_regular (in_content (fs_inodes fs i))"

lemma renamed_locate:
  assumes "renamed names fs fs'" and "fs_ok fs" and "last p \<noteq> ''..''" and "locate fs p = Some k"
    and "\<And>q j. inode_at fs q = Some j \<Longrightarrow> names q \<noteq> Some j \<Longrightarrow> is_regular (in_content (fs_inodes fs j))"
  shows "locate fs' p = Some k"
proof -
  have "keeps_tree fs fs'" using assms(1,2,5) by (intro keeps_tree_names) (auto simp: renamed_def)
  then show ?thesis using assms(3,4) by (rule locate_keeps)
qed

text \<open>What a move leaves behind: on success the name has moved; after a failure both names may exist.\<close>

definition moved :: "path \<Rightarrow> path \<Rightarrow> nat \<Rightarrow> fsys \<Rightarrow> q_exc + unit \<Rightarrow> fsys \<Rightarrow> bool" where
  "moved k l i fs r fs' \<longleftrightarrow>
     (case r of
        Inr _ \<Rightarrow> inode_at fs l = None \<and> renamed ((inode_at fs)(k := None, l := Some i)) fs fs'
      | Inl e \<Rightarrow> (is_errno e \<or> e = QuarantineConflictError ''Destination already exists'' \<and> inode_at fs l \<noteq> None) \<and>
          (renamed (inode_at fs) fs fs' \<or> inode_at fs l = None \<and> renamed ((inode_at fs)(l := Some i)) fs fs'))"

lemma link_and_unlink_spec:
  "quiet_spec (link_and_unlink src dst) (\<lambda>fs r fs'. \<forall>k l i. movable fs src dst k l i \<longrightarrow> moved k l i fs r fs')"
  unfolding link_and_unlink_def
proof (rule spec_bind [OF unit_call_calls [unfolded calls_def], where
      ?R2.0 = "\<lambda>_ fs r fs'. \<forall>k l i. locate fs src = Some k \<longrightarrow> locate fs dst = Some l \<longrightarrow> k \<noteq> l \<longrightarrow> inode_at fs l = Some i \<longrightarrow>
        (case r of Inr _ \<Rightarrow> renamed ((inode_at fs)(k := None)) fs fs'
         | Inl e \<Rightarrow> is_errno e \<and> (renamed (inode_at fs) fs fs' \<or> renamed ((inode_at fs)(l := None)) fs fs'))"])
  have clean: "quiet_spec (eff_bind (eff_catch (q_unlink_missing_ok dst) (\<lambda>_. eff_return ())) (\<lambda>_. eff_raise e :: unit q_op))
      (\<lambda>fs r fs'. r = Inl e \<and> (\<forall>l. locate fs dst = Some l \<longrightarrow>
         renamed (inode_at fs) fs fs' \<or> renamed ((inode_at fs)(l := None)) fs fs'))" for e
  proof (rule spec_bind [where ?R2.0 = "\<lambda>_ fs r fs'. fs' = fs \<and> r = Inl e"])
    show "quiet_spec (eff_catch (q_unlink_missing_ok dst) (\<lambda>_. eff_return ()))
       (\<lambda>fs r fs'. (\<exists>x. r = Inr x) \<and> (\<forall>l. locate fs dst = Some l \<longrightarrow>
          renamed (inode_at fs) fs fs' \<or> renamed ((inode_at fs)(l := None)) fs fs'))"
      by (rule spec_catch [OF q_unlink_missing_ok_spec spec_return [where R = "\<lambda>fs r fs'. fs' = fs \<and> r = Inr ()"]]) auto
  qed (auto intro: spec_raise)
  show "quiet_spec (eff_catch (q_unlink src) (\<lambda>e.
       eff_bind (eff_catch (q_unlink_missing_ok dst) (\<lambda>_. eff_return ())) (\<lambda>_. eff_raise e)))
     (\<lambda>fs r fs'. \<forall>k l i. locate fs src = Some k \<longrightarrow> locate fs dst = Some l \<longrightarrow> k \<noteq> l \<longrightarrow> inode_at fs l = Some i \<longrightarrow>
        (case r of Inr _ \<Rightarrow> renamed ((inode_at fs)(k := None)) fs fs'
         | Inl e \<Rightarrow> is_errno e \<and> (renamed (inode_at fs) fs fs' \<or> renamed ((inode_at fs)(l := None)) fs fs')))"
    by (rule spec_catch [OF q_unlink_spec [unfolded calls_def] clean]) auto
next
  fix fs :: fsys and e fs'
  assume "(\<forall>x. Inl e = Inr x \<longrightarrow> sys_link src dst fs = Inr fs') \<and>
       (\<forall>e'. Inl e = Inl e' \<longrightarrow> fs' = fs \<and> is_errno e' \<and> (e' = QOs ENOENT \<longrightarrow> sys_link src dst fs = Inl ENOENT))"
  then show "\<forall>k l i. movable fs src dst k l i \<longrightarrow> moved k l i fs (Inl e) fs'" by (simp add: moved_def)
next
  fix fs :: fsys and x :: unit and fs' fs'' and r :: "q_exc + unit"
  assume 1: "(\<forall>y. Inr x = Inr y \<longrightarrow> sys_link src dst fs = Inr fs') \<and>
       (\<forall>e'. Inr x = Inl e' \<longrightarrow> fs' = fs \<and> is_errno e' \<and> (e' = QOs ENOENT \<longrightarrow> sys_link src dst fs = Inl ENOENT))"
    and 2: "\<forall>k l i. locate fs' src = Some k \<longrightarrow> locate fs' dst = Some l \<longrightarrow> k \<noteq> l \<longrightarrow> inode_at fs' l = Some i \<longrightarrow>
        (case r of Inr _ \<Rightarrow> renamed ((inode_at fs')(k := None)) fs' fs''
         | Inl e \<Rightarrow> is_errno e \<and> (renamed (inode_at fs') fs' fs'' \<or> renamed ((inode_at fs')(l := None)) fs' fs''))"
  show "\<forall>k l i. movable fs src dst k l i \<longrightarrow> moved k l i fs r fs''"
  proof (intro allI impI)
    fix k l i
    assume m: "movable fs src dst k l i"
    have eff: "inode_at fs' = (inode_at fs)(l := Some i)" "inode_at fs l = None" and ren: "renamed (inode_at fs') fs fs'"
      using sys_link_effect [of src dst fs fs' k l i] 1 m by (auto simp: movable_def renamed_def)
    have "locate fs' src = Some k" "locate fs' dst = Some l"
      using m eff by (auto simp: movable_def intro!: renamed_locate [OF ren] split: if_splits)
    then have 3: "case r of Inr _ \<Rightarrow> renamed ((inode_at fs')(k := None)) fs' fs''
         | Inl e \<Rightarrow> is_errno e \<and> (renamed (inode_at fs') fs' fs'' \<or> renamed ((inode_at fs')(l := None)) fs' fs'')"
      using 2 eff m by (auto simp: movable_def)
    have restored: "(inode_at fs')(l := None) = inode_at fs" using eff by auto
    have swap: "(inode_at fs')(k := None) = (inode_at fs)(k := None, l := Some i)"
      using eff m by (auto simp: movable_def fun_upd_twist)
    show "moved k l i fs r fs''"
      using 3 [unfolded restored swap, unfolded eff(1)] renamed_trans [OF ren] eff(2) by (cases r) (auto simp: moved_def)
  qed
qed

lemma move_noreplace_spec:
  "quiet_spec (move_noreplace env src dst) (\<lambda>fs r fs'. \<forall>k l i. movable fs src dst k l i \<longrightarrow> moved k l i fs r fs')"
  unfolding move_noreplace_def
proof (rule spec_bind [OF looks_spec [OF q_lexists_looks [where E = "\<lambda>_. False"]], where
      ?R2.0 = "\<lambda>there fs r fs'. there = (lookup fs dst \<noteq> None) \<longrightarrow> (\<forall>k l i. movable fs src dst k l i \<longrightarrow> moved k l i fs r fs')"])
  have rename: "quiet_spec (eff_catch (q_call (unit_call (sys_rename_noreplace src dst))) (\<lambda>e.
         if e = QOs ENOSYS \<or> e = QOs EINVAL then link_and_unlink src dst else eff_raise e))
      (\<lambda>fs r fs'. \<forall>k l i. movable fs src dst k l i \<longrightarrow> moved k l i fs r fs')"
  proof (rule spec_catch [OF unit_call_calls [unfolded calls_def], where
        ?R2.0 = "\<lambda>e fs r fs'. \<forall>k l i. is_errno e \<longrightarrow> movable fs src dst k l i \<longrightarrow> moved k l i fs r fs'"])
    show "quiet_spec (if e = QOs ENOSYS \<or> e = QOs EINVAL then link_and_unlink src dst else eff_raise e)
        (\<lambda>fs r fs'. \<forall>k l i. is_errno e \<longrightarrow> movable fs src dst k l i \<longrightarrow> moved k l i fs r fs')" for e
      by (auto intro!: quiet_spec_mono [OF link_and_unlink_spec] spec_raise simp: moved_def)
  next
    fix fs :: fsys and x :: unit and fs'
    assume *: "(\<forall>y. Inr x = Inr y \<longrightarrow> sys_rename_noreplace src dst fs = Inr fs') \<and>
       (\<forall>e. Inr x = Inl e \<longrightarrow> fs' = fs \<and> is_errno e \<and> (e = QOs ENOENT \<longrightarrow> sys_rename_noreplace src dst fs = Inl ENOENT))"
    show "\<forall>k l i. movable fs src dst k l i \<longrightarrow> moved k l i fs (Inr x) fs'"
    proof (intro allI impI)
      fix k l i
      assume m: "movable fs src dst k l i"
      then have "in_content (fs_inodes fs i) \<noteq> DirectoryNode" using regular_not_link by (auto simp: movable_def)
      then show "moved k l i fs (Inr x) fs'"
        using sys_rename_effect [of src dst fs fs' k l i] * m by (auto simp: movable_def moved_def renamed_def)
    qed
  qed auto
  show "quiet_spec (if there then eff_raise (QuarantineConflictError ''Destination already exists'')
       else if qe_renameat2 env
         then eff_catch (q_call (unit_call (sys_rename_noreplace src dst))) (\<lambda>e.
           if e = QOs ENOSYS \<or> e = QOs EINVAL then link_and_unlink src dst else eff_raise e)
       else link_and_unlink src dst)
     (\<lambda>fs r fs'. there = (lookup fs dst \<noteq> None) \<longrightarrow> (\<forall>k l i. movable fs src dst k l i \<longrightarrow> moved k l i fs r fs'))" for there
    using rename link_and_unlink_spec [of src dst]
    by (auto intro!: spec_raise simp: moved_def movable_def lookup_def elim!: quiet_spec_mono)
qed auto

section \<open>Contents\<close>

lemma q_read_chunk_looks:
  "looks (q_read_chunk fd off) (\<lambda>fs c. prefix c (drop off (inode_bytes fs fd)) \<and> (c = [] \<longrightarrow> drop off (inode_bytes fs fd) = [])) is_errno"
proof -
  have *: "quiet_spec (case oc of
      Fails e \<Rightarrow> eff_raise (QOs e)
    | Completes \<Rightarrow> eff_gets (\<lambda>s. chunk_of (drop off (inode_bytes (qs_fs s) fd)))
    | Transfers n \<Rightarrow> eff_gets (\<lambda>s. take (max 1 n) (chunk_of (drop off (inode_bytes (qs_fs s) fd)))))
    (\<lambda>fs r fs'. fs' = fs \<and> (\<forall>c. r = Inr c \<longrightarrow> prefix c (drop off (inode_bytes fs fd)) \<and> (c = [] \<longrightarrow> drop off (inode_bytes fs fd) = []))
      \<and> (\<forall>e. r = Inl e \<longrightarrow> is_errno e))" for oc
    by (rule spec_at) (auto simp: chunk_of_def COPY_CHUNK_SIZE_def take_is_prefix take_take split: outcome.splits)
  show ?thesis unfolding looks_def q_read_chunk_def by (rule spec_bind [OF next_event_spec *]) auto
qed

lemma looksD:
  assumes "looks m Q E" and "quiet s" and "m s = (r, s')"
  shows "qs_fs s' = qs_fs s" and "fs_step s s'" and "quiet s'" and "r = Inr x \<Longrightarrow> Q (qs_fs s) x" and "r = Inl e \<Longrightarrow> E e"
  using quiet_specD [OF looks_spec [OF assms(1)] assms(2,3)] by auto

lemma read_rest_steps:
  "q_read_chunk fd off s = (Inl e, t) \<Longrightarrow> read_rest fd off acc s = (Inl e, t)"
  "q_read_chunk fd off s = (Inr [], t) \<Longrightarrow> read_rest fd off acc s = (Inr acc, t)"
  "q_read_chunk fd off s = (Inr c, t) \<Longrightarrow> c \<noteq> [] \<Longrightarrow>
     read_rest fd off acc s = read_rest fd (off + length c) (acc @ c) t"
  by (subst read_rest.simps, simp)+

lemma read_rest_looks:
  assumes "quiet s" and "read_rest fd off acc s = (r, s')"
  shows "fs_step s s' \<and> quiet s' \<and> qs_fs s' = qs_fs s \<and>
    (\<forall>b. r = Inr b \<longrightarrow> b = acc @ drop off (inode_bytes (qs_fs s) fd)) \<and> (\<forall>e. r = Inl e \<longrightarrow> is_errno e)"
  using assms
proof (induction fd off acc s arbitrary: r s' rule: read_rest.induct)
  case (1 fd off acc s)
  obtain q t where run: "q_read_chunk fd off s = (q, t)" by (cases "q_read_chunk fd off s")
  note c = looksD [OF q_read_chunk_looks 1(2) run]
  show ?case
  proof (cases "\<exists>c. q = Inr c \<and> c \<noteq> []")
    case True
    then obtain c where c2: "q = Inr c" "c \<noteq> []" by blast
    have rest: "read_rest fd (off + length c) (acc @ c) t = (r, s')"
      using 1(3) read_rest_steps(3) [OF run [unfolded c2(1)] c2(2)] by simp
    obtain d where d: "drop off (inode_bytes (qs_fs s) fd) = c @ d" using c(4) [OF c2(1)] by (auto simp: prefix_def)
    then have "drop (off + length c) (inode_bytes (qs_fs s) fd) = d"
      by (metis add.commute append_eq_conv_conj drop_drop)
    then show ?thesis
      using 1(1) [OF run [symmetric] c2(1,2) c(3) rest] c(1,2) d fs_step_trans by auto
  next
    case False
    then consider e where "q = Inl e" | "q = Inr []" by (cases q) auto
    then show ?thesis
    proof cases
      case 1
      then have "r = Inl e \<and> s' = t" using \<open>read_rest fd off acc s = (r, s')\<close> run by (simp add: read_rest_steps(1))
      then show ?thesis using c(1-3) c(5) [OF 1] by simp
    next
      case 2
      then have "r = Inr acc" "s' = t" using \<open>read_rest fd off acc s = (r, s')\<close> run read_rest_steps(2) [of fd off s t acc] by simp_all
      moreover have "drop off (inode_bytes (qs_fs s) fd) = []" using conjunct2 [OF c(4) [OF 2]] by simp
      ultimately show ?thesis using c(1-3) by (simp del: drop_eq_Nil)
    qed
  qed
qed

lemma hash_fd_looks: "looks (hash_fd env fd) (\<lambda>fs h. h = qe_sha256 env (inode_bytes fs fd)) is_errno"
  unfolding hash_fd_def
proof (rule looks_bind [where P = "\<lambda>fs b. b = inode_bytes fs fd"])
  show "looks (read_rest fd 0 []) (\<lambda>fs b. b = inode_bytes fs fd) is_errno"
    unfolding looks_def
  proof (rule specI)
    fix s r s'
    assume "quiet s" and "read_rest fd 0 [] s = (r, s')"
    from read_rest_looks [OF this]
    show "fs_step s s' \<and> qs_fs s' = qs_fs s \<and> (\<forall>b. r = Inr b \<longrightarrow> b = inode_bytes (qs_fs s) fd) \<and> (\<forall>e. r = Inl e \<longrightarrow> is_errno e)"
      by simp
  qed
qed (auto intro: looks_return)

text \<open>Writing to a descriptor: only that inode changes, it stays a regular file with its permissions.\<close>

definition extends :: "nat \<Rightarrow> fsys \<Rightarrow> fsys \<Rightarrow> bool" where
  "extends i fs fs' \<longleftrightarrow> only_inode i fs fs' \<and> is_regular (in_content (fs_inodes fs' i)) \<and>
     in_mode (fs_inodes fs' i) = in_mode (fs_inodes fs i)"

lemma extends_trans: "extends i a b \<Longrightarrow> extends i b c \<Longrightarrow> extends i a c"
  by (auto simp: extends_def intro: only_inode_trans)

lemma q_write_spec:
  "quiet_spec (q_write fd off v) (\<lambda>fs r fs'.
     (\<forall>n. r = Inr n \<longrightarrow> n \<le> length v \<and> fs' = sys_pwrite fd off (take n v) fs) \<and> (\<forall>e. r = Inl e \<longrightarrow> fs' = fs \<and> is_errno e))"
proof -
  have *: "quiet_spec (case oc of
      Fails e \<Rightarrow> eff_raise (QOs e)
    | _ \<Rightarrow> let n = (case oc of Transfers m \<Rightarrow> min m (length v) | _ \<Rightarrow> length v) in
        eff_bind (eff_modify (\<lambda>s. s\<lparr>qs_fs := sys_pwrite fd off (take n v) (qs_fs s)\<rparr>)) (\<lambda>_. eff_return n))
     (\<lambda>fs r fs'. (\<forall>n. r = Inr n \<longrightarrow> n \<le> length v \<and> fs' = sys_pwrite fd off (take n v) fs) \<and>
        (\<forall>e. r = Inl e \<longrightarrow> fs' = fs \<and> is_errno e))" for oc
    by (rule spec_at) (auto simp: eff_bind_def Let_def split: outcome.splits)
  show ?thesis unfolding q_write_def by (rule spec_bind [OF next_event_spec *]) auto
qed

lemma write_all_effect:
  assumes "quiet s" and "write_all fd off v s = (r, s')" and "length (inode_bytes (qs_fs s) fd) = off"
    and "is_regular (in_content (fs_inodes (qs_fs s) fd))"
  shows "fs_step s s' \<and> quiet s' \<and> extends fd (qs_fs s) (qs_fs s') \<and>
    (\<forall>u. r = Inr u \<longrightarrow> inode_bytes (qs_fs s') fd = inode_bytes (qs_fs s) fd @ v) \<and> (\<forall>e. r = Inl e \<longrightarrow> is_errno e)"
  using assms
proof (induction fd off v s arbitrary: r s' rule: write_all.induct)
  case (1 fd off v s)
  obtain q t where run: "q_write fd off v s = (q, t)" by (cases "q_write fd off v s")
  note w = quiet_specD [OF q_write_spec 1(2) run]
  have ext: "extends fd (qs_fs s) (qs_fs t)"
  proof (cases q)
    case (Inl e)
    then show ?thesis using w(1) 1(5) by (auto simp: extends_def)
  next
    case (Inr n)
    then show ?thesis using w(1) by (simp add: extends_def sys_pwrite_effect)
  qed
  consider (empty) "v = []" | (err) e where "v \<noteq> []" "q = Inl e" | (zero) "v \<noteq> []" "q = Inr 0" | (more) n where "v \<noteq> []" "q = Inr (Suc n)"
    by (cases q) (metis not0_implies_Suc)+
  then show ?case
  proof cases
    case empty
    then show ?thesis using 1(2,3,5) by (auto simp: write_all_steps(1) extends_def)
  next
    case (err e)
    then show ?thesis using 1(3) write_all_steps(2) [of v fd off s e t] run w ext by auto
  next
    case zero
    then show ?thesis using 1(3) write_all_steps(3) [of v fd off s t] run w ext by auto
  next
    case (more n)
    have rest: "write_all fd (off + Suc n) (drop (Suc n) v) t = (r, s')"
      using 1(3) write_all_steps(4) [of v fd off s n t] run more by simp
    have n: "Suc n \<le> length v" and fs: "qs_fs t = sys_pwrite fd off (take (Suc n) v) (qs_fs s)"
      using w(1) more(2) by blast+
    have b: "inode_bytes (qs_fs t) fd = inode_bytes (qs_fs s) fd @ take (Suc n) v"
      using 1(4) by (auto simp: fs sys_pwrite_effect)
    then have len: "length (inode_bytes (qs_fs t) fd) = off + Suc n" using n 1(4) by simp
    have reg: "is_regular (in_content (fs_inodes (qs_fs t) fd))" using ext by (simp add: extends_def)
    have IH: "fs_step t s' \<and> quiet s' \<and> extends fd (qs_fs t) (qs_fs s') \<and>
      (\<forall>u. r = Inr u \<longrightarrow> inode_bytes (qs_fs s') fd = inode_bytes (qs_fs t) fd @ drop (Suc n) v) \<and> (\<forall>e. r = Inl e \<longrightarrow> is_errno e)"
      using 1(1) [OF more(1) run [symmetric] more(2) _ w(3) rest len reg] by simp
    then show ?thesis
      using fs_step_trans [OF w(2)] extends_trans [OF ext] b by (metis append.assoc append_take_drop_id)
  qed
qed

lemma copy_rest_steps:
  "q_read_chunk src off s = (Inl e, t) \<Longrightarrow> copy_rest src dst off acc s = (Inl e, t)"
  "q_read_chunk src off s = (Inr [], t) \<Longrightarrow> copy_rest src dst off acc s = (Inr acc, t)"
  "q_read_chunk src off s = (Inr c, t) \<Longrightarrow> c \<noteq> [] \<Longrightarrow> write_all dst off c t = (Inl e, u) \<Longrightarrow>
     copy_rest src dst off acc s = (Inl e, u)"
  "q_read_chunk src off s = (Inr c, t) \<Longrightarrow> c \<noteq> [] \<Longrightarrow> write_all dst off c t = (Inr (), u) \<Longrightarrow>
     copy_rest src dst off acc s = copy_rest src dst (off + length c) (acc @ c) u"
  by (subst copy_rest.simps, simp)+

text \<open>The state of the copy between two chunks: the destination holds what was read so far.\<close>

definition copied :: "nat \<Rightarrow> nat \<Rightarrow> nat \<Rightarrow> string \<Rightarrow> fsys \<Rightarrow> bool" where
  "copied src dst off acc fs \<longleftrightarrow> src \<noteq> dst \<and> is_regular (in_content (fs_inodes fs dst)) \<and>
     inode_bytes fs dst = acc \<and> length acc = off"

lemma copied_step:
  assumes "copied src dst off acc fs" and "extends dst fs fs'" and "inode_bytes fs' dst = inode_bytes fs dst @ c"
  shows "copied src dst (off + length c) (acc @ c) fs'" and "inode_bytes fs' src = inode_bytes fs src"
  using assms by (auto simp: copied_def extends_def only_inode_def inode_bytes_def)

lemma drop_prefix: "drop off b = c @ d \<Longrightarrow> drop (off + length c) b = d"
  by (metis add.commute append_eq_conv_conj drop_drop)

lemma copy_rest_effect:
  assumes "quiet s" and "copy_rest src dst off acc s = (r, s')" and "copied src dst off acc (qs_fs s)"
  shows "fs_step s s' \<and> quiet s' \<and> extends dst (qs_fs s) (qs_fs s') \<and> (\<forall>e. r = Inl e \<longrightarrow> is_errno e) \<and>
    (\<forall>b. r = Inr b \<longrightarrow> b = acc @ drop off (inode_bytes (qs_fs s) src) \<and> inode_bytes (qs_fs s') dst = b)"
  using assms
proof (induction src dst off acc s arbitrary: r s' rule: copy_rest.induct)
  case (1 src dst off acc s)
  obtain q t where run: "q_read_chunk src off s = (q, t)" by (cases "q_read_chunk src off s")
  note c = looksD [OF q_read_chunk_looks 1(2) run]
  have cpd: "copied src dst off acc (qs_fs t)" using 1(4) c(1) by simp
  have stay: "extends dst (qs_fs s) (qs_fs t)" using 1(4) c(1) by (simp add: extends_def copied_def)
  consider (err) e where "q = Inl e" | (eof) "q = Inr []" | (chunk) b where "q = Inr b" "b \<noteq> []" by (cases q) auto
  then show ?case
  proof cases
    case (err e)
    then have "r = Inl e" "s' = t" using 1(3) run copy_rest_steps(1) [of src off s e t dst acc] by simp_all
    then show ?thesis using c(2,3) c(5) [OF err] stay by simp
  next
    case eof
    then have r: "r = Inr acc" "s' = t" using 1(3) run copy_rest_steps(2) [of src off s t dst acc] by simp_all
    moreover have "drop off (inode_bytes (qs_fs s) src) = []" using c(4) [OF eof] by simp
    ultimately show ?thesis using c(2,3) stay cpd by (simp add: copied_def del: drop_eq_Nil)
  next
    case (chunk b)
    obtain w u where wr: "write_all dst off b t = (w, u)" by (cases "write_all dst off b t")
    have len: "length (inode_bytes (qs_fs t) dst) = off" and reg: "is_regular (in_content (fs_inodes (qs_fs t) dst))"
      using cpd by (simp_all add: copied_def)
    note we = write_all_effect [OF c(3) wr len reg]
    show ?thesis
    proof (cases w)
      case (Inl e)
      then have "r = Inl e" "s' = u" using 1(3) copy_rest_steps(3) [OF run [unfolded chunk(1)] chunk(2) wr [unfolded Inl]] by simp_all
      then show ?thesis using we Inl fs_step_trans [OF c(2)] extends_trans [OF stay] by simp
    next
      case (Inr x)
      then have rest: "copy_rest src dst (off + length b) (acc @ b) u = (r, s')"
        using 1(3) copy_rest_steps(4) [of src off s b t dst u acc] run wr chunk by simp
      have b: "inode_bytes (qs_fs u) dst = inode_bytes (qs_fs t) dst @ b" and ext: "extends dst (qs_fs t) (qs_fs u)"
        and q: "quiet u" and st: "fs_step t u" using we Inr by auto
      note cp = copied_step [OF cpd ext b]
      obtain d where d: "drop off (inode_bytes (qs_fs s) src) = b @ d" using c(4) [OF chunk(1)] by (auto simp: prefix_def)
      then have "drop (off + length b) (inode_bytes (qs_fs u) src) = d" using cp(2) c(1) by (simp add: drop_prefix)
      then show ?thesis
        using 1(1) [OF run [symmetric] chunk(1,2) wr [symmetric] Inr q rest cp(1)] d
          fs_step_trans [OF fs_step_trans [OF c(2) st]] extends_trans [OF extends_trans [OF stay ext]] by simp
    qed
  qed
qed

section \<open>New files\<close>

text \<open>A new regular file under a name that was free.\<close>

definition created :: "path \<Rightarrow> fsys \<Rightarrow> fsys \<Rightarrow> bool" where
  "created k fs fs' \<longleftrightarrow> inode_at fs k = None \<and> inode_at fs' = (inode_at fs)(k := Some (fs_next fs)) \<and>
     fs_next fs' = Suc (fs_next fs) \<and> same_nodes fs fs' \<and> is_regular (in_content (fs_inodes fs' (fs_next fs)))"

lemma created_extend:
  assumes "created k fs fs'" and "only_inode (fs_next fs) fs' fs''" and "is_regular (in_content (fs_inodes fs'' (fs_next fs)))"
  shows "created k fs fs''"
proof -
  have "same_node (fs_inodes fs j) (fs_inodes fs'' j)" if "j < fs_next fs" for j
    using assms(1,2) that by (auto simp: created_def same_nodes_def only_inode_def)
  then have "same_nodes fs fs''" using assms(1,2) by (auto simp: created_def same_nodes_def only_inode_def)
  then show ?thesis
    using assms only_inode_at [OF assms(2)] by (auto simp: created_def only_inode_def)
qed

lemma q_open_excl_spec:
  "calls (q_open_excl env mode p) (\<lambda>fs fd fs'. \<forall>k. locate fs p = Some k \<longrightarrow>
     fd = fs_next fs \<and> created k fs fs' \<and> inode_bytes fs' fd = []) (\<lambda>_. True)"
  unfolding q_open_excl_def
proof (rule calls_mono [OF q_call_calls], intro allI impI)
  fix fs fd fs' k
  assume "sys_create (RegularFile []) (masked env mode) (qe_euid env) (qe_egid env) p fs = Inr (fd, fs')"
    and "locate fs p = Some k"
  note e = sys_create_effect [OF this]
  show "fd = fs_next fs \<and> created k fs fs' \<and> inode_bytes fs' fd = []"
    using e(2-6) unfolding e(1) by (simp add: created_def inode_bytes_def)
qed simp

lemma q_fchmod_spec: "calls (q_fchmod mode fd) (\<lambda>fs _ fs'. fs' = sys_fchmod mode fd fs) (\<lambda>_. True)"
  unfolding q_fchmod_def by (rule calls_mono [OF unit_call_calls]) auto

lemma callsD:
  assumes "calls m Q Z" and "quiet s" and "m s = (r, s')"
  shows "fs_step s s'" and "quiet s'" and "r = Inr x \<Longrightarrow> Q (qs_fs s) x (qs_fs s')"
    and "r = Inl e \<Longrightarrow> qs_fs s' = qs_fs s \<and> is_errno e"
  using quiet_specD [OF assms(1) [unfolded calls_def] assms(2,3)] by auto

definition file_copy :: "q_env \<Rightarrow> nat \<Rightarrow> path \<Rightarrow> fsys \<Rightarrow> q_exc + string \<times> nat \<Rightarrow> fsys \<Rightarrow> bool" where
  "file_copy env src k fs r fs' \<longleftrightarrow>
     (case r of
        Inl e \<Rightarrow> is_errno e \<and> (fs' = fs \<or> created k fs fs')
      | Inr (h, n) \<Rightarrow> created k fs fs' \<and> h = qe_sha256 env (inode_bytes fs src) \<and> n = length (inode_bytes fs src) \<and>
          in_content (fs_inodes fs' (fs_next fs)) = RegularFile (inode_bytes fs src) \<and> in_mode (fs_inodes fs' (fs_next fs)) = 384)"

lemma inode_bytes_regular: "is_regular (in_content (fs_inodes fs i)) \<Longrightarrow> in_content (fs_inodes fs i) = RegularFile (inode_bytes fs i)"
  by (cases "in_content (fs_inodes fs i)") (auto simp: inode_bytes_def)

lemma copy_fd_to_new_file_effect:
  assumes q: "quiet s" and run: "copy_fd_to_new_file env src p s = (r, s')"
    and k: "locate (qs_fs s) p = Some k" and src: "src < fs_next (qs_fs s)"
  shows "fs_step s s' \<and> quiet s' \<and> file_copy env src k (qs_fs s) r (qs_fs s')"
  using run unfolding copy_fd_to_new_file_def
proof (cases rule: eff_bind_cases)
  case (raised e)
  then show ?thesis using callsD [OF q_open_excl_spec q raised(1)] by (auto simp: file_copy_def)
next
  case (returned fd t)
  note o = callsD [OF q_open_excl_spec q returned(1)]
  have fd: "fd = fs_next (qs_fs s)" and new: "created k (qs_fs s) (qs_fs t)" and empty: "inode_bytes (qs_fs t) fd = []"
    using o(3) [OF refl] k by auto
  have src_bytes: "inode_bytes (qs_fs t) src = inode_bytes (qs_fs s) src"
    using new src by (simp add: created_def same_nodes_bytes)
  have cp0: "copied src fd 0 [] (qs_fs t)" using new fd src empty by (simp add: copied_def created_def)
  from returned(2) show ?thesis
  proof (cases rule: eff_bind_cases)
    case (raised e)
    then obtain e' where c: "copy_rest src fd 0 [] t = (Inl e', s')" "e = e'"
      by (auto simp: copy_between_fds_def elim!: eff_bind_cases)
    note cr = copy_rest_effect [OF o(2) c(1) cp0]
    then have "created k (qs_fs s) (qs_fs s')" using created_extend [OF new] fd by (simp add: extends_def)
    then show ?thesis using cr raised(2) c(2) fs_step_trans [OF o(1)] by (simp add: file_copy_def)
  next
    case (returned hn u)
    then obtain b where c: "copy_rest src fd 0 [] t = (Inr b, u)" "hn = (qe_sha256 env b, length b)"
      by (auto simp: copy_between_fds_def elim!: eff_bind_cases)
    note cr = copy_rest_effect [OF o(2) c(1) cp0]
    have b: "b = inode_bytes (qs_fs s) src" "inode_bytes (qs_fs u) fd = b" using cr src_bytes by simp_all
    have reg: "is_regular (in_content (fs_inodes (qs_fs u) fd))" using cr by (simp add: extends_def)
    have new2: "created k (qs_fs s) (qs_fs u)" using created_extend [OF new] cr fd by (simp add: extends_def)
    have qu: "quiet u" and st: "fs_step s u" using cr fs_step_trans [OF o(1)] by auto
    from returned(2) show ?thesis
    proof (cases rule: eff_bind_cases)
      case (raised e)
      then show ?thesis using callsD [OF q_fchmod_spec qu raised(1)] new2 fs_step_trans [OF st] by (auto simp: file_copy_def)
    next
      case (returned x v)
      note ch = callsD [OF q_fchmod_spec qu returned(1)]
      have fsv: "qs_fs v = sys_fchmod 384 fd (qs_fs u)" using ch(3) [OF refl] .
      have new3: "created k (qs_fs s) (qs_fs v)"
        using created_extend [OF new2] reg fd by (simp add: fsv sys_fchmod_effect)
      have content: "in_content (fs_inodes (qs_fs v) fd) = RegularFile b" "in_mode (fs_inodes (qs_fs v) fd) = 384"
        using inode_bytes_regular [OF reg] b by (simp_all add: fsv sys_fchmod_effect)
      have stv: "fs_step s v" using fs_step_trans [OF st ch(1)] .
      from returned(2) show ?thesis
      proof (cases rule: eff_bind_cases)
        case (raised e)
        then show ?thesis using looksD [OF q_fsync_looks ch(2) raised(1)] new3 fs_step_trans [OF stv] by (auto simp: file_copy_def)
      next
        case (returned y w)
        then show ?thesis
          using looksD(1-3) [OF q_fsync_looks ch(2) returned(1)] new3 fs_step_trans [OF stv] content b fd c(2)
          by (auto simp: file_copy_def)
      qed
    qed
  qed
qed

section \<open>Checks\<close>

lemma reject_if_looks: "(b \<Longrightarrow> E e) \<Longrightarrow> looks (reject_if b e) (\<lambda>_ _. \<not> b) E"
  by (simp add: reject_if_def looks_return looks_raise)

lemma open_regular_nofollow_looks:
  "looks (open_regular_nofollow p) (\<lambda>fs (fd, st). lookup fs p = Some fd \<and> st = stat_of fs fd \<and> is_regular (in_content (fs_inodes fs fd))) (\<lambda>_. True)"
  unfolding open_regular_nofollow_def
proof (rule looks_bind [where P = "\<lambda>fs fd. lookup fs p = Some fd"])
  have "looks (q_read (sys_open p)) (\<lambda>fs fd. lookup fs p = Some fd) is_errno"
    by (rule looks_mono [OF q_read_looks]) (auto simp: sys_open_def split: option.splits if_splits)
  then show "looks (eff_catch (q_read (sys_open p)) (\<lambda>e. eff_raise (QuarantineError
       (if e = QOs ELOOP then ''Symbolic-link path rejected'' else ''Cannot securely open file''))))
     (\<lambda>fs fd. lookup fs p = Some fd) (\<lambda>_. True)"
    by (rule looks_catch) (simp add: looks_raise)
next
  fix fd
  show "looks (eff_bind (q_fstat fd) (\<lambda>opened.
     if \<not> is_regular (st_content opened) then eff_raise (QuarantineError ''Only regular files can be quarantined'')
     else eff_bind (q_lstat p) (\<lambda>path_stat.
       if is_link (st_content path_stat) then eff_raise (QuarantineError ''Symbolic-link path rejected'')
       else if \<not> same_file path_stat opened
         then eff_raise (QuarantineIntegrityError ''File identity changed while opening'')
       else eff_return (fd, opened))))
     (\<lambda>fs x. lookup fs p = Some fd \<longrightarrow> (case x of (fd, st) \<Rightarrow> lookup fs p = Some fd \<and> st = stat_of fs fd \<and> is_regular (in_content (fs_inodes fs fd)))) (\<lambda>_. True)"
  proof (rule looks_bind [OF q_fstat_looks])
    fix opened
    have "looks (eff_bind (q_lstat p) (\<lambda>path_stat.
       if is_link (st_content path_stat) then eff_raise (QuarantineError ''Symbolic-link path rejected'')
       else if \<not> same_file path_stat opened
         then eff_raise (QuarantineIntegrityError ''File identity changed while opening'')
       else eff_return (fd, opened))) (\<lambda>_ x. x = (fd, opened)) (\<lambda>_. True)"
      by (rule looks_bind [OF looks_mono [OF q_lstat_looks, where Q' = "\<lambda>_ _. True" and E' = "\<lambda>_. True"]])
        (auto intro: looks_return looks_raise)
    then show "looks (if \<not> is_regular (st_content opened) then eff_raise (QuarantineError ''Only regular files can be quarantined'')
       else eff_bind (q_lstat p) (\<lambda>path_stat.
         if is_link (st_content path_stat) then eff_raise (QuarantineError ''Symbolic-link path rejected'')
         else if \<not> same_file path_stat opened
           then eff_raise (QuarantineIntegrityError ''File identity changed while opening'')
         else eff_return (fd, opened)))
       (\<lambda>fs x. opened = stat_of fs fd \<longrightarrow> lookup fs p = Some fd \<longrightarrow>
          (case x of (fd, st) \<Rightarrow> lookup fs p = Some fd \<and> st = stat_of fs fd \<and> is_regular (in_content (fs_inodes fs fd)))) (\<lambda>_. True)"
      by (auto intro!: looks_raise elim!: looks_mono simp: stat_of_def Let_def)
  qed
qed

lemma check_identity_looks: "looks (check_identity ex st) (\<lambda>_ _. True) (\<lambda>_. True)"
proof -
  have r: "looks (reject_if b e) (\<lambda>_ _. True) (\<lambda>_. True)" for b e
    by (rule looks_mono [OF reject_if_looks]) auto
  show ?thesis
    unfolding check_identity_def
    by (intro looks_bind [OF r] looks_bind [where P = "\<lambda>_ _. True"]) (auto intro: looks_return looks_raise r looks_mono [OF r] looks_bind [OF r])
qed

lemma assert_fd_unchanged_looks: "looks (assert_fd_unchanged fd initial) (\<lambda>_ _. True) (\<lambda>_. True)"
  unfolding assert_fd_unchanged_def
  by (rule looks_bind [OF q_fstat_looks]) (auto intro: looks_return looks_raise)

lemma assert_path_matches_fd_looks: "looks (assert_path_matches_fd p fd initial) (\<lambda>_ _. True) (\<lambda>_. True)"
  unfolding assert_path_matches_fd_def
  by (intro looks_bind [OF looks_mono [OF q_lstat_looks, where E' = "\<lambda>_. True" and Q' = "\<lambda>_ _. True"]] looks_bind [OF q_fstat_looks])
    (auto intro: looks_return looks_raise)

lemma detect_file_type_looks: "looks (detect_file_type env p) (\<lambda>_ _. True) (\<lambda>_. True)"
  unfolding detect_file_type_def
proof (rule looks_bind [where P = "\<lambda>_ _. True"])
  show "looks (eff_catch (eff_bind (q_read (sys_open_follow p)) (\<lambda>fd.
         eff_bind (q_query (\<lambda>fs. inode_bytes fs fd)) (\<lambda>b. eff_return (Some b)))) (\<lambda>_. eff_return None)) (\<lambda>_ _. True) (\<lambda>_. True)"
    by (rule looks_catch [where P = is_errno], rule looks_bind [OF q_read_looks], rule looks_bind [OF q_query_looks])
      (auto intro: looks_return)
  show "looks (case r of None \<Rightarrow> eff_return ''application/octet-stream''
     | Some b \<Rightarrow> if take 4 b = [CHR 0x7F, CHR ''E'', CHR ''L'', CHR ''F''] then eff_return ''application/x-elf''
         else eff_lift (magic_type env p b)) (\<lambda>fs y. True \<longrightarrow> True) (\<lambda>_. True)" for r
    by (cases r) (auto intro: looks_return looks_lift)
qed

lemma synced_looks: "looks (eff_catch (fsync_directory p) (\<lambda>e. if is_oserror e then eff_return () else eff_raise e)) (\<lambda>_ _. True) (\<lambda>_. False)"
  by (rule looks_catch [OF fsync_directory_looks]) (auto intro: looks_return)

end
