(* ===== verification/Quarantine_Metadata.thy ===== *)
theory Quarantine_Metadata
  imports Quarantine_Calls
begin

text \<open>
  Metadata files of the quarantine store: what the atomic write leaves behind at each point of failure.
\<close>

section \<open>The atomic write\<close>

text \<open>
  \<open>meta_state m t\<close>: nothing happened, or one regular file was added, under the temporary name \<open>t\<close>, the
  metadata name \<open>m\<close>, or neither.
\<close>

definition meta_grown :: "path \<Rightarrow> path \<Rightarrow> fsys \<Rightarrow> fsys \<Rightarrow> bool" where
  "meta_grown m t fs fs' \<longleftrightarrow>
     inode_at fs t = None \<and> same_nodes fs fs' \<and> fs_next fs' = Suc (fs_next fs) \<and>
     is_regular (in_content (fs_inodes fs' (fs_next fs))) \<and>
     (\<exists>a b. inode_at fs' = (inode_at fs)(m := a, t := b) \<and> (a = inode_at fs m \<or> a = Some (fs_next fs)) \<and>
        (b = None \<or> b = Some (fs_next fs)))"

definition meta_state :: "path \<Rightarrow> path \<Rightarrow> fsys \<Rightarrow> fsys \<Rightarrow> bool" where
  "meta_state m t fs fs' \<longleftrightarrow> fs' = fs \<or> meta_grown m t fs fs'"

text \<open>The two names lie in directories that exist; the metadata name is free or a regular file.\<close>

definition meta_place :: "path \<Rightarrow> path \<Rightarrow> path \<Rightarrow> path \<Rightarrow> fsys \<Rightarrow> bool" where
  "meta_place dest temp m t fs \<longleftrightarrow> fs_ok fs \<and> m \<noteq> t \<and>
     dest \<noteq> [] \<and> last dest \<noteq> ''..'' \<and> locate fs dest = Some m \<and>
     temp \<noteq> [] \<and> last temp \<noteq> ''..'' \<and> locate fs temp = Some t \<and>
     (\<forall>i. inode_at fs m = Some i \<longrightarrow> is_regular (in_content (fs_inodes fs i)))"

lemma meta_state_refl [simp]: "meta_state m t fs fs"
  by (simp add: meta_state_def)

lemma grown_state: "meta_grown m t fs fs' \<Longrightarrow> meta_state m t fs fs'"
  by (simp add: meta_state_def)

lemma meta_state_nodes: "meta_state m t fs fs' \<Longrightarrow> same_nodes fs fs'"
  by (auto simp: meta_state_def meta_grown_def)

lemma meta_state_other: "meta_state m t fs fs' \<Longrightarrow> k \<noteq> m \<Longrightarrow> k \<noteq> t \<Longrightarrow> inode_at fs' k = inode_at fs k"
  by (auto simp: meta_state_def meta_grown_def)

lemma meta_state_tree:
  assumes "meta_state m t fs fs'" and "fs_ok fs" and "\<And>i. inode_at fs m = Some i \<Longrightarrow> is_regular (in_content (fs_inodes fs i))"
  shows "keeps_tree fs fs'" and "fs_ok fs'"
proof -
  show tree: "keeps_tree fs fs'"
  proof (rule keeps_tree_names [OF assms(2) meta_state_nodes [OF assms(1)]])
    fix k i
    assume *: "inode_at fs k = Some i" "inode_at fs' k \<noteq> Some i"
    then have "k = m \<or> k = t" using meta_state_other [OF assms(1)] by metis
    then show "is_regular (in_content (fs_inodes fs i))"
      using * assms(1,3) by (auto simp: meta_state_def meta_grown_def)
  qed
  show "fs_ok fs'"
  proof (rule fs_ok_keeps [OF assms(2) tree])
    fix k i
    assume "inode_at fs' k = Some i"
    then show "i < fs_next fs'"
      using assms(1) fs_okD [OF assms(2), of k i] fs_okD [OF assms(2), of m i]
      by (auto simp: meta_state_def meta_grown_def less_Suc_eq split: if_splits)
  qed
qed

lemma meta_place_locate:
  assumes "meta_place dest temp m t fs" and "meta_state m t fs fs'"
  shows "locate fs' dest = Some m" and "locate fs' temp = Some t" and "keeps_tree fs fs'" and "fs_ok fs'"
proof -
  show tree: "keeps_tree fs fs'" and "fs_ok fs'" using meta_state_tree [OF assms(2)] assms(1) by (auto simp: meta_place_def)
  show "locate fs' dest = Some m" "locate fs' temp = Some t"
    using locate_keeps [OF tree] assms(1) by (auto simp: meta_place_def)
qed

lemma meta_grownI:
  assumes "inode_at fs t = None" and "same_nodes fs fs'" and "fs_next fs' = Suc (fs_next fs)"
    and "is_regular (in_content (fs_inodes fs' (fs_next fs)))" and "inode_at fs' = (inode_at fs)(m := a, t := b)"
    and "a = inode_at fs m \<or> a = Some (fs_next fs)" and "b = None \<or> b = Some (fs_next fs)"
  shows "meta_grown m t fs fs'"
  using assms unfolding meta_grown_def by blast

lemma created_meta: "created t fs fs' \<Longrightarrow> m \<noteq> t \<Longrightarrow> meta_grown m t fs fs'"
  by (rule meta_grownI [where a = "inode_at fs m" and b = "Some (fs_next fs)"]) (auto simp: created_def)

lemma meta_grown_renamed:
  assumes "meta_grown m t fs fs'" and "renamed ((inode_at fs')(t := None)) fs' fs''" and "m \<noteq> t"
  shows "meta_grown m t fs fs''" and "inode_at fs'' m = inode_at fs' m" and "inode_at fs'' t = None"
proof -
  obtain a b where ab: "inode_at fs' = (inode_at fs)(m := a, t := b)" "a = inode_at fs m \<or> a = Some (fs_next fs)"
    using assms(1) unfolding meta_grown_def by blast
  have "in_content (fs_inodes fs'' (fs_next fs)) = in_content (fs_inodes fs' (fs_next fs))"
    using assms(1,2) by (intro same_nodes_content) (auto simp: meta_grown_def renamed_def)
  then show "meta_grown m t fs fs''"
    using assms(1,2) ab by (intro meta_grownI [where a = a and b = None])
      (auto simp: meta_grown_def renamed_def intro: same_nodes_trans)
  show "inode_at fs'' m = inode_at fs' m" "inode_at fs'' t = None" using assms(2,3) by (auto simp: renamed_def)
qed

lemma meta_unlink:
  assumes "quiet s" and "meta_place dest temp m t fs" and "meta_grown m t fs (qs_fs s)"
    and "q_unlink_missing_ok temp s = (r, s')"
  shows "fs_step s s' \<and> quiet s' \<and> meta_grown m t fs (qs_fs s') \<and> (\<forall>e. r = Inl e \<longrightarrow> is_errno e) \<and>
    inode_at (qs_fs s') m = inode_at (qs_fs s) m"
proof -
  note u = quiet_specD [OF q_unlink_missing_ok_spec assms(1,4)]
  have st: "meta_state m t fs (qs_fs s)" and ne: "m \<noteq> t" using assms(2,3) by (simp_all add: meta_state_def meta_place_def)
  show ?thesis
  proof (cases r)
    case (Inl e)
    then show ?thesis using u assms(3) by simp
  next
    case (Inr x)
    then have ren: "renamed ((inode_at (qs_fs s))(t := None)) (qs_fs s) (qs_fs s')"
      using u(1) meta_place_locate(2) [OF assms(2) st] by simp
    then show ?thesis using meta_grown_renamed [OF assms(3) ren ne] u Inr by simp
  qed
qed

text \<open>A step guarded by the removal of the temporary file.\<close>

lemma or_unlink_meta:
  assumes "quiet s" and "meta_place dest temp m t fs" and "or_unlink temp M s = (r, s')"
    and M: "\<And>q u. M s = (q, u) \<Longrightarrow> fs_step s u \<and> quiet u \<and> meta_grown m t fs (qs_fs u) \<and> (\<forall>e. q = Inl e \<longrightarrow> is_errno e)"
  shows "fs_step s s' \<and> quiet s' \<and> meta_grown m t fs (qs_fs s') \<and> (\<forall>e. r = Inl e \<longrightarrow> is_errno e) \<and>
    (\<forall>x. r = Inr x \<longrightarrow> M s = (Inr x, s'))"
  using assms(3) unfolding or_unlink_def
proof (cases rule: eff_catch_cases)
  case (returned x)
  then show ?thesis using M [OF returned(1)] by simp
next
  case (raised e u)
  note Mu = M [OF raised(1)]
  from raised(2) obtain q where un: "q_unlink_missing_ok temp u = (q, s')" "\<exists>e. r = Inl e \<and> (q = Inr () \<longrightarrow> r = Inl e)"
      "\<And>d. r = Inl d \<Longrightarrow> d = e \<or> q = Inl d"
    by (auto elim!: eff_bind_cases)
  have gr: "meta_grown m t fs (qs_fs u)" and qu: "quiet u" using Mu by auto
  from meta_unlink [OF qu assms(2) gr un(1)] Mu un(2,3) fs_step_trans show ?thesis by fastforce
qed

text \<open>Filling the new temporary file.\<close>

lemma fill_temporary:
  assumes q: "quiet s" and new: "created t fs (qs_fs s)" and fd: "fd = fs_next fs" and empty: "inode_bytes (qs_fs s) fd = []"
    and run: "eff_bind (write_all fd 0 b) (\<lambda>_. eff_bind (q_fchmod 384 fd) (\<lambda>_. q_fsync)) s = (r, s')"
  shows "fs_step s s' \<and> quiet s' \<and> created t fs (qs_fs s') \<and> (\<forall>e. r = Inl e \<longrightarrow> is_errno e) \<and>
    (\<forall>x. r = Inr x \<longrightarrow> in_content (fs_inodes (qs_fs s') fd) = RegularFile b)"
proof -
  have reg: "is_regular (in_content (fs_inodes (qs_fs s) fd))" using new fd by (simp add: created_def)
  have len: "length (inode_bytes (qs_fs s) fd) = 0" using empty by simp
  from run show ?thesis
  proof (cases rule: eff_bind_cases)
    case (raised e)
    note w = write_all_effect [OF q raised(1) len reg]
    then show ?thesis using created_extend [OF new] fd raised(2) by (simp add: extends_def)
  next
    case (returned x u)
    note w = write_all_effect [OF q returned(1) len reg]
    have new2: "created t fs (qs_fs u)" and reg2: "is_regular (in_content (fs_inodes (qs_fs u) fd))"
      using created_extend [OF new] w fd by (auto simp: extends_def)
    have bytes: "in_content (fs_inodes (qs_fs u) fd) = RegularFile b"
      using inode_bytes_regular [OF reg2] w empty by simp
    have qu: "quiet u" and st: "fs_step s u" using w by auto
    from returned(2) show ?thesis
    proof (cases rule: eff_bind_cases)
      case (raised e)
      then show ?thesis using callsD [OF q_fchmod_spec qu raised(1)] new2 fs_step_trans [OF st] by auto
    next
      case (returned y v)
      note ch = callsD [OF q_fchmod_spec qu returned(1)]
      have fsv: "qs_fs v = sys_fchmod 384 fd (qs_fs u)" using ch(3) [OF refl] .
      have new3: "created t fs (qs_fs v)" using created_extend [OF new2] reg2 fd by (simp add: fsv sys_fchmod_effect)
      show ?thesis
        using looksD [OF q_fsync_looks ch(2) returned(2)] new3 bytes fs_step_trans [OF fs_step_trans [OF st ch(1)]]
        by (auto simp: fsv sys_fchmod_effect)
    qed
  qed
qed

text \<open>Putting it in place of the metadata file.\<close>

lemma publish_temporary:
  assumes q: "quiet s" and place: "meta_place dest temp m t fs" and new: "created t fs (qs_fs s)"
    and run: "eff_bind (q_call (unit_call (sys_replace temp dest))) (\<lambda>_.
       eff_bind (q_call (unit_call (sys_chmod 384 dest))) (\<lambda>_. fsync_directory d)) s = (r, s')"
  shows "fs_step s s' \<and> quiet s' \<and> meta_grown m t fs (qs_fs s') \<and> (\<forall>e. r = Inl e \<longrightarrow> is_errno e) \<and>
    (\<forall>x. r = Inr x \<longrightarrow> inode_at (qs_fs s') = (inode_at fs)(m := Some (fs_next fs)) \<and>
       in_content (fs_inodes (qs_fs s') (fs_next fs)) = in_content (fs_inodes (qs_fs s) (fs_next fs)) \<and>
       in_mode (fs_inodes (qs_fs s') (fs_next fs)) = 384)"
proof -
  have ne: "m \<noteq> t" using place by (simp add: meta_place_def)
  note grown = created_meta [OF new ne]
  note loc = meta_place_locate [OF place grown_state [OF grown]]
  let ?i = "fs_next fs"
  have fresh: "inode_at fs m \<noteq> Some ?i" "inode_at fs t = None"
    using place fs_okD [of fs m ?i] new by (auto simp: meta_place_def created_def)
  have names: "inode_at (qs_fs s) = (inode_at fs)(t := Some ?i)" using new by (simp add: created_def)
  have reg: "is_regular (in_content (fs_inodes (qs_fs s) ?i))" using new by (simp add: created_def)
  from run show ?thesis
  proof (cases rule: eff_bind_cases)
    case (raised e)
    then show ?thesis using callsD [OF unit_call_calls q raised(1)] grown by auto
  next
    case (returned x u)
    note c = callsD [OF unit_call_calls q returned(1)]
    have ren: "renamed ((inode_at (qs_fs s))(t := None, m := Some ?i)) (qs_fs s) (qs_fs u)"
      using sys_replace_effect [OF c(3) [OF refl] loc(2,1)] names ne fresh regular_not_link [OF reg]
      by (auto simp: renamed_def)
    have nu: "inode_at (qs_fs u) = (inode_at fs)(m := Some ?i)" using ren names ne fresh(2) by (auto simp: renamed_def)
    have cu: "in_content (fs_inodes (qs_fs u) ?i) = in_content (fs_inodes (qs_fs s) ?i)"
      using ren new by (intro same_nodes_content) (auto simp: renamed_def created_def)
    have sn: "same_nodes fs (qs_fs u)" "fs_next (qs_fs u) = Suc ?i"
      using ren new by (auto simp: renamed_def created_def intro: same_nodes_trans)
    have gu: "meta_grown m t fs (qs_fs u)"
      using sn nu cu reg fresh(2) ne by (intro meta_grownI [where a = "Some ?i" and b = None]) auto
    note lu = meta_place_locate [OF place grown_state [OF gu]]
    from returned(2) show ?thesis
    proof (cases rule: eff_bind_cases)
      case (raised e)
      then show ?thesis using callsD [OF unit_call_calls c(2) raised(1)] gu fs_step_trans [OF c(1)] by auto
    next
      case (returned y v)
      note ch = callsD [OF unit_call_calls c(2) returned(1)]
      have "sys_open_follow dest (qs_fs u) = Inr ?i"
        using place nu cu reg by (intro open_follow_regular [OF lu(1)]) (auto simp: meta_place_def)
      then have fsv: "qs_fs v = sys_fchmod 384 ?i (qs_fs u)" using ch(3) [OF refl] by (simp add: sys_chmod_def)
      have only: "only_inode ?i (qs_fs u) (qs_fs v)" by (simp add: fsv sys_fchmod_effect)
      have nv: "inode_at (qs_fs v) = (inode_at fs)(m := Some ?i)" using only_inode_at [OF only] nu by simp
      have "same_nodes fs (qs_fs v)" using sn only by (auto simp: same_nodes_def only_inode_def)
      then have gv: "meta_grown m t fs (qs_fs v)"
        using sn nv cu reg fresh(2) ne only by (intro meta_grownI [where a = "Some ?i" and b = None])
          (auto simp: only_inode_def fsv sys_fchmod_effect)
      show ?thesis
        using looksD [OF fsync_directory_looks ch(2) returned(2)] gv nv cu fs_step_trans [OF fs_step_trans [OF c(1) ch(1)]]
        by (auto simp: fsv sys_fchmod_effect)
    qed
  qed
qed

text \<open>The errors that come from the record and not from the file system.\<close>

definition record_error :: "q_env \<Rightarrow> pydict \<Rightarrow> q_exc \<Rightarrow> bool" where
  "record_error env r e \<longleftrightarrow> validate_record env r = Inl e \<or> metadata_bytes env r = Inl e \<or> validate_quarantine_id (py_get r ''quarantine_id'') = Inl e"

lemma place_lookup: "meta_place dest temp m t fs \<Longrightarrow> lookup fs dest = inode_at fs m"
  by (simp add: meta_place_def lookup_def)

lemma destination_check:
  assumes "meta_place dest temp m t fs"
  shows "looks (if there then eff_bind (q_lstat dest) (\<lambda>st.
         if is_link (st_content st) \<or> \<not> is_regular (st_content st)
         then eff_raise (QuarantineMetadataError ''Metadata destination is not a regular file'') else eff_return ())
       else eff_return ()) (\<lambda>_ _. True) (\<lambda>e. is_errno e \<or> e = QuarantineMetadataError ''Metadata destination is not a regular file'')"
  by (auto intro!: looks_return looks_raise looks_bind [OF looks_mono [OF q_lstat_looks, where Q' = "\<lambda>_ _. True"]])

lemma destination_passes:
  assumes "quiet s" and "meta_place dest temp m t (qs_fs s)"
    and "(if there then eff_bind (q_lstat dest) (\<lambda>st.
         if is_link (st_content st) \<or> \<not> is_regular (st_content st)
         then eff_raise (QuarantineMetadataError ''Metadata destination is not a regular file'') else eff_return ())
       else eff_return ()) s = (Inl e, s')"
  shows "is_errno e"
proof -
  from assms(3) have "eff_bind (q_lstat dest) (\<lambda>st.
         if is_link (st_content st) \<or> \<not> is_regular (st_content st)
         then eff_raise (QuarantineMetadataError ''Metadata destination is not a regular file'') else eff_return ()) s = (Inl e, s')"
    by (cases there) auto
  then show ?thesis
  proof (cases rule: eff_bind_cases)
    case (raised e')
    then show ?thesis using looksD(5) [OF q_lstat_looks assms(1) raised(1) refl] by simp
  next
    case (returned st u)
    obtain i where i: "lookup (qs_fs s) dest = Some i" "st = stat_of (qs_fs s) i"
      using looksD(4) [OF q_lstat_looks assms(1) returned(1) refl] by blast
    then have "is_regular (st_content st)"
      using assms(2) place_lookup [OF assms(2)] by (simp add: meta_place_def stat_of_def Let_def)
    then show ?thesis using returned(2) regular_not_link by auto
  qed
qed

text \<open>The part of the write after the checks.\<close>

definition store_bytes :: "q_env \<Rightarrow> path \<Rightarrow> path \<Rightarrow> path \<Rightarrow> string \<Rightarrow> unit q_op" where
  "store_bytes env d temp dest b = eff_bind (q_open_excl env 384 temp) (\<lambda>fd.
     eff_bind (or_unlink temp (eff_bind (write_all fd 0 b) (\<lambda>_. eff_bind (q_fchmod 384 fd) (\<lambda>_. q_fsync)))) (\<lambda>_.
     or_unlink temp (eff_bind (q_call (unit_call (sys_replace temp dest))) (\<lambda>_.
       eff_bind (q_call (unit_call (sys_chmod 384 dest))) (\<lambda>_. fsync_directory d)))))"

definition stored :: "path \<Rightarrow> string \<Rightarrow> fsys \<Rightarrow> fsys \<Rightarrow> bool" where
  "stored m b fs fs' \<longleftrightarrow> inode_at fs' = (inode_at fs)(m := Some (fs_next fs)) \<and> fs_next fs' = Suc (fs_next fs) \<and> same_nodes fs fs' \<and>
     in_content (fs_inodes fs' (fs_next fs)) = RegularFile b \<and> in_mode (fs_inodes fs' (fs_next fs)) = 384"

lemma store_bytes_effect:
  assumes q: "quiet s" and pl: "meta_place dest temp m t (qs_fs s)" and run: "store_bytes env d temp dest b s = (res, s')"
  shows "fs_step s s' \<and> quiet s' \<and> meta_state m t (qs_fs s) (qs_fs s') \<and>
    (\<forall>e. res = Inl e \<longrightarrow> is_errno e) \<and> (\<forall>x. res = Inr x \<longrightarrow> stored m b (qs_fs s) (qs_fs s'))"
proof -
  let ?fs = "qs_fs s"
  have ne: "m \<noteq> t" and t: "locate ?fs temp = Some t" using pl by (simp_all add: meta_place_def)
  from run show ?thesis unfolding store_bytes_def
  proof (cases rule: eff_bind_cases)
    case (raised e)
    then show ?thesis using callsD [OF q_open_excl_spec q raised(1)] by auto
  next
    case (returned fd s4)
    note o = callsD [OF q_open_excl_spec q returned(1)]
    have fd: "fd = fs_next ?fs" and new: "created t ?fs (qs_fs s4)" and empty: "inode_bytes (qs_fs s4) fd = []"
      using o(3) [OF refl] t by auto
    note fill = fill_temporary [OF o(2) new fd empty]
    from returned(2) show ?thesis
    proof (cases rule: eff_bind_cases)
      case (raised e)
      have "fs_step s4 s' \<and> quiet s' \<and> meta_grown m t ?fs (qs_fs s') \<and> is_errno e"
        using or_unlink_meta [OF o(2) pl raised(1)] fill created_meta [OF _ ne] by blast
      then show ?thesis using raised(2) fs_step_trans [OF o(1)] grown_state by auto
    next
      case (returned y s5)
      have "eff_bind (write_all fd 0 b) (\<lambda>_. eff_bind (q_fchmod 384 fd) (\<lambda>_. q_fsync)) s4 = (Inr y, s5)"
        using or_unlink_meta [OF o(2) pl returned(1)] fill created_meta [OF _ ne] by blast
      note f = fill [OF this]
      have q5: "quiet s5" and new5: "created t ?fs (qs_fs s5)" and st5: "fs_step s s5"
        using f fs_step_trans [OF o(1)] by auto
      note pub = publish_temporary [OF q5 pl new5]
      note ou = or_unlink_meta [OF q5 pl returned(2)]
      show ?thesis
      proof (cases res)
        case (Inl e)
        then show ?thesis using ou pub fs_step_trans [OF st5] grown_state by auto
      next
        case (Inr z)
        then have "eff_bind (q_call (unit_call (sys_replace temp dest))) (\<lambda>_.
            eff_bind (q_call (unit_call (sys_chmod 384 dest))) (\<lambda>_. fsync_directory d)) s5 = (Inr z, s')"
          using ou pub by blast
        note p = pub [OF this]
        then have "meta_state m t ?fs (qs_fs s')" using grown_state by blast
        moreover have "stored m b ?fs (qs_fs s')" using p f fd Inr by (simp add: stored_def meta_grown_def)
        ultimately show ?thesis using p Inr fs_step_trans [OF st5] by auto
      qed
    qed
  qed
qed

definition meta_written :: "q_env \<Rightarrow> pydict \<Rightarrow> path \<Rightarrow> path \<Rightarrow> fsys \<Rightarrow> q_exc + unit \<Rightarrow> fsys \<Rightarrow> bool" where
  "meta_written env r m t fs res fs' \<longleftrightarrow> meta_state m t fs fs' \<and>
     (case res of
        Inl e \<Rightarrow> is_errno e \<or> record_error env r e
      | Inr _ \<Rightarrow> validate_record env r = Inr () \<and> (\<exists>b. metadata_bytes env r = Inr b \<and> stored m b fs fs'))"

lemma write_metadata_atomic_effect:
  assumes q: "quiet s" and run: "write_metadata_atomic env cfg u r s = (res, s')"
    and place: "\<And>dest. metadata_path cfg (py_get r ''quarantine_id'') = Inr dest \<Longrightarrow>
      meta_place dest (qc_metadata_dir cfg @ [temporary_name (text_of_id r) u]) m t (qs_fs s)"
  shows "fs_step s s' \<and> quiet s' \<and> meta_written env r m t (qs_fs s) res (qs_fs s')"
proof (cases "validate_record env r")
  case (Inl e)
  then have "res = Inl e" "s' = s" using run by (simp_all add: write_metadata_atomic_def eff_bind_def)
  then show ?thesis using Inl q by (simp add: meta_written_def record_error_def)
next
  case (Inr x)
  note valid = this
  then obtain dest where dest: "metadata_path cfg (py_get r ''quarantine_id'') = Inr dest"
    by (auto simp: validate_record_def metadata_path_def res_bind_eq_Inr)
  note pl = place [OF dest]
  obtain r2 s2 where two: "q_lexists dest s = (r2, s2)" by (cases "q_lexists dest s")
  note l2 = looksD [OF q_lexists_looks [where E = "\<lambda>_. False"] q two]
  then obtain there where r2: "r2 = Inr there" by (cases r2) auto
  let ?check = "if there then eff_bind (q_lstat dest) (\<lambda>st.
       if is_link (st_content st) \<or> \<not> is_regular (st_content st)
       then eff_raise (QuarantineMetadataError ''Metadata destination is not a regular file'') else eff_return ())
     else eff_return ()"
  obtain r3 s3 where three: "?check s2 = (r3, s3)" by (cases "?check s2")
  note l3 = looksD [OF destination_check [OF pl] l2(3) three]
  have fs3: "qs_fs s3 = qs_fs s" and st3: "fs_step s s3" using l3(1) l2(1) fs_step_trans [OF l2(2) l3(2)] by simp_all
  note start = run valid dest two r2 three
  consider (bad) e where "r3 = Inl e" | (unprintable) e where "r3 = Inr ()" "metadata_bytes env r = Inl e"
    | (ok) b where "r3 = Inr ()" "metadata_bytes env r = Inr b"
    by (cases r3; cases "metadata_bytes env r") auto
  then show ?thesis
  proof cases
    case (bad e)
    then have "res = Inl e" "s' = s3" using start by (simp_all add: write_metadata_atomic_def eff_bind_def)
    then show ?thesis
      using destination_passes [OF l2(3) _ three [unfolded bad]] pl l2(1) fs3 st3 l3(3) by (simp add: meta_written_def)
  next
    case (unprintable e)
    then have "res = Inl e" "s' = s3" using start by (simp_all add: write_metadata_atomic_def eff_bind_def)
    then show ?thesis using unprintable fs3 st3 l3(3) by (simp add: meta_written_def record_error_def)
  next
    case (ok b)
    then have "store_bytes env (qc_metadata_dir cfg) (qc_metadata_dir cfg @ [temporary_name (text_of_id r) u]) dest b s3 = (res, s')"
      using start by (simp add: write_metadata_atomic_def store_bytes_def eff_bind_def Let_def)
    from store_bytes_effect [OF l3(3) _ this] pl
    show ?thesis using fs3 st3 fs_step_trans [OF st3] ok(2) valid by (cases res) (auto simp: meta_written_def)
  qed
qed

end
