(* ===== verification/Quarantine_Run.thy ===== *)
theory Quarantine_Run
  imports Quarantine_Metadata
begin

text \<open>
  One run of \<open>quarantine_file\<close> without interference. Six names take part: the source, its holding name
  beside it, the temporary and the final payload, the metadata file and its temporary file. A valuation
  \<open>V\<close> says which inode each of them has; \<open>q_state\<close> says that the file system is the initial one but for
  these names. Each step of the run is a triple over such states.
\<close>

section \<open>The names of a run\<close>

datatype q_name = KSrc | KHold | KTmp | KPay | KMeta | KMtmp

definition id_text :: "draws \<Rightarrow> string" where
  "id_text dr = uuid_text (dr_id dr)"

fun q_path :: "q_cfg \<Rightarrow> draws \<Rightarrow> path \<Rightarrow> q_name \<Rightarrow> path" where
  "q_path cfg dr source KSrc = source"
| "q_path cfg dr source KHold = butlast source @ [''.elyra-'' @ id_text dr @ ''.pending'']"
| "q_path cfg dr source KTmp = qc_quarantine_dir cfg @ [temporary_name (id_text dr) (dr_payload dr)]"
| "q_path cfg dr source KPay = qc_quarantine_dir cfg @ [id_text dr]"
| "q_path cfg dr source KMeta = qc_metadata_dir cfg @ [id_text dr @ ''.json'']"
| "q_path cfg dr source KMtmp = qc_metadata_dir cfg @ [temporary_name (id_text dr) (dr_metadata dr)]"

text \<open>
  The start of a run: \<open>rc\<close> holds the real paths of the two directories, the source is a regular file under
  its canonical path, and the drawn identifiers are new.
\<close>

definition ready :: "q_cfg \<Rightarrow> q_cfg \<Rightarrow> draws \<Rightarrow> path \<Rightarrow> nat \<Rightarrow> fsys \<Rightarrow> bool" where
  "ready cfg rc dr source i fs \<longleftrightarrow>
     dr_id dr < 2 ^ 128 \<and> fs_ok fs \<and>
     realpath fs (qc_quarantine_dir cfg) = Some (qc_quarantine_dir rc) \<and> is_dir fs (qc_quarantine_dir rc) \<and>
     realpath fs (qc_metadata_dir cfg) = Some (qc_metadata_dir rc) \<and> is_dir fs (qc_metadata_dir rc) \<and>
     source \<noteq> [] \<and> last source \<noteq> ''..'' \<and>
     realpath fs (butlast source) = Some (butlast source) \<and> is_dir fs (butlast source) \<and>
     inode_at fs source = Some i \<and> is_regular (in_content (fs_inodes fs i)) \<and>
     (\<forall>n. n \<noteq> KSrc \<longrightarrow> inode_at fs (q_path rc dr source n) = None) \<and>
     q_path rc dr source KTmp \<noteq> q_path rc dr source KMtmp"

lemma name_lengths:
  "length (id_text dr) = 36" "length (temporary_name (id_text dr) u) = 74"
  by (simp_all add: id_text_def temporary_name_def uuid_text_length)

lemma q_path_last:
  "length (last (q_path cfg dr source KHold)) = 51" "length (last (q_path cfg dr source KTmp)) = 74"
  "length (last (q_path cfg dr source KPay)) = 36" "length (last (q_path cfg dr source KMeta)) = 41"
  "length (last (q_path cfg dr source KMtmp)) = 74"
  by (simp_all add: name_lengths)

lemma q_path_dots: "n \<noteq> KSrc \<Longrightarrow> last (q_path cfg dr source n) \<noteq> ''..'' \<and> q_path cfg dr source n \<noteq> []"
proof -
  assume "n \<noteq> KSrc"
  then have "length (last (q_path cfg dr source n)) \<noteq> 2" by (cases n) (simp_all add: q_path_last del: q_path.simps)
  then have "last (q_path cfg dr source n) \<noteq> ''..''" by auto
  then show ?thesis using \<open>n \<noteq> KSrc\<close> by (cases n) simp_all
qed

lemma ready_inj:
  assumes "ready cfg rc dr source i fs"
  shows "inj (q_path rc dr source)"
proof (rule injI)
  fix n k
  assume eq: "q_path rc dr source n = q_path rc dr source k"
  then have "length (last (q_path rc dr source n)) = length (last (q_path rc dr source k))" by simp
  moreover have "q_path rc dr source KTmp \<noteq> q_path rc dr source KMtmp" and
    "\<And>n. n \<noteq> KSrc \<Longrightarrow> q_path rc dr source n \<noteq> q_path rc dr source KSrc"
    using assms by (auto simp: ready_def)
  ultimately show "n = k" using eq by (cases n; cases k) (metis | simp add: q_path_last del: q_path.simps)+
qed

section \<open>States of a run\<close>

type_synonym valuation = "q_name \<Rightarrow> nat option"

definition fits :: "fsys \<Rightarrow> nat \<Rightarrow> valuation \<Rightarrow> fsys \<Rightarrow> bool" where
  "fits fs0 i V fs \<longleftrightarrow> V KSrc \<in> {None, Some i} \<and> V KHold \<in> {None, Some i} \<and>
     (\<forall>n j. n \<noteq> KSrc \<longrightarrow> n \<noteq> KHold \<longrightarrow> V n = Some j \<longrightarrow>
        fs_next fs0 \<le> j \<and> j < fs_next fs \<and> is_regular (in_content (fs_inodes fs j)))"

text \<open>\<open>W\<close>: inodes whose bytes and permissions are known.\<close>

definition known :: "(nat \<times> string \<times> nat) set \<Rightarrow> fsys \<Rightarrow> bool" where
  "known W fs \<longleftrightarrow> (\<forall>j b m. (j, b, m) \<in> W \<longrightarrow> j < fs_next fs \<and> in_content (fs_inodes fs j) = RegularFile b \<and> in_mode (fs_inodes fs j) = m)"

lemma known_empty [simp]: "known {} fs"
  by (simp add: known_def)

lemma known_insert: "known (insert (j, b, m) W) fs \<longleftrightarrow>
    known W fs \<and> j < fs_next fs \<and> in_content (fs_inodes fs j) = RegularFile b \<and> in_mode (fs_inodes fs j) = m"
  by (auto simp: known_def)

lemma known_same:
  assumes "known W fs" and "same_nodes fs fs'"
  shows "known W fs'"
  unfolding known_def
proof (intro allI impI)
  fix j b m
  assume "(j, b, m) \<in> W"
  then have j: "j < fs_next fs" "in_content (fs_inodes fs j) = RegularFile b" "in_mode (fs_inodes fs j) = m"
    using assms(1) by (auto simp: known_def)
  then have "same_node (fs_inodes fs j) (fs_inodes fs' j)" "fs_next fs \<le> fs_next fs'" using assms(2) by (auto simp: same_nodes_def)
  then show "j < fs_next fs' \<and> in_content (fs_inodes fs' j) = RegularFile b \<and> in_mode (fs_inodes fs' j) = m"
    using j same_node_fields(1,2) [of "fs_inodes fs j" "fs_inodes fs' j"] by simp
qed

definition q_state ::
  "q_cfg \<Rightarrow> draws \<Rightarrow> path \<Rightarrow> fsys \<Rightarrow> nat \<Rightarrow> valuation \<Rightarrow> (nat \<times> string \<times> nat) set \<Rightarrow> fsys \<Rightarrow> bool" where
  "q_state rc dr source fs0 i V W fs \<longleftrightarrow> same_nodes fs0 fs \<and> fits fs0 i V fs \<and>
     (\<forall>n. inode_at fs (q_path rc dr source n) = V n) \<and>
     (\<forall>k. k \<notin> range (q_path rc dr source) \<longrightarrow> inode_at fs k = inode_at fs0 k) \<and> known W fs"

definition start_names :: "nat \<Rightarrow> valuation" where
  "start_names i = (\<lambda>_. None)(KSrc := Some i)"

lemma q_state_start: "ready cfg rc dr source i fs \<Longrightarrow> q_state rc dr source fs i (start_names i) {} fs"
  by (auto simp: q_state_def fits_def start_names_def ready_def)

lemma q_state_tree:
  assumes rdy: "ready cfg rc dr source i fs0" and st: "q_state rc dr source fs0 i V W fs"
  shows "keeps_tree fs0 fs" and "fs_ok fs"
proof -
  have ok: "fs_ok fs0" and nodes: "same_nodes fs0 fs" using rdy st by (simp_all add: ready_def q_state_def)
  show tree: "keeps_tree fs0 fs"
  proof (rule keeps_tree_names [OF ok nodes])
    fix k j
    assume k: "inode_at fs0 k = Some j" "inode_at fs k \<noteq> Some j"
    then have "k \<in> range (q_path rc dr source)" using st by (auto simp: q_state_def)
    then obtain n where n: "k = q_path rc dr source n" by blast
    then have "n = KSrc" using k(1) rdy by (auto simp: ready_def)
    then show "is_regular (in_content (fs_inodes fs0 j))" using n k(1) rdy by (simp add: ready_def)
  qed
  show "fs_ok fs"
  proof (rule fs_ok_keeps [OF ok tree])
    fix k j
    assume k: "inode_at fs k = Some j"
    have le: "fs_next fs0 \<le> fs_next fs" using nodes by (simp add: same_nodes_def)
    have i: "i < fs_next fs0" using rdy fs_okD [OF ok] by (auto simp: ready_def)
    show "j < fs_next fs"
    proof (cases "k \<in> range (q_path rc dr source)")
      case True
      then obtain n where "V n = Some j" using st k by (auto simp: q_state_def)
      then show ?thesis using st i le by (cases n) (auto simp: q_state_def fits_def)
    next
      case False
      then have "inode_at fs0 k = Some j" using st k by (simp add: q_state_def)
      then show ?thesis using fs_okD [OF ok] le by fastforce
    qed
  qed
qed

lemma q_state_locate:
  assumes rdy: "ready cfg rc dr source i fs0" and st: "q_state rc dr source fs0 i V W fs"
  shows "locate fs (q_path cfg dr source n) = Some (q_path rc dr source n)" and "last (q_path cfg dr source n) \<noteq> ''..''"
    and "q_path cfg dr source n \<noteq> []"
proof -
  show last: "last (q_path cfg dr source n) \<noteq> ''..''" and ne: "q_path cfg dr source n \<noteq> []"
    using rdy q_path_dots [of n] by (cases "n = KSrc"; simp add: ready_def)+
  have split: "q_path cfg dr source n = butlast (q_path cfg dr source n) @ [last (q_path cfg dr source n)]"
    using ne by simp
  have "locate fs0 (butlast (q_path cfg dr source n) @ [last (q_path cfg dr source n)]) = Some (q_path rc dr source n)"
    using rdy last by (subst locate_in [where r = "butlast (q_path rc dr source n)"]) (cases n; auto simp: ready_def)+
  then have "locate fs0 (q_path cfg dr source n) = Some (q_path rc dr source n)" using split by simp
  then show "locate fs (q_path cfg dr source n) = Some (q_path rc dr source n)"
    using locate_keeps [OF q_state_tree(1) [OF assms] last] by blast
qed

declare q_path.simps [simp del]

section \<open>Transitions\<close>

lemma fits_nodes: "fits fs0 i V fs \<Longrightarrow> same_nodes fs fs' \<Longrightarrow> fits fs0 i V fs'"
  unfolding fits_def by (metis order_less_le_trans same_nodes_content same_nodes_def)

lemma fits_None: "fits fs0 i V fs \<Longrightarrow> fits fs0 i (V(n := None)) fs"
  by (auto simp: fits_def)

lemma fits_same: "fits fs0 i V fs \<Longrightarrow> n = KSrc \<or> n = KHold \<Longrightarrow> fits fs0 i (V(n := Some i)) fs"
  by (auto simp: fits_def)

lemma fits_new:
  "fits fs0 i V fs \<Longrightarrow> n \<noteq> KSrc \<Longrightarrow> n \<noteq> KHold \<Longrightarrow> fs_next fs0 \<le> j \<Longrightarrow> j < fs_next fs \<Longrightarrow>
     is_regular (in_content (fs_inodes fs j)) \<Longrightarrow> fits fs0 i (V(n := Some j)) fs"
  by (auto simp: fits_def)

lemma fits_extra:
  "fits fs0 i V fs \<Longrightarrow> V a = Some j \<Longrightarrow> a \<noteq> KSrc \<Longrightarrow> a \<noteq> KHold \<Longrightarrow> b \<noteq> KSrc \<Longrightarrow> b \<noteq> KHold \<Longrightarrow> fits fs0 i (V(b := Some j)) fs"
  by (auto simp: fits_def)

lemma q_state_names:
  assumes st: "q_state rc dr source fs0 i V W fs" and nodes: "same_nodes fs fs'"
    and names: "\<And>n. inode_at fs' (q_path rc dr source n) = V' n"
    and other: "\<And>k. k \<notin> range (q_path rc dr source) \<Longrightarrow> inode_at fs' k = inode_at fs k"
    and fits: "fits fs0 i V' fs'"
  shows "q_state rc dr source fs0 i V' W fs'"
proof -
  have "same_nodes fs0 fs'" "known W fs'" using st nodes same_nodes_trans known_same by (auto simp: q_state_def)
  then show ?thesis using st names other fits unfolding q_state_def by simp
qed

text \<open>A change of names inside the run.\<close>

lemma q_state_renamed:
  assumes rdy: "ready cfg rc dr source i fs0" and st: "q_state rc dr source fs0 i V W fs"
    and ren: "renamed ((inode_at fs)(q_path rc dr source a := x)) fs fs'" and fits: "fits fs0 i (V(a := x)) fs"
  shows "q_state rc dr source fs0 i (V(a := x)) W fs'"
proof (rule q_state_names [OF st])
  show "fits fs0 i (V(a := x)) fs'" using fits fits_nodes ren by (auto simp: renamed_def)
  show "same_nodes fs fs'" using ren by (simp add: renamed_def)
  show "inode_at fs' (q_path rc dr source n) = (V(a := x)) n" for n
    using ren st injD [OF ready_inj [OF rdy], of n a] by (auto simp: renamed_def q_state_def)
  show "inode_at fs' k = inode_at fs k" if "k \<notin> range (q_path rc dr source)" for k
    using ren that by (auto simp: renamed_def)
qed

lemma q_state_renamed2:
  assumes rdy: "ready cfg rc dr source i fs0" and st: "q_state rc dr source fs0 i V W fs" and ne: "a \<noteq> b"
    and ren: "renamed ((inode_at fs)(q_path rc dr source a := x, q_path rc dr source b := y)) fs fs'"
    and fits: "fits fs0 i (V(a := x, b := y)) fs"
  shows "q_state rc dr source fs0 i (V(a := x, b := y)) W fs'"
proof (rule q_state_names [OF st])
  show "fits fs0 i (V(a := x, b := y)) fs'" using fits fits_nodes ren by (auto simp: renamed_def)
  show "same_nodes fs fs'" using ren by (simp add: renamed_def)
  show "inode_at fs' (q_path rc dr source n) = (V(a := x, b := y)) n" for n
    using ren st injD [OF ready_inj [OF rdy], of n a] injD [OF ready_inj [OF rdy], of n b] by (auto simp: renamed_def q_state_def)
  show "inode_at fs' k = inode_at fs k" if "k \<notin> range (q_path rc dr source)" for k
    using ren that by (auto simp: renamed_def)
qed

lemma q_state_same:
  assumes "q_state rc dr source fs0 i V W fs" and "renamed (inode_at fs) fs fs'"
  shows "q_state rc dr source fs0 i V W fs'"
  using assms fits_nodes by (intro q_state_names [OF assms(1)]) (auto simp: renamed_def q_state_def)

lemma q_state_movable:
  assumes rdy: "ready cfg rc dr source i fs0" and st: "q_state rc dr source fs0 i V W fs" and V: "V a = Some j" and ne: "a \<noteq> b"
  shows "movable fs (q_path cfg dr source a) (q_path cfg dr source b) (q_path rc dr source a) (q_path rc dr source b) j"
proof -
  have "is_regular (in_content (fs_inodes fs j))"
  proof (cases "a = KSrc \<or> a = KHold")
    case True
    then have "j = i" using st V by (auto simp: q_state_def fits_def)
    moreover have "i < fs_next fs0" using rdy by (auto simp: ready_def intro: fs_okD)
    ultimately show ?thesis using rdy st same_nodes_content [of fs0 fs i] by (simp add: ready_def q_state_def)
  next
    case False
    then show ?thesis using st V by (auto simp: q_state_def fits_def)
  qed
  moreover have "q_path rc dr source a \<noteq> q_path rc dr source b" using ne injD [OF ready_inj [OF rdy]] by blast
  ultimately show ?thesis
    using q_state_tree(2) [OF rdy st] q_state_locate [OF rdy st] st V by (simp add: movable_def q_state_def)
qed

lemma q_state_moved:
  assumes rdy: "ready cfg rc dr source i fs0" and st: "q_state rc dr source fs0 i V W fs" and V: "V a = Some j" and ne: "a \<noteq> b"
    and fits: "fits fs0 i (V(b := Some j)) fs" and mv: "moved (q_path rc dr source a) (q_path rc dr source b) j fs r fs'"
  shows "case r of
      Inr _ \<Rightarrow> V b = None \<and> q_state rc dr source fs0 i (V(a := None, b := Some j)) W fs'
    | Inl e \<Rightarrow> (is_errno e \<or> e = QuarantineConflictError ''Destination already exists'' \<and> V b \<noteq> None) \<and>
        (q_state rc dr source fs0 i V W fs' \<or> V b = None \<and> q_state rc dr source fs0 i (V(b := Some j)) W fs')"
proof (cases r)
  case (Inl e)
  have Vb: "inode_at fs (q_path rc dr source b) = V b" using st by (simp add: q_state_def)
  have "renamed (inode_at fs) fs fs' \<or> V b = None \<and> renamed ((inode_at fs)(q_path rc dr source b := Some j)) fs fs'"
    and "is_errno e \<or> e = QuarantineConflictError ''Destination already exists'' \<and> V b \<noteq> None"
    using mv Inl unfolding moved_def Vb by simp_all
  moreover have "q_state rc dr source fs0 i V W fs' \<or> V b = None \<and> q_state rc dr source fs0 i (V(b := Some j)) W fs'"
    using calculation(1) q_state_same [OF st] q_state_renamed [OF rdy st _ fits] by blast
  ultimately show ?thesis using Inl by simp
next
  case (Inr u)
  have "fits fs0 i (V(a := None, b := Some j)) fs"
    using fits_None [OF fits, of a] ne by (simp add: fun_upd_twist)
  moreover have "V b = None" "renamed ((inode_at fs)(q_path rc dr source a := None, q_path rc dr source b := Some j)) fs fs'"
    using mv st Inr by (simp_all add: moved_def q_state_def)
  ultimately show ?thesis using Inr q_state_renamed2 [OF rdy st ne] by simp
qed

text \<open>A new file, a change of an inode made by the run, and the metadata write.\<close>

lemma q_state_created:
  assumes rdy: "ready cfg rc dr source i fs0" and st: "q_state rc dr source fs0 i V W fs"
    and new: "created (q_path rc dr source n) fs fs'" and n: "n \<noteq> KSrc" "n \<noteq> KHold"
  shows "q_state rc dr source fs0 i (V(n := Some (fs_next fs))) W fs'"
proof (rule q_state_names [OF st])
  have le: "fs_next fs0 \<le> fs_next fs" using st by (simp add: q_state_def same_nodes_def)
  show nodes: "same_nodes fs fs'" using new by (simp add: created_def)
  have "fits fs0 i V fs'" using fits_nodes [OF _ nodes] st by (simp add: q_state_def)
  then show "fits fs0 i (V(n := Some (fs_next fs))) fs'" using fits_new [OF _ n le] new by (simp add: created_def)
  show "inode_at fs' (q_path rc dr source k) = (V(n := Some (fs_next fs))) k" for k
    using new st injD [OF ready_inj [OF rdy], of k n] by (auto simp: created_def q_state_def)
  show "inode_at fs' k = inode_at fs k" if "k \<notin> range (q_path rc dr source)" for k
    using new that by (auto simp: created_def)
qed

lemma q_state_only:
  assumes st: "q_state rc dr source fs0 i V W fs" and only: "only_inode j fs fs'" and j: "fs_next fs0 \<le> j"
    and reg: "is_regular (in_content (fs_inodes fs' j))" and W: "known W' fs'"
  shows "q_state rc dr source fs0 i V W' fs'"
proof -
  have names: "inode_at fs' = inode_at fs" using only by (rule only_inode_at)
  have nodes: "same_nodes fs0 fs'" using st only j by (auto simp: q_state_def same_nodes_def only_inode_def)
  have "fits fs0 i V fs'" using st only reg unfolding q_state_def fits_def only_inode_def by metis
  then show ?thesis using st names nodes W by (simp add: q_state_def)
qed

lemma q_state_meta:
  assumes rdy: "ready cfg rc dr source i fs0" and st: "q_state rc dr source fs0 i V W fs"
    and meta: "meta_state (q_path rc dr source KMeta) (q_path rc dr source KMtmp) fs fs'"
  shows "\<exists>a b. q_state rc dr source fs0 i (V(KMeta := a, KMtmp := b)) W fs'"
proof (cases "fs' = fs")
  case True
  then have "q_state rc dr source fs0 i (V(KMeta := V KMeta, KMtmp := V KMtmp)) W fs'" using st by simp
  then show ?thesis by blast
next
  case False
  then have grown: "meta_grown (q_path rc dr source KMeta) (q_path rc dr source KMtmp) fs fs'" using meta by (simp add: meta_state_def)
  then obtain a b where ab: "inode_at fs' = (inode_at fs)(q_path rc dr source KMeta := a, q_path rc dr source KMtmp := b)"
      "a = inode_at fs (q_path rc dr source KMeta) \<or> a = Some (fs_next fs)" "b = None \<or> b = Some (fs_next fs)"
    unfolding meta_grown_def by blast
  have nodes: "same_nodes fs fs'" "fs_next fs' = Suc (fs_next fs)" "is_regular (in_content (fs_inodes fs' (fs_next fs)))"
    using grown by (simp_all add: meta_grown_def)
  have le: "fs_next fs0 \<le> fs_next fs" using st by (simp add: q_state_def same_nodes_def)
  have V: "fits fs0 i V fs'" using fits_nodes [OF _ nodes(1)] st by (simp add: q_state_def)
  have new: "fits fs0 i (U(n := Some (fs_next fs))) fs'" if "fits fs0 i U fs'" "n \<noteq> KSrc" "n \<noteq> KHold" for U n
    using fits_new [OF that le] nodes by simp
  have A: "fits fs0 i (V(KMeta := a)) fs'" using ab(2) st V new [OF V, of KMeta] by (auto simp: q_state_def)
  have B: "fits fs0 i (V(KMeta := a, KMtmp := b)) fs'" using ab(3) new [OF A, of KMtmp] fits_None [OF A, of KMtmp] by auto
  have "q_state rc dr source fs0 i (V(KMeta := a, KMtmp := b)) W fs'"
  proof (rule q_state_names [OF st nodes(1) _ _ B])
    show "inode_at fs' (q_path rc dr source n) = (V(KMeta := a, KMtmp := b)) n" for n
      using ab(1) st injD [OF ready_inj [OF rdy], of n KMeta] injD [OF ready_inj [OF rdy], of n KMtmp] by (auto simp: q_state_def)
    show "inode_at fs' k = inode_at fs k" if "k \<notin> range (q_path rc dr source)" for k
      using ab(1) that by (auto simp del: q_path.simps)
  qed
  then show ?thesis by blast
qed

section \<open>Triples over a run\<close>

record run_ctx =
  rx_cfg :: q_cfg
  rx_real :: q_cfg
  rx_draws :: draws
  rx_source :: path
  rx_fs :: fsys
  rx_inode :: nat

definition ready_run :: "run_ctx \<Rightarrow> bool" where
  "ready_run c = ready (rx_cfg c) (rx_real c) (rx_draws c) (rx_source c) (rx_inode c) (rx_fs c)"

definition run_path :: "run_ctx \<Rightarrow> q_name \<Rightarrow> path" where
  "run_path c n = q_path (rx_cfg c) (rx_draws c) (rx_source c) n"

definition run_key :: "run_ctx \<Rightarrow> q_name \<Rightarrow> path" where
  "run_key c n = q_path (rx_real c) (rx_draws c) (rx_source c) n"

definition run_state :: "run_ctx \<Rightarrow> valuation \<Rightarrow> (nat \<times> string \<times> nat) set \<Rightarrow> fsys \<Rightarrow> bool" where
  "run_state c V W fs = q_state (rx_real c) (rx_draws c) (rx_source c) (rx_fs c) (rx_inode c) V W fs"

definition in_run :: "run_ctx \<Rightarrow> valuation \<Rightarrow> (nat \<times> string \<times> nat) set \<Rightarrow> q_vars \<Rightarrow> qstore \<Rightarrow> bool" where
  "in_run c V W v s \<longleftrightarrow> quiet s \<and> run_state c V W (qs_fs s) \<and> qs_vars s = v"

fun q_var :: "q_name \<Rightarrow> q_vars \<Rightarrow> path option" where
  "q_var KHold v = v_holding v"
| "q_var KTmp v = v_temporary v"
| "q_var KPay v = v_final v"
| "q_var KMeta v = v_metadata v"
| "q_var _ v = None"

text \<open>The handler's variables name every file of the run that exists.\<close>

definition tracked :: "run_ctx \<Rightarrow> q_vars \<Rightarrow> valuation \<Rightarrow> bool" where
  "tracked c v V \<longleftrightarrow> (\<forall>n \<in> {KHold, KTmp, KPay, KMeta}. q_var n v \<in> {None, Some (run_path c n)} \<and> (V n \<noteq> None \<longrightarrow> q_var n v \<noteq> None))"

text \<open>The source's inode has its old name or its holding name.\<close>

definition safe :: "run_ctx \<Rightarrow> valuation \<Rightarrow> bool" where
  "safe c V \<longleftrightarrow> V KSrc = Some (rx_inode c) \<or> V KHold = Some (rx_inode c)"

definition failed_run :: "run_ctx \<Rightarrow> q_exc \<Rightarrow> qstore \<Rightarrow> bool" where
  "failed_run c e s \<longleftrightarrow> (\<exists>V. in_run c V {} (qs_vars s) s \<and> safe c V \<and> tracked c (qs_vars s) V)"

lemma in_run_forget: "in_run c V W v s \<Longrightarrow> in_run c V {} v s"
  by (simp add: in_run_def run_state_def q_state_def)

lemma failed_runI: "in_run c V W v s \<Longrightarrow> safe c V \<Longrightarrow> tracked c v V \<Longrightarrow> failed_run c e s"
  unfolding failed_run_def using in_run_forget [of c V W v s] by (auto simp: in_run_def)

lemma in_run_step:
  "in_run c V W v s \<Longrightarrow> fs_step s s' \<Longrightarrow> quiet s' \<Longrightarrow> run_state c V' W' (qs_fs s') \<Longrightarrow> in_run c V' W' v s'"
  by (simp add: in_run_def fs_step_def)

lemma in_runD: "in_run c V W v s \<Longrightarrow> quiet s" "in_run c V W v s \<Longrightarrow> run_state c V W (qs_fs s)"
  by (simp_all add: in_run_def)

lemma run_locate:
  assumes "ready_run c" and "run_state c V W fs"
  shows "locate fs (run_path c n) = Some (run_key c n)" and "lookup fs (run_path c n) = V n"
  using assms q_state_locate [of "rx_cfg c" "rx_real c" "rx_draws c" "rx_source c" "rx_inode c" "rx_fs c" V W fs n]
  by (simp_all add: ready_run_def run_state_def run_path_def run_key_def lookup_def q_state_def)

lemma look_step:
  assumes "looks m Q E" and "safe c V" and "tracked c v V" and "\<And>fs x. run_state c V W fs \<Longrightarrow> Q fs x \<Longrightarrow> F x"
  shows "triple (in_run c V W v) m (\<lambda>x s. in_run c V W v s \<and> F x) (failed_run c)"
proof (rule tripleI)
  fix s x s'
  assume r: "in_run c V W v s" and run: "m s = (Inr x, s')"
  note l = looksD [OF assms(1) in_runD(1) [OF r] run]
  show "in_run c V W v s' \<and> F x"
    using in_run_step [OF r l(2,3)] in_runD(2) [OF r] l(1) assms(4) [OF in_runD(2) [OF r] l(4) [OF refl]] by simp
next
  fix s e s'
  assume r: "in_run c V W v s" and run: "m s = (Inl e, s')"
  note l = looksD [OF assms(1) in_runD(1) [OF r] run]
  have "in_run c V W v s'" using in_run_step [OF r l(2,3)] in_runD(2) [OF r] l(1) by simp
  then show "failed_run c e s'" using assms(2,3) by (rule failed_runI)
qed

lemma move_step_errno:
  assumes rdy: "ready_run c" and V: "V a = Some j" "V b = None" "a \<noteq> b"
    and fits: "\<And>fs. fits (rx_fs c) (rx_inode c) V fs \<Longrightarrow> fits (rx_fs c) (rx_inode c) (V(b := Some j)) fs"
    and ok: "safe c V" "tracked c v V" "safe c (V(b := Some j))" "tracked c v (V(b := Some j))"
  shows "triple (in_run c V W v) (move_noreplace env (run_path c a) (run_path c b))
    (\<lambda>_. in_run c (V(a := None, b := Some j)) W v) (\<lambda>e s. failed_run c e s \<and> is_errno e)"
proof -
  have "case r of Inl e \<Rightarrow> failed_run c e s' \<and> is_errno e | Inr u \<Rightarrow> in_run c (V(a := None, b := Some j)) W v s'"
    if r: "in_run c V W v s" and run: "move_noreplace env (run_path c a) (run_path c b) s = (r, s')" for s r s'
  proof -
    note q = quiet_specD [OF move_noreplace_spec in_runD(1) [OF r] run]
    have st: "q_state (rx_real c) (rx_draws c) (rx_source c) (rx_fs c) (rx_inode c) V W (qs_fs s)"
      using in_runD(2) [OF r] by (simp add: run_state_def)
    note rd = rdy [unfolded ready_run_def]
    have mv: "moved (run_key c a) (run_key c b) j (qs_fs s) r (qs_fs s')"
      using q(1) q_state_movable [OF rd st V(1,3)] by (simp add: run_path_def run_key_def)
    have f: "fits (rx_fs c) (rx_inode c) (V(b := Some j)) (qs_fs s)" using st fits by (simp add: q_state_def)
    note m = q_state_moved [OF rd st V(1,3) f mv [unfolded run_key_def]]
    show ?thesis
    proof (cases r)
      case (Inl e)
      then have "run_state c V W (qs_fs s') \<or> run_state c (V(b := Some j)) W (qs_fs s')" and e: "is_errno e"
        using m V(2) by (auto simp: run_state_def)
      then have "failed_run c e s'" using in_run_step [OF r q(2,3)] failed_runI ok by blast
      then show ?thesis using Inl e by simp
    next
      case (Inr u)
      then show ?thesis using m in_run_step [OF r q(2,3)] by (simp add: run_state_def)
    qed
  qed
  then show ?thesis unfolding triple_def by blast
qed

lemma move_step:
  assumes "ready_run c" and "V a = Some j" "V b = None" "a \<noteq> b"
    and "\<And>fs. fits (rx_fs c) (rx_inode c) V fs \<Longrightarrow> fits (rx_fs c) (rx_inode c) (V(b := Some j)) fs"
    and "safe c V" "tracked c v V" "safe c (V(b := Some j))" "tracked c v (V(b := Some j))"
  shows "triple (in_run c V W v) (move_noreplace env (run_path c a) (run_path c b))
    (\<lambda>_. in_run c (V(a := None, b := Some j)) W v) (failed_run c)"
  by (rule triple_weaken [OF move_step_errno [where W = W, OF assms]]) auto

lemma run_inode_old: "ready_run c \<Longrightarrow> rx_inode c < fs_next (rx_fs c)"
  by (auto simp: ready_run_def ready_def intro: fs_okD)

lemma run_bytes:
  assumes "ready_run c" and "run_state c V W fs"
  shows "inode_bytes fs (rx_inode c) = inode_bytes (rx_fs c) (rx_inode c)"
    and "same_node (fs_inodes (rx_fs c) (rx_inode c)) (fs_inodes fs (rx_inode c))"
  using assms run_inode_old [OF assms(1)] same_nodes_bytes by (auto simp: run_state_def q_state_def same_nodes_def)

text \<open>The protected copy under its temporary name.\<close>

lemma copy_step:
  assumes rdy: "ready_run c" and ok: "safe c V" "tracked c v V" "V KTmp = None" "\<And>j. tracked c v (V(KTmp := Some j))"
  shows "triple (in_run c V {} v) (copy_fd_to_new_file env (rx_inode c) (run_path c KTmp))
    (\<lambda>(h, n) s. \<exists>j. in_run c (V(KTmp := Some j)) {(j, inode_bytes (rx_fs c) (rx_inode c), 384)} v s \<and>
       h = qe_sha256 env (inode_bytes (rx_fs c) (rx_inode c)) \<and> n = length (inode_bytes (rx_fs c) (rx_inode c))) (failed_run c)"
proof -
  have "case r of Inl e \<Rightarrow> failed_run c e s' | Inr hn \<Rightarrow> (case hn of (h, n) \<Rightarrow> \<exists>j.
      in_run c (V(KTmp := Some j)) {(j, inode_bytes (rx_fs c) (rx_inode c), 384)} v s' \<and>
       h = qe_sha256 env (inode_bytes (rx_fs c) (rx_inode c)) \<and> n = length (inode_bytes (rx_fs c) (rx_inode c)))"
    if r: "in_run c V {} v s" and run: "copy_fd_to_new_file env (rx_inode c) (run_path c KTmp) s = (r, s')" for s r s'
  proof -
    let ?j = "fs_next (qs_fs s)"
    note st = in_runD(2) [OF r]
    have i: "rx_inode c < ?j" using run_inode_old [OF rdy] st by (auto simp: run_state_def q_state_def same_nodes_def)
    note c = copy_fd_to_new_file_effect [OF in_runD(1) [OF r] run run_locate(1) [OF rdy st] i]
    have made: "run_state c (V(KTmp := Some ?j)) {} (qs_fs s')" if "created (run_key c KTmp) (qs_fs s) (qs_fs s')"
      using q_state_created [OF rdy [unfolded ready_run_def] st [unfolded run_state_def] that [unfolded run_key_def]]
      by (simp add: run_state_def)
    have keep: "in_run c V' W' v s'" if "run_state c V' W' (qs_fs s')" for V' W' using in_run_step [OF r _ _ that] c by blast
    have safe': "safe c (V(KTmp := Some ?j))" using ok(1) by (simp add: safe_def)
    show ?thesis
    proof (cases r)
      case (Inl e)
      then have "qs_fs s' = qs_fs s \<or> created (run_key c KTmp) (qs_fs s) (qs_fs s')" using c by (simp add: file_copy_def)
      then have "failed_run c e s'"
      proof
        assume "qs_fs s' = qs_fs s"
        then show ?thesis using keep [of V "{}"] st failed_runI [OF _ ok(1,2)] by simp
      next
        assume "created (run_key c KTmp) (qs_fs s) (qs_fs s')"
        from keep [OF made [OF this]] show ?thesis using failed_runI [OF _ safe' ok(4)] by simp
      qed
      then show ?thesis using Inl by simp
    next
      case (Inr hn)
      obtain h n where hn: "hn = (h, n)" by (cases hn)
      have f: "created (run_key c KTmp) (qs_fs s) (qs_fs s')" "h = qe_sha256 env (inode_bytes (qs_fs s) (rx_inode c))"
          "n = length (inode_bytes (qs_fs s) (rx_inode c))"
          "in_content (fs_inodes (qs_fs s') ?j) = RegularFile (inode_bytes (qs_fs s) (rx_inode c))"
          "in_mode (fs_inodes (qs_fs s') ?j) = 384"
        using c Inr hn by (simp_all add: file_copy_def)
      have "known {(?j, inode_bytes (rx_fs c) (rx_inode c), 384)} (qs_fs s')"
        using f run_bytes(1) [OF rdy st] by (simp add: known_insert created_def)
      then have "run_state c (V(KTmp := Some ?j)) {(?j, inode_bytes (rx_fs c) (rx_inode c), 384)} (qs_fs s')"
        using made [OF f(1)] by (simp add: run_state_def q_state_def)
      then show ?thesis using keep Inr hn f run_bytes(1) [OF rdy st] by auto
    qed
  qed
  then show ?thesis unfolding triple_def by (fastforce split: sum.splits)
qed

lemma uuid_text_lower: "py_lower (uuid_text n) = uuid_text n"
proof -
  have "lower_char c = c" if "c \<in> set (uuid_text n)" for c
    using uuid_text_chars [OF that] by (auto simp: lower_char_def id_char_def is_digit_def char_code_def)
  then show ?thesis by (simp add: py_lower_def map_idI)
qed

lemma validate_own_id: "n < 2 ^ 128 \<Longrightarrow> validate_quarantine_id (PStr (uuid_text n)) = Inr (uuid_text n)"
  by (simp add: validate_quarantine_id_def uuid_of_text uuid_text_lower)

lemma run_id:
  assumes "ready_run c"
  shows "validate_quarantine_id (PStr (id_text (rx_draws c))) = Inr (id_text (rx_draws c))"
    and "metadata_path (rx_cfg c) (PStr (id_text (rx_draws c))) = Inr (run_path c KMeta)"
    and "payload_path (rx_cfg c) (PStr (id_text (rx_draws c))) = Inr (run_path c KPay)"
  using assms validate_own_id
  by (simp_all add: ready_run_def ready_def id_text_def metadata_path_def payload_path_def run_path_def q_path.simps)

lemma chmod_step:
  assumes rdy: "ready_run c" and V: "V KPay = Some j" and ok: "safe c V" "tracked c v V"
  shows "triple (in_run c V {(j, b, 384)} v) (q_call (unit_call (sys_chmod 384 (run_path c KPay))))
    (\<lambda>_. in_run c V {(j, b, 384)} v) (failed_run c)"
proof (rule tripleI)
  fix s e s'
  assume r: "in_run c V {(j, b, 384)} v s" and run: "q_call (unit_call (sys_chmod 384 (run_path c KPay))) s = (Inl e, s')"
  note d = callsD [OF unit_call_calls in_runD(1) [OF r] run]
  have "in_run c V {(j, b, 384)} v s'" using in_run_step [OF r d(1,2)] in_runD(2) [OF r] d(4) [OF refl] by simp
  then show "failed_run c e s'" using ok by (rule failed_runI)
next
  fix s x s'
  assume r: "in_run c V {(j, b, 384)} v s" and run: "q_call (unit_call (sys_chmod 384 (run_path c KPay))) s = (Inr x, s')"
  note d = callsD [OF unit_call_calls in_runD(1) [OF r] run]
  note st = in_runD(2) [OF r]
  have j: "fs_next (rx_fs c) \<le> j" "j < fs_next (qs_fs s)" "inode_at (qs_fs s) (run_key c KPay) = Some j"
    and content: "in_content (fs_inodes (qs_fs s) j) = RegularFile b"
    using st V by (auto simp: run_state_def q_state_def fits_def run_key_def known_insert)
  have dots: "run_path c KPay \<noteq> []" "last (run_path c KPay) \<noteq> ''..''" using q_path_dots [of KPay] by (simp_all add: run_path_def)
  have "sys_open_follow (run_path c KPay) (qs_fs s) = Inr j"
    using open_follow_regular [OF run_locate(1) [OF rdy st] dots j(3)] content by simp
  then have fs: "qs_fs s' = sys_fchmod 384 j (qs_fs s)" using d(3) [OF refl] by (simp add: sys_chmod_def)
  have "run_state c V {(j, b, 384)} (qs_fs s')"
    unfolding run_state_def
    by (rule q_state_only [OF st [unfolded run_state_def] _ j(1)])
      (use j(2) content sys_fchmod_effect(1) [of j "qs_fs s" 384] in \<open>auto simp: fs sys_fchmod_effect known_insert only_inode_def\<close>)
  then show "in_run c V {(j, b, 384)} v s'" using in_run_step [OF r d(1,2)] by simp
qed

lemma run_meta_place:
  assumes rdy: "ready_run c" and st: "run_state c V W fs"
  shows "meta_place (run_path c KMeta) (run_path c KMtmp) (run_key c KMeta) (run_key c KMtmp) fs"
proof -
  have "run_key c KMeta \<noteq> run_key c KMtmp"
    using injD [OF ready_inj [OF rdy [unfolded ready_run_def]], of KMeta KMtmp] by (auto simp: run_key_def)
  moreover have "is_regular (in_content (fs_inodes fs j))" if "inode_at fs (run_key c KMeta) = Some j" for j
    using st that by (auto simp: run_state_def q_state_def fits_def run_key_def)
  moreover have "fs_ok fs" using q_state_tree(2) [OF rdy [unfolded ready_run_def] st [unfolded run_state_def]] .
  ultimately show ?thesis
    using run_locate(1) [OF assms] q_path_dots [of KMeta] q_path_dots [of KMtmp] by (simp add: meta_place_def run_path_def)
qed

lemma run_temporary: "text_of_id r = id_text (rx_draws c) \<Longrightarrow>
    qc_metadata_dir (rx_cfg c) @ [temporary_name (text_of_id r) (dr_metadata (rx_draws c))] = run_path c KMtmp"
  by (simp add: run_path_def q_path.simps)

lemma run_write_effect:
  assumes rdy: "ready_run c" and ir: "in_run c V W v s" and id: "py_get r ''quarantine_id'' = PStr (id_text (rx_draws c))"
    and run: "write_metadata_atomic env (rx_cfg c) (dr_metadata (rx_draws c)) r s = (res, s')"
  shows "fs_step s s' \<and> quiet s' \<and> meta_written env r (run_key c KMeta) (run_key c KMtmp) (qs_fs s) res (qs_fs s')"
proof (rule write_metadata_atomic_effect [OF in_runD(1) [OF ir] run])
  fix dest
  assume "metadata_path (rx_cfg c) (py_get r ''quarantine_id'') = Inr dest"
  then show "meta_place dest (qc_metadata_dir (rx_cfg c) @ [temporary_name (text_of_id r) (dr_metadata (rx_draws c))])
      (run_key c KMeta) (run_key c KMtmp) (qs_fs s)"
    using id run_id(2) [OF rdy] run_temporary [of r c] run_meta_place [OF rdy in_runD(2) [OF ir]] by (simp add: text_of_id_def)
qed

lemma metadata_step:
  assumes rdy: "ready_run c" and ok: "safe c V" "\<And>a b. tracked c v (V(KMeta := a, KMtmp := b))" "V KMeta = None"
    and id: "py_get r ''quarantine_id'' = PStr (id_text (rx_draws c))"
  shows "triple (in_run c V W v) (write_metadata_atomic env (rx_cfg c) (dr_metadata (rx_draws c)) r)
    (\<lambda>_ s. \<exists>m b. in_run c (V(KMeta := Some m)) (insert (m, b, 384) W) v s \<and> metadata_bytes env r = Inr b) (failed_run c)"
proof (rule tripleI)
  fix s e s'
  assume ir: "in_run c V W v s" and run: "write_metadata_atomic env (rx_cfg c) (dr_metadata (rx_draws c)) r s = (Inl e, s')"
  note w = run_write_effect [OF rdy ir id run]
  then have "meta_state (run_key c KMeta) (run_key c KMtmp) (qs_fs s) (qs_fs s')" by (simp add: meta_written_def)
  then have "\<exists>a b. run_state c (V(KMeta := a, KMtmp := b)) W (qs_fs s')"
    using q_state_meta [OF rdy [unfolded ready_run_def] in_runD(2) [OF ir, unfolded run_state_def]]
    unfolding run_state_def run_key_def by simp
  then obtain a b where "run_state c (V(KMeta := a, KMtmp := b)) W (qs_fs s')" by blast
  then have "in_run c (V(KMeta := a, KMtmp := b)) W v s'" using in_run_step [OF ir] w by blast
  moreover have "safe c (V(KMeta := a, KMtmp := b))" using ok(1) by (simp add: safe_def)
  ultimately show "failed_run c e s'" using failed_runI ok(2) by blast
next
  fix s x s'
  assume ir: "in_run c V W v s" and run: "write_metadata_atomic env (rx_cfg c) (dr_metadata (rx_draws c)) r s = (Inr x, s')"
  note w = run_write_effect [OF rdy ir id run]
  let ?m = "fs_next (qs_fs s)"
  obtain b where b: "metadata_bytes env r = Inr b" "stored (run_key c KMeta) b (qs_fs s) (qs_fs s')"
    using w by (auto simp: meta_written_def)
  note st = in_runD(2) [OF ir]
  have "created (run_key c KMeta) (qs_fs s) (qs_fs s')"
    using b(2) st ok(3) by (simp add: created_def stored_def run_state_def q_state_def run_key_def)
  then have "run_state c (V(KMeta := Some ?m)) W (qs_fs s')"
    using q_state_created [OF rdy [unfolded ready_run_def] st [unfolded run_state_def]] by (simp add: run_state_def run_key_def)
  then have "run_state c (V(KMeta := Some ?m)) (insert (?m, b, 384) W) (qs_fs s')"
    using b(2) by (simp add: run_state_def q_state_def known_insert stored_def)
  then show "\<exists>m b. in_run c (V(KMeta := Some m)) (insert (m, b, 384) W) v s' \<and> metadata_bytes env r = Inr b"
    using in_run_step [OF ir] w b(1) by blast
qed

lemma unlink_step:
  assumes rdy: "ready_run c" and ok: "safe c V" "tracked c v V"
  shows "triple (in_run c V W v) (q_unlink (run_path c n)) (\<lambda>_. in_run c (V(n := None)) W v) (failed_run c)"
proof (rule tripleI)
  fix s x s'
  assume r: "in_run c V W v s" and run: "q_unlink (run_path c n) s = (Inr x, s')"
  note d = callsD [OF q_unlink_spec in_runD(1) [OF r] run]
  note st = in_runD(2) [OF r]
  have ren: "renamed ((inode_at (qs_fs s))(run_key c n := None)) (qs_fs s) (qs_fs s')"
    using d(3) [OF refl] run_locate(1) [OF rdy st] by blast
  have "run_state c (V(n := None)) W (qs_fs s')"
    using q_state_renamed [OF rdy [unfolded ready_run_def] st [unfolded run_state_def] ren [unfolded run_key_def]] st fits_None
    by (simp add: run_state_def q_state_def)
  then show "in_run c (V(n := None)) W v s'" using in_run_step [OF r d(1,2)] by simp
next
  fix s e s'
  assume r: "in_run c V W v s" and run: "q_unlink (run_path c n) s = (Inl e, s')"
  note d = callsD [OF q_unlink_spec in_runD(1) [OF r] run]
  have "in_run c V W v s'" using in_run_step [OF r d(1,2)] in_runD(2) [OF r] d(4) [OF refl] by simp
  then show "failed_run c e s'" using ok by (rule failed_runI)
qed

lemma vars_step: "triple (in_run c V W v) (set_vars f) (\<lambda>_. in_run c V W (f v)) E"
  unfolding set_vars_def by (rule triple_modify) (simp add: in_run_def quiet_def)

section \<open>The three parts of the run\<close>

lemma look_bind:
  assumes "looks m Q E" and "safe c V" and "tracked c v V" and "\<And>fs x. run_state c V W fs \<Longrightarrow> Q fs x \<Longrightarrow> F x"
    and "\<And>x. F x \<Longrightarrow> triple (in_run c V W v) (f x) R (failed_run c)"
  shows "triple (in_run c V W v) (eff_bind m f) R (failed_run c)"
proof (rule triple_bind)
  show "triple (in_run c V W v) m (\<lambda>x s. in_run c V W v s \<and> F x) (failed_run c)"
    by (rule look_step [OF assms(1-3)]) (rule assms(4))
qed (rule triple_pure, rule assms(5))

text \<open>A check whose value carries no further fact.\<close>

lemma check_bind:
  assumes "looks m Q E" and "safe c V" and "tracked c v V" and "\<And>x. triple (in_run c V W v) (f x) R (failed_run c)"
  shows "triple (in_run c V W v) (eff_bind m f) R (failed_run c)"
  by (rule look_bind [OF assms(1-3), where F = "\<lambda>_. True"]) (auto intro: assms(4))

lemma reject_bind:
  assumes "safe c V" and "tracked c v V" and "\<not> b \<Longrightarrow> triple (in_run c V W v) (f ()) R (failed_run c)"
  shows "triple (in_run c V W v) (eff_bind (reject_if b e) f) R (failed_run c)"
  by (rule look_bind [OF reject_if_looks [where E = "\<lambda>_. True"] assms(1,2), where F = "\<lambda>_. \<not> b"]) (auto intro: assms(3))

lemma lift_bind:
  assumes "safe c V" and "tracked c v V" and "\<And>x. r = Inr x \<Longrightarrow> triple (in_run c V W v) (f x) R (failed_run c)"
  shows "triple (in_run c V W v) (eff_bind (eff_lift r) f) R (failed_run c)"
proof (cases r)
  case (Inl e)
  then show ?thesis using assms(1,2) by (auto simp: triple_def eff_bind_def intro: failed_runI)
next
  case (Inr x)
  then show ?thesis using assms(3) by (simp add: triple_def eff_bind_def)
qed

definition run_data :: "run_ctx \<Rightarrow> string" where
  "run_data c = inode_bytes (rx_fs c) (rx_inode c)"

definition run_stat :: "run_ctx \<Rightarrow> file_stat \<Rightarrow> bool" where
  "run_stat c st \<longleftrightarrow> st_ino st = rx_inode c \<and> st_size st = length (run_data c) \<and>
     st_mode st = in_mode (fs_inodes (rx_fs c) (rx_inode c)) \<and> st_uid st = in_uid (fs_inodes (rx_fs c) (rx_inode c)) \<and>
     st_gid st = in_gid (fs_inodes (rx_fs c) (rx_inode c)) \<and> st_dev st = in_dev (fs_inodes (rx_fs c) (rx_inode c))"

lemma run_stat_of:
  assumes "ready_run c" and "run_state c V W fs"
  shows "run_stat c (stat_of fs (rx_inode c))"
  using run_bytes [OF assms] same_node_fields [OF run_bytes(2) [OF assms]]
  by (simp add: run_stat_def run_data_def stat_of_def Let_def)

lemma run_holding: "holding_path (rx_draws c) (rx_source c) = run_path c KHold"
  by (simp add: holding_path_def run_path_def q_path.simps id_text_def)

definition held_names :: "run_ctx \<Rightarrow> valuation" where
  "held_names c = (\<lambda>_. None)(KHold := Some (rx_inode c))"

definition held_vars :: "run_ctx \<Rightarrow> q_vars" where
  "held_vars c = no_vars\<lparr>v_holding := Some (run_path c KHold)\<rparr>"

lemmas run_defs = safe_def tracked_def start_names_def held_names_def held_vars_def no_vars_def

lemma hold_source_run:
  assumes rdy: "ready_run c"
  shows "triple (in_run c (start_names (rx_inode c)) {} no_vars) (hold_source env (rx_draws c) rq (rx_source c))
    (\<lambda>(fd, st, h, _) s. in_run c (held_names c) {} (held_vars c) s \<and>
       (fd = rx_inode c \<and> run_stat c st \<and> h = qe_sha256 env (run_data c) \<and> hash_matches (rq_hash rq) h)) (failed_run c)"
proof -
  let ?V = "start_names (rx_inode c)" and ?i = "rx_inode c"
  have src: "rx_source c = run_path c KSrc" by (simp add: run_path_def q_path.simps)
  have ok: "safe c ?V" "tracked c no_vars ?V" "tracked c (held_vars c) ?V" "safe c (?V(KHold := Some ?i))"
      "tracked c (held_vars c) (?V(KHold := Some ?i))" "safe c (held_names c)" "tracked c (held_vars c) (held_names c)"
    by (simp_all add: run_defs)
  have moved: "?V(KSrc := None, KHold := Some ?i) = held_names c" by (auto simp: run_defs)
  have vars: "v_holding_update (\<lambda>_. Some (holding_path (rx_draws c) (rx_source c))) no_vars = held_vars c"
    by (simp add: held_vars_def run_holding)
  have mv: "triple (in_run c ?V {} (held_vars c)) (move_noreplace env (rx_source c) (holding_path (rx_draws c) (rx_source c)))
      (\<lambda>_. in_run c (held_names c) {} (held_vars c)) (failed_run c)"
    unfolding run_holding unfolding src moved [symmetric]
    by (rule move_step [OF rdy _ _ _ _ ok(1,3,4,5)]) (auto simp: start_names_def intro: fits_same)
  have vs: "triple (in_run c ?V {} no_vars) (set_vars (v_holding_update (\<lambda>_. Some (holding_path (rx_draws c) (rx_source c)))))
      (\<lambda>_. in_run c ?V {} (held_vars c)) (failed_run c)"
    using vars_step [of c ?V "{}" no_vars] vars by metis
  show ?thesis
    unfolding hold_source_def
  proof (rule look_bind [OF open_regular_nofollow_looks ok(1,2), where F = "\<lambda>(fd, st). fd = ?i \<and> run_stat c st"], goal_cases)
    case (1 fs x)
    then show ?case
      using run_locate(2) [OF rdy 1(1), of KSrc] run_stat_of [OF rdy 1(1)] unfolding src [symmetric] by (auto simp: start_names_def)
  next
    case (2 x)
    then obtain st where x: "x = (?i, st)" and st: "run_stat c st" by (cases x) auto
    show ?case
      unfolding x prod.case
    proof (rule check_bind [OF check_identity_looks ok(1,2)], rule look_bind [OF hash_fd_looks ok(1,2), where F = "\<lambda>h. h = qe_sha256 env (run_data c)"], goal_cases)
      case (2 _ h)
      have "triple (in_run c (held_names c) {} (held_vars c))
         (eff_bind (assert_path_matches_fd (holding_path (rx_draws c) (rx_source c)) ?i st) (\<lambda>_.
          eff_bind (q_fstat ?i) (\<lambda>held_stat.
          eff_bind (reject_if (st_size held_stat \<noteq> st_size st \<or> st_mtime held_stat \<noteq> st_mtime st)
            (QuarantineIntegrityError ''Source content changed during protected move'')) (\<lambda>_.
          eff_return (?i, st, h, held_stat)))))
        (\<lambda>(fd, st, h, _) s. in_run c (held_names c) {} (held_vars c) s \<and>
          (fd = ?i \<and> run_stat c st \<and> h = qe_sha256 env (run_data c) \<and> hash_matches (rq_hash rq) h)) (failed_run c)"
        if "hash_matches (rq_hash rq) h"
        using that 2 st by (intro check_bind [OF assert_path_matches_fd_looks ok(6,7)] check_bind [OF q_fstat_looks ok(6,7)]
          reject_bind [OF ok(6,7)]) (rule triple_return, simp)
      then show ?case
        by (intro check_bind [OF assert_fd_unchanged_looks ok(1,2)] reject_bind [OF ok(1,2)] triple_bind [OF vs] triple_bind [OF mv]) simp
    qed (simp add: run_data_def run_bytes(1) [OF rdy])
  qed
qed

definition payload_vars :: "run_ctx \<Rightarrow> q_vars" where
  "payload_vars c = (held_vars c)\<lparr>v_final := Some (run_path c KPay)\<rparr>"

lemma protect_payload_run:
  assumes rdy: "ready_run c" and st: "run_stat c st" and h: "h = qe_sha256 env (run_data c)"
  shows "triple (in_run c (held_names c) {} (held_vars c)) (protect_payload env (rx_cfg c) (rx_draws c) (rx_inode c) st h held)
    (\<lambda>final s. \<exists>j. in_run c ((held_names c)(KPay := Some j)) {(j, run_data c, 384)} (payload_vars c) s \<and> final = run_path c KPay) (failed_run c)"
proof -
  let ?V = "held_names c" and ?v = "(payload_vars c)\<lparr>v_temporary := Some (run_path c KTmp)\<rparr>"
  have tmp: "qc_quarantine_dir (rx_cfg c) @ [temporary_name (uuid_text (dr_id (rx_draws c))) (dr_payload (rx_draws c))] = run_path c KTmp"
    by (simp add: run_path_def q_path.simps id_text_def)
  note defs = run_defs payload_vars_def
  have v1: "triple (in_run c ?V {} (held_vars c)) (set_vars (v_final_update (\<lambda>_. Some (run_path c KPay))))
      (\<lambda>_. in_run c ?V {} (payload_vars c)) (failed_run c)"
    using vars_step [of c ?V "{}" "held_vars c" "v_final_update (\<lambda>_. Some (run_path c KPay))"] by (simp add: payload_vars_def)
  have v2: "triple (in_run c ?V {} (payload_vars c)) (set_vars (v_temporary_update (\<lambda>_. Some (run_path c KTmp))))
      (\<lambda>_. in_run c ?V {} ?v) (failed_run c)"
    using vars_step [of c ?V "{}" "payload_vars c" "v_temporary_update (\<lambda>_. Some (run_path c KTmp))"] by simp
  have v3: "triple (in_run c (?V(KPay := Some j)) W ?v) (set_vars (v_temporary_update (\<lambda>_. None)))
      (\<lambda>_. in_run c (?V(KPay := Some j)) W (payload_vars c)) (failed_run c)" for j W
    using vars_step [of c "?V(KPay := Some j)" W ?v "v_temporary_update (\<lambda>_. None)"] by (simp add: defs)
  have cp: "triple (in_run c ?V {} ?v) (copy_fd_to_new_file env (rx_inode c) (run_path c KTmp))
      (\<lambda>hn s. \<exists>j. in_run c (?V(KTmp := Some j)) {(j, run_data c, 384)} ?v s \<and> hn = (h, length (run_data c))) (failed_run c)"
    by (rule triple_weaken [OF copy_step [OF rdy]]) (auto simp: defs run_data_def h)
  have mv: "triple (in_run c (?V(KTmp := Some j)) W ?v) (move_noreplace env (run_path c KTmp) (run_path c KPay))
      (\<lambda>_. in_run c (?V(KPay := Some j)) W ?v) (failed_run c)" for j W
  proof -
    have same: "(?V(KTmp := Some j))(KTmp := None, KPay := Some j) = ?V(KPay := Some j)" by (auto simp: held_names_def)
    show ?thesis
      unfolding same [symmetric]
      by (rule move_step [OF rdy]) (simp_all add: defs fits_extra [where a = KTmp and j = j])
  qed
  have rest: "triple (in_run c (?V(KTmp := Some j)) {(j, run_data c, 384)} ?v)
      (eff_bind (assert_fd_unchanged (rx_inode c) held) (\<lambda>_.
       eff_bind (move_noreplace env (run_path c KTmp) (run_path c KPay)) (\<lambda>_.
       eff_bind (set_vars (v_temporary_update (\<lambda>_. None))) (\<lambda>_.
       eff_bind (q_call (unit_call (sys_chmod 384 (run_path c KPay)))) (\<lambda>_.
       eff_bind (fsync_directory (qc_quarantine_dir (rx_cfg c))) (\<lambda>_. eff_return (run_path c KPay)))))))
      (\<lambda>final s. \<exists>j. in_run c (?V(KPay := Some j)) {(j, run_data c, 384)} (payload_vars c) s \<and> final = run_path c KPay) (failed_run c)" for j
    by (rule check_bind [OF assert_fd_unchanged_looks], simp add: defs, simp add: defs, rule triple_bind [OF mv],
        rule triple_bind [OF v3], rule triple_bind [OF chmod_step [OF rdy]], simp, simp add: defs, simp add: defs,
        rule check_bind [OF fsync_directory_looks], simp add: defs, simp add: defs, rule triple_return, blast)
  show ?thesis
    unfolding protect_payload_def Let_def tmp run_id(3) [OF rdy, unfolded id_text_def]
    by (rule triple_bind [OF triple_lift [where Q = "\<lambda>final s. in_run c ?V {} (held_vars c) s \<and> final = run_path c KPay"]], simp, simp,
        rule triple_pure, simp only:, rule triple_bind [OF v1], rule triple_bind [OF v2], rule triple_bind [OF cp], rule triple_ex,
        rule triple_pure, simp only: prod.case, rule reject_bind, simp add: defs, simp add: defs, rule rest)
qed

text \<open>What a run leaves behind when it succeeds: the payload with the old bytes and the record's text.\<close>

definition quarantined :: "run_ctx \<Rightarrow> q_env \<Rightarrow> pydict \<Rightarrow> qstore \<Rightarrow> bool" where
  "quarantined c env r s \<longleftrightarrow> (\<exists>j m b v. in_run c ((\<lambda>_. None)(KPay := Some j, KMeta := Some m)) {(m, b, 384), (j, run_data c, 384)} v s \<and>
     validate_record env r = Inr () \<and> metadata_bytes env r = Inr b)"

definition record_of_run :: "run_ctx \<Rightarrow> q_env \<Rightarrow> string \<Rightarrow> pyval \<Rightarrow> pyval \<Rightarrow> pyval \<Rightarrow> pydict \<Rightarrow> bool" where
  "record_of_run c env reason pid process rules r \<longleftrightarrow> (\<exists>st ft. run_stat c st \<and>
     new_record env (rx_draws c) (rx_source c) (qe_sha256 env (run_data c)) st ft reason pid process rules = Inr r)"

lemma new_record_id: "new_record env dr source h st ft reason pid process rules = Inr r \<Longrightarrow>
    py_get r ''quarantine_id'' = PStr (id_text dr)"
  by (auto simp: new_record_def res_bind_eq_Inr py_get_def dict_get_or_def id_text_def)

lemma commit_record_run:
  assumes rdy: "ready_run c" and st: "run_stat c st" and h: "h = qe_sha256 env (run_data c)"
  shows "triple (in_run c ((held_names c)(KPay := Some j)) {(j, run_data c, 384)} (payload_vars c))
    (commit_record env (rx_cfg c) (rx_draws c) (rx_source c) h st (run_path c KPay) reason pid process rules)
    (\<lambda>r s. quarantined c env r s \<and> record_of_run c env reason pid process rules r) (failed_run c)"
proof -
  let ?V = "(held_names c)(KPay := Some j)" and ?W = "{(j, run_data c, 384)}"
  let ?v = "(payload_vars c)\<lparr>v_metadata := Some (run_path c KMeta)\<rparr>"
  let ?rest = "\<lambda>r. eff_bind (q_unlink (run_path c KHold)) (\<lambda>_.
       eff_bind (set_vars (v_holding_update (\<lambda>_. None))) (\<lambda>_.
       eff_bind (eff_catch (fsync_directory (butlast (rx_source c))) (\<lambda>e. if is_oserror e then eff_return () else eff_raise e)) (\<lambda>_.
       eff_return r)))"
  note defs = run_defs payload_vars_def
  have ok: "safe c ?V" "tracked c (payload_vars c) ?V" "\<And>m. safe c (?V(KMeta := Some m))" "\<And>m. tracked c ?v (?V(KMeta := Some m))"
    "\<And>a b. tracked c ?v (?V(KMeta := a, KMtmp := b))" by (simp_all add: defs)
  have v1: "triple (in_run c ?V ?W (payload_vars c)) (set_vars (v_metadata_update (\<lambda>_. Some (run_path c KMeta))))
      (\<lambda>_. in_run c ?V ?W ?v) (failed_run c)"
    using vars_step [of c ?V ?W "payload_vars c" "v_metadata_update (\<lambda>_. Some (run_path c KMeta))"] by simp
  have gone: "?V(KMeta := Some m, KHold := None) = (\<lambda>_. None)(KPay := Some j, KMeta := Some m)" for m
    by (auto simp: held_names_def)
  have last: "triple (in_run c (?V(KMeta := Some m)) (insert (m, b, 384) ?W) ?v)
      (?rest r) (\<lambda>r' s. quarantined c env r' s \<and> r' = r) (failed_run c)"
    if "validate_record env r = Inr ()" "metadata_bytes env r = Inr b" for m b r
  proof (rule triple_bind [OF unlink_step [OF rdy ok(3,4)]], rule triple_bind [OF vars_step], unfold gone, rule triple_bind)
    let ?N = "(\<lambda>_. None)(KPay := Some j, KMeta := Some m)" and ?u = "v_holding_update (\<lambda>_. None) ?v"
    show "triple (in_run c ?N (insert (m, b, 384) ?W) ?u)
        (eff_catch (fsync_directory (butlast (rx_source c))) (\<lambda>e. if is_oserror e then eff_return () else eff_raise e))
        (\<lambda>_. in_run c ?N (insert (m, b, 384) ?W) ?u) (failed_run c)"
    proof (rule tripleI)
      fix s x s'
      assume r: "in_run c ?N (insert (m, b, 384) ?W) ?u s"
        and run: "eff_catch (fsync_directory (butlast (rx_source c))) (\<lambda>e. if is_oserror e then eff_return () else eff_raise e) s = (Inr x, s')"
      note l = looksD [OF synced_looks in_runD(1) [OF r] run]
      show "in_run c ?N (insert (m, b, 384) ?W) ?u s'" using in_run_step [OF r l(2,3)] in_runD(2) [OF r] l(1) by simp
    next
      fix s e s'
      assume r: "in_run c ?N (insert (m, b, 384) ?W) ?u s"
        and run: "eff_catch (fsync_directory (butlast (rx_source c))) (\<lambda>e. if is_oserror e then eff_return () else eff_raise e) s = (Inl e, s')"
      show "failed_run c e s'" using looksD(5) [OF synced_looks in_runD(1) [OF r] run refl] by simp
    qed
  qed (rule triple_return, use that in \<open>auto simp: quarantined_def\<close>)
  have meta: "metadata_path (rx_cfg c) (PStr (uuid_text (dr_id (rx_draws c)))) = Inr (run_path c KMeta)"
    using run_id(2) [OF rdy] by (simp add: id_text_def)
  show ?thesis
    unfolding commit_record_def run_holding meta
  proof (rule check_bind [OF detect_file_type_looks ok(1,2)], rule lift_bind [OF ok(1,2)])
    fix ft r
    assume new: "new_record env (rx_draws c) (rx_source c) h st ft reason pid process rules = Inr r"
    then have r: "record_of_run c env reason pid process rules r" using st h by (auto simp: record_of_run_def)
    note id = new_record_id [OF new]
    show "triple (in_run c ?V ?W (payload_vars c))
      (eff_bind (eff_lift (validate_record env r)) (\<lambda>_.
       eff_bind (eff_lift (Inr (run_path c KMeta))) (\<lambda>meta.
       eff_bind (set_vars (v_metadata_update (\<lambda>_. Some meta))) (\<lambda>_.
       eff_bind (write_metadata_atomic env (rx_cfg c) (dr_metadata (rx_draws c)) r) (\<lambda>_. ?rest r)))))
      (\<lambda>r s. quarantined c env r s \<and> record_of_run c env reason pid process rules r) (failed_run c)"
    proof (rule lift_bind [OF ok(1,2)], rule lift_bind [OF ok(1,2)])
      fix u :: unit and meta
      assume valid: "validate_record env r = Inr u" and "(Inr (run_path c KMeta) :: q_exc + path) = Inr meta"
      then have m: "meta = run_path c KMeta" by simp
      have mid: "?V KMeta = None" by (simp add: held_names_def)
      have fin: "triple (in_run c (?V(KMeta := Some m)) (insert (m, b, 384) ?W) ?v) (?rest r)
          (\<lambda>r s. quarantined c env r s \<and> record_of_run c env reason pid process rules r) (failed_run c)"
        if "metadata_bytes env r = Inr b" for m b
        by (rule triple_weaken [OF last [OF _ that]]) (use valid r in auto)
      show "triple (in_run c ?V ?W (payload_vars c))
        (eff_bind (set_vars (v_metadata_update (\<lambda>_. Some meta))) (\<lambda>_.
         eff_bind (write_metadata_atomic env (rx_cfg c) (dr_metadata (rx_draws c)) r) (\<lambda>_. ?rest r)))
        (\<lambda>r s. quarantined c env r s \<and> record_of_run c env reason pid process rules r) (failed_run c)"
        unfolding m
        by (rule triple_bind [OF v1], rule triple_bind [OF metadata_step [OF rdy ok(1) ok(5) mid id]],
            rule triple_ex, rule triple_ex, rule triple_pure, erule fin)
    qed
  qed
qed

lemma quarantine_body_run:
  assumes rdy: "ready_run c"
  shows "triple (in_run c (start_names (rx_inode c)) {} no_vars)
    (quarantine_body env (rx_cfg c) (rx_draws c) rq (rx_source c) reason pid process rules)
    (\<lambda>r s. quarantined c env r s \<and> record_of_run c env reason pid process rules r \<and>
       hash_matches (rq_hash rq) (qe_sha256 env (run_data c))) (failed_run c)"
  unfolding quarantine_body_def
proof (rule triple_bind [OF hold_source_run [OF rdy]])
  fix x :: "nat \<times> file_stat \<times> string \<times> file_stat"
  obtain fd st h held where x: "x = (fd, st, h, held)" by (cases x)
  show "triple (\<lambda>s. (case x of (fd, st, h, _) \<Rightarrow> \<lambda>s. in_run c (held_names c) {} (held_vars c) s \<and>
        (fd = rx_inode c \<and> run_stat c st \<and> h = qe_sha256 env (run_data c) \<and> hash_matches (rq_hash rq) h)) s)
      (case x of (fd, st, h, held) \<Rightarrow> eff_bind (protect_payload env (rx_cfg c) (rx_draws c) fd st h held) (\<lambda>final.
        commit_record env (rx_cfg c) (rx_draws c) (rx_source c) h st final reason pid process rules))
      (\<lambda>r s. quarantined c env r s \<and> record_of_run c env reason pid process rules r \<and>
         hash_matches (rq_hash rq) (qe_sha256 env (run_data c))) (failed_run c)"
    unfolding x prod.case
  proof (rule triple_pure, elim conjE)
    assume f: "fd = rx_inode c" "run_stat c st" "h = qe_sha256 env (run_data c)" "hash_matches (rq_hash rq) h"
    show "triple (in_run c (held_names c) {} (held_vars c))
        (eff_bind (protect_payload env (rx_cfg c) (rx_draws c) fd st h held) (\<lambda>final.
          commit_record env (rx_cfg c) (rx_draws c) (rx_source c) h st final reason pid process rules))
        (\<lambda>r s. quarantined c env r s \<and> record_of_run c env reason pid process rules r \<and>
           hash_matches (rq_hash rq) (qe_sha256 env (run_data c))) (failed_run c)"
      unfolding f(1)
      by (rule triple_bind [OF protect_payload_run [OF rdy f(2,3)]], rule triple_ex, rule triple_pure, simp only:,
          rule triple_weaken [OF commit_record_run [OF rdy f(2,3)]]) (use f in auto)
  qed
qed

section \<open>Rollback\<close>

text \<open>The old bytes are still there under one of the two names; everything is as before.\<close>

definition kept_run :: "run_ctx \<Rightarrow> qstore \<Rightarrow> bool" where
  "kept_run c s \<longleftrightarrow> (\<exists>V v. in_run c V {} v s \<and> safe c V)"

definition undone_run :: "run_ctx \<Rightarrow> qstore \<Rightarrow> bool" where
  "undone_run c s \<longleftrightarrow> (\<exists>V v. in_run c V {} v s \<and> V KSrc = Some (rx_inode c) \<and> V KHold = None \<and> V KTmp = None \<and> V KPay = None \<and> V KMeta = None)"

definition stopped :: "run_ctx \<Rightarrow> q_exc \<Rightarrow> qstore \<Rightarrow> bool" where
  "stopped c e s \<longleftrightarrow> is_errno e \<and> kept_run c s"

lemma failed_kept: "failed_run c e s \<Longrightarrow> kept_run c s"
  by (auto simp: failed_run_def kept_run_def)

lemma discard_step:
  assumes rdy: "ready_run c" and n: "n \<noteq> KSrc" "n \<noteq> KHold" and var: "x = None \<and> V n = None \<or> x = Some (run_path c n)"
    and src: "safe c V"
  shows "triple (in_run c V {} v) (when_some x q_unlink_missing_ok) (\<lambda>_. in_run c (V(n := None)) {} v) (stopped c)"
proof (cases x)
  case None
  then have "V(n := None) = V" using var by auto
  then show ?thesis using None by (simp add: when_some_def triple_return)
next
  case (Some p)
  then have p: "p = run_path c n" using var by simp
  have "case r of Inl e \<Rightarrow> stopped c e s' | Inr u \<Rightarrow> in_run c (V(n := None)) {} v s'"
    if r: "in_run c V {} v s" and run: "q_unlink_missing_ok p s = (r, s')" for s r s'
  proof -
    note u = quiet_specD [OF q_unlink_missing_ok_spec in_runD(1) [OF r] run]
    note st = in_runD(2) [OF r]
    show ?thesis
    proof (cases r)
      case (Inl e)
      then have "in_run c V {} v s'" using u in_run_step [OF r u(2,3)] st by simp
      then show ?thesis using Inl u(1) src by (auto simp: stopped_def kept_run_def)
    next
      case (Inr w)
      then have ren: "renamed ((inode_at (qs_fs s))(run_key c n := None)) (qs_fs s) (qs_fs s')"
        using u(1) run_locate(1) [OF rdy st] p by simp
      have "run_state c (V(n := None)) {} (qs_fs s')"
        using q_state_renamed [OF rdy [unfolded ready_run_def] st [unfolded run_state_def] ren [unfolded run_key_def]] st fits_None
        by (simp add: run_state_def q_state_def)
      then show ?thesis using Inr in_run_step [OF r u(2,3)] by simp
    qed
  qed
  then show ?thesis using Some unfolding triple_def when_some_def by simp
qed

lemma sync_step:
  assumes "safe c V"
  shows "triple (in_run c V {} v) (fsync_directory p) (\<lambda>_. in_run c V {} v) (stopped c)"
proof (rule tripleI)
  fix s x s'
  assume r: "in_run c V {} v s" and run: "fsync_directory p s = (Inr x, s')"
  note l = looksD [OF fsync_directory_looks in_runD(1) [OF r] run]
  show "in_run c V {} v s'" using in_run_step [OF r l(2,3)] in_runD(2) [OF r] l(1) by simp
next
  fix s e s'
  assume r: "in_run c V {} v s" and run: "fsync_directory p s = (Inl e, s')"
  note l = looksD [OF fsync_directory_looks in_runD(1) [OF r] run]
  have "in_run c V {} v s'" using in_run_step [OF r l(2,3)] in_runD(2) [OF r] l(1) by simp
  then show "stopped c e s'" using assms l(5) [OF refl] by (auto simp: stopped_def kept_run_def)
qed

lemma exists_step: "ready_run c \<Longrightarrow> triple (in_run c V {} v) (q_lexists (run_path c n)) (\<lambda>b s. in_run c V {} v s \<and> b = (V n \<noteq> None)) (stopped c)"
proof (rule tripleI)
  fix s x s'
  assume rdy: "ready_run c" and r: "in_run c V {} v s" and run: "q_lexists (run_path c n) s = (Inr x, s')"
  note l = looksD [OF q_lexists_looks [where E = "\<lambda>_. False"] in_runD(1) [OF r] run]
  show "in_run c V {} v s' \<and> x = (V n \<noteq> None)"
    using in_run_step [OF r l(2,3)] in_runD(2) [OF r] l(1) l(4) [OF refl] run_locate(2) [OF rdy in_runD(2) [OF r]] by simp
next
  fix s e s'
  assume r: "in_run c V {} v s" and run: "q_lexists (run_path c n) s = (Inl e, s')"
  show "stopped c e s'" using looksD(5) [OF q_lexists_looks [where E = "\<lambda>_. False"] in_runD(1) [OF r] run refl] by simp
qed

end
