(* ===== verification/Quarantine_Example.thy ===== *)
theory Quarantine_Example
  imports Quarantine_Run
begin

text \<open>
  An example store for the witnesses of the quarantine theorems: a file \<open>/t/x\<close> with the bytes \<open>abc\<close>, the
  quarantine in \<open>/q\<close> and its metadata in \<open>/m\<close>, and the runs of \<open>quarantine_file\<close> on it, one where every
  system call completes and one where the disk fails. The digest, an opaque function of the model, is
  a length here.
\<close>

definition example_digest :: "string \<Rightarrow> string" where
  "example_digest b = hex_digits 64 (length b)"

definition example_env :: q_env where
  "example_env = \<lparr>qe_sha256 = example_digest, qe_float = (\<lambda>_. ''0.0''), qe_dumps_depth = 20, qe_loads_depth = 20,
     qe_asdict_depth = 20, qe_expanduser = Inr, qe_cwd = [], qe_euid = 0, qe_egid = 0, qe_umask = 18, qe_renameat2 = True,
     qe_magic = (\<lambda>_ _. MagicUnavailable), qe_mimetype = (\<lambda>_. None), qe_sort_lists = Inr,
     qe_audit = \<lparr>ae_chain = \<lparr>ce_sha256 = example_digest, ce_float = (\<lambda>_. ''0.0''), ce_depth = 20\<rparr>,
       ae_detail = (\<lambda>_. []), ae_render = (\<lambda>_. []), ae_repr = (\<lambda>_. [])\<rparr>,
     qe_audit_cfg = \<lparr>ac_log_dir = ''/l'', ac_file_name = ''a'', ac_dir_mode = 448, ac_file_mode = 384, ac_max_bytes = 1000,
       ac_backup_count = 1, ac_max_record_bytes = 1000, ac_corruption_policy = ''raise'', ac_repair = True\<rparr>,
     qe_audit_error = (\<lambda>_. [])\<rparr>"

definition example_cfg :: q_cfg where
  "example_cfg = \<lparr>qc_quarantine_dir = [''q''], qc_metadata_dir = [''m'']\<rparr>"

definition example_inode :: "content \<Rightarrow> inode" where
  "example_inode c = \<lparr>in_content = c, in_mode = 493, in_uid = 0, in_gid = 0, in_dev = 1, in_mtime = 1, in_ctime = 1\<rparr>"

definition example_fs :: fsys where
  "example_fs = \<lparr>fs_names = [([], 0), ([''q''], 1), ([''m''], 2), ([''t''], 3), ([''t'', ''x''], 4)],
     fs_inodes = (\<lambda>i. example_inode (if i = 4 then RegularFile ''abc'' else DirectoryNode)), fs_next = 5, fs_clock = 1\<rparr>"

definition example_store :: "outcome list \<Rightarrow> qstore" where
  "example_store ocs = \<lparr>qs_fs = example_fs, qs_events = map (\<lambda>oc. \<lparr>ev_change = id, ev_outcome = oc\<rparr>) ocs, qs_vars = no_vars,
     qs_audit = None, qs_audit_status = ''NOT_CONFIGURED'', qs_audit_error = None\<rparr>"

definition example_draws :: draws where
  "example_draws = \<lparr>dr_id = 7, dr_payload = 8, dr_metadata = 9, dr_rollback = 10, dr_now = Fin 0,
     dr_tick = \<lparr>tk_clock = Fin 0, tk_uuid = 1, tk_ns = 1\<rparr>\<rparr>"

definition example_request :: q_request where
  "example_request = \<lparr>rq_path = ''/t/x'', rq_hash = PNone, rq_reason = PStr ''bad'', rq_pid = PNone, rq_rules = PList [],
     rq_process = PNone, rq_identity = \<lparr>ex_device = None, ex_inode = None, ex_size = None, ex_mtime = None, ex_ctime = None\<rparr>\<rparr>"

text \<open>The call that moves the protected copy to its final name fails; the calls before it and the rollback complete.\<close>

definition example_failure :: "outcome list" where
  "example_failure = replicate 24 Completes @ [Fails EIO]"

section \<open>Evaluation\<close>

text \<open>The continuation of an operation is evaluated only once its first step has a result.\<close>

lemma eff_bind_weak_cong: "m = m' \<Longrightarrow> eff_bind m f = eff_bind m' f"
  by simp

lemma eff_catch_weak_cong: "m = m' \<Longrightarrow> eff_catch m f = eff_catch m' f"
  by simp

lemma eff_catch_run: "eff_catch m f s = (case m s of (Inl e, s') \<Rightarrow> f e s' | (Inr x, s') \<Rightarrow> (Inr x, s'))"
  by (simp add: eff_catch_def)

lemma example_names:
  "uuid_text 7 = ''00000000-0000-0000-0000-000000000007''"
  "hex_digits 32 8 = ''00000000000000000000000000000008''"
  "hex_digits 32 9 = ''00000000000000000000000000000009''"
  "path_comps ''/t/x'' = [''t'', ''x'']"
  by code_simp+

lemma example_arguments:
  "expand_path example_env ''/t/x'' = Inr (True, [''t'', ''x''])"
  "validate_expected_hash PNone = Inr ()"
  "require_nonempty_text (PStr ''bad'') ''reason'' = Inr ''bad''"
  "require_json_value example_env (PList []) ''triggered_rules'' = Inr (PList [])"
  "require_json_value example_env (PDict []) ''process_info'' = Inr (PDict [])"
  "validate_pid PNone = Inr PNone"
  "payload_path example_cfg (PStr ''00000000-0000-0000-0000-000000000007'') = Inr [''q'', ''00000000-0000-0000-0000-000000000007'']"
  "metadata_path example_cfg (PStr ''00000000-0000-0000-0000-000000000007'') = Inr [''m'', ''00000000-0000-0000-0000-000000000007.json'']"
  by code_simp+

lemma example_env_simps:
  "qe_sha256 example_env = example_digest" "qe_cwd example_env = []" "qe_renameat2 example_env"
  "qe_euid example_env = 0" "qe_egid example_env = 0" "masked example_env 384 = 384" "qe_magic example_env p b = MagicUnavailable"
  "qe_mimetype example_env n = None" "qc_quarantine_dir example_cfg = [''q'']" "qc_metadata_dir example_cfg = [''m'']"
  "dr_id example_draws = 7" "dr_payload example_draws = 8" "dr_metadata example_draws = 9"
  by (simp_all add: example_env_def example_cfg_def example_draws_def masked_def)

lemma example_time: "utc_isoformat (Fin 0) = Inr ''1970-01-01T00:00:00+00:00''"
  by code_simp

lemmas example_run =
  eff_bind_run eff_catch_run eff_gets_def eff_return_def eff_raise_def eff_modify_def eff_lift_def Let_def
  next_event_def q_query_def q_read_def q_call_def unit_call_def q_lexists_def q_lstat_def q_fstat_def q_unlink_def
  q_unlink_missing_ok_def q_open_excl_def q_fchmod_def q_fsync_def q_read_chunk_def q_write_def
  write_all.simps read_rest.simps copy_rest.simps chunk_of_def COPY_CHUNK_SIZE_def
  canonical_source_path_def with_name_def open_regular_nofollow_def assert_fd_unchanged_def assert_path_matches_fd_def
  copy_fd_to_new_file_def copy_between_fds_def hash_fd_def link_and_unlink_def move_noreplace_def fsync_directory_def
  check_identity_def reject_if_def set_vars_def when_some_def hash_matches_def temporary_name_def holding_path_def
  quarantine_file_def quarantine_checked_def quarantine_body_def hold_source_def protect_payload_def
  recover_quarantine_def rollback_quarantine_def is_oserror_def differs_def
  example_env_simps example_names example_arguments example_request_def example_store_def
  example_fs_def example_inode_def
  inode_at_def content_at_def inode_bytes_def realpath_def is_dir_def locate_def lookup_def path_text_def link_count_def
  stat_of_def same_file_def set_inode_def touch_def set_names_def new_inode_def sys_create_def sys_open_def sys_open_follow_def
  sys_unlink_def move_name_def sys_rename_noreplace_def sys_replace_def sys_fchmod_def sys_chmod_def overlay_def sys_pwrite_def
  no_vars_def py_or_def example_time

definition example_record :: pydict where
  "example_record =
     [(''schema_version'', PInt 1), (''quarantine_id'', PStr ''00000000-0000-0000-0000-000000000007''),
      (''original_path'', PStr ''/t/x''), (''sha256'', PStr (example_digest ''abc'')), (''size_bytes'', PInt 3),
      (''file_type'', PStr ''application/octet-stream''), (''timestamp'', PFloat (Fin 0)),
      (''timestamp_utc'', PStr ''1970-01-01T00:00:00+00:00''), (''reason'', PStr ''bad''), (''related_pid'', PNone),
      (''process_info'', PDict []), (''triggered_rules'', PList []), (''original_mode'', PInt 493),
      (''original_uid'', PInt 0), (''original_gid'', PInt 0), (''source_device'', PInt 1), (''source_inode'', PInt 4),
      (''source_link_count'', PInt 1)] @ DEFAULT_FIELDS"

definition example_metadata :: string where
  "example_metadata = (case metadata_bytes example_env example_record of Inr b \<Rightarrow> b | Inl _ \<Rightarrow> [])"

lemma example_new_record:
  "st_size st = 3 \<Longrightarrow> st_mode st = 493 \<Longrightarrow> st_uid st = 0 \<Longrightarrow> st_gid st = 0 \<Longrightarrow> st_dev st = 1 \<Longrightarrow> st_ino st = 4 \<Longrightarrow>
     st_nlink st = 1 \<Longrightarrow> new_record example_env example_draws [''t'', ''x''] (example_digest ''abc'') st ''application/octet-stream''
       ''bad'' PNone (PDict []) (PList []) = Inr example_record"
  by (simp add: new_record_def example_draws_def example_time example_names example_record_def lift_q_def path_text_def
    abs_path_def METADATA_SCHEMA_VERSION_def)

lemma example_record_facts:
  "py_get example_record ''quarantine_id'' = PStr ''00000000-0000-0000-0000-000000000007''"
  "text_of_id example_record = ''00000000-0000-0000-0000-000000000007''"
  "record_to_dict example_env example_record = Inr example_record"
  by code_simp+

lemma example_valid: "validate_record example_env example_record = Inr ()"
  by code_simp

lemma example_bytes: "metadata_bytes example_env example_record = Inr example_metadata" "example_metadata \<noteq> []"
proof -
  have "(case metadata_bytes example_env example_record of Inr b \<Rightarrow> b \<noteq> [] | Inl _ \<Rightarrow> False)" by code_simp
  then show "metadata_bytes example_env example_record = Inr example_metadata" "example_metadata \<noteq> []"
    by (auto simp: example_metadata_def split: sum.splits)
qed

lemma example_failure_list:
  "example_failure = [Completes, Completes, Completes, Completes, Completes, Completes, Completes, Completes, Completes,
     Completes, Completes, Completes, Completes, Completes, Completes, Completes, Completes, Completes, Completes, Completes,
     Completes, Completes, Completes, Completes, Fails EIO]"
  by (simp add: example_failure_def numeral_eq_Suc)

lemma example_fails:
  "fst (quarantine_file example_env example_cfg example_draws example_request (example_store example_failure)) =
     Inl (QuarantineError ''Quarantine failed safely'')"
  by (simp add: example_failure_list) (simp cong: eff_bind_weak_cong eff_catch_weak_cong add: example_run)

lemma example_returns:
  "fst (quarantine_file example_env example_cfg example_draws example_request (example_store [])) = Inr example_record"
  "qs_events (snd (quarantine_file example_env example_cfg example_draws example_request (example_store []))) = []"
  by (simp_all cong: eff_bind_weak_cong eff_catch_weak_cong add: example_run commit_record_def detect_file_type_def magic_type_def
    guessed_type_def example_new_record example_valid example_bytes write_metadata_atomic_def
    example_record_facts or_unlink_def audit_action_def)

end
