(* ===== verification/Quarantine.thy ===== *)
theory Quarantine
  imports Quarantine_Example
begin

text \<open>
  The promises of \<open>quarantine_file\<close>: whatever system calls fail, the bytes of the file stay on disk; an
  error other than an incomplete rollback leaves every name as it was; success leaves the payload and its
  record and removes the source.
\<close>

section \<open>Rollback\<close>

lemma source_path: "rx_source c = run_path c KSrc"
  by (simp add: run_path_def q_path.simps)

lemma triple_fact: "(\<And>s. P s \<Longrightarrow> F) \<Longrightarrow> (F \<Longrightarrow> triple P m Q E) \<Longrightarrow> triple P m Q E"
  unfolding triple_def by blast

lemma in_run_names: "in_run c V W v s \<Longrightarrow> V KSrc \<in> {None, Some (rx_inode c)} \<and> V KHold \<in> {None, Some (rx_inode c)}"
  by (simp add: in_run_def run_state_def q_state_def fits_def)

lemma finish_rollback:
  assumes rdy: "ready_run c" and V: "V KSrc = Some (rx_inode c)" "V KHold = None" and tr: "tracked c v V"
  shows "triple (in_run c V {} v)
    (eff_bind (when_some (v_temporary v) q_unlink_missing_ok) (\<lambda>_.
     eff_bind (when_some (v_metadata v) q_unlink_missing_ok) (\<lambda>_.
     eff_bind (when_some (v_final v) q_unlink_missing_ok) (\<lambda>_.
     eff_bind (fsync_directory (qc_quarantine_dir (rx_cfg c))) (\<lambda>_.
     eff_bind (fsync_directory (qc_metadata_dir (rx_cfg c))) (\<lambda>_. eff_return (None :: string option)))))))
    (\<lambda>problem s. problem = None \<and> undone_run c s) (stopped c)"
proof -
  let ?V1 = "V(KTmp := None)" and ?V2 = "V(KTmp := None, KMeta := None)" and ?V3 = "V(KTmp := None, KMeta := None, KPay := None)"
  have safe: "safe c V" "safe c ?V1" "safe c ?V2" "safe c ?V3" using V by (simp_all add: safe_def)
  have vars: "v_temporary v = None \<and> V KTmp = None \<or> v_temporary v = Some (run_path c KTmp)"
      "v_metadata v = None \<and> ?V1 KMeta = None \<or> v_metadata v = Some (run_path c KMeta)"
      "v_final v = None \<and> ?V2 KPay = None \<or> v_final v = Some (run_path c KPay)"
    using tr by (auto simp: tracked_def)
  have end_state: "undone_run c s" if "in_run c ?V3 {} v s" for s
    unfolding undone_run_def using that V by (intro exI [of _ ?V3] exI [of _ v]) simp
  show ?thesis
    by (rule triple_bind [OF discard_step [OF rdy _ _ vars(1) safe(1)]], simp, simp,
        rule triple_bind [OF discard_step [OF rdy _ _ vars(2) safe(2)]], simp, simp,
        rule triple_bind [OF discard_step [OF rdy _ _ vars(3) safe(3)]], simp, simp,
        rule triple_bind [OF sync_step [OF safe(4)]], rule triple_bind [OF sync_step [OF safe(4)]],
        rule triple_return, simp add: end_state)
qed

lemma rollback_run:
  assumes rdy: "ready_run c"
  shows "triple (failed_run c e) (rollback_quarantine env (rx_cfg c) (rx_source c))
    (\<lambda>problem s. (problem = None \<longrightarrow> undone_run c s) \<and> kept_run c s) (\<lambda>_ _. False)"
proof -
  let ?post = "\<lambda>problem s. (problem = None \<longrightarrow> undone_run c s) \<and> kept_run c s"
  have undone_kept: "undone_run c s \<Longrightarrow> kept_run c s" for s unfolding undone_run_def kept_run_def safe_def by blast
  have "triple (in_run c V {} v) (rollback_quarantine env (rx_cfg c) (rx_source c)) ?post (\<lambda>_ _. False)"
    if safe: "safe c V" and tr: "tracked c v V" for V v
  proof -
    let ?finish = "eff_bind (when_some (v_temporary v) q_unlink_missing_ok) (\<lambda>_.
           eff_bind (when_some (v_metadata v) q_unlink_missing_ok) (\<lambda>_.
           eff_bind (when_some (v_final v) q_unlink_missing_ok) (\<lambda>_.
           eff_bind (fsync_directory (qc_quarantine_dir (rx_cfg c))) (\<lambda>_.
           eff_bind (fsync_directory (qc_metadata_dir (rx_cfg c))) (\<lambda>_. eff_return (None :: string option))))))"
    have finish: "triple (in_run c U {} v) ?finish ?post (stopped c)" if "U KSrc = Some (rx_inode c)" "U KHold = None" "tracked c v U" for U
      by (rule triple_weaken [OF finish_rollback [OF rdy that]]) (auto simp: undone_kept)
    have hold: "v_holding v = None \<and> V KHold = None \<or> v_holding v = Some (run_path c KHold)" using tr by (auto simp: tracked_def)
    have fit: "fits (rx_fs c) (rx_inode c) V fs \<Longrightarrow> fits (rx_fs c) (rx_inode c) (V(KSrc := Some (rx_inode c))) fs" for fs
      by (simp add: fits_same)
    have move: "triple (in_run c V {} v) (move_noreplace env (run_path c KHold) (rx_source c))
        (\<lambda>_. in_run c (V(KHold := None, KSrc := Some (rx_inode c))) {} v) (stopped c)"
      if "V KHold = Some (rx_inode c)" "V KSrc = None"
      unfolding source_path
      by (rule triple_weaken [OF move_step_errno [OF rdy that _ fit]])
        (use safe tr in \<open>auto simp: stopped_def failed_kept safe_def tracked_def\<close>)
    have put_back: "triple (in_run c V {} v)
       (eff_bind (q_lexists (run_path c KHold)) (\<lambda>held.
            if \<not> held then ?finish
            else eff_bind (q_lexists (rx_source c)) (\<lambda>occupied.
              if occupied then eff_return (Some ''original path is occupied; recovery file retained'')
              else eff_bind (move_noreplace env (run_path c KHold) (rx_source c)) (\<lambda>_.
                eff_bind (fsync_directory (butlast (rx_source c))) (\<lambda>_. ?finish))))) ?post (stopped c)"
    proof (rule triple_fact, erule in_run_names, rule triple_bind [OF exists_step [OF rdy]], rule triple_pure, rule triple_if)
      fix held
      assume nm: "V KSrc \<in> {None, Some (rx_inode c)} \<and> V KHold \<in> {None, Some (rx_inode c)}" and held: "held = (V KHold \<noteq> None)"
      show "triple (in_run c V {} v) ?finish ?post (stopped c)" if "\<not> held"
        using that held safe tr by (intro finish) (auto simp: safe_def)
      assume "\<not> \<not> held"
      then have hold_i: "V KHold = Some (rx_inode c)" using nm held by auto
      have sync: "triple (in_run c (V(KHold := None, KSrc := Some (rx_inode c))) {} v)
          (eff_bind (fsync_directory (butlast (rx_source c))) (\<lambda>_. ?finish)) ?post (stopped c)"
        using tr by (intro triple_bind [OF sync_step] finish) (auto simp: safe_def tracked_def)
      show "triple (in_run c V {} v) (eff_bind (q_lexists (rx_source c)) (\<lambda>occupied.
              if occupied then eff_return (Some ''original path is occupied; recovery file retained'')
              else eff_bind (move_noreplace env (run_path c KHold) (rx_source c)) (\<lambda>_.
                eff_bind (fsync_directory (butlast (rx_source c))) (\<lambda>_. ?finish)))) ?post (stopped c)"
      proof (rule triple_bind [OF exists_step [OF rdy, of _ _ KSrc, folded source_path]], rule triple_pure, rule triple_if)
        show "triple (in_run c V {} v) (eff_return (Some ''original path is occupied; recovery file retained'')) ?post (stopped c)"
          using safe by (intro triple_return) (auto simp: kept_run_def)
        show "triple (in_run c V {} v) (eff_bind (move_noreplace env (run_path c KHold) (rx_source c)) (\<lambda>_.
            eff_bind (fsync_directory (butlast (rx_source c))) (\<lambda>_. ?finish))) ?post (stopped c)"
          if "\<not> occupied" "occupied = (V KSrc \<noteq> None)" for occupied
          using that by (intro triple_bind [OF move [OF hold_i]] sync) simp
      qed
    qed
    have direct: "triple (in_run c V {} v) ?finish ?post (stopped c)" if "V KHold = None"
      using that safe tr by (intro finish) (auto simp: safe_def)
    have body: "triple (in_run c V {} v) (case v_holding v of None \<Rightarrow> ?finish
        | Some holding \<Rightarrow> eff_bind (q_lexists holding) (\<lambda>held.
            if \<not> held then ?finish
            else eff_bind (q_lexists (rx_source c)) (\<lambda>occupied.
              if occupied then eff_return (Some ''original path is occupied; recovery file retained'')
              else eff_bind (move_noreplace env holding (rx_source c)) (\<lambda>_.
                eff_bind (fsync_directory (butlast (rx_source c))) (\<lambda>_. ?finish))))) ?post (stopped c)"
      using hold put_back direct by auto
    have caught: "triple (in_run c V {} v) (eff_catch (case v_holding v of None \<Rightarrow> ?finish
        | Some holding \<Rightarrow> eff_bind (q_lexists holding) (\<lambda>held.
            if \<not> held then ?finish
            else eff_bind (q_lexists (rx_source c)) (\<lambda>occupied.
              if occupied then eff_return (Some ''original path is occupied; recovery file retained'')
              else eff_bind (move_noreplace env holding (rx_source c)) (\<lambda>_.
                eff_bind (fsync_directory (butlast (rx_source c))) (\<lambda>_. ?finish)))))
        (\<lambda>e. if is_oserror e then eff_return (Some ''OSError'') else eff_raise e)) ?post (\<lambda>_ _. False)"
      by (rule triple_catch [OF body]) (auto simp: stopped_def triple_def)
    show ?thesis
      unfolding rollback_quarantine_def Let_def
      using caught by (auto simp: triple_def eff_bind_def in_run_def)
  qed
  then show ?thesis unfolding failed_run_def triple_def in_run_def by blast
qed

section \<open>Outcome of a run\<close>

definition run_outcome :: "run_ctx \<Rightarrow> q_env \<Rightarrow> q_request \<Rightarrow> (pydict \<Rightarrow> bool) \<Rightarrow> q_exc + pydict \<Rightarrow> fsys \<Rightarrow> bool" where
  "run_outcome c env rq good res fs \<longleftrightarrow> (case res of
      Inr r \<Rightarrow> good r \<and> hash_matches (rq_hash rq) (qe_sha256 env (run_data c)) \<and> validate_record env r = Inr () \<and>
        (\<exists>j m b. metadata_bytes env r = Inr b \<and>
           run_state c ((\<lambda>_. None)(KPay := Some j, KMeta := Some m)) {(m, b, 384), (j, run_data c, 384)} fs)
    | Inl e \<Rightarrow> (\<exists>V. run_state c V {} fs \<and> safe c V \<and>
        (is_quarantine_error e \<longrightarrow> e \<noteq> incomplete_rollback \<longrightarrow>
           V KSrc = Some (rx_inode c) \<and> V KHold = None \<and> V KTmp = None \<and> V KPay = None \<and> V KMeta = None)))"

lemma undone_outcome: "undone_run c s \<Longrightarrow> run_outcome c env rq good (Inl e) (qs_fs s)"
  by (auto simp: undone_run_def run_outcome_def in_run_def safe_def)

lemma kept_outcome: "kept_run c s \<Longrightarrow> \<not> is_quarantine_error e \<or> e = incomplete_rollback \<Longrightarrow> run_outcome c env rq good (Inl e) (qs_fs s)"
  by (auto simp: kept_run_def run_outcome_def in_run_def)

lemma not_caught: "\<not> is_caught e \<Longrightarrow> \<not> is_quarantine_error e"
  by (cases e) auto

lemma recover_run:
  assumes rdy: "ready_run c"
  shows "triple (failed_run c e) (recover_quarantine env (rx_cfg c) (rx_source c) e) (\<lambda>_ _. False)
    (\<lambda>e' s. run_outcome c env' rq good (Inl e') (qs_fs s))"
  unfolding recover_quarantine_def
proof (rule triple_if)
  assume "\<not> is_caught e"
  then show "triple (failed_run c e) (eff_raise e) (\<lambda>_ _. False) (\<lambda>e' s. run_outcome c env' rq good (Inl e') (qs_fs s))"
    by (intro triple_raise kept_outcome failed_kept) (auto simp: not_caught)
next
  have rb: "triple (failed_run c e) (rollback_quarantine env (rx_cfg c) (rx_source c))
      (\<lambda>problem s. (problem = None \<longrightarrow> undone_run c s) \<and> kept_run c s) (\<lambda>e' s. run_outcome c env' rq good (Inl e') (qs_fs s))"
    by (rule triple_weaken [OF rollback_run [OF rdy]]) auto
  show "triple (failed_run c e) (eff_bind (rollback_quarantine env (rx_cfg c) (rx_source c)) (\<lambda>problem.
        if problem \<noteq> None then eff_raise incomplete_rollback
        else if is_quarantine_error e then eff_raise e
        else eff_raise (QuarantineError ''Quarantine failed safely''))) (\<lambda>_ _. False)
      (\<lambda>e' s. run_outcome c env' rq good (Inl e') (qs_fs s))"
  proof (rule triple_bind [OF rb])
    fix problem :: "string option"
    show "triple (\<lambda>s. (problem = None \<longrightarrow> undone_run c s) \<and> kept_run c s)
        (if problem \<noteq> None then eff_raise incomplete_rollback
         else if is_quarantine_error e then eff_raise e else eff_raise (QuarantineError ''Quarantine failed safely''))
        (\<lambda>_ _. False) (\<lambda>e' s. run_outcome c env' rq good (Inl e') (qs_fs s))"
      by (cases problem) (simp_all add: triple_def undone_outcome kept_outcome)
  qed
qed

lemma audit_action_fs: "audit_action env tk ty target details s = (r, s') \<Longrightarrow> qs_fs s' = qs_fs s \<and> r = Inr ()"
  by (auto simp: audit_action_def split: option.splits prod.splits sum.splits)

lemma validated_dict: "validate_record env r = Inr u \<Longrightarrow> record_to_dict env r = Inr r"
  by (auto simp: validate_record_def res_bind_eq_Inr record_to_dict_def split: if_splits)

lemma quarantine_checked_outcome:
  assumes rdy: "ready_run c" and q: "quiet s" and fs: "qs_fs s = rx_fs c"
    and run: "quarantine_checked env (rx_cfg c) (rx_draws c) rq (rx_source c) reason pid process rules s = (res, s')"
  shows "run_outcome c env rq (record_of_run c env reason pid process rules) res (qs_fs s')"
proof -
  let ?good = "record_of_run c env reason pid process rules"
  let ?s0 = "s\<lparr>qs_vars := no_vars\<rparr>"
  have start: "in_run c (start_names (rx_inode c)) {} no_vars ?s0"
    using q_state_start [OF rdy [unfolded ready_run_def]] q fs by (simp add: in_run_def run_state_def quiet_def)
  have t: "triple (in_run c (start_names (rx_inode c)) {} no_vars)
      (eff_catch (quarantine_body env (rx_cfg c) (rx_draws c) rq (rx_source c) reason pid process rules)
         (recover_quarantine env (rx_cfg c) (rx_source c)))
      (\<lambda>r s. quarantined c env r s \<and> ?good r \<and> hash_matches (rq_hash rq) (qe_sha256 env (run_data c)))
      (\<lambda>e s. run_outcome c env rq ?good (Inl e) (qs_fs s))"
    by (rule triple_catch [OF quarantine_body_run [OF rdy]], rule triple_weaken [OF recover_run [OF rdy]]) auto
  have run': "eff_bind (eff_catch (quarantine_body env (rx_cfg c) (rx_draws c) rq (rx_source c) reason pid process rules)
         (recover_quarantine env (rx_cfg c) (rx_source c))) (\<lambda>r.
      eff_bind (eff_lift (record_to_dict env r)) (\<lambda>d.
      eff_bind (audit_action env (dr_tick (rx_draws c)) ''quarantine'' (path_text (rx_source c)) d) (\<lambda>_. eff_return r))) ?s0 = (res, s')"
    using run by (simp add: quarantine_checked_def set_vars_def eff_bind_def)
  from run' show ?thesis
  proof (cases rule: eff_bind_cases)
    case (raised e)
    then show ?thesis using tripleD(2) [OF t start] by simp
  next
    case (returned r u)
    then have r: "quarantined c env r u" "?good r" "hash_matches (rq_hash rq) (qe_sha256 env (run_data c))"
      using tripleD(1) [OF t start] by auto
    then have dict: "record_to_dict env r = Inr r" using validated_dict by (auto simp: quarantined_def)
    obtain x w where a: "audit_action env (dr_tick (rx_draws c)) ''quarantine'' (path_text (rx_source c)) r u = (x, w)"
      by (cases "audit_action env (dr_tick (rx_draws c)) ''quarantine'' (path_text (rx_source c)) r u")
    then have "res = Inr r" "qs_fs s' = qs_fs u"
      using returned(2) dict audit_action_fs [OF a] by (auto simp: eff_bind_def)
    then show ?thesis using r by (auto simp: run_outcome_def quarantined_def in_run_def)
  qed
qed

section \<open>From the arguments to a run\<close>

definition store_ready :: "q_cfg \<Rightarrow> q_cfg \<Rightarrow> fsys \<Rightarrow> bool" where
  "store_ready cfg rc fs \<longleftrightarrow> fs_ok fs \<and>
     realpath fs (qc_quarantine_dir cfg) = Some (qc_quarantine_dir rc) \<and> is_dir fs (qc_quarantine_dir rc) \<and>
     realpath fs (qc_metadata_dir cfg) = Some (qc_metadata_dir rc) \<and> is_dir fs (qc_metadata_dir rc)"

text \<open>The names made from the drawn identifiers, and that no entry has one of them.\<close>

definition drawn_names :: "draws \<Rightarrow> string list" where
  "drawn_names dr = (let t = uuid_text (dr_id dr) in
     [''.elyra-'' @ t @ ''.pending'', temporary_name t (dr_payload dr), t, t @ ''.json'', temporary_name t (dr_metadata dr)])"

definition fresh_draws :: "draws \<Rightarrow> fsys \<Rightarrow> bool" where
  "fresh_draws dr fs \<longleftrightarrow> dr_id dr < 2 ^ 128 \<and> hex_digits 32 (dr_payload dr) \<noteq> hex_digits 32 (dr_metadata dr) \<and>
     list_all (\<lambda>kv. fst kv = [] \<or> last (fst kv) \<notin> set (drawn_names dr)) (fs_names fs)"

text \<open>The path argument leads to the regular file \<open>i\<close> with the canonical path \<open>source\<close>.\<close>

definition names_file :: "q_env \<Rightarrow> fsys \<Rightarrow> string \<Rightarrow> path \<Rightarrow> nat \<Rightarrow> bool" where
  "names_file env fs t source i \<longleftrightarrow> (case expand_path env t of
      Inl _ \<Rightarrow> False
    | Inr (absolute, comps) \<Rightarrow> let raw = (if absolute then comps else qe_cwd env @ comps) in
        raw \<noteq> [] \<and> last raw \<noteq> ''..'' \<and> locate fs raw = Some source \<and> inode_at fs source = Some i \<and>
        is_regular (in_content (fs_inodes fs i)))"

definition run_of :: "q_cfg \<Rightarrow> q_cfg \<Rightarrow> draws \<Rightarrow> path \<Rightarrow> nat \<Rightarrow> fsys \<Rightarrow> run_ctx" where
  "run_of cfg rc dr source i fs = \<lparr>rx_cfg = cfg, rx_real = rc, rx_draws = dr, rx_source = source, rx_fs = fs, rx_inode = i\<rparr>"

lemma fresh_absent:
  assumes "fresh_draws dr fs" and "x \<in> set (drawn_names dr)"
  shows "inode_at fs (d @ [x]) = None"
proof (rule ccontr)
  assume "inode_at fs (d @ [x]) \<noteq> None"
  then obtain j where "(d @ [x], j) \<in> set (fs_names fs)" by (auto simp: inode_at_def dest: map_of_SomeD)
  then show False using assms by (auto simp: fresh_draws_def list_all_iff)
qed

lemma names_file_parts:
  assumes "names_file env fs t source i"
  obtains absolute comps raw d where "expand_path env t = Inr (absolute, comps)"
    "raw = (if absolute then comps else qe_cwd env @ comps)" "raw \<noteq> []" "last raw \<noteq> ''..''"
    "realpath fs (butlast raw) = Some d" "is_dir fs d" "source = d @ [last raw]" "inode_at fs source = Some i"
    "is_regular (in_content (fs_inodes fs i))" "lookup fs raw = Some i"
proof -
  obtain absolute comps where e: "expand_path env t = Inr (absolute, comps)"
    using assms by (auto simp: names_file_def split: sum.splits)
  define raw where "raw = (if absolute then comps else qe_cwd env @ comps)"
  have r: "raw \<noteq> []" "last raw \<noteq> ''..''" "locate fs raw = Some source" "inode_at fs source = Some i"
      "is_regular (in_content (fs_inodes fs i))"
    using assms e by (auto simp: names_file_def raw_def Let_def)
  then obtain d where "realpath fs (butlast raw) = Some d" "is_dir fs d" "source = d @ [last raw]"
    by (auto simp: locate_def split: option.splits if_splits)
  moreover have "lookup fs raw = Some i" using r by (simp add: lookup_def)
  ultimately show thesis using that e raw_def r by blast
qed

lemma run_of_ready:
  assumes "store_ready cfg rc fs" and fresh: "fresh_draws dr fs" and "names_file env fs t source i"
  shows "ready_run (run_of cfg rc dr source i fs)"
proof -
  obtain raw d where s: "last raw \<noteq> ''..''" "realpath fs (butlast raw) = Some d" "is_dir fs d" "source = d @ [last raw]"
      "inode_at fs source = Some i" "is_regular (in_content (fs_inodes fs i))"
    using names_file_parts [OF assms(3)] by metis
  have "inode_at fs (q_path rc dr source n) = None" if "n \<noteq> KSrc" for n
    using that by (cases n) (auto simp: q_path.simps id_text_def drawn_names_def Let_def intro!: fresh_absent [OF fresh])
  moreover have "q_path rc dr source KTmp \<noteq> q_path rc dr source KMtmp"
    using fresh by (simp add: q_path.simps temporary_name_def fresh_draws_def)
  ultimately show ?thesis
    using assms(1) fresh s realpath_real [OF s(2,3)]
    by (simp add: ready_run_def run_of_def ready_def store_ready_def fresh_draws_def)
qed

lemma canonical_source_path_looks:
  assumes q: "quiet s" and n: "names_file env (qs_fs s) t source i" and run: "canonical_source_path env t s = (r, s')"
  shows "qs_fs s' = qs_fs s \<and> quiet s' \<and> (\<forall>p. r = Inr p \<longrightarrow> p = source)"
proof -
  obtain absolute comps raw d where e: "expand_path env t = Inr (absolute, comps)"
      "raw = (if absolute then comps else qe_cwd env @ comps)" "raw \<noteq> []" "last raw \<noteq> ''..''"
      "realpath (qs_fs s) (butlast raw) = Some d" "source = d @ [last raw]"
    using names_file_parts [OF n] by metis
  let ?m = "eff_bind (q_lexists raw) (\<lambda>there.
     if \<not> there then eff_raise (QuarantineError ''Source file does not exist'')
     else eff_bind (q_lstat raw) (\<lambda>st.
       if is_link (st_content st) then eff_raise (QuarantineError ''Symbolic-link sources are not accepted'')
       else eff_bind (q_query (\<lambda>fs. realpath fs (butlast raw))) (\<lambda>r.
         case r of
           None \<Rightarrow> eff_raise (QuarantineError ''Cannot resolve source parent directory'')
         | Some d \<Rightarrow> let canonical = with_name d raw in
             eff_bind (q_lexists canonical) (\<lambda>still.
             if \<not> still then eff_raise (QuarantineError ''Source file disappeared before quarantine'')
             else eff_return canonical))))"
  have look: "looks ?m (\<lambda>fs p. \<forall>d. realpath fs (butlast raw) = Some d \<longrightarrow> p = with_name d raw) (\<lambda>_. True)"
  proof (rule looks_bind [OF q_lexists_looks], rule looks_if, simp add: looks_raise,
      rule looks_bind [OF looks_mono [OF q_lstat_looks, where Q' = "\<lambda>_ _. True" and E' = "\<lambda>_. True"]], simp, simp,
      rule looks_if, simp add: looks_raise, rule looks_bind [OF q_query_looks], goal_cases)
    case (1 there st r)
    then show ?case
      by (cases r) (auto intro!: looks_raise looks_bind [OF q_lexists_looks] looks_return simp: Let_def)
  qed
  have m: "?m s = (r, s')" using run unfolding canonical_source_path_def by (simp add: e(1) e(2) [symmetric])
  define M where "M = ?m"
  note M = looksD [OF look [folded M_def] q m [folded M_def]]
  show ?thesis using M(1,3) M(4) e(3,5,6) by (simp add: with_name_def)
qed

lemma quarantine_file_parts:
  assumes "quarantine_file env cfg dr rq s = (res, s')"
  shows "(\<exists>e. canonical_source_path env (rq_path rq) s = (Inl e, s') \<and> res = Inl e) \<or>
    (\<exists>source t. canonical_source_path env (rq_path rq) s = (Inr source, t) \<and>
      ((\<exists>e. res = Inl e \<and> s' = t) \<or>
       (\<exists>reason pid process rules. quarantine_checked env cfg dr rq source reason pid process rules t = (res, s'))))"
  using assms unfolding quarantine_file_def
  by (cases rule: eff_bind_cases)
    (auto simp: eff_bind_def reject_if_def split: sum.splits if_splits)

lemma early_outcome:
  assumes "ready_run c" and "fs = rx_fs c"
  shows "run_outcome c env rq good (Inl e) fs"
proof -
  have "run_state c (start_names (rx_inode c)) {} fs"
    using q_state_start [OF assms(1) [unfolded ready_run_def]] assms(2) by (simp add: run_state_def)
  then show ?thesis by (auto simp: run_outcome_def start_names_def safe_def)
qed

lemma quarantine_file_outcome:
  assumes q: "quiet s" and "store_ready cfg rc (qs_fs s)" and "fresh_draws dr (qs_fs s)"
    and src: "names_file env (qs_fs s) (rq_path rq) source i" and run: "quarantine_file env cfg dr rq s = (res, s')"
  shows "\<exists>reason pid process rules. run_outcome (run_of cfg rc dr source i (qs_fs s)) env rq
     (record_of_run (run_of cfg rc dr source i (qs_fs s)) env reason pid process rules) res (qs_fs s')"
proof -
  let ?c = "run_of cfg rc dr source i (qs_fs s)"
  have rdy: "ready_run ?c" using run_of_ready assms by blast
  have fields: "rx_cfg ?c = cfg" "rx_draws ?c = dr" "rx_source ?c = source" "rx_fs ?c = qs_fs s" by (simp_all add: run_of_def)
  consider (early) e where "res = Inl e" "qs_fs s' = qs_fs s"
    | (checked) t reason pid process rules where "quiet t" "qs_fs t = qs_fs s"
        "quarantine_checked env cfg dr rq source reason pid process rules t = (res, s')"
    using quarantine_file_parts [OF run] canonical_source_path_looks [OF q src] by blast
  then show ?thesis
  proof cases
    case early
    then show ?thesis using early_outcome [OF rdy] fields(4) by metis
  next
    case checked
    then show ?thesis using quarantine_checked_outcome [OF rdy checked(1)] fields by metis
  qed
qed

text \<open>What the state of a run says about names and contents.\<close>

lemma run_content_of:
  assumes "ready_run c" and st: "run_state c V W fs"
  shows "V n = Some (rx_inode c) \<Longrightarrow> content_at fs (run_key c n) = Some (RegularFile (run_data c))"
    and "V n = Some j \<Longrightarrow> (j, b, m) \<in> W \<Longrightarrow> content_at fs (run_key c n) = Some (RegularFile b) \<and> in_mode (fs_inodes fs j) = m"
    and "V n = None \<Longrightarrow> content_at fs (run_key c n) = None"
    and "k \<notin> range (run_key c) \<Longrightarrow> inode_at fs k = inode_at (rx_fs c) k \<and> content_at fs k = content_at (rx_fs c) k"
proof -
  have at: "inode_at fs (run_key c n) = V n" for n using st by (simp add: run_state_def q_state_def run_key_def)
  have i: "in_content (fs_inodes fs (rx_inode c)) = RegularFile (run_data c)"
    using same_node_fields(1) [OF run_bytes(2) [OF assms]] assms(1) inode_bytes_regular
    by (auto simp: ready_run_def ready_def run_data_def)
  show "V n = Some (rx_inode c) \<Longrightarrow> content_at fs (run_key c n) = Some (RegularFile (run_data c))"
    using at i by (simp add: content_at_def)
  show "V n = Some j \<Longrightarrow> (j, b, m) \<in> W \<Longrightarrow> content_at fs (run_key c n) = Some (RegularFile b) \<and> in_mode (fs_inodes fs j) = m"
    using at st by (simp add: content_at_def run_state_def q_state_def known_def)
  show "V n = None \<Longrightarrow> content_at fs (run_key c n) = None" using at by (simp add: content_at_def)
  assume k: "k \<notin> range (run_key c)"
  then have same: "inode_at fs k = inode_at (rx_fs c) k" using st by (simp add: run_state_def q_state_def run_key_def [abs_def])
  have "in_content (fs_inodes fs j) = in_content (fs_inodes (rx_fs c) j)" if "inode_at (rx_fs c) k = Some j" for j
  proof (rule same_nodes_content)
    show "same_nodes (rx_fs c) fs" using st by (simp add: run_state_def q_state_def)
    show "j < fs_next (rx_fs c)" using that assms(1) fs_okD by (auto simp: ready_run_def ready_def)
  qed
  then show "inode_at fs k = inode_at (rx_fs c) k \<and> content_at fs k = content_at (rx_fs c) k"
    using same by (cases "inode_at (rx_fs c) k") (auto simp: content_at_def)
qed

lemma run_keys:
  "run_key (run_of cfg rc dr source i fs) KSrc = source"
  "run_key (run_of cfg rc dr source i fs) KHold = holding_path dr source"
  "run_key (run_of cfg rc dr source i fs) KPay = qc_quarantine_dir rc @ [uuid_text (dr_id dr)]"
  "run_key (run_of cfg rc dr source i fs) KMeta = qc_metadata_dir rc @ [uuid_text (dr_id dr) @ ''.json'']"
  "run_key (run_of cfg rc dr source i fs) KMtmp = qc_metadata_dir rc @ [temporary_name (uuid_text (dr_id dr)) (dr_metadata dr)]"
  "run_data (run_of cfg rc dr source i fs) = inode_bytes fs i"
  by (simp_all add: run_key_def run_of_def q_path.simps holding_path_def id_text_def run_data_def)

section \<open>The example store meets the hypotheses\<close>

lemma example_quiet: "quiet (example_store [])" "quiet (example_store example_failure)"
  by (auto simp: quiet_def quiet_event_def example_store_def example_failure_def)

lemma example_files: "qs_fs (example_store ocs) = example_fs"
  by (simp add: example_store_def)

lemma example_store_ready: "store_ready example_cfg example_cfg example_fs"
proof -
  have "i < 5" if "inode_at example_fs k = Some i" for k i
    using that by (auto simp: inode_at_def example_fs_def split: if_splits)
  then have "fs_ok example_fs" by (simp add: fs_ok_def) (simp add: example_fs_def is_dir_def content_at_def inode_at_def example_inode_def)
  then show ?thesis
    by (simp add: store_ready_def example_env_simps)
      (simp add: realpath_def is_dir_def content_at_def inode_at_def example_fs_def example_inode_def)
qed

lemma example_fresh: "fresh_draws example_draws example_fs"
  by (simp add: fresh_draws_def drawn_names_def example_env_simps example_names temporary_name_def example_fs_def)

lemma example_source: "names_file example_env example_fs (rq_path example_request) [''t'', ''x''] 4"
  by (simp add: names_file_def example_request_def example_arguments)
    (simp add: locate_def realpath_def is_dir_def content_at_def inode_at_def example_fs_def example_inode_def)

lemmas example_hypotheses = example_quiet example_store_ready example_fresh example_source

section \<open>What the caller of \<open>quarantine_file\<close> can rely on\<close>

lemma outcome_safe:
  assumes rdy: "ready_run c" and out: "run_outcome c env rq good res fs"
  shows "\<exists>n \<in> {KSrc, KHold, KPay}. content_at fs (run_key c n) = Some (RegularFile (run_data c))"
proof (cases res)
  case (Inl e)
  then obtain V where "run_state c V {} fs" "V KSrc = Some (rx_inode c) \<or> V KHold = Some (rx_inode c)"
    using out by (auto simp: run_outcome_def safe_def)
  then show ?thesis using run_content_of(1) [OF rdy] by blast
next
  case (Inr r)
  then obtain j m b where st: "run_state c ((\<lambda>_. None)(KPay := Some j, KMeta := Some m)) {(m, b, 384), (j, run_data c, 384)} fs"
    using out by (auto simp: run_outcome_def)
  then show ?thesis using run_content_of(2) [OF rdy st, of KPay j "run_data c" 384] by simp
qed

lemma ready_names:
  assumes "ready_run c"
  shows "inode_at (rx_fs c) (run_key c n) = start_names (rx_inode c) n"
    and "content_at (rx_fs c) (run_key c KSrc) = Some (RegularFile (run_data c))"
proof -
  have st: "run_state c (start_names (rx_inode c)) {} (rx_fs c)"
    using q_state_start assms by (simp add: run_state_def ready_run_def)
  then show "inode_at (rx_fs c) (run_key c n) = start_names (rx_inode c) n"
    by (simp add: run_state_def q_state_def run_key_def)
  show "content_at (rx_fs c) (run_key c KSrc) = Some (RegularFile (run_data c))"
    using run_content_of(1) [OF assms st] by (simp add: start_names_def)
qed

lemma outcome_undone:
  assumes rdy: "ready_run c" and out: "run_outcome c env rq good (Inl e) fs"
    and e: "is_quarantine_error e" "e \<noteq> incomplete_rollback" and k: "k \<noteq> run_key c KMtmp"
  shows "inode_at fs k = inode_at (rx_fs c) k \<and> content_at fs k = content_at (rx_fs c) k"
proof (cases "k \<in> range (run_key c)")
  case True
  then obtain n where n: "k = run_key c n" "n \<noteq> KMtmp" using k by auto
  obtain V where st: "run_state c V {} fs" and V: "V KSrc = Some (rx_inode c)" "V KHold = None" "V KTmp = None" "V KPay = None" "V KMeta = None"
    using out e by (auto simp: run_outcome_def)
  have "V n = start_names (rx_inode c) n" using V n(2) by (cases n) (auto simp: start_names_def)
  then have same: "inode_at fs k = inode_at (rx_fs c) k"
    using st n(1) ready_names(1) [OF rdy] by (simp add: run_state_def q_state_def run_key_def)
  have "content_at fs k = content_at (rx_fs c) k"
  proof (cases "n = KSrc")
    case True
    then show ?thesis using run_content_of(1) [OF rdy st V(1)] ready_names(2) [OF rdy] n(1) by simp
  next
    case False
    then have "inode_at (rx_fs c) k = None" using ready_names(1) [OF rdy] n(1) by (simp add: start_names_def)
    then show ?thesis using same by (simp add: content_at_def)
  qed
  then show ?thesis using same by simp
next
  case False
  then show ?thesis using out run_content_of(4) [OF rdy] by (auto simp: run_outcome_def)
qed

text \<open>C27: Whatever \<open>quarantine_file\<close> returns or raises, and whichever of its system calls fail or are cut short,
  the bytes of the file are afterwards at its original path, at the holding name beside it, or in the
  payload of the quarantine: no failure loses the file.
\<close>

theorem quarantine_never_loses_the_file:
  assumes "quiet s" and "store_ready cfg rc (qs_fs s)" and "fresh_draws dr (qs_fs s)"
    and "names_file env (qs_fs s) (rq_path rq) source i" and "quarantine_file env cfg dr rq s = (res, s')"
  shows "\<exists>k \<in> {source, holding_path dr source, qc_quarantine_dir rc @ [uuid_text (dr_id dr)]}.
    content_at (qs_fs s') k = Some (RegularFile (inode_bytes (qs_fs s) i))"
proof -
  let ?c = "run_of cfg rc dr source i (qs_fs s)"
  have "ready_run ?c" using run_of_ready assms(2-4) by blast
  moreover obtain good where "run_outcome ?c env rq good res (qs_fs s')"
    using quarantine_file_outcome [OF assms] by blast
  ultimately show ?thesis using outcome_safe [of ?c] by (simp add: run_keys)
qed

theorem quarantine_never_loses_the_file_witness:
  "\<exists>k \<in> {[''t'', ''x''], holding_path example_draws [''t'', ''x''], [''q'', uuid_text 7]}.
    content_at (qs_fs (snd (quarantine_file example_env example_cfg example_draws example_request (example_store example_failure)))) k =
      Some (RegularFile ''abc'')"
  using quarantine_never_loses_the_file [OF example_quiet(2), unfolded example_files, OF example_store_ready example_fresh
      example_source, where s' = "snd (quarantine_file example_env example_cfg example_draws example_request (example_store example_failure))",
      OF prod.collapse [symmetric]]
  by (simp add: example_env_simps) (simp add: inode_bytes_def example_fs_def example_inode_def)

text \<open>C28: When \<open>quarantine_file\<close> raises a quarantine error other than the one that reports an incomplete
  rollback, every name of the file system leads to the same file with the same bytes as before; only
  the temporary name of the metadata file is not covered.
\<close>

theorem quarantine_error_is_undone:
  assumes "quiet s" and "store_ready cfg rc (qs_fs s)" and "fresh_draws dr (qs_fs s)"
    and "names_file env (qs_fs s) (rq_path rq) source i" and "quarantine_file env cfg dr rq s = (Inl e, s')"
    and "is_quarantine_error e" and "e \<noteq> incomplete_rollback"
    and "k \<noteq> qc_metadata_dir rc @ [temporary_name (uuid_text (dr_id dr)) (dr_metadata dr)]"
  shows "inode_at (qs_fs s') k = inode_at (qs_fs s) k \<and> content_at (qs_fs s') k = content_at (qs_fs s) k"
proof -
  let ?c = "run_of cfg rc dr source i (qs_fs s)"
  have rdy: "ready_run ?c" using run_of_ready assms(2-4) by blast
  obtain good where out: "run_outcome ?c env rq good (Inl e) (qs_fs s')"
    using quarantine_file_outcome [OF assms(1-5)] by blast
  show ?thesis
    using outcome_undone [OF rdy out assms(6,7)] assms(8) by (simp add: run_keys) (simp add: run_of_def)
qed

theorem quarantine_error_is_undone_witness:
  "fst (quarantine_file example_env example_cfg example_draws example_request (example_store example_failure)) =
     Inl (QuarantineError ''Quarantine failed safely'') \<and>
   inode_at (qs_fs (snd (quarantine_file example_env example_cfg example_draws example_request (example_store example_failure))))
     [''t'', ''x''] = Some 4"
proof -
  let ?run = "quarantine_file example_env example_cfg example_draws example_request (example_store example_failure)"
  have "?run = (Inl (QuarantineError ''Quarantine failed safely''), snd ?run)"
    using example_fails by (metis prod.collapse)
  from quarantine_error_is_undone [OF example_quiet(2), unfolded example_files, OF example_store_ready example_fresh example_source this,
      of "[''t'', ''x'']"]
  show ?thesis
    using example_fails by (simp add: incomplete_rollback_def example_env_simps) (simp add: inode_at_def example_fs_def)
qed

text \<open>The fields by which a record describes the file that was taken away.\<close>

definition describes :: "q_env \<Rightarrow> draws \<Rightarrow> path \<Rightarrow> string \<Rightarrow> pydict \<Rightarrow> bool" where
  "describes env dr source bytes r \<longleftrightarrow>
     py_get r ''quarantine_id'' = PStr (uuid_text (dr_id dr)) \<and>
     py_get r ''original_path'' = PStr (path_text source) \<and>
     py_get r ''sha256'' = PStr (qe_sha256 env bytes) \<and>
     py_get r ''size_bytes'' = PInt (int (length bytes)) \<and>
     py_get r ''restoration_status'' = PStr ''quarantined''"

lemma record_describes:
  assumes "record_of_run c env reason pid process rules r"
  shows "describes env (rx_draws c) (rx_source c) (run_data c) r"
proof -
  obtain st ft utc where st: "run_stat c st"
    and r: "new_record env (rx_draws c) (rx_source c) (qe_sha256 env (run_data c)) st ft reason pid process rules = Inr r"
    using assms by (auto simp: record_of_run_def)
  have "st_size st = length (run_data c)" using st by (auto simp: run_stat_def)
  then show ?thesis using r
    by (auto simp: new_record_def res_bind_eq_Inr describes_def py_get_def dict_get_or_def DEFAULT_FIELDS_def)
qed

lemma outcome_stored:
  assumes rdy: "ready_run c" and out: "run_outcome c env rq good (Inr r) fs"
  shows "content_at fs (run_key c KPay) = Some (RegularFile (run_data c))"
    and "map_option (\<lambda>j. in_mode (fs_inodes fs j)) (inode_at fs (run_key c KPay)) = Some 384"
    and "\<exists>b. metadata_bytes env r = Inr b \<and> content_at fs (run_key c KMeta) = Some (RegularFile b)"
    and "n \<notin> {KPay, KMeta} \<Longrightarrow> content_at fs (run_key c n) = None"
    and "k \<notin> range (run_key c) \<Longrightarrow> inode_at fs k = inode_at (rx_fs c) k \<and> content_at fs k = content_at (rx_fs c) k"
proof -
  obtain j m b where b: "metadata_bytes env r = Inr b"
    and st: "run_state c ((\<lambda>_. None)(KPay := Some j, KMeta := Some m)) {(m, b, 384), (j, run_data c, 384)} fs"
    using out by (auto simp: run_outcome_def)
  have at: "inode_at fs (run_key c KPay) = Some j" using st by (simp add: run_state_def q_state_def run_key_def)
  note pay = run_content_of(2) [OF rdy st, of KPay j "run_data c" 384, simplified]
  show "content_at fs (run_key c KPay) = Some (RegularFile (run_data c))" using pay by simp
  show "map_option (\<lambda>j. in_mode (fs_inodes fs j)) (inode_at fs (run_key c KPay)) = Some 384" using pay at by simp
  show "\<exists>b. metadata_bytes env r = Inr b \<and> content_at fs (run_key c KMeta) = Some (RegularFile b)"
    using b run_content_of(2) [OF rdy st, of KMeta m b 384] by simp
  show "n \<notin> {KPay, KMeta} \<Longrightarrow> content_at fs (run_key c n) = None" using run_content_of(3) [OF rdy st] by simp
  show "k \<notin> range (run_key c) \<Longrightarrow> inode_at fs k = inode_at (rx_fs c) k \<and> content_at fs k = content_at (rx_fs c) k"
    using run_content_of(4) [OF rdy st] by simp
qed

text \<open>The names a run may touch.\<close>

definition run_files :: "q_cfg \<Rightarrow> draws \<Rightarrow> path \<Rightarrow> path list" where
  "run_files rc dr source = (let t = uuid_text (dr_id dr) in
     [source, holding_path dr source, qc_quarantine_dir rc @ [temporary_name t (dr_payload dr)], qc_quarantine_dir rc @ [t],
      qc_metadata_dir rc @ [temporary_name t (dr_metadata dr)], qc_metadata_dir rc @ [t @ ''.json'']])"

lemma outside_run: "k \<notin> set (run_files rc dr source) \<Longrightarrow> k \<notin> range (run_key (run_of cfg rc dr source i fs))"
proof (rule notI, erule rangeE)
  fix n
  assume "k \<notin> set (run_files rc dr source)" "k = run_key (run_of cfg rc dr source i fs) n"
  then show False
    by (cases n) (simp_all add: run_files_def run_key_def run_of_def q_path.simps holding_path_def id_text_def Let_def)
qed

text \<open>C29: When \<open>quarantine_file\<close> returns a record, the file is gone from its path and from the holding name,
  the payload holds its bytes with mode 0600, the metadata file holds the record as JSON, the record
  describes the file, the file matched the expected hash, the record passes its own validation and no
  name outside the six of the run changed.
\<close>

theorem quarantine_takes_the_file:
  assumes "quiet s" and "store_ready cfg rc (qs_fs s)" and "fresh_draws dr (qs_fs s)"
    and "names_file env (qs_fs s) (rq_path rq) source i" and "quarantine_file env cfg dr rq s = (Inr r, s')"
  shows "content_at (qs_fs s') source = None \<and> content_at (qs_fs s') (holding_path dr source) = None \<and>
    content_at (qs_fs s') (qc_quarantine_dir rc @ [uuid_text (dr_id dr)]) = Some (RegularFile (inode_bytes (qs_fs s) i)) \<and>
    map_option (\<lambda>j. in_mode (fs_inodes (qs_fs s') j)) (inode_at (qs_fs s') (qc_quarantine_dir rc @ [uuid_text (dr_id dr)])) = Some 384 \<and>
    (\<exists>b. metadata_bytes env r = Inr b \<and>
       content_at (qs_fs s') (qc_metadata_dir rc @ [uuid_text (dr_id dr) @ ''.json'']) = Some (RegularFile b)) \<and>
    describes env dr source (inode_bytes (qs_fs s) i) r \<and> validate_record env r = Inr () \<and>
    hash_matches (rq_hash rq) (qe_sha256 env (inode_bytes (qs_fs s) i)) \<and>
    (\<forall>k. k \<notin> set (run_files rc dr source) \<longrightarrow>
       inode_at (qs_fs s') k = inode_at (qs_fs s) k \<and> content_at (qs_fs s') k = content_at (qs_fs s) k)"
proof -
  let ?c = "run_of cfg rc dr source i (qs_fs s)"
  have rdy: "ready_run ?c" using run_of_ready assms(2-4) by blast
  obtain reason pid process rules where
    out: "run_outcome ?c env rq (record_of_run ?c env reason pid process rules) (Inr r) (qs_fs s')"
    using quarantine_file_outcome [OF assms] by blast
  have "describes env (rx_draws ?c) (rx_source ?c) (run_data ?c) r"
    using out record_describes by (auto simp: run_outcome_def)
  then have "describes env dr source (inode_bytes (qs_fs s) i) r"
    by (simp add: run_keys) (simp add: run_of_def)
  moreover have "validate_record env r = Inr ()" "hash_matches (rq_hash rq) (qe_sha256 env (inode_bytes (qs_fs s) i))"
    using out by (simp_all add: run_outcome_def run_keys)
  moreover have "inode_at (qs_fs s') k = inode_at (qs_fs s) k \<and> content_at (qs_fs s') k = content_at (qs_fs s) k"
    if "k \<notin> set (run_files rc dr source)" for k
    using outcome_stored(5) [OF rdy out outside_run [OF that]] by (simp add: run_of_def)
  moreover note outcome_stored(1-3) [OF rdy out, unfolded run_keys]
    outcome_stored(4) [OF rdy out, of KSrc, unfolded run_keys] outcome_stored(4) [OF rdy out, of KHold, unfolded run_keys]
  ultimately show ?thesis by simp
qed

theorem quarantine_takes_the_file_witness:
  "fst (quarantine_file example_env example_cfg example_draws example_request (example_store [])) = Inr example_record \<and>
   content_at (qs_fs (snd (quarantine_file example_env example_cfg example_draws example_request (example_store []))))
     [''q'', uuid_text 7] = Some (RegularFile ''abc'')"
proof -
  let ?run = "quarantine_file example_env example_cfg example_draws example_request (example_store [])"
  have "?run = (Inr example_record, snd ?run)"
    using example_returns(1) by (metis prod.collapse)
  from quarantine_takes_the_file [OF example_quiet(1), unfolded example_files, OF example_store_ready example_fresh example_source this]
  show ?thesis
    using example_returns(1) by (simp add: example_env_simps) (simp add: inode_bytes_def example_fs_def example_inode_def)
qed

end
