(* ===== verification/Quarantine_Records.thy ===== *)
theory Quarantine_Records
  imports Quarantine
begin

text \<open>
  Reading records back: the type of what \<open>get_record\<close> returns, and that the metadata a quarantine wrote
  reads back as the same record.
\<close>

section \<open>Records read back\<close>

text \<open>
  The shape that every record of the store has: exactly the fields of the dataclass, with the checked
  ones of their types. The digest is checked by its length and its items only, so a list of 64 texts
  passes too.
\<close>

definition record_typed :: "pydict \<Rightarrow> bool" where
  "record_typed r \<longleftrightarrow> map fst r = RECORD_FIELDS \<and>
     (case py_get r ''original_path'' of PStr t \<Rightarrow> starts_with t ''/'' | _ \<Rightarrow> False) \<and>
     (case py_get r ''sha256'' of PStr t \<Rightarrow> text_length t = 64 \<and> list_all hex_digit t
        | PList xs \<Rightarrow> length xs = 64 | PDict d \<Rightarrow> length d = 64 | _ \<Rightarrow> False) \<and>
     (case py_get r ''size_bytes'' of PInt i \<Rightarrow> 0 \<le> i | PBool _ \<Rightarrow> True | _ \<Rightarrow> False) \<and>
     py_get r ''restoration_status'' \<in> set [PStr ''quarantined'', PStr ''restored'', PStr ''deleted''] \<and>
     is_list (py_get r ''triggered_rules'') \<and> is_dict (py_get r ''process_info'')"

lemma refuse_Inr [simp]: "refuse b msg = Inr u \<longleftrightarrow> \<not> b"
  by (simp add: refuse_def)

lemma validate_record_typed:
  assumes "validate_record env r = Inr u" and "map fst r = RECORD_FIELDS"
  shows "record_typed r"
proof -
  obtain path_ok sha_bad status_bad where v: "is_absolute_path (py_get r ''original_path'') = Inr path_ok" "path_ok"
      "bad_sha256 (py_get r ''sha256'') = Inr sha_bad" "\<not> sha_bad" "\<not> bad_size (py_get r ''size_bytes'')"
      "bad_status (py_get r ''restoration_status'') = Inr status_bad" "\<not> status_bad"
      "is_list (py_get r ''triggered_rules'')" "is_dict (py_get r ''process_info'')"
    using assms(1) unfolding validate_record_def res_bind_eq_Inr refuse_Inr by blast
  show ?thesis
    unfolding record_typed_def
    using v assms(2)
    by (auto simp: is_absolute_path_def bad_sha256_def bad_size_def bad_status_def split: pyval.splits if_splits)
qed

lemma decode_metadata_typed:
  assumes "decode_metadata env t raw = Inr r"
  shows "record_typed r \<and> py_get r ''quarantine_id'' = PStr t"
proof -
  obtain data where "make_record data = Inr r" "validate_record env r = Inr ()" "py_get r ''quarantine_id'' = PStr t"
    using assms by (auto simp: decode_metadata_def res_bind_eq_Inr split: if_splits sum.splits pyval.splits)
  then show ?thesis
    using validate_record_typed [of env r "()"] by (auto simp: make_record_def comp_def split: if_splits)
qed

text \<open>C30: Whatever is on the disk and whoever changes it meanwhile, a record that \<open>get_record\<close> returns has
  exactly the fields of \<open>QuarantineRecord\<close>, with the checked fields of their types, and the identifier
  that was asked for in its canonical form.
\<close>

theorem get_record_typed:
  assumes "get_record env cfg v s = (Inr r, s')"
  shows "record_typed r \<and> (\<exists>t. validate_quarantine_id v = Inr t \<and> py_get r ''quarantine_id'' = PStr t)"
proof -
  obtain t p raw w where "validate_quarantine_id v = Inr t" "eff_lift (decode_metadata env t raw) w = (Inr r, s')"
    using assms unfolding get_record_def load_metadata_def eff_bind_Inr
    by (auto simp: eff_lift_def eff_bind_Inr split: if_splits sum.splits)
  then show ?thesis using decode_metadata_typed [of env t raw r] by (auto simp: eff_lift_def split: sum.splits)
qed

section \<open>The written record reads back\<close>

text \<open>A record as it comes back: the values of nested dictionaries are sorted by their keys.\<close>

definition sort_record :: "pydict \<Rightarrow> pydict" where
  "sort_record r = map (\<lambda>kv. (fst kv, sort_value (snd kv))) r"

lemma sort_record_keys: "map fst (sort_record r) = map fst r"
  by (simp add: sort_record_def comp_def)

lemma sort_record_get: "py_get (sort_record r) k = sort_value (py_get r k)"
  by (simp add: py_get_def dict_get_or_def sort_record_def map_of_values split: option.splits)

lemma sort_value_kinds:
  "is_list (sort_value v) = is_list v" "is_dict (sort_value v) = is_dict v"
  "sort_value v = PStr t \<longleftrightarrow> v = PStr t" "bad_size (sort_value v) = bad_size v"
  by (cases v; simp add: bad_size_def)+

lemma fold_max_set: "fold max xs (n::nat) = Max (insert n (set xs))"
  using Max.set_eq_fold [of n xs] by simp

lemma nesting_sort: "nesting (sort_value v) = nesting v"
proof (induction v rule: sort_value.induct)
  case (1 xs)
  then show ?case by (simp add: comp_def cong: map_cong)
next
  case (2 d)
  have "(\<lambda>kv. nesting (snd kv)) ` (\<lambda>kv. (fst kv, sort_value (snd kv))) ` set d = (\<lambda>kv. nesting (snd kv)) ` set d"
    unfolding image_image using 2 by (intro image_cong) auto
  then show ?case by (simp add: fold_max_set)
qed simp_all

lemma map_res_returns: "(\<And>x. x \<in> set xs \<Longrightarrow> \<exists>y. f x = Inr y) \<Longrightarrow> \<exists>ys. map_res f xs = Inr ys"
proof (induction xs)
  case (Cons x xs)
  then obtain y ys where "f x = Inr y" "map_res f xs = Inr ys" by (meson list.set_intros)
  then show ?case by simp
qed simp

lemma json_ok_prints:
  assumes "json_ok st v"
  shows "\<exists>t. dumps_at st' n v = Inr t"
  using assms
proof (induction st' n v rule: dumps_at.induct)
  case (4 st' n f)
  then show ?case by (auto simp: json_float_def split: pyfloat.splits)
next
  case (6 st' n xs)
  then have "\<exists>ts. map_res (dumps_at st' (Suc n)) xs = Inr ts" by (intro map_res_returns) (auto simp: list_all_iff)
  then show ?case by auto
next
  case (7 st' n d)
  have "\<exists>y. res_bind (dumps_at st' (Suc n) (snd kv)) (\<lambda>t. Inr (json_text (fst kv) @ js_key st' @ t)) = Inr y"
    if kv: "kv \<in> set d" for kv
  proof -
    have "json_ok st (snd kv)" using 7(2) kv by (auto simp: list_all_iff)
    then obtain t where "dumps_at st' (Suc n) (snd kv) = Inr t" using 7(1) [OF kv] by blast
    then show ?thesis by simp
  qed
  then have "\<exists>ts. map_res (\<lambda>kv. res_bind (dumps_at st' (Suc n) (snd kv)) (\<lambda>t. Inr (json_text (fst kv) @ js_key st' @ t))) d = Inr ts"
    by (rule map_res_returns)
  then show ?case by auto
qed simp_all

lemma sort_value_checks:
  "py_eq (sort_value v) (PInt i) = py_eq v (PInt i)" "validate_quarantine_id (sort_value v) = validate_quarantine_id v"
  "is_absolute_path (sort_value v) = is_absolute_path v" "bad_status (sort_value v) = bad_status v"
  by (cases v; simp add: py_eq_def validate_quarantine_id_def is_absolute_path_def bad_status_def)+

lemma nesting_sort_record: "nesting (PDict (sort_record r)) = nesting (PDict r)"
proof -
  have "map (\<lambda>kv. nesting (snd kv)) (sort_record r) = map (\<lambda>kv. nesting (snd kv)) r"
    by (simp add: sort_record_def nesting_sort)
  then show ?thesis by simp
qed

lemma json_ok_sort_record: "json_ok st (PDict r) \<Longrightarrow> json_ok st (PDict (sort_record r))"
  by (auto simp: dict_ok_def sort_record_keys) (auto simp: sort_record_def list_all_iff json_ok_sort)

lemma validate_sort_record:
  assumes "validate_record env r = Inr ()" and ok: "json_ok st (PDict r)" and "is_str (py_get r ''sha256'')"
  shows "validate_record env (sort_record r) = Inr ()"
proof -
  have sha: "sort_value (py_get r ''sha256'') = py_get r ''sha256''" using assms(3) by (cases "py_get r ''sha256''") auto
  obtain t where "dumps (strict_style env) (PDict (sort_record r)) = Inr t"
    using json_ok_prints [OF json_ok_sort_record [OF ok]] by blast
  then have "require_json_value env (PDict (sort_record r)) ''metadata'' = Inr (PDict (sort_record r))"
    if "require_json_value env (PDict r) ''metadata'' = Inr x" for x
    using that by (simp add: require_json_value_def nesting_sort_record del: nesting.simps split: if_splits)
  moreover have "record_to_dict env (sort_record r) = Inr (sort_record r)" if "record_to_dict env r = Inr x" for x
    using that by (simp add: record_to_dict_def nesting_sort_record del: nesting.simps split: if_splits)
  moreover have "record_to_dict env r = Inr x \<Longrightarrow> x = r" for x
    by (simp add: record_to_dict_def split: if_splits)
  ultimately show ?thesis
    using assms(1) unfolding validate_record_def sort_record_get sha sort_value_checks sort_value_kinds
    by (auto simp: res_bind_eq_Inr)
qed

lemma record_items:
  assumes "dict_ok q" and "\<And>k. map_of data k = map_of q k"
  shows "map (\<lambda>k. (k, dict_get_or data k (f k))) (map fst q) = q"
proof -
  have at: "(fst kv, dict_get_or data (fst kv) (f (fst kv))) = kv" if "kv \<in> set q" for kv
  proof -
    have "dict_get q (fst kv) = Some (snd kv)" using dict_in_set_get [OF assms(1), of "fst kv" "snd kv"] that by simp
    then show ?thesis using assms(2) by (simp add: dict_get_or_def)
  qed
  have "map (\<lambda>kv. (fst kv, dict_get_or data (fst kv) (f (fst kv)))) q = q" by (rule map_idI) (rule at)
  then show ?thesis by (simp add: comp_def)
qed

lemma RECORD_FIELDS_distinct: "distinct RECORD_FIELDS"
  by code_simp

lemma make_sorted_record:
  assumes keys: "map fst r = RECORD_FIELDS" and data: "sort_value (PDict r) = PDict data"
  shows "make_record data = Inr (sort_record r)"
proof -
  have ok: "dict_ok (sort_record r)" using keys RECORD_FIELDS_distinct by (simp add: dict_ok_def sort_record_keys)
  have d: "data = sort_key fst (sort_record r)" using data by (simp add: sort_record_def)
  have get: "map_of data k = map_of (sort_record r) k" for k using map_of_sort_key [OF ok] d by simp
  have "set (map fst data) = set (map fst (sort_record r))" using d by simp
  then have fields: "set (map fst data) = set RECORD_FIELDS" by (simp only: sort_record_keys keys)
  have "list_all (\<lambda>k. k \<in> set RECORD_FIELDS) (map fst data)" using fields by (simp add: list_all_iff del: set_map)
  moreover have "list_all (\<lambda>k. dict_get data k \<noteq> None) REQUIRED_FIELDS"
    using fields by (auto simp: list_all_iff dict_get_None_iff RECORD_FIELDS_def)
  ultimately show ?thesis
    using record_items [OF ok get, of "py_get DEFAULT_FIELDS"] by (simp add: make_record_def sort_record_keys keys)
qed

lemma decode_written:
  assumes bytes: "metadata_bytes env r = Inr b" and valid: "validate_record env r = Inr ()" and keys: "map fst r = RECORD_FIELDS"
    and ok: "json_ok (indented_style (qe_float env)) (PDict r)" and depth: "nesting (PDict r) \<le> qe_loads_depth env"
    and "py_get r ''quarantine_id'' = PStr t" and "is_str (py_get r ''sha256'')"
  shows "decode_metadata env t b = Inr (sort_record r)"
proof -
  obtain data where data: "sort_value (PDict r) = PDict data" by simp
  have print: "dumps (indented_style (qe_float env)) (PDict data) = Inr b" "utf8_valid b"
    using bytes data by (auto simp: metadata_bytes_def res_bind_eq_Inr record_to_dict_def lift_q_def encode_utf8_def
      split: if_splits sum.splits simp del: nesting.simps sort_value.simps)
  have "loads (qe_loads_depth env) b = Inr (PDict data)"
  proof (rule loads_dumps [OF indented_style_ok print(1)])
    show "json_ok (indented_style (qe_float env)) (PDict data)" using json_ok_sort [OF ok] data by metis
    show "nesting (PDict data) \<le> qe_loads_depth env" using nesting_sort [of "PDict r"] data depth by metis
  qed
  moreover have "make_record data = Inr (sort_record r)" by (rule make_sorted_record [OF keys data])
  moreover have "validate_record env (sort_record r) = Inr ()" using validate_sort_record [OF valid ok] assms(7) by simp
  ultimately show ?thesis
    using print(2) assms(6) sort_record_get [of r "''quarantine_id''"] by (simp add: decode_metadata_def)
qed

text \<open>Reading a metadata file when no call fails.\<close>

lemma calm_query: "qs_events s = [] \<Longrightarrow> q_query f s = (Inr (f (qs_fs s)), s)"
  by (simp add: q_query_def next_event_def eff_gets_def)

lemma calm_read: "qs_events s = [] \<Longrightarrow> f (qs_fs s) = Inr x \<Longrightarrow> q_read f s = (Inr x, s)"
  by (simp add: q_read_def next_event_def)

lemma valid_id_again:
  assumes "validate_quarantine_id v = Inr t"
  shows "validate_quarantine_id (PStr t) = Inr t"
proof -
  have "\<exists>n u. uuid_text n = t \<and> uuid_of u = Some n"
    using assms by (auto simp: validate_quarantine_id_def split: pyval.splits option.splits if_splits)
  then show ?thesis using validate_own_id uuid_of_bound by blast
qed

lemma calm_load:
  assumes calm: "qs_events s = []" and id: "validate_quarantine_id v = Inr t" and "qc_metadata_dir cfg @ [t @ ''.json''] = p"
    and at: "locate (qs_fs s) p = Some k" "inode_at (qs_fs s) k = Some i" "in_content (fs_inodes (qs_fs s) i) = RegularFile b"
  shows "get_record env cfg v s = (decode_metadata env t b, s)"
proof -
  have look: "lookup (qs_fs s) p = Some i" using at by (simp add: lookup_def)
  have dots: "last p \<noteq> ''..''" "p \<noteq> []" using assms(3) by auto
  have st: "q_lexists p s = (Inr True, s)" "q_lstat p s = (Inr (stat_of (qs_fs s) i), s)"
    using look calm by (simp_all add: q_lexists_def q_lstat_def calm_query eff_return_def)
  have "eff_catch (eff_bind (q_read (sys_open_follow p)) (\<lambda>fd. q_query (\<lambda>fs. inode_bytes fs fd))) h s = (Inr b, s)" for h
    using calm_read [OF calm, of "sys_open_follow p" i] open_follow_regular [OF at(1) dots(2,1) at(2)] calm at(3)
    by (simp add: eff_catch_def calm_query inode_bytes_def)
  moreover have "metadata_path cfg (PStr t) = Inr p"
    using valid_id_again [OF id] assms(3) by (simp add: metadata_path_def)
  ultimately show ?thesis
    unfolding get_record_def load_metadata_def using id st at(3)
    by (simp add: eff_lift_def eff_bind_def stat_of_def Let_def split: sum.splits)
qed


lemma new_record_fields: "new_record env dr source h st ft reason pid process rules = Inr r \<Longrightarrow> map fst r = RECORD_FIELDS"
  by (auto simp: new_record_def res_bind_eq_Inr RECORD_FIELDS_def REQUIRED_FIELDS_def)

text \<open>C31: After a quarantine that returned a record, \<open>get_record\<close> with the identifier of the record returns the
  same record, up to the order of the keys of nested dictionaries: the metadata file is a faithful
  copy. The hypotheses ask that the floats of the record print as number tokens that read as the same
  float, that dictionaries have no repeated key and that the record nests less deep than the reader
  accepts.
\<close>

theorem quarantined_record_reads_back:
  assumes "quiet s" and "store_ready cfg rc (qs_fs s)" and "fresh_draws dr (qs_fs s)"
    and "names_file env (qs_fs s) (rq_path rq) source i" and "quarantine_file env cfg dr rq s = (Inr r, s')"
    and "json_ok (indented_style (qe_float env)) (PDict r)" and "nesting (PDict r) \<le> qe_loads_depth env"
    and "qs_events s' = []"
  shows "get_record env cfg (py_get r ''quarantine_id'') s' = (Inr (sort_record r), s')"
proof -
  let ?c = "run_of cfg rc dr source i (qs_fs s)"
  have rdy: "ready_run ?c" using run_of_ready assms(2-4) by blast
  obtain reason pid process rules where
    out: "run_outcome ?c env rq (record_of_run ?c env reason pid process rules) (Inr r) (qs_fs s')"
    using quarantine_file_outcome [OF assms(1-5)] by blast
  then obtain j m b where b: "metadata_bytes env r = Inr b" "validate_record env r = Inr ()"
    and st: "run_state ?c ((\<lambda>_. None)(KPay := Some j, KMeta := Some m)) {(m, b, 384), (j, run_data ?c, 384)} (qs_fs s')"
    and good: "record_of_run ?c env reason pid process rules r"
    by (auto simp: run_outcome_def)
  have r: "py_get r ''quarantine_id'' = PStr (uuid_text (dr_id dr))" "is_str (py_get r ''sha256'')"
    using record_describes [OF good] by (simp_all add: describes_def run_of_def)
  have fields: "map fst r = RECORD_FIELDS" using good new_record_fields by (auto simp: record_of_run_def)
  have id: "validate_quarantine_id (py_get r ''quarantine_id'') = Inr (uuid_text (dr_id dr))"
    using r(1) validate_own_id assms(3) by (simp add: fresh_draws_def)
  have p: "qc_metadata_dir cfg @ [uuid_text (dr_id dr) @ ''.json''] = run_path ?c KMeta"
    by (simp add: run_path_def run_of_def q_path.simps id_text_def)
  have at: "inode_at (qs_fs s') (run_key ?c KMeta) = Some m" using st by (simp add: run_state_def q_state_def run_key_def)
  have "content_at (qs_fs s') (run_key ?c KMeta) = Some (RegularFile b)"
    using run_content_of(2) [OF rdy st, of KMeta m b 384] by simp
  then have "in_content (fs_inodes (qs_fs s') m) = RegularFile b" using at by (simp add: content_at_def)
  from calm_load [OF assms(8) id p run_locate(1) [OF rdy st] at this]
  show ?thesis using decode_written [OF b fields assms(6,7) r] by simp
qed

lemma example_record_prints:
  "json_ok (indented_style (qe_float example_env)) (PDict example_record)" "nesting (PDict example_record) \<le> qe_loads_depth example_env"
proof -
  have "float_prints (indented_style (qe_float example_env)) 0"
    by (rule zero_prints) (simp add: indented_style_def example_env_def)
  moreover have "dict_ok example_record" by code_simp
  moreover have "list_all (\<lambda>i. length (show_nat i) \<le> 4300) [0, 1, 3, 4, 493]" by code_simp
  ultimately show "json_ok (indented_style (qe_float example_env)) (PDict example_record)"
    by (simp add: example_record_def DEFAULT_FIELDS_def dict_ok_def)
  show "nesting (PDict example_record) \<le> qe_loads_depth example_env" by code_simp
qed

theorem quarantined_record_reads_back_witness:
  "get_record example_env example_cfg (PStr (uuid_text 7))
     (snd (quarantine_file example_env example_cfg example_draws example_request (example_store []))) =
   (Inr (sort_record example_record), snd (quarantine_file example_env example_cfg example_draws example_request (example_store [])))"
proof -
  let ?run = "quarantine_file example_env example_cfg example_draws example_request (example_store [])"
  have "?run = (Inr example_record, snd ?run)" using example_returns(1) by (metis prod.collapse)
  from quarantined_record_reads_back [OF example_quiet(1), unfolded example_files, OF example_store_ready example_fresh example_source
      this example_record_prints example_returns(2)]
  show ?thesis by (simp add: example_record_facts example_names)
qed

text \<open>A store that holds the metadata of the example record only.\<close>

definition example_shelf :: qstore where
  "example_shelf = (example_store [])\<lparr>qs_fs := \<lparr>fs_names =
       [([], 0), ([''m''], 2), ([''m'', ''00000000-0000-0000-0000-000000000007.json''], 4)],
     fs_inodes = (\<lambda>i. example_inode (if i = 4 then RegularFile example_metadata else DirectoryNode)), fs_next = 5, fs_clock = 1\<rparr>\<rparr>"

lemma example_decoded:
  "decode_metadata example_env ''00000000-0000-0000-0000-000000000007'' example_metadata = Inr (sort_record example_record)"
proof -
  have "map fst example_record = RECORD_FIELDS" "is_str (py_get example_record ''sha256'')" by code_simp+
  then show ?thesis
    using decode_written [OF example_bytes(1) example_valid _ example_record_prints] example_record_facts(1) by simp
qed

lemma example_shelf_record:
  "get_record example_env example_cfg (PStr (uuid_text 7)) example_shelf = (Inr (sort_record example_record), example_shelf)"
proof -
  have id: "validate_quarantine_id (PStr (uuid_text 7)) = Inr (uuid_text 7)" by (rule validate_own_id) simp
  have at: "locate (qs_fs example_shelf) [''m'', ''00000000-0000-0000-0000-000000000007.json''] =
        Some [''m'', ''00000000-0000-0000-0000-000000000007.json'']"
      "inode_at (qs_fs example_shelf) [''m'', ''00000000-0000-0000-0000-000000000007.json''] = Some 4"
      "in_content (fs_inodes (qs_fs example_shelf) 4) = RegularFile example_metadata"
    by (simp_all add: example_shelf_def locate_def realpath_def is_dir_def content_at_def inode_at_def example_inode_def)
  show ?thesis
    using calm_load [OF _ id _ at, of example_cfg example_env] example_decoded
    by (simp add: example_names example_env_simps) (simp add: example_shelf_def example_store_def)
qed

theorem get_record_typed_witness: "record_typed (sort_record example_record)"
  using get_record_typed [OF example_shelf_record] by simp

end
