(* ===== verification/Quarantine_Restore.thy ===== *)
theory Quarantine_Restore
  imports Quarantine_Records
begin

text \<open>
  Restoring a file from the quarantine: whatever fails, no name that existed changes but those of the
  metadata record, and a restoration that returns has written the verified bytes of the payload to a
  name that was free.
\<close>

section \<open>Names that are left alone\<close>

definition regular_at :: "fsys \<Rightarrow> path \<Rightarrow> bool" where
  "regular_at fs k \<longleftrightarrow> (\<forall>i. inode_at fs k = Some i \<longrightarrow> is_regular (in_content (fs_inodes fs i)))"

text \<open>Every name outside \<open>M\<close> leads to the file it led to at first, and no file of then has changed.\<close>

definition guarded :: "fsys \<Rightarrow> path set \<Rightarrow> fsys \<Rightarrow> bool" where
  "guarded fs0 M fs \<longleftrightarrow> fs_ok fs0 \<and> fs_ok fs \<and> same_nodes fs0 fs \<and>
     (\<forall>k i. inode_at fs0 k = Some i \<longrightarrow> k \<notin> M \<longrightarrow> inode_at fs k = Some i) \<and>
     (\<forall>k \<in> M. regular_at fs0 k \<and> regular_at fs k)"

lemma guarded_tree:
  assumes "guarded fs0 M fs"
  shows "keeps_tree fs0 fs"
proof (rule keeps_tree_names)
  fix k i
  assume "inode_at fs0 k = Some i" "inode_at fs k \<noteq> Some i"
  then have "k \<in> M" using assms by (auto simp: guarded_def)
  then show "is_regular (in_content (fs_inodes fs0 i))"
    using assms \<open>inode_at fs0 k = Some i\<close> by (auto simp: guarded_def regular_at_def)
qed (use assms in \<open>simp_all add: guarded_def\<close>)

lemma guardedI:
  assumes "fs_ok fs0" and "same_nodes fs0 fs" and names: "\<And>k i. inode_at fs0 k = Some i \<Longrightarrow> k \<notin> M \<Longrightarrow> inode_at fs k = Some i"
    and reg: "\<And>k. k \<in> M \<Longrightarrow> regular_at fs0 k" "\<And>k. k \<in> M \<Longrightarrow> regular_at fs k"
    and bound: "\<And>k i. inode_at fs k = Some i \<Longrightarrow> i < fs_next fs"
  shows "guarded fs0 M fs"
proof -
  have "keeps_tree fs0 fs"
  proof (rule keeps_tree_names [OF assms(1,2)])
    show "is_regular (in_content (fs_inodes fs0 i))" if "inode_at fs0 k = Some i" "inode_at fs k \<noteq> Some i" for k i
      using that names [of k i] reg(1) [of k] by (auto simp: regular_at_def)
  qed
  then have "fs_ok fs" using fs_ok_keeps [OF assms(1)] bound by blast
  then show ?thesis using assms by (simp add: guarded_def)
qed

lemma regular_at_same:
  assumes "same_nodes fs fs'" and "fs_ok fs" and "regular_at fs k" and "inode_at fs' k = inode_at fs k"
  shows "regular_at fs' k"
  using assms same_nodes_content [OF assms(1)] fs_okD [OF assms(2)] by (auto simp: regular_at_def)

lemma guarded_created:
  assumes g: "guarded fs0 M fs" and c: "created t fs fs'"
  shows "guarded fs0 M fs'"
proof (rule guardedI)
  show "same_nodes fs0 fs'" using g c by (auto simp: guarded_def created_def intro: same_nodes_trans)
  show "inode_at fs' k = Some i" if "inode_at fs0 k = Some i" "k \<notin> M" for k i
  proof -
    have "inode_at fs k = Some i" using g that by (simp add: guarded_def)
    then show ?thesis using c by (auto simp: created_def)
  qed
  show "regular_at fs' k" if "k \<in> M" for k
  proof (cases "k = t")
    case True
    then show ?thesis using c by (simp add: created_def regular_at_def)
  next
    case False
    then show ?thesis
      using regular_at_same [of fs fs' k] g c that by (simp add: guarded_def created_def)
  qed
  show "i < fs_next fs'" if "inode_at fs' k = Some i" for k i
    using that c fs_okD [of fs k i] g by (auto simp: created_def guarded_def split: if_splits)
qed (use g in \<open>auto simp: guarded_def\<close>)

lemma guarded_unlinked:
  assumes g: "guarded fs0 M fs" and r: "renamed ((inode_at fs)(t := None)) fs fs'"
    and j: "inode_at fs t = Some j" "fs_next fs0 \<le> j"
  shows "guarded fs0 M fs'"
proof (rule guardedI)
  show "same_nodes fs0 fs'" using g r by (auto simp: guarded_def renamed_def intro: same_nodes_trans)
  show "inode_at fs' k = Some i" if k: "inode_at fs0 k = Some i" "k \<notin> M" for k i
  proof -
    have "inode_at fs k = Some i" "i < fs_next fs0" using g k fs_okD by (auto simp: guarded_def)
    then show ?thesis using r j by (auto simp: renamed_def)
  qed
  show "regular_at fs' k" if "k \<in> M" for k
  proof (cases "k = t")
    case True
    then show ?thesis using r by (simp add: renamed_def regular_at_def)
  next
    case False
    then show ?thesis using regular_at_same [of fs fs' k] g r that by (simp add: guarded_def renamed_def)
  qed
  show "i < fs_next fs'" if "inode_at fs' k = Some i" for k i
    using that r fs_okD [of fs k i] g by (auto simp: renamed_def guarded_def split: if_splits)
qed (use g in \<open>auto simp: guarded_def\<close>)

lemma guarded_meta:
  assumes g: "guarded fs0 M fs" and s: "meta_state m t fs fs'" and M: "m \<in> M" "t \<in> M"
  shows "guarded fs0 M fs'"
proof (rule guardedI)
  have ok: "fs_ok fs" and reg: "\<And>k. k \<in> M \<Longrightarrow> regular_at fs k" using g by (simp_all add: guarded_def)
  show "same_nodes fs0 fs'" using g meta_state_nodes [OF s] by (auto simp: guarded_def intro: same_nodes_trans)
  show "inode_at fs' k = Some i" if k: "inode_at fs0 k = Some i" "k \<notin> M" for k i
  proof -
    have "inode_at fs k = Some i" using g k by (simp add: guarded_def)
    then show ?thesis using meta_state_other [OF s, of k] k(2) M by metis
  qed
  show "i < fs_next fs'" if "inode_at fs' k = Some i" for k i
    using meta_state_tree(2) [OF s ok] reg [OF M(1)] that fs_okD by (auto simp: regular_at_def)
  show "regular_at fs' k" if k: "k \<in> M" for k
  proof (cases "meta_grown m t fs fs'")
    case True
    then obtain a b where "inode_at fs' = (inode_at fs)(m := a, t := b)" "a = inode_at fs m \<or> a = Some (fs_next fs)"
        "b = None \<or> b = Some (fs_next fs)" "is_regular (in_content (fs_inodes fs' (fs_next fs)))"
      unfolding meta_grown_def by blast
    then show ?thesis
      using regular_at_same [OF meta_state_nodes [OF s] ok reg [OF k]] by (auto simp: regular_at_def split: if_splits)
  next
    case False
    then show ?thesis using s reg [OF k] by (simp add: meta_state_def)
  qed
qed (use g in \<open>auto simp: guarded_def\<close>)

section \<open>The steps of a restoration\<close>

text \<open>The store at a known file system and with known local variables.\<close>

definition on_fs :: "fsys \<Rightarrow> q_vars \<Rightarrow> qstore \<Rightarrow> bool" where
  "on_fs fs v s \<longleftrightarrow> quiet s \<and> qs_fs s = fs \<and> qs_vars s = v"

lemma on_fs_step: "on_fs fs v s \<Longrightarrow> fs_step s s' \<Longrightarrow> quiet s' \<Longrightarrow> on_fs (qs_fs s') v s'"
  by (simp add: on_fs_def fs_step_def)

lemma on_looks:
  assumes "looks m Q E"
  shows "triple (on_fs fs v) m (\<lambda>x s. on_fs fs v s \<and> Q fs x) (\<lambda>e s. on_fs fs v s)"
proof (rule tripleI)
  fix s x s'
  assume on: "on_fs fs v s" and run: "m s = (Inr x, s')"
  note l = looksD [OF assms _ run]
  have "quiet s" using on by (simp add: on_fs_def)
  then show "on_fs fs v s' \<and> Q fs x" using l(1,2,3) l(4) on on_fs_step [OF on] by (auto simp: on_fs_def)
next
  fix s e s'
  assume on: "on_fs fs v s" and run: "m s = (Inl e, s')"
  note l = looksD [OF assms _ run]
  have "quiet s" using on by (simp add: on_fs_def)
  then show "on_fs fs v s'" using l(1,2,3) on on_fs_step [OF on] by (auto simp: on_fs_def)
qed

text \<open>A step that only looks, before the next.\<close>

lemma look_then:
  assumes "looks m Q E" and "\<And>x. Q fs x \<Longrightarrow> triple (on_fs fs v) (f x) R F" and "\<And>e s. on_fs fs v s \<Longrightarrow> F e s"
  shows "triple (on_fs fs v) (eff_bind m f) R F"
proof (rule triple_bind)
  show "triple (on_fs fs v) m (\<lambda>x s. on_fs fs v s \<and> Q fs x) F"
    by (rule triple_weaken [OF on_looks [OF assms(1)]]) (auto intro: assms(3))
qed (rule triple_pure, rule assms(2))

lemma lift_then:
  fixes r :: "q_exc + 'a"
  assumes "\<And>x. r = Inr x \<Longrightarrow> triple (on_fs fs v) (f x) R F" and "\<And>e s. on_fs fs v s \<Longrightarrow> F e s"
  shows "triple (on_fs fs v) (eff_bind (eff_lift r) f) R F"
  by (rule look_then [OF looks_lift [where v = r and Q = "\<lambda>_ x. r = Inr x" and E = "\<lambda>_. True"]]) (auto intro: assms)

lemma vars_then:
  assumes "triple (on_fs fs (g v)) (f ()) R F"
  shows "triple (on_fs fs v) (eff_bind (set_vars g) f) R F"
proof (rule triple_bind)
  show "triple (on_fs fs v) (set_vars g) (\<lambda>_. on_fs fs (g v)) F"
    unfolding set_vars_def by (rule triple_modify) (simp add: on_fs_def quiet_def)
qed (simp add: assms)

lemma prepare_restore_target_looks: "looks (prepare_restore_target env t) (\<lambda>_ _. True) (\<lambda>_. True)"
  unfolding prepare_restore_target_def
  by (intro looks_bind [OF looks_lift [where Q = "\<lambda>_ _. True" and E = "\<lambda>_. True"]])
    (auto intro!: looks_if looks_raise looks_return looks_bind [OF q_lexists_looks] looks_bind [OF q_query_looks]
      simp: Let_def split: option.splits prod.splits)

text \<open>The exclusive creation of the target.\<close>

lemma open_excl_locates:
  assumes "quiet s" and "q_open_excl env mode p s = (Inr fd, s')"
  shows "locate (qs_fs s) p \<noteq> None"
  using callsD(3) [OF q_call_calls assms(1) assms(2) [unfolded q_open_excl_def] refl]
  by (auto simp: sys_create_def split: option.splits)

lemma open_target_step:
  "triple (on_fs fs v) (open_exclusive_restore_target env p)
     (\<lambda>fd s. \<exists>k fs'. on_fs fs' v s \<and> locate fs p = Some k \<and> created k fs fs' \<and> fd = fs_next fs \<and> inode_bytes fs' fd = []) (\<lambda>_. on_fs fs v)"
  unfolding open_exclusive_restore_target_def
proof (rule triple_catch)
  show "triple (on_fs fs v) (q_open_excl env 384 p)
      (\<lambda>fd s. \<exists>k fs'. on_fs fs' v s \<and> locate fs p = Some k \<and> created k fs fs' \<and> fd = fs_next fs \<and> inode_bytes fs' fd = []) (\<lambda>_. on_fs fs v)"
  proof (rule tripleI)
    fix s fd s'
    assume on: "on_fs fs v s" and run: "q_open_excl env 384 p s = (Inr fd, s')"
    have "quiet s" using on by (simp add: on_fs_def)
    note c = callsD [OF q_open_excl_spec this run]
    obtain k where "locate fs p = Some k" using open_excl_locates [OF \<open>quiet s\<close> run] on by (auto simp: on_fs_def)
    then show "\<exists>k fs'. on_fs fs' v s' \<and> locate fs p = Some k \<and> created k fs fs' \<and> fd = fs_next fs \<and> inode_bytes fs' fd = []"
      using c(1,2) c(3) [OF refl] on on_fs_step [OF on] by (auto simp: on_fs_def)
  next
    fix s e s'
    assume on: "on_fs fs v s" and run: "q_open_excl env 384 p s = (Inl e, s')"
    have "quiet s" using on by (simp add: on_fs_def)
    note c = callsD [OF q_open_excl_spec this run]
    show "on_fs fs v s'" using c(1,2) c(4) [OF refl] on on_fs_step [OF on] by (auto simp: on_fs_def)
  qed
qed (rule triple_raise, assumption)

text \<open>A step whose effect on the file system is known, before the next.\<close>

lemma run_then:
  assumes step: "\<And>s x s'. on_fs fs v s \<Longrightarrow> m s = (Inr x, s') \<Longrightarrow> on_fs (qs_fs s') v s' \<and> Q x (qs_fs s')"
    and fail: "\<And>s e s'. on_fs fs v s \<Longrightarrow> m s = (Inl e, s') \<Longrightarrow> on_fs (qs_fs s') v s' \<and> E (qs_fs s')"
    and cont: "\<And>x fs'. Q x fs' \<Longrightarrow> triple (on_fs fs' v) (f x) R F" and stop: "\<And>fs' e s. E fs' \<Longrightarrow> on_fs fs' v s \<Longrightarrow> F e s"
  shows "triple (on_fs fs v) (eff_bind m f) R F"
proof (rule triple_bind)
  show "triple (on_fs fs v) m (\<lambda>x s. \<exists>fs'. on_fs fs' v s \<and> Q x fs') F"
    by (rule tripleI) (use step fail stop in blast)+
  show "triple (\<lambda>s. \<exists>fs'. on_fs fs' v s \<and> Q x fs') (f x) R F" for x
    by (rule triple_ex, rule triple_pure, rule cont)
qed

lemma call_then:
  assumes "calls m Q Z" and "\<And>x fs'. Q fs x fs' \<Longrightarrow> triple (on_fs fs' v) (f x) R F" and "\<And>e s. on_fs fs v s \<Longrightarrow> F e s"
  shows "triple (on_fs fs v) (eff_bind m f) R F"
proof (rule run_then [where Q = "\<lambda>x fs'. Q fs x fs'" and E = "\<lambda>fs'. fs' = fs"])
  show "on_fs (qs_fs s') v s' \<and> Q fs x (qs_fs s')" if on: "on_fs fs v s" and run: "m s = (Inr x, s')" for s x s'
    using callsD [OF assms(1) _ run] on on_fs_step [OF on] by (auto simp: on_fs_def)
  show "on_fs (qs_fs s') v s' \<and> qs_fs s' = fs" if on: "on_fs fs v s" and run: "m s = (Inl e, s')" for s e s'
    using callsD [OF assms(1) _ run] on on_fs_step [OF on] by (auto simp: on_fs_def)
qed (use assms in auto)

lemma copy_then:
  assumes cp: "copied src dst 0 [] fs"
    and cont: "\<And>fs'. extends dst fs fs' \<Longrightarrow> inode_bytes fs' dst = inode_bytes fs src \<Longrightarrow>
      triple (on_fs fs' v) (f (qe_sha256 env (inode_bytes fs src), length (inode_bytes fs src))) R F"
    and stop: "\<And>fs' e s. extends dst fs fs' \<Longrightarrow> on_fs fs' v s \<Longrightarrow> F e s"
  shows "triple (on_fs fs v) (eff_bind (copy_between_fds env src dst) f) R F"
proof (rule run_then [where Q = "\<lambda>x fs'. extends dst fs fs' \<and> inode_bytes fs' dst = inode_bytes fs src \<and>
      x = (qe_sha256 env (inode_bytes fs src), length (inode_bytes fs src))" and E = "extends dst fs"])
  fix s x s'
  assume on: "on_fs fs v s" and run: "copy_between_fds env src dst s = (Inr x, s')"
  then obtain b where c: "copy_rest src dst 0 [] s = (Inr b, s')" "x = (qe_sha256 env b, length b)"
    by (auto simp: copy_between_fds_def elim!: eff_bind_cases)
  have q: "quiet s" "copied src dst 0 [] (qs_fs s)" using on cp by (simp_all add: on_fs_def)
  show "on_fs (qs_fs s') v s' \<and> extends dst fs (qs_fs s') \<and> inode_bytes (qs_fs s') dst = inode_bytes fs src \<and>
      x = (qe_sha256 env (inode_bytes fs src), length (inode_bytes fs src))"
    using copy_rest_effect [OF q(1) c(1) q(2)] c(2) on on_fs_step [OF on] by (auto simp: on_fs_def)
next
  fix s e s'
  assume on: "on_fs fs v s" and run: "copy_between_fds env src dst s = (Inl e, s')"
  then have c: "copy_rest src dst 0 [] s = (Inl e, s')"
    by (auto simp: copy_between_fds_def elim!: eff_bind_cases)
  have q: "quiet s" "copied src dst 0 [] (qs_fs s)" using on cp by (simp_all add: on_fs_def)
  show "on_fs (qs_fs s') v s' \<and> extends dst fs (qs_fs s')"
    using copy_rest_effect [OF q(1) c q(2)] on on_fs_step [OF on] by (auto simp: on_fs_def)
qed (use cont stop in auto)

lemma metadata_then:
  assumes place: "\<And>dest. metadata_path cfg (py_get r ''quarantine_id'') = Inr dest \<Longrightarrow>
      meta_place dest (qc_metadata_dir cfg @ [temporary_name (text_of_id r) u]) m t fs"
    and cont: "\<And>fs' b. metadata_bytes env r = Inr b \<Longrightarrow> stored m b fs fs' \<Longrightarrow> meta_state m t fs fs' \<Longrightarrow> triple (on_fs fs' v) (f ()) R F"
    and stop: "\<And>fs' e s. meta_state m t fs fs' \<Longrightarrow> on_fs fs' v s \<Longrightarrow> F e s"
  shows "triple (on_fs fs v) (eff_bind (write_metadata_atomic env cfg u r) f) R F"
proof (rule run_then [where Q = "\<lambda>_ fs'. meta_written env r m t fs (Inr ()) fs'" and E = "meta_state m t fs"])
  fix s x s'
  assume on: "on_fs fs v s" and run: "write_metadata_atomic env cfg u r s = (Inr x, s')"
  have q: "quiet s" "qs_fs s = fs" using on by (simp_all add: on_fs_def)
  show "on_fs (qs_fs s') v s' \<and> meta_written env r m t fs (Inr ()) (qs_fs s')"
    using write_metadata_atomic_effect [OF q(1) run, of m t] place q(2) on_fs_step [OF on] by auto
next
  fix s e s'
  assume on: "on_fs fs v s" and run: "write_metadata_atomic env cfg u r s = (Inl e, s')"
  have q: "quiet s" "qs_fs s = fs" using on by (simp_all add: on_fs_def)
  show "on_fs (qs_fs s') v s' \<and> meta_state m t fs (qs_fs s')"
    using write_metadata_atomic_effect [OF q(1) run, of m t] place q(2) on_fs_step [OF on] by (auto simp: meta_written_def)
next
  fix fs' x
  assume "meta_written env r m t fs (Inr ()) fs'"
  then show "triple (on_fs fs' v) (f x) R F" using cont by (auto simp: meta_written_def)
qed (use stop in auto)

lemma target_then:
  assumes "\<And>k fs'. locate fs p = Some k \<Longrightarrow> created k fs fs' \<Longrightarrow> inode_bytes fs' (fs_next fs) = [] \<Longrightarrow> triple (on_fs fs' v) (f (fs_next fs)) R F"
    and "\<And>e s. on_fs fs v s \<Longrightarrow> F e s"
  shows "triple (on_fs fs v) (eff_bind (open_exclusive_restore_target env p) f) R F"
proof (rule triple_bind)
  show "triple (on_fs fs v) (open_exclusive_restore_target env p)
      (\<lambda>fd s. \<exists>k fs'. on_fs fs' v s \<and> locate fs p = Some k \<and> created k fs fs' \<and> fd = fs_next fs \<and> inode_bytes fs' fd = []) F"
    by (rule triple_weaken [OF open_target_step]) (auto intro: assms(2))
  show "triple (\<lambda>s. \<exists>k fs'. on_fs fs' v s \<and> locate fs p = Some k \<and> created k fs fs' \<and> fd = fs_next fs \<and> inode_bytes fs' fd = []) (f fd) R F" for fd
    by (rule triple_ex, rule triple_ex, rule triple_pure) (use assms(1) in auto)
qed

section \<open>The run of a restoration\<close>

text \<open>The names of the metadata record: its file and the temporary names of the two writes.\<close>

definition record_key :: "path \<Rightarrow> string \<Rightarrow> path" where
  "record_key md t = md @ [t @ ''.json'']"

definition scratch_key :: "path \<Rightarrow> string \<Rightarrow> nat \<Rightarrow> path" where
  "scratch_key md t u = md @ [temporary_name t u]"

definition record_keys :: "path \<Rightarrow> string \<Rightarrow> draws \<Rightarrow> path set" where
  "record_keys md t dr = {record_key md t, scratch_key md t (dr_metadata dr), scratch_key md t (dr_rollback dr)}"

definition record_ready :: "q_cfg \<Rightarrow> path \<Rightarrow> draws \<Rightarrow> string \<Rightarrow> fsys \<Rightarrow> bool" where
  "record_ready cfg md dr t fs \<longleftrightarrow> fs_ok fs \<and> realpath fs (qc_metadata_dir cfg) = Some md \<and> is_dir fs md \<and>
     inode_at fs (scratch_key md t (dr_metadata dr)) = None \<and> inode_at fs (scratch_key md t (dr_rollback dr)) = None"

lemma record_ready_guarded:
  assumes "record_ready cfg md dr t fs" and "regular_at fs (record_key md t)"
  shows "guarded fs (record_keys md t dr) fs"
  using assms by (auto simp: guarded_def record_ready_def record_keys_def regular_at_def)

lemma record_place:
  assumes rdy: "record_ready cfg md dr t fs0" and g: "guarded fs0 (record_keys md t dr) fs" and id: "py_get r ''quarantine_id'' = PStr t"
    and canon: "validate_quarantine_id (PStr t) = Inr t" and dest: "metadata_path cfg (py_get r ''quarantine_id'') = Inr dest"
  shows "meta_place dest (qc_metadata_dir cfg @ [temporary_name (text_of_id r) u]) (record_key md t) (scratch_key md t u) fs"
proof -
  have idt: "text_of_id r = t" using id by (simp add: text_of_id_def)
  have d: "dest = qc_metadata_dir cfg @ [t @ ''.json'']" using dest id canon by (simp add: metadata_path_def)
  have t: "length t = 36"
    using canon uuid_text_length by (auto simp: validate_quarantine_id_def split: option.splits if_splits)
  have "record_key md t \<noteq> scratch_key md t u" using t by (auto simp: record_key_def scratch_key_def temporary_name_def)
  moreover have "locate fs (qc_metadata_dir cfg @ [x]) = Some (md @ [x])" if "x \<noteq> ''..''" for x
  proof (rule locate_keeps [OF guarded_tree [OF g]])
    show "locate fs0 (qc_metadata_dir cfg @ [x]) = Some (md @ [x])" using rdy that by (simp add: locate_def record_ready_def)
  qed (use that in simp)
  moreover have "t @ ''.json'' \<noteq> ''..''" "temporary_name t u \<noteq> ''..''" using t by (auto simp: temporary_name_def)
  ultimately show ?thesis
    using g idt d unfolding meta_place_def record_key_def scratch_key_def
    by (auto simp: guarded_def record_keys_def regular_at_def record_key_def)
qed

text \<open>The state an exception may leave: nothing that existed is touched, and only a new file can be removed by the handler.\<close>

definition fallen :: "fsys \<Rightarrow> path set \<Rightarrow> qstore \<Rightarrow> bool" where
  "fallen fs0 M s \<longleftrightarrow> quiet s \<and> guarded fs0 M (qs_fs s) \<and>
     (\<forall>d j. v_identity (qs_vars s) = Some (d, j) \<longrightarrow> fs_next fs0 \<le> j)"

lemma fallen_on:
  "on_fs fs v s \<Longrightarrow> guarded fs0 M fs \<Longrightarrow> v_identity v = None \<or> (\<exists>d. v_identity v = Some (d, fs_next fs0)) \<Longrightarrow> fallen fs0 M s"
  by (auto simp: fallen_def on_fs_def)

definition payload_verified :: "q_env \<Rightarrow> path \<Rightarrow> pydict \<Rightarrow> fsys \<Rightarrow> nat \<Rightarrow> bool" where
  "payload_verified env payload r fs i \<longleftrightarrow> lookup fs payload = Some i \<and>
     py_eq (PStr (qe_sha256 env (inode_bytes fs i))) (py_get r ''sha256'') \<and>
     py_eq (PInt (int (length (inode_bytes fs i)))) (py_get r ''size_bytes'')"

lemma verify_step:
  "triple (on_fs fs v) (verify_payload env payload r) (\<lambda>i s. on_fs fs v s \<and> payload_verified env payload r fs i) (\<lambda>_. on_fs fs v)"
  unfolding verify_payload_def
proof (rule look_then [OF open_regular_nofollow_looks])
  fix x
  assume x: "case x of (fd, st) \<Rightarrow> lookup fs payload = Some fd \<and> st = stat_of fs fd \<and> is_regular (in_content (fs_inodes fs fd))"
  obtain fd st where p: "x = (fd, st)" by (cases x)
  have facts: "lookup fs payload = Some fd" "st_size st = length (inode_bytes fs fd)" using x p by (simp_all add: stat_of_def Let_def)
  show "triple (on_fs fs v) (case x of (fd, payload_stat) \<Rightarrow> eff_bind (hash_fd env fd) (\<lambda>h.
      eff_bind (assert_fd_unchanged fd payload_stat) (\<lambda>_.
      eff_bind (reject_if (\<not> py_eq (PStr h) (py_get r ''sha256'') \<or> \<not> py_eq (PInt (int (st_size payload_stat))) (py_get r ''size_bytes''))
        (QuarantineIntegrityError ''Quarantine payload integrity verification failed; restoration was aborted'')) (\<lambda>_.
      eff_return fd)))) (\<lambda>i s. on_fs fs v s \<and> payload_verified env payload r fs i) (\<lambda>_. on_fs fs v)"
    unfolding p prod.case
  proof (rule look_then [OF hash_fd_looks], rule look_then [OF assert_fd_unchanged_looks], goal_cases)
    case (1 h u)
    show ?case
      by (rule look_then [OF reject_if_looks [where E = "\<lambda>_. True"]])
        (use 1(1) facts in \<open>auto intro!: triple_return simp: payload_verified_def\<close>)
  qed auto
qed auto

lemma verify_then:
  assumes "\<And>i. payload_verified env payload r fs i \<Longrightarrow> triple (on_fs fs v) (f i) R F" and "\<And>e s. on_fs fs v s \<Longrightarrow> F e s"
  shows "triple (on_fs fs v) (eff_bind (verify_payload env payload r) f) R F"
proof (rule triple_bind)
  show "triple (on_fs fs v) (verify_payload env payload r) (\<lambda>i s. on_fs fs v s \<and> payload_verified env payload r fs i) F"
    by (rule triple_weaken [OF verify_step]) (auto intro: assms(2))
qed (rule triple_pure, rule assms(1))

text \<open>The target: a new file under a free name, with the bytes and the mode it shall have.\<close>

definition target_made :: "fsys \<Rightarrow> path \<Rightarrow> path \<Rightarrow> string \<Rightarrow> nat \<Rightarrow> fsys \<Rightarrow> bool" where
  "target_made fs0 target k b mode fs \<longleftrightarrow> locate fs0 target = Some k \<and> created k fs0 fs \<and>
     in_content (fs_inodes fs (fs_next fs0)) = RegularFile b \<and> in_mode (fs_inodes fs (fs_next fs0)) = mode"

lemma target_made_chown: "target_made fs0 target k b mode fs \<Longrightarrow> target_made fs0 target k b mode (sys_fchown u g (fs_next fs0) fs)"
  using created_extend [of k fs0 fs "sys_fchown u g (fs_next fs0) fs"] by (simp add: target_made_def sys_fchown_effect)

lemma ownership_then:
  assumes "\<And>owner fs'. fs' = fs \<or> (\<exists>u g. fs' = sys_fchown u g fd fs) \<Longrightarrow> triple (on_fs fs' v) (f owner) R F" and "\<And>e s. on_fs fs v s \<Longrightarrow> F e s"
  shows "triple (on_fs fs v) (eff_bind (restore_ownership_if_privileged env fd uid gid) f) R F"
proof (rule triple_bind [where R = "\<lambda>owner s. \<exists>fs'. on_fs fs' v s \<and> (fs' = fs \<or> (\<exists>u g. fs' = sys_fchown u g fd fs))"])
  show "triple (on_fs fs v) (restore_ownership_if_privileged env fd uid gid)
      (\<lambda>owner s. \<exists>fs'. on_fs fs' v s \<and> (fs' = fs \<or> (\<exists>u g. fs' = sys_fchown u g fd fs))) F"
    unfolding restore_ownership_if_privileged_def
  proof (rule triple_if)
    show "triple (on_fs fs v) (eff_bind (eff_lift (owner_id uid)) (\<lambda>u. eff_bind (eff_lift (owner_id gid)) (\<lambda>g.
        eff_bind (q_call (unit_call (\<lambda>fs. Inr (sys_fchown u g fd fs)))) (\<lambda>_. eff_return True))))
        (\<lambda>owner s. \<exists>fs'. on_fs fs' v s \<and> (fs' = fs \<or> (\<exists>u g. fs' = sys_fchown u g fd fs))) F"
      by (intro lift_then call_then [OF unit_call_calls] triple_return) (auto intro: assms(2))
  qed (rule triple_return, auto)
  show "triple (\<lambda>s. \<exists>fs'. on_fs fs' v s \<and> (fs' = fs \<or> (\<exists>u g. fs' = sys_fchown u g fd fs))) (f owner) R F" for owner
    by (rule triple_ex, rule triple_pure, rule assms(1))
qed

lemma stat_of_ino [simp]: "st_ino (stat_of fs i) = i"
  by (simp add: stat_of_def Let_def)

lemma fallen_created:
  "guarded fs0 M fs0 \<Longrightarrow> created k fs0 fs \<Longrightarrow> on_fs fs v s \<Longrightarrow> v_identity v = None \<or> (\<exists>d. v_identity v = Some (d, fs_next fs0)) \<Longrightarrow> fallen fs0 M s"
  using guarded_created fallen_on by blast

text \<open>From the verified copy on: mode, owner and the flush to disk.\<close>

lemma finish_target:
  assumes g: "guarded fs0 M fs0" and c: "created k fs0 fs" and loc: "locate fs0 target = Some k"
    and content: "in_content (fs_inodes fs (fs_next fs0)) = RegularFile b" and v: "v_identity v = Some (d, fs_next fs0)"
  shows "triple (on_fs fs v)
    (eff_bind (eff_lift (restored_mode_of mv)) (\<lambda>mode.
     eff_bind (q_fchmod mode (fs_next fs0)) (\<lambda>_.
     eff_bind (restore_ownership_if_privileged env (fs_next fs0) uid gid) (\<lambda>owner.
     eff_bind q_fsync (\<lambda>_.
     eff_bind (q_fstat (fs_next fs0)) (\<lambda>target_stat.
     eff_bind (set_vars (v_identity_update (\<lambda>_. Some (st_dev target_stat, st_ino target_stat)))) (\<lambda>_.
     eff_return (target, mode, owner))))))))
    (\<lambda>(p, mode, owner) s. \<exists>fs' v' d. on_fs fs' v' s \<and> p = target \<and> target_made fs0 target k b mode fs' \<and>
       restored_mode_of mv = Inr mode \<and> v_identity v' = Some (d, fs_next fs0)) (\<lambda>_. fallen fs0 M)"
proof (rule lift_then)
  fix mode
  assume mode: "restored_mode_of mv = Inr mode"
  let ?fs3 = "sys_fchmod mode (fs_next fs0) fs"
  have made: "target_made fs0 target k b mode ?fs3"
    using created_extend [OF c, of ?fs3] content loc by (simp add: target_made_def sys_fchmod_effect)
  have made4: "target_made fs0 target k b mode fs4" if "fs4 = ?fs3 \<or> (\<exists>u g. fs4 = sys_fchown u g (fs_next fs0) ?fs3)" for fs4
    using that made target_made_chown by blast
  have stop: "fallen fs0 M s" if "on_fs fs4 v s" and "fs4 = ?fs3 \<or> (\<exists>u g. fs4 = sys_fchown u g (fs_next fs0) ?fs3)" for fs4 s
    using fallen_created [OF g _ that(1)] made4 [OF that(2)] v by (auto simp: target_made_def)
  show "triple (on_fs fs v)
    (eff_bind (q_fchmod mode (fs_next fs0)) (\<lambda>_.
     eff_bind (restore_ownership_if_privileged env (fs_next fs0) uid gid) (\<lambda>owner.
     eff_bind q_fsync (\<lambda>_.
     eff_bind (q_fstat (fs_next fs0)) (\<lambda>target_stat.
     eff_bind (set_vars (v_identity_update (\<lambda>_. Some (st_dev target_stat, st_ino target_stat)))) (\<lambda>_.
     eff_return (target, mode, owner)))))))
    (\<lambda>(p, mode, owner) s. \<exists>fs' v' d. on_fs fs' v' s \<and> p = target \<and> target_made fs0 target k b mode fs' \<and>
       restored_mode_of mv = Inr mode \<and> v_identity v' = Some (d, fs_next fs0)) (\<lambda>_. fallen fs0 M)"
  proof (rule call_then [OF q_fchmod_spec], hypsubst, rule ownership_then, rule look_then [OF q_fsync_looks], rule look_then [OF q_fstat_looks],
      rule vars_then, rule triple_return, goal_cases)
    case (1 x owner fs4 u st s)
    then show ?case using made4 [OF 1(1)] mode by (fastforce simp: prod.case)
  qed (erule (1) stop | erule stop, blast | use fallen_created [OF g c] v in blast)+
qed (use fallen_created [OF g c] v in auto)

lemma fill_step:
  assumes g: "guarded fs0 M fs0" and i: "i < fs_next fs0" and v: "v_identity v = None"
  shows "triple (on_fs fs0 v) (fill_target env i destination r)
    (\<lambda>(target, mode, owner) s. \<exists>k fs v' d. on_fs fs v' s \<and> target_made fs0 target k (inode_bytes fs0 i) mode fs \<and>
       restored_mode_of (py_get r ''original_mode'') = Inr mode \<and> v_identity v' = Some (d, fs_next fs0)) (\<lambda>_. fallen fs0 M)"
  unfolding fill_target_def
proof (rule look_then [OF prepare_restore_target_looks], rule vars_then, rule target_then, rule look_then [OF q_fstat_looks],
    rule vars_then, goal_cases)
  case (1 target k fs1 opened)
  have cp: "copied i (fs_next fs0) 0 [] fs1" using 1 i by (simp add: copied_def created_def)
  have same: "inode_bytes fs1 i = inode_bytes fs0 i" using 1(3) i by (simp add: created_def same_nodes_bytes)
  have stop: "fallen fs0 M s" if "extends (fs_next fs0) fs1 fs2"
      and "on_fs fs2 (v_identity_update (\<lambda>_. Some (st_dev opened, st_ino opened)) (v_target_update (\<lambda>_. Some target) v)) s" for fs2 s
    using fallen_created [OF g created_extend [OF 1(3)] that(2)] that(1) 1(5) by (auto simp: extends_def)
  show ?case
  proof (rule copy_then [OF cp], unfold prod.case, rule look_then [OF reject_if_looks [where E = "\<lambda>_. True"]], goal_cases)
    case (2 fs2 u)
    have c: "created k fs0 fs2" and reg: "is_regular (in_content (fs_inodes fs2 (fs_next fs0)))"
      using created_extend [OF 1(3), of fs2] 2(1) by (simp_all add: extends_def)
    have b: "in_content (fs_inodes fs2 (fs_next fs0)) = RegularFile (inode_bytes fs0 i)"
      using inode_bytes_regular [OF reg] 2(2) same by simp
    show ?case
      by (rule triple_weaken [OF finish_target [OF g c 1(2) b]]) (use 1(5) in auto)
  qed (simp | erule (1) stop)+
qed (use fallen_created [OF g] fallen_on g v in auto)

text \<open>
  What a restoration that returns has done: the verified bytes of the payload stand, with the recorded
  mode, under a name that was free, and the record is marked and stored.
\<close>

definition restored_result ::
  "q_env \<Rightarrow> draws \<Rightarrow> path \<Rightarrow> pydict \<Rightarrow> string \<Rightarrow> fsys \<Rightarrow> path \<Rightarrow> path \<Rightarrow> pydict \<Rightarrow> fsys \<Rightarrow> bool" where
  "restored_result env dr md r b fs0 target k r' fs \<longleftrightarrow>
     locate fs0 target = Some k \<and> inode_at fs0 k = None \<and> content_at fs k = Some (RegularFile b) \<and>
     (\<exists>mode utc owner mb. restored_mode_of (py_get r ''original_mode'') = Inr mode \<and>
        map_option (\<lambda>j. in_mode (fs_inodes fs j)) (inode_at fs k) = Some mode \<and>
        r' = mark_restored (dr_now dr) utc target mode owner r \<and> metadata_bytes env r' = Inr mb \<and>
        content_at fs (record_key md (text_of_id r)) = Some (RegularFile mb))"

lemma mark_restored_id: "py_get (mark_restored now utc target mode owner r) ''quarantine_id'' = py_get r ''quarantine_id''"
  by (simp add: mark_restored_def py_get_def dict_get_or_def)

lemma stored_target:
  assumes made: "target_made fs0 target k b mode fs" and st: "stored m mb fs fs'" and "k \<noteq> m"
  shows "content_at fs' k = Some (RegularFile b)" and "map_option (\<lambda>j. in_mode (fs_inodes fs' j)) (inode_at fs' k) = Some mode"
    and "content_at fs' m = Some (RegularFile mb)" and "inode_at fs0 k = None"
proof -
  have at: "inode_at fs' k = Some (fs_next fs0)" and lt: "fs_next fs0 < fs_next fs"
    using made st assms(3) by (auto simp: target_made_def created_def stored_def)
  have "same_node (fs_inodes fs (fs_next fs0)) (fs_inodes fs' (fs_next fs0))" using st lt by (simp add: stored_def same_nodes_def)
  note n = same_node_fields(1,2) [OF this]
  show "content_at fs' k = Some (RegularFile b)" "map_option (\<lambda>j. in_mode (fs_inodes fs' j)) (inode_at fs' k) = Some mode"
    using at n made by (simp_all add: content_at_def target_made_def)
  show "content_at fs' m = Some (RegularFile mb)" using st by (simp add: content_at_def stored_def)
  show "inode_at fs0 k = None" using made by (simp add: target_made_def created_def)
qed

lemma commit_step:
  assumes rdy: "record_ready cfg md dr t fs0" and g: "guarded fs0 (record_keys md t dr) fs0" and here: "inode_at fs0 (record_key md t) \<noteq> None"
    and id: "py_get r ''quarantine_id'' = PStr t" and canon: "validate_quarantine_id (PStr t) = Inr t"
    and made: "target_made fs0 target k b mode fs" and mode: "restored_mode_of (py_get r ''original_mode'') = Inr mode"
    and v: "v_identity v = Some (d, fs_next fs0)"
  shows "triple (on_fs fs v) (commit_restore env cfg dr r target mode owner)
    (\<lambda>(p, r') s. p = target \<and> restored_result env dr md r b fs0 target k r' (qs_fs s) \<and> fallen fs0 (record_keys md t dr) s)
    (\<lambda>_. fallen fs0 (record_keys md t dr))"
  unfolding commit_restore_def Let_def
proof (rule vars_then, rule lift_then, rule vars_then, goal_cases)
  case (1 utc)
  let ?M = "record_keys md t dr" and ?r = "mark_restored (dr_now dr) utc target mode owner r"
  have gf: "guarded fs0 ?M fs" using guarded_created [OF g] made by (auto simp: target_made_def)
  have keys: "record_key md t \<in> ?M" "scratch_key md t (dr_metadata dr) \<in> ?M" by (simp_all add: record_keys_def)
  have ne: "k \<noteq> record_key md t" using made here by (auto simp: target_made_def created_def)
  have stop: "fallen fs0 ?M s" if "meta_state (record_key md t) (scratch_key md t (dr_metadata dr)) fs fs'" and "on_fs fs' w s"
      and "v_identity w = v_identity v" for fs' w s
    using fallen_on [OF that(2) guarded_meta [OF gf that(1) keys]] that(3) v by simp
  show ?case
  proof (rule metadata_then [where m = "record_key md t" and t = "scratch_key md t (dr_metadata dr)"], goal_cases)
    case (1 dest)
    then show ?case using record_place [OF rdy gf _ canon] id mark_restored_id by metis
  next
    case (2 fs' mb)
    have idt: "text_of_id r = t" using id by (simp add: text_of_id_def)
    have "restored_result env dr md r b fs0 target k ?r fs'"
      using stored_target [OF made 2(2) ne] made mode 2(1) idt unfolding restored_result_def target_made_def by blast
    then show ?case
      by (intro look_then [OF fsync_directory_looks] triple_return) (use stop [OF 2(3)] in \<open>auto simp: on_fs_def\<close>)
  next
    case (3 fs' e s)
    then show ?case using stop by simp
  qed
qed (use fallen_created [OF g] made v in \<open>auto simp: target_made_def\<close>)

lemma restore_body_step:
  assumes rdy: "record_ready cfg md dr t fs0" and g: "guarded fs0 (record_keys md t dr) fs0" and here: "inode_at fs0 (record_key md t) \<noteq> None"
    and id: "py_get r ''quarantine_id'' = PStr t" and canon: "validate_quarantine_id (PStr t) = Inr t" and v: "v_identity v = None"
  shows "triple (on_fs fs0 v) (restore_body env cfg dr payload destination r)
    (\<lambda>(target, r') s. (\<exists>i k. payload_verified env payload r fs0 i \<and> restored_result env dr md r (inode_bytes fs0 i) fs0 target k r' (qs_fs s)) \<and>
       fallen fs0 (record_keys md t dr) s) (\<lambda>_. fallen fs0 (record_keys md t dr))"
  unfolding restore_body_def
proof (rule verify_then)
  fix i
  assume i: "payload_verified env payload r fs0 i"
  have lt: "i < fs_next fs0" using i g fs_okD by (auto simp: payload_verified_def lookup_def guarded_def bind_eq_Some_conv)
  show "triple (on_fs fs0 v) (eff_bind (fill_target env i destination r) (\<lambda>(target, mode, owner). commit_restore env cfg dr r target mode owner))
    (\<lambda>(target, r') s. (\<exists>i k. payload_verified env payload r fs0 i \<and> restored_result env dr md r (inode_bytes fs0 i) fs0 target k r' (qs_fs s)) \<and>
       fallen fs0 (record_keys md t dr) s) (\<lambda>_. fallen fs0 (record_keys md t dr))"
  proof (rule triple_bind [OF fill_step [OF g lt v]], unfold split_paired_all prod.case, intro triple_ex, goal_cases)
    case (1 target mode owner k fs v' d)
    show ?case
    proof (rule triple_pure, elim conjE, goal_cases)
      case 1
      then show ?case using i by (intro triple_weaken [OF commit_step [OF rdy g here id canon 1]]) auto
    qed
  qed
qed (use fallen_on g v in auto)

text \<open>The handler: it removes only the file the run has made, and puts the record back.\<close>

lemma fallen_from:
  assumes "\<And>fs v. guarded fs0 M fs \<Longrightarrow> (\<And>d j. v_identity v = Some (d, j) \<Longrightarrow> fs_next fs0 \<le> j) \<Longrightarrow> triple (on_fs fs v) m R F"
  shows "triple (fallen fs0 M) m R F"
proof (rule tripleI)
  fix s x s'
  assume f: "fallen fs0 M s" and run: "m s = (Inr x, s')"
  have "triple (on_fs (qs_fs s) (qs_vars s)) m R F" using assms f by (simp add: fallen_def)
  from tripleD(1) [OF this _ run] f show "R x s'" by (simp add: on_fs_def fallen_def)
next
  fix s e s'
  assume f: "fallen fs0 M s" and run: "m s = (Inl e, s')"
  have "triple (on_fs (qs_fs s) (qs_vars s)) m R F" using assms f by (simp add: fallen_def)
  from tripleD(2) [OF this _ run] f show "F e s'" by (simp add: on_fs_def fallen_def)
qed

lemma fallen_at: "on_fs fs v s \<Longrightarrow> guarded fs0 M fs \<Longrightarrow> (\<And>d j. v_identity v = Some (d, j) \<Longrightarrow> fs_next fs0 \<le> j) \<Longrightarrow> fallen fs0 M s"
  by (simp add: fallen_def on_fs_def)

lemma triple_seq:
  "triple P m R E' \<Longrightarrow> (\<And>x. triple (R x) (f x) Q E) \<Longrightarrow> (\<And>e s. E' e s \<Longrightarrow> E e s) \<Longrightarrow> triple P (eff_bind m f) Q E"
  by (rule triple_bind [where R = R]) (erule triple_weaken, auto)

lemma eff_bind_unit: "eff_bind m eff_return = m"
  by (rule ext) (auto simp: eff_bind_def eff_return_def split: prod.splits sum.splits)

lemma restore_unlink_step:
  assumes j: "fs_next fs0 \<le> j"
  shows "triple (fallen fs0 M) (unlink_if_identity_matches p (d, j)) (\<lambda>_. fallen fs0 M) (\<lambda>_. fallen fs0 M)"
  unfolding unlink_if_identity_matches_def
proof (rule fallen_from, rule look_then [OF q_lexists_looks], goal_cases)
  case (1 fs v there)
  note at = fallen_at [OF _ 1(1,2)] and new = 1(2)
  have un: "triple (on_fs fs v) (q_unlink p) (\<lambda>_. fallen fs0 M) (\<lambda>_. fallen fs0 M)" if i: "lookup fs p = Some j"
  proof -
    obtain k where k: "locate fs p = Some k" "inode_at fs k = Some j" using i by (auto simp: lookup_def bind_eq_Some_conv)
    have "triple (on_fs fs v) (eff_bind (q_unlink p) eff_return) (\<lambda>_. fallen fs0 M) (\<lambda>_. fallen fs0 M)"
    proof (rule call_then [OF q_unlink_spec], goal_cases)
      case (1 x fs')
      then have "renamed ((inode_at fs)(k := None)) fs fs'" using k(1) by blast
      then have "guarded fs0 M fs'" using guarded_unlinked [OF \<open>guarded fs0 M fs\<close> _ k(2) j] by blast
      then show ?case using new by (intro triple_return fallen_at) auto
    qed (rule at)
    then show ?thesis by (simp add: eff_bind_unit)
  qed
  show ?case
  proof (rule triple_if)
    show "triple (on_fs fs v) (eff_bind (q_lstat p) (\<lambda>info. if (st_dev info, st_ino info) \<noteq> (d, j)
        then eff_raise (QPy (OSError ''Refusing to remove replacement path during rollback'')) else q_unlink p))
        (\<lambda>_. fallen fs0 M) (\<lambda>_. fallen fs0 M)"
      by (rule look_then [OF q_lstat_looks]) (auto intro!: triple_if triple_raise un at)
  qed (rule triple_return, rule at)
qed (rule fallen_at)

lemma remove_target_step: "triple (fallen fs0 M) remove_target (\<lambda>_. fallen fs0 M) (\<lambda>_. fallen fs0 M)"
  unfolding remove_target_def
proof (rule triple_bind [where R = "\<lambda>v s. fallen fs0 M s \<and> (\<forall>d j. v_identity v = Some (d, j) \<longrightarrow> fs_next fs0 \<le> j)"])
  show "triple (fallen fs0 M) (eff_gets qs_vars) (\<lambda>v s. fallen fs0 M s \<and> (\<forall>d j. v_identity v = Some (d, j) \<longrightarrow> fs_next fs0 \<le> j))
      (\<lambda>_. fallen fs0 M)"
    by (rule triple_gets) (auto simp: fallen_def)
  fix v
  show "triple (\<lambda>s. fallen fs0 M s \<and> (\<forall>d j. v_identity v = Some (d, j) \<longrightarrow> fs_next fs0 \<le> j))
      (case (v_target v, v_identity v) of
       (Some p, Some identity) \<Rightarrow>
         eff_catch (eff_bind (unlink_if_identity_matches p identity) (\<lambda>_. eff_return True)) (\<lambda>e.
           if is_oserror e then eff_return False else eff_raise e)
     | _ \<Rightarrow> eff_return True) (\<lambda>_. fallen fs0 M) (\<lambda>_. fallen fs0 M)"
    by (rule triple_pure)
      (auto split: option.splits intro!: triple_return triple_raise triple_catch triple_if triple_bind [OF restore_unlink_step])
qed

lemma put_back_step:
  assumes rdy: "record_ready cfg md dr t fs0" and id: "py_get r ''quarantine_id'' = PStr t" and canon: "validate_quarantine_id (PStr t) = Inr t"
  shows "triple (fallen fs0 (record_keys md t dr)) (put_back_metadata env cfg (dr_rollback dr) r)
    (\<lambda>_. fallen fs0 (record_keys md t dr)) (\<lambda>_. fallen fs0 (record_keys md t dr))"
proof -
  let ?M = "record_keys md t dr" and ?m = "record_key md t" and ?t = "scratch_key md t (dr_rollback dr)"
  have keys: "?m \<in> ?M" "?t \<in> ?M" by (simp_all add: record_keys_def)
  have w: "triple (fallen fs0 ?M) (eff_bind (write_metadata_atomic env cfg (dr_rollback dr) r) (\<lambda>_. eff_return True))
      (\<lambda>_. fallen fs0 ?M) (\<lambda>_. fallen fs0 ?M)"
  proof (rule fallen_from, rule metadata_then [where m = ?m and t = ?t], goal_cases)
    case (1 fs v dest)
    then show ?case using record_place [OF rdy _ id canon] by blast
  next
    case (2 fs v fs' b)
    then show ?case using guarded_meta [OF 2(1) 2(5) keys] fallen_at by (intro triple_return) blast
  next
    case (3 fs v fs' e s)
    then show ?case using guarded_meta [OF 3(1) 3(3) keys] fallen_at by blast
  qed
  have "triple (fallen fs0 ?M) (eff_catch
       (if records_differ r (v_record v)
        then eff_bind (write_metadata_atomic env cfg (dr_rollback dr) r) (\<lambda>_. eff_return True) else eff_return True)
       (\<lambda>e. if is_caught e then eff_return False else eff_raise e)) (\<lambda>_. fallen fs0 ?M) (\<lambda>_. fallen fs0 ?M)" for v
    by (rule triple_catch [where R = "\<lambda>_. fallen fs0 ?M"]) (auto intro!: triple_if triple_return triple_raise w)
  then show ?thesis
    unfolding put_back_metadata_def by (intro triple_bind [OF triple_gets [where Q = "\<lambda>_. fallen fs0 ?M"]])
qed

lemma recover_restore_step:
  assumes "record_ready cfg md dr t fs0" and "py_get r ''quarantine_id'' = PStr t" and "validate_quarantine_id (PStr t) = Inr t"
  shows "triple (fallen fs0 (record_keys md t dr)) (recover_restore env cfg dr r e) (\<lambda>_ _. False) (\<lambda>_. fallen fs0 (record_keys md t dr))"
  unfolding recover_restore_def
  by (intro triple_if triple_raise triple_bind [OF remove_target_step] triple_bind [OF put_back_step [OF assms]]) assumption+

section \<open>What \<open>restore_file\<close> promises\<close>

text \<open>The record that the metadata file of an identifier holds.\<close>

definition record_loaded :: "q_env \<Rightarrow> q_cfg \<Rightarrow> pyval \<Rightarrow> fsys \<Rightarrow> pydict \<Rightarrow> bool" where
  "record_loaded env cfg v fs r \<longleftrightarrow> (\<exists>t i. validate_quarantine_id v = Inr t \<and>
     lookup fs (qc_metadata_dir cfg @ [t @ ''.json'']) = Some i \<and> is_regular (in_content (fs_inodes fs i)) \<and>
     decode_metadata env t (inode_bytes fs i) = Inr r)"

lemma load_metadata_step:
  "triple (on_fs fs w) (load_metadata env cfg v) (\<lambda>r s. on_fs fs w s \<and> record_loaded env cfg v fs r) (\<lambda>_. on_fs fs w)"
  unfolding load_metadata_def
proof (rule lift_then, rule lift_then, rule look_then [OF q_lexists_looks], rule triple_if, rule triple_raise, goal_cases)
  case (2 t p there)
  note id = 2(1)
  have p: "p = qc_metadata_dir cfg @ [t @ ''.json'']"
    using 2(2) valid_id_again [OF id] by (simp add: metadata_path_def)
  show ?case
  proof (rule look_then [OF q_lstat_looks], rule triple_if, rule triple_raise, goal_cases)
    case (2 st)
    then obtain i where i: "lookup fs p = Some i" "is_regular (in_content (fs_inodes fs i))" by (auto simp: stat_of_def Let_def)
    have read: "looks (eff_catch (eff_bind (q_read (sys_open_follow p)) (\<lambda>fd. q_query (\<lambda>fs. inode_bytes fs fd)))
        (\<lambda>_. eff_raise (QuarantineMetadataError ''Metadata cannot be read'')))
        (\<lambda>fs raw. \<exists>fd. sys_open_follow p fs = Inr fd \<and> raw = inode_bytes fs fd) (\<lambda>_. True)"
      by (rule looks_catch [where P = is_errno])
        (auto intro!: looks_raise looks_bind [OF q_read_looks] looks_mono [OF q_query_looks])
    obtain k where "locate fs p = Some k" "inode_at fs k = Some i" using i(1) by (auto simp: lookup_def bind_eq_Some_conv)
    then have "sys_open_follow p fs = Inr i" using open_follow_regular [of fs p k i] i(2) p by simp
    show ?case
    proof (rule look_then [OF read], rule triple_lift, goal_cases)
      case (1 raw r s)
      then show ?case using \<open>sys_open_follow p fs = Inr i\<close> i p id by (auto simp: record_loaded_def)
    qed auto
  qed auto
qed auto

lemma audit_action_vars: "audit_action env tk ty target details s = (r, s') \<Longrightarrow> quiet s' = quiet s"
  by (auto simp: audit_action_def quiet_def split: option.splits prod.splits sum.splits)

lemma restore_loaded_step:
  assumes rdy: "record_ready cfg md dr t fs0" and canon: "validate_quarantine_id (PStr t) = Inr t"
    and ld: "record_loaded env cfg v fs0 r" and t: "validate_quarantine_id v = Inr t"
  shows "triple (on_fs fs0 (no_vars\<lparr>v_record := r\<rparr>))
    (eff_catch (restore_body env cfg dr payload destination r) (recover_restore env cfg dr r))
    (\<lambda>(target, r') s. \<exists>i k. payload_verified env payload r fs0 i \<and> restored_result env dr md r (inode_bytes fs0 i) fs0 target k r' (qs_fs s) \<and>
       guarded fs0 (record_keys md t dr) (qs_fs s))
    (\<lambda>_ s. guarded fs0 (record_keys md t dr) (qs_fs s))"
proof -
  obtain i where id: "py_get r ''quarantine_id'' = PStr t" and "lookup fs0 (qc_metadata_dir cfg @ [t @ ''.json'']) = Some i"
      and reg: "is_regular (in_content (fs_inodes fs0 i))"
    using ld t decode_metadata_typed by (auto simp: record_loaded_def)
  then have at: "inode_at fs0 (record_key md t) = Some i"
    using rdy by (auto simp: lookup_def locate_def record_ready_def record_key_def bind_eq_Some_conv split: if_splits)
  then have g: "guarded fs0 (record_keys md t dr) fs0" using record_ready_guarded [OF rdy] reg by (simp add: regular_at_def)
  have here: "inode_at fs0 (record_key md t) \<noteq> None" using at by simp
  show "triple (on_fs fs0 (no_vars\<lparr>v_record := r\<rparr>)) (eff_catch (restore_body env cfg dr payload destination r) (recover_restore env cfg dr r))
    (\<lambda>(target, r') s. \<exists>i k. payload_verified env payload r fs0 i \<and> restored_result env dr md r (inode_bytes fs0 i) fs0 target k r' (qs_fs s) \<and>
       guarded fs0 (record_keys md t dr) (qs_fs s))
    (\<lambda>_ s. guarded fs0 (record_keys md t dr) (qs_fs s))"
  proof (rule triple_catch)
    show "triple (on_fs fs0 (no_vars\<lparr>v_record := r\<rparr>)) (restore_body env cfg dr payload destination r)
      (\<lambda>(target, r') s. \<exists>i k. payload_verified env payload r fs0 i \<and> restored_result env dr md r (inode_bytes fs0 i) fs0 target k r' (qs_fs s) \<and>
         guarded fs0 (record_keys md t dr) (qs_fs s)) (\<lambda>_. fallen fs0 (record_keys md t dr))"
      by (rule triple_weaken [OF restore_body_step [OF rdy g here id canon]]) (auto simp: fallen_def no_vars_def)
    show "triple (fallen fs0 (record_keys md t dr)) (recover_restore env cfg dr r e)
      (\<lambda>(target, r') s. \<exists>i k. payload_verified env payload r fs0 i \<and> restored_result env dr md r (inode_bytes fs0 i) fs0 target k r' (qs_fs s) \<and>
         guarded fs0 (record_keys md t dr) (qs_fs s)) (\<lambda>_ s. guarded fs0 (record_keys md t dr) (qs_fs s))" for e
      by (rule triple_weaken [OF recover_restore_step [OF rdy id canon]]) (auto simp: fallen_def)
  qed
qed

text \<open>The audit record at the end changes no file and never raises.\<close>

lemma audit_last:
  assumes "\<And>s u. P s \<Longrightarrow> qs_fs u = qs_fs s \<Longrightarrow> Q r' u"
  shows "triple P (eff_bind (audit_action env tk ty p details) (\<lambda>_. eff_return r')) Q E"
  unfolding triple_def
proof (intro allI impI)
  fix s r s'
  assume "P s" and "eff_bind (audit_action env tk ty p details) (\<lambda>_. eff_return r') s = (r, s')"
  from this(2) show "case r of Inl e \<Rightarrow> E e s' | Inr x \<Rightarrow> Q x s'"
  proof (cases rule: eff_bind_cases)
    case (raised e)
    then show ?thesis using audit_action_fs [OF raised(1)] by simp
  next
    case (returned x u)
    then show ?thesis using audit_action_fs [OF returned(1)] assms [OF \<open>P s\<close>] by auto
  qed
qed

lemma restore_file_step:
  assumes rdy: "record_ready cfg md dr t fs0" and t: "validate_quarantine_id v = Inr t"
  shows "triple (on_fs fs0 w) (restore_file env cfg dr v destination)
    (\<lambda>r' s. \<exists>r i target k. record_loaded env cfg v fs0 r \<and> payload_verified env (qc_quarantine_dir cfg @ [t]) r fs0 i \<and>
       restored_result env dr md r (inode_bytes fs0 i) fs0 target k r' (qs_fs s) \<and> guarded fs0 (record_keys md t dr) (qs_fs s))
    (\<lambda>_ s. qs_fs s = fs0 \<or> guarded fs0 (record_keys md t dr) (qs_fs s))"
  unfolding restore_file_def
proof (rule triple_seq [OF load_metadata_step], goal_cases)
  case (1 r)
  have canon: "validate_quarantine_id (PStr t) = Inr t" by (rule valid_id_again [OF t])
  show ?case
  proof (rule triple_pure, rule triple_if, rule triple_raise, goal_cases)
    case 2
    note ld = 2(1)
    then have id: "py_get r ''quarantine_id'' = PStr t" using t decode_metadata_typed by (auto simp: record_loaded_def)
    show ?case
    proof (rule lift_then, rule look_then [OF q_lexists_looks], rule triple_if, rule triple_raise, goal_cases)
      case (2 payload there)
      have pay: "payload = qc_quarantine_dir cfg @ [t]" using 2 id canon by (simp add: payload_path_def)
      show ?case
      proof (rule lift_then, goal_cases)
        case (1 previous)
        then have prev: "previous = r" by (auto simp: record_to_dict_def split: if_splits)
        show ?case
          unfolding prev pay
        proof (rule vars_then, rule triple_seq [OF restore_loaded_step [OF rdy canon ld t]], goal_cases)
          case (1 x)
          obtain target r' where x: "x = (target, r')" by (cases x)
          show ?case
            unfolding x prod.case
          proof (rule audit_last, elim exE conjE, goal_cases)
            case (1 s u i k)
            then show ?case using ld by (intro exI [of _ r] exI [of _ i] exI [of _ target] exI [of _ k]) simp
          qed
        qed auto
      qed (auto simp: on_fs_def)
    qed (auto simp: on_fs_def)
  qed (auto simp: on_fs_def)
qed (auto simp: on_fs_def)

text \<open>C32: Whatever \<open>restore_file\<close> returns or raises and whichever of its system calls fail, every name that existed
  before leads to the same file with the same content, mode, owner and modification time, except the
  metadata file of the record and its temporary names: a restoration never overwrites or removes an
  existing file.
\<close>

theorem restore_keeps_existing_files:
  assumes "quiet s" and "validate_quarantine_id v = Inr t" and "record_ready cfg md dr t (qs_fs s)"
    and "restore_file env cfg dr v destination s = (res, s')"
    and "inode_at (qs_fs s) k = Some i" and "k \<notin> record_keys md t dr"
  shows "inode_at (qs_fs s') k = Some i \<and> same_node (fs_inodes (qs_fs s) i) (fs_inodes (qs_fs s') i)"
proof -
  have on: "on_fs (qs_fs s) (qs_vars s) s" using assms(1) by (simp add: on_fs_def)
  note t = tripleD [OF restore_file_step [OF assms(3,2)] on]
  have "qs_fs s' = qs_fs s \<or> guarded (qs_fs s) (record_keys md t dr) (qs_fs s')"
  proof (cases res)
    case (Inl e)
    then show ?thesis using t(2) assms(4) by blast
  next
    case (Inr r')
    then show ?thesis using t(1) assms(4) by blast
  qed
  moreover have "i < fs_next (qs_fs s)" using assms(3,5) fs_okD by (auto simp: record_ready_def)
  ultimately show ?thesis using assms(5,6) by (auto simp: guarded_def same_nodes_def)
qed

text \<open>C33: When \<open>restore_file\<close> returns a record, the payload of the identifier matched the digest and the size of
  the stored record, its bytes stand with the recorded permission bits under a name that was free before,
  and the metadata file holds the record marked as restored.
\<close>

theorem restore_returns_verified_bytes:
  assumes "quiet s" and "validate_quarantine_id v = Inr t" and "record_ready cfg md dr t (qs_fs s)"
    and "restore_file env cfg dr v destination s = (Inr r', s')"
  shows "\<exists>r i target k. record_loaded env cfg v (qs_fs s) r \<and> payload_verified env (qc_quarantine_dir cfg @ [t]) r (qs_fs s) i \<and>
    restored_result env dr md r (inode_bytes (qs_fs s) i) (qs_fs s) target k r' (qs_fs s')"
proof -
  have on: "on_fs (qs_fs s) (qs_vars s) s" using assms(1) by (simp add: on_fs_def)
  from tripleD(1) [OF restore_file_step [OF assms(3,2)] on assms(4)] show ?thesis by blast
qed

section \<open>An example\<close>

definition shelved :: fsys where
  "shelved = \<lparr>fs_names = [([], 0), ([''q''], 1), ([''m''], 2), ([''t''], 3), ([''q'', ''00000000-0000-0000-0000-000000000007''], 4),
       ([''m'', ''00000000-0000-0000-0000-000000000007.json''], 5), ([''t'', ''x''], 6)],
     fs_inodes = (\<lambda>i. example_inode (if i = 4 then RegularFile ''abc'' else if i = 5 then RegularFile example_metadata
       else if i = 6 then RegularFile ''other'' else DirectoryNode)), fs_next = 7, fs_clock = 1\<rparr>"

definition shelf :: qstore where
  "shelf = (example_store [])\<lparr>qs_fs := shelved\<rparr>"

definition example_restored :: pydict where
  "example_restored = mark_restored (Fin 0) ''1970-01-01T00:00:00+00:00'' [''t'', ''y''] 493 True (sort_record example_record)"

lemma shelf_ready: "record_ready example_cfg [''m''] example_draws ''00000000-0000-0000-0000-000000000007'' shelved"
proof -
  have "fs_ok shelved" unfolding fs_ok_def
    by (auto simp: shelved_def is_dir_def content_at_def inode_at_def example_inode_def split: if_splits)
  then show ?thesis
    by (simp add: record_ready_def scratch_key_def temporary_name_def example_env_simps)
      (simp add: shelved_def realpath_def is_dir_def content_at_def inode_at_def example_inode_def)
qed

lemma shelf_id: "validate_quarantine_id (PStr ''00000000-0000-0000-0000-000000000007'') = Inr ''00000000-0000-0000-0000-000000000007''"
  by code_simp

lemma shelf_quiet: "quiet shelf" "qs_fs shelf = shelved"
  by (simp_all add: shelf_def example_store_def quiet_def)

theorem restore_keeps_existing_files_witness:
  "inode_at (qs_fs (snd (restore_file example_env example_cfg example_draws
     (PStr ''00000000-0000-0000-0000-000000000007'') (Some ''/t/x'') shelf))) [''t'', ''x''] = Some 6"
proof -
  have k: "inode_at shelved [''t'', ''x''] = Some 6" by (simp add: shelved_def inode_at_def)
  have m: "[''t'', ''x''] \<notin> record_keys [''m''] ''00000000-0000-0000-0000-000000000007'' example_draws"
    by (simp add: record_keys_def record_key_def scratch_key_def temporary_name_def)
  show ?thesis
    using restore_keeps_existing_files [OF shelf_quiet(1) shelf_id, unfolded shelf_quiet(2), OF shelf_ready prod.collapse [symmetric] k m]
    by simp
qed

lemma example_restored_facts:
  "validate_record example_env example_restored = Inr ()"
  "(case metadata_bytes example_env example_restored of Inr b \<Rightarrow> b \<noteq> [] | Inl _ \<Rightarrow> False)"
  by code_simp+


definition example_restored_metadata :: string where
  "example_restored_metadata = (case metadata_bytes example_env example_restored of Inr b \<Rightarrow> b | Inl _ \<Rightarrow> [])"

lemma example_restored_bytes: "metadata_bytes example_env example_restored = Inr example_restored_metadata" "example_restored_metadata \<noteq> []"
  using example_restored_facts(2) by (auto simp: example_restored_metadata_def split: sum.splits)

lemma shelf_record:
  "py_get (sort_record example_record) ''quarantine_id'' = PStr ''00000000-0000-0000-0000-000000000007''"
  "py_get (sort_record example_record) ''restoration_status'' = PStr ''quarantined''"
  "py_get (sort_record example_record) ''sha256'' = PStr (example_digest ''abc'')"
  "py_get (sort_record example_record) ''size_bytes'' = PInt 3"
  "restored_mode_of (py_get (sort_record example_record) ''original_mode'') = Inr 493"
  "owner_id (py_get (sort_record example_record) ''original_uid'') = Inr 0"
  "owner_id (py_get (sort_record example_record) ''original_gid'') = Inr 0"
  "record_to_dict example_env (sort_record example_record) = Inr (sort_record example_record)"
  "py_get example_restored ''quarantine_id'' = PStr ''00000000-0000-0000-0000-000000000007''"
  "text_of_id example_restored = ''00000000-0000-0000-0000-000000000007''"
  "expand_path example_env ''/t/y'' = Inr (True, [''t'', ''y''])" "dr_now example_draws = Fin 0"
  by code_simp+

lemma example_restores:
  "fst (restore_file example_env example_cfg example_draws (PStr ''00000000-0000-0000-0000-000000000007'') (Some ''/t/y'') shelf) =
     Inr example_restored"
  by (simp cong: eff_bind_weak_cong eff_catch_weak_cong add: example_run restore_file_def load_metadata_def shelf_id shelf_def shelved_def
    example_decoded shelf_record py_eq_def restore_body_def verify_payload_def fill_target_def prepare_restore_target_def open_exclusive_restore_target_def
    restore_ownership_if_privileged_def sys_fchown_def commit_restore_def lift_q_def example_restored_def [symmetric] write_metadata_atomic_def
    example_restored_facts(1) example_restored_bytes or_unlink_def audit_action_def)

theorem restore_returns_verified_bytes_witness:
  "\<exists>r i target k. record_loaded example_env example_cfg (PStr ''00000000-0000-0000-0000-000000000007'') shelved r \<and>
    payload_verified example_env [''q'', ''00000000-0000-0000-0000-000000000007''] r shelved i \<and>
    restored_result example_env example_draws [''m''] r (inode_bytes shelved i) shelved target k example_restored
      (qs_fs (snd (restore_file example_env example_cfg example_draws (PStr ''00000000-0000-0000-0000-000000000007'') (Some ''/t/y'') shelf)))"
proof -
  let ?run = "restore_file example_env example_cfg example_draws (PStr ''00000000-0000-0000-0000-000000000007'') (Some ''/t/y'') shelf"
  have run: "?run = (Inr example_restored, snd ?run)" using example_restores by (metis prod.collapse)
  show ?thesis
    using restore_returns_verified_bytes [OF shelf_quiet(1) shelf_id, unfolded shelf_quiet(2), OF shelf_ready run]
    by (simp add: example_env_simps)
qed

end
