(* ===== verification/Spec2Isabelle.thy ===== *)
theory Spec2Isabelle
  imports Correlation Telemetry Fanotify Static_Analyzer Response Ipc Audit_Log Quarantine_Restore
begin

text \<open>
  A verification library for the ELYRA engine, the Python package under \<open>src/elyra-engine/src/elyra\<close>
  (file names below are relative to it).

  \<^bold>\<open>The program.\<close> ELYRA watches a Linux host. The execution monitor receives a permission event from
  fanotify before a program starts, has the file scanned, and answers \<open>allow\<close> or \<open>deny\<close>. The scan's
  evidence is scored by a policy with capped indicator groups and a gate that a denial has to pass.
  While a program runs, eBPF probes report events; they are filtered, aggregated per process, and
  correlated with the score the file had before it started. A correlation that crosses a threshold goes
  to the response engine, which may stop the process through a process descriptor and move the
  file into the quarantine store. Clients talk to the service over a socket, one line of JSON per
  request, with an authorisation level per action. Every decision is written to a hash-chained audit log.

  \<^bold>\<open>Foundations.\<close>
  \<^item> \<open>Elyra_Prelude\<close>: results with an error side, insertion-ordered dictionaries, bounded histories, and
    the locale \<open>evicting_store\<close> of a store that drops its least recently seen entry before it grows past
    its limit. \<open>Correlation\<close> and \<open>Telemetry\<close> interpret it on their own stores.
  \<^item> \<open>Effects\<close>: operations that change a state and may raise; what was changed before an exception stays
    changed. The locale \<open>effect_relation\<close> lifts a reflexive and transitive relation from the steps of an
    operation to the operation; \<open>triple\<close> is a Hoare triple with one postcondition for a return and one
    for a raise. A public method that holds its object's lock is one operation, so an interleaving
    of threads is a sequence of operations.
  \<^item> \<open>Py_Values\<close>, \<open>Py_Path\<close>, \<open>Py_Bytes\<close>, \<open>Py_Uuid\<close>, \<open>Py_Json\<close>, \<open>Py_Time\<close>: what the engine uses of Python and its
    standard library: dynamic values with truth and equality, \<open>os.path\<close>, \<open>struct\<close>, \<open>uuid\<close>, \<open>json\<close>, \<open>isoformat\<close>.

  \<^bold>\<open>Components.\<close>
  \<^item> \<open>Entropy\<close> (\<open>analyzer/entropy.py\<close>): the streaming loop over the chunks of a file and its report. Proved: the
    result is that of the whole file however the reads cut it, the reported sample is bounded, and the loop
    returns exactly when a read reaches the end or fails.
  \<^item> \<open>Pe_Inspector\<close> (\<open>analyzer/pe.py\<close>): the bounded inspection of Windows images, in the phases of \<open>_inspect\<close>. Proved:
    reads stay inside the file and a budget of 8024 bytes; an image called valid has disjoint section data;
    the status \<open>ERROR\<close> is always a failed system call.
  \<^item> \<open>Static_Result\<close>, \<open>Static_Analyzer\<close> (\<open>analyzer/static_analyzer.py\<close>): the evidence record and the scan that fills
    it, with what each call answers per path and descriptor. Proved: what the status \<open>OK\<close> stands for (an ELF file is
    parsed only with pyelftools, else warned about), and that the path reported with a descriptor is context only.
  \<^item> \<open>Scoring\<close> (\<open>scoring/engine.py\<close>): policy documents are parsed and validated, indicators collected, summed and
    capped, and a decision taken. Proved: the score is the capped sum of the indicators and lies in its
    bounds; a denial passes the gate; every scan is answered; the order of findings does not
    matter; the corner where entropy alone denies.
  \<^item> \<open>Pre_Execution\<close> (\<open>analyzer/pre_execution.py\<close>, \<open>ai/analyst.py\<close>): scan and score merged into
    one record, the bounded wait for it, and the advisory interpretation. Proved: a record that denies
    belongs to a completed scan, and the interpretation never changes a decision. This theory joins it
    with the static analyser: a denial rests on a scan of the opened file without errors.
  \<^item> \<open>Fanotify_Policy\<close>, \<open>Fanotify\<close> (\<open>monitor/fanotify/policy.py\<close>, \<open>syscalls.py\<close>,
    \<open>controller.py\<close>): the policy, the kernel's event buffer, and the evaluation, answer and record of an
    event. Proved: containment is by path components, and an entry with two leading slashes contains nothing;
    a permission event is answered exactly once; a denial has one of the documented causes; the buffer parser inverts the kernel's layout; the
    effect of a failing answer and of a partial scan.
  \<^item> \<open>Telemetry\<close> (\<open>monitor/ebpf/events.py\<close>, \<open>collector.py\<close>, \<open>aggregator.py\<close>): decoding, the filter
    that follows descendants, the bounded queue and the per-process aggregation. Proved: what the filter
    accepts, that over any run of calls queue, consumer and drop counter account for every accepted event, and the bounds of the
    queue, the ancestry table and the store (the table of recent renames is pruned by time only).
  \<^item> \<open>Correlation\<close> (\<open>correlation/engine.py\<close>): execution states, late binding, the behaviour rules,
    expiry and eviction. Proved: an invariant of all reachable engine states, by rule induction on the
    step relation; an action once taken is not taken again; expiry removes exactly the overdue
    states; repeated evidence is counted once; a recommendation of \<open>DENY\<close> is final.
  \<^item> \<open>Response\<close> (\<open>response/engine.py\<close>): policy, binding to a live process, termination by descriptor,
    quarantine, and the suppression of weaker responses. The locale \<open>engine_calls\<close> lists what a relation on engine states needs
    to be kept by the operations without a process, \<open>engine_actions\<close> adds terminations, and \<open>engine_relation\<close> derives those
    from single signals. Proved with their interpretations: signals and quarantines happen only when authorised, a
    signal follows a fresh inspection of its process, every opened descriptor is closed, and a weaker response is suppressed.
  \<^item> \<open>File_System\<close>, \<open>Quarantine_Store\<close> (\<open>response/quarantine_manager.py\<close>): names bound to inodes,
    and the whole manager on top of them. A script (\<open>scr\<close>) says which system calls fail, which are short
    and what other processes change in between; \<open>quiet\<close> scripts have failures but no interference.
    \<open>Quarantine_Calls\<close> describes each helper on quiet scripts, \<open>Quarantine_Metadata\<close> the atomic metadata
    writes, \<open>Quarantine_Run\<close> one whole \<open>quarantine_file\<close>, and \<open>Quarantine_Example\<close> a concrete store.
    Proved in \<open>Quarantine\<close>, \<open>Quarantine_Records\<close> and \<open>Quarantine_Restore\<close>: the file's bytes stay on disk
    whatever fails; an error is undone or reported as such; a success has moved the file; a record that
    is read has the declared types; the record written reads back; a restoration overwrites no
    existing name and returns exactly the bytes whose digest was verified.
  \<^item> \<open>Authorization\<close>, \<open>Ipc\<close> (\<open>service/authorization.py\<close>, \<open>ipc_protocol.py\<close>, \<open>ipc_server.py\<close>):
    request validation, line framing, dispatch and responses. Proved: a handler only sees validated and
    authorised requests; the framing does not depend on how the bytes arrive; a built request is read back.
  \<^item> \<open>Audit_Chain\<close>, \<open>Audit_Writer\<close>, \<open>Audit_Log\<close> (\<open>audit/audit_logger.py\<close>): segments, record
    hashes, verification, and the writer with start-up repair and rotation. Proved: a record refines
    appending to an abstract log; a verified directory that differs from a valid log gives a digest
    collision; recording either adds the record or leaves the log verifiable.

  \<^bold>\<open>Bounds and fuel.\<close> The JSON reader recurses on fuel of two units per character and one more;
  \<open>loads_answers\<close> proves that this never runs out. The limits of the code are kept as they are: the audit
  tail window and the copy chunk of 1 MiB, the rotation index below one million, the histories of the
  policies. Symbolic links are followed forty deep, as the kernel does. All other recursions terminate by
  structure or by a measure, except the read loop of \<open>Entropy\<close>, a partial function whose
  returning is proved, since a file may grow while it is read.

  \<^bold>\<open>Parameters and hypotheses.\<close> Clocks, identifiers, account databases, host queries and system calls are
  arguments of the operations that use them and may answer differently each time. The digest is an
  opaque function; the results that need it say so by exhibiting a collision. The printing of a float is an
  argument with the hypothesis that the text reads back. Numbers that the code keeps as floats are exact
  rationals or the values of \<open>pyval\<close>, infinities and NaN included where the code can meet them.

  \<^bold>\<open>Not modelled.\<close>
  \<^item> The packages the static analyser calls (libmagic, pyelftools, numpy's logarithms): arguments of the scan.
  \<^item> Attachment of probes, marking of mounts, socket creation and the threads around the modelled loops: calls into
    BCC and the kernel.
  \<^item> \<open>service/daemon.py\<close> and the installation and integration checks: wiring and environment probes.
  \<^item> \<open>monitor/windows\<close>: a second platform with its own monitor, on calls of the Windows API.
  \<^item> \<open>signatures\<close>: wrappers around YARA and Authenticode.
  \<^item> \<open>ai\<close> apart from \<open>analyst.py\<close>, \<open>gui\<close>, \<open>release\<close>, \<open>measurement\<close>, \<open>update\<close>,
    \<open>behavior_lab\<close> and the scripts: conversation, display, packaging and laboratory tooling that take
    no decision of the engine.
\<close>

section \<open>From the opened file to the denial\<close>

text \<open>C5: A denial rests on a scan without errors. Take any policy document the loader accepts and any scan of the
  descriptor of a permission event: when the analysis record made from that scan says \<open>DENY\<close>, the scan recorded no
  error, its entropy evidence is that of every byte the descriptor delivered up to the end of the file, and a Windows image it
  recognised passed the whole inspection. A file with the ELF magic was parsed to its end if pyelftools is installed;
  without it the denial rests on the magic alone, \<open>elf_valid\<close> is \<open>None\<close> and the record carries the warning. So a malformed
  Windows image, and with pyelftools a malformed ELF image, is never denied, although the policy has a rule that scores
  \<open>MALFORMED_ELF\<close>.\<close>

theorem denial_rests_on_complete_scan:
  assumes "scoring_from_mapping render' data = Inr p"
    and "make_entropy_config (se_entropy_config e) = Inr (se_entropy_config e)"
    and "scan_open_fd e fd original_path = Some (Inr scan)"
    and "score_scan_record render p scan = Inr d" and "py_get d ''decision'' = PStr ''DENY''"
  shows "scan_errors scan = [] \<and>
    (\<exists>rd cs. se_dup e fd = Inr rd \<and> delivers rd 0 cs \<and>
       scan_entropy_summary scan = entropy_dict (reference_report (se_plogp e) (se_entropy_config e) (concat cs))) \<and>
    (scan_is_pe scan \<longrightarrow> scan_pe_valid scan = Some True) \<and>
    (scan_is_elf scan \<longrightarrow> (if se_elf e = None then scan_elf_valid scan = None \<and> unparsed_elf \<in> set (scan_warnings scan)
       else scan_elf_valid scan = Some True))"
proof -
  have "\<not> fd < 0" using assms(3) by (auto simp: scan_open_fd_def)
  then obtain read_path ctx where at: "scan_at e read_path ctx (Some fd) = Some (Inr scan)"
    using assms(3) unfolding scan_open_fd_def Let_def by auto
  have "scan_status scan \<noteq> ''PARTIAL''" "scan_status scan \<noteq> ''ERROR''"
    using record_denial [OF assms(1,4,5)] by blast+
  then have "scan_status scan = ''OK''" using scan_status_values [OF at] by blast
  from ok_scan [OF assms(2) at this] show ?thesis by (simp add: entropy_stream_def)
qed

text \<open>A set-user-identifier program that everybody may change, hidden in \<open>/tmp\<close> under the name of a picture.\<close>

definition disguised_env :: scan_env where
  "disguised_env = demo_scan_env\<lparr>
     se_stat := \<lambda>p. if p = ''/proc/self/fd/3'' then Inr (demo_meta\<lparr>fm_mode := 0x8DFF\<rparr>) else Inl (FileNotFoundError '''')\<rparr>"

definition disguised_scan :: static_scan where
  "disguised_scan = (case scan_open_fd disguised_env 3 (Some ''/tmp/.x.png'') of Some (Inr r) \<Rightarrow> r | _ \<Rightarrow> new_scan '''')"

definition disguised_result :: scoring_result where
  "disguised_result = (case score_scan default_scoring_policy disguised_scan of
     Inr r \<Rightarrow> r | Inl _ \<Rightarrow> degraded_result default_scoring_policy '''' PNone)"

lemma disguised_scanned: "scan_open_fd disguised_env 3 (Some ''/tmp/.x.png'') = Some (Inr disguised_scan)"
  by code_simp

lemma disguised_scored: "score_scan default_scoring_policy disguised_scan = Inr disguised_result"
  by code_simp

lemma disguised_denied: "sr_decision disguised_result = ''DENY''"
  by code_simp

lemma disguised_number: "is_ok (py_float (PInt (sr_score disguised_result)))"
  by code_simp

lemma disguised_ok: "scan_status disguised_scan = ''OK''"
  by code_simp

theorem denial_rests_on_complete_scan_witness:
  "\<exists>d. score_scan_record (\<lambda>_. '''') default_scoring_policy disguised_scan = Inr d \<and>
     py_get d ''decision'' = PStr ''DENY'' \<and> scan_errors disguised_scan = []"
proof -
  obtain d where d: "score_scan_record (\<lambda>_. '''') default_scoring_policy disguised_scan = Inr d"
    using score_scan_record_total [OF disguised_scored disguised_number] by blast
  obtain r where r: "score_scan default_scoring_policy disguised_scan = Inr r"
      "py_get d ''decision'' = (if scan_status disguised_scan = ''PARTIAL'' then PStr ''ALLOW_MONITOR'' else PStr (sr_decision r))"
    using record_decision [OF d] by blast
  have dec: "py_get d ''decision'' = PStr ''DENY''"
    using r disguised_scored disguised_denied disguised_ok by simp
  have "make_entropy_config (se_entropy_config disguised_env) = Inr (se_entropy_config disguised_env)"
    by (simp add: disguised_env_def demo_scan_env_def tiny_config_valid)
  from denial_rests_on_complete_scan [OF sample_from_mapping this disguised_scanned d dec] show ?thesis using d dec by blast
qed

end
